(* ===== verification/Prelude.thy ===== *)
theory Prelude
  imports Main "HOL-Library.Multiset" "HOL-Library.AList" "HOL-Library.List_Lexorder"
    "HOL-Library.Char_ord" "HOL-Library.Sublist" "HOL-Library.Signed_Division"
    "HOL-Library.Word"
begin

text \<open>
  Shared vocabulary of the development: fallible results as sums, Go maps as association
  lists, the parts of the \<open>strings\<close>, \<open>sort\<close> and \<open>strconv\<close> packages that the sources use,
  and the collections of facts the component theories extend.

  Go strings are byte strings; \<open>string\<close> is a list of 8-bit characters, ordered byte by
  byte (\<open>List_Lexorder\<close> over \<open>Char_ord\<close>), which is the order of Go's \<open><\<close> on strings.
\<close>

named_theorems go_defs \<open>definitions the component proofs unfold\<close>
named_theorems go_inv \<open>preservation lemmas of the component invariants\<close>

section \<open>Fallible results\<close>

text \<open>
  A Go function that returns \<open>(T, error)\<close> returns \<open>Inr\<close> of the value or \<open>Inl\<close> of the
  error; \<open>bindR\<close> is the \<open>if err != nil { return err }\<close> that follows the call.
\<close>

definition bindR :: "('err + 'u) \<Rightarrow> ('u \<Rightarrow> 'err + 'v) \<Rightarrow> 'err + 'v" where
  "bindR r k = case_sum Inl k r"

lemma bindR_simps [simp]:
  "bindR (Inl err) k = Inl err"
  "bindR (Inr u) k = k u"
  unfolding bindR_def by simp_all

lemma bindR_eq_Inr: "(bindR r k = Inr v) = (\<exists>u. r = Inr u \<and> k u = Inr v)"
  by (cases r) auto

lemma bindR_eq_Inl: "bindR m f = Inl e \<longleftrightarrow> m = Inl e \<or> (\<exists>x. m = Inr x \<and> f x = Inl e)"
  by (cases m) auto

text \<open>A guard clause: fail with the error when the condition holds.\<close>

definition failIf :: "bool \<Rightarrow> 'e \<Rightarrow> 'e + unit" where
  "failIf b e = (if b then Inl e else Inr ())"

lemma failIf_simps [simp]:
  "failIf True e = Inl e"
  "failIf False e = Inr ()"
  "(failIf b e = Inr u) = (\<not> b)"
  "(failIf b e = Inl e') = (b \<and> e' = e)"
  by (auto simp: failIf_def)

text \<open>A loop whose body may return an error: the first error ends it.\<close>

fun foldR :: "('x \<Rightarrow> 's \<Rightarrow> 'e + 's) \<Rightarrow> 'x list \<Rightarrow> 's \<Rightarrow> 'e + 's" where
  "foldR f [] s = Inr s"
| "foldR f (x # xs) s = bindR (f x s) (foldR f xs)"

lemma foldR_append: "foldR f (xs @ ys) s = bindR (foldR f xs s) (foldR f ys)"
  by (induction xs arbitrary: s) (auto simp: bindR_def split: sum.splits)

lemma foldR_inv:
  assumes "foldR f xs s = Inr t" "P s"
    and "\<And>x s t. x \<in> set xs \<Longrightarrow> P s \<Longrightarrow> f x s = Inr t \<Longrightarrow> P t"
  shows "P t"
  using assms
proof (induction xs arbitrary: s)
  case Nil
  then show ?case by simp
next
  case (Cons x xs)
  from Cons.prems(1) obtain s' where s': "f x s = Inr s'" "foldR f xs s' = Inr t"
    by (auto simp: bindR_eq_Inr)
  have "P s'" using Cons.prems(2,3) s'(1) by auto
  with s'(2) Cons.IH Cons.prems(3) show ?case by (meson list.set_intros(2))
qed

section \<open>Go maps\<close>

text \<open>
  A Go map that the code iterates or serialises is an association list: \<open>map_of\<close> reads it,
  \<open>AList.update\<close> stores into it. The order of the list stands for the unspecified
  iteration order of the Go map; every property reads maps through \<open>map_of\<close>.
\<close>

type_synonym 'v gomap = "(string \<times> 'v) list"

abbreviation put :: "string \<Rightarrow> 'v \<Rightarrow> 'v gomap \<Rightarrow> 'v gomap" where
  "put k v m \<equiv> AList.update k v m"

definition keys :: "'v gomap \<Rightarrow> string list" where
  "keys m = map fst m"

definition getd :: "'v \<Rightarrow> 'v gomap \<Rightarrow> string \<Rightarrow> 'v" where
  \<comment> \<open>\<open>m[k]\<close>: the zero value when the key is missing\<close>
  "getd z m k = (case map_of m k of None \<Rightarrow> z | Some v \<Rightarrow> v)"

text \<open>Reads stay reads: no rewriting of \<open>map_of m k = Some v\<close> into list membership.\<close>

declare map_of_eq_Some_iff [simp del]

lemma map_of_put [simp]: "map_of (put k v m) = (map_of m)(k \<mapsto> v)"
  by (simp add: update_conv')

lemma getd_put [simp]: "getd z (put k v m) k' = (if k' = k then v else getd z m k')"
  by (simp add: getd_def)

lemma getd_Nil [simp]: "getd z [] k = z"
  by (simp add: getd_def)

lemma distinct_put [simp]: "distinct (map fst m) \<Longrightarrow> distinct (map fst (put k v m))"
  by (simp add: distinct_update)

lemma fst_put: "fst ` set (put k v m) = insert k (fst ` set m)"
  by (metis dom_map_of_conv_image_fst dom_fun_upd map_of_put option.distinct(1))

text \<open>\<open>for _, x := range xs { m[k(x)] = v(x) }\<close>\<close>

definition put_all :: "('x \<Rightarrow> string) \<Rightarrow> ('x \<Rightarrow> 'v) \<Rightarrow> 'x list \<Rightarrow> 'v gomap \<Rightarrow> 'v gomap" where
  "put_all k v xs m = fold (\<lambda>x. put (k x) (v x)) xs m"

lemma map_of_put_all_notin:
  "q \<notin> k ` set xs \<Longrightarrow> map_of (put_all k v xs m) q = map_of m q"
  by (induction xs arbitrary: m) (auto simp: put_all_def)

lemma map_of_put_all_const:
  "q \<in> k ` set xs \<Longrightarrow> (\<And>x. x \<in> set xs \<Longrightarrow> k x = q \<Longrightarrow> v x = w) \<Longrightarrow>
   map_of (put_all k v xs m) q = Some w"
proof (induction xs arbitrary: m)
  case Nil
  then show ?case by simp
next
  case (Cons x xs)
  show ?case
  proof (cases "q \<in> k ` set xs")
    case True
    with Cons show ?thesis by (simp add: put_all_def)
  next
    case False
    with Cons.prems have "k x = q" "v x = w" by auto
    with False map_of_put_all_notin [OF False, of v "put (k x) (v x) m"]
    show ?thesis by (simp add: put_all_def)
  qed
qed

lemma map_of_put_all_pairs:
  "distinct (map fst xs) \<Longrightarrow> map_of (put_all fst snd xs m) q =
     (case map_of xs q of Some v \<Rightarrow> Some v | None \<Rightarrow> map_of m q)"
proof (induction xs arbitrary: m)
  case Nil
  then show ?case by (simp add: put_all_def)
next
  case (Cons x xs)
  then have "map_of xs (fst x) = None" by (simp add: map_of_eq_None_iff)
  with Cons show ?case by (simp add: put_all_def split: option.split)
qed

lemma dom_put_all: "dom (map_of (put_all k v xs m)) = dom (map_of m) \<union> k ` set xs"
  by (induction xs arbitrary: m) (auto simp: put_all_def)

lemma distinct_put_all [simp]:
  "distinct (map fst m) \<Longrightarrow> distinct (map fst (put_all k v xs m))"
  unfolding put_all_def by (induction xs arbitrary: m) auto

text \<open>\<open>for k, v := range src\<close> that refuses keys the target map does not have.\<close>

definition put_known :: "(string \<Rightarrow> 'e) \<Rightarrow> 'v gomap \<Rightarrow> 'v gomap \<Rightarrow> 'e + 'v gomap" where
  "put_known unknown src dst =
     foldR (\<lambda>(p, v) d. if map_of d p = None then Inl (unknown p) else Inr (put p v d)) src dst"

lemma put_known_ok:
  assumes "distinct (map fst src)" "fst ` set src \<subseteq> fst ` set dst"
  shows "\<exists>d. put_known unknown src dst = Inr d \<and> fst ` set d = fst ` set dst \<and>
    (\<forall>q. map_of d q = (case map_of src q of Some v \<Rightarrow> Some v | None \<Rightarrow> map_of dst q))"
  using assms
proof (induction src arbitrary: dst)
  case Nil
  then show ?case by (simp add: put_known_def)
next
  case (Cons x src)
  obtain k v where x: "x = (k, v)" by (cases x)
  have k: "k \<in> fst ` set dst" using Cons.prems(2) x by simp
  then obtain w where known: "map_of dst k = Some w"
    by (meson map_of_eq_None_iff not_None_eq)
  have keys: "fst ` set (put k v dst) = fst ` set dst" using k by (auto simp: fst_put)
  have fresh: "map_of src k = None" using Cons.prems(1) x by (simp add: map_of_eq_None_iff)
  obtain d where d: "put_known unknown src (put k v dst) = Inr d" "fst ` set d = fst ` set (put k v dst)"
    "\<And>q. map_of d q = (case map_of src q of Some w \<Rightarrow> Some w | None \<Rightarrow> map_of (put k v dst) q)"
    using Cons.IH [of "put k v dst"] Cons.prems keys by auto
  have "put_known unknown (x # src) dst = put_known unknown src (put k v dst)"
    using known by (simp add: put_known_def x)
  with d keys fresh show ?case by (auto simp: x split: option.split)
qed

lemma getd_put_all_const [simp]: "getd z (put_all k (\<lambda>_. z) xs []) p = z"
proof (cases "p \<in> k ` set xs")
  case True
  then show ?thesis by (simp add: getd_def map_of_put_all_const)
next
  case False
  then show ?thesis by (simp add: getd_def map_of_put_all_notin)
qed

lemma fst_put_all: "fst ` set (put_all k v xs []) = k ` set xs"
  by (metis dom_map_of_conv_image_fst dom_put_all dom_empty empty_eq_map_of_iff sup_bot_left)

lemma fst_put_all_base: "fst ` set (put_all k v xs m) = k ` set xs \<union> fst ` set m"
  by (metis dom_map_of_conv_image_fst dom_put_all sup_commute)

lemma put_known_restores:
  assumes "distinct (map fst src)" "map_of src = map_of t" "fst ` set t = fst ` set dst"
  shows "\<exists>d. put_known unknown src dst = Inr d \<and> map_of d = map_of t"
proof -
  have "fst ` set src = fst ` set t" by (metis assms(2) dom_map_of_conv_image_fst)
  then obtain d where d: "put_known unknown src dst = Inr d"
    "\<And>q. map_of d q = (case map_of src q of Some v \<Rightarrow> Some v | None \<Rightarrow> map_of dst q)"
    using put_known_ok [OF assms(1), of dst unknown] assms(3) by auto
  have "map_of d q = map_of t q" for q
  proof (cases "map_of t q")
    case None
    then have "map_of dst q = None" using assms(3) by (simp add: map_of_eq_None_iff)
    with None d(2) assms(2) show ?thesis by simp
  qed (simp add: d(2) assms(2))
  then show ?thesis using d(1) by blast
qed

section \<open>Strings\<close>

text \<open>
  \<open>strings.TrimSpace\<close> removes Unicode white space at both ends. On UTF-8 encoded strings
  that is the removal of the encodings below; UTF-8 is self-synchronising, so decoding the
  last rune is matching one of them as a suffix, and bytes that are not valid UTF-8 decode
  to U+FFFD, which is not white space.
\<close>

definition space_seqs :: "string list" where
  "space_seqs =
     [[CHR 0x09], [CHR 0x0A], [CHR 0x0B], [CHR 0x0C], [CHR 0x0D], [CHR 0x20],
      [CHR 0xC2, CHR 0x85], [CHR 0xC2, CHR 0xA0], [CHR 0xE1, CHR 0x9A, CHR 0x80],
      [CHR 0xE2, CHR 0x80, CHR 0x80], [CHR 0xE2, CHR 0x80, CHR 0x81],
      [CHR 0xE2, CHR 0x80, CHR 0x82], [CHR 0xE2, CHR 0x80, CHR 0x83],
      [CHR 0xE2, CHR 0x80, CHR 0x84], [CHR 0xE2, CHR 0x80, CHR 0x85],
      [CHR 0xE2, CHR 0x80, CHR 0x86], [CHR 0xE2, CHR 0x80, CHR 0x87],
      [CHR 0xE2, CHR 0x80, CHR 0x88], [CHR 0xE2, CHR 0x80, CHR 0x89],
      [CHR 0xE2, CHR 0x80, CHR 0x8A], [CHR 0xE2, CHR 0x80, CHR 0xA8],
      [CHR 0xE2, CHR 0x80, CHR 0xA9], [CHR 0xE2, CHR 0x80, CHR 0xAF],
      [CHR 0xE2, CHR 0x81, CHR 0x9F], [CHR 0xE3, CHR 0x80, CHR 0x80]]"

function trim_front :: "string list \<Rightarrow> string \<Rightarrow> string" where
  "trim_front ps s =
     (case find (\<lambda>p. p \<noteq> [] \<and> prefix p s) ps of
        None \<Rightarrow> s
      | Some p \<Rightarrow> trim_front ps (drop (length p) s))"
  by pat_completeness auto
termination
proof (relation "measure (\<lambda>(ps, s). length s)", goal_cases)
  case (2 ps s p)
  then have "p \<noteq> []" "prefix p s" by (auto simp: find_Some_iff)
  then have "0 < length p" "length p \<le> length s" by (auto dest: prefix_length_le)
  then show ?case by (simp del: length_greater_0_conv)
qed simp

declare trim_front.simps [simp del]

definition trim_space :: "string \<Rightarrow> string" where
  "trim_space s =
     rev (trim_front (map rev space_seqs) (rev (trim_front space_seqs s)))"

lemma trim_front_stop:
  "find (\<lambda>p. p \<noteq> [] \<and> prefix p s) ps = None \<Longrightarrow> trim_front ps s = s"
  by (simp add: trim_front.simps)

lemma trim_front_done:
  "find (\<lambda>p. p \<noteq> [] \<and> prefix p (trim_front ps s)) ps = None"
proof (induction ps s rule: trim_front.induct)
  case (1 ps s)
  show ?case
  proof (cases "find (\<lambda>p. p \<noteq> [] \<and> prefix p s) ps")
    case None
    then have "trim_front ps s = s" by (rule trim_front_stop)
    with None show ?thesis by (simp only:)
  next
    case (Some p)
    have "find (\<lambda>q. q \<noteq> [] \<and> prefix q (trim_front ps (drop (length p) s))) ps = None"
      by (rule "1.IH" [OF Some])
    with Some show ?thesis by (simp add: trim_front.simps [of ps s])
  qed
qed

lemma trim_front_suffix: "suffix (trim_front ps s) s"
proof (induction ps s rule: trim_front.induct)
  case (1 ps s)
  show ?case
  proof (cases "find (\<lambda>p. p \<noteq> [] \<and> prefix p s) ps")
    case None
    then show ?thesis by (simp add: trim_front_stop)
  next
    case (Some p)
    have "suffix (trim_front ps (drop (length p) s)) (drop (length p) s)"
      by (rule "1.IH" [OF Some])
    moreover have "suffix (drop (length p) s) s" by (rule suffix_drop)
    ultimately show ?thesis using Some by (simp add: trim_front.simps [of ps s])
  qed
qed

lemma trim_space_idem [simp]: "trim_space (trim_space s) = trim_space s"
proof -
  let ?f = "trim_front space_seqs s"
  let ?b = "trim_front (map rev space_seqs) (rev ?f)"
  have "suffix ?b (rev ?f)" by (rule trim_front_suffix)
  then have pre: "prefix (rev ?b) ?f" by (simp add: suffix_to_prefix)
  have "find (\<lambda>p. p \<noteq> [] \<and> prefix p ?f) space_seqs = None" by (rule trim_front_done)
  then have "find (\<lambda>p. p \<noteq> [] \<and> prefix p (rev ?b)) space_seqs = None"
    using pre by (auto simp: find_None_iff dest: prefix_order.trans)
  then have front: "trim_front space_seqs (rev ?b) = rev ?b" by (rule trim_front_stop)
  have "trim_front (map rev space_seqs) ?b = ?b"
    by (rule trim_front_stop) (rule trim_front_done)
  with front show ?thesis by (simp add: trim_space_def)
qed

lemma trim_space_Nil [simp]: "trim_space [] = []"
  by (simp add: trim_space_def space_seqs_def trim_front.simps)

text \<open>\<open>strings.TrimSpace(s) == ""\<close>\<close>

definition blank :: "string \<Rightarrow> bool" where
  "blank s = (trim_space s = [])"

lemma blank_Nil [simp]: "blank []"
  by (simp add: blank_def)

lemma blank_trim_space [simp]: "blank (trim_space s) = blank s"
  by (simp add: blank_def)

text \<open>
  \<open>strconv.Itoa\<close> and the \<open>%d\<close> verb on integers, and \<open>strconv.Atoi\<close>: an optional sign
  and at least one decimal digit, within the range of a 64-bit \<open>int\<close>.
\<close>

definition digit_char :: "nat \<Rightarrow> char" where
  "digit_char d = char_of (48 + d)"

function nat_digits :: "nat \<Rightarrow> string" where
  "nat_digits n = (if n < 10 then [digit_char n] else nat_digits (n div 10) @ [digit_char (n mod 10)])"
  by pat_completeness auto
termination by (relation "measure id") auto

declare nat_digits.simps [simp del]

definition itoa :: "int \<Rightarrow> string" where
  "itoa i = (if i < 0 then CHR ''-'' # nat_digits (nat (- i)) else nat_digits (nat i))"

definition is_digit :: "char \<Rightarrow> bool" where
  "is_digit c = (48 \<le> (of_char c :: nat) \<and> (of_char c :: nat) \<le> 57)"

definition digits_value :: "string \<Rightarrow> nat" where
  "digits_value s = fold (\<lambda>c a. 10 * a + (of_char c - 48)) s 0"

definition int64_ok :: "int \<Rightarrow> bool" where
  "int64_ok i = (- (2 ^ 63) \<le> i \<and> i < 2 ^ 63)"

definition atoi :: "string \<Rightarrow> int option" where
  "atoi s =
     (let (neg, ds) = (case s of
          c # cs \<Rightarrow> if c = CHR ''-'' then (True, cs)
                    else if c = CHR ''+'' then (False, cs) else (False, s)
        | [] \<Rightarrow> (False, []));
        v = (if neg then - int (digits_value ds) else int (digits_value ds))
      in if ds = [] \<or> \<not> list_all is_digit ds \<or> \<not> int64_ok v then None else Some v)"

lemma of_char_digit_char: "d < 10 \<Longrightarrow> (of_char (digit_char d) :: nat) = 48 + d"
  by (simp add: digit_char_def)

lemma nat_digits_correct:
  "list_all is_digit (nat_digits n) \<and> digits_value (nat_digits n) = n \<and> nat_digits n \<noteq> []"
proof (induction n rule: nat_digits.induct)
  case (1 n)
  show ?case
  proof (cases "n < 10")
    case True
    then show ?thesis
      by (simp add: nat_digits.simps [of n] is_digit_def digits_value_def of_char_digit_char)
  next
    case False
    with 1 have IH: "list_all is_digit (nat_digits (n div 10))"
      "digits_value (nat_digits (n div 10)) = n div 10" by blast+
    have d: "(of_char (digit_char (n mod 10)) :: nat) = 48 + n mod 10"
      by (simp add: of_char_digit_char)
    have "is_digit (digit_char (n mod 10))"
      unfolding is_digit_def d by simp
    then show ?thesis using False IH d
      by (simp add: nat_digits.simps [of n] digits_value_def)
  qed
qed

lemma hd_digit_not_sign: "is_digit c \<Longrightarrow> c \<noteq> CHR ''-'' \<and> c \<noteq> CHR ''+''"
  by (auto simp: is_digit_def)

lemma atoi_itoa: "int64_ok i \<Longrightarrow> atoi (itoa i) = Some i"
proof (cases "i < 0")
  case True
  assume ok: "int64_ok i"
  have "list_all is_digit (nat_digits (nat (- i)))" "digits_value (nat_digits (nat (- i))) = nat (- i)"
    "nat_digits (nat (- i)) \<noteq> []"
    using nat_digits_correct by blast+
  with True ok show ?thesis by (simp add: atoi_def itoa_def)
next
  case False
  assume ok: "int64_ok i"
  obtain c cs where cs: "nat_digits (nat i) = c # cs"
    using nat_digits_correct by (meson neq_Nil_conv)
  have *: "list_all is_digit (c # cs)" "digits_value (c # cs) = nat i"
    using nat_digits_correct [of "nat i"] by (simp_all add: cs)
  then have "c \<noteq> CHR ''-''" "c \<noteq> CHR ''+''" using hd_digit_not_sign by auto
  with False ok * show ?thesis by (simp add: atoi_def itoa_def cs)
qed

text \<open>\<open>strings.Split\<close> with a one-byte separator.\<close>

fun split_on :: "char \<Rightarrow> string \<Rightarrow> string list" where
  "split_on c [] = [[]]"
| "split_on c (x # xs) =
     (if x = c then [] # split_on c xs
      else (case split_on c xs of [] \<Rightarrow> [[x]] | p # ps \<Rightarrow> (x # p) # ps))"

lemma split_on_not_Nil [simp]: "split_on c s \<noteq> []"
  by (induction s) (auto split: list.splits)

end
