(* ===== verification/Json.thy ===== *)
theory Json
  imports Prelude
begin

text \<open>
  The part of \<open>encoding/json\<close> that the sources use, on JSON values instead of bytes: a
  \<open>json.RawMessage\<close> is empty, the text of a JSON value, or text that does not parse.
  Struct decoding follows the library: object members are read in order, a member sets the
  field whose name it equals up to case folding, unknown members are skipped, \<open>null\<close>
  leaves scalars and structs unchanged and clears maps and slices, and any type mismatch
  makes the call fail (every caller here discards the value on error). Strings are taken
  to be valid UTF-8, as the library replaces invalid bytes.
\<close>

datatype json =
    JNull
  | JBool bool
  | JInt int          \<comment> \<open>a number literal without fraction and exponent\<close>
  | JNum string       \<comment> \<open>any other number literal\<close>
  | JStr string
  | JArr "json list"
  | JObj "(string \<times> json) list"

datatype raw = RawNone | RawJson json | RawBad

text \<open>Length of the message is positive.\<close>

definition raw_present :: "raw \<Rightarrow> bool" where
  "raw_present r = (r \<noteq> RawNone)"

lemma raw_present_simps [simp]:
  "\<not> raw_present RawNone" "raw_present (RawJson j)" "raw_present RawBad"
  by (simp_all add: raw_present_def)

section \<open>Decoding\<close>

type_synonym 's decoder = "json \<Rightarrow> 's \<Rightarrow> 's option"

definition unmarshal :: "'s decoder \<Rightarrow> raw \<Rightarrow> 's \<Rightarrow> 's option" where
  "unmarshal dec r s = (case r of RawJson j \<Rightarrow> dec j s | _ \<Rightarrow> None)"

lemma unmarshal_simps [simp]:
  "unmarshal dec RawNone s = None"
  "unmarshal dec RawBad s = None"
  "unmarshal dec (RawJson j) s = dec j s"
  by (simp_all add: unmarshal_def)

text \<open>
  Case folding of member names: letters to upper case, and the two non-ASCII code points
  (U+017F and U+212A) that fold to ASCII letters. Field names are ASCII.
\<close>

definition upper :: "char \<Rightarrow> char" where
  "upper c = (let n = (of_char c :: nat) in if 97 \<le> n \<and> n \<le> 122 then char_of (n - 32) else c)"

function fold_name :: "string \<Rightarrow> string" where
  "fold_name s =
     (case s of
        [] \<Rightarrow> []
      | c # cs \<Rightarrow>
          if take 2 s = [CHR 0xC5, CHR 0xBF] then CHR ''S'' # fold_name (drop 2 s)
          else if take 3 s = [CHR 0xE2, CHR 0x84, CHR 0xAA] then CHR ''K'' # fold_name (drop 3 s)
          else upper c # fold_name cs)"
  by pat_completeness auto
termination by (relation "measure length") auto

declare fold_name.simps [simp del]

lemma fold_name_simps [simp]:
  "fold_name [] = []"
  "c \<noteq> CHR 0xC5 \<Longrightarrow> c \<noteq> CHR 0xE2 \<Longrightarrow> fold_name (c # cs) = upper c # fold_name cs"
  by (simp_all add: fold_name.simps [of "[]"] fold_name.simps [of "c # cs"])

fun dec_members :: "(string \<times> 's decoder) list \<Rightarrow> (string \<times> json) list \<Rightarrow> 's \<Rightarrow> 's option" where
  "dec_members fs [] s = Some s"
| "dec_members fs ((k, v) # rest) s =
     (case find (\<lambda>f. fold_name (fst f) = fold_name k) fs of
        None \<Rightarrow> dec_members fs rest s
      | Some f \<Rightarrow> Option.bind (snd f v s) (dec_members fs rest))"

definition dec_struct :: "(string \<times> 's decoder) list \<Rightarrow> 's decoder" where
  "dec_struct fs j s =
     (case j of JNull \<Rightarrow> Some s | JObj kvs \<Rightarrow> dec_members fs kvs s | _ \<Rightarrow> None)"

text \<open>\<open>DisallowUnknownFields\<close>: a member that is no field makes the call fail.\<close>

fun dec_members_strict :: "(string \<times> 's decoder) list \<Rightarrow> (string \<times> json) list \<Rightarrow> 's \<Rightarrow> 's option" where
  "dec_members_strict fs [] s = Some s"
| "dec_members_strict fs ((k, v) # rest) s =
     (case find (\<lambda>f. fold_name (fst f) = fold_name k) fs of
        None \<Rightarrow> None
      | Some f \<Rightarrow> Option.bind (snd f v s) (dec_members_strict fs rest))"

definition dec_struct_strict :: "(string \<times> 's decoder) list \<Rightarrow> 's decoder" where
  "dec_struct_strict fs j s =
     (case j of JNull \<Rightarrow> Some s | JObj kvs \<Rightarrow> dec_members_strict fs kvs s | _ \<Rightarrow> None)"

text \<open>A field of a struct: decode into the field's current value and store it back.\<close>

definition dec_field :: "('s \<Rightarrow> 'a) \<Rightarrow> ('a \<Rightarrow> 's \<Rightarrow> 's) \<Rightarrow> 'a decoder \<Rightarrow> 's decoder" where
  "dec_field get upd dec j s = map_option (\<lambda>x. upd x s) (dec j (get s))"

definition dec_str :: "string decoder" where
  "dec_str j s = (case j of JNull \<Rightarrow> Some s | JStr x \<Rightarrow> Some x | _ \<Rightarrow> None)"

definition dec_int :: "int decoder" where
  "dec_int j s = (case j of JNull \<Rightarrow> Some s | JInt i \<Rightarrow> if int64_ok i then Some i else None | _ \<Rightarrow> None)"

definition dec_uint32 :: "int decoder" where
  "dec_uint32 j s =
     (case j of JNull \<Rightarrow> Some s | JInt i \<Rightarrow> if 0 \<le> i \<and> i < 2 ^ 32 then Some i else None | _ \<Rightarrow> None)"

definition dec_raw :: "raw decoder" where
  "dec_raw j s = Some (RawJson j)"

fun map_all :: "('x \<Rightarrow> 'y option) \<Rightarrow> 'x list \<Rightarrow> 'y list option" where
  "map_all f [] = Some []"
| "map_all f (x # xs) = Option.bind (f x) (\<lambda>y. map_option ((#) y) (map_all f xs))"

definition dec_list :: "'a decoder \<Rightarrow> 'a \<Rightarrow> 'a list decoder" where
  "dec_list dec zero j s =
     (case j of JNull \<Rightarrow> Some [] | JArr js \<Rightarrow> map_all (\<lambda>x. dec x zero) js | _ \<Rightarrow> None)"

fun dec_entries :: "'a decoder \<Rightarrow> 'a \<Rightarrow> (string \<times> json) list \<Rightarrow> 'a gomap \<Rightarrow> 'a gomap option" where
  "dec_entries dec zero [] m = Some m"
| "dec_entries dec zero ((k, v) # rest) m =
     Option.bind (dec v zero) (\<lambda>x. dec_entries dec zero rest (put k x m))"

definition dec_map :: "'a decoder \<Rightarrow> 'a \<Rightarrow> 'a gomap decoder" where
  "dec_map dec zero j s =
     (case j of JNull \<Rightarrow> Some [] | JObj kvs \<Rightarrow> dec_entries dec zero kvs s | _ \<Rightarrow> None)"

lemmas dec_defs = dec_struct_def dec_field_def dec_str_def dec_int_def dec_raw_def

lemma map_all_Some:
  "(\<And>x. x \<in> set xs \<Longrightarrow> f x = Some (g x)) \<Longrightarrow> map_all f xs = Some (map g xs)"
  by (induction xs) auto

lemma map_all_rel:
  "(\<And>x. x \<in> set xs \<Longrightarrow> \<exists>y. f x = Some y \<and> R x y) \<Longrightarrow>
   \<exists>ys. map_all f xs = Some ys \<and> list_all2 R xs ys"
  by (induction xs) fastforce+

lemma map_all_map: "map_all f (map g xs) = map_all (\<lambda>x. f (g x)) xs"
  by (induction xs) auto

section \<open>Encoding\<close>

text \<open>The members of a map are written in the order of their keys.\<close>

definition sorted_keys :: "'v gomap \<Rightarrow> string list" where
  "sorted_keys m = sort (remdups (map fst m))"

definition enc_map :: "('v \<Rightarrow> json) \<Rightarrow> 'v gomap \<Rightarrow> json" where
  "enc_map enc m =
     JObj (List.map_filter (\<lambda>k. map_option (\<lambda>v. (k, enc v)) (map_of m k)) (sorted_keys m))"

definition enc_raw :: "raw \<Rightarrow> json option" where
  "enc_raw r = (case r of RawNone \<Rightarrow> Some JNull | RawJson j \<Rightarrow> Some j | RawBad \<Rightarrow> None)"

text \<open>\<open>omitempty\<close> on strings and raw messages.\<close>

definition omit_str :: "string \<Rightarrow> string \<Rightarrow> (string \<times> json) list" where
  "omit_str name s = (if s = [] then [] else [(name, JStr s)])"

definition omit_raw :: "string \<Rightarrow> raw \<Rightarrow> (string \<times> json) list option" where
  "omit_raw name r = (case r of RawNone \<Rightarrow> Some [] | RawJson j \<Rightarrow> Some [(name, j)] | RawBad \<Rightarrow> None)"

lemma enc_map_members:
  "enc_map enc m = JObj (map (\<lambda>k. (k, enc (the (map_of m k)))) (sorted_keys m))"
proof -
  have "k \<in> dom (map_of m)" if "k \<in> set (sorted_keys m)" for k
    using that by (simp add: sorted_keys_def dom_map_of_conv_image_fst)
  then have "List.map_filter (\<lambda>k. map_option (\<lambda>v. (k, enc v)) (map_of m k)) ks =
    map (\<lambda>k. (k, enc (the (map_of m k)))) ks" if "set ks \<subseteq> set (sorted_keys m)" for ks
    using that by (induction ks) (auto simp: List.map_filter_def)
  then show ?thesis by (simp add: enc_map_def)
qed

lemma dec_entries_map:
  assumes "\<And>k. k \<in> set ks \<Longrightarrow> dec (g k) zero = Some (h k)"
  shows "dec_entries dec zero (map (\<lambda>k. (k, g k)) ks) m = Some (fold (\<lambda>k. put k (h k)) ks m)"
  using assms by (induction ks arbitrary: m) auto

lemma map_of_fold_put:
  "map_of (fold (\<lambda>k. put k (h k)) ks m) q = (if q \<in> set ks then Some (h q) else map_of m q)"
  by (induction ks arbitrary: m) auto

text \<open>
  Decoding an encoded map gives a map with the same entries, whatever the order of the
  association list was.
\<close>

lemma dec_enc_map:
  assumes "\<And>k v. map_of m k = Some v \<Longrightarrow> dec (enc v) zero = Some v"
  shows "\<exists>m'. dec_map dec zero (enc_map enc m) [] = Some m' \<and> map_of m' = map_of m \<and>
    distinct (map fst m')"
proof -
  let ?h = "\<lambda>k. the (map_of m k)"
  have dom: "k \<in> set (sorted_keys m) \<longleftrightarrow> map_of m k \<noteq> None" for k
    by (simp add: sorted_keys_def flip: dom_map_of_conv_image_fst) auto
  have "dec_map dec zero (enc_map enc m) [] =
      Some (fold (\<lambda>k. put k (?h k)) (sorted_keys m) [])"
    unfolding enc_map_members dec_map_def
    by (simp, rule dec_entries_map) (use assms dom in auto)
  moreover have "map_of (fold (\<lambda>k. put k (?h k)) (sorted_keys m) []) = map_of m"
    by (rule ext) (auto simp: map_of_fold_put dom)
  moreover have "distinct (map fst (fold (\<lambda>k. put k (?h k)) ks n))" if "distinct (map fst n)"
    for ks and n :: "'a gomap"
    using that by (induction ks arbitrary: n) auto
  ultimately show ?thesis by auto
qed

text \<open>What is written for a map depends on its entries only.\<close>

lemma sorted_keys_cong: "map_of m = map_of m' \<Longrightarrow> sorted_keys m = sorted_keys m'"
proof -
  assume "map_of m = map_of m'"
  then have "fst ` set m = fst ` set m'" by (metis dom_map_of_conv_image_fst)
  then have "sort (remdups (map fst m)) = sort (remdups (map fst m'))"
    by (intro sorted_distinct_set_unique) simp_all
  then show ?thesis by (simp add: sorted_keys_def)
qed

lemma enc_map_cong: "map_of m = map_of m' \<Longrightarrow> enc_map enc m = enc_map enc m'"
  by (simp add: enc_map_def sorted_keys_cong [of m m'])

end
