(* ===== verification/Protocol.thy ===== *)
theory Protocol
  imports Json
begin

text \<open>
  The JSON-RPC envelopes of \<open>gamemaster/protocol.go\<close> (re-exported by
  \<open>internal/platform/protocol\<close>): construction, line decoding with its two error classes, and
  id matching. A line is the \<open>raw\<close> text after the trailing line break was cut off, which
  does not change what \<open>encoding/json\<close> parses.
\<close>

section \<open>Envelopes\<close>

datatype protocol_error =
    MalformedJSON | InvalidEnvelope string | MismatchedID string string | MarshalFailed

record error_object =
  eo_code :: int
  eo_message :: string

record request =
  rpc_version :: string
  rpc_id :: string
  rpc_method :: string
  rpc_params :: raw

record response =
  rs_version :: string
  rs_id :: string
  rs_result :: raw
  rs_error :: "error_object option"

definition version :: string where
  "version = ''2.0''"

text \<open>
  \<open>json.Marshal\<close> on an \<open>any\<close>: \<open>None\<close> is the nil interface, \<open>Some (Inl ())\<close> a value the
  library cannot encode, \<open>Some (Inr j)\<close> one that encodes as \<open>j\<close>.
\<close>

type_synonym any_value = "(unit + json) option"

definition marshal_params :: "any_value \<Rightarrow> protocol_error + raw" where
  "marshal_params v =
     (case v of None \<Rightarrow> Inr RawNone
      | Some (Inl u) \<Rightarrow> Inl MarshalFailed
      | Some (Inr j) \<Rightarrow> Inr (RawJson j))"

definition new_request :: "string \<Rightarrow> string \<Rightarrow> any_value \<Rightarrow> protocol_error + request" where
  "new_request rid method params =
     bindR (marshal_params params) (\<lambda>r.
       Inr \<lparr>rpc_version = version, rpc_id = rid, rpc_method = method, rpc_params = r\<rparr>)"

definition new_notification :: "string \<Rightarrow> any_value \<Rightarrow> protocol_error + request" where
  "new_notification method params =
     bindR (marshal_params params) (\<lambda>r.
       Inr \<lparr>rpc_version = version, rpc_id = [], rpc_method = method, rpc_params = r\<rparr>)"

definition new_response :: "string \<Rightarrow> any_value \<Rightarrow> protocol_error + response" where
  "new_response rid result =
     bindR (marshal_params result) (\<lambda>r.
       Inr \<lparr>rs_version = version, rs_id = rid, rs_result = r, rs_error = None\<rparr>)"

section \<open>Wire form\<close>

definition enc_request :: "request \<Rightarrow> json option" where
  "enc_request r =
     map_option (\<lambda>p. JObj ([(''jsonrpc'', JStr (rpc_version r))] @ omit_str ''id'' (rpc_id r) @
        [(''method'', JStr (rpc_method r))] @ p))
       (omit_raw ''params'' (rpc_params r))"

definition enc_error :: "error_object \<Rightarrow> json" where
  "enc_error e = JObj [(''code'', JInt (eo_code e)), (''message'', JStr (eo_message e))]"

definition enc_response :: "response \<Rightarrow> json option" where
  "enc_response r =
     map_option (\<lambda>p. JObj ([(''jsonrpc'', JStr (rs_version r)), (''id'', JStr (rs_id r))] @ p @
        (case rs_error r of None \<Rightarrow> [] | Some e \<Rightarrow> [(''error'', enc_error e)])))
       (omit_raw ''result'' (rs_result r))"

definition dec_request :: "request decoder" where
  "dec_request = dec_struct
     [(''jsonrpc'', dec_field rpc_version (\<lambda>x s. s\<lparr>rpc_version := x\<rparr>) dec_str),
      (''id'', dec_field rpc_id (\<lambda>x s. s\<lparr>rpc_id := x\<rparr>) dec_str),
      (''method'', dec_field rpc_method (\<lambda>x s. s\<lparr>rpc_method := x\<rparr>) dec_str),
      (''params'', dec_field rpc_params (\<lambda>x s. s\<lparr>rpc_params := x\<rparr>) dec_raw)]"

definition dec_error :: "error_object decoder" where
  "dec_error = dec_struct
     [(''code'', dec_field eo_code (\<lambda>x s. s\<lparr>eo_code := x\<rparr>) dec_int),
      (''message'', dec_field eo_message (\<lambda>x s. s\<lparr>eo_message := x\<rparr>) dec_str)]"

text \<open>A pointer field: \<open>null\<close> clears it, anything else decodes into the (new) target.\<close>

definition dec_error_ptr :: "error_object option decoder" where
  "dec_error_ptr j e =
     (case j of JNull \<Rightarrow> Some None
      | _ \<Rightarrow> map_option Some
          (dec_error j (case e of None \<Rightarrow> \<lparr>eo_code = 0, eo_message = []\<rparr> | Some e \<Rightarrow> e)))"

definition dec_response :: "response decoder" where
  "dec_response = dec_struct
     [(''jsonrpc'', dec_field rs_version (\<lambda>x s. s\<lparr>rs_version := x\<rparr>) dec_str),
      (''id'', dec_field rs_id (\<lambda>x s. s\<lparr>rs_id := x\<rparr>) dec_str),
      (''result'', dec_field rs_result (\<lambda>x s. s\<lparr>rs_result := x\<rparr>) dec_raw),
      (''error'', dec_field rs_error (\<lambda>x s. s\<lparr>rs_error := x\<rparr>) dec_error_ptr)]"

section \<open>Validation\<close>

definition validate_request :: "request \<Rightarrow> protocol_error + unit" where
  "validate_request r =
     (if rpc_version r \<noteq> version then Inl (InvalidEnvelope ''jsonrpc'')
      else if rpc_method r = [] then Inl (InvalidEnvelope ''method'')
      else Inr ())"

definition validate_response :: "response \<Rightarrow> protocol_error + unit" where
  "validate_response r =
     (if rs_version r \<noteq> version then Inl (InvalidEnvelope ''jsonrpc'')
      else if rs_id r = [] then Inl (InvalidEnvelope ''id'')
      else let has_result = raw_present (rs_result r); has_error = (rs_error r \<noteq> None) in
        if has_result = has_error then Inl (InvalidEnvelope ''result or error'')
        else case rs_error r of
          None \<Rightarrow> Inr ()
        | Some e \<Rightarrow> if eo_message e = [] then Inl (InvalidEnvelope ''error.message'') else Inr ())"

definition decode_request_line :: "raw \<Rightarrow> protocol_error + request" where
  "decode_request_line line =
     (case unmarshal dec_request line
         \<lparr>rpc_version = [], rpc_id = [], rpc_method = [], rpc_params = RawNone\<rparr> of
        None \<Rightarrow> Inl MalformedJSON
      | Some r \<Rightarrow> bindR (validate_request r) (\<lambda>_. Inr r))"

definition decode_response_line :: "raw \<Rightarrow> protocol_error + response" where
  "decode_response_line line =
     (case unmarshal dec_response line
         \<lparr>rs_version = [], rs_id = [], rs_result = RawNone, rs_error = None\<rparr> of
        None \<Rightarrow> Inl MalformedJSON
      | Some r \<Rightarrow> bindR (validate_response r) (\<lambda>_. Inr r))"

definition match_response_id :: "string \<Rightarrow> response \<Rightarrow> protocol_error + unit" where
  "match_response_id expected r =
     (if expected \<noteq> rs_id r then Inl (MismatchedID expected (rs_id r)) else Inr ())"

section \<open>Facts\<close>

lemma validate_response_ok:
  "validate_response r = Inr u \<longleftrightarrow>
     rs_version r = version \<and> rs_id r \<noteq> [] \<and>
     ((raw_present (rs_result r) \<and> rs_error r = None) \<or>
      (\<not> raw_present (rs_result r) \<and> (\<exists>e. rs_error r = Some e \<and> eo_message e \<noteq> [])))"
  by (auto simp: validate_response_def Let_def split: option.splits)

lemma decode_response_line_ok:
  "decode_response_line line = Inr r \<Longrightarrow>
     validate_response r = Inr () \<and> (\<exists>j. line = RawJson j)"
  by (cases line) (auto simp: decode_response_line_def bindR_eq_Inr split: option.splits)

lemma decode_enc_request:
  assumes "rpc_version r = version" "rpc_method r \<noteq> []" "rpc_params r \<noteq> RawBad"
  shows "\<exists>j. enc_request r = Some j \<and> decode_request_line (RawJson j) = Inr r"
proof -
  obtain v i m p where r: "r = \<lparr>rpc_version = v, rpc_id = i, rpc_method = m, rpc_params = p\<rparr>"
    by (cases r)
  show ?thesis
    using assms
    by (cases p; cases "i = []")
      (simp_all add: r enc_request_def omit_raw_def omit_str_def decode_request_line_def
        dec_request_def dec_defs upper_def validate_request_def)
qed

lemma dec_enc_response:
  assumes "validate_response r = Inr ()" "rs_result r \<noteq> RawBad"
    and "\<And>e. rs_error r = Some e \<Longrightarrow> int64_ok (eo_code e)"
  shows "\<exists>j. enc_response r = Some j \<and>
    dec_response j \<lparr>rs_version = [], rs_id = [], rs_result = RawNone, rs_error = None\<rparr> = Some r"
proof -
  obtain v i p e where r: "r = \<lparr>rs_version = v, rs_id = i, rs_result = p, rs_error = e\<rparr>"
    by (cases r)
  show ?thesis
  proof (cases e)
    case None
    then show ?thesis
      using assms
      by (cases p)
        (simp_all add: r enc_response_def omit_raw_def dec_response_def dec_defs upper_def
          validate_response_ok)
  next
    case (Some eo)
    obtain c m where eo: "eo = \<lparr>eo_code = c, eo_message = m\<rparr>" by (cases eo)
    from Some assms show ?thesis
      by (cases p)
        (simp_all add: r eo enc_response_def enc_error_def omit_raw_def dec_response_def
          dec_error_ptr_def dec_error_def dec_defs upper_def validate_response_ok)
  qed
qed

lemma decode_enc_response:
  assumes "validate_response r = Inr ()" "rs_result r \<noteq> RawBad"
    and "\<And>e. rs_error r = Some e \<Longrightarrow> int64_ok (eo_code e)"
  shows "\<exists>j. enc_response r = Some j \<and> decode_response_line (RawJson j) = Inr r"
proof -
  obtain j where "enc_response r = Some j"
    "dec_response j \<lparr>rs_version = [], rs_id = [], rs_result = RawNone, rs_error = None\<rparr> = Some r"
    using dec_enc_response [OF assms] by blast
  then show ?thesis by (simp add: decode_response_line_def assms(1))
qed

end
