(* ===== verification/Contract.thy ===== *)
theory Contract
  imports Json
begin

text \<open>
  The shared data contract of the platform: \<open>gamemaster/types.go\<close> (aliased by
  \<open>internal/platform/contract\<close> and \<open>internal/platform/game\<close>). Named string types with
  constants are datatypes with a constructor for every constant and one for any other
  string, since values arrive from JSON; the empty string is the zero value. Durations are
  nanoseconds in a 64-bit \<open>int\<close>.
\<close>

section \<open>Enumerations\<close>

datatype decision_mode = Sequential | Simultaneous | OtherMode string

datatype match_status =
    StatusStarting | StatusInitializing | StatusRunning | StatusFinishing
  | StatusCompleted | StatusFailed | StatusCanceled | OtherStatus string

datatype action_decision = ActionAccepted | ActionNoAction | OtherDecision string

datatype failure_reason =
    NoReason | ReasonTimeout | ReasonMalformed | ReasonMismatchedID | ReasonLateResponse
  | ReasonIllegalAction | ReasonRuntimeStop | OtherReason string

fun mode_str :: "decision_mode \<Rightarrow> string" where
  "mode_str Sequential = ''sequential''"
| "mode_str Simultaneous = ''simultaneous''"
| "mode_str (OtherMode s) = s"

definition str_mode :: "string \<Rightarrow> decision_mode" where
  "str_mode s = (if s = ''sequential'' then Sequential
     else if s = ''simultaneous'' then Simultaneous else OtherMode s)"

fun decision_str :: "action_decision \<Rightarrow> string" where
  "decision_str ActionAccepted = ''accepted''"
| "decision_str ActionNoAction = ''no_action''"
| "decision_str (OtherDecision s) = s"

definition str_decision :: "string \<Rightarrow> action_decision" where
  "str_decision s = (if s = ''accepted'' then ActionAccepted
     else if s = ''no_action'' then ActionNoAction else OtherDecision s)"

fun reason_str :: "failure_reason \<Rightarrow> string" where
  "reason_str NoReason = []"
| "reason_str ReasonTimeout = ''invalid-timeout''"
| "reason_str ReasonMalformed = ''invalid-protocol-malformed''"
| "reason_str ReasonMismatchedID = ''invalid-protocol-mismatched-id''"
| "reason_str ReasonLateResponse = ''invalid-protocol-late-response''"
| "reason_str ReasonIllegalAction = ''invalid-illegal-action''"
| "reason_str ReasonRuntimeStop = ''runtime-stopped''"
| "reason_str (OtherReason s) = s"

definition str_reason :: "string \<Rightarrow> failure_reason" where
  "str_reason s =
     (if s = [] then NoReason
      else if s = ''invalid-timeout'' then ReasonTimeout
      else if s = ''invalid-protocol-malformed'' then ReasonMalformed
      else if s = ''invalid-protocol-mismatched-id'' then ReasonMismatchedID
      else if s = ''invalid-protocol-late-response'' then ReasonLateResponse
      else if s = ''invalid-illegal-action'' then ReasonIllegalAction
      else if s = ''runtime-stopped'' then ReasonRuntimeStop
      else OtherReason s)"

text \<open>
  A value is canonical when its string reads back as itself: \<open>OtherReason\<close> and
  \<open>OtherDecision\<close> do not spell one of the constants.
\<close>

definition canonical_decision :: "action_decision \<Rightarrow> bool" where
  "canonical_decision d = (str_decision (decision_str d) = d)"

definition canonical_reason :: "failure_reason \<Rightarrow> bool" where
  "canonical_reason r = (str_reason (reason_str r) = r)"

lemma canonical_consts [simp]:
  "canonical_decision ActionAccepted" "canonical_decision ActionNoAction"
  "canonical_reason NoReason" "canonical_reason ReasonTimeout" "canonical_reason ReasonMalformed"
  "canonical_reason ReasonMismatchedID" "canonical_reason ReasonLateResponse"
  "canonical_reason ReasonIllegalAction" "canonical_reason ReasonRuntimeStop"
  by (simp_all add: canonical_decision_def canonical_reason_def str_decision_def str_reason_def)

lemma canonical_str [simp]:
  "canonical_decision (str_decision s)" "canonical_reason (str_reason s)"
  by (simp_all add: canonical_decision_def canonical_reason_def str_decision_def str_reason_def)

section \<open>Records\<close>

record game_metadata =
  gm_game_id :: string
  gm_game_version :: string
  gm_ruleset :: string

record player =
  pl_id :: string
  pl_ai :: string

record decision_request =
  rq_player :: string
  rq_visible :: raw
  rq_hint :: raw
  rq_deadline :: int

record decision_step =
  st_turn :: int
  st_mode :: decision_mode
  st_requests :: "decision_request list"

record action_status =
  as_player :: string
  as_decision :: action_decision
  as_reason :: failure_reason
  as_action :: raw

record init_state =
  is_per_player :: "raw gomap"

record placement =
  pc_player :: string
  pc_place :: int

record match_result =
  mr_placements :: "placement list"

record public_replay =
  rp_format :: string
  rp_version :: string
  rp_payload :: raw

record player_snapshot =
  ps_visible :: raw
  ps_last :: action_status
  ps_stderr_bytes :: int

record snapshot =
  sn_match_id :: string
  sn_game_id :: string
  sn_game_version :: string
  sn_ruleset :: string
  sn_turn :: int
  sn_status :: match_status
  sn_game_state :: raw
  sn_per_player :: "player_snapshot gomap"

record exported_player_snapshot =
  xp_player :: string
  xp_last :: action_status

record exported_snapshot =
  xs_match_id :: string
  xs_game_id :: string
  xs_game_version :: string
  xs_ruleset :: string
  xs_turn :: int
  xs_status :: match_status
  xs_public_state :: raw
  xs_players :: "exported_player_snapshot list"

text \<open>One entry of a match event log (\<open>match.Event\<close>); kinds are strings in the code.\<close>

record event =
  ev_seq :: int
  ev_kind :: string
  ev_turn :: int
  ev_player :: string
  ev_payload :: raw

text \<open>Zero values.\<close>

definition zero_status :: action_status where
  "zero_status = \<lparr>as_player = [], as_decision = OtherDecision [], as_reason = NoReason,
     as_action = RawNone\<rparr>"

definition zero_player_snapshot :: player_snapshot where
  "zero_player_snapshot = \<lparr>ps_visible = RawNone, ps_last = zero_status, ps_stderr_bytes = 0\<rparr>"

text \<open>The status a master records before a player has acted, and for a missing action.\<close>

definition no_action :: "string \<Rightarrow> action_status" where
  "no_action p = \<lparr>as_player = p, as_decision = ActionNoAction, as_reason = NoReason,
     as_action = RawNone\<rparr>"

lemma no_action_sel [simp]:
  "as_player (no_action p) = p" "as_decision (no_action p) = ActionNoAction"
  "as_reason (no_action p) = NoReason" "as_action (no_action p) = RawNone"
  by (simp_all add: no_action_def)

text \<open>
  One entry of \<open>snapshot.PerPlayer\<close> when a master is restored: the player has to be known,
  a missing player id is filled in, and a status without a decision is ignored.
\<close>

definition restore_last ::
  "(string \<Rightarrow> 'e) \<Rightarrow> string \<times> player_snapshot \<Rightarrow> action_status gomap \<Rightarrow> 'e + action_status gomap" where
  "restore_last unknown = (\<lambda>(p, ps) last.
     if map_of last p = None then Inl (unknown p)
     else
       let s = ps_last ps;
           s1 = (if as_player s = [] then s\<lparr>as_player := p\<rparr> else s)
       in if as_decision s1 \<noteq> OtherDecision [] then Inr (put p s1 last) else Inr last)"

section \<open>Validation of action statuses\<close>

datatype status_error =
    StatusPlayerRequired | AcceptedWithReason | AcceptedWithoutAction | NoActionWithAction
  | UnknownDecision string

definition validate_action_status :: "action_status \<Rightarrow> status_error + unit" where
  "validate_action_status s =
     (if as_player s = [] then Inl StatusPlayerRequired
      else case as_decision s of
        ActionAccepted \<Rightarrow>
          if as_reason s \<noteq> NoReason then Inl AcceptedWithReason
          else if \<not> raw_present (as_action s) then Inl AcceptedWithoutAction
          else Inr ()
      | ActionNoAction \<Rightarrow>
          if raw_present (as_action s) then Inl NoActionWithAction else Inr ()
      | OtherDecision d \<Rightarrow> Inl (UnknownDecision d))"

section \<open>Wire form of decision requests\<close>

text \<open>
  \<open>Duration.Milliseconds\<close> divides with truncation towards zero;
  \<open>time.Duration(ms) * time.Millisecond\<close> is a 64-bit multiplication that wraps around.
\<close>

definition ns_per_ms :: int where
  "ns_per_ms = 1000000"

definition wrap64 :: "int \<Rightarrow> int" where
  "wrap64 x = signed_take_bit 63 x"

definition marshal_deadline :: "int \<Rightarrow> int" where
  "marshal_deadline ns = ns sdiv ns_per_ms"

definition unmarshal_deadline :: "int \<Rightarrow> int" where
  "unmarshal_deadline ms = wrap64 (ms * ns_per_ms)"

definition enc_decision_request :: "decision_request \<Rightarrow> json option" where
  "enc_decision_request r =
     (case (omit_raw ''visible_state'' (rq_visible r), omit_raw ''legal_action_hint'' (rq_hint r)) of
        (Some v, Some h) \<Rightarrow>
          Some (JObj ([(''player_id'', JStr (rq_player r))] @ v @ h @
                      [(''deadline_ms'', JInt (marshal_deadline (rq_deadline r)))]))
      | _ \<Rightarrow> None)"

record decision_request_wire =
  wr_player :: string
  wr_visible :: raw
  wr_hint :: raw
  wr_deadline_ms :: int

definition dec_decision_request_wire :: "decision_request_wire decoder" where
  "dec_decision_request_wire = dec_struct
     [(''player_id'', dec_field wr_player (\<lambda>x s. s\<lparr>wr_player := x\<rparr>) dec_str),
      (''visible_state'', dec_field wr_visible (\<lambda>x s. s\<lparr>wr_visible := x\<rparr>) dec_raw),
      (''legal_action_hint'', dec_field wr_hint (\<lambda>x s. s\<lparr>wr_hint := x\<rparr>) dec_raw),
      (''deadline_ms'', dec_field wr_deadline_ms (\<lambda>x s. s\<lparr>wr_deadline_ms := x\<rparr>) dec_int)]"

definition dec_decision_request :: "json \<Rightarrow> decision_request option" where
  "dec_decision_request j =
     map_option (\<lambda>w. \<lparr>rq_player = wr_player w, rq_visible = wr_visible w, rq_hint = wr_hint w,
                      rq_deadline = unmarshal_deadline (wr_deadline_ms w)\<rparr>)
       (dec_decision_request_wire j
          \<lparr>wr_player = [], wr_visible = RawNone, wr_hint = RawNone, wr_deadline_ms = 0\<rparr>)"

section \<open>Wire form of action statuses\<close>

definition enc_action_status :: "action_status \<Rightarrow> json option" where
  "enc_action_status s =
     map_option (\<lambda>a. JObj
       ([(''player_id'', JStr (as_player s)),
         (''action_status'', JStr (decision_str (as_decision s)))] @
        omit_str ''failure_reason'' (reason_str (as_reason s)) @ a))
       (omit_raw ''action'' (as_action s))"

definition dec_mode :: "decision_mode decoder" where
  "dec_mode j m = map_option str_mode (dec_str j (mode_str m))"

definition dec_decision :: "action_decision decoder" where
  "dec_decision j d = map_option str_decision (dec_str j (decision_str d))"

definition dec_reason :: "failure_reason decoder" where
  "dec_reason j r = map_option str_reason (dec_str j (reason_str r))"

definition dec_action_status :: "action_status decoder" where
  "dec_action_status = dec_struct
     [(''player_id'', dec_field as_player (\<lambda>x s. s\<lparr>as_player := x\<rparr>) dec_str),
      (''action_status'', dec_field as_decision (\<lambda>x s. s\<lparr>as_decision := x\<rparr>) dec_decision),
      (''failure_reason'', dec_field as_reason (\<lambda>x s. s\<lparr>as_reason := x\<rparr>) dec_reason),
      (''action'', dec_field as_action (\<lambda>x s. s\<lparr>as_action := x\<rparr>) dec_raw)]"

lemma wrap64_id: "- (2 ^ 63) \<le> x \<Longrightarrow> x < 2 ^ 63 \<Longrightarrow> wrap64 x = x"
  by (simp add: wrap64_def signed_take_bit_int_eq_self)

lemma marshal_deadline_alt:
  "marshal_deadline ns = (if ns < 0 then - (- ns div 1000000) else ns div 1000000)"
  by (simp add: marshal_deadline_def ns_per_ms_def signed_divide_int_def sgn_if)

lemma unmarshal_marshal_deadline:
  assumes "int64_ok ns"
  shows "unmarshal_deadline (marshal_deadline ns) = marshal_deadline ns * 1000000"
proof -
  have "- (2 ^ 63) \<le> marshal_deadline ns * 1000000 \<and> marshal_deadline ns * 1000000 < 2 ^ 63"
    using assms by (auto simp: int64_ok_def marshal_deadline_alt)
  then show ?thesis by (simp add: unmarshal_deadline_def ns_per_ms_def wrap64_id)
qed

text \<open>
  Deadlines survive the JSON wire form up to the millisecond: for every 64-bit
  nanosecond count, decoding the encoded value truncates it towards zero to whole
  milliseconds, so it is never enlarged, loses less than one millisecond, and is exact for
  whole milliseconds.
\<close>

theorem deadline_roundtrip:
  assumes "int64_ok ns"
  defines "d \<equiv> unmarshal_deadline (marshal_deadline ns)"
  shows "\<bar>d\<bar> \<le> \<bar>ns\<bar> \<and> \<bar>ns\<bar> - \<bar>d\<bar> < 1000000 \<and> 0 \<le> d * ns \<and>
    (1000000 dvd ns \<longrightarrow> d = ns)"
proof -
  have d: "d = marshal_deadline ns * 1000000"
    using assms by (simp add: unmarshal_marshal_deadline)
  have "\<bar>d\<bar> \<le> \<bar>ns\<bar>" "\<bar>ns\<bar> - \<bar>d\<bar> < 1000000"
    unfolding d marshal_deadline_alt by (auto split: if_splits)
  moreover have "0 \<le> d * ns"
    unfolding d marshal_deadline_alt
    by (auto simp: zero_le_mult_iff mult_le_0_iff neg_imp_zdiv_nonneg_iff
        pos_imp_zdiv_nonneg_iff)
  moreover have "1000000 dvd ns \<longrightarrow> d = ns"
    unfolding d marshal_deadline_alt by (auto simp: dvd_neg_div)
  ultimately show ?thesis by blast
qed

theorem deadline_roundtrip_witness:
  "int64_ok 2500000 \<and> unmarshal_deadline (marshal_deadline 2500000) = 2000000 \<and>
   \<bar>2500000\<bar> - \<bar>unmarshal_deadline (marshal_deadline 2500000)\<bar> < 1000000"
proof -
  have ok: "int64_ok 2500000" by (simp add: int64_ok_def)
  moreover have "unmarshal_deadline (marshal_deadline 2500000) = 2000000"
    using unmarshal_marshal_deadline [OF ok] by (simp add: marshal_deadline_alt)
  ultimately show ?thesis using deadline_roundtrip [OF ok] by simp
qed

text \<open>
  A deadline that does not fit is not rejected: a positive \<open>deadline_ms\<close> from a game
  master is multiplied with 64-bit wrap-around and can become a negative duration, which
  fires the player's timer at once.
\<close>

theorem deadline_wraps:
  "\<exists>ms. int64_ok ms \<and> 0 < ms \<and> unmarshal_deadline ms < 0"
proof -
  have "unmarshal_deadline 9223372036855 < 0"
    by (simp add: unmarshal_deadline_def ns_per_ms_def wrap64_def signed_take_bit_eq_if_negative
        signed_take_bit_eq_concat_bit) 
  moreover have "int64_ok 9223372036855" by (simp add: int64_ok_def)
  ultimately show ?thesis by (intro exI [of _ 9223372036855]) simp
qed

section \<open>Round trip of action statuses\<close>

definition encodable_status :: "action_status \<Rightarrow> bool" where
  "encodable_status s \<longleftrightarrow>
     canonical_decision (as_decision s) \<and> canonical_reason (as_reason s) \<and> as_action s \<noteq> RawBad"

lemma dec_enc_action_status:
  assumes "encodable_status s"
  shows "\<exists>j. enc_action_status s = Some j \<and> dec_action_status j zero_status = Some s"
proof -
  obtain p d r a where s: "s = \<lparr>as_player = p, as_decision = d, as_reason = r, as_action = a\<rparr>"
    by (cases s)
  have c: "str_decision (decision_str d) = d" "str_reason (reason_str r) = r"
    using assms by (simp_all add: s encodable_status_def canonical_decision_def canonical_reason_def)
  have r0: "str_reason [] = NoReason" by (simp add: str_reason_def)
  show ?thesis
    using assms c r0
    by (cases a; cases "reason_str r = []")
      (auto simp: s encodable_status_def enc_action_status_def omit_raw_def omit_str_def
        dec_action_status_def dec_defs dec_decision_def dec_reason_def zero_status_def upper_def)
qed

end
