(* ===== verification/Ordering.thy ===== *)
theory Ordering
  imports Prelude
begin

text \<open>
  Sorting with a caller-supplied \<open>less\<close> (Go's \<open>sort.Slice\<close>) and competition ranking of a
  sorted list (equal keys share the place of the first of them, the next place is skipped).
  Both are used by the games' \<open>Result\<close> methods; sorting also by the ranking snapshots and
  the match record.

  The locale \<open>weak_order\<close> is the contract a comparator has to satisfy; each component
  interprets it with its own comparator.
\<close>

section \<open>Sorting with a comparator\<close>

fun insert_by :: "('a \<Rightarrow> 'a \<Rightarrow> bool) \<Rightarrow> 'a \<Rightarrow> 'a list \<Rightarrow> 'a list" where
  "insert_by lt x [] = [x]"
| "insert_by lt x (y # ys) = (if lt y x then y # insert_by lt x ys else x # y # ys)"

text \<open>
  \<open>sort.Slice\<close> returns some permutation sorted by \<open>lt\<close>; insertion sort computes one.
  \<open>sort_slice_unique\<close> below shows that it is the only one where \<open>lt\<close> separates
  different elements, so that the model does not depend on the algorithm chosen there.
\<close>

definition sort_slice :: "('a \<Rightarrow> 'a \<Rightarrow> bool) \<Rightarrow> 'a list \<Rightarrow> 'a list" where
  "sort_slice lt xs = foldr (insert_by lt) xs []"

lemma mset_insert_by [simp]: "mset (insert_by lt x ys) = add_mset x (mset ys)"
  by (induction ys) auto

lemma mset_sort_slice [simp]: "mset (sort_slice lt xs) = mset xs"
  unfolding sort_slice_def by (induction xs) auto

lemma set_sort_slice [simp]: "set (sort_slice lt xs) = set xs"
  by (metis mset_sort_slice set_mset_mset)

lemma length_sort_slice [simp]: "length (sort_slice lt xs) = length xs"
  by (metis mset_sort_slice size_mset)

lemma distinct_sort_slice [simp]: "distinct (sort_slice lt xs) = distinct xs"
  by (metis mset_sort_slice mset_eq_imp_distinct_iff)

lemma sort_slice_Nil [simp]: "sort_slice lt [] = []"
  by (simp add: sort_slice_def)

text \<open>Sortedness as Go understands it: no later element is less than an earlier one.\<close>

definition sorted_by :: "('a \<Rightarrow> 'a \<Rightarrow> bool) \<Rightarrow> 'a list \<Rightarrow> bool" where
  "sorted_by lt xs = sorted_wrt (\<lambda>a b. \<not> lt b a) xs"

locale weak_order =
  fixes lt :: "'a \<Rightarrow> 'a \<Rightarrow> bool"
  assumes irrefl: "\<not> lt a a"
    and trans: "lt a b \<Longrightarrow> lt b c \<Longrightarrow> lt a c"
    and neg_trans: "lt a c \<Longrightarrow> lt a b \<or> lt b c"
begin

lemma asym: "lt a b \<Longrightarrow> \<not> lt b a"
  using irrefl trans by blast

lemma not_less_trans: "\<not> lt b a \<Longrightarrow> \<not> lt c b \<Longrightarrow> \<not> lt c a"
  using neg_trans by blast

lemma set_insert_by: "set (insert_by lt x ys) = insert x (set ys)"
  by (induction ys) auto

lemma sorted_insert_by: "sorted_by lt ys \<Longrightarrow> sorted_by lt (insert_by lt x ys)"
proof (induction ys)
  case Nil
  then show ?case by (simp add: sorted_by_def)
next
  case (Cons y ys)
  show ?case
  proof (cases "lt y x")
    case True
    with Cons show ?thesis
      by (auto simp: sorted_by_def set_insert_by dest: asym)
  next
    case False
    with Cons.prems show ?thesis
      by (auto simp: sorted_by_def dest: neg_trans [of _ x y])
  qed
qed

lemma sorted_sort_slice: "sorted_by lt (sort_slice lt xs)"
  unfolding sort_slice_def
  by (induction xs) (simp_all add: sorted_insert_by, simp add: sorted_by_def)

lemma sorted_unique:
  assumes "sorted_by lt xs" "sorted_by lt ys" "mset xs = mset ys"
    and total: "\<And>a b. a \<in> set xs \<Longrightarrow> b \<in> set xs \<Longrightarrow> a \<noteq> b \<Longrightarrow> lt a b \<or> lt b a"
  shows "xs = ys"
  using assms
proof (induction xs arbitrary: ys)
  case Nil
  then show ?case by simp
next
  case (Cons x xs)
  then obtain y zs where ys: "ys = y # zs" by (cases ys) auto
  have sets: "set (x # xs) = set ys" by (metis Cons.prems(3) mset_eq_setD)
  have "x = y"
  proof (rule ccontr)
    assume "x \<noteq> y"
    with sets ys have "x \<in> set zs" "y \<in> set xs" by auto
    then have "\<not> lt x y" "\<not> lt y x"
      using Cons.prems(1,2) ys by (auto simp: sorted_by_def)
    moreover have "lt x y \<or> lt y x"
      by (rule Cons.prems(4)) (use \<open>x \<noteq> y\<close> \<open>y \<in> set xs\<close> in auto)
    ultimately show False by blast
  qed
  moreover have "xs = zs"
    by (rule Cons.IH)
      (use Cons.prems ys \<open>x = y\<close> in \<open>auto simp: sorted_by_def\<close>)
  ultimately show ?case using ys by simp
qed

lemma sort_slice_unique:
  assumes "mset ys = mset xs" "sorted_by lt ys"
    and "\<And>a b. a \<in> set xs \<Longrightarrow> b \<in> set xs \<Longrightarrow> a \<noteq> b \<Longrightarrow> lt a b \<or> lt b a"
  shows "ys = sort_slice lt xs"
proof -
  have "set ys = set xs" by (metis assms(1) mset_eq_setD)
  then show ?thesis
    using sorted_unique [OF assms(2) sorted_sort_slice] assms(1,3) by simp
qed

end

section \<open>Competition ranking\<close>

text \<open>
  The loop shared by the games: position \<open>i\<close> gets place \<open>i + 1\<close>, unless its key equals
  the previous one, which then passes on its own place.
\<close>

fun assign_places :: "('k \<Rightarrow> 'k \<Rightarrow> bool) \<Rightarrow> nat \<Rightarrow> int \<Rightarrow> 'k \<Rightarrow> (string \<times> 'k) list \<Rightarrow> (string \<times> int) list" where
  "assign_places same i last_place prev [] = []"
| "assign_places same i last_place prev ((p, k) # rest) =
     (let place = (if 0 < i \<and> same k prev then last_place else int i + 1)
      in (p, place) # assign_places same (Suc i) place k rest)"

text \<open>
  The specification: a place is one more than the number of competitors with a strictly
  better key.
\<close>

definition rank_of :: "('k \<Rightarrow> 'k \<Rightarrow> bool) \<Rightarrow> (string \<times> 'k) list \<Rightarrow> 'k \<Rightarrow> int" where
  "rank_of better xs k = 1 + int (length (filter (\<lambda>x. better (snd x) k) xs))"

lemma rank_of_mset_cong: "mset xs = mset ys \<Longrightarrow> rank_of better xs k = rank_of better ys k"
proof -
  assume "mset xs = mset ys"
  then have "size (filter_mset (\<lambda>x. better (snd x) k) (mset xs)) =
    size (filter_mset (\<lambda>x. better (snd x) k) (mset ys))" by simp
  then show ?thesis by (simp add: rank_of_def flip: mset_filter)
qed

locale placement = weak_order better for better :: "'k \<Rightarrow> 'k \<Rightarrow> bool" +
  fixes same :: "'k \<Rightarrow> 'k \<Rightarrow> bool"
  assumes same_iff: "same a b \<longleftrightarrow> \<not> better a b \<and> \<not> better b a"
begin

lemma rank_of_same: "same a b \<Longrightarrow> rank_of better xs a = rank_of better xs b"
proof -
  assume "same a b"
  then have "\<not> better a b" "\<not> better b a" by (simp_all add: same_iff)
  then have "better (snd x) a = better (snd x) b" for x :: "string \<times> 'k"
    using neg_trans by blast
  then show ?thesis by (simp add: rank_of_def)
qed

text \<open>Breaking ties of the key by a linear order on the competitors.\<close>

lemma tie_break:
  fixes key :: "'b::linorder \<Rightarrow> 'k"
  shows "weak_order (\<lambda>p q. better (key p) (key q) \<or> same (key p) (key q) \<and> p < q)"
proof
  fix p q r :: 'b
  show "\<not> (better (key p) (key p) \<or> same (key p) (key p) \<and> p < p)"
    by (simp add: irrefl)
  show "better (key p) (key r) \<or> same (key p) (key r) \<and> p < r"
    if pq: "better (key p) (key q) \<or> same (key p) (key q) \<and> p < q"
      and qr: "better (key q) (key r) \<or> same (key q) (key r) \<and> q < r"
  proof (cases "better (key p) (key q) \<or> better (key q) (key r)")
    case True
    then have "better (key p) (key r)"
    proof
      assume "better (key p) (key q)"
      with qr neg_trans [of "key p" "key q" "key r"] show ?thesis
        by (auto simp: same_iff intro: trans)
    next
      assume "better (key q) (key r)"
      with pq neg_trans [of "key q" "key r" "key p"] show ?thesis
        by (auto simp: same_iff intro: trans)
    qed
    then show ?thesis by blast
  next
    case False
    with pq qr have "p < r" "\<not> better (key p) (key r)" "\<not> better (key r) (key p)"
      using neg_trans [of "key p" "key r" "key q"] neg_trans [of "key r" "key p" "key q"]
      by (auto simp: same_iff)
    then show ?thesis by (simp add: same_iff)
  qed
  show "(better (key p) (key q) \<or> same (key p) (key q) \<and> p < q) \<or>
      (better (key q) (key r) \<or> same (key q) (key r) \<and> q < r)"
    if h: "better (key p) (key r) \<or> same (key p) (key r) \<and> p < r"
  proof (rule ccontr)
    assume no: "\<not> ?thesis"
    then have pq: "\<not> better (key p) (key q)" and qr: "\<not> better (key q) (key r)" by blast+
    then have "\<not> better (key p) (key r)" using neg_trans by blast
    with h have rp: "\<not> better (key r) (key p)" and "p < r" by (auto simp: same_iff)
    have "\<not> better (key q) (key p)" using neg_trans [of "key q" "key p" "key r"] qr rp by blast
    moreover have "\<not> better (key r) (key q)" using neg_trans [of "key r" "key q" "key p"] pq rp by blast
    ultimately have "\<not> p < q" "\<not> q < r" using no pq qr by (simp_all add: same_iff)
    with \<open>p < r\<close> show False by simp
  qed
qed

lemma rank_of_split:
  assumes "sorted_by (\<lambda>a b. better (snd a) (snd b)) (pre @ (p, k) # rest)"
    and "\<And>x. x \<in> set pre \<Longrightarrow> better (snd x) k"
  shows "rank_of better (pre @ (p, k) # rest) k = int (length pre) + 1"
proof -
  have "filter (\<lambda>x. better (snd x) k) pre = pre"
    using assms(2) by (simp add: filter_id_conv)
  moreover have "filter (\<lambda>x. better (snd x) k) rest = []"
    using assms(1) by (auto simp: filter_empty_conv sorted_by_def sorted_wrt_append)
  ultimately show ?thesis by (simp add: rank_of_def irrefl)
qed

lemma assign_places_from:
  assumes "sorted_by (\<lambda>a b. better (snd a) (snd b)) (pre @ rest)"
    and "pre \<noteq> [] \<Longrightarrow> prev = snd (last pre) \<and> lp = rank_of better (pre @ rest) prev"
  shows "assign_places same (length pre) lp prev rest =
    map (\<lambda>(p, k). (p, rank_of better (pre @ rest) k)) rest"
  using assms
proof (induction rest arbitrary: pre lp prev)
  case Nil
  then show ?case by simp
next
  case (Cons x rest)
  obtain p k where x: "x = (p, k)" by (cases x)
  let ?all = "pre @ (p, k) # rest"
  have srt: "sorted_by (\<lambda>a b. better (snd a) (snd b)) ?all"
    using Cons.prems(1) x by simp
  define place where
    "place = (if 0 < length pre \<and> same k prev then lp else int (length pre) + 1)"
  have place: "place = rank_of better ?all k"
  proof (cases "pre \<noteq> [] \<and> same k prev")
    case True
    with Cons.prems(2) x have "lp = rank_of better ?all prev" by simp
    with True show ?thesis by (simp add: place_def rank_of_same [of k prev])
  next
    case False
    have "better (snd y) k" if y: "y \<in> set pre" for y
    proof -
      from y have ne: "pre \<noteq> []" by auto
      with False Cons.prems(2) have prev: "prev = snd (last pre)" and "\<not> same k prev" by auto
      have "\<not> better k prev"
        using srt ne prev by (auto simp: sorted_by_def sorted_wrt_append)
      with \<open>\<not> same k prev\<close> have "better prev k" by (simp add: same_iff)
      moreover have "\<not> better prev (snd y)"
      proof -
        have "pre = butlast pre @ [last pre]" using ne by simp
        then have "y \<in> set (butlast pre) \<or> y = last pre"
          using y by (metis Un_iff empty_iff insert_iff list.set(1) list.simps(15) set_append)
        moreover have "sorted_by (\<lambda>a b. better (snd a) (snd b)) (butlast pre @ [last pre])"
          using srt ne by (simp add: sorted_by_def sorted_wrt_append)
        ultimately show ?thesis
          using prev irrefl by (auto simp: sorted_by_def sorted_wrt_append)
      qed
      ultimately show ?thesis using neg_trans by blast
    qed
    then have "rank_of better ?all k = int (length pre) + 1"
      by (rule rank_of_split [OF srt])
    with False show ?thesis by (auto simp: place_def)
  qed
  have IH: "assign_places same (length (pre @ [x])) place k rest =
    map (\<lambda>(q, j). (q, rank_of better ((pre @ [x]) @ rest) j)) rest"
    by (rule Cons.IH) (use srt place x in auto)
  show ?case using IH place by (simp add: x place_def Let_def)
qed

lemma assign_places_rank:
  assumes "sorted_by (\<lambda>a b. better (snd a) (snd b)) xs"
  shows "assign_places same 0 lp prev xs = map (\<lambda>(p, k). (p, rank_of better xs k)) xs"
  using assign_places_from [of "[]" xs prev lp] assms by simp

end

end
