(* ===== verification/Janken.thy ===== *)
theory Janken
  imports Contract Ordering
begin

text \<open>
  The rock-paper-scissors game master of \<open>internal/games/janken/janken.go\<close>: construction,
  decision steps, action normalisation, round resolution, snapshots, snapshot restore,
  replay from an event log, and the final placements.
\<close>

section \<open>Data\<close>

definition GameID :: string where
  "GameID = ''janken''"

definition GameVersion :: string where
  "GameVersion = ''2.1.0''"

definition RulesetRegular :: string where
  "RulesetRegular = ''regular''"

definition RegularRounds :: int where
  "RegularRounds = 5"

definition default_turn_deadline :: int where
  "default_turn_deadline = 100 * ns_per_ms"

definition legal_action_hint :: raw where
  "legal_action_hint = RawJson (JObj
     [(''properties'', JObj [(''action'', JObj
          [(''enum'', JArr [JStr ''rock'', JStr ''paper'', JStr ''scissors'']),
           (''type'', JStr ''string'')])]),
      (''required'', JArr [JStr ''action'']),
      (''type'', JStr ''object'')])"

record config =
  cf_game_version :: string
  cf_ruleset :: string
  cf_players :: "player list"

record score =
  sc_wins :: int
  sc_losses :: int
  sc_draws :: int
  sc_timeouts :: int
  sc_invalid :: int

record self_round =
  sr_round :: int
  sr_action :: string
  sr_result :: string

record public_round =
  pr_round :: int
  pr_actions :: "string gomap"
  pr_results :: "string gomap"

record master =
  jk_meta :: game_metadata
  jk_players :: "player list"
  jk_player_ids :: "string list"
  jk_rounds :: int
  jk_deadline :: int
  jk_resolved :: int
  jk_scores :: "score gomap"
  jk_self_history :: "self_round list gomap"
  jk_public_history :: "public_round list"
  jk_last_action :: "action_status gomap"

definition zero_score :: score where
  "zero_score = \<lparr>sc_wins = 0, sc_losses = 0, sc_draws = 0, sc_timeouts = 0, sc_invalid = 0\<rparr>"

datatype error =
    TooFewPlayers | GameVersionRequired | UnsupportedGameVersion string
  | UnsupportedRuleset string | UnsupportedMode decision_mode | ActionCount nat nat
  | SnapshotGameID string | SnapshotGameVersion string | SnapshotRuleset string
  | SnapshotTurn int | DecodeGameState
  | UnknownScorePlayer string | UnknownHistoryPlayer string | UnknownPerPlayer string
  | TargetTurnOutOfRange int | DecodeEvent event | HistoryEnded int

section \<open>Construction\<close>

definition metadata_for_selection ::
  "string \<Rightarrow> string \<Rightarrow> error + game_metadata \<times> int \<times> int" where
  "metadata_for_selection game_version ruleset =
     (if game_version \<noteq> GameVersion then Inl (UnsupportedGameVersion game_version)
      else if ruleset = RulesetRegular then
        Inr (\<lparr>gm_game_id = GameID, gm_game_version = game_version, gm_ruleset = RulesetRegular\<rparr>,
             RegularRounds, default_turn_deadline)
      else Inl (UnsupportedRuleset ruleset))"

definition new_master :: "config \<Rightarrow> error + master" where
  "new_master cfg =
     (if length (cf_players cfg) < 2 then Inl TooFewPlayers
      else if cf_game_version cfg = [] then Inl GameVersionRequired
      else bindR (metadata_for_selection (cf_game_version cfg) (cf_ruleset cfg))
        (\<lambda>(meta, rounds, deadline).
          Inr \<lparr>jk_meta = meta,
               jk_players = cf_players cfg,
               jk_player_ids = map pl_id (cf_players cfg),
               jk_rounds = rounds,
               jk_deadline = deadline,
               jk_resolved = 0,
               jk_scores = put_all pl_id (\<lambda>_. zero_score) (cf_players cfg) [],
               jk_self_history = put_all pl_id (\<lambda>_. []) (cf_players cfg) [],
               jk_public_history = [],
               jk_last_action = put_all pl_id (\<lambda>p. no_action (pl_id p)) (cf_players cfg) []\<rparr>))"

section \<open>State on the wire\<close>

definition enc_score :: "score \<Rightarrow> json" where
  "enc_score s = JObj
     [(''wins'', JInt (sc_wins s)), (''losses'', JInt (sc_losses s)),
      (''draws'', JInt (sc_draws s)), (''timeouts'', JInt (sc_timeouts s)),
      (''invalid_actions'', JInt (sc_invalid s))]"

definition enc_self_round :: "self_round \<Rightarrow> json" where
  "enc_self_round r = JObj
     [(''round'', JInt (sr_round r)), (''action'', JStr (sr_action r)),
      (''result'', JStr (sr_result r))]"

definition enc_public_round :: "public_round \<Rightarrow> json" where
  "enc_public_round r = JObj
     [(''round'', JInt (pr_round r)), (''actions'', enc_map JStr (pr_actions r)),
      (''results'', enc_map JStr (pr_results r))]"

definition dec_score :: "score decoder" where
  "dec_score = dec_struct
     [(''wins'', dec_field sc_wins (\<lambda>x s. s\<lparr>sc_wins := x\<rparr>) dec_int),
      (''losses'', dec_field sc_losses (\<lambda>x s. s\<lparr>sc_losses := x\<rparr>) dec_int),
      (''draws'', dec_field sc_draws (\<lambda>x s. s\<lparr>sc_draws := x\<rparr>) dec_int),
      (''timeouts'', dec_field sc_timeouts (\<lambda>x s. s\<lparr>sc_timeouts := x\<rparr>) dec_int),
      (''invalid_actions'', dec_field sc_invalid (\<lambda>x s. s\<lparr>sc_invalid := x\<rparr>) dec_int)]"

definition dec_self_round :: "self_round decoder" where
  "dec_self_round = dec_struct
     [(''round'', dec_field sr_round (\<lambda>x s. s\<lparr>sr_round := x\<rparr>) dec_int),
      (''action'', dec_field sr_action (\<lambda>x s. s\<lparr>sr_action := x\<rparr>) dec_str),
      (''result'', dec_field sr_result (\<lambda>x s. s\<lparr>sr_result := x\<rparr>) dec_str)]"

definition dec_public_round :: "public_round decoder" where
  "dec_public_round = dec_struct
     [(''round'', dec_field pr_round (\<lambda>x s. s\<lparr>pr_round := x\<rparr>) dec_int),
      (''actions'', dec_field pr_actions (\<lambda>x s. s\<lparr>pr_actions := x\<rparr>) (dec_map dec_str [])),
      (''results'', dec_field pr_results (\<lambda>x s. s\<lparr>pr_results := x\<rparr>) (dec_map dec_str []))]"

definition zero_self_round :: self_round where
  "zero_self_round = \<lparr>sr_round = 0, sr_action = [], sr_result = []\<rparr>"

definition zero_public_round :: public_round where
  "zero_public_round = \<lparr>pr_round = 0, pr_actions = [], pr_results = []\<rparr>"

record snapshot_state =
  ss_rounds :: int
  ss_resolved :: int
  ss_scores :: "score gomap"
  ss_self :: "self_round list gomap"
  ss_public :: "public_round list"

definition enc_self_history :: "self_round list \<Rightarrow> json" where
  "enc_self_history rs = JArr (map enc_self_round rs)"

definition enc_snapshot_state :: "snapshot_state \<Rightarrow> json" where
  "enc_snapshot_state s = JObj
     [(''rounds'', JInt (ss_rounds s)), (''resolved_rounds'', JInt (ss_resolved s)),
      (''scores'', enc_map enc_score (ss_scores s)),
      (''self_history'', enc_map enc_self_history (ss_self s)),
      (''public_history'', JArr (map enc_public_round (ss_public s)))]"

definition dec_snapshot_state :: "snapshot_state decoder" where
  "dec_snapshot_state = dec_struct
     [(''rounds'', dec_field ss_rounds (\<lambda>x s. s\<lparr>ss_rounds := x\<rparr>) dec_int),
      (''resolved_rounds'', dec_field ss_resolved (\<lambda>x s. s\<lparr>ss_resolved := x\<rparr>) dec_int),
      (''scores'', dec_field ss_scores (\<lambda>x s. s\<lparr>ss_scores := x\<rparr>) (dec_map dec_score zero_score)),
      (''self_history'', dec_field ss_self (\<lambda>x s. s\<lparr>ss_self := x\<rparr>)
         (dec_map (dec_list dec_self_round zero_self_round) [])),
      (''public_history'', dec_field ss_public (\<lambda>x s. s\<lparr>ss_public := x\<rparr>)
         (dec_list dec_public_round zero_public_round))]"

definition zero_snapshot_state :: snapshot_state where
  "zero_snapshot_state =
     \<lparr>ss_rounds = 0, ss_resolved = 0, ss_scores = [], ss_self = [], ss_public = []\<rparr>"

section \<open>Steps\<close>

definition visible_round :: "master \<Rightarrow> int" where
  "visible_round m = (if jk_resolved m \<ge> jk_rounds m then jk_rounds m else jk_resolved m + 1)"

definition visible_state :: "master \<Rightarrow> string \<Rightarrow> raw" where
  "visible_state m p = RawJson (JObj
     [(''round'', JInt (visible_round m)), (''rounds'', JInt (jk_rounds m)),
      (''self_history'', enc_self_history (getd [] (jk_self_history m) p)),
      (''public_history'', JArr (map enc_public_round (jk_public_history m)))])"

definition init :: "master \<Rightarrow> init_state" where
  "init m =
     (let state = RawJson (JObj [(''players'', JArr (map JStr (jk_player_ids m))),
                                 (''rounds'', JInt (jk_rounds m))])
      in \<lparr>is_per_player = put_all pl_id (\<lambda>_. state) (jk_players m) []\<rparr>)"

definition next_step :: "master \<Rightarrow> decision_step option" where
  "next_step m =
     (if jk_resolved m \<ge> jk_rounds m then None
      else Some \<lparr>st_turn = jk_resolved m + 1, st_mode = Simultaneous,
        st_requests = map (\<lambda>p. \<lparr>rq_player = pl_id p, rq_visible = visible_state m (pl_id p),
            rq_hint = legal_action_hint, rq_deadline = jk_deadline m\<rparr>) (jk_players m)\<rparr>)"

definition is_playable_action :: "string \<Rightarrow> bool" where
  "is_playable_action v = (v = ''rock'' \<or> v = ''paper'' \<or> v = ''scissors'')"

definition dec_action :: "string decoder" where
  "dec_action = dec_struct [(''action'', dec_field (\<lambda>s. s) (\<lambda>x s. x) dec_str)]"

definition enc_action :: "string \<Rightarrow> raw" where
  "enc_action a = RawJson (JObj [(''action'', JStr a)])"

definition normalize_action :: "decision_request \<Rightarrow> action_status \<Rightarrow> action_status" where
  "normalize_action req s =
     (if as_decision s \<noteq> ActionAccepted then s\<lparr>as_action := RawNone\<rparr>
      else
        let illegal = \<lparr>as_player = rq_player req, as_decision = ActionNoAction,
                       as_reason = ReasonIllegalAction, as_action = RawNone\<rparr>
        in case unmarshal dec_action (as_action s) [] of
             None \<Rightarrow> illegal
           | Some a \<Rightarrow> if is_playable_action a then s\<lparr>as_action := enc_action a\<rparr> else illegal)"

section \<open>Resolving a round\<close>

definition winning_action_for_choices :: "string list \<Rightarrow> string" where
  "winning_action_for_choices choices =
     (if ''rock'' \<in> set choices \<and> ''scissors'' \<in> set choices then ''rock''
      else if ''scissors'' \<in> set choices \<and> ''paper'' \<in> set choices then ''scissors''
      else ''paper'')"

definition resolve_valid_outcomes :: "string gomap \<Rightarrow> string gomap" where
  "resolve_valid_outcomes valid =
     (let choices = remdups (map snd valid) in
      if valid = [] then []
      else if length choices = 1 \<or> length choices = 3 then
        put_all fst (\<lambda>_. ''draw'') valid []
      else
        let winning = winning_action_for_choices choices in
        put_all fst (\<lambda>(p, c). if c = winning then ''win'' else ''loss'') valid [])"

text \<open>The three maps local to \<open>ApplyStep\<close>.\<close>

record round_maps =
  rm_actions :: "string gomap"
  rm_outcomes :: "string gomap"
  rm_valid :: "string gomap"

definition resolved_action :: "action_status \<Rightarrow> string option" where
  "resolved_action s =
     (if as_decision s = ActionAccepted then
        (case unmarshal dec_action (as_action s) [] of
           Some a \<Rightarrow> if is_playable_action a then Some a else None
         | None \<Rightarrow> None)
      else None)"

definition count_failure :: "failure_reason \<Rightarrow> score \<Rightarrow> score" where
  "count_failure r sc =
     (case r of
        ReasonTimeout \<Rightarrow> sc\<lparr>sc_timeouts := sc_timeouts sc + 1\<rparr>
      | ReasonIllegalAction \<Rightarrow> sc\<lparr>sc_invalid := sc_invalid sc + 1\<rparr>
      | _ \<Rightarrow> sc)"

definition apply_status :: "action_status \<Rightarrow> master \<times> round_maps \<Rightarrow> master \<times> round_maps" where
  "apply_status s = (\<lambda>(m, r).
     let p = as_player s;
         m1 = m\<lparr>jk_last_action := put p s (jk_last_action m)\<rparr>;
         r1 = (case resolved_action s of
             Some a \<Rightarrow> r\<lparr>rm_valid := put p a (rm_valid r), rm_actions := put p a (rm_actions r)\<rparr>
           | None \<Rightarrow> r\<lparr>rm_actions := put p ''no_action'' (rm_actions r),
                       rm_outcomes := put p ''loss'' (rm_outcomes r)\<rparr>)
     in (m1\<lparr>jk_scores := put p (count_failure (as_reason s) (getd zero_score (jk_scores m1) p))
                             (jk_scores m1)\<rparr>, r1))"

definition count_outcome :: "string \<Rightarrow> score \<Rightarrow> score" where
  "count_outcome outcome sc =
     (if outcome = ''win'' then sc\<lparr>sc_wins := sc_wins sc + 1\<rparr>
      else if outcome = ''draw'' then sc\<lparr>sc_draws := sc_draws sc + 1\<rparr>
      else sc\<lparr>sc_losses := sc_losses sc + 1\<rparr>)"

definition record_player :: "int \<Rightarrow> round_maps \<Rightarrow> string \<Rightarrow> master \<Rightarrow> master" where
  "record_player turn r p m =
     m\<lparr>jk_scores := put p (count_outcome (getd [] (rm_outcomes r) p)
                              (getd zero_score (jk_scores m) p)) (jk_scores m),
       jk_self_history := put p (getd [] (jk_self_history m) p @
         [\<lparr>sr_round = turn, sr_action = getd [] (rm_actions r) p,
           sr_result = getd [] (rm_outcomes r) p\<rparr>]) (jk_self_history m)\<rparr>"

definition apply_step :: "master \<Rightarrow> decision_step \<Rightarrow> action_status list \<Rightarrow> error + master" where
  "apply_step m step statuses =
     (if st_mode step \<noteq> Simultaneous then Inl (UnsupportedMode (st_mode step))
      else if length statuses \<noteq> length (jk_players m) then
        Inl (ActionCount (length statuses) (length (jk_players m)))
      else
        let (m1, r) = fold apply_status statuses
               (m, \<lparr>rm_actions = [], rm_outcomes = [], rm_valid = []\<rparr>);
            r1 = r\<lparr>rm_outcomes := put_all fst snd (resolve_valid_outcomes (rm_valid r)) (rm_outcomes r)\<rparr>;
            m2 = fold (\<lambda>p. record_player (st_turn step) r1 (pl_id p)) (jk_players m1) m1
        in Inr (m2\<lparr>jk_public_history := jk_public_history m2 @
                 [\<lparr>pr_round = st_turn step, pr_actions = rm_actions r1, pr_results = rm_outcomes r1\<rparr>],
               jk_resolved := jk_resolved m2 + 1\<rparr>))"

section \<open>Snapshots\<close>

definition snapshot_state_of :: "master \<Rightarrow> snapshot_state" where
  "snapshot_state_of m =
     \<lparr>ss_rounds = jk_rounds m, ss_resolved = jk_resolved m, ss_scores = jk_scores m,
      ss_self = jk_self_history m, ss_public = jk_public_history m\<rparr>"

definition take_snapshot :: "master \<Rightarrow> snapshot" where
  "take_snapshot m =
     \<lparr>sn_match_id = [], sn_game_id = gm_game_id (jk_meta m),
      sn_game_version = gm_game_version (jk_meta m), sn_ruleset = gm_ruleset (jk_meta m),
      sn_turn = jk_resolved m, sn_status = StatusRunning,
      sn_game_state = RawJson (enc_snapshot_state (snapshot_state_of m)), sn_per_player = []\<rparr>"

definition exported_snapshot_of :: "master \<Rightarrow> exported_snapshot" where
  "exported_snapshot_of m =
     \<lparr>xs_match_id = [], xs_game_id = gm_game_id (jk_meta m),
      xs_game_version = gm_game_version (jk_meta m), xs_ruleset = gm_ruleset (jk_meta m),
      xs_turn = jk_resolved m, xs_status = StatusRunning,
      xs_public_state = RawJson (JObj
        [(''rounds'', JInt (jk_rounds m)), (''resolved_rounds'', JInt (jk_resolved m)),
         (''scores'', enc_map enc_score (jk_scores m)),
         (''public_history'', JArr (map enc_public_round (jk_public_history m)))]),
      xs_players = map (\<lambda>p. \<lparr>xp_player = p, xp_last = getd zero_status (jk_last_action m) p\<rparr>)
        (jk_player_ids m)\<rparr>"

definition apply_snapshot :: "master \<Rightarrow> snapshot \<Rightarrow> error + master" where
  "apply_snapshot m sn =
     (if sn_game_id sn \<noteq> [] \<and> sn_game_id sn \<noteq> gm_game_id (jk_meta m) then
        Inl (SnapshotGameID (sn_game_id sn))
      else if sn_game_version sn \<noteq> [] \<and> sn_game_version sn \<noteq> gm_game_version (jk_meta m) then
        Inl (SnapshotGameVersion (sn_game_version sn))
      else if sn_ruleset sn \<noteq> [] \<and> sn_ruleset sn \<noteq> gm_ruleset (jk_meta m) then
        Inl (SnapshotRuleset (sn_ruleset sn))
      else if sn_turn sn < 0 \<or> sn_turn sn > jk_rounds m then Inl (SnapshotTurn (sn_turn sn))
      else case unmarshal dec_snapshot_state (sn_game_state sn) zero_snapshot_state of
        None \<Rightarrow> Inl DecodeGameState
      | Some state \<Rightarrow>
          bindR (put_known UnknownScorePlayer (ss_scores state)
                   (put_all id (\<lambda>_. zero_score) (jk_player_ids m) (jk_scores m))) (\<lambda>scores.
          bindR (put_known UnknownHistoryPlayer (ss_self state)
                   (put_all id (\<lambda>_. []) (jk_player_ids m) (jk_self_history m))) (\<lambda>self.
          bindR (foldR (restore_last UnknownPerPlayer) (sn_per_player sn)
                   (put_all id no_action (jk_player_ids m) (jk_last_action m))) (\<lambda>last.
          Inr (m\<lparr>jk_resolved := sn_turn sn, jk_scores := scores, jk_self_history := self,
                 jk_public_history := ss_public state, jk_last_action := last\<rparr>)))))"

definition new_from_snapshot :: "config \<Rightarrow> snapshot \<Rightarrow> error + master" where
  "new_from_snapshot cfg sn = bindR (new_master cfg) (\<lambda>m. apply_snapshot m sn)"

section \<open>Placements\<close>

definition score_better :: "score \<Rightarrow> score \<Rightarrow> bool" where
  "score_better l r =
     (if sc_wins l \<noteq> sc_wins r then sc_wins l > sc_wins r
      else if sc_losses l \<noteq> sc_losses r then sc_losses l < sc_losses r
      else if sc_timeouts l \<noteq> sc_timeouts r then sc_timeouts l < sc_timeouts r
      else sc_invalid l < sc_invalid r)"

definition player_before :: "score gomap \<Rightarrow> string \<Rightarrow> string \<Rightarrow> bool" where
  "player_before scores p q =
     (let l = getd zero_score scores p; r = getd zero_score scores q in
      if sc_wins l \<noteq> sc_wins r then sc_wins l > sc_wins r
      else if sc_losses l \<noteq> sc_losses r then sc_losses l < sc_losses r
      else if sc_timeouts l \<noteq> sc_timeouts r then sc_timeouts l < sc_timeouts r
      else if sc_invalid l \<noteq> sc_invalid r then sc_invalid l < sc_invalid r
      else p < q)"

definition score_equal_for_placement :: "score \<Rightarrow> score \<Rightarrow> bool" where
  "score_equal_for_placement l r =
     (sc_wins l = sc_wins r \<and> sc_losses l = sc_losses r \<and>
      sc_timeouts l = sc_timeouts r \<and> sc_invalid l = sc_invalid r)"

definition result :: "master \<Rightarrow> match_result" where
  "result m =
     (let ordered = sort_slice (player_before (jk_scores m)) (jk_player_ids m);
          keyed = map (\<lambda>p. (p, getd zero_score (jk_scores m) p)) ordered
      in \<lparr>mr_placements = map (\<lambda>(p, n). \<lparr>pc_player = p, pc_place = n\<rparr>)
            (assign_places score_equal_for_placement 0 0 zero_score keyed)\<rparr>)"

section \<open>Replay from history\<close>

definition status_event_kinds :: "string list" where
  "status_event_kinds = [''turn_result'', ''turn_timeout'', ''protocol_error'', ''runtime_exited'']"

type_synonym statuses_by_turn = "int \<Rightarrow> string \<Rightarrow> action_status option"

definition collect_event :: "int \<Rightarrow> event \<Rightarrow> statuses_by_turn \<Rightarrow> error + statuses_by_turn" where
  "collect_event target ev acc =
     (if ev_turn ev = 0 \<or> ev_turn ev > target then Inr acc
      else if ev_kind ev \<in> set status_event_kinds then
        (case unmarshal dec_action_status (ev_payload ev) zero_status of
           None \<Rightarrow> Inl (DecodeEvent ev)
         | Some s \<Rightarrow>
             let s1 = (if as_player s = [] then s\<lparr>as_player := ev_player ev\<rparr> else s)
             in Inr (acc(ev_turn ev := (acc (ev_turn ev))(ev_player ev \<mapsto> s1))))
      else Inr acc)"

definition replay_turn :: "int \<Rightarrow> statuses_by_turn \<Rightarrow> int \<Rightarrow> master \<Rightarrow> error + master" where
  "replay_turn target by_turn turn m =
     (case next_step m of
        None \<Rightarrow> Inl (HistoryEnded target)
      | Some step \<Rightarrow>
          apply_step m step
            (map (\<lambda>req. normalize_action req
                    (case by_turn turn (rq_player req) of
                       Some s \<Rightarrow> s | None \<Rightarrow> no_action (rq_player req)))
              (st_requests step)))"

definition snapshot_from_history ::
  "string \<Rightarrow> string \<Rightarrow> player list \<Rightarrow> event list \<Rightarrow> int \<Rightarrow> error + snapshot" where
  "snapshot_from_history game_version ruleset players events target =
     bindR (new_master \<lparr>cf_game_version = game_version, cf_ruleset = ruleset, cf_players = players\<rparr>)
      (\<lambda>m0. if target < 0 \<or> target > RegularRounds then Inl (TargetTurnOutOfRange target)
       else
        bindR (foldR (collect_event target) events (\<lambda>_ _. None)) (\<lambda>by_turn.
        bindR (foldR (replay_turn target by_turn) [1..target] m0) (\<lambda>m.
          let last = map (\<lambda>x. (xp_player x, xp_last x)) (xs_players (exported_snapshot_of m))
          in Inr ((take_snapshot m)\<lparr>sn_per_player :=
               put_all pl_id (\<lambda>p. \<lparr>ps_visible = visible_state m (pl_id p),
                    ps_last = getd zero_status (put_all fst snd last []) (pl_id p),
                    ps_stderr_bytes = 0\<rparr>) players []\<rparr>))))"

end
