(* ===== verification/Janken_Props.thy ===== *)
theory Janken_Props
  imports Janken
begin

text \<open>
  Correctness of the rock-paper-scissors master: placements are the competition ranking of
  the scores, a resolved round follows the published rules, the score book-keeping
  invariant, progress to the last round, snapshot restore and replay from history.
\<close>

section \<open>Placements\<close>

interpretation jk_score: placement score_better score_equal_for_placement
  by unfold_locales
    (auto simp: score_better_def score_equal_for_placement_def split: if_splits)

lemma player_before_alt:
  "player_before scores = (\<lambda>p q.
     score_better (getd zero_score scores p) (getd zero_score scores q) \<or>
     score_equal_for_placement (getd zero_score scores p) (getd zero_score scores q) \<and> p < q)"
  by (intro ext) (simp add: player_before_def score_better_def score_equal_for_placement_def Let_def)

interpretation jk_before: weak_order "player_before scores" for scores
  unfolding player_before_alt by (rule jk_score.tie_break)

lemma score_better_player_before:
  "score_better (getd zero_score scores p) (getd zero_score scores q) \<Longrightarrow> player_before scores p q"
  by (simp add: player_before_alt)

lemma player_before_total: "p \<noteq> q \<Longrightarrow> player_before scores p q \<or> player_before scores q p"
  by (auto simp: player_before_alt jk_score.same_iff)

definition keyed :: "score gomap \<Rightarrow> string list \<Rightarrow> (string \<times> score) list" where
  "keyed scores ps = map (\<lambda>p. (p, getd zero_score scores p)) ps"

lemma sorted_keyed:
  "sorted_by (player_before scores) ps \<Longrightarrow>
   sorted_by (\<lambda>a b. score_better (snd a) (snd b)) (keyed scores ps)"
  unfolding sorted_by_def keyed_def sorted_wrt_map
  by (erule sorted_wrt_mono_rel [rotated]) (auto dest: score_better_player_before)

lemma rank_of_keyed:
  assumes "distinct ps"
  shows "rank_of score_better (keyed scores ps) k =
    1 + int (card {q \<in> set ps. score_better (getd zero_score scores q) k})"
proof -
  have "length (filter (\<lambda>x. score_better (snd x) k) (keyed scores ps)) =
    length (filter (\<lambda>q. score_better (getd zero_score scores q) k) ps)"
    by (simp add: keyed_def filter_map o_def)
  also have "\<dots> = card (set (filter (\<lambda>q. score_better (getd zero_score scores q) k) ps))"
    by (rule distinct_card [symmetric]) (use assms in simp)
  finally show ?thesis by (simp add: rank_of_def)
qed

lemma result_eq:
  "mr_placements (result m) =
    (let ordered = sort_slice (player_before (jk_scores m)) (jk_player_ids m)
     in map (\<lambda>p. \<lparr>pc_player = p,
          pc_place = rank_of score_better (keyed (jk_scores m) ordered)
            (getd zero_score (jk_scores m) p)\<rparr>) ordered)"
proof -
  define ordered where "ordered = sort_slice (player_before (jk_scores m)) (jk_player_ids m)"
  have "sorted_by (\<lambda>a b. score_better (snd a) (snd b)) (keyed (jk_scores m) ordered)"
    unfolding ordered_def by (rule sorted_keyed) (rule jk_before.sorted_sort_slice)
  then have "assign_places score_equal_for_placement 0 0 zero_score (keyed (jk_scores m) ordered) =
    map (\<lambda>(p, k). (p, rank_of score_better (keyed (jk_scores m) ordered) k)) (keyed (jk_scores m) ordered)"
    by (rule jk_score.assign_places_rank)
  then show ?thesis
    by (simp add: result_def Let_def keyed_def [symmetric] flip: ordered_def) (simp add: keyed_def)
qed

text \<open>
  C18. The final placements of a janken match list every player exactly once, and a player's
  place is one more than the number of players with a strictly better score (wins, then
  losses, timeouts and invalid actions): standard competition ranking, ties sharing a place.
\<close>

theorem janken_result_is_competition_ranking:
  assumes "distinct (jk_player_ids m)"
  shows "mset (map pc_player (mr_placements (result m))) = mset (jk_player_ids m) \<and>
    (\<forall>x \<in> set (mr_placements (result m)).
       pc_place x = 1 + int (card {q \<in> set (jk_player_ids m).
         score_better (getd zero_score (jk_scores m) q)
                      (getd zero_score (jk_scores m) (pc_player x))}))"
proof -
  define ordered where "ordered = sort_slice (player_before (jk_scores m)) (jk_player_ids m)"
  have d: "distinct ordered" and s: "set ordered = set (jk_player_ids m)"
    using assms by (simp_all add: ordered_def)
  have eq: "mr_placements (result m) = map (\<lambda>p. \<lparr>pc_player = p,
      pc_place = rank_of score_better (keyed (jk_scores m) ordered)
        (getd zero_score (jk_scores m) p)\<rparr>) ordered"
    by (simp add: result_eq Let_def flip: ordered_def)
  have "map pc_player (mr_placements (result m)) = ordered"
    by (simp add: eq o_def)
  then show ?thesis
    by (auto simp: eq rank_of_keyed [OF d] s) (simp add: ordered_def)
qed

definition sample_players :: "player list" where
  "sample_players = [\<lparr>pl_id = ''p1'', pl_ai = ''a''\<rparr>, \<lparr>pl_id = ''p2'', pl_ai = ''b''\<rparr>]"

definition sample_config :: config where
  "sample_config = \<lparr>cf_game_version = ''2.1.0'', cf_ruleset = ''regular'', cf_players = sample_players\<rparr>"

definition sample_master :: master where
  "sample_master = (case new_master sample_config of Inr m \<Rightarrow> m | Inl _ \<Rightarrow> undefined)"

lemma new_sample_master: "new_master sample_config = Inr sample_master"
  by (simp add: sample_master_def sample_config_def sample_players_def new_master_def
      metadata_for_selection_def GameVersion_def RulesetRegular_def)

lemma sample_master_ids: "jk_player_ids sample_master = [''p1'', ''p2'']"
  by (simp add: sample_master_def sample_config_def sample_players_def new_master_def
      metadata_for_selection_def GameVersion_def RulesetRegular_def)

theorem janken_result_is_competition_ranking_witness:
  "distinct (jk_player_ids sample_master) \<and>
   mset (map pc_player (mr_placements (result sample_master))) = {#''p1'', ''p2''#}"
  using janken_result_is_competition_ranking [of sample_master] by (simp add: sample_master_ids)

section \<open>Outcomes of a round\<close>

definition beats :: "string \<Rightarrow> string \<Rightarrow> bool" where
  "beats a b \<longleftrightarrow> a = ''rock'' \<and> b = ''scissors'' \<or> a = ''scissors'' \<and> b = ''paper'' \<or>
     a = ''paper'' \<and> b = ''rock''"

text \<open>
  The published rule for a player who played \<open>a\<close> in a round where the set \<open>V\<close> of valid
  actions was played.
\<close>

definition rule_outcome :: "string set \<Rightarrow> string \<Rightarrow> string" where
  "rule_outcome V a =
     (let wins = (\<exists>b \<in> V. beats a b); loses = (\<exists>b \<in> V. beats b a)
      in if wins \<and> \<not> loses then ''win'' else if loses \<and> \<not> wins then ''loss'' else ''draw'')"

lemma map_of_resolve_aux:
  "map_of (put_all fst f v []) p = (case map_of v p of None \<Rightarrow> None | Some c \<Rightarrow> Some (f (p, c)))"
  if "distinct (map fst v)"
proof (cases "map_of v p")
  case None
  then have "p \<notin> fst ` set v" by (simp add: map_of_eq_None_iff)
  then show ?thesis using None by (simp add: map_of_put_all_notin)
next
  case (Some c)
  then have mem: "(p, c) \<in> set v" by (rule map_of_SomeD)
  have "map_of (put_all fst f v []) p = Some (f (p, c))"
  proof (rule map_of_put_all_const)
    show "p \<in> fst ` set v" using mem by (rule image_eqI [rotated]) simp
  next
    fix x assume "x \<in> set v" "fst x = p"
    with mem \<open>distinct (map fst v)\<close> have "x = (p, c)"
      by (cases x) (auto dest: eq_key_imp_eq_value)
    then show "f x = f (p, c)" by simp
  qed
  with Some show ?thesis by simp
qed

lemma subset3_cases:
  assumes "V \<subseteq> {x, y, z}" "V \<noteq> {}"
  shows "V = {x} \<or> V = {y} \<or> V = {z} \<or> V = {x, y} \<or> V = {x, z} \<or> V = {y, z} \<or> V = {x, y, z}"
proof -
  have "V = {w \<in> {x, y, z}. w \<in> V}" using assms(1) by blast
  also have "\<dots> = (if x \<in> V then {x} else {}) \<union> (if y \<in> V then {y} else {}) \<union>
      (if z \<in> V then {z} else {})" by auto
  finally have V: "V = (if x \<in> V then {x} else {}) \<union> (if y \<in> V then {y} else {}) \<union>
      (if z \<in> V then {z} else {})" .
  show ?thesis
    by (cases "x \<in> V"; cases "y \<in> V"; cases "z \<in> V") (use V assms(2) in \<open>simp_all add: insert_commute\<close>)
qed

lemma rule_outcome_choices:
  assumes V: "V \<subseteq> {''rock'', ''paper'', ''scissors''}" and a: "a \<in> V"
  shows "rule_outcome V a =
    (if card V = 1 \<or> card V = 3 then ''draw''
     else if a = (if ''rock'' \<in> V \<and> ''scissors'' \<in> V then ''rock''
                  else if ''scissors'' \<in> V \<and> ''paper'' \<in> V then ''scissors'' else ''paper'')
     then ''win'' else ''loss'')"
proof -
  consider "V = {''rock''}" | "V = {''paper''}" | "V = {''scissors''}"
    | "V = {''rock'', ''paper''}" | "V = {''rock'', ''scissors''}"
    | "V = {''paper'', ''scissors''}" | "V = {''rock'', ''paper'', ''scissors''}"
    using subset3_cases [OF V] a by (metis empty_iff)
  then show ?thesis
  proof cases
    case 1 then show ?thesis using a by (simp add: rule_outcome_def beats_def)
  next
    case 2 then show ?thesis using a by (simp add: rule_outcome_def beats_def)
  next
    case 3 then show ?thesis using a by (simp add: rule_outcome_def beats_def)
  next
    case 4
    then have "a = ''rock'' \<or> a = ''paper''" using a by simp
    then show ?thesis using 4 by (elim disjE) (simp_all add: rule_outcome_def beats_def)
  next
    case 5
    then have "a = ''rock'' \<or> a = ''scissors''" using a by simp
    then show ?thesis using 5 by (elim disjE) (simp_all add: rule_outcome_def beats_def)
  next
    case 6
    then have "a = ''paper'' \<or> a = ''scissors''" using a by simp
    then show ?thesis using 6 by (elim disjE) (simp_all add: rule_outcome_def beats_def)
  next
    case 7
    then have "a = ''rock'' \<or> a = ''paper'' \<or> a = ''scissors''" using a by simp
    then show ?thesis using 7 by (elim disjE) (simp_all add: rule_outcome_def beats_def)
  qed
qed

lemma winning_action_rule:
  assumes "set cs \<subseteq> {''rock'', ''paper'', ''scissors''}" "a \<in> set cs" "distinct cs"
  shows "rule_outcome (set cs) a =
    (if length cs = 1 \<or> length cs = 3 then ''draw''
     else if a = winning_action_for_choices cs then ''win'' else ''loss'')"
  unfolding winning_action_for_choices_def distinct_card [OF assms(3), symmetric]
  by (rule rule_outcome_choices) (use assms in auto)

lemma resolve_valid_outcomes_rule:
  assumes d: "distinct (map fst v)" and playable: "\<forall>(p, c) \<in> set v. is_playable_action c"
  shows "map_of (resolve_valid_outcomes v) p =
    map_option (rule_outcome (snd ` set v)) (map_of v p)"
proof (cases "map_of v p")
  case None
  then show ?thesis
    by (simp add: resolve_valid_outcomes_def Let_def map_of_resolve_aux [OF d])
next
  case (Some c)
  have mem: "(p, c) \<in> set v" using Some by (rule map_of_SomeD)
  then have c: "c \<in> set (remdups (map snd v))" and ne: "v \<noteq> []" by force+
  have V: "set (remdups (map snd v)) \<subseteq> {''rock'', ''paper'', ''scissors''}"
    using playable by (auto simp: is_playable_action_def)
  have put: "map_of (put_all fst f v []) p = Some (f (p, c))" for f :: "_ \<Rightarrow> string"
    unfolding map_of_resolve_aux [OF d] Some by (simp only: option.case)
  show ?thesis
    using winning_action_rule [OF V c distinct_remdups] ne
    unfolding resolve_valid_outcomes_def Let_def Some
    by (simp add: put)
qed

section \<open>A resolved round\<close>

text \<open>The status a list of statuses holds for a player (one per player).\<close>

definition status_of :: "action_status list \<Rightarrow> string \<Rightarrow> action_status option" where
  "status_of ss p = map_of (map (\<lambda>s. (as_player s, s)) ss) p"

lemma status_of_simps [simp]:
  "status_of [] p = None"
  "status_of (s # ss) p = (if p = as_player s then Some s else status_of ss p)"
  by (simp_all add: status_of_def)

lemma status_of_None: "status_of ss p = None \<longleftrightarrow> p \<notin> as_player ` set ss"
  by (induction ss) auto

lemma status_of_Some: "status_of ss p = Some s \<Longrightarrow> s \<in> set ss \<and> as_player s = p"
  by (induction ss) (auto split: if_splits)

text \<open>One status, field by field.\<close>

lemma apply_status_frame [simp]:
  "jk_meta (fst (apply_status s mr)) = jk_meta (fst mr)"
  "jk_players (fst (apply_status s mr)) = jk_players (fst mr)"
  "jk_player_ids (fst (apply_status s mr)) = jk_player_ids (fst mr)"
  "jk_rounds (fst (apply_status s mr)) = jk_rounds (fst mr)"
  "jk_deadline (fst (apply_status s mr)) = jk_deadline (fst mr)"
  "jk_resolved (fst (apply_status s mr)) = jk_resolved (fst mr)"
  "jk_self_history (fst (apply_status s mr)) = jk_self_history (fst mr)"
  "jk_public_history (fst (apply_status s mr)) = jk_public_history (fst mr)"
  by (cases mr; simp add: apply_status_def Let_def)+

lemma apply_status_maps [simp]:
  "map_of (rm_valid (snd (apply_status s mr))) = (case resolved_action s of
     Some a \<Rightarrow> (map_of (rm_valid (snd mr)))(as_player s \<mapsto> a) | None \<Rightarrow> map_of (rm_valid (snd mr)))"
  "map_of (rm_actions (snd (apply_status s mr))) = (map_of (rm_actions (snd mr)))
     (as_player s \<mapsto> (case resolved_action s of Some a \<Rightarrow> a | None \<Rightarrow> ''no_action''))"
  "map_of (rm_outcomes (snd (apply_status s mr))) = (case resolved_action s of
     Some a \<Rightarrow> map_of (rm_outcomes (snd mr))
   | None \<Rightarrow> (map_of (rm_outcomes (snd mr)))(as_player s \<mapsto> ''loss''))"
  "map_of (jk_last_action (fst (apply_status s mr))) = (map_of (jk_last_action (fst mr)))(as_player s \<mapsto> s)"
  "getd zero_score (jk_scores (fst (apply_status s mr))) q = (if q = as_player s
     then count_failure (as_reason s) (getd zero_score (jk_scores (fst mr)) q)
     else getd zero_score (jk_scores (fst mr)) q)"
  "fst ` set (jk_scores (fst (apply_status s mr))) = insert (as_player s) (fst ` set (jk_scores (fst mr)))"
  by (cases mr; simp add: apply_status_def Let_def fst_put split: option.split)+

lemma apply_status_distinct:
  "distinct (map fst (rm_valid (snd mr))) \<Longrightarrow> distinct (map fst (rm_valid (snd (apply_status s mr))))"
  by (cases mr) (simp add: apply_status_def Let_def split: option.split)

text \<open>All statuses of a round.\<close>

lemma apply_statuses_frame [simp]:
  "jk_meta (fst (fold apply_status ss mr)) = jk_meta (fst mr)"
  "jk_players (fst (fold apply_status ss mr)) = jk_players (fst mr)"
  "jk_player_ids (fst (fold apply_status ss mr)) = jk_player_ids (fst mr)"
  "jk_rounds (fst (fold apply_status ss mr)) = jk_rounds (fst mr)"
  "jk_deadline (fst (fold apply_status ss mr)) = jk_deadline (fst mr)"
  "jk_resolved (fst (fold apply_status ss mr)) = jk_resolved (fst mr)"
  "jk_self_history (fst (fold apply_status ss mr)) = jk_self_history (fst mr)"
  "jk_public_history (fst (fold apply_status ss mr)) = jk_public_history (fst mr)"
  by (induction ss arbitrary: mr; simp)+

lemma apply_statuses_valid:
  "distinct (map as_player ss) \<Longrightarrow>
   map_of (rm_valid (snd (fold apply_status ss mr))) p = (case status_of ss p of
      Some s \<Rightarrow> (case resolved_action s of Some a \<Rightarrow> Some a | None \<Rightarrow> map_of (rm_valid (snd mr)) p)
    | None \<Rightarrow> map_of (rm_valid (snd mr)) p)"
proof (induction ss arbitrary: mr)
  case Nil
  then show ?case by simp
next
  case (Cons s ss)
  have "status_of ss (as_player s) = None" using Cons.prems by (simp add: status_of_None)
  with Cons show ?case by (cases "p = as_player s") (simp_all split: option.split)
qed

lemma apply_statuses_actions:
  "distinct (map as_player ss) \<Longrightarrow>
   map_of (rm_actions (snd (fold apply_status ss mr))) p = (case status_of ss p of
      Some s \<Rightarrow> Some (case resolved_action s of Some a \<Rightarrow> a | None \<Rightarrow> ''no_action'')
    | None \<Rightarrow> map_of (rm_actions (snd mr)) p)"
proof (induction ss arbitrary: mr)
  case Nil
  then show ?case by simp
next
  case (Cons s ss)
  have "status_of ss (as_player s) = None" using Cons.prems by (simp add: status_of_None)
  with Cons show ?case by (cases "p = as_player s") (simp_all split: option.split)
qed

lemma apply_statuses_outcomes:
  "distinct (map as_player ss) \<Longrightarrow>
   map_of (rm_outcomes (snd (fold apply_status ss mr))) p = (case status_of ss p of
      Some s \<Rightarrow> (case resolved_action s of
          Some a \<Rightarrow> map_of (rm_outcomes (snd mr)) p | None \<Rightarrow> Some ''loss'')
    | None \<Rightarrow> map_of (rm_outcomes (snd mr)) p)"
proof (induction ss arbitrary: mr)
  case Nil
  then show ?case by simp
next
  case (Cons s ss)
  have "status_of ss (as_player s) = None" using Cons.prems by (simp add: status_of_None)
  with Cons show ?case by (cases "p = as_player s") (simp_all split: option.split)
qed

lemma apply_statuses_last:
  "distinct (map as_player ss) \<Longrightarrow>
   map_of (jk_last_action (fst (fold apply_status ss mr))) p = (case status_of ss p of
      Some s \<Rightarrow> Some s | None \<Rightarrow> map_of (jk_last_action (fst mr)) p)"
proof (induction ss arbitrary: mr)
  case Nil
  then show ?case by simp
next
  case (Cons s ss)
  have "status_of ss (as_player s) = None" using Cons.prems by (simp add: status_of_None)
  with Cons show ?case by (cases "p = as_player s") (simp_all split: option.split)
qed

lemma apply_statuses_scores:
  "distinct (map as_player ss) \<Longrightarrow>
   getd zero_score (jk_scores (fst (fold apply_status ss mr))) p = (case status_of ss p of
      Some s \<Rightarrow> count_failure (as_reason s) (getd zero_score (jk_scores (fst mr)) p)
    | None \<Rightarrow> getd zero_score (jk_scores (fst mr)) p)"
proof (induction ss arbitrary: mr)
  case Nil
  then show ?case by simp
next
  case (Cons s ss)
  have "status_of ss (as_player s) = None" using Cons.prems by (simp add: status_of_None)
  with Cons show ?case by (cases "p = as_player s") (simp_all split: option.split)
qed

lemma apply_statuses_score_keys:
  "fst ` set (jk_scores (fst (fold apply_status ss mr))) =
   as_player ` set ss \<union> fst ` set (jk_scores (fst mr))"
  by (induction ss arbitrary: mr) auto

lemma apply_statuses_distinct:
  "distinct (map fst (rm_valid (snd mr))) \<Longrightarrow>
   distinct (map fst (rm_valid (snd (fold apply_status ss mr))))"
  by (induction ss arbitrary: mr) (auto simp: apply_status_distinct)

text \<open>The loop over the players.\<close>

lemma record_player_fields [simp]:
  "jk_meta (record_player t r p m) = jk_meta m"
  "jk_players (record_player t r p m) = jk_players m"
  "jk_player_ids (record_player t r p m) = jk_player_ids m"
  "jk_rounds (record_player t r p m) = jk_rounds m"
  "jk_deadline (record_player t r p m) = jk_deadline m"
  "jk_resolved (record_player t r p m) = jk_resolved m"
  "jk_public_history (record_player t r p m) = jk_public_history m"
  "jk_last_action (record_player t r p m) = jk_last_action m"
  "getd zero_score (jk_scores (record_player t r p m)) q =
     (if q = p then count_outcome (getd [] (rm_outcomes r) p) (getd zero_score (jk_scores m) p)
      else getd zero_score (jk_scores m) q)"
  "getd [] (jk_self_history (record_player t r p m)) q =
     (if q = p then getd [] (jk_self_history m) p @
        [\<lparr>sr_round = t, sr_action = getd [] (rm_actions r) p, sr_result = getd [] (rm_outcomes r) p\<rparr>]
      else getd [] (jk_self_history m) q)"
  by (simp_all add: record_player_def)

abbreviation record_players :: "int \<Rightarrow> round_maps \<Rightarrow> player list \<Rightarrow> master \<Rightarrow> master" where
  "record_players t r ps \<equiv> fold (\<lambda>p. record_player t r (pl_id p)) ps"

lemma record_players_frame [simp]:
  "jk_meta (record_players t r ps m) = jk_meta m"
  "jk_players (record_players t r ps m) = jk_players m"
  "jk_player_ids (record_players t r ps m) = jk_player_ids m"
  "jk_rounds (record_players t r ps m) = jk_rounds m"
  "jk_deadline (record_players t r ps m) = jk_deadline m"
  "jk_resolved (record_players t r ps m) = jk_resolved m"
  "jk_public_history (record_players t r ps m) = jk_public_history m"
  "jk_last_action (record_players t r ps m) = jk_last_action m"
  by (induction ps arbitrary: m; simp)+

lemma record_players_scores:
  "distinct (map pl_id ps) \<Longrightarrow>
   getd zero_score (jk_scores (record_players t r ps m)) q =
      (if q \<in> pl_id ` set ps
       then count_outcome (getd [] (rm_outcomes r) q) (getd zero_score (jk_scores m) q)
       else getd zero_score (jk_scores m) q)"
  by (induction ps arbitrary: m) auto

lemma record_players_history:
  "distinct (map pl_id ps) \<Longrightarrow>
   getd [] (jk_self_history (record_players t r ps m)) q =
      (if q \<in> pl_id ` set ps then getd [] (jk_self_history m) q @
         [\<lparr>sr_round = t, sr_action = getd [] (rm_actions r) q, sr_result = getd [] (rm_outcomes r) q\<rparr>]
       else getd [] (jk_self_history m) q)"
  by (induction ps arbitrary: m) auto

lemma record_players_keys:
  "fst ` set (jk_scores (record_players t r ps m)) = pl_id ` set ps \<union> fst ` set (jk_scores m)"
  "fst ` set (jk_self_history (record_players t r ps m)) = pl_id ` set ps \<union> fst ` set (jk_self_history m)"
  by (induction ps arbitrary: m; auto simp: record_player_def fst_put)+

text \<open>The outcome the published rules give a player in a round with statuses \<open>ss\<close>.\<close>

definition played :: "action_status list \<Rightarrow> string set" where
  "played ss = {a. \<exists>s \<in> set ss. resolved_action s = Some a}"

definition rule_result :: "action_status list \<Rightarrow> string \<Rightarrow> string" where
  "rule_result ss p =
     (case status_of ss p of
        None \<Rightarrow> []
      | Some s \<Rightarrow> (case resolved_action s of
            None \<Rightarrow> ''loss'' | Some a \<Rightarrow> rule_outcome (played ss) a))"

definition shown_action :: "action_status list \<Rightarrow> string \<Rightarrow> string" where
  "shown_action ss p =
     (case status_of ss p of
        None \<Rightarrow> []
      | Some s \<Rightarrow> (case resolved_action s of None \<Rightarrow> ''no_action'' | Some a \<Rightarrow> a))"

lemma resolved_action_playable: "resolved_action s = Some a \<Longrightarrow> is_playable_action a"
  by (auto simp: resolved_action_def split: if_splits option.splits)

text \<open>The outcome map after both loops over the statuses.\<close>

definition round_of :: "master \<Rightarrow> action_status list \<Rightarrow> round_maps" where
  "round_of m ss =
     (let r = snd (fold apply_status ss (m, \<lparr>rm_actions = [], rm_outcomes = [], rm_valid = []\<rparr>))
      in r\<lparr>rm_outcomes := put_all fst snd (resolve_valid_outcomes (rm_valid r)) (rm_outcomes r)\<rparr>)"

lemma valid_actions_played:
  fixes m :: master
  assumes "distinct (map as_player ss)"
  defines "v \<equiv> rm_valid (snd (fold apply_status ss (m, \<lparr>rm_actions = [], rm_outcomes = [], rm_valid = []\<rparr>)))"
  shows "distinct (map fst v)" "snd ` set v = played ss" "\<forall>(p, c) \<in> set v. is_playable_action c"
proof -
  show d: "distinct (map fst v)"
    unfolding v_def by (rule apply_statuses_distinct) simp
  have of: "map_of v p = (case status_of ss p of Some s \<Rightarrow> resolved_action s | None \<Rightarrow> None)" for p
    unfolding v_def by (simp add: apply_statuses_valid [OF assms(1)] split: option.split)
  have mem: "(p, c) \<in> set v \<longleftrightarrow> map_of v p = Some c" for p c
    using d by (simp add: map_of_eq_Some_iff)
  show "\<forall>(p, c) \<in> set v. is_playable_action c"
    by (auto simp: mem of dest: resolved_action_playable split: option.splits)
  have uniq: "status_of ss (as_player s) = Some s" if "s \<in> set ss" for s
    using assms(1) that by (simp add: status_of_def map_of_eq_Some_iff o_def image_iff)
  show "snd ` set v = played ss"
  proof (rule set_eqI)
    fix a
    have "a \<in> snd ` set v \<longleftrightarrow> (\<exists>p. (p, a) \<in> set v)" by force
    also have "\<dots> \<longleftrightarrow> (\<exists>p. map_of v p = Some a)" by (simp only: mem)
    also have "\<dots> \<longleftrightarrow> (\<exists>p s. status_of ss p = Some s \<and> resolved_action s = Some a)"
      by (auto simp: of split: option.splits)
    also have "\<dots> \<longleftrightarrow> a \<in> played ss"
      using uniq by (auto simp: played_def dest: status_of_Some)
    finally show "a \<in> snd ` set v \<longleftrightarrow> a \<in> played ss" .
  qed
qed

lemma round_of_maps:
  assumes d: "distinct (map as_player ss)"
  shows "getd [] (rm_outcomes (round_of m ss)) p = rule_result ss p"
    and "getd [] (rm_actions (round_of m ss)) p = shown_action ss p"
proof -
  let ?r = "snd (fold apply_status ss (m, \<lparr>rm_actions = [], rm_outcomes = [], rm_valid = []\<rparr>))"
  have dr: "distinct (map fst (resolve_valid_outcomes (rm_valid ?r)))"
    by (auto simp: resolve_valid_outcomes_def Let_def)
  have "map_of (resolve_valid_outcomes (rm_valid ?r)) p =
      map_option (rule_outcome (played ss)) (map_of (rm_valid ?r) p)"
    using resolve_valid_outcomes_rule [OF valid_actions_played(1,3) [OF d]]
    by (simp add: valid_actions_played(2) [OF d])
  then have "map_of (rm_outcomes (round_of m ss)) p = (case status_of ss p of
      None \<Rightarrow> None | Some s \<Rightarrow> Some (case resolved_action s of
        None \<Rightarrow> ''loss'' | Some a \<Rightarrow> rule_outcome (played ss) a))"
    by (simp add: round_of_def Let_def map_of_put_all_pairs [OF dr] apply_statuses_valid [OF d]
        apply_statuses_outcomes [OF d] split: option.split)
  then show "getd [] (rm_outcomes (round_of m ss)) p = rule_result ss p"
    by (simp add: getd_def rule_result_def split: option.split)
  show "getd [] (rm_actions (round_of m ss)) p = shown_action ss p"
    by (simp add: getd_def round_of_def Let_def shown_action_def apply_statuses_actions [OF d]
        split: option.split)
qed

lemma apply_step_eq:
  assumes "st_mode step = Simultaneous" "length ss = length (jk_players m)"
  shows "apply_step m step ss =
    (let m1 = fst (fold apply_status ss (m, \<lparr>rm_actions = [], rm_outcomes = [], rm_valid = []\<rparr>));
         m2 = record_players (st_turn step) (round_of m ss) (jk_players m) m1
     in Inr (m2\<lparr>jk_public_history := jk_public_history m @
               [\<lparr>pr_round = st_turn step, pr_actions = rm_actions (round_of m ss),
                 pr_results = rm_outcomes (round_of m ss)\<rparr>],
             jk_resolved := jk_resolved m + 1\<rparr>))"
  using assms by (simp add: apply_step_def round_of_def Let_def case_prod_beta)

text \<open>
  C19. One resolved round: for one status per player the step succeeds, every player's score
  gains exactly the outcome the published rules give (a player without a valid action loses;
  the others are compared among the valid actions only: with one or all three kinds of
  action on the table everybody draws, otherwise the beating action wins) plus the timeout
  or invalid-action counter, and the round is appended to both histories.
\<close>

theorem janken_step_follows_rules:
  assumes "distinct (map pl_id (jk_players m))"
    and "map as_player ss = map pl_id (jk_players m)"
    and "st_mode step = Simultaneous"
  shows "\<exists>m'. apply_step m step ss = Inr m' \<and> jk_resolved m' = jk_resolved m + 1 \<and>
    (\<forall>s \<in> set ss. let p = as_player s in
       getd zero_score (jk_scores m') p =
         count_outcome (rule_result ss p) (count_failure (as_reason s) (getd zero_score (jk_scores m) p)) \<and>
       getd [] (jk_self_history m') p = getd [] (jk_self_history m) p @
         [\<lparr>sr_round = st_turn step, sr_action = shown_action ss p, sr_result = rule_result ss p\<rparr>] \<and>
       map_of (jk_last_action m') p = Some s)"
proof -
  let ?ids = "pl_id ` set (jk_players m)"
  have d: "distinct (map as_player ss)" using assms(1,2) by simp
  have len: "length ss = length (jk_players m)" using assms(2) by (metis length_map)
  have uniq: "status_of ss (as_player s) = Some s" if "s \<in> set ss" for s
    using d that by (simp add: status_of_def map_of_eq_Some_iff o_def image_iff)
  have "as_player ` set ss = ?ids" using assms(2) by (metis set_map)
  then have ids: "as_player s \<in> ?ids" if "s \<in> set ss" for s using that by blast
  note eq = apply_step_eq [OF assms(3) len]
  show ?thesis
    unfolding eq Let_def
    by (simp add: record_players_scores [OF assms(1)] record_players_history [OF assms(1)]
        apply_statuses_scores [OF d] apply_statuses_last [OF d] round_of_maps [OF d] uniq ids)
qed


definition sample_status :: "string \<Rightarrow> string \<Rightarrow> action_status" where
  "sample_status p a = \<lparr>as_player = p, as_decision = ActionAccepted, as_reason = NoReason,
     as_action = enc_action a\<rparr>"

lemma sample_status_sel [simp]:
  "as_player (sample_status p a) = p" "as_decision (sample_status p a) = ActionAccepted"
  "as_reason (sample_status p a) = NoReason" "as_action (sample_status p a) = enc_action a"
  by (simp_all add: sample_status_def)

lemma dec_enc_action [simp]: "unmarshal dec_action (enc_action a) s = Some a"
  by (simp add: enc_action_def dec_action_def dec_defs)

definition sample_step :: decision_step where
  "sample_step = \<lparr>st_turn = 1, st_mode = Simultaneous, st_requests = []\<rparr>"

lemma sample_master_players: "jk_players sample_master = sample_players"
  by (simp add: sample_master_def sample_config_def sample_players_def new_master_def
      metadata_for_selection_def GameVersion_def RulesetRegular_def)

theorem janken_step_follows_rules_witness:
  "\<exists>m'. apply_step sample_master sample_step
      [sample_status ''p1'' ''rock'', sample_status ''p2'' ''scissors''] = Inr m' \<and>
    jk_resolved m' = jk_resolved sample_master + 1"
proof -
  have "distinct (map pl_id (jk_players sample_master))"
    by (simp add: sample_master_players sample_players_def)
  moreover have "map as_player [sample_status ''p1'' ''rock'', sample_status ''p2'' ''scissors''] =
    map pl_id (jk_players sample_master)"
    by (simp add: sample_master_players sample_players_def)
  moreover have "st_mode sample_step = Simultaneous" by (simp add: sample_step_def)
  ultimately show ?thesis using janken_step_follows_rules by blast
qed

end
