(* ===== verification/GameMaster.thy ===== *)
theory GameMaster
  imports Contract
begin

text \<open>
  The game-master interface \<open>game.Master\<close> (\<open>internal/platform/game/game.go\<close>) as a record of
  operations, the contract the platform relies on as a locale, the states a master can reach
  by answered steps, and the in-process session of
  \<open>internal/platform/gamemaster/gamemaster.go\<close> that wraps a master.
\<close>

section \<open>The interface\<close>

text \<open>
  \<open>go_apply\<close> returns the error, if any, together with the state, because a method that
  fails may already have written to the master.
\<close>

record ('m, 'e) game_ops =
  go_metadata :: "'m \<Rightarrow> game_metadata"
  go_init :: "'m \<Rightarrow> 'e + init_state"
  go_next :: "'m \<Rightarrow> 'e + decision_step option"
  go_normalize :: "'m \<Rightarrow> decision_request \<Rightarrow> action_status \<Rightarrow> action_status"
  go_apply :: "'m \<Rightarrow> decision_step \<Rightarrow> action_status list \<Rightarrow> 'e option \<times> 'm"
  go_visible :: "'m \<Rightarrow> string \<Rightarrow> raw"
  go_snapshot :: "'m \<Rightarrow> snapshot"
  go_exported :: "'m \<Rightarrow> exported_snapshot"
  go_result :: "'m \<Rightarrow> match_result"

text \<open>
  Answers to a step: one status per request, in request order, each carrying the player of
  its request, as \<open>executeTurn\<close> builds them; a player session either accepts an answer,
  then without a failure reason, or reports that there is no action.
\<close>

definition answers :: "decision_step \<Rightarrow> action_status list \<Rightarrow> bool" where
  "answers step raws \<longleftrightarrow> map as_player raws = map rq_player (st_requests step) \<and>
     (\<forall>s \<in> set raws. as_decision s = ActionAccepted \<and> as_reason s = NoReason \<or>
        as_decision s = ActionNoAction)"

definition normalized :: "('m, 'e) game_ops \<Rightarrow> 'm \<Rightarrow> decision_step \<Rightarrow> action_status list \<Rightarrow> action_status list" where
  "normalized g m step raws = map2 (go_normalize g m) (st_requests step) raws"

lemma answers_no_action: "answers step (map (\<lambda>r. no_action (rq_player r)) (st_requests step))"
  by (simp add: answers_def o_def)

lemma answers_length: "answers step raws \<Longrightarrow> length raws = length (st_requests step)"
  by (metis answers_def length_map)

inductive plays :: "('m, 'e) game_ops \<Rightarrow> 'm \<Rightarrow> 'm \<Rightarrow> bool" for g :: "('m, 'e) game_ops" and m0 :: 'm where
  plays_refl: "plays g m0 m0"
| plays_step: "plays g m0 m \<Longrightarrow> go_next g m = Inr (Some step) \<Longrightarrow> answers step raws \<Longrightarrow>
    go_apply g m step (normalized g m step raws) = (None, m') \<Longrightarrow> plays g m0 m'"

inductive_cases plays_cases: "plays g m0 m"

text \<open>
  The contract: an invariant the steps keep, a measure of the steps that are left, steps
  that can always be answered and never fail, in one of the two modes the runner supports.
\<close>

locale game_master =
  fixes g :: "('m, 'e) game_ops"
    and inv :: "'m \<Rightarrow> bool"
    and remaining :: "'m \<Rightarrow> nat"
  assumes init_ok: "inv m \<Longrightarrow> \<exists>s. go_init g m = Inr s"
    and next_ok: "inv m \<Longrightarrow> \<exists>r. go_next g m = Inr r"
    and next_done: "inv m \<Longrightarrow> go_next g m = Inr None \<longleftrightarrow> remaining m = 0"
    and next_mode: "inv m \<Longrightarrow> go_next g m = Inr (Some step) \<Longrightarrow>
      st_mode step = Simultaneous \<or> st_mode step = Sequential \<and> length (st_requests step) = 1"
    and apply_ok: "inv m \<Longrightarrow> go_next g m = Inr (Some step) \<Longrightarrow> answers step raws \<Longrightarrow>
      \<exists>m'. go_apply g m step (normalized g m step raws) = (None, m') \<and> inv m' \<and>
        Suc (remaining m') = remaining m"
begin

lemma plays_inv:
  assumes "plays g m0 m" "inv m0"
  shows "inv m \<and> remaining m \<le> remaining m0"
  using assms
proof (induction rule: plays.induct)
  case plays_refl
  then show ?case by simp
next
  case (plays_step m step raws m')
  then have m: "inv m" "remaining m \<le> remaining m0" by blast+
  from apply_ok [OF m(1) plays_step.hyps(2,3)] plays_step.hyps(4) m(2) show ?case by auto
qed

text \<open>Whatever the players answer, a game can be continued until no step is left.\<close>

lemma play_on:
  assumes "inv m" "remaining m \<noteq> 0"
  shows "\<exists>step. go_next g m = Inr (Some step) \<and>
    (\<forall>raws. answers step raws \<longrightarrow> (\<exists>m'. go_apply g m step (normalized g m step raws) = (None, m') \<and>
      inv m' \<and> Suc (remaining m') = remaining m))"
proof -
  from next_ok [OF assms(1)] obtain r where r: "go_next g m = Inr r" by blast
  with next_done [OF assms(1)] assms(2) obtain step where "r = Some step" by (cases r) auto
  with r show ?thesis using apply_ok [OF assms(1)] by blast
qed

lemma plays_trans:
  assumes "plays g m1 m2" "plays g m0 m1"
  shows "plays g m0 m2"
  using assms by (induction rule: plays.induct) (auto intro: plays_step)

lemma plays_complete: "inv m \<Longrightarrow> \<exists>m'. plays g m m' \<and> go_next g m' = Inr None"
proof (induction "remaining m" arbitrary: m)
  case 0
  then show ?case using next_done [of m] plays_refl [of g m] by auto
next
  case (Suc n)
  have "remaining m \<noteq> 0" using Suc.hyps(2) by simp
  from play_on [OF Suc.prems this] obtain step where step: "go_next g m = Inr (Some step)"
    "\<And>raws. answers step raws \<Longrightarrow> \<exists>m'. go_apply g m step (normalized g m step raws) = (None, m') \<and>
      inv m' \<and> Suc (remaining m') = remaining m" by blast
  from step(2) [OF answers_no_action] obtain m1 where m1:
    "go_apply g m step (normalized g m step (map (\<lambda>r. no_action (rq_player r)) (st_requests step))) = (None, m1)"
    "inv m1" "Suc (remaining m1) = remaining m" by blast
  have "plays g m m1" by (rule plays_step [OF plays_refl step(1) answers_no_action m1(1)])
  moreover obtain m' where "plays g m1 m'" "go_next g m' = Inr None"
    using Suc.hyps(1) [of m1] m1(2,3) Suc.hyps(2) by auto
  ultimately show ?case using plays_trans by blast
qed

end

text \<open>
  What the games keep about the last status of every player, and restoring it from a
  snapshot.
\<close>

definition last_ok :: "string list \<Rightarrow> action_status gomap \<Rightarrow> bool" where
  "last_ok ids la \<longleftrightarrow> fst ` set la = set ids \<and>
     (\<forall>p \<in> set ids. \<exists>s. map_of la p = Some s \<and> as_player s = p \<and>
        (as_decision s = ActionAccepted \<or> as_decision s = ActionNoAction))"

lemma last_ok_put:
  "last_ok ids la \<Longrightarrow> p \<in> set ids \<Longrightarrow> as_player s = p \<Longrightarrow>
   as_decision s = ActionAccepted \<or> as_decision s = ActionNoAction \<Longrightarrow> last_ok ids (put p s la)"
  by (auto simp: last_ok_def fst_put)

lemma last_ok_new: "last_ok (map pl_id ps) (put_all pl_id (\<lambda>p. no_action (pl_id p)) ps [])"
proof -
  have "map_of (put_all pl_id (\<lambda>p. no_action (pl_id p)) ps []) q = Some (no_action q)"
    if "q \<in> pl_id ` set ps" for q
    by (rule map_of_put_all_const [OF that]) simp
  then show ?thesis by (auto simp: last_ok_def fst_put_all)
qed

lemma restore_last_all:
  assumes "distinct (map fst per)" "fst ` set per \<subseteq> fst ` set la"
    and "\<And>p ps. (p, ps) \<in> set per \<Longrightarrow> as_player (ps_last ps) = p \<and> as_decision (ps_last ps) \<noteq> OtherDecision []"
  shows "\<exists>l. foldR (restore_last unknown) per la = Inr l \<and> fst ` set l = fst ` set la \<and>
    (\<forall>q. map_of l q = (case map_of per q of Some ps \<Rightarrow> Some (ps_last ps) | None \<Rightarrow> map_of la q))"
  using assms
proof (induction per arbitrary: la)
  case Nil
  then show ?case by simp
next
  case (Cons x per)
  obtain p ps where x: "x = (p, ps)" by (cases x)
  have s: "as_player (ps_last ps) = p" "as_decision (ps_last ps) \<noteq> OtherDecision []"
    using Cons.prems(3) [of p ps] x by auto
  have p: "p \<in> fst ` set la" using Cons.prems(2) x by simp
  then obtain w where known: "map_of la p = Some w"
    by (meson map_of_eq_None_iff not_None_eq)
  let ?la = "put p (ps_last ps) la"
  have keys: "fst ` set ?la = fst ` set la" using p by (auto simp: fst_put)
  have fresh: "map_of per p = None" using Cons.prems(1) x by (simp add: map_of_eq_None_iff)
  have "(if as_player (ps_last ps) = [] then (ps_last ps)\<lparr>as_player := p\<rparr> else ps_last ps) = ps_last ps"
    using s(1) by auto
  then have step: "restore_last unknown x la = Inr ?la"
    using known s(2) by (simp add: restore_last_def x Let_def del: if_cancel)
  obtain l where l: "foldR (restore_last unknown) per ?la = Inr l" "fst ` set l = fst ` set ?la"
    "\<And>q. map_of l q = (case map_of per q of Some ps \<Rightarrow> Some (ps_last ps) | None \<Rightarrow> map_of ?la q)"
    using Cons.IH [of ?la] Cons.prems keys by auto
  show ?case using l keys fresh step by (auto simp: x split: option.split)
qed

text \<open>A snapshot whose per-player part holds the last statuses gives them back.\<close>

lemma restore_last_restores:
  assumes ok: "last_ok ids la" and per: "distinct (map fst per)" "fst ` set per = set ids"
    and vals: "\<And>p. p \<in> set ids \<Longrightarrow> \<exists>ps. map_of per p = Some ps \<and> ps_last ps = getd zero_status la p"
    and base: "fst ` set base = set ids"
  shows "\<exists>l. foldR (restore_last unknown) per base = Inr l \<and> map_of l = map_of la"
proof -
  have good: "as_player (ps_last ps) = p \<and> as_decision (ps_last ps) \<noteq> OtherDecision []"
    if "(p, ps) \<in> set per" for p ps
  proof -
    have p: "p \<in> set ids" using that per(2) by force
    have "map_of per p = Some ps" using that per(1) by simp
    with vals [OF p] have "ps_last ps = getd zero_status la p" by auto
    moreover obtain s where "map_of la p = Some s" "as_player s = p"
      "as_decision s = ActionAccepted \<or> as_decision s = ActionNoAction"
      using ok p by (auto simp: last_ok_def)
    ultimately show ?thesis by (auto simp: getd_def)
  qed
  obtain l where l: "foldR (restore_last unknown) per base = Inr l"
    "\<And>q. map_of l q = (case map_of per q of Some ps \<Rightarrow> Some (ps_last ps) | None \<Rightarrow> map_of base q)"
    using restore_last_all [OF per(1), of base unknown] base per(2) good by auto
  have "map_of l q = map_of la q" for q
  proof (cases "q \<in> set ids")
    case True
    then obtain s where "map_of la q = Some s" using ok by (auto simp: last_ok_def)
    then show ?thesis using vals [OF True] by (auto simp: l(2) getd_def)
  next
    case False
    then have "map_of per q = None" "map_of base q = None" "map_of la q = None"
      using per(2) base ok by (simp_all add: map_of_eq_None_iff last_ok_def)
    then show ?thesis by (simp add: l(2))
  qed
  with l(1) show ?thesis by blast
qed

section \<open>Platform errors\<close>

text \<open>
  An error the platform only forwards: its text and whether \<open>errors.Is\<close> recognises
  \<open>context.Canceled\<close> or \<open>context.DeadlineExceeded\<close> in it.
\<close>

record go_error =
  ge_text :: string
  ge_ctx :: bool

section \<open>The session interface\<close>

text \<open>
  \<open>gamemaster.Session\<close> over a world \<open>'w\<close> that holds the game master and everything else
  outside the runner; every call returns the world it leaves behind. \<open>None\<close> from
  \<open>gs_replay\<close> is a session that does not implement \<open>PublicReplaySession\<close>.
\<close>

record 'w gm_session =
  gs_metadata :: "'w \<Rightarrow> game_metadata"
  gs_init :: "'w \<Rightarrow> (go_error + init_state) \<times> 'w"
  gs_next :: "'w \<Rightarrow> (go_error + decision_step option) \<times> 'w"
  gs_normalize :: "decision_request \<Rightarrow> action_status \<Rightarrow> 'w \<Rightarrow> (go_error + action_status) \<times> 'w"
  gs_apply :: "decision_step \<Rightarrow> action_status list \<Rightarrow> 'w \<Rightarrow> go_error option \<times> 'w"
  gs_snapshot :: "'w \<Rightarrow> (go_error + snapshot) \<times> 'w"
  gs_exported :: "'w \<Rightarrow> (go_error + exported_snapshot) \<times> 'w"
  gs_result :: "'w \<Rightarrow> (go_error + match_result) \<times> 'w"
  gs_replay :: "'w \<Rightarrow> (go_error + public_replay) option \<times> 'w"
  gs_shutdown :: "'w \<Rightarrow> go_error option \<times> 'w"

section \<open>The in-process session\<close>

definition fill_player :: "(string \<Rightarrow> raw) \<Rightarrow> exported_player_snapshot \<Rightarrow>
    player_snapshot gomap \<Rightarrow> player_snapshot gomap" where
  "fill_player visible xp per =
     (let p = xp_player xp;
          ps = getd zero_player_snapshot per p;
          ps1 = (if \<not> raw_present (ps_visible ps) then ps\<lparr>ps_visible := visible p\<rparr> else ps);
          ps2 = (if as_player (ps_last ps1) = [] then ps1\<lparr>ps_last := xp_last xp\<rparr> else ps1)
      in put p ps2 per)"

definition current_snapshot :: "('m, 'e) game_ops \<Rightarrow> 'm \<Rightarrow> snapshot" where
  "current_snapshot g m =
     (let sn = go_snapshot g m
      in sn\<lparr>sn_per_player :=
           fold (fill_player (go_visible g m)) (xs_players (go_exported g m)) (sn_per_player sn)\<rparr>)"

text \<open>
  The world is the master paired with the rest (players, clock); \<open>text\<close> renders the game's
  errors. The two games do not implement the public replay extension, so \<open>CurrentPublicReplay\<close>
  of the wrapper reports that it is unavailable.
\<close>

definition lift_error :: "('e \<Rightarrow> string) \<Rightarrow> 'e \<Rightarrow> go_error" where
  "lift_error text e = \<lparr>ge_text = text e, ge_ctx = False\<rparr>"

definition lift_result :: "('e \<Rightarrow> string) \<Rightarrow> 'e + 'a \<Rightarrow> go_error + 'a" where
  "lift_result text r = (case r of Inl e \<Rightarrow> Inl (lift_error text e) | Inr x \<Rightarrow> Inr x)"

lemma lift_result_simps [simp]:
  "lift_result text (Inr x) = Inr x"
  "lift_result text (Inl e) = Inl (lift_error text e)"
  by (simp_all add: lift_result_def)

definition in_process :: "('m, 'e) game_ops \<Rightarrow> ('e \<Rightarrow> string) \<Rightarrow> ('m \<times> 'p) gm_session" where
  "in_process g text =
     \<lparr>gs_metadata = (\<lambda>w. go_metadata g (fst w)),
      gs_init = (\<lambda>w. (lift_result text (go_init g (fst w)), w)),
      gs_next = (\<lambda>w. (lift_result text (go_next g (fst w)), w)),
      gs_normalize = (\<lambda>req s w. (Inr (go_normalize g (fst w) req s), w)),
      gs_apply = (\<lambda>step ss w. case go_apply g (fst w) step ss of
          (e, m) \<Rightarrow> (map_option (lift_error text) e, (m, snd w))),
      gs_snapshot = (\<lambda>w. (Inr (current_snapshot g (fst w)), w)),
      gs_exported = (\<lambda>w. (Inr (go_exported g (fst w)), w)),
      gs_result = (\<lambda>w. (Inr (go_result g (fst w)), w)),
      gs_replay = (\<lambda>w. (Some (Inl \<lparr>ge_text = ''game master public replay is unavailable'',
                                   ge_ctx = False\<rparr>), w)),
      gs_shutdown = (\<lambda>w. (None, w))\<rparr>"

text \<open>The per-player part of the wrapper's snapshot.\<close>

lemma fill_players_notin:
  "p \<notin> xp_player ` set xs \<Longrightarrow> map_of (fold (fill_player v) xs per) p = map_of per p"
  by (induction xs arbitrary: per) (auto simp: fill_player_def Let_def)

lemma fill_players_distinct:
  "distinct (map fst per) \<Longrightarrow> distinct (map fst (fold (fill_player v) xs per))"
  by (induction xs arbitrary: per) (auto simp: fill_player_def Let_def)

lemma fill_players_keys:
  "fst ` set (fold (fill_player v) xs per) = xp_player ` set xs \<union> fst ` set per"
  by (induction xs arbitrary: per) (auto simp: fill_player_def Let_def fst_put)

lemma fill_players_fresh:
  assumes "distinct (map xp_player xs)" "x \<in> set xs" "map_of per (xp_player x) = None"
  shows "map_of (fold (fill_player v) xs per) (xp_player x) =
    Some \<lparr>ps_visible = v (xp_player x), ps_last = xp_last x, ps_stderr_bytes = 0\<rparr>"
  using assms
proof (induction xs arbitrary: per)
  case Nil
  then show ?case by simp
next
  case (Cons y ys)
  show ?case
  proof (cases "x = y")
    case True
    then have "xp_player y \<notin> xp_player ` set ys" using Cons.prems(1) by simp
    then show ?thesis using True Cons.prems(3)
      by (simp add: fill_players_notin)
        (simp add: fill_player_def Let_def getd_def zero_player_snapshot_def zero_status_def)
  next
    case False
    then have "x \<in> set ys" "xp_player x \<noteq> xp_player y"
      using Cons.prems(1,2) by (auto simp: image_iff)
    then show ?thesis using Cons.IH [of "fill_player v y per"] Cons.prems
      by (simp add: fill_player_def Let_def)
  qed
qed

end
