(* ===== verification/Janken_Game.thy ===== *)
theory Janken_Game
  imports Janken_Props GameMaster
begin

text \<open>
  The janken master behind the game-master interface: its operations as a \<open>game_ops\<close>
  record, the book-keeping invariant that every answered step keeps, and the interpretation
  of the interface contract.
\<close>

definition janken_game :: "(master, error) game_ops" where
  "janken_game =
     \<lparr>go_metadata = jk_meta,
      go_init = (\<lambda>m. Inr (init m)),
      go_next = (\<lambda>m. Inr (next_step m)),
      go_normalize = (\<lambda>m. normalize_action),
      go_apply = (\<lambda>m step ss. case apply_step m step ss of Inl e \<Rightarrow> (Some e, m) | Inr m' \<Rightarrow> (None, m')),
      go_visible = visible_state,
      go_snapshot = take_snapshot,
      go_exported = exported_snapshot_of,
      go_result = result\<rparr>"

lemma janken_game_sel [simp]:
  "go_metadata janken_game = jk_meta"
  "go_init janken_game m = Inr (init m)"
  "go_next janken_game m = Inr (next_step m)"
  "go_normalize janken_game m = normalize_action"
  "go_apply janken_game m step ss =
     (case apply_step m step ss of Inl e \<Rightarrow> (Some e, m) | Inr m' \<Rightarrow> (None, m'))"
  "go_visible janken_game = visible_state"
  "go_snapshot janken_game = take_snapshot"
  "go_exported janken_game = exported_snapshot_of"
  "go_result janken_game = result"
  by (simp_all add: janken_game_def)

section \<open>One step, all fields\<close>

lemma apply_step_fields:
  assumes d: "distinct (map pl_id (jk_players m))"
    and p: "map as_player ss = map pl_id (jk_players m)"
    and mode: "st_mode step = Simultaneous"
    and ok: "apply_step m step ss = Inr m'"
  shows "jk_meta m' = jk_meta m" "jk_players m' = jk_players m" "jk_player_ids m' = jk_player_ids m"
    "jk_rounds m' = jk_rounds m" "jk_deadline m' = jk_deadline m" "jk_resolved m' = jk_resolved m + 1"
    "jk_public_history m' = jk_public_history m @ [\<lparr>pr_round = st_turn step,
       pr_actions = rm_actions (round_of m ss), pr_results = rm_outcomes (round_of m ss)\<rparr>]"
    "q \<in> pl_id ` set (jk_players m) \<Longrightarrow> getd zero_score (jk_scores m') q =
       count_outcome (rule_result ss q) (count_failure (as_reason (the (status_of ss q)))
         (getd zero_score (jk_scores m) q))"
    "q \<in> pl_id ` set (jk_players m) \<Longrightarrow> getd [] (jk_self_history m') q =
       getd [] (jk_self_history m) q @
         [\<lparr>sr_round = st_turn step, sr_action = shown_action ss q, sr_result = rule_result ss q\<rparr>]"
    "fst ` set (jk_scores m') = pl_id ` set (jk_players m) \<union> fst ` set (jk_scores m)"
    "fst ` set (jk_self_history m') = pl_id ` set (jk_players m) \<union> fst ` set (jk_self_history m)"
proof -
  have ds: "distinct (map as_player ss)" using d p by simp
  have len: "length ss = length (jk_players m)" using p by (metis length_map)
  have ids: "as_player ` set ss = pl_id ` set (jk_players m)" using p by (metis set_map)
  have st: "q \<in> pl_id ` set (jk_players m) \<Longrightarrow> \<exists>s. status_of ss q = Some s"
    using status_of_None [of ss q] ids by auto
  note r = round_of_maps [OF ds]
  show "jk_meta m' = jk_meta m" "jk_players m' = jk_players m" "jk_player_ids m' = jk_player_ids m"
    "jk_rounds m' = jk_rounds m" "jk_deadline m' = jk_deadline m" "jk_resolved m' = jk_resolved m + 1"
    "jk_public_history m' = jk_public_history m @ [\<lparr>pr_round = st_turn step,
       pr_actions = rm_actions (round_of m ss), pr_results = rm_outcomes (round_of m ss)\<rparr>]"
    using ok by (auto simp: apply_step_eq [OF mode len] Let_def)
  show "q \<in> pl_id ` set (jk_players m) \<Longrightarrow> getd zero_score (jk_scores m') q =
       count_outcome (rule_result ss q) (count_failure (as_reason (the (status_of ss q)))
         (getd zero_score (jk_scores m) q))"
    using ok st
    by (auto simp: apply_step_eq [OF mode len] Let_def record_players_scores [OF d] r
        apply_statuses_scores [OF ds])
  show "q \<in> pl_id ` set (jk_players m) \<Longrightarrow> getd [] (jk_self_history m') q =
       getd [] (jk_self_history m) q @
         [\<lparr>sr_round = st_turn step, sr_action = shown_action ss q, sr_result = rule_result ss q\<rparr>]"
    using ok st
    by (auto simp: apply_step_eq [OF mode len] Let_def record_players_history [OF d] r)
  show "fst ` set (jk_scores m') = pl_id ` set (jk_players m) \<union> fst ` set (jk_scores m)"
    "fst ` set (jk_self_history m') = pl_id ` set (jk_players m) \<union> fst ` set (jk_self_history m)"
    using ok [unfolded apply_step_eq [OF mode len] Let_def, THEN sum.inject(2) [THEN iffD1], symmetric]
    by (simp_all add: record_players_keys apply_statuses_score_keys ids)
qed

section \<open>The invariant\<close>

text \<open>
  The public history has one entry per resolved round, a player's own history is its column
  of the public history, and the score counts the results in that column; the timeouts and
  illegal actions are among the losses.
\<close>

definition row :: "string \<Rightarrow> public_round \<Rightarrow> self_round" where
  "row p r = \<lparr>sr_round = pr_round r, sr_action = getd [] (pr_actions r) p,
     sr_result = getd [] (pr_results r) p\<rparr>"

definition tally :: "self_round list \<Rightarrow> string \<Rightarrow> int" where
  "tally rs outcome = int (length (filter (\<lambda>r. sr_result r = outcome) rs))"

definition book_ok :: "master \<Rightarrow> string \<Rightarrow> bool" where
  "book_ok m p \<longleftrightarrow>
     (let s = getd zero_score (jk_scores m) p; h = getd [] (jk_self_history m) p in
      h = map (row p) (jk_public_history m) \<and>
      sc_wins s = tally h ''win'' \<and> sc_draws s = tally h ''draw'' \<and> sc_losses s = tally h ''loss'' \<and>
      sc_wins s + sc_draws s + sc_losses s = jk_resolved m \<and>
      0 \<le> sc_timeouts s \<and> 0 \<le> sc_invalid s \<and> sc_timeouts s + sc_invalid s \<le> sc_losses s)"

definition janken_ok :: "master \<Rightarrow> bool" where
  "janken_ok m \<longleftrightarrow>
     jk_players m \<noteq> [] \<and>
     distinct (map pl_id (jk_players m)) \<and> jk_player_ids m = map pl_id (jk_players m) \<and>
     0 \<le> jk_resolved m \<and> jk_resolved m \<le> jk_rounds m \<and>
     map pr_round (jk_public_history m) = [1..jk_resolved m] \<and>
     fst ` set (jk_scores m) = set (jk_player_ids m) \<and>
     fst ` set (jk_self_history m) = set (jk_player_ids m) \<and>
     last_ok (jk_player_ids m) (jk_last_action m) \<and>
     (\<forall>p \<in> set (jk_player_ids m). book_ok m p)"

lemma rule_result_cases:
  "status_of ss p \<noteq> None \<Longrightarrow> rule_result ss p = ''win'' \<or> rule_result ss p = ''draw'' \<or> rule_result ss p = ''loss''"
  by (auto simp: rule_result_def rule_outcome_def Let_def split: option.splits)

lemma normalize_action_player [simp]:
  "as_player s = rq_player req \<Longrightarrow> as_player (normalize_action req s) = rq_player req"
  by (simp add: normalize_action_def Let_def split: option.split)

lemma normalize_action_accepted:
  "as_decision (normalize_action req s) = ActionAccepted \<Longrightarrow>
   as_decision s = ActionAccepted \<and> as_reason (normalize_action req s) = as_reason s \<and>
   resolved_action (normalize_action req s) \<noteq> None"
  by (auto simp: normalize_action_def Let_def resolved_action_def split: if_splits option.splits)

text \<open>A normalised answer: a counted failure comes with no usable action.\<close>

lemma normalized_failure:
  assumes "as_decision s = ActionAccepted \<and> as_reason s = NoReason \<or> as_decision s = ActionNoAction"
  shows "as_reason (normalize_action req s) = NoReason \<or> resolved_action (normalize_action req s) = None"
proof (cases "as_decision (normalize_action req s) = ActionAccepted")
  case True
  with normalize_action_accepted [OF True] assms show ?thesis by simp
next
  case False
  then show ?thesis by (simp add: resolved_action_def)
qed

lemma normalized_players:
  "answers step raws \<Longrightarrow> map as_player (normalized janken_game m step raws) = map rq_player (st_requests step)"
proof -
  have "map as_player (map2 normalize_action reqs ss) = map rq_player reqs"
    if "map as_player ss = map rq_player reqs" for reqs ss
    using that
  proof (induction reqs arbitrary: ss)
    case Nil
    then show ?case by simp
  next
    case (Cons r reqs)
    then obtain s ss' where "ss = s # ss'" by (cases ss) auto
    with Cons show ?case by simp
  qed
  then show "answers step raws \<Longrightarrow> ?thesis" by (simp add: answers_def normalized_def)
qed

lemma normalized_failures:
  assumes "answers step raws" "s \<in> set (normalized janken_game m step raws)"
  shows "as_reason s = NoReason \<or> resolved_action s = None"
proof -
  from assms(2) obtain req raw where "(req, raw) \<in> set (zip (st_requests step) raws)"
    "s = normalize_action req raw"
    by (auto simp: normalized_def)
  moreover from this(1) have "raw \<in> set raws" by (rule set_zip_rightD)
  ultimately show ?thesis
    using assms(1) normalized_failure by (auto simp: answers_def)
qed

lemma next_step_some:
  "next_step m = Some step \<longleftrightarrow> jk_resolved m < jk_rounds m \<and>
     step = \<lparr>st_turn = jk_resolved m + 1, st_mode = Simultaneous,
        st_requests = map (\<lambda>p. \<lparr>rq_player = pl_id p, rq_visible = visible_state m (pl_id p),
            rq_hint = legal_action_hint, rq_deadline = jk_deadline m\<rparr>) (jk_players m)\<rparr>"
  by (auto simp: next_step_def)

lemma count_sel [simp]:
  "sc_wins (count_failure r s) = sc_wins s" "sc_draws (count_failure r s) = sc_draws s"
  "sc_losses (count_failure r s) = sc_losses s"
  "sc_timeouts (count_outcome x s) = sc_timeouts s" "sc_invalid (count_outcome x s) = sc_invalid s"
  "sc_wins (count_outcome x s) = sc_wins s + (if x = ''win'' then 1 else 0)"
  "sc_draws (count_outcome x s) = sc_draws s + (if x = ''draw'' then 1 else 0)"
  "sc_losses (count_outcome x s) = sc_losses s + (if x = ''win'' \<or> x = ''draw'' then 0 else 1)"
  by (cases r; simp add: count_failure_def count_outcome_def)+

lemma count_failure_bounds:
  "0 \<le> sc_timeouts s \<Longrightarrow> 0 \<le> sc_invalid s \<Longrightarrow>
   0 \<le> sc_timeouts (count_failure r s) \<and> 0 \<le> sc_invalid (count_failure r s) \<and>
   sc_timeouts (count_failure r s) + sc_invalid (count_failure r s) \<le> sc_timeouts s + sc_invalid s + 1 \<and>
   (r = NoReason \<longrightarrow> count_failure r s = s)"
  by (cases r) (simp_all add: count_failure_def)

lemma tally_snoc [simp]:
  "tally (rs @ [r]) x = tally rs x + (if sr_result r = x then 1 else 0)"
  by (simp add: tally_def)


lemma book_ok_step:
  assumes ok: "janken_ok m" and p: "p \<in> set (jk_player_ids m)"
    and next_: "next_step m = Some step" and ans: "answers step raws"
    and step: "apply_step m step (normalized janken_game m step raws) = Inr m'"
  shows "book_ok m' p"
proof -
  let ?ss = "normalized janken_game m step raws"
  have st: "st_mode step = Simultaneous" "st_turn step = jk_resolved m + 1"
    "map rq_player (st_requests step) = map pl_id (jk_players m)"
    using next_ by (auto simp: next_step_some o_def)
  have d: "distinct (map pl_id (jk_players m))" and ids: "jk_player_ids m = map pl_id (jk_players m)"
    and b: "book_ok m p"
    using ok p by (auto simp: janken_ok_def)
  have pl: "map as_player ?ss = map pl_id (jk_players m)"
    using normalized_players [OF ans] st(3) by simp
  have ds: "distinct (map as_player ?ss)" using pl d by simp
  note fields = apply_step_fields [OF d pl st(1) step]
  have pin: "p \<in> pl_id ` set (jk_players m)" using p ids by simp
  have "p \<in> as_player ` set ?ss" using pin pl by (metis set_map)
  then obtain s where s: "status_of ?ss p = Some s" using status_of_None [of ?ss p] by auto
  then have smem: "s \<in> set ?ss" using status_of_Some by blast
  have res: "rule_result ?ss p = ''win'' \<or> rule_result ?ss p = ''draw'' \<or> rule_result ?ss p = ''loss''"
    by (rule rule_result_cases) (simp add: s)
  have fail: "as_reason s = NoReason \<or> rule_result ?ss p = ''loss''"
    using normalized_failures [OF ans smem] by (auto simp: rule_result_def s)
  let ?s0 = "getd zero_score (jk_scores m) p"
  have b0: "sc_wins ?s0 = tally (getd [] (jk_self_history m) p) ''win''"
    "sc_draws ?s0 = tally (getd [] (jk_self_history m) p) ''draw''"
    "sc_losses ?s0 = tally (getd [] (jk_self_history m) p) ''loss''"
    "sc_wins ?s0 + sc_draws ?s0 + sc_losses ?s0 = jk_resolved m"
    "0 \<le> sc_timeouts ?s0" "0 \<le> sc_invalid ?s0" "sc_timeouts ?s0 + sc_invalid ?s0 \<le> sc_losses ?s0"
    "getd [] (jk_self_history m) p = map (row p) (jk_public_history m)"
    using b by (auto simp: book_ok_def Let_def)
  have score: "getd zero_score (jk_scores m') p =
      count_outcome (rule_result ?ss p) (count_failure (as_reason s) ?s0)"
    using fields(8) [OF pin] s by simp
  have hist: "getd [] (jk_self_history m') p = getd [] (jk_self_history m) p @
      [\<lparr>sr_round = st_turn step, sr_action = shown_action ?ss p, sr_result = rule_result ?ss p\<rparr>]"
    using fields(9) [OF pin] by simp
  have pub: "map (row p) (jk_public_history m') = map (row p) (jk_public_history m) @
      [\<lparr>sr_round = st_turn step, sr_action = shown_action ?ss p, sr_result = rule_result ?ss p\<rparr>]"
    by (simp add: fields(7) row_def round_of_maps [OF ds])
  have cf: "0 \<le> sc_timeouts (count_failure (as_reason s) ?s0)" "0 \<le> sc_invalid (count_failure (as_reason s) ?s0)"
    "sc_timeouts (count_failure (as_reason s) ?s0) + sc_invalid (count_failure (as_reason s) ?s0)
       \<le> sc_timeouts ?s0 + sc_invalid ?s0 + (if rule_result ?ss p = ''loss'' then 1 else 0)"
    using count_failure_bounds [OF b0(5,6), of "as_reason s"] fail by auto
  from res b0 cf show ?thesis
    unfolding book_ok_def Let_def score hist pub fields(6)
    by (elim disjE) (simp_all add: fields(6))
qed

lemma normalized_decisions:
  assumes "answers step raws" "s \<in> set (normalized janken_game m step raws)"
  shows "as_decision s = ActionAccepted \<or> as_decision s = ActionNoAction"
proof -
  from assms(2) obtain req raw where "(req, raw) \<in> set (zip (st_requests step) raws)"
    "s = normalize_action req raw"
    by (auto simp: normalized_def)
  moreover from this(1) have "raw \<in> set raws" by (rule set_zip_rightD)
  ultimately show ?thesis
    using assms(1) by (auto simp: answers_def normalize_action_def Let_def split: option.split)
qed

lemma apply_statuses_last_ok:
  assumes "\<And>s. s \<in> set ss \<Longrightarrow> as_player s \<in> set ids \<and>
      (as_decision s = ActionAccepted \<or> as_decision s = ActionNoAction)"
    and "last_ok ids (jk_last_action (fst mr))"
  shows "last_ok ids (jk_last_action (fst (fold apply_status ss mr)))"
  using assms
proof (induction ss arbitrary: mr)
  case Nil
  then show ?case by simp
next
  case (Cons s ss)
  have "jk_last_action (fst (apply_status s mr)) = put (as_player s) s (jk_last_action (fst mr))"
    by (cases mr) (simp add: apply_status_def Let_def)
  with Cons show ?case by (simp add: last_ok_put)
qed

lemma apply_step_last:
  assumes "last_ok ids (jk_last_action m)" "apply_step m step ss = Inr m'" "st_mode step = Simultaneous"
    and "\<And>s. s \<in> set ss \<Longrightarrow> as_player s \<in> set ids \<and>
      (as_decision s = ActionAccepted \<or> as_decision s = ActionNoAction)"
  shows "last_ok ids (jk_last_action m')"
proof -
  have "length ss = length (jk_players m)"
    using assms(2,3) by (auto simp: apply_step_def split: if_splits)
  with assms(2,3) have "jk_last_action m' = jk_last_action (fst (fold apply_status ss
      (m, \<lparr>rm_actions = [], rm_outcomes = [], rm_valid = []\<rparr>)))"
    by (auto simp: apply_step_eq Let_def)
  then show ?thesis using apply_statuses_last_ok [of ss ids] assms(1,4) by simp
qed

lemma janken_ok_step:
  assumes ok: "janken_ok m" and next_: "next_step m = Some step" and ans: "answers step raws"
  shows "\<exists>m'. apply_step m step (normalized janken_game m step raws) = Inr m' \<and> janken_ok m' \<and>
    jk_rounds m' = jk_rounds m \<and> jk_resolved m' = jk_resolved m + 1 \<and>
    jk_meta m' = jk_meta m \<and> jk_players m' = jk_players m"
proof -
  let ?ss = "normalized janken_game m step raws"
  have st: "st_mode step = Simultaneous" "st_turn step = jk_resolved m + 1"
    "jk_resolved m < jk_rounds m" "map rq_player (st_requests step) = map pl_id (jk_players m)"
    using next_ by (auto simp: next_step_some o_def)
  have okm: "distinct (map pl_id (jk_players m))" "jk_player_ids m = map pl_id (jk_players m)"
    "last_ok (jk_player_ids m) (jk_last_action m)"
    "0 \<le> jk_resolved m" "map pr_round (jk_public_history m) = [1..jk_resolved m]"
    "fst ` set (jk_scores m) = set (jk_player_ids m)"
    "fst ` set (jk_self_history m) = set (jk_player_ids m)"
    using ok by (auto simp: janken_ok_def)
  have pl: "map as_player ?ss = map pl_id (jk_players m)"
    using normalized_players [OF ans] st(4) by simp
  have "length ?ss = length (jk_players m)" using pl by (metis length_map)
  then obtain m' where m': "apply_step m step ?ss = Inr m'"
    using apply_step_eq [OF st(1)] by (metis (no_types, lifting))
  note fields = apply_step_fields [OF okm(1) pl st(1) m']
  have "[1..jk_resolved m + 1] = [1..jk_resolved m] @ [jk_resolved m + 1]"
    using okm(4) by (simp add: upto_rec2)
  moreover have "\<forall>p \<in> set (jk_player_ids m'). book_ok m' p"
    using book_ok_step [OF ok _ next_ ans m'] fields(3) by simp
  moreover have "last_ok (jk_player_ids m) (jk_last_action m')"
  proof (rule apply_step_last [OF okm(3) m' st(1)])
    fix s assume s: "s \<in> set ?ss"
    then have "as_player s \<in> set (map as_player ?ss)" by simp
    with normalized_decisions [OF ans s] okm(2) pl
    show "as_player s \<in> set (jk_player_ids m) \<and>
        (as_decision s = ActionAccepted \<or> as_decision s = ActionNoAction)" by simp
  qed
  ultimately have "janken_ok m'"
    using okm st ok by (simp add: janken_ok_def fields)
  with m' fields show ?thesis by blast
qed

lemma new_master_fields:
  assumes "new_master cfg = Inr m"
  shows "jk_meta m = \<lparr>gm_game_id = GameID, gm_game_version = GameVersion, gm_ruleset = RulesetRegular\<rparr>"
    "jk_players m = cf_players cfg" "jk_player_ids m = map pl_id (cf_players cfg)"
    "jk_rounds m = RegularRounds" "jk_deadline m = default_turn_deadline" "jk_resolved m = 0"
    "jk_scores m = put_all pl_id (\<lambda>_. zero_score) (cf_players cfg) []"
    "jk_self_history m = put_all pl_id (\<lambda>_. []) (cf_players cfg) []" "jk_public_history m = []"
    "jk_last_action m = put_all pl_id (\<lambda>p. no_action (pl_id p)) (cf_players cfg) []"
    "2 \<le> length (cf_players cfg)" "cf_game_version cfg = GameVersion" "cf_ruleset cfg = RulesetRegular"
  using assms
  by (auto simp: new_master_def metadata_for_selection_def split: if_splits)

lemma janken_ok_new:
  assumes "new_master cfg = Inr m" "distinct (map pl_id (cf_players cfg))"
  shows "janken_ok m"
proof -
  have "cf_players cfg \<noteq> []" using new_master_fields(11) [OF assms(1)] by auto
  then show ?thesis using assms(2)
    by (auto simp: janken_ok_def new_master_fields [OF assms(1)] RegularRounds_def fst_put_all
      last_ok_new book_ok_def Let_def zero_score_def tally_def)
qed

interpretation jk_game: game_master janken_game janken_ok "\<lambda>m. nat (jk_rounds m - jk_resolved m)"
proof
  show "\<exists>s. go_init janken_game m = Inr s" for m by simp
  show "\<exists>r. go_next janken_game m = Inr r" for m by simp
  show "(go_next janken_game m = Inr None) = (nat (jk_rounds m - jk_resolved m) = 0)" for m
    by (simp add: next_step_def)
  show "st_mode step = Simultaneous \<or> st_mode step = Sequential \<and> length (st_requests step) = 1"
    if "go_next janken_game m = Inr (Some step)" for m step
    using that by (simp add: next_step_some)
  show "\<exists>m'. go_apply janken_game m step (normalized janken_game m step raws) = (None, m') \<and>
      janken_ok m' \<and> Suc (nat (jk_rounds m' - jk_resolved m')) = nat (jk_rounds m - jk_resolved m)"
    if "janken_ok m" "go_next janken_game m = Inr (Some step)" "answers step raws" for m step raws
  proof -
    have n: "next_step m = Some step" using that(2) by simp
    then have "jk_resolved m < jk_rounds m" by (simp add: next_step_some)
    with janken_ok_step [OF that(1) n that(3)] show ?thesis
      by (auto simp: nat_diff_distrib)
  qed
qed

text \<open>
  At every point of a janken match the public history has exactly one entry per resolved
  round, in order; each player's own history is that player's column of the public history;
  and the score is the tally of the results in that column: wins, draws and losses add up to
  the number of resolved rounds and the timeouts and illegal actions are among the losses.
\<close>

theorem janken_books_balance:
  assumes "new_master cfg = Inr m0" "distinct (map pl_id (cf_players cfg))"
    and "plays janken_game m0 m" "p \<in> pl_id ` set (cf_players cfg)"
  shows "map pr_round (jk_public_history m) = [1..jk_resolved m] \<and> book_ok m p"
proof -
  have ok: "janken_ok m" using jk_game.plays_inv [OF assms(3) janken_ok_new [OF assms(1,2)]] by simp
  have "jk_player_ids m = jk_player_ids m0"
    using assms(3)
  proof (induction rule: plays.induct)
    case (plays_step m1 step raws m2)
    have inv: "janken_ok m1" using jk_game.plays_inv [OF plays_step.hyps(1) janken_ok_new [OF assms(1,2)]] by simp
    have n: "next_step m1 = Some step" using plays_step.hyps(2) by simp
    from janken_ok_step [OF inv n plays_step.hyps(3)] plays_step.hyps(4) plays_step.IH inv
    show ?case by (auto simp: janken_ok_def)
  qed simp
  then have "p \<in> set (jk_player_ids m)" using assms(4) by (simp add: new_master_fields [OF assms(1)])
  with ok show ?thesis by (simp add: janken_ok_def)
qed

end
