(* ===== verification/Janken_Restore.thy ===== *)
theory Janken_Restore
  imports Janken_Game
begin

text \<open>
  Restoring a janken master from the snapshot the in-process session takes of it: the JSON
  state decodes back, and the restored master shows the same snapshots, the same next step
  and the same result.
\<close>

section \<open>Decoding the encoded state\<close>

lemma dec_enc_score:
  assumes "int64_ok (sc_wins s)" "int64_ok (sc_losses s)" "int64_ok (sc_draws s)"
    "int64_ok (sc_timeouts s)" "int64_ok (sc_invalid s)"
  shows "dec_score (enc_score s) zero_score = Some s"
proof (cases s)
  case (fields w l d t i)
  with assms show ?thesis
    by (simp add: enc_score_def dec_score_def dec_defs upper_def zero_score_def)
qed

lemma dec_enc_self_round: "int64_ok (sr_round r) \<Longrightarrow> dec_self_round (enc_self_round r) zero_self_round = Some r"
proof (cases r)
  case (fields n a x)
  then show "int64_ok (sr_round r) \<Longrightarrow> ?thesis"
    by (simp add: enc_self_round_def dec_self_round_def dec_defs upper_def zero_self_round_def)
qed

lemma dec_enc_self_history:
  "(\<And>r. r \<in> set rs \<Longrightarrow> int64_ok (sr_round r)) \<Longrightarrow>
   dec_list dec_self_round zero_self_round (enc_self_history rs) x = Some rs"
  unfolding enc_self_history_def dec_list_def
  by (simp add: map_all_map map_all_Some [of rs _ id, simplified] dec_enc_self_round)

definition same_round :: "public_round \<Rightarrow> public_round \<Rightarrow> bool" where
  "same_round r r' \<longleftrightarrow> pr_round r = pr_round r' \<and> map_of (pr_actions r) = map_of (pr_actions r') \<and>
     map_of (pr_results r) = map_of (pr_results r')"

lemma dec_enc_public_round:
  assumes "int64_ok (pr_round r)"
  shows "\<exists>r'. dec_public_round (enc_public_round r) zero_public_round = Some r' \<and> same_round r r'"
proof -
  have str: "dec_str (JStr v) [] = Some v" for v by (simp add: dec_str_def)
  obtain a where a: "dec_map dec_str [] (enc_map JStr (pr_actions r)) [] = Some a"
    "map_of a = map_of (pr_actions r)"
    using dec_enc_map [of "pr_actions r" dec_str JStr "[]"] str by blast
  obtain x where x: "dec_map dec_str [] (enc_map JStr (pr_results r)) [] = Some x"
    "map_of x = map_of (pr_results r)"
    using dec_enc_map [of "pr_results r" dec_str JStr "[]"] str by blast
  show ?thesis using assms a x
    by (simp add: enc_public_round_def dec_public_round_def dec_defs upper_def zero_public_round_def
        same_round_def)
qed

lemma same_round_enc: "same_round r r' \<Longrightarrow> enc_public_round r = enc_public_round r'"
  using enc_map_cong [of "pr_actions r" "pr_actions r'" JStr]
    enc_map_cong [of "pr_results r" "pr_results r'" JStr]
  by (simp add: same_round_def enc_public_round_def)

lemma same_rounds_enc: "list_all2 same_round rs rs' \<Longrightarrow> map enc_public_round rs = map enc_public_round rs'"
  by (induction rs rs' rule: list_all2_induct) (auto dest: same_round_enc)

lemma dec_enc_public_history:
  assumes "\<And>r. r \<in> set rs \<Longrightarrow> int64_ok (pr_round r)"
  shows "\<exists>rs'. dec_list dec_public_round zero_public_round (JArr (map enc_public_round rs)) [] = Some rs' \<and>
    list_all2 same_round rs rs'"
  using map_all_rel [of rs "\<lambda>r. dec_public_round (enc_public_round r) zero_public_round" same_round]
    dec_enc_public_round assms
  by (simp add: dec_list_def map_all_map)

definition storable :: "snapshot_state \<Rightarrow> bool" where
  "storable st \<longleftrightarrow> int64_ok (ss_rounds st) \<and> int64_ok (ss_resolved st) \<and>
     (\<forall>p s. map_of (ss_scores st) p = Some s \<longrightarrow> int64_ok (sc_wins s) \<and> int64_ok (sc_losses s) \<and>
        int64_ok (sc_draws s) \<and> int64_ok (sc_timeouts s) \<and> int64_ok (sc_invalid s)) \<and>
     (\<forall>p h. map_of (ss_self st) p = Some h \<longrightarrow> (\<forall>r \<in> set h. int64_ok (sr_round r))) \<and>
     (\<forall>r \<in> set (ss_public st). int64_ok (pr_round r))"

lemma dec_enc_snapshot_state:
  assumes "storable st"
  shows "\<exists>st'. dec_snapshot_state (enc_snapshot_state st) zero_snapshot_state = Some st' \<and>
    ss_rounds st' = ss_rounds st \<and> ss_resolved st' = ss_resolved st \<and>
    map_of (ss_scores st') = map_of (ss_scores st) \<and> distinct (map fst (ss_scores st')) \<and>
    map_of (ss_self st') = map_of (ss_self st) \<and> distinct (map fst (ss_self st')) \<and>
    list_all2 same_round (ss_public st) (ss_public st')"
proof -
  obtain a where a: "dec_map dec_score zero_score (enc_map enc_score (ss_scores st)) [] = Some a"
    "map_of a = map_of (ss_scores st)" "distinct (map fst a)"
    using dec_enc_map [of "ss_scores st" dec_score enc_score zero_score] dec_enc_score assms
    by (metis storable_def)
  obtain b where b: "dec_map (dec_list dec_self_round zero_self_round) [] (enc_map enc_self_history (ss_self st)) [] = Some b"
    "map_of b = map_of (ss_self st)" "distinct (map fst b)"
    using dec_enc_map [of "ss_self st" "dec_list dec_self_round zero_self_round" enc_self_history "[]"]
      dec_enc_self_history assms
    by (metis storable_def)
  obtain c where c: "dec_list dec_public_round zero_public_round (JArr (map enc_public_round (ss_public st))) [] = Some c"
    "list_all2 same_round (ss_public st) c"
    using dec_enc_public_history [of "ss_public st"] assms by (auto simp: storable_def)
  have i: "int64_ok (ss_rounds st)" "int64_ok (ss_resolved st)" using assms by (auto simp: storable_def)
  show ?thesis
    using a b c i
    by (simp add: enc_snapshot_state_def dec_snapshot_state_def dec_defs upper_def zero_snapshot_state_def)
qed


section \<open>Masters that look alike\<close>

text \<open>
  Two masters look alike when they differ at most in the order in which maps store their
  entries, which no operation reveals.
\<close>

definition alike :: "master \<Rightarrow> master \<Rightarrow> bool" where
  "alike m m' \<longleftrightarrow>
     jk_meta m = jk_meta m' \<and> jk_players m = jk_players m' \<and> jk_player_ids m = jk_player_ids m' \<and>
     jk_rounds m = jk_rounds m' \<and> jk_deadline m = jk_deadline m' \<and> jk_resolved m = jk_resolved m' \<and>
     map_of (jk_scores m) = map_of (jk_scores m') \<and>
     map_of (jk_self_history m) = map_of (jk_self_history m') \<and>
     list_all2 same_round (jk_public_history m) (jk_public_history m') \<and>
     map_of (jk_last_action m) = map_of (jk_last_action m')"

lemma alike_maps:
  assumes "alike m m'"
  shows "getd z (jk_scores m) = getd z (jk_scores m')"
    "getd h (jk_self_history m) = getd h (jk_self_history m')"
    "getd s (jk_last_action m) = getd s (jk_last_action m')"
    "map enc_public_round (jk_public_history m) = map enc_public_round (jk_public_history m')"
    "enc_map f (jk_scores m) = enc_map f (jk_scores m')"
    "enc_map k (jk_self_history m) = enc_map k (jk_self_history m')"
  using assms by (auto simp: alike_def getd_def fun_eq_iff same_rounds_enc intro: enc_map_cong)

lemma alike_visible:
  assumes "alike m m'"
  shows "visible_state m = visible_state m'"
proof
  show "visible_state m p = visible_state m' p" for p
    using assms alike_maps [OF assms] by (simp add: visible_state_def visible_round_def alike_def)
qed

lemma alike_observations:
  assumes "alike m m'"
  shows "next_step m = next_step m'" "take_snapshot m = take_snapshot m'"
    "exported_snapshot_of m = exported_snapshot_of m'" "result m = result m'" "init m = init m'"
proof -
  note a = assms [unfolded alike_def] and maps = alike_maps [OF assms] and v = alike_visible [OF assms]
  show "next_step m = next_step m'" using a v by (simp add: next_step_def)
  show "take_snapshot m = take_snapshot m'"
    using a maps by (simp add: take_snapshot_def snapshot_state_of_def enc_snapshot_state_def)
  show "exported_snapshot_of m = exported_snapshot_of m'"
    using a maps by (simp add: exported_snapshot_of_def)
  have "player_before (jk_scores m) = player_before (jk_scores m')"
    using maps(1) [of zero_score] by (simp add: player_before_def fun_eq_iff)
  then show "result m = result m'"
    using a maps(1) [of zero_score] by (simp add: result_def)
  show "init m = init m'" using a by (simp add: init_def)
qed

section \<open>The restored master\<close>

lemma current_snapshot_players:
  assumes "distinct (jk_player_ids m)"
  defines "per \<equiv> sn_per_player (current_snapshot janken_game m)"
  shows "distinct (map fst per)" "fst ` set per = set (jk_player_ids m)"
    "p \<in> set (jk_player_ids m) \<Longrightarrow> map_of per p =
       Some \<lparr>ps_visible = visible_state m p, ps_last = getd zero_status (jk_last_action m) p, ps_stderr_bytes = 0\<rparr>"
proof -
  let ?xs = "map (\<lambda>p. \<lparr>xp_player = p, xp_last = getd zero_status (jk_last_action m) p\<rparr>) (jk_player_ids m)"
  have per: "per = fold (fill_player (visible_state m)) ?xs []"
    by (simp add: per_def current_snapshot_def take_snapshot_def exported_snapshot_of_def)
  show "distinct (map fst per)" unfolding per by (rule fill_players_distinct) simp
  show "fst ` set per = set (jk_player_ids m)" by (simp add: per fill_players_keys image_image)
  have d: "distinct (map xp_player ?xs)" using assms(1) by (simp add: o_def)
  show "p \<in> set (jk_player_ids m) \<Longrightarrow> map_of per p =
       Some \<lparr>ps_visible = visible_state m p, ps_last = getd zero_status (jk_last_action m) p, ps_stderr_bytes = 0\<rparr>"
    using fill_players_fresh [OF d, of "\<lparr>xp_player = p, xp_last = getd zero_status (jk_last_action m) p\<rparr>" "[]"]
    by (simp add: per image_iff)
qed

lemma tally_le: "0 \<le> tally rs x \<and> tally rs x \<le> int (length rs)"
  by (simp add: tally_def)

lemma janken_storable:
  assumes ok: "janken_ok m" and rounds: "jk_rounds m = RegularRounds"
  shows "storable (snapshot_state_of m)"
proof -
  have r: "0 \<le> jk_resolved m" "jk_resolved m \<le> 5" "map pr_round (jk_public_history m) = [1..jk_resolved m]"
    using ok rounds by (auto simp: janken_ok_def RegularRounds_def)
  have small: "int64_ok i" if "0 \<le> i" "i \<le> 5" for i
    using that by (simp add: int64_ok_def)
  have len: "int (length (jk_public_history m)) = jk_resolved m"
    using r(1,3) by (metis length_map length_upto int_nat_eq diff_add_cancel)
  have pub: "int64_ok (pr_round x)" if "x \<in> set (jk_public_history m)" for x
  proof -
    have "pr_round x \<in> set [1..jk_resolved m]" using that r(3) by (metis image_eqI set_map)
    then show ?thesis using r(2) by (intro small) auto
  qed
  have book: "book_ok m p" if "map_of (jk_scores m) p = Some s \<or> map_of (jk_self_history m) p = Some h" for p s h
  proof -
    have "p \<in> set (jk_player_ids m)"
      using that ok by (metis janken_ok_def map_of_eq_None_iff option.distinct(1))
    then show ?thesis using ok by (simp add: janken_ok_def)
  qed
  have scores: "int64_ok (sc_wins s) \<and> int64_ok (sc_losses s) \<and> int64_ok (sc_draws s) \<and>
      int64_ok (sc_timeouts s) \<and> int64_ok (sc_invalid s)" if s: "map_of (jk_scores m) p = Some s" for p s
  proof -
    have "book_ok m p" using book s by blast
    then have h: "sc_wins s = tally (getd [] (jk_self_history m) p) ''win''"
      "sc_draws s = tally (getd [] (jk_self_history m) p) ''draw''"
      "sc_losses s = tally (getd [] (jk_self_history m) p) ''loss''"
      "sc_wins s + sc_draws s + sc_losses s = jk_resolved m"
      "0 \<le> sc_timeouts s" "0 \<le> sc_invalid s" "sc_timeouts s + sc_invalid s \<le> sc_losses s"
      using s by (auto simp: book_ok_def getd_def Let_def)
    have n: "0 \<le> sc_wins s" "0 \<le> sc_draws s" "0 \<le> sc_losses s"
      unfolding h(1-3) using tally_le by blast+
    show ?thesis
      using h(4-7) n r(2) by (intro conjI small) linarith+
  qed
  have hist: "int64_ok (sr_round x)" if h: "map_of (jk_self_history m) p = Some h" "x \<in> set h" for p h x
  proof -
    have "book_ok m p" using book h(1) by blast
    then have "h = map (row p) (jk_public_history m)" using h(1) by (simp add: book_ok_def getd_def Let_def)
    then show ?thesis using h(2) pub by (auto simp: row_def)
  qed
  have "int64_ok (jk_rounds m)" using rounds by (simp add: int64_ok_def RegularRounds_def)
  moreover have "int64_ok (jk_resolved m)" using r small by simp
  ultimately show ?thesis
    using scores hist pub by (auto simp: storable_def snapshot_state_of_def)
qed


lemma plays_frame:
  assumes "plays janken_game m0 m" "janken_ok m0"
  shows "jk_meta m = jk_meta m0 \<and> jk_players m = jk_players m0 \<and> jk_player_ids m = jk_player_ids m0 \<and>
    jk_rounds m = jk_rounds m0 \<and> jk_deadline m = jk_deadline m0"
  using assms
proof (induction rule: plays.induct)
  case (plays_step m1 step raws m2)
  have inv: "janken_ok m1" using jk_game.plays_inv [OF plays_step.hyps(1) plays_step.prems] by simp
  have n: "next_step m1 = Some step" using plays_step.hyps(2) by simp
  from janken_ok_step [OF inv n plays_step.hyps(3)] obtain m' where
    m': "apply_step m1 step (normalized janken_game m1 step raws) = Inr m'" by blast
  with plays_step.hyps(4) have m2: "m2 = m'" by simp
  have st: "st_mode step = Simultaneous" "map rq_player (st_requests step) = map pl_id (jk_players m1)"
    using n by (auto simp: next_step_some o_def)
  have "map as_player (normalized janken_game m1 step raws) = map pl_id (jk_players m1)"
    using normalized_players [OF plays_step.hyps(3)] st(2) by simp
  note apply_step_fields [OF _ this st(1) m']
  moreover have "distinct (map pl_id (jk_players m1))" using inv by (simp add: janken_ok_def)
  ultimately show ?case using plays_step.IH [OF plays_step.prems] m2 by simp
qed simp

lemma restored_alike:
  assumes new: "new_master cfg = Inr m0" and d: "distinct (map pl_id (cf_players cfg))"
    and m: "plays janken_game m0 m"
  shows "\<exists>m'. new_from_snapshot cfg (current_snapshot janken_game m) = Inr m' \<and> alike m m'"
proof -
  have ok0: "janken_ok m0" by (rule janken_ok_new [OF new d])
  have ok: "janken_ok m" using jk_game.plays_inv [OF m ok0] by simp
  note frame = plays_frame [OF m ok0] and fields = new_master_fields [OF new]
  have rounds: "jk_rounds m = RegularRounds" using frame fields(4) by simp
  have ids: "jk_player_ids m = map pl_id (cf_players cfg)" using frame fields by simp
  have dids: "distinct (jk_player_ids m)" using d ids by simp
  have okm: "0 \<le> jk_resolved m" "jk_resolved m \<le> jk_rounds m0"
    "fst ` set (jk_scores m) = set (jk_player_ids m)"
    "fst ` set (jk_self_history m) = set (jk_player_ids m)"
    "last_ok (jk_player_ids m) (jk_last_action m)"
    using ok frame by (auto simp: janken_ok_def)
  let ?sn = "current_snapshot janken_game m"
  have sn: "sn_game_id ?sn = gm_game_id (jk_meta m0)" "sn_game_version ?sn = gm_game_version (jk_meta m0)"
    "sn_ruleset ?sn = gm_ruleset (jk_meta m0)" "sn_turn ?sn = jk_resolved m"
    "sn_game_state ?sn = RawJson (enc_snapshot_state (snapshot_state_of m))"
    using frame by (simp_all add: current_snapshot_def take_snapshot_def)
  obtain st where st: "dec_snapshot_state (enc_snapshot_state (snapshot_state_of m)) zero_snapshot_state = Some st"
    "map_of (ss_scores st) = map_of (jk_scores m)" "distinct (map fst (ss_scores st))"
    "map_of (ss_self st) = map_of (jk_self_history m)" "distinct (map fst (ss_self st))"
    "list_all2 same_round (jk_public_history m) (ss_public st)"
    using dec_enc_snapshot_state [OF janken_storable [OF ok rounds]] by (auto simp: snapshot_state_of_def)
  have keys: "fst ` set (put_all id v (jk_player_ids m0) base) = set (jk_player_ids m)"
    if "fst ` set base = set (jk_player_ids m)" for v and base :: "'x gomap"
    using that frame by (simp add: fst_put_all_base)
  obtain scores where scores: "put_known UnknownScorePlayer (ss_scores st)
      (put_all id (\<lambda>_. zero_score) (jk_player_ids m0) (jk_scores m0)) = Inr scores"
    "map_of scores = map_of (jk_scores m)"
    using put_known_restores [OF st(3,2), of "put_all id (\<lambda>_. zero_score) (jk_player_ids m0) (jk_scores m0)"
        UnknownScorePlayer]
      keys [of "jk_scores m0"] okm(3) fields(7) ids by (auto simp: fst_put_all)
  obtain self where self: "put_known UnknownHistoryPlayer (ss_self st)
      (put_all id (\<lambda>_. []) (jk_player_ids m0) (jk_self_history m0)) = Inr self"
    "map_of self = map_of (jk_self_history m)"
    using put_known_restores [OF st(5,4), of "put_all id (\<lambda>_. []) (jk_player_ids m0) (jk_self_history m0)"
        UnknownHistoryPlayer]
      keys [of "jk_self_history m0"] okm(4) fields(8) ids by (auto simp: fst_put_all)
  let ?per = "sn_per_player ?sn" and ?last0 = "put_all id no_action (jk_player_ids m0) (jk_last_action m0)"
  have per: "distinct (map fst ?per)" "fst ` set ?per = set (jk_player_ids m)"
    "\<And>p. p \<in> set (jk_player_ids m) \<Longrightarrow> map_of ?per p =
       Some \<lparr>ps_visible = visible_state m p, ps_last = getd zero_status (jk_last_action m) p, ps_stderr_bytes = 0\<rparr>"
    using current_snapshot_players [OF dids] by blast+
  have last0: "fst ` set ?last0 = set (jk_player_ids m)"
    using keys [of "jk_last_action m0"] fields(10) ids by (simp add: fst_put_all)
  obtain l where l: "foldR (restore_last UnknownPerPlayer) ?per ?last0 = Inr l"
    "map_of l = map_of (jk_last_action m)"
    using restore_last_restores [OF okm(5) per(1,2) _ last0, of UnknownPerPlayer] per(3) by fastforce
  let ?m' = "m0\<lparr>jk_resolved := jk_resolved m, jk_scores := scores, jk_self_history := self,
      jk_public_history := ss_public st, jk_last_action := l\<rparr>"
  have "new_from_snapshot cfg ?sn = Inr ?m'"
    using new sn okm(1,2) st(1) scores(1) self(1) l(1)
    by (simp add: new_from_snapshot_def apply_snapshot_def)
  moreover have "alike m ?m'"
    using frame scores(2) self(2) l(2) st(6) by (simp add: alike_def)
  ultimately show ?thesis by blast
qed

text \<open>
  C17. Resuming is lossless: restoring the snapshot that the in-process session takes at any
  point of a janken match succeeds, and the restored master shows the same next step, the
  same snapshots and the same result as the original.
\<close>

theorem janken_resume_lossless:
  assumes "new_master cfg = Inr m0" "distinct (map pl_id (cf_players cfg))" "plays janken_game m0 m"
  shows "\<exists>m'. new_from_snapshot cfg (current_snapshot janken_game m) = Inr m' \<and>
    next_step m' = next_step m \<and> take_snapshot m' = take_snapshot m \<and>
    exported_snapshot_of m' = exported_snapshot_of m \<and> result m' = result m"
  using restored_alike [OF assms] alike_observations by metis

lemma sample_distinct: "distinct (map pl_id (cf_players sample_config))"
  by (simp add: sample_config_def sample_players_def)

theorem janken_resume_lossless_witness:
  "\<exists>m m'. plays janken_game sample_master m \<and> next_step m = None \<and>
    new_from_snapshot sample_config (current_snapshot janken_game m) = Inr m' \<and> result m' = result m"
proof -
  obtain m where m: "plays janken_game sample_master m" "go_next janken_game m = Inr None"
    using jk_game.plays_complete [OF janken_ok_new [OF new_sample_master sample_distinct]] by blast
  from janken_resume_lossless [OF new_sample_master sample_distinct m(1)] m show ?thesis by auto
qed

text \<open>
  A janken match lasts exactly five rounds: whatever the players answer, every step is
  accepted by the master until five rounds are resolved, no step is offered afterwards, and
  every match can be continued to that point.
\<close>

theorem janken_lasts_five_rounds:
  assumes "new_master cfg = Inr m0" "distinct (map pl_id (cf_players cfg))" "plays janken_game m0 m"
  shows "(next_step m = None \<longleftrightarrow> jk_resolved m = 5) \<and>
    (\<forall>step raws. next_step m = Some step \<and> answers step raws \<longrightarrow>
      (\<exists>m'. apply_step m step (normalized janken_game m step raws) = Inr m' \<and>
        jk_resolved m' = jk_resolved m + 1)) \<and>
    (\<exists>m'. plays janken_game m m' \<and> next_step m' = None)"
proof -
  have ok0: "janken_ok m0" by (rule janken_ok_new [OF assms(1,2)])
  have ok: "janken_ok m" using jk_game.plays_inv [OF assms(3) ok0] by simp
  have rounds: "jk_rounds m = 5"
    using plays_frame [OF assms(3) ok0] new_master_fields(4) [OF assms(1)] by (simp add: RegularRounds_def)
  have "next_step m = None \<longleftrightarrow> jk_resolved m = 5"
    using ok rounds by (auto simp: next_step_def janken_ok_def)
  moreover have "\<exists>m'. plays janken_game m m' \<and> next_step m' = None"
    using jk_game.plays_complete [OF ok] by simp
  ultimately show ?thesis using janken_ok_step [OF ok] by blast
qed

theorem janken_lasts_five_rounds_witness:
  "next_step sample_master \<noteq> None \<and> (\<exists>m'. plays janken_game sample_master m' \<and> next_step m' = None)"
proof -
  have "jk_resolved sample_master = 0" using new_master_fields(6) [OF new_sample_master] .
  with janken_lasts_five_rounds [OF new_sample_master sample_distinct plays_refl] show ?thesis by auto
qed

theorem janken_books_balance_witness:
  "\<exists>m. plays janken_game sample_master m \<and> next_step m = None \<and> book_ok m ''p1''"
proof -
  obtain m where m: "plays janken_game sample_master m" "go_next janken_game m = Inr None"
    using jk_game.plays_complete [OF janken_ok_new [OF new_sample_master sample_distinct]] by blast
  have "''p1'' \<in> pl_id ` set (cf_players sample_config)" by (simp add: sample_config_def sample_players_def)
  from janken_books_balance [OF new_sample_master sample_distinct m(1) this] m show ?thesis by auto
qed

end
