(* ===== verification/Session.thy ===== *)
theory Session
  imports Contract Protocol
begin

text \<open>
  A player's request/response session (\<open>internal/platform/session/session.go\<close>). The
  \<open>select\<close> of \<open>Session.call\<close> takes one of the ready channels; the order in which it takes
  them is the list of events the call observes. A call that has observed no decisive event
  is still blocked, which is the value \<open>None\<close>.
\<close>

section \<open>State and events\<close>

record stderr_snapshot =
  se_output :: string
  se_bytes_read :: int
  se_truncated :: bool

text \<open>\<open>runtime.Message\<close>: a response, a decoding error or a runtime error.\<close>

record message =
  mg_response :: "response option"
  mg_err :: bool
  mg_runtime_error :: string

datatype call_event = CtxDone | TimerFired | ChannelClosed | Incoming message

record call_request =
  cr_id :: string
  cr_method :: string
  cr_params :: any_value
  cr_deadline :: int

record result =
  re_status :: action_decision
  re_reason :: failure_reason
  re_payload :: raw
  re_ignored :: "string list"
  re_runtime_error :: string

text \<open>
  A session: the ids it has given up on, and the calls of its two hooks so far (an optional
  hook that is not installed leaves no other trace).
\<close>

record session =
  ss_late_ids :: "string set"
  ss_late_hook :: "string list"
  ss_malformed_hook :: nat

definition new_session :: session where
  "new_session = \<lparr>ss_late_ids = {}, ss_late_hook = [], ss_malformed_hook = 0\<rparr>"

definition failed :: "failure_reason \<Rightarrow> result" where
  "failed reason = \<lparr>re_status = ActionNoAction, re_reason = reason, re_payload = RawNone,
     re_ignored = [], re_runtime_error = []\<rparr>"

section \<open>The call\<close>

text \<open>
  One iteration of the loop: \<open>Inl\<close> ends the call with its result, \<open>Inr\<close> goes on with the
  ids of the late responses ignored so far.
\<close>

definition on_event :: "string \<Rightarrow> call_event \<Rightarrow> session \<Rightarrow> string list \<Rightarrow> (result + string list) \<times> session" where
  "on_event rid ev s ignored =
     (case ev of
        CtxDone \<Rightarrow> (Inl (failed ReasonTimeout), s\<lparr>ss_late_ids := insert rid (ss_late_ids s)\<rparr>)
      | TimerFired \<Rightarrow> (Inl (failed ReasonTimeout), s\<lparr>ss_late_ids := insert rid (ss_late_ids s)\<rparr>)
      | ChannelClosed \<Rightarrow> (Inl (failed ReasonRuntimeStop), s)
      | Incoming msg \<Rightarrow>
          if mg_runtime_error msg \<noteq> [] then
            (Inl ((failed ReasonRuntimeStop)\<lparr>re_runtime_error := mg_runtime_error msg\<rparr>), s)
          else if mg_err msg then
            (Inl (failed ReasonMalformed), s\<lparr>ss_malformed_hook := ss_malformed_hook s + 1\<rparr>)
          else (case mg_response msg of
              None \<Rightarrow> (Inr ignored, s)
            | Some resp \<Rightarrow>
                if rs_id resp \<in> ss_late_ids s then
                  (Inr (ignored @ [rs_id resp]),
                   s\<lparr>ss_late_ids := ss_late_ids s - {rs_id resp},
                     ss_late_hook := ss_late_hook s @ [rs_id resp]\<rparr>)
                else (case match_response_id rid resp of
                    Inl (MismatchedID _ _) \<Rightarrow> (Inl (failed ReasonMismatchedID), s)
                  | Inl _ \<Rightarrow> (Inl (failed ReasonMalformed), s)
                  | Inr _ \<Rightarrow>
                      if rs_error resp \<noteq> None then
                        (Inl ((failed ReasonMalformed)\<lparr>re_ignored := ignored\<rparr>), s)
                      else
                        (Inl \<lparr>re_status = ActionAccepted, re_reason = NoReason,
                              re_payload = rs_result resp, re_ignored = ignored,
                              re_runtime_error = []\<rparr>, s))))"

fun await_response :: "string \<Rightarrow> call_event list \<Rightarrow> session \<Rightarrow> string list \<Rightarrow> (result \<times> session \<times> call_event list) option" where
  "await_response rid [] s ignored = None"
| "await_response rid (ev # evs) s ignored =
     (case on_event rid ev s ignored of
        (Inl r, s') \<Rightarrow> Some (r, s', evs)
      | (Inr ignored', s') \<Rightarrow> await_response rid evs s' ignored')"

text \<open>\<open>sent\<close> is whether the transport took the request.\<close>

definition call :: "call_request \<Rightarrow> bool \<Rightarrow> call_event list \<Rightarrow> session \<Rightarrow> (result \<times> session \<times> call_event list) option" where
  "call req sent evs s =
     (case new_request (cr_id req) (cr_method req) (cr_params req) of
        Inl _ \<Rightarrow> Some (failed ReasonMalformed, s, evs)
      | Inr _ \<Rightarrow>
          if \<not> sent then Some (failed ReasonRuntimeStop, s, evs)
          else await_response (cr_id req) evs s [])"

section \<open>What a call returns\<close>

lemma match_response_id_cases:
  "match_response_id e r = (if e = rs_id r then Inr () else Inl (MismatchedID e (rs_id r)))"
  by (simp add: match_response_id_def)

lemmas call_defs = on_event_def match_response_id_cases failed_def

definition decisive :: "string \<Rightarrow> session \<Rightarrow> call_event \<Rightarrow> bool" where
  "decisive rid s ev \<longleftrightarrow>
     (case ev of
        Incoming msg \<Rightarrow> mg_runtime_error msg \<noteq> [] \<or> mg_err msg \<or>
          (case mg_response msg of None \<Rightarrow> False | Some r \<Rightarrow> rs_id r \<notin> ss_late_ids s)
      | _ \<Rightarrow> True)"

lemma on_event_ends: "(\<exists>r s'. on_event rid ev s ig = (Inl r, s')) \<longleftrightarrow> decisive rid s ev"
  by (cases ev) (auto simp: call_defs decisive_def split: option.splits)

text \<open>A session result is an acceptance without reason and runtime error, or a failure.\<close>

definition well_formed_result :: "result \<Rightarrow> bool" where
  "well_formed_result r \<longleftrightarrow>
     (re_status r = ActionAccepted \<and> re_reason r = NoReason \<and> re_runtime_error r = [] \<or>
      re_status r = ActionNoAction \<and> re_reason r \<noteq> NoReason \<and> re_payload r = RawNone \<and>
      (re_runtime_error r \<noteq> [] \<longrightarrow> re_reason r = ReasonRuntimeStop))"

lemma on_event_well_formed: "on_event rid ev s ig = (Inl r, s') \<Longrightarrow> well_formed_result r"
  by (cases ev) (auto simp: call_defs well_formed_result_def split: if_splits option.splits)

text \<open>The ids of the responses among the events, in their order.\<close>

definition response_id :: "call_event \<Rightarrow> string list" where
  "response_id ev =
     (case ev of
        Incoming msg \<Rightarrow> (case mg_response msg of None \<Rightarrow> [] | Some resp \<Rightarrow> [rs_id resp])
      | _ \<Rightarrow> [])"

definition response_ids :: "call_event list \<Rightarrow> string list" where
  "response_ids evs = concat (map response_id evs)"

lemma response_ids_simps [simp]:
  "response_ids [] = []" "response_ids (ev # evs) = response_id ev @ response_ids evs"
  by (simp_all add: response_ids_def)

text \<open>An event that does not end the call is a late response, which is reported once, or no response at all.\<close>

lemma on_event_goes_on:
  assumes "on_event rid ev s ig = (Inr ig', s')"
  shows "ig' = ig @ response_id ev \<and> set (response_id ev) \<subseteq> ss_late_ids s \<and>
    ss_late_ids s' = ss_late_ids s - set (response_id ev) \<and> ss_late_hook s' = ss_late_hook s @ response_id ev"
  using assms by (cases ev) (auto simp: call_defs response_id_def split: if_splits option.splits)

lemma response_id_one: "distinct (response_id ev)"
  by (cases ev) (auto simp: response_id_def split: option.split)

text \<open>The message \<open>msg\<close> answers the call \<open>rid\<close> with the result \<open>r\<close>.\<close>

definition answered_by :: "string \<Rightarrow> message \<Rightarrow> result \<Rightarrow> bool" where
  "answered_by rid msg r \<longleftrightarrow> mg_runtime_error msg = [] \<and> \<not> mg_err msg \<and>
     (\<exists>resp. mg_response msg = Some resp \<and> rs_id resp = rid \<and> rs_error resp = None \<and> re_payload r = rs_result resp)"

lemma on_event_accept:
  "on_event rid ev s ig = (Inl r, s') \<Longrightarrow> re_status r = ActionAccepted \<Longrightarrow>
   \<exists>msg. ev = Incoming msg \<and> answered_by rid msg r \<and> rid \<notin> ss_late_ids s \<and> s' = s \<and> re_ignored r = ig"
  by (cases ev) (auto simp: call_defs answered_by_def split: if_splits option.splits)

lemma await_accept:
  "await_response rid evs s ig = Some (r, s', rest) \<Longrightarrow> re_status r = ActionAccepted \<Longrightarrow>
   \<exists>before msg. evs = before @ Incoming msg # rest \<and> answered_by rid msg r \<and>
     re_ignored r = ig @ response_ids before \<and> distinct (response_ids before) \<and>
     set (response_ids before) \<subseteq> ss_late_ids s \<and> ss_late_ids s' = ss_late_ids s - set (response_ids before) \<and>
     ss_late_hook s' = ss_late_hook s @ response_ids before \<and> rid \<notin> ss_late_ids s'"
proof (induction rid evs s ig rule: await_response.induct)
  case (2 rid ev evs s ig)
  obtain x t where one: "on_event rid ev s ig = (x, t)" by fastforce
  show ?case
  proof (cases x)
    case (Inl r')
    with one 2(2) have r: "on_event rid ev s ig = (Inl r, s')" "rest = evs" by simp_all
    from on_event_accept [OF r(1) 2(3)] r(2) show ?thesis
      by (intro exI [of _ "[]"]) auto
  next
    case (Inr ig')
    with one 2(2) have "await_response rid evs t ig' = Some (r, s', rest)" by simp
    from 2(1) [OF one [symmetric] Inr this 2(3)] obtain before msg where
      b: "evs = before @ Incoming msg # rest" "answered_by rid msg r" "re_ignored r = ig' @ response_ids before"
        "distinct (response_ids before)" "set (response_ids before) \<subseteq> ss_late_ids t"
        "ss_late_ids s' = ss_late_ids t - set (response_ids before)"
        "ss_late_hook s' = ss_late_hook t @ response_ids before" "rid \<notin> ss_late_ids s'" by blast
    note on = on_event_goes_on [OF one [unfolded Inr]]
    have "distinct (response_ids (ev # before))"
      using b(4,5) on response_id_one [of ev] by auto
    then show ?thesis
      using b on by (intro exI [of _ "ev # before"] exI [of _ msg]) auto
  qed
qed simp

lemma await_well_formed: "await_response rid evs s ig = Some (r, s', rest) \<Longrightarrow> well_formed_result r"
proof (induction rid evs s ig rule: await_response.induct)
  case (2 rid ev evs s ig)
  show ?case
  proof (cases "on_event rid ev s ig")
    case (Pair x t)
    then show ?thesis using 2 by (cases x) (auto dest: on_event_well_formed)
  qed
qed simp

lemma well_formed_failed [simp]: "reason \<noteq> NoReason \<Longrightarrow> well_formed_result (failed reason)"
  by (simp add: failed_def well_formed_result_def)

text \<open>
  C20. A call accepts only a response that carries the id of the request and no error, and only
  while the session has not given that id up: every response that was received before it in the
  call is one whose id an earlier call had given up, each of them is reported as late and ignored
  once, which uses its mark up, and the id of the call is not among the ids still given up when
  its response is accepted. So a call that reuses a given up id ignores the first response with
  that id. The payload is the result of the accepted response. Every other outcome is a
  \<open>no_action\<close> with a reason and without a payload.
\<close>

theorem call_accepts_only_its_response:
  assumes "call req sent evs s = Some (r, s', rest)"
  shows "(re_status r = ActionAccepted \<longrightarrow> sent \<and> re_reason r = NoReason \<and>
      (\<exists>before msg resp. evs = before @ Incoming msg # rest \<and> mg_runtime_error msg = [] \<and> \<not> mg_err msg \<and>
         mg_response msg = Some resp \<and> rs_id resp = cr_id req \<and>
         rs_error resp = None \<and> re_payload r = rs_result resp \<and> re_ignored r = response_ids before) \<and>
      distinct (re_ignored r) \<and> set (re_ignored r) \<subseteq> ss_late_ids s \<and>
      ss_late_ids s' = ss_late_ids s - set (re_ignored r) \<and> ss_late_hook s' = ss_late_hook s @ re_ignored r \<and>
      cr_id req \<notin> ss_late_ids s' \<and> (cr_id req \<in> ss_late_ids s \<longrightarrow> cr_id req \<in> set (re_ignored r))) \<and>
    (re_status r \<noteq> ActionAccepted \<longrightarrow> re_status r = ActionNoAction \<and> re_reason r \<noteq> NoReason \<and>
      re_payload r = RawNone)"
proof -
  have wf: "well_formed_result r"
    using assms by (auto simp: call_def dest: await_well_formed split: sum.splits if_splits)
  show ?thesis
  proof (cases "re_status r = ActionAccepted")
    case True
    then have "sent" "await_response (cr_id req) evs s [] = Some (r, s', rest)"
      using assms by (auto simp: call_def failed_def split: sum.splits if_splits)
    with await_accept [OF this(2) True] wf True show ?thesis
      by (auto simp: answered_by_def well_formed_result_def)
  qed (use wf in \<open>auto simp: well_formed_result_def\<close>)
qed

definition sample_request :: call_request where
  "sample_request = \<lparr>cr_id = ''turn-1-p1'', cr_method = ''turn'', cr_params = None, cr_deadline = 100\<rparr>"

definition sample_response :: "string \<Rightarrow> call_event" where
  "sample_response rid = Incoming \<lparr>mg_response = Some \<lparr>rs_version = version, rs_id = rid,
     rs_result = RawJson JNull, rs_error = None\<rparr>, mg_err = False, mg_runtime_error = []\<rparr>"

text \<open>A call whose id was given up before: the first response is ignored, the second answers.\<close>

lemma sample_reused_call:
  "call sample_request True [sample_response ''turn-1-p1'', sample_response ''turn-1-p1'', TimerFired]
     (new_session\<lparr>ss_late_ids := {''turn-1-p1''}\<rparr>) =
   Some (\<lparr>re_status = ActionAccepted, re_reason = NoReason, re_payload = RawJson JNull,
          re_ignored = [''turn-1-p1''], re_runtime_error = []\<rparr>,
     new_session\<lparr>ss_late_hook := [''turn-1-p1'']\<rparr>, [TimerFired])"
  by (simp add: call_def sample_request_def new_request_def marshal_params_def sample_response_def
      call_defs new_session_def)

theorem call_accepts_only_its_response_witness:
  "\<exists>r s'. call sample_request True [sample_response ''turn-1-p1'', sample_response ''turn-1-p1'', TimerFired]
      (new_session\<lparr>ss_late_ids := {''turn-1-p1''}\<rparr>) = Some (r, s', [TimerFired]) \<and>
    re_status r = ActionAccepted \<and> ''turn-1-p1'' \<notin> ss_late_ids s' \<and> ''turn-1-p1'' \<in> set (re_ignored r) \<and>
    ss_late_hook s' = re_ignored r"
  using call_accepts_only_its_response [OF sample_reused_call] sample_reused_call
  by (simp add: sample_request_def new_session_def)

section \<open>Late responses\<close>

text \<open>
  A call that timed out leaves its id behind: the next response with that id is reported as
  late and dropped instead of answering the call that is waiting, which stays open.
\<close>

theorem timed_out_call_is_fenced:
  assumes "call req True evs s = Some (r, s', rest)" "re_reason r = ReasonTimeout"
    and "mg_response msg = Some resp" "rs_id resp = cr_id req" "mg_runtime_error msg = []" "\<not> mg_err msg"
  shows "cr_id req \<in> ss_late_ids s' \<and>
    await_response rid (Incoming msg # later) s' ig =
      await_response rid later
        (s'\<lparr>ss_late_ids := ss_late_ids s' - {cr_id req}, ss_late_hook := ss_late_hook s' @ [cr_id req]\<rparr>)
        (ig @ [cr_id req])"
proof -
  have late: "await_response rid evs s ig = Some (r, s', rest) \<Longrightarrow> re_reason r = ReasonTimeout \<Longrightarrow>
      rid \<in> ss_late_ids s'" for rid ig
  proof (induction rid evs s ig rule: await_response.induct)
    case (2 rid ev evs s ig)
    have one: "rid \<in> ss_late_ids s'" if "on_event rid ev s ig = (Inl r, s')" "re_reason r = ReasonTimeout"
      using that by (cases ev) (auto simp: call_defs split: if_splits option.splits)
    show ?case
    proof (cases "on_event rid ev s ig")
      case (Pair x t)
      then show ?thesis using 2 one by (cases x) auto
    qed
  qed simp
  have "cr_id req \<in> ss_late_ids s'"
    using assms(1,2) late by (auto simp: call_def failed_def split: sum.splits)
  with assms(3-6) show ?thesis by (simp add: on_event_def)
qed

lemma sample_timeout:
  "call sample_request True [TimerFired] new_session =
   Some (failed ReasonTimeout, new_session\<lparr>ss_late_ids := {''turn-1-p1''}\<rparr>, [])"
  by (simp add: call_def sample_request_def new_request_def marshal_params_def call_defs new_session_def)

theorem timed_out_call_is_fenced_witness:
  "''turn-1-p1'' \<in> ss_late_ids (new_session\<lparr>ss_late_ids := {''turn-1-p1''}\<rparr>) \<and>
   await_response ''turn-2-p1'' [sample_response ''turn-1-p1'', TimerFired]
     (new_session\<lparr>ss_late_ids := {''turn-1-p1''}\<rparr>) [] =
   await_response ''turn-2-p1'' [TimerFired]
     (new_session\<lparr>ss_late_ids := {}, ss_late_hook := [''turn-1-p1'']\<rparr>) [''turn-1-p1'']"
  using timed_out_call_is_fenced [OF sample_timeout, of _ _ "''turn-2-p1''" "[TimerFired]" "[]"]
  by (simp add: failed_def sample_response_def sample_request_def new_session_def)

lemma await_returns:
  "\<exists>ev \<in> set evs. ev = CtxDone \<or> ev = TimerFired \<or> ev = ChannelClosed \<Longrightarrow>
   \<exists>x. await_response rid evs s ig = Some x"
proof (induction evs arbitrary: s ig)
  case (Cons ev evs)
  show ?case
  proof (cases "on_event rid ev s ig")
    case (Pair x t)
    show ?thesis
    proof (cases x)
      case (Inr ig')
      have "decisive rid s ev" if "ev = CtxDone \<or> ev = TimerFired \<or> ev = ChannelClosed"
        using that by (auto simp: decisive_def)
      then have "\<not> (ev = CtxDone \<or> ev = TimerFired \<or> ev = ChannelClosed)"
        using on_event_ends [of rid ev s ig] Pair Inr by auto
      then show ?thesis using Cons Pair Inr by auto
    qed (use Pair in simp)
  qed
qed simp

text \<open>
  A call returns: as soon as the timer of its deadline fires, the context ends or the
  runtime's channel closes, whatever messages came before, it has a result.
\<close>

theorem call_returns:
  assumes "\<exists>ev \<in> set evs. ev = CtxDone \<or> ev = TimerFired \<or> ev = ChannelClosed"
  shows "\<exists>r s' rest. call req sent evs s = Some (r, s', rest)"
  using await_returns [OF assms, of "cr_id req" s "[]"]
  by (auto simp: call_def split: sum.splits)

theorem call_returns_witness:
  "\<exists>r s' rest. call sample_request True [sample_response ''other'', TimerFired] new_session = Some (r, s', rest)"
  using call_returns [of "[sample_response ''other'', TimerFired]" sample_request True new_session] by simp

text \<open>
  A late response can go unreported: when a call ignores a late response and then itself
  times out, its result carries no ignored id, so the runner logs no
  \<open>late_response_ignored\<close> event for it.
\<close>

theorem ignored_late_id_lost_on_timeout:
  "\<exists>s' rest r. await_response ''turn-2-p1'' [sample_response ''turn-1-p1'', TimerFired]
      (new_session\<lparr>ss_late_ids := {''turn-1-p1''}\<rparr>) [] = Some (r, s', rest) \<and>
    ss_late_hook s' = [''turn-1-p1''] \<and> re_reason r = ReasonTimeout \<and> re_ignored r = []"
  by (simp add: call_defs sample_response_def new_session_def)

end
