(* ===== verification/Match.thy ===== *)
theory Match
  imports GameMaster Session Ordering
begin

text \<open>
  The match runner of \<open>internal/platform/match/match.go\<close>: initialisation of the sessions,
  the decision loop, the deferred shutdown, the event log and the final record. Everything
  outside the runner (game master, player sessions, context, observer) acts on a world
  \<open>'w\<close>; the runner is a state record with that world inside, and each method maps it to its
  successor.
\<close>

section \<open>The world outside\<close>

text \<open>
  The goroutines of a simultaneous step run in parallel and are joined before their results
  are read, so \<open>en_turns\<close> answers a whole batch of requests at once: for every position the
  session's result and what \<open>ctx.Err()\<close> said right after it. The interleaving of the batch
  is a choice of the world.
\<close>

record 'w env =
  en_master :: "'w gm_session"
  en_ctx :: "'w \<Rightarrow> go_error option \<times> 'w"
  en_init :: "string \<Rightarrow> json \<Rightarrow> 'w \<Rightarrow> result \<times> 'w"
  en_turns :: "int \<Rightarrow> decision_request list \<Rightarrow> 'w \<Rightarrow> (nat \<Rightarrow> result \<times> go_error option) \<times> 'w"
  en_game_over :: "string \<Rightarrow> json \<Rightarrow> 'w \<Rightarrow> result \<times> 'w"
  en_close :: "string \<Rightarrow> 'w \<Rightarrow> go_error option \<times> 'w"
  en_stderr :: "string \<Rightarrow> 'w \<Rightarrow> stderr_snapshot"
  en_on_event :: "event \<Rightarrow> 'w \<Rightarrow> 'w"
  en_on_exported :: "exported_snapshot \<Rightarrow> 'w \<Rightarrow> 'w"
  en_publishes :: bool      \<comment> \<open>the observer implements \<open>ExportedSnapshotObserver\<close>\<close>
  en_init_deadline :: int
  en_game_over_deadline :: int
  en_marshal_error :: string

text \<open>\<open>configuredInitAckDeadline\<close> and \<open>configuredGameOverAckDeadline\<close>: the variable's value
  and what \<open>time.ParseDuration\<close> makes of it.\<close>

definition default_init_ack_deadline :: int where
  "default_init_ack_deadline = 1500 * ns_per_ms"

definition default_game_over_ack_deadline :: int where
  "default_game_over_ack_deadline = 3000 * ns_per_ms"

definition configured_deadline :: "int \<Rightarrow> string \<Rightarrow> int option \<Rightarrow> int" where
  "configured_deadline dflt var parsed =
     (if var = [] then dflt
      else case parsed of None \<Rightarrow> dflt | Some d \<Rightarrow> if d \<le> 0 then dflt else d)"

record record_ =
  rc_match_id :: string
  rc_game :: game_metadata
  rc_players :: "player list"
  rc_status :: match_status
  rc_result :: match_result
  rc_event_log :: "event list"
  rc_snapshot :: snapshot
  rc_exported :: exported_snapshot
  rc_public_replay :: "public_replay option"

record 'w runner =
  rn_match_id :: string
  rn_players :: "player list"
  rn_events :: "event list"
  rn_next_seq :: int
  rn_last_seen :: "raw gomap"
  rn_last_result :: "action_status gomap"
  rn_phase :: match_status
  rn_status :: match_status
  rn_terminal_err :: "go_error option"
  rn_final_result :: match_result
  rn_final_snapshot :: snapshot
  rn_final_exported :: exported_snapshot
  rn_public_replay :: "public_replay option"
  rn_world :: 'w

definition zero_snapshot :: snapshot where
  "zero_snapshot = \<lparr>sn_match_id = [], sn_game_id = [], sn_game_version = [], sn_ruleset = [],
     sn_turn = 0, sn_status = OtherStatus [], sn_game_state = RawNone, sn_per_player = []\<rparr>"

definition zero_exported :: exported_snapshot where
  "zero_exported = \<lparr>xs_match_id = [], xs_game_id = [], xs_game_version = [], xs_ruleset = [],
     xs_turn = 0, xs_status = OtherStatus [], xs_public_state = RawNone, xs_players = []\<rparr>"

definition new_runner :: "string \<Rightarrow> player list \<Rightarrow> 'w \<Rightarrow> 'w runner" where
  "new_runner match_id players w =
     \<lparr>rn_match_id = match_id, rn_players = players, rn_events = [], rn_next_seq = 0,
      rn_last_seen = [], rn_last_result = [], rn_phase = StatusStarting, rn_status = StatusStarting,
      rn_terminal_err = None, rn_final_result = \<lparr>mr_placements = []\<rparr>,
      rn_final_snapshot = zero_snapshot, rn_final_exported = zero_exported,
      rn_public_replay = None, rn_world = w\<rparr>"

definition resume_player :: "string \<times> player_snapshot \<Rightarrow> 'w runner \<Rightarrow> 'w runner" where
  "resume_player = (\<lambda>(p, ps) r.
     let r1 = (if raw_present (ps_visible ps)
               then r\<lparr>rn_last_seen := put p (ps_visible ps) (rn_last_seen r)\<rparr> else r);
         s = ps_last ps;
         s1 = (if as_player s = [] then s\<lparr>as_player := p\<rparr> else s)
     in if as_decision s1 \<noteq> OtherDecision []
        then r1\<lparr>rn_last_result := put p s1 (rn_last_result r1)\<rparr> else r1)"

definition with_resume_state :: "snapshot \<Rightarrow> 'w runner \<Rightarrow> 'w runner" where
  "with_resume_state sn r = fold resume_player (sn_per_player sn) r"

section \<open>Events\<close>

definition must_marshal_payload :: "'w env \<Rightarrow> string \<Rightarrow> json option \<Rightarrow> raw" where
  "must_marshal_payload env ty j =
     (case j of
        Some v \<Rightarrow> RawJson v
      | None \<Rightarrow> RawJson (JObj [(''marshal_error'', JStr (en_marshal_error env)), (''payload_type'', JStr ty)]))"

definition append_event ::
  "'w env \<Rightarrow> string \<Rightarrow> int \<Rightarrow> string \<Rightarrow> string \<Rightarrow> json option \<Rightarrow> 'w runner \<Rightarrow> 'w runner" where
  "append_event env kind turn player ty payload r =
     (let seq = rn_next_seq r + 1;
          ev = \<lparr>ev_seq = seq, ev_kind = kind, ev_turn = turn, ev_player = player,
                ev_payload = must_marshal_payload env ty payload\<rparr>
      in r\<lparr>rn_next_seq := seq, rn_events := rn_events r @ [ev], rn_world := en_on_event env ev (rn_world r)\<rparr>)"

text \<open>A \<open>map[string]any\<close> payload and the struct payloads.\<close>

abbreviation append_map_event ::
  "'w env \<Rightarrow> string \<Rightarrow> int \<Rightarrow> string \<Rightarrow> (string \<times> json) list \<Rightarrow> 'w runner \<Rightarrow> 'w runner" where
  "append_map_event env kind turn player kvs \<equiv>
     append_event env kind turn player ''map[string]interface {}'' (Some (JObj kvs))"

definition enc_metadata :: "game_metadata \<Rightarrow> json" where
  "enc_metadata g = JObj [(''game_id'', JStr (gm_game_id g)), (''game_version'', JStr (gm_game_version g)),
     (''ruleset_version'', JStr (gm_ruleset g))]"

definition enc_player :: "player \<Rightarrow> json" where
  "enc_player p = JObj [(''player_id'', JStr (pl_id p)), (''ai_id'', JStr (pl_ai p))]"

definition enc_match_result :: "match_result \<Rightarrow> json" where
  "enc_match_result r = JObj [(''placements'',
     (if mr_placements r = [] then JNull
      else JArr (map (\<lambda>x. JObj [(''player_id'', JStr (pc_player x)), (''place'', JInt (pc_place x))])
                     (mr_placements r))))]"

fun status_str :: "match_status \<Rightarrow> string" where
  "status_str StatusStarting = ''starting''"
| "status_str StatusInitializing = ''initializing''"
| "status_str StatusRunning = ''running''"
| "status_str StatusFinishing = ''finishing''"
| "status_str StatusCompleted = ''completed''"
| "status_str StatusFailed = ''failed''"
| "status_str StatusCanceled = ''canceled''"
| "status_str (OtherStatus s) = s"

text \<open>\<open>session.Result\<close> has no field tags.\<close>

definition enc_result :: "result \<Rightarrow> json option" where
  "enc_result r =
     map_option (\<lambda>p. JObj
       [(''Status'', JStr (decision_str (re_status r))), (''FailureReason'', JStr (reason_str (re_reason r))),
        (''Payload'', p),
        (''IgnoredLateResponseIDs'', if re_ignored r = [] then JNull else JArr (map JStr (re_ignored r))),
        (''RuntimeError'', JStr (re_runtime_error r))])
       (enc_raw (re_payload r))"

definition err_string :: "go_error option \<Rightarrow> string" where
  "err_string e = (case e of None \<Rightarrow> [] | Some e \<Rightarrow> ge_text e)"

definition append_runtime_exited ::
  "'w env \<Rightarrow> int \<Rightarrow> string \<Rightarrow> string \<Rightarrow> json option \<Rightarrow> 'w runner \<Rightarrow> 'w runner" where
  "append_runtime_exited env turn p ty payload = append_event env ''runtime_exited'' turn p ty payload"

definition append_runtime_diagnostic :: "'w env \<Rightarrow> int \<Rightarrow> string \<Rightarrow> result \<Rightarrow> 'w runner \<Rightarrow> 'w runner" where
  "append_runtime_diagnostic env turn p res r =
     (if re_runtime_error res = [] then r
      else let st = en_stderr env p (rn_world r) in
        append_map_event env ''runtime_diagnostic'' turn p
          [(''exit_cause'', JStr (re_runtime_error res)), (''stderr'', JStr (se_output st)),
           (''truncated'', JBool (se_truncated st))] r)"

section \<open>Calls into the world\<close>

text \<open>Run an operation of the world and keep the runner in step with it.\<close>

definition ask :: "('w \<Rightarrow> 'a \<times> 'w) \<Rightarrow> 'w runner \<Rightarrow> 'a \<times> 'w runner" where
  "ask op r = (case op (rn_world r) of (x, w) \<Rightarrow> (x, r\<lparr>rn_world := w\<rparr>))"

definition publish_exported :: "'w env \<Rightarrow> 'w runner \<Rightarrow> 'w runner" where
  "publish_exported env r =
     (if \<not> en_publishes env then r
      else case ask (gs_exported (en_master env)) r of
        (Inl _, r1) \<Rightarrow> r1
      | (Inr xs, r1) \<Rightarrow> r1\<lparr>rn_world := en_on_exported env xs (rn_world r1)\<rparr>)"

section \<open>Initialisation\<close>

definition init_params :: "'w env \<Rightarrow> string \<Rightarrow> game_metadata \<Rightarrow> string \<Rightarrow> raw \<Rightarrow> json option" where
  "init_params env match_id meta p state =
     map_option (\<lambda>st. JObj
       [(''match_id'', JStr match_id), (''player_id'', JStr p), (''game_id'', JStr (gm_game_id meta)),
        (''game_version'', JStr (gm_game_version meta)), (''ruleset_version'', JStr (gm_ruleset meta)),
        (''deadline_ms'', JInt (marshal_deadline (en_init_deadline env))), (''state'', st)])
       (enc_raw state)"

text \<open>The \<open>%q\<close> verb, for text without characters it would escape.\<close>

definition quoted :: "string \<Rightarrow> string" where
  "quoted s = [CHR 0x22] @ s @ [CHR 0x22]"

definition plain_error :: "string \<Rightarrow> go_error" where
  "plain_error text = \<lparr>ge_text = text, ge_ctx = False\<rparr>"

text \<open>
  A session that cannot encode its request reports it malformed without calling the runtime.
\<close>

fun init_players ::
  "'w env \<Rightarrow> game_metadata \<Rightarrow> init_state \<Rightarrow> player list \<Rightarrow> 'w runner \<Rightarrow> go_error option \<times> 'w runner" where
  "init_players env meta st [] r = (None, r)"
| "init_players env meta st (pl # pls) r =
     (let p = pl_id pl;
          (res, r1) = (case init_params env (rn_match_id r) meta p (getd RawNone (is_per_player st) p) of
              Some params \<Rightarrow> ask (en_init env p params) r
            | None \<Rightarrow> (failed ReasonMalformed, r));
          r2 = append_event env ''session_initialized'' 0 p ''session.Result'' (enc_result res) r1;
          (ctx_err, r3) = ask (en_ctx env) r2
      in case ctx_err of
           Some e \<Rightarrow> (Some e, r3)
         | None \<Rightarrow>
             let r4 = (if re_reason res = ReasonRuntimeStop
                       then append_runtime_exited env 0 p ''map[string]interface {}''
                              (Some (JObj [(''stage'', JStr ''init'')]))
                              (append_runtime_diagnostic env 0 p res r3)
                       else r3)
             in if re_status res \<noteq> ActionAccepted
                then (Some (plain_error (''init failed for '' @ p @ '': '' @ reason_str (re_reason res))),
                      append_map_event env ''session_initialization_failed'' 0 p
                        [(''reason'', JStr (reason_str (re_reason res)))] r4)
                else init_players env meta st pls r4)"

definition initialize_sessions ::
  "'w env \<Rightarrow> game_metadata \<Rightarrow> 'w runner \<Rightarrow> go_error option \<times> 'w runner" where
  "initialize_sessions env meta r =
     (let r0 = r\<lparr>rn_phase := StatusInitializing\<rparr> in
      case ask (gs_init (en_master env)) r0 of
        (Inl e, r1) \<Rightarrow>
          (Some e, append_map_event env ''game_master_initialization_failed'' 0 []
             [(''error'', JStr (ge_text e))] r1)
      | (Inr st, r1) \<Rightarrow>
          let r2 = append_map_event env ''game_master_initialized'' 0 [] [(''game'', enc_metadata meta)] r1 in
          (case init_players env meta st (rn_players r2) r2 of
             (Some e, r3) \<Rightarrow> (Some e, r3)
           | (None, r3) \<Rightarrow> (None, publish_exported env r3)))"

section \<open>Turns\<close>

definition prepare_turn :: "'w env \<Rightarrow> int \<Rightarrow> decision_request \<Rightarrow> 'w runner \<Rightarrow> 'w runner" where
  "prepare_turn env turn req r =
     append_event env ''turn_requested'' turn (rq_player req) ''gamemaster.DecisionRequest''
       (enc_decision_request req)
       (r\<lparr>rn_last_seen := put (rq_player req) (rq_visible req) (rn_last_seen r)\<rparr>)"

record turn_execution =
  te_request :: decision_request
  te_result :: result
  te_status :: action_status
  te_err :: "go_error option"

definition execution :: "decision_request \<Rightarrow> result \<times> go_error option \<Rightarrow> turn_execution" where
  "execution req = (\<lambda>(res, ctx_err).
     \<lparr>te_request = req, te_result = res,
      te_status = \<lparr>as_player = rq_player req, as_decision = re_status res,
                   as_reason = re_reason res, as_action = re_payload res\<rparr>,
      te_err = ctx_err\<rparr>)"

definition execute_turns ::
  "'w env \<Rightarrow> int \<Rightarrow> decision_request list \<Rightarrow> 'w runner \<Rightarrow> turn_execution list \<times> 'w runner" where
  "execute_turns env turn reqs r =
     (case ask (en_turns env turn reqs) r of
        (outcome, r1) \<Rightarrow> (map (\<lambda>(i, req). execution req (outcome i)) (enumerate 0 reqs), r1))"

definition record_turn :: "'w env \<Rightarrow> int \<Rightarrow> turn_execution \<Rightarrow> 'w runner \<Rightarrow> 'w runner" where
  "record_turn env turn ex r =
     (let p = rq_player (te_request ex); s = te_status ex;
          r1 = r\<lparr>rn_last_result := put p s (rn_last_result r)\<rparr>;
          r2 = fold (\<lambda>late. append_map_event env ''late_response_ignored'' turn p [(''response_id'', JStr late)])
                 (re_ignored (te_result ex)) r1;
          status_event = (\<lambda>kind. append_event env kind turn p ''gamemaster.ActionStatus'' (enc_action_status s))
      in case re_reason (te_result ex) of
           NoReason \<Rightarrow> status_event ''turn_result'' r2
         | ReasonTimeout \<Rightarrow> status_event ''turn_timeout'' r2
         | ReasonRuntimeStop \<Rightarrow>
             append_runtime_exited env turn p ''gamemaster.ActionStatus'' (enc_action_status s)
               (append_runtime_diagnostic env turn p (te_result ex) r2)
         | _ \<Rightarrow> status_event ''protocol_error'' r2)"

fun settle_turns ::
  "'w env \<Rightarrow> int \<Rightarrow> turn_execution list \<Rightarrow> 'w runner \<Rightarrow> (go_error + action_status list) \<times> 'w runner" where
  "settle_turns env turn [] r = (Inr [], r)"
| "settle_turns env turn (ex # exs) r =
     (case te_err ex of
        Some e \<Rightarrow> (Inl e, r)
      | None \<Rightarrow>
          (case ask (gs_normalize (en_master env) (te_request ex) (te_status ex)) r of
             (Inl e, r1) \<Rightarrow> (Inl e, r1)
           | (Inr s, r1) \<Rightarrow>
               (case settle_turns env turn exs (record_turn env turn (ex\<lparr>te_status := s\<rparr>) r1) of
                  (Inl e, r2) \<Rightarrow> (Inl e, r2)
                | (Inr ss, r2) \<Rightarrow> (Inr (s # ss), r2))))"

text \<open>
  A step, after its mode was found to be supported: a sequential one has one request and
  takes the same path as a batch of one.
\<close>

definition run_step :: "'w env \<Rightarrow> decision_step \<Rightarrow> 'w runner \<Rightarrow> go_error option \<times> 'w runner" where
  "run_step env step r =
     (let r1 = fold (prepare_turn env (st_turn step)) (st_requests step) r;
          (exs, r2) = execute_turns env (st_turn step) (st_requests step) r1
      in case settle_turns env (st_turn step) exs r2 of
           (Inl e, r3) \<Rightarrow> (Some e, r3)
         | (Inr ss, r3) \<Rightarrow>
             (case ask (gs_apply (en_master env) step ss) r3 of
                (Some e, r4) \<Rightarrow> (Some e, r4)
              | (None, r4) \<Rightarrow> (None, publish_exported env r4)))"

section \<open>The decision loop\<close>

datatype loop_end = LoopDone | LoopFailed go_error | OutOfFuel

definition one_step :: "'w env \<Rightarrow> 'w runner \<Rightarrow> loop_end option \<times> 'w runner" where
  "one_step env r =
     (case ask (en_ctx env) r of
        (Some e, r1) \<Rightarrow> (Some (LoopFailed e), r1)
      | (None, r1) \<Rightarrow>
          (case ask (gs_next (en_master env)) r1 of
             (Inl e, r2) \<Rightarrow> (Some (LoopFailed e), r2)
           | (Inr None, r2) \<Rightarrow> (Some LoopDone, r2)
           | (Inr (Some step), r2) \<Rightarrow>
               if st_mode step = Simultaneous \<or> st_mode step = Sequential \<and> length (st_requests step) = 1 then
                 (case run_step env step r2 of
                    (Some e, r3) \<Rightarrow> (Some (LoopFailed e), r3)
                  | (None, r3) \<Rightarrow> (None, r3))
               else if st_mode step = Sequential then
                 (Some (LoopFailed (plain_error
                    (''sequential step must contain exactly one request, got '' @
                     itoa (int (length (st_requests step)))))), r2)
               else
                 (Some (LoopFailed (plain_error (''unsupported decision mode '' @ quoted (mode_str (st_mode step))))), r2)))"

fun decision_loop :: "'w env \<Rightarrow> nat \<Rightarrow> 'w runner \<Rightarrow> loop_end \<times> 'w runner" where
  "decision_loop env 0 r = (OutOfFuel, r)"
| "decision_loop env (Suc n) r =
     (case one_step env r of
        (Some e, r1) \<Rightarrow> (e, r1)
      | (None, r1) \<Rightarrow> decision_loop env n r1)"

section \<open>Shutdown\<close>

definition fail :: "go_error \<Rightarrow> 'w runner \<Rightarrow> 'w runner" where
  "fail e r = r\<lparr>rn_phase := StatusFailed, rn_status := StatusFailed, rn_terminal_err := Some e\<rparr>"

definition cancel :: "go_error \<Rightarrow> 'w runner \<Rightarrow> 'w runner" where
  "cancel e r = r\<lparr>rn_phase := StatusCanceled, rn_status := StatusCanceled, rn_terminal_err := Some e\<rparr>"

definition classify_terminal_error :: "'w env \<Rightarrow> go_error \<Rightarrow> 'w runner \<Rightarrow> go_error \<times> 'w runner" where
  "classify_terminal_error env e r =
     (case ask (en_ctx env) r of
        (Some ce, r1) \<Rightarrow> (ce, cancel ce r1)
      | (None, r1) \<Rightarrow> (e, (if ge_ctx e then cancel e r1 else fail e r1)))"

definition capture_replay :: "'w env \<Rightarrow> 'w runner \<Rightarrow> 'w runner" where
  "capture_replay env r =
     (if rn_status r \<noteq> StatusCompleted then r
      else case ask (gs_replay (en_master env)) r of
        (Some (Inr rp), r1) \<Rightarrow>
          if rp_format rp \<noteq> [] \<and> rp_version rp \<noteq> [] \<and> raw_present (rp_payload rp)
          then r1\<lparr>rn_public_replay := Some rp\<rparr> else r1
      | (_, r1) \<Rightarrow> r1)"

definition capture_final_state :: "'w env \<Rightarrow> 'w runner \<Rightarrow> go_error option \<times> 'w runner" where
  "capture_final_state env r =
     (case ask (gs_snapshot (en_master env)) r of
        (Inl e, r1) \<Rightarrow> (Some e, r1)
      | (Inr sn, r1) \<Rightarrow>
          (case ask (gs_exported (en_master env)) r1 of
             (Inl e, r2) \<Rightarrow> (Some e, r2)
           | (Inr xs, r2) \<Rightarrow>
               (case ask (gs_result (en_master env)) r2 of
                  (Inl e, r3) \<Rightarrow> (Some e, r3)
                | (Inr res, r3) \<Rightarrow>
                    (None, capture_replay env
                       (r3\<lparr>rn_final_snapshot := sn, rn_final_exported := xs, rn_final_result := res\<rparr>)))))"

definition visible_state_for_player :: "'w runner \<Rightarrow> string \<Rightarrow> raw" where
  "visible_state_for_player r p =
     (let v = ps_visible (getd zero_player_snapshot (sn_per_player (rn_final_snapshot r)) p)
      in if raw_present v then v else getd RawNone (rn_last_seen r) p)"

definition game_over_params :: "'w env \<Rightarrow> 'w runner \<Rightarrow> string \<Rightarrow> json option" where
  "game_over_params env r p =
     map_option (\<lambda>v. JObj
       [(''match_id'', JStr (rn_match_id r)), (''final_visible_state'', v),
        (''summary'', enc_match_result (rn_final_result r)),
        (''shutdown_after_ms'', JInt (marshal_deadline (en_game_over_deadline env)))])
       (enc_raw (visible_state_for_player r p))"

definition game_over :: "'w env \<Rightarrow> string \<Rightarrow> 'w runner \<Rightarrow> 'w runner" where
  "game_over env p r =
     (let (res, r1) = (case game_over_params env r p of
              Some params \<Rightarrow> ask (en_game_over env p params) r
            | None \<Rightarrow> (failed ReasonMalformed, r));
          r2 = (if re_reason res = ReasonRuntimeStop
                then append_runtime_exited env 0 p ''map[string]interface {}''
                       (Some (JObj [(''stage'', JStr ''game_over'')]))
                       (append_runtime_diagnostic env 0 p res r1)
                else r1)
      in if re_status res \<noteq> ActionAccepted
         then append_map_event env ''session_shutdown_failed'' 0 p
                [(''failure_reason'', JStr (reason_str (re_reason res))), (''stage'', JStr ''game_over'')] r2
         else append_map_event env ''game_over_sent'' 0 p
                [(''match_id'', JStr (rn_match_id r2)),
                 (''shutdown_after_ms'', JInt (marshal_deadline (en_game_over_deadline env)))] r2)"

definition shutdown_session :: "'w env \<Rightarrow> string \<Rightarrow> 'w runner \<Rightarrow> 'w runner" where
  "shutdown_session env p r =
     (let r1 = (if rn_status r = StatusCompleted then game_over env p r else r);
          r2 = append_map_event env ''session_shutdown_started'' 0 p [(''phase'', JStr (status_str (rn_phase r1)))] r1
      in case ask (en_close env p) r2 of
           (Some e, r3) \<Rightarrow>
             append_map_event env ''session_shutdown_failed'' 0 p
               [(''error'', JStr (ge_text e)), (''stage'', JStr ''close'')]
               (append_runtime_exited env 0 p ''map[string]interface {}''
                  (Some (JObj [(''error'', JStr (ge_text e)), (''stage'', JStr ''shutdown'')])) r3)
         | (None, r3) \<Rightarrow>
             append_map_event env ''session_shutdown_completed'' 0 p [(''phase'', JStr (status_str (rn_phase r3)))] r3)"

definition shutdown_sessions :: "'w env \<Rightarrow> 'w runner \<Rightarrow> 'w runner" where
  "shutdown_sessions env r = fold (\<lambda>pl. shutdown_session env (pl_id pl)) (rn_players r) r"

definition shutdown_game_master :: "'w env \<Rightarrow> 'w runner \<Rightarrow> 'w runner" where
  "shutdown_game_master env r =
     (let r1 = append_map_event env ''game_master_shutdown_started'' 0 []
            [(''phase'', JStr (status_str (rn_phase r)))] r
      in case ask (gs_shutdown (en_master env)) r1 of
           (Some e, r2) \<Rightarrow>
             append_map_event env ''game_master_shutdown_failed'' 0 [] [(''error'', JStr (ge_text e))] r2
         | (None, r2) \<Rightarrow>
             append_map_event env ''game_master_shutdown_completed'' 0 []
               [(''phase'', JStr (status_str (rn_phase r2)))] r2)"

definition emit_terminal_event :: "'w env \<Rightarrow> 'w runner \<Rightarrow> 'w runner" where
  "emit_terminal_event env r =
     (let turn = sn_turn (rn_final_snapshot r) in
      case rn_status r of
        StatusCompleted \<Rightarrow>
          append_event env ''match_completed'' turn [] ''gamemaster.MatchResult''
            (Some (enc_match_result (rn_final_result r))) (r\<lparr>rn_phase := StatusCompleted\<rparr>)
      | StatusCanceled \<Rightarrow>
          append_map_event env ''match_canceled'' turn [] [(''error'', JStr (err_string (rn_terminal_err r)))] r
      | StatusFailed \<Rightarrow>
          append_map_event env ''match_failed'' turn [] [(''error'', JStr (err_string (rn_terminal_err r)))] r
      | _ \<Rightarrow>
          append_map_event env ''match_failed'' turn []
            [(''error'', JStr ''match terminated without explicit status'')]
            (r\<lparr>rn_phase := StatusFailed, rn_status := StatusFailed\<rparr>))"

section \<open>The record\<close>

definition record_player_snapshot :: "'w env \<Rightarrow> 'w runner \<Rightarrow> player \<Rightarrow> player_snapshot" where
  "record_player_snapshot env r pl =
     \<lparr>ps_visible = visible_state_for_player r (pl_id pl),
      ps_last = getd zero_status (rn_last_result r) (pl_id pl),
      ps_stderr_bytes = se_bytes_read (en_stderr env (pl_id pl) (rn_world r))\<rparr>"

definition build_record :: "'w env \<Rightarrow> game_metadata \<Rightarrow> 'w runner \<Rightarrow> record_" where
  "build_record env meta r =
     (let sn = rn_final_snapshot r;
          sn1 = sn\<lparr>sn_match_id := rn_match_id r, sn_status := rn_status r,
                   sn_per_player := put_all pl_id (record_player_snapshot env r) (rn_players r) (sn_per_player sn)\<rparr>;
          xs = rn_final_exported r;
          players = (if xs_players xs = []
            then sort_slice (\<lambda>a b. xp_player a < xp_player b)
              (map (\<lambda>pl. \<lparr>xp_player = pl_id pl, xp_last = getd zero_status (rn_last_result r) (pl_id pl)\<rparr>)
                   (rn_players r))
            else xs_players xs)
      in \<lparr>rc_match_id = rn_match_id r, rc_game = meta, rc_players = rn_players r,
          rc_status = rn_status r, rc_result = rn_final_result r, rc_event_log = rn_events r,
          rc_snapshot = sn1,
          rc_exported = xs\<lparr>xs_match_id := rn_match_id r, xs_status := rn_status r, xs_players := players\<rparr>,
          rc_public_replay = rn_public_replay r\<rparr>)"

section \<open>The whole run\<close>

definition match_started :: "'w env \<Rightarrow> game_metadata \<Rightarrow> 'w runner \<Rightarrow> 'w runner" where
  "match_started env meta r =
     append_map_event env ''match_started'' 0 []
       [(''game'', enc_metadata meta), (''match_id'', JStr (rn_match_id r)),
        (''players'', (if rn_players r = [] then JNull else JArr (map enc_player (rn_players r))))] r"

definition finish_run :: "'w env \<Rightarrow> game_metadata \<Rightarrow> 'w runner \<Rightarrow> record_ \<times> 'w runner" where
  "finish_run env meta r =
     (let (err, r1) = capture_final_state env r;
          r2 = (case err of
              Some e \<Rightarrow>
                if rn_terminal_err r1 = None then
                  (let r' = r1\<lparr>rn_terminal_err := Some e\<rparr>
                   in if rn_status r' = StatusCompleted
                      then r'\<lparr>rn_phase := StatusFailed, rn_status := StatusFailed\<rparr> else r')
                else r1
            | None \<Rightarrow> r1);
          r3 = emit_terminal_event env (shutdown_game_master env (shutdown_sessions env r2))
      in (build_record env meta r3, r3))"

text \<open>
  \<open>None\<close> is a decision loop that has not ended within the fuel. The first component is the
  error \<open>Run\<close> returns.
\<close>

definition run :: "'w env \<Rightarrow> nat \<Rightarrow> 'w runner \<Rightarrow> (go_error option \<times> record_ \<times> 'w runner) option" where
  "run env fuel r0 =
     (let meta = gs_metadata (en_master env) (rn_world r0);
          r1 = match_started env meta r0
      in case initialize_sessions env meta r1 of
           (Some e, r2) \<Rightarrow>
             (case classify_terminal_error env e r2 of
                (e', r3) \<Rightarrow> Some (Some e', finish_run env meta r3))
         | (None, r2) \<Rightarrow>
             (case decision_loop env fuel (r2\<lparr>rn_phase := StatusRunning\<rparr>) of
                (OutOfFuel, _) \<Rightarrow> None
              | (LoopFailed e, r3) \<Rightarrow>
                  (case classify_terminal_error env e r3 of
                     (e', r4) \<Rightarrow> Some (Some e', finish_run env meta r4))
              | (LoopDone, r3) \<Rightarrow>
                  Some (None, finish_run env meta
                     (r3\<lparr>rn_phase := StatusFinishing, rn_status := StatusCompleted\<rparr>))))"

end
