(* ===== verification/Match_Log.thy ===== *)
theory Match_Log
  imports Match
begin

text \<open>
  The event log and the final status of a run: every method of the runner only appends
  events with consecutive sequence numbers, and exactly one terminal event, which agrees
  with the status of the record, ends the log.
\<close>

section \<open>Growing logs\<close>

definition terminal_kinds :: "string set" where
  "terminal_kinds = {''match_completed'', ''match_failed'', ''match_canceled''}"

definition grows :: "'w runner \<Rightarrow> 'w runner \<Rightarrow> bool" where
  "grows r r' \<longleftrightarrow>
     (\<exists>evs. rn_events r' = rn_events r @ evs \<and> rn_next_seq r' = rn_next_seq r + int (length evs) \<and>
        map ev_seq evs = [rn_next_seq r + 1..rn_next_seq r'] \<and>
        (\<forall>ev \<in> set evs. ev_kind ev \<notin> terminal_kinds)) \<and>
     rn_match_id r' = rn_match_id r \<and> rn_players r' = rn_players r"

lemma grows_refl [simp]: "grows r r"
  by (simp add: grows_def)

lemma upto_glue: "i \<le> j + 1 \<Longrightarrow> j \<le> k \<Longrightarrow> [i..j] @ [j + 1..k] = [i..k]" for i j k :: int
proof (cases "i \<le> j")
  case False
  assume "i \<le> j + 1"
  with False have "i = j + 1" by simp
  then show ?thesis by simp
qed (simp add: upto_split2 [of i j k])

lemma grows_trans [trans]:
  assumes "grows r s" "grows s t"
  shows "grows r t"
proof -
  from assms obtain a b where
    a: "rn_events s = rn_events r @ a" "rn_next_seq s = rn_next_seq r + int (length a)"
      "map ev_seq a = [rn_next_seq r + 1..rn_next_seq s]" "\<forall>ev \<in> set a. ev_kind ev \<notin> terminal_kinds" and
    b: "rn_events t = rn_events s @ b" "rn_next_seq t = rn_next_seq s + int (length b)"
      "map ev_seq b = [rn_next_seq s + 1..rn_next_seq t]" "\<forall>ev \<in> set b. ev_kind ev \<notin> terminal_kinds"
    unfolding grows_def by auto
  have "[rn_next_seq r + 1..rn_next_seq s] @ [rn_next_seq s + 1..rn_next_seq t] =
      [rn_next_seq r + 1..rn_next_seq t]"
    using a(2) b(2) by (intro upto_glue) auto
  then have "map ev_seq (a @ b) = [rn_next_seq r + 1..rn_next_seq t]" using a(3) b(3) by simp
  with a b assms show ?thesis
    unfolding grows_def by (intro conjI exI [of _ "a @ b"]) auto
qed

lemma grows_log: "grows r r' \<Longrightarrow> map ev_seq (rn_events r) = [1..rn_next_seq r] \<Longrightarrow> 0 \<le> rn_next_seq r \<Longrightarrow>
  map ev_seq (rn_events r') = [1..rn_next_seq r'] \<and> 0 \<le> rn_next_seq r'"
  by (auto simp: grows_def upto_glue)

lemma append_event_grows:
  "kind \<notin> terminal_kinds \<Longrightarrow> grows r (append_event env kind turn p ty payload r)"
  by (simp add: grows_def append_event_def Let_def)

lemma grows_update [simp]:
  "grows r (r'\<lparr>rn_last_seen := a\<rparr>) = grows r r'" "grows r (r'\<lparr>rn_last_result := b\<rparr>) = grows r r'"
  "grows r (r'\<lparr>rn_phase := c\<rparr>) = grows r r'" "grows r (r'\<lparr>rn_status := c\<rparr>) = grows r r'"
  "grows r (r'\<lparr>rn_terminal_err := d\<rparr>) = grows r r'" "grows r (r'\<lparr>rn_final_result := e\<rparr>) = grows r r'"
  "grows r (r'\<lparr>rn_final_snapshot := f\<rparr>) = grows r r'" "grows r (r'\<lparr>rn_final_exported := g\<rparr>) = grows r r'"
  "grows r (r'\<lparr>rn_public_replay := h\<rparr>) = grows r r'" "grows r (r'\<lparr>rn_world := w\<rparr>) = grows r r'"
  by (simp_all add: grows_def)

lemma grows_append:
  "kind \<notin> terminal_kinds \<Longrightarrow> grows r r' \<Longrightarrow> grows r (append_event env kind turn p ty payload r')"
  using append_event_grows grows_trans by blast

lemma ask_eq: "ask op r = (x, r') \<Longrightarrow> \<exists>w. r' = r\<lparr>rn_world := w\<rparr>"
  by (auto simp: ask_def split: prod.splits)

lemma ask_grows: "ask op r = (x, r') \<Longrightarrow> grows s r \<Longrightarrow> grows s r'"
  by (auto dest: ask_eq)

text \<open>The status, the terminal error and the final fields are left alone while events are logged.\<close>

definition same_outcome :: "'w runner \<Rightarrow> 'w runner \<Rightarrow> bool" where
  "same_outcome r r' \<longleftrightarrow> rn_status r' = rn_status r \<and> rn_terminal_err r' = rn_terminal_err r \<and>
     rn_final_snapshot r' = rn_final_snapshot r \<and> rn_final_result r' = rn_final_result r \<and>
     rn_final_exported r' = rn_final_exported r \<and> rn_public_replay r' = rn_public_replay r"

lemma same_outcome_simps [simp]:
  "same_outcome r r"
  "same_outcome r (r'\<lparr>rn_last_seen := a\<rparr>) = same_outcome r r'"
  "same_outcome r (r'\<lparr>rn_last_result := b\<rparr>) = same_outcome r r'"
  "same_outcome r (r'\<lparr>rn_phase := c\<rparr>) = same_outcome r r'"
  "same_outcome r (r'\<lparr>rn_world := w\<rparr>) = same_outcome r r'"
  "same_outcome r (append_event env kind turn p ty payload r') = same_outcome r r'"
  by (simp_all add: same_outcome_def append_event_def Let_def)

definition logs :: "'w runner \<Rightarrow> 'w runner \<Rightarrow> bool" where
  "logs r r' \<longleftrightarrow> grows r r' \<and> same_outcome r r'"

lemma logs_refl [simp]: "logs r r"
  by (simp add: logs_def)

lemma logs_trans [trans]: "logs r s \<Longrightarrow> logs s t \<Longrightarrow> logs r t"
  unfolding logs_def by (auto intro: grows_trans simp: same_outcome_def)

lemma logs_update [simp]:
  "logs r (r'\<lparr>rn_last_seen := a\<rparr>) = logs r r'" "logs r (r'\<lparr>rn_last_result := b\<rparr>) = logs r r'"
  "logs r (r'\<lparr>rn_phase := c\<rparr>) = logs r r'" "logs r (r'\<lparr>rn_world := w\<rparr>) = logs r r'"
  by (simp_all add: logs_def)

lemma logs_append:
  "kind \<notin> terminal_kinds \<Longrightarrow> logs r r' \<Longrightarrow> logs r (append_event env kind turn p ty payload r')"
  by (simp add: logs_def grows_append)

lemma logs_ask: "ask op r = (x, r') \<Longrightarrow> logs s r \<Longrightarrow> logs s r'"
  by (auto dest: ask_eq)

lemma logs_fold: "(\<And>x r. x \<in> set xs \<Longrightarrow> logs r (f x r)) \<Longrightarrow> logs r (fold f xs r)"
  by (induction xs arbitrary: r) (auto intro: logs_trans)

text \<open>None of the kinds the runner logs before the end is terminal.\<close>

lemma plain_kinds [simp]:
  "''match_started'' \<notin> terminal_kinds" "''runtime_exited'' \<notin> terminal_kinds"
  "''runtime_diagnostic'' \<notin> terminal_kinds" "''session_initialized'' \<notin> terminal_kinds"
  "''session_initialization_failed'' \<notin> terminal_kinds"
  "''game_master_initialization_failed'' \<notin> terminal_kinds"
  "''game_master_initialized'' \<notin> terminal_kinds" "''turn_requested'' \<notin> terminal_kinds"
  "''late_response_ignored'' \<notin> terminal_kinds" "''turn_result'' \<notin> terminal_kinds"
  "''turn_timeout'' \<notin> terminal_kinds" "''protocol_error'' \<notin> terminal_kinds"
  "''session_shutdown_failed'' \<notin> terminal_kinds" "''game_over_sent'' \<notin> terminal_kinds"
  "''session_shutdown_started'' \<notin> terminal_kinds" "''session_shutdown_completed'' \<notin> terminal_kinds"
  "''game_master_shutdown_started'' \<notin> terminal_kinds" "''game_master_shutdown_failed'' \<notin> terminal_kinds"
  "''game_master_shutdown_completed'' \<notin> terminal_kinds"
  by (simp_all add: terminal_kinds_def)

section \<open>The methods only log\<close>

lemma runtime_exited_logs: "logs r r' \<Longrightarrow> logs r (append_runtime_exited env turn p ty payload r')"
  by (simp add: append_runtime_exited_def logs_append)

lemma runtime_diagnostic_logs: "logs r r' \<Longrightarrow> logs r (append_runtime_diagnostic env turn p res r')"
  by (simp add: append_runtime_diagnostic_def Let_def logs_append)

lemma publish_logs: "logs r r' \<Longrightarrow> logs r (publish_exported env r')"
  by (auto simp: publish_exported_def dest: logs_ask split: sum.split prod.split)

lemmas logs_intros = logs_append runtime_exited_logs runtime_diagnostic_logs publish_logs

lemma init_players_logs: "init_players env meta st pls r = (e, r') \<Longrightarrow> logs r r'"
proof (induction pls arbitrary: r)
  case (Cons pl pls)
  obtain res r1 where call: "(case init_params env (rn_match_id r) meta (pl_id pl) (getd RawNone (is_per_player st) (pl_id pl)) of
      Some params \<Rightarrow> ask (en_init env (pl_id pl) params) r | None \<Rightarrow> (failed ReasonMalformed, r)) = (res, r1)"
    by fastforce
  then have l1: "logs r r1" by (auto dest: logs_ask [where s = r] split: option.splits)
  define r2 where "r2 = append_event env ''session_initialized'' 0 (pl_id pl) ''session.Result'' (enc_result res) r1"
  have l2: "logs r r2" using l1 by (simp add: r2_def logs_append)
  obtain ce r3 where ctx: "ask (en_ctx env) r2 = (ce, r3)" by fastforce
  have l3: "logs r r3" by (rule logs_ask [OF ctx l2])
  show ?case
  proof (cases ce)
    case (Some e')
    then show ?thesis using Cons.prems call ctx l3 by (simp add: Let_def r2_def)
  next
    case None
    define r4 where "r4 = (if re_reason res = ReasonRuntimeStop
         then append_runtime_exited env 0 (pl_id pl) ''map[string]interface {}''
                (Some (JObj [(''stage'', JStr ''init'')])) (append_runtime_diagnostic env 0 (pl_id pl) res r3)
         else r3)"
    have l4: "logs r r4" using l3 by (simp add: r4_def logs_intros)
    show ?thesis
    proof (cases "re_status res = ActionAccepted")
      case True
      then have "init_players env meta st pls r4 = (e, r')"
        using Cons.prems call ctx None by (simp add: Let_def r2_def r4_def)
      then have "logs r4 r'" by (rule Cons.IH)
      then show ?thesis using l4 logs_trans by blast
    next
      case False
      then show ?thesis using Cons.prems call ctx None l4
        by (auto simp: Let_def r2_def r4_def intro: logs_append)
    qed
  qed
qed simp

lemma initialize_logs: "initialize_sessions env meta r = (e, r') \<Longrightarrow> logs r r'"
  by (auto simp: initialize_sessions_def Let_def
      dest!: init_players_logs logs_ask [where s = r]
      intro!: logs_append publish_logs
      intro: logs_trans [OF logs_append [OF plain_kinds(7)]]
      split: prod.splits sum.splits option.splits)

lemma prepare_turn_logs: "logs r (prepare_turn env turn req r)"
  by (simp add: prepare_turn_def logs_append)

lemma execute_turns_logs: "execute_turns env turn reqs r = (exs, r') \<Longrightarrow> logs r r'"
  by (auto simp: execute_turns_def dest: logs_ask [where s = r] split: prod.splits)

lemma record_turn_logs: "logs r (record_turn env turn ex r)"
proof -
  let ?p = "rq_player (te_request ex)"
  have late: "logs r' (fold (\<lambda>late. append_map_event env ''late_response_ignored'' turn ?p
      [(''response_id'', JStr late)]) ids r')" for ids r'
    by (rule logs_fold) (simp add: logs_append)
  have base: "logs r (r\<lparr>rn_last_result := x\<rparr>)" for x by simp
  show ?thesis
    by (cases "re_reason (te_result ex)")
      (simp_all add: record_turn_def Let_def logs_intros logs_trans [OF base late])
qed

lemma settle_turns_logs: "settle_turns env turn exs r = (x, r') \<Longrightarrow> logs r r'"
proof (induction env turn exs r arbitrary: x r' rule: settle_turns.induct)
  case (2 env turn ex exs r)
  show ?case
  proof (cases "te_err ex")
    case (Some e)
    with 2(2) show ?thesis by simp
  next
    case None
    obtain n r1 where n: "ask (gs_normalize (en_master env) (te_request ex) (te_status ex)) r = (n, r1)"
      by fastforce
    have l1: "logs r r1" by (rule logs_ask [OF n]) simp
    show ?thesis
    proof (cases n)
      case (Inl e)
      with 2(2) None n l1 show ?thesis by simp
    next
      case (Inr s)
      obtain y r2 where y: "settle_turns env turn exs (record_turn env turn (ex\<lparr>te_status := s\<rparr>) r1) = (y, r2)"
        by fastforce
      have "logs (record_turn env turn (ex\<lparr>te_status := s\<rparr>) r1) r2"
        by (rule 2(1) [OF None n [symmetric] Inr y])
      then have "logs r r2" using l1 record_turn_logs logs_trans by blast
      with 2(2) None n Inr y show ?thesis by (auto split: sum.splits)
    qed
  qed
qed simp

lemma run_step_logs: "run_step env step r = (e, r') \<Longrightarrow> logs r r'"
proof -
  assume run: "run_step env step r = (e, r')"
  define r1 where "r1 = fold (prepare_turn env (st_turn step)) (st_requests step) r"
  have l1: "logs r r1" unfolding r1_def by (rule logs_fold) (rule prepare_turn_logs)
  obtain exs r2 where x: "execute_turns env (st_turn step) (st_requests step) r1 = (exs, r2)" by fastforce
  obtain ss r3 where s: "settle_turns env (st_turn step) exs r2 = (ss, r3)" by fastforce
  have l3: "logs r r3" using l1 execute_turns_logs [OF x] settle_turns_logs [OF s] logs_trans by blast
  show ?thesis
  proof (cases ss)
    case (Inl a)
    then show ?thesis using run x s l3 by (simp add: run_step_def Let_def flip: r1_def)
  next
    case (Inr b)
    obtain o' r4 where a: "ask (gs_apply (en_master env) step b) r3 = (o', r4)" by fastforce
    have "logs r r4" by (rule logs_ask [OF a l3])
    then show ?thesis using run x s Inr a
      by (auto simp: run_step_def Let_def publish_logs simp flip: r1_def split: option.splits)
  qed
qed

lemma one_step_logs: "one_step env r = (e, r') \<Longrightarrow> logs r r'"
proof -
  assume step: "one_step env r = (e, r')"
  obtain c r1 where c: "ask (en_ctx env) r = (c, r1)" by fastforce
  obtain n r2 where n: "ask (gs_next (en_master env)) r1 = (n, r2)" by fastforce
  have l1: "logs r r1" by (rule logs_ask [OF c]) simp
  have l2: "logs r r2" by (rule logs_ask [OF n l1])
  show ?thesis
    using step c n l1 l2 run_step_logs logs_trans
    by (fastforce simp: one_step_def split: option.splits sum.splits if_splits prod.splits)
qed

lemma decision_loop_logs: "decision_loop env n r = (e, r') \<Longrightarrow> logs r r'"
proof (induction n arbitrary: r)
  case (Suc n)
  obtain x r1 where x: "one_step env r = (x, r1)" by fastforce
  then have "logs r r1" by (rule one_step_logs)
  with Suc x show ?case by (cases x) (auto intro: logs_trans)
qed simp


section \<open>The end of a run\<close>

lemma capture_replay_keeps:
  "grows s r \<Longrightarrow> grows s (capture_replay env r)"
  "rn_status (capture_replay env r) = rn_status r"
  "rn_terminal_err (capture_replay env r) = rn_terminal_err r"
  by (auto simp: capture_replay_def ask_def split: prod.split option.split sum.split)

lemma capture_keeps:
  assumes "capture_final_state env r = (e, r')"
  shows "grows r r'" "rn_status r' = rn_status r" "rn_terminal_err r' = rn_terminal_err r"
  using assms
  by (auto simp: capture_final_state_def ask_def capture_replay_keeps split: prod.splits sum.splits)

lemma game_over_logs: "logs r (game_over env p r)"
proof -
  obtain res r1 where c: "(case game_over_params env r p of
      Some params \<Rightarrow> ask (en_game_over env p params) r | None \<Rightarrow> (failed ReasonMalformed, r)) = (res, r1)"
    by fastforce
  then have "logs r r1" by (auto dest: logs_ask [where s = r] split: option.splits)
  then show ?thesis
    unfolding game_over_def c Let_def by (simp add: logs_intros)
qed

lemma shutdown_session_logs: "logs r (shutdown_session env p r)"
proof -
  define r1 where "r1 = (if rn_status r = StatusCompleted then game_over env p r else r)"
  have l1: "logs r r1" by (simp add: r1_def game_over_logs)
  define r2 where "r2 = append_map_event env ''session_shutdown_started'' 0 p [(''phase'', JStr (status_str (rn_phase r1)))] r1"
  have l2: "logs r r2" using l1 by (simp add: r2_def logs_append)
  obtain e r3 where c: "ask (en_close env p) r2 = (e, r3)" by fastforce
  have "logs r r3" by (rule logs_ask [OF c l2])
  then show ?thesis
    unfolding shutdown_session_def r1_def [symmetric] Let_def r2_def [symmetric] c
    by (simp add: logs_intros split: option.split)
qed

lemma shutdown_sessions_logs: "logs r (shutdown_sessions env r)"
  unfolding shutdown_sessions_def by (rule logs_fold) (rule shutdown_session_logs)

lemma shutdown_game_master_logs: "logs r (shutdown_game_master env r)"
proof -
  define r1 where "r1 = append_map_event env ''game_master_shutdown_started'' 0 []
            [(''phase'', JStr (status_str (rn_phase r)))] r"
  have l1: "logs r r1" by (simp add: r1_def logs_append)
  obtain e r2 where c: "ask (gs_shutdown (en_master env)) r1 = (e, r2)" by fastforce
  have "logs r r2" by (rule logs_ask [OF c l1])
  then show ?thesis
    unfolding shutdown_game_master_def r1_def [symmetric] Let_def c
    by (simp add: logs_append split: option.split)
qed

text \<open>The kind of the last event a status calls for.\<close>

fun terminal_kind :: "match_status \<Rightarrow> string" where
  "terminal_kind StatusCompleted = ''match_completed''"
| "terminal_kind StatusCanceled = ''match_canceled''"
| "terminal_kind _ = ''match_failed''"

definition ended :: "match_status \<Rightarrow> bool" where
  "ended s \<longleftrightarrow> s = StatusCompleted \<or> s = StatusFailed \<or> s = StatusCanceled"

lemma emit_terminal:
  "\<exists>ev. rn_events (emit_terminal_event env r) = rn_events r @ [ev] \<and> ev_seq ev = rn_next_seq r + 1 \<and>
    ev_kind ev = terminal_kind (rn_status (emit_terminal_event env r)) \<and>
    rn_next_seq (emit_terminal_event env r) = rn_next_seq r + 1 \<and>
    ended (rn_status (emit_terminal_event env r)) \<and>
    (ended (rn_status r) \<longrightarrow> rn_status (emit_terminal_event env r) = rn_status r)"
  by (cases "rn_status r")
    (simp_all add: emit_terminal_event_def append_event_def Let_def ended_def)

definition final_status :: "go_error option \<Rightarrow> 'w runner \<Rightarrow> match_status" where
  "final_status err r = (if err \<noteq> None \<and> rn_terminal_err r = None \<and> rn_status r = StatusCompleted
     then StatusFailed else rn_status r)"

lemma final_status_cases:
  "final_status err r = rn_status r \<or> rn_status r = StatusCompleted \<and> final_status err r = StatusFailed"
  by (simp add: final_status_def)

lemma finish_run_log:
  assumes run: "finish_run env meta r = (rec, r')"
    and log: "map ev_seq (rn_events r) = [1..rn_next_seq r]" "0 \<le> rn_next_seq r"
  shows "\<exists>evs ev. rc_event_log rec = rn_events r @ evs @ [ev] \<and>
    map ev_seq (rc_event_log rec) = [1..int (length (rc_event_log rec))] \<and>
    (\<forall>x \<in> set evs. ev_kind x \<notin> terminal_kinds) \<and>
    ev_kind ev = terminal_kind (rc_status rec) \<and> ended (rc_status rec) \<and>
    (ended (rn_status r) \<longrightarrow> rc_status rec = final_status (fst (capture_final_state env r)) r)"
proof -
  obtain err r1 where c: "capture_final_state env r = (err, r1)" by fastforce
  note cap = capture_keeps [OF c]
  define r2 where "r2 = (case err of
      Some e \<Rightarrow>
        if rn_terminal_err r1 = None then
          (let r' = r1\<lparr>rn_terminal_err := Some e\<rparr>
           in if rn_status r' = StatusCompleted
              then r'\<lparr>rn_phase := StatusFailed, rn_status := StatusFailed\<rparr> else r')
        else r1
    | None \<Rightarrow> r1)"
  have g2: "grows r r2" using cap(1) by (auto simp: r2_def Let_def split: option.split)
  have s2: "rn_status r2 = final_status err r"
    using cap by (auto simp: r2_def Let_def final_status_def split: option.split)
  define r3 where "r3 = shutdown_game_master env (shutdown_sessions env r2)"
  have l3: "logs r2 r3" unfolding r3_def using shutdown_sessions_logs shutdown_game_master_logs logs_trans by blast
  then have g3: "grows r r3" and s3: "rn_status r3 = final_status err r"
    using g2 s2 grows_trans by (auto simp: logs_def same_outcome_def)
  define r4 where "r4 = emit_terminal_event env r3"
  have rec: "rec = build_record env meta r4" "r' = r4"
    using run unfolding finish_run_def c Let_def r4_def r3_def r2_def by auto
  obtain ev where ev: "rn_events r4 = rn_events r3 @ [ev]" "ev_seq ev = rn_next_seq r3 + 1"
    "ev_kind ev = terminal_kind (rn_status r4)" "ended (rn_status r4)"
    "ended (rn_status r3) \<longrightarrow> rn_status r4 = rn_status r3"
    using emit_terminal [of env r3] unfolding r4_def by blast
  obtain evs where evs: "rn_events r3 = rn_events r @ evs" "\<forall>x \<in> set evs. ev_kind x \<notin> terminal_kinds"
    using g3 by (auto simp: grows_def)
  have log3: "map ev_seq (rn_events r3) = [1..rn_next_seq r3]" "0 \<le> rn_next_seq r3"
    using grows_log [OF g3] log by auto
  have len: "int (length (rn_events r3)) = rn_next_seq r3"
    using arg_cong [OF log3(1), of length] log3(2) by simp
  have "map ev_seq (rn_events r4) = [1..rn_next_seq r3] @ [rn_next_seq r3 + 1]"
    using ev(1,2) log3(1) by simp
  also have "\<dots> = [1..int (length (rn_events r4))]"
    using ev(1) len log3(2) upto_rec2 [of 1 "rn_next_seq r3 + 1"] by (simp add: add.commute)
  finally have seqs: "map ev_seq (rn_events r4) = [1..int (length (rn_events r4))]" .
  have fields: "rc_event_log rec = rn_events r4" "rc_status rec = rn_status r4"
    by (simp_all add: rec build_record_def Let_def)
  have "ended (rn_status r) \<Longrightarrow> ended (rn_status r3)"
    by (auto simp: s3 final_status_def ended_def)
  then have "ended (rn_status r) \<longrightarrow> rc_status rec = final_status (fst (capture_final_state env r)) r"
    using ev(5) s3 c fields by auto
  with ev evs seqs fields show ?thesis by (intro exI [of _ evs] exI [of _ ev]) auto
qed

text \<open>What leads to the deferred part: the outcome of the run before it, and its status.\<close>

lemma run_cases:
  assumes "run env fuel r0 = Some (e, rec, r')"
  obtains r where "grows (match_started env (gs_metadata (en_master env) (rn_world r0)) r0) r"
    "finish_run env (gs_metadata (en_master env) (rn_world r0)) r = (rec, r')"
    "e = None \<and> rn_status r = StatusCompleted \<and> rn_terminal_err r = rn_terminal_err r0 \<or>
     (\<exists>x. e = Some x \<and> (rn_status r = StatusCanceled \<or> rn_status r = StatusFailed) \<and> rn_terminal_err r = Some x)"
proof -
  let ?meta = "gs_metadata (en_master env) (rn_world r0)" and ?r1 = "match_started env (gs_metadata (en_master env) (rn_world r0)) r0"
  have classify: "grows r2 r3 \<and> (rn_status r3 = StatusCanceled \<or> rn_status r3 = StatusFailed) \<and> rn_terminal_err r3 = Some x"
    if "classify_terminal_error env err r2 = (x, r3)" for err x r2 r3
    using that by (auto simp: classify_terminal_error_def cancel_def fail_def ask_def split: prod.splits option.splits if_splits)
  have te: "rn_terminal_err ?r1 = rn_terminal_err r0"
    by (simp add: match_started_def append_event_def Let_def)
  obtain ie r2 where i: "initialize_sessions env ?meta ?r1 = (ie, r2)" by fastforce
  note li = initialize_logs [OF i]
  show ?thesis
  proof (cases ie)
    case (Some err)
    obtain x r3 where c: "classify_terminal_error env err r2 = (x, r3)" by fastforce
    with assms i Some have "e = Some x" "finish_run env ?meta r3 = (rec, r')" by (simp_all add: run_def Let_def)
    with classify [OF c] li show ?thesis
      by (intro that [of r3]) (auto simp: logs_def intro: grows_trans)
  next
    case None
    obtain l r3 where l: "decision_loop env fuel (r2\<lparr>rn_phase := StatusRunning\<rparr>) = (l, r3)" by fastforce
    have lg: "logs ?r1 r3" using li decision_loop_logs [OF l] logs_trans
      by (metis logs_update(3))
    show ?thesis
    proof (cases l)
      case LoopDone
      let ?r = "r3\<lparr>rn_phase := StatusFinishing, rn_status := StatusCompleted\<rparr>"
      have "e = None" "finish_run env ?meta ?r = (rec, r')"
        using assms i None l LoopDone by (simp_all add: run_def Let_def)
      then show ?thesis using lg te
        by (intro that [of ?r]) (simp_all add: logs_def same_outcome_def)
    next
      case (LoopFailed err)
      obtain x r4 where c: "classify_terminal_error env err r3 = (x, r4)" by fastforce
      have "e = Some x" "finish_run env ?meta r4 = (rec, r')"
        using assms i None l LoopFailed c by (simp_all add: run_def Let_def)
      with classify [OF c] lg show ?thesis
        by (intro that [of r4]) (auto simp: logs_def intro: grows_trans)
    next
      case OutOfFuel
      then show ?thesis using assms i None l by (simp add: run_def Let_def)
    qed
  qed
qed

text \<open>What holds of every finished log.\<close>

lemma run_log:
  assumes "run env fuel (new_runner match_id players w) = Some (e, rec, r)"
  shows "let log = rc_event_log rec in
    map ev_seq log = [1..int (length log)] \<and> log \<noteq> [] \<and> ev_kind (hd log) = ''match_started'' \<and>
    (\<forall>x \<in> set (butlast log). ev_kind x \<notin> terminal_kinds) \<and>
    ev_kind (last log) = terminal_kind (rc_status rec) \<and> ended (rc_status rec) \<and>
    (e = None \<longrightarrow> rc_status rec = StatusCompleted \<or> rc_status rec = StatusFailed) \<and>
    (e \<noteq> None \<longrightarrow> rc_status rec = StatusCanceled \<or> rc_status rec = StatusFailed)"
proof -
  let ?meta = "gs_metadata (en_master env) w" and ?r0 = "new_runner match_id players w"
  obtain r1 where g: "grows (match_started env ?meta ?r0) r1" and f: "finish_run env ?meta r1 = (rec, r)"
    and s: "e = None \<and> rn_status r1 = StatusCompleted \<or>
     (\<exists>x. e = Some x \<and> (rn_status r1 = StatusCanceled \<or> rn_status r1 = StatusFailed))"
    using assms
  proof (rule run_cases)
    fix r1
    assume a: "grows (match_started env (gs_metadata (en_master env) (rn_world ?r0)) ?r0) r1"
      "finish_run env (gs_metadata (en_master env) (rn_world ?r0)) r1 = (rec, r)"
      "e = None \<and> rn_status r1 = StatusCompleted \<and> rn_terminal_err r1 = rn_terminal_err ?r0 \<or>
       (\<exists>x. e = Some x \<and> (rn_status r1 = StatusCanceled \<or> rn_status r1 = StatusFailed) \<and>
          rn_terminal_err r1 = Some x)"
    have "rn_world ?r0 = w" by (simp add: new_runner_def)
    then show thesis using a by (intro that [of r1]) auto
  qed
  obtain st where st: "rn_events (match_started env ?meta ?r0) = [st]" "ev_kind st = ''match_started''"
    "ev_seq st = 1" "rn_next_seq (match_started env ?meta ?r0) = 1"
    by (simp add: match_started_def append_event_def Let_def new_runner_def)
  have log1: "map ev_seq (rn_events r1) = [1..rn_next_seq r1]" "0 \<le> rn_next_seq r1"
    using grows_log [OF g] st by auto
  obtain mid where mid: "rn_events r1 = st # mid" "\<forall>x \<in> set mid. ev_kind x \<notin> terminal_kinds"
    using g st(1) by (auto simp: grows_def)
  obtain evs ev where fin: "rc_event_log rec = rn_events r1 @ evs @ [ev]"
    "map ev_seq (rc_event_log rec) = [1..int (length (rc_event_log rec))]"
    "\<forall>x \<in> set evs. ev_kind x \<notin> terminal_kinds" "ev_kind ev = terminal_kind (rc_status rec)"
    "ended (rc_status rec)"
    "ended (rn_status r1) \<longrightarrow> rc_status rec = final_status (fst (capture_final_state env r1)) r1"
    using finish_run_log [OF f log1] by blast
  have bl: "butlast (rc_event_log rec) = st # mid @ evs" using fin(1) mid(1) by (simp add: butlast_append)
  have "\<forall>x \<in> set (butlast (rc_event_log rec)). ev_kind x \<notin> terminal_kinds"
    unfolding bl using mid(2) fin(3) st(2) by auto
  moreover have "(e = None \<longrightarrow> rc_status rec = StatusCompleted \<or> rc_status rec = StatusFailed) \<and>
    (e \<noteq> None \<longrightarrow> rc_status rec = StatusCanceled \<or> rc_status rec = StatusFailed)"
    using s fin(6) final_status_cases [of "fst (capture_final_state env r1)" r1]
    by (auto simp: ended_def)
  moreover have "rc_event_log rec \<noteq> []" "ev_kind (hd (rc_event_log rec)) = ''match_started''"
    "last (rc_event_log rec) = ev"
    using fin(1) mid(1) st(2) by simp_all
  ultimately show ?thesis using fin(2,4,5) unfolding Let_def by (intro conjI) simp_all
qed

text \<open>
  C1. The event log of every finished run is complete and ordered: its sequence numbers are
  1, 2, ... without gaps, it starts with \<open>match_started\<close>, its last event is the only
  terminal one and names the record's status, which is completed, failed or canceled. A run
  that returns an error is failed or canceled; one that returns none is completed, or failed
  when the final state could not be captured.
\<close>

theorem run_log_well_formed:
  assumes "run env fuel (new_runner match_id players w) = Some (e, rec, r)"
  shows "let log = rc_event_log rec in
    map ev_seq log = [1..int (length log)] \<and> log \<noteq> [] \<and> ev_kind (hd log) = ''match_started'' \<and>
    (\<forall>x \<in> set (butlast log). ev_kind x \<notin> terminal_kinds) \<and>
    ev_kind (last log) = terminal_kind (rc_status rec) \<and> ended (rc_status rec) \<and>
    (e = None \<longrightarrow> rc_status rec = StatusCompleted \<or> rc_status rec = StatusFailed) \<and>
    (e \<noteq> None \<longrightarrow> rc_status rec = StatusCanceled \<or> rc_status rec = StatusFailed)"
  by (rule run_log [OF assms])

end
