(* ===== verification/Replay.thy ===== *)
theory Replay
  imports GameMaster
begin

text \<open>
  Rebuilding a snapshot from a recorded event log by feeding the recorded action statuses to
  a fresh game-master session: \<open>internal/platform/replay/session_history.go\<close>. The cursor
  into the event list is modelled by the list of the events from the cursor on.
\<close>

datatype replay_error =
    NegativeTarget int | TargetBeyondEnd int int | HistoryMismatch int string event
  | BadPayload event | MissingStatus int string | SessionError go_error

definition is_recorded_action_status_event :: "string \<Rightarrow> bool" where
  "is_recorded_action_status_event kind \<longleftrightarrow>
     kind = ''turn_result'' \<or> kind = ''turn_timeout'' \<or> kind = ''protocol_error'' \<or> kind = ''runtime_exited''"

fun consume_recorded_action_status ::
  "event list \<Rightarrow> int \<Rightarrow> string \<Rightarrow> replay_error + action_status \<times> event list" where
  "consume_recorded_action_status [] turn p = Inl (MissingStatus turn p)"
| "consume_recorded_action_status (ev # evs) turn p =
     (if \<not> is_recorded_action_status_event (ev_kind ev) then consume_recorded_action_status evs turn p
      else if ev_turn ev \<noteq> turn then Inl (HistoryMismatch turn p ev)
      else if ev_player ev \<noteq> p then Inl (HistoryMismatch turn p ev)
      else case unmarshal dec_action_status (ev_payload ev) zero_status of
          None \<Rightarrow> Inl (BadPayload ev)
        | Some s \<Rightarrow> Inr (if as_player s = [] then s\<lparr>as_player := p\<rparr> else s, evs))"

fun consume_all ::
  "event list \<Rightarrow> int \<Rightarrow> decision_request list \<Rightarrow> replay_error + action_status list \<times> event list" where
  "consume_all evs turn [] = Inr ([], evs)"
| "consume_all evs turn (req # reqs) =
     bindR (consume_recorded_action_status evs turn (rq_player req)) (\<lambda>(s, evs1).
     bindR (consume_all evs1 turn reqs) (\<lambda>(ss, evs2). Inr (s # ss, evs2)))"

text \<open>\<open>None\<close>: the loop has not ended within the fuel.\<close>

fun replay_loop :: "'w gm_session \<Rightarrow> nat \<Rightarrow> event list \<Rightarrow> int \<Rightarrow> 'w \<Rightarrow> (replay_error + snapshot) option" where
  "replay_loop s 0 evs target w = None"
| "replay_loop s (Suc n) evs target w =
     (case gs_next s w of
        (Inl e, w1) \<Rightarrow> Some (Inl (SessionError e))
      | (Inr None, w1) \<Rightarrow>
          (case gs_snapshot s w1 of
             (Inl e, w2) \<Rightarrow> Some (Inl (SessionError e))
           | (Inr sn, w2) \<Rightarrow>
               Some (if sn_turn sn < target then Inl (TargetBeyondEnd target (sn_turn sn)) else Inr sn))
      | (Inr (Some step), w1) \<Rightarrow>
          if st_turn step > target then
            (case gs_snapshot s w1 of
               (Inl e, w2) \<Rightarrow> Some (Inl (SessionError e))
             | (Inr sn, w2) \<Rightarrow> Some (Inr sn))
          else
            (case consume_all evs (st_turn step) (st_requests step) of
               Inl e \<Rightarrow> Some (Inl e)
             | Inr (ss, evs1) \<Rightarrow>
                 (case gs_apply s step ss w1 of
                    (Some e, w2) \<Rightarrow> Some (Inl (SessionError e))
                  | (None, w2) \<Rightarrow> replay_loop s n evs1 target w2)))"

definition snapshot_from_session_history ::
  "'w gm_session \<Rightarrow> go_error + 'w \<Rightarrow> nat \<Rightarrow> event list \<Rightarrow> int \<Rightarrow> (replay_error + snapshot) option" where
  "snapshot_from_session_history s built fuel evs target =
     (if target < 0 then Some (Inl (NegativeTarget target))
      else case built of
        Inl e \<Rightarrow> Some (Inl (SessionError e))
      | Inr w \<Rightarrow>
          (case gs_init s w of
             (Inl e, w1) \<Rightarrow> Some (Inl (SessionError e))
           | (Inr st, w1) \<Rightarrow> replay_loop s fuel evs target w1))"

section \<open>Reading a log\<close>

abbreviation recorded :: "event list \<Rightarrow> event list" where
  "recorded evs \<equiv> filter (\<lambda>ev. is_recorded_action_status_event (ev_kind ev)) evs"

text \<open>The event that records a status: one of the four kinds, with the status as payload.\<close>

definition records :: "int \<Rightarrow> action_status \<Rightarrow> event \<Rightarrow> bool" where
  "records turn s ev \<longleftrightarrow>
     is_recorded_action_status_event (ev_kind ev) \<and> ev_turn ev = turn \<and> ev_player ev = as_player s \<and>
     (\<exists>j. enc_action_status s = Some j \<and> ev_payload ev = RawJson j)"

lemma consume_recorded:
  assumes "recorded evs = ev # rest" "records turn s ev" "encodable_status s"
  shows "\<exists>evs1. consume_recorded_action_status evs turn (as_player s) = Inr (s, evs1) \<and> recorded evs1 = rest"
  using assms
proof (induction evs)
  case Nil
  then show ?case by simp
next
  case (Cons e evs)
  show ?case
  proof (cases "is_recorded_action_status_event (ev_kind e)")
    case True
    then have e: "e = ev" "recorded evs = rest" using Cons.prems(1) by simp_all
    obtain j where j: "enc_action_status s = Some j" "ev_payload ev = RawJson j"
      using Cons.prems(2) by (auto simp: records_def)
    have "dec_action_status j zero_status = Some s"
      using dec_enc_action_status [OF Cons.prems(3)] j(1) by auto
    then show ?thesis using e j Cons.prems(2) True by (auto simp: records_def)
  next
    case False
    with Cons show ?thesis by simp
  qed
qed

lemma consume_all_recorded:
  assumes "recorded evs = es @ rest" "list_all2 (records turn) ss es"
    and "map as_player ss = map rq_player reqs" "\<forall>s \<in> set ss. encodable_status s"
  shows "\<exists>evs1. consume_all evs turn reqs = Inr (ss, evs1) \<and> recorded evs1 = rest"
  using assms
proof (induction reqs arbitrary: evs es ss)
  case Nil
  then show ?case by simp
next
  case (Cons req reqs)
  then obtain s ss' where ss: "ss = s # ss'" "as_player s = rq_player req"
    "map as_player ss' = map rq_player reqs" by (cases ss) auto
  then obtain e es' where es: "es = e # es'" "records turn s e" "list_all2 (records turn) ss' es'"
    using Cons.prems(2) by (cases es) auto
  obtain evs1 where one: "consume_recorded_action_status evs turn (rq_player req) = Inr (s, evs1)"
    "recorded evs1 = es' @ rest"
    using consume_recorded [of evs e "es' @ rest" turn s] Cons.prems(1,4) ss es by auto
  obtain evs2 where "consume_all evs1 turn reqs = Inr (ss', evs2)" "recorded evs2 = rest"
    using Cons.IH [OF one(2) es(3) ss(3)] Cons.prems(4) ss(1) by auto
  with one ss(1) show ?case by simp
qed

section \<open>Replaying a recorded game\<close>

text \<open>A play together with the recorded part of its log.\<close>

inductive logged :: "('m, 'e) game_ops \<Rightarrow> 'm \<Rightarrow> event list \<Rightarrow> 'm \<Rightarrow> bool" for g :: "('m, 'e) game_ops" where
  logged_refl: "logged g m [] m"
| logged_step: "go_next g m = Inr (Some step) \<Longrightarrow>
    map as_player ss = map rq_player (st_requests step) \<Longrightarrow> \<forall>s \<in> set ss. encodable_status s \<Longrightarrow>
    list_all2 (records (st_turn step)) ss es \<Longrightarrow>
    go_apply g m step ss = (None, m1) \<Longrightarrow> st_requests step \<noteq> [] \<Longrightarrow>
    logged g m1 evs m' \<Longrightarrow> logged g m (es @ evs) m'"

inductive_cases logged_cases: "logged g m evs m'"

lemma logged_end:
  assumes "logged g m evs m'" "go_next g m = Inr None"
  shows "m' = m \<and> evs = []"
  by (rule logged_cases [OF assms(1)]) (use assms(2) in auto)

text \<open>
  The replay follows the game state by state: it stops at the first state whose next step
  is past the target, or at the end.
\<close>

definition replay_stops :: "('m, 'e) game_ops \<Rightarrow> int \<Rightarrow> 'm \<Rightarrow> bool" where
  "replay_stops g target m \<longleftrightarrow>
     (go_next g m = Inr None \<and> target \<le> sn_turn (go_snapshot g m)) \<or>
     (\<exists>step. go_next g m = Inr (Some step) \<and> target < st_turn step)"

lemma current_snapshot_turn [simp]: "sn_turn (current_snapshot g m) = sn_turn (go_snapshot g m)"
  by (simp add: current_snapshot_def Let_def)

lemma replay_logged:
  assumes "logged g m evs m'" "go_next g m' = Inr None" "target \<le> sn_turn (go_snapshot g m')"
    and "recorded log = evs @ rest" "length evs < n"
  shows "\<exists>m1 evs1 evs2. logged g m evs1 m1 \<and> logged g m1 evs2 m' \<and> evs = evs1 @ evs2 \<and>
    replay_stops g target m1 \<and> (\<forall>ev \<in> set evs1. ev_turn ev \<le> target) \<and>
    replay_loop (in_process g text) n log target (m, p) = Some (Inr (current_snapshot g m1))"
  using assms
proof (induction arbitrary: log n rule: logged.induct)
  case (logged_refl m)
  then obtain k where "n = Suc k" by (cases n) auto
  with logged_refl show ?case
    by (intro exI [of _ m] exI [of _ "[]"]) (simp add: logged.logged_refl replay_stops_def in_process_def)
next
  case (logged_step m step ss es m1 evs m')
  then obtain k where n: "n = Suc k" by (cases n) auto
  show ?case
  proof (cases "target < st_turn step")
    case True
    have "logged g m (es @ evs) m'" by (rule logged.logged_step [OF logged_step.hyps])
    then show ?thesis using True n logged_step.hyps(1)
      by (intro exI [of _ m] exI [of _ "[]"] exI [of _ "es @ evs"])
        (simp add: logged.logged_refl replay_stops_def in_process_def)
  next
    case False
    obtain log1 where log1: "consume_all log (st_turn step) (st_requests step) = Inr (ss, log1)"
      "recorded log1 = evs @ rest"
      using consume_all_recorded [of log es "evs @ rest" "st_turn step" ss "st_requests step"]
        logged_step.hyps(2-4) logged_step.prems(3) by auto
    have "ss \<noteq> []" using logged_step.hyps(2,6) by (metis map_is_Nil_conv)
    then have "es \<noteq> []" using logged_step.hyps(4) by auto
    then have "length evs < k" using logged_step.prems(4) n by (cases es) auto
    from logged_step.IH [OF logged_step.prems(1,2) log1(2) this] obtain m2 evs1 evs2 where
      r: "logged g m1 evs1 m2" "logged g m2 evs2 m'" "evs = evs1 @ evs2" "replay_stops g target m2"
      "\<forall>ev \<in> set evs1. ev_turn ev \<le> target"
      "replay_loop (in_process g text) k log1 target (m1, p) = Some (Inr (current_snapshot g m2))"
      by blast
    have l: "logged g m (es @ evs1) m2" by (rule logged.logged_step [OF logged_step.hyps(1-6) r(1)])
    have t: "\<forall>ev \<in> set (es @ evs1). ev_turn ev \<le> target"
      using logged_step.hyps(4) False r(5)
      by (auto simp: list_all2_conv_all_nth records_def in_set_conv_nth)
    have s: "replay_loop (in_process g text) n log target (m, p) = Some (Inr (current_snapshot g m2))"
      using r(6) log1(1) False n logged_step.hyps(1,5) by (simp add: in_process_def)
    have a: "es @ evs = (es @ evs1) @ evs2" by (simp add: r(3))
    show ?thesis using l r(2) a r(4) t s by blast
  qed
qed

end
