(* ===== verification/Match_Host.thy ===== *)
theory Match_Host
  imports Match_Log Replay
begin

text \<open>
  Matches of a game hosted in the runner's process: the world is the game's state and the
  state of everything else (players, clock, observer). For a game that keeps the
  game-master contract the decision loop ends, a completed run is a play of the game to its
  end, and its event log replays to the same snapshot.
\<close>

section \<open>Hosting a game\<close>

definition beside :: "('p \<Rightarrow> 'a \<times> 'p) \<Rightarrow> 'm \<times> 'p \<Rightarrow> 'a \<times> 'm \<times> 'p" where
  "beside op w = (case op (snd w) of (x, p) \<Rightarrow> (x, fst w, p))"

definition host :: "('m, 'e) game_ops \<Rightarrow> ('e \<Rightarrow> string) \<Rightarrow> 'p env \<Rightarrow> ('m \<times> 'p) env" where
  "host g text penv =
     \<lparr>en_master = in_process g text,
      en_ctx = beside (en_ctx penv),
      en_init = (\<lambda>pl params. beside (en_init penv pl params)),
      en_turns = (\<lambda>turn reqs. beside (en_turns penv turn reqs)),
      en_game_over = (\<lambda>pl params. beside (en_game_over penv pl params)),
      en_close = (\<lambda>pl. beside (en_close penv pl)),
      en_stderr = (\<lambda>pl w. en_stderr penv pl (snd w)),
      en_on_event = (\<lambda>ev w. (fst w, en_on_event penv ev (snd w))),
      en_on_exported = (\<lambda>xs w. (fst w, en_on_exported penv xs (snd w))),
      en_publishes = en_publishes penv,
      en_init_deadline = en_init_deadline penv,
      en_game_over_deadline = en_game_over_deadline penv,
      en_marshal_error = en_marshal_error penv\<rparr>"

lemma fst_beside [simp]: "fst (snd (beside op w)) = fst w"
  by (simp add: beside_def split: prod.split)

lemma host_sel [simp]:
  "en_master (host g text penv) = in_process g text"
  "en_ctx (host g text penv) = beside (en_ctx penv)"
  "en_init (host g text penv) pl params = beside (en_init penv pl params)"
  "en_turns (host g text penv) turn reqs = beside (en_turns penv turn reqs)"
  "en_game_over (host g text penv) pl params = beside (en_game_over penv pl params)"
  "en_close (host g text penv) pl = beside (en_close penv pl)"
  "fst (en_on_event (host g text penv) ev w) = fst w"
  "fst (en_on_exported (host g text penv) xs w) = fst w"
  by (simp_all add: host_def)

lemma in_process_sel [simp]:
  "gs_metadata (in_process g text) w = go_metadata g (fst w)"
  "gs_init (in_process g text) w = (lift_result text (go_init g (fst w)), w)"
  "gs_next (in_process g text) w = (lift_result text (go_next g (fst w)), w)"
  "gs_normalize (in_process g text) req s w = (Inr (go_normalize g (fst w) req s), w)"
  "gs_apply (in_process g text) step ss w =
     (map_option (lift_error text) (fst (go_apply g (fst w) step ss)), (snd (go_apply g (fst w) step ss), snd w))"
  "gs_snapshot (in_process g text) w = (Inr (current_snapshot g (fst w)), w)"
  "gs_exported (in_process g text) w = (Inr (go_exported g (fst w)), w)"
  "gs_result (in_process g text) w = (Inr (go_result g (fst w)), w)"
  "gs_shutdown (in_process g text) w = (None, w)"
  by (simp_all add: in_process_def split: prod.split)

text \<open>
  Results as the player sessions produce them (\<open>call_accepts_only_its_response\<close>): payloads
  are decoded JSON and reasons are constants.
\<close>

definition good_result :: "result \<Rightarrow> bool" where
  "good_result r \<longleftrightarrow> well_formed_result r \<and> re_payload r \<noteq> RawBad \<and> canonical_reason (re_reason r)"

definition good_players :: "'p env \<Rightarrow> bool" where
  "good_players penv \<longleftrightarrow>
     (\<forall>turn reqs p i. good_result (fst (fst (en_turns penv turn reqs p) i))) \<and>
     (\<forall>pl params p. well_formed_result (fst (en_init penv pl params p)))"

section \<open>Steps that leave the game alone\<close>

text \<open>The game state is the same and no action status was recorded.\<close>

definition quiet :: "('m \<times> 'p) runner \<Rightarrow> ('m \<times> 'p) runner \<Rightarrow> bool" where
  "quiet r r' \<longleftrightarrow> fst (rn_world r') = fst (rn_world r) \<and>
     (\<exists>evs. rn_events r' = rn_events r @ evs \<and> recorded evs = [])"

lemma quiet_refl [simp]: "quiet r r"
  by (simp add: quiet_def)

lemma quiet_trans: "quiet r s \<Longrightarrow> quiet s t \<Longrightarrow> quiet r t"
proof -
  assume "quiet r s" "quiet s t"
  then obtain a b where "rn_events s = rn_events r @ a" "recorded a = []" "rn_events t = rn_events s @ b"
    "recorded b = []" "fst (rn_world s) = fst (rn_world r)" "fst (rn_world t) = fst (rn_world s)"
    unfolding quiet_def by blast
  then show "quiet r t" unfolding quiet_def by (intro conjI exI [of _ "a @ b"]) simp_all
qed

lemma quiet_update [simp]:
  "quiet r (r'\<lparr>rn_last_seen := a\<rparr>) = quiet r r'" "quiet r (r'\<lparr>rn_last_result := b\<rparr>) = quiet r r'"
  "quiet r (r'\<lparr>rn_phase := c\<rparr>) = quiet r r'" "quiet r (r'\<lparr>rn_status := d\<rparr>) = quiet r r'"
  "quiet r (r'\<lparr>rn_terminal_err := e\<rparr>) = quiet r r'"
  "quiet r (r'\<lparr>rn_final_snapshot := f\<rparr>) = quiet r r'" "quiet r (r'\<lparr>rn_final_exported := h\<rparr>) = quiet r r'"
  "quiet r (r'\<lparr>rn_final_result := k\<rparr>) = quiet r r'" "quiet r (r'\<lparr>rn_public_replay := l\<rparr>) = quiet r r'"
  "quiet (r\<lparr>rn_phase := c\<rparr>) r' = quiet r r'"
  by (simp_all add: quiet_def)

lemma quiet_append:
  "\<not> is_recorded_action_status_event kind \<Longrightarrow> quiet r r' \<Longrightarrow>
   quiet r (append_event (host g text penv) kind turn p ty payload r')"
  by (auto simp: quiet_def append_event_def Let_def)

lemma quiet_ask_beside: "ask (beside op) r = (x, r') \<Longrightarrow> quiet s r \<Longrightarrow> quiet s r'"
  by (auto simp: ask_def quiet_def beside_def split: prod.splits)

lemma quiet_fold: "(\<And>x r. x \<in> set xs \<Longrightarrow> quiet r (f x r)) \<Longrightarrow> quiet r (fold f xs r)"
proof (induction xs arbitrary: r)
  case (Cons x xs)
  have "quiet r (f x r)" using Cons.prems by simp
  moreover have "quiet (f x r) (fold f xs (f x r))" using Cons by simp
  ultimately show ?case using quiet_trans by auto
qed simp

lemma unrecorded_kinds [simp]:
  "\<not> is_recorded_action_status_event ''match_started''"
  "\<not> is_recorded_action_status_event ''runtime_diagnostic''"
  "\<not> is_recorded_action_status_event ''session_initialized''"
  "\<not> is_recorded_action_status_event ''session_initialization_failed''"
  "\<not> is_recorded_action_status_event ''game_master_initialized''"
  "\<not> is_recorded_action_status_event ''turn_requested''"
  "\<not> is_recorded_action_status_event ''late_response_ignored''"
  "is_recorded_action_status_event ''turn_result''"
  "is_recorded_action_status_event ''turn_timeout''"
  "is_recorded_action_status_event ''protocol_error''"
  "is_recorded_action_status_event ''runtime_exited''"
  by (simp_all add: is_recorded_action_status_event_def)

lemma quiet_diagnostic: "quiet r r' \<Longrightarrow> quiet r (append_runtime_diagnostic (host g text penv) turn p res r')"
  by (simp add: append_runtime_diagnostic_def Let_def quiet_append)

lemma quiet_publish: "quiet r r' \<Longrightarrow> quiet r (publish_exported (host g text penv) r')"
  by (auto simp: publish_exported_def ask_def quiet_def)

lemma quiet_prepare: "quiet r (prepare_turn (host g text penv) turn req r)"
  by (simp add: prepare_turn_def quiet_append)

section \<open>Recording a turn\<close>

lemma enc_encodable: "encodable_status s \<Longrightarrow> \<exists>j. enc_action_status s = Some j"
  using dec_enc_action_status by blast

lemma record_turn_records:
  assumes "encodable_status (te_status ex)" "as_player (te_status ex) = rq_player (te_request ex)"
  shows "\<exists>evs ev. rn_events (record_turn (host g text penv) turn ex r) = rn_events r @ evs \<and>
    recorded evs = [ev] \<and> records turn (te_status ex) ev \<and>
    fst (rn_world (record_turn (host g text penv) turn ex r)) = fst (rn_world r)"
proof -
  let ?env = "host g text penv" and ?p = "rq_player (te_request ex)" and ?s = "te_status ex"
  define r2 where "r2 = fold (\<lambda>late. append_map_event ?env ''late_response_ignored'' turn ?p [(''response_id'', JStr late)])
      (re_ignored (te_result ex)) (r\<lparr>rn_last_result := put ?p ?s (rn_last_result r)\<rparr>)"
  have "quiet (r\<lparr>rn_last_result := put ?p ?s (rn_last_result r)\<rparr>) r2"
    unfolding r2_def by (rule quiet_fold) (simp add: quiet_append)
  then have q2: "quiet r r2" by (simp add: quiet_def)
  define r3 where "r3 = (if re_reason (te_result ex) = ReasonRuntimeStop
      then append_runtime_diagnostic ?env turn ?p (te_result ex) r2 else r2)"
  have q3: "quiet r r3" using q2 by (simp add: r3_def quiet_diagnostic)
  define kind where "kind = (case re_reason (te_result ex) of NoReason \<Rightarrow> ''turn_result''
      | ReasonTimeout \<Rightarrow> ''turn_timeout'' | ReasonRuntimeStop \<Rightarrow> ''runtime_exited'' | _ \<Rightarrow> ''protocol_error'')"
  have k: "is_recorded_action_status_event kind" by (simp add: kind_def split: failure_reason.split)
  have eq: "record_turn ?env turn ex r =
      append_event ?env kind turn ?p ''gamemaster.ActionStatus'' (enc_action_status ?s) r3"
    by (cases "re_reason (te_result ex)")
      (simp_all add: record_turn_def Let_def kind_def r3_def r2_def append_runtime_exited_def)
  obtain j where j: "enc_action_status ?s = Some j" using enc_encodable [OF assms(1)] by blast
  obtain evs where evs: "rn_events r3 = rn_events r @ evs" "recorded evs = []"
    "fst (rn_world r3) = fst (rn_world r)" using q3 by (auto simp: quiet_def)
  let ?ev = "\<lparr>ev_seq = rn_next_seq r3 + 1, ev_kind = kind, ev_turn = turn, ev_player = ?p, ev_payload = RawJson j\<rparr>"
  have "records turn ?s ?ev" using k j assms(2) by (simp add: records_def)
  with evs k j show ?thesis
    by (intro exI [of _ "evs @ [?ev]"] exI [of _ ?ev])
      (simp add: eq append_event_def Let_def must_marshal_payload_def)
qed

section \<open>Initialisation and shutdown around a hosted game\<close>

text \<open>Players that accept their initialisation.\<close>

definition welcoming :: "'p env \<Rightarrow> bool" where
  "welcoming penv \<longleftrightarrow> (\<forall>pl params p. re_status (fst (en_init penv pl params p)) = ActionAccepted)"

definition calm :: "'p env \<Rightarrow> bool" where
  "calm penv \<longleftrightarrow> (\<forall>p. fst (en_ctx penv p) = None) \<and>
     (\<forall>turn reqs p i. snd (fst (en_turns penv turn reqs p) i) = None)"

lemma init_players_hosted:
  assumes "good_players penv" "init_players (host g text penv) meta st pls r = (e, r')"
  shows "fst (rn_world r') = fst (rn_world r) \<and> (e = None \<longrightarrow> quiet r r') \<and>
    (calm penv \<and> welcoming penv \<and> (\<forall>pl. getd RawNone (is_per_player st) pl \<noteq> RawBad) \<longrightarrow> e = None)"
  using assms(2)
proof (induction pls arbitrary: r)
  case (Cons pl pls)
  let ?env = "host g text penv" and ?params = "init_params (host g text penv) (rn_match_id r) meta (pl_id pl)
      (getd RawNone (is_per_player st) (pl_id pl))"
  obtain res r1 where call: "(case ?params of
      Some params \<Rightarrow> ask (en_init ?env (pl_id pl) params) r | None \<Rightarrow> (failed ReasonMalformed, r)) = (res, r1)"
    by fastforce
  have q1: "quiet r r1" using call by (auto dest: quiet_ask_beside [where s = r] split: option.splits)
  have wf: "well_formed_result res"
    using call assms(1) by (auto simp: good_players_def ask_def beside_def split: option.splits prod.splits)
      (metis fst_conv)
  have accept: "re_status res = ActionAccepted" if "welcoming penv" "\<forall>pl. getd RawNone (is_per_player st) pl \<noteq> RawBad"
  proof -
    have "?params \<noteq> None" using that(2) by (auto simp: init_params_def enc_raw_def split: raw.splits)
    then show ?thesis using call that(1)
      by (auto simp: welcoming_def ask_def beside_def split: prod.splits) (metis fst_conv)
  qed
  define r2 where "r2 = append_event ?env ''session_initialized'' 0 (pl_id pl) ''session.Result'' (enc_result res) r1"
  have q2: "quiet r r2" using q1 by (simp add: r2_def quiet_append)
  obtain ce r3 where ctx: "ask (en_ctx ?env) r2 = (ce, r3)" by fastforce
  have q3: "quiet r r3" using ctx q2 quiet_ask_beside by (metis host_sel(2))
  have calm: "calm penv \<Longrightarrow> ce = None"
    using ctx by (auto simp: calm_def ask_def beside_def split: prod.splits) (metis fst_conv)
  show ?case
  proof (cases ce)
    case (Some e')
    then have "e = Some e'" "r' = r3" using Cons.prems call ctx by (simp_all add: Let_def r2_def)
    then show ?thesis using q3 calm Some by (auto simp: quiet_def)
  next
    case None
    define r4 where "r4 = (if re_reason res = ReasonRuntimeStop
         then append_runtime_exited ?env 0 (pl_id pl) ''map[string]interface {}''
                (Some (JObj [(''stage'', JStr ''init'')])) (append_runtime_diagnostic ?env 0 (pl_id pl) res r3)
         else r3)"
    have w4: "fst (rn_world r4) = fst (rn_world r)"
      using q3 by (simp add: r4_def quiet_def append_runtime_exited_def append_runtime_diagnostic_def
          append_event_def Let_def)
    show ?thesis
    proof (cases "re_status res = ActionAccepted")
      case True
      then have "r4 = r3" using wf by (auto simp: r4_def well_formed_result_def)
      moreover have "init_players ?env meta st pls r4 = (e, r')"
        using Cons.prems call ctx None True by (simp add: Let_def r2_def r4_def)
      ultimately show ?thesis using Cons.IH [of r4] q3 w4 quiet_trans by auto
    next
      case False
      then have "e \<noteq> None" "fst (rn_world r') = fst (rn_world r4)"
        using Cons.prems call ctx None by (auto simp: Let_def r2_def r4_def append_event_def)
      then show ?thesis using w4 False accept by auto
    qed
  qed
qed simp

lemma emit_terminal_fields [simp]:
  "rn_final_snapshot (emit_terminal_event env r) = rn_final_snapshot r"
  "rn_final_result (emit_terminal_event env r) = rn_final_result r"
  by (cases "rn_status r"; simp add: emit_terminal_event_def append_event_def Let_def)+

lemma finish_run_hosted:
  assumes "finish_run (host g text penv) meta r = (rec, r')" "rn_status r = StatusCompleted"
  shows "rc_status rec = StatusCompleted \<and> rc_result rec = go_result g (fst (rn_world r)) \<and>
    sn_turn (rc_snapshot rec) = sn_turn (go_snapshot g (fst (rn_world r))) \<and>
    sn_game_state (rc_snapshot rec) = sn_game_state (go_snapshot g (fst (rn_world r)))"
proof -
  let ?env = "host g text penv" and ?m = "fst (rn_world r)"
  obtain r1 where c: "capture_final_state ?env r = (None, r1)" "rn_final_snapshot r1 = current_snapshot g ?m"
    "rn_final_result r1 = go_result g ?m" "rn_status r1 = StatusCompleted"
    using assms(2)
    by (simp add: capture_final_state_def ask_def capture_replay_def in_process_def)
  define r3 where "r3 = shutdown_game_master ?env (shutdown_sessions ?env r1)"
  have "logs r1 r3" unfolding r3_def using shutdown_sessions_logs shutdown_game_master_logs logs_trans by blast
  then have s3: "rn_status r3 = StatusCompleted" "rn_final_snapshot r3 = current_snapshot g ?m"
    "rn_final_result r3 = go_result g ?m"
    using c by (auto simp: logs_def same_outcome_def)
  have "rn_status (emit_terminal_event ?env r3) = StatusCompleted"
    using emit_terminal [of ?env r3] s3(1) by (auto simp: ended_def)
  moreover have "rec = build_record ?env meta (emit_terminal_event ?env r3)"
    using assms(1) unfolding finish_run_def c(1) Let_def r3_def by auto
  ultimately show ?thesis using s3
    by (simp add: build_record_def Let_def current_snapshot_def)
qed

lemma init_quiet:
  assumes "good_players penv" "\<exists>st. go_init g (fst (rn_world r)) = Inr st"
    and "initialize_sessions (host g text penv) meta r = (e, r')"
  shows "fst (rn_world r') = fst (rn_world r) \<and> (e = None \<longrightarrow> quiet r r') \<and>
    (calm penv \<and> welcoming penv \<and>
      (\<forall>st pl. go_init g (fst (rn_world r)) = Inr st \<longrightarrow> getd RawNone (is_per_player st) pl \<noteq> RawBad) \<longrightarrow> e = None)"
proof -
  let ?env = "host g text penv"
  obtain st where st: "go_init g (fst (rn_world r)) = Inr st" using assms(2) by blast
  define r2 where "r2 = append_map_event ?env ''game_master_initialized'' 0 [] [(''game'', enc_metadata meta)]
      (r\<lparr>rn_phase := StatusInitializing\<rparr>)"
  have q2: "quiet r r2" by (simp add: r2_def quiet_append)
  obtain e3 r3 where i: "init_players ?env meta st (rn_players r2) r2 = (e3, r3)" by fastforce
  note h = init_players_hosted [OF assms(1) i]
  have "ask (gs_init (en_master ?env)) (r\<lparr>rn_phase := StatusInitializing\<rparr>) = (Inr st, r\<lparr>rn_phase := StatusInitializing\<rparr>)"
    using st by (simp add: ask_def)
  then have eq: "(e, r') = (case (e3, r3) of (Some e, r3) \<Rightarrow> (Some e, r3) | (None, r3) \<Rightarrow> (None, publish_exported ?env r3))"
    using assms(3) i by (simp add: initialize_sessions_def Let_def flip: r2_def)
  show ?thesis
  proof (cases e3)
    case None
    then have r': "e = None" "r' = publish_exported ?env r3" using eq by simp_all
    have "quiet r r3" using h None q2 quiet_trans by blast
    then have "quiet r r'" using quiet_publish by (simp add: r'(2))
    then show ?thesis using r' by (simp add: quiet_def)
  next
    case (Some x)
    then show ?thesis using eq h q2 st by (auto simp: quiet_def)
  qed
qed

section \<open>Games whose logs can be replayed\<close>

locale recordable_game = game_master g inv remaining
  for g :: "('m, 'e) game_ops" and inv :: "'m \<Rightarrow> bool" and remaining :: "'m \<Rightarrow> nat" +
  fixes last_turn :: "'m \<Rightarrow> int"
  assumes normalize_player: "as_player s = rq_player req \<Longrightarrow> as_player (go_normalize g m req s) = rq_player req"
    and normalize_encodable: "encodable_status s \<Longrightarrow> encodable_status (go_normalize g m req s)"
    and next_requests: "inv m \<Longrightarrow> go_next g m = Inr (Some step) \<Longrightarrow> st_requests step \<noteq> []"
    and next_turn: "inv m \<Longrightarrow> go_next g m = Inr (Some step) \<Longrightarrow> st_turn step \<le> last_turn m"
    and end_turn: "inv m \<Longrightarrow> go_next g m = Inr None \<Longrightarrow> sn_turn (go_snapshot g m) = last_turn m"
    and apply_turn: "inv m \<Longrightarrow> go_next g m = Inr (Some step) \<Longrightarrow> answers step raws \<Longrightarrow>
      go_apply g m step (normalized g m step raws) = (None, m') \<Longrightarrow> last_turn m' = last_turn m"
begin

text \<open>The executions of a batch, all of them answered without a cancelled context.\<close>

lemma settle_hosted:
  assumes "\<forall>ex \<in> set exs. te_err ex = None \<and> encodable_status (te_status ex) \<and>
      as_player (te_status ex) = rq_player (te_request ex)"
  shows "\<exists>ss evs r'. settle_turns (host g text penv) turn exs r = (Inr ss, r') \<and>
    ss = map (\<lambda>ex. go_normalize g (fst (rn_world r)) (te_request ex) (te_status ex)) exs \<and>
    fst (rn_world r') = fst (rn_world r) \<and> rn_events r' = rn_events r @ evs \<and>
    list_all2 (records turn) ss (recorded evs)"
  using assms
proof (induction exs arbitrary: r)
  case Nil
  then show ?case by simp
next
  case (Cons ex exs)
  let ?s = "go_normalize g (fst (rn_world r)) (te_request ex) (te_status ex)"
  let ?r1 = "record_turn (host g text penv) turn (ex\<lparr>te_status := ?s\<rparr>) r"
  have "encodable_status ?s" "as_player ?s = rq_player (te_request ex)"
    using Cons.prems normalize_encodable normalize_player by auto
  then obtain evs1 ev where first: "rn_events ?r1 = rn_events r @ evs1" "recorded evs1 = [ev]"
    "records turn ?s ev" "fst (rn_world ?r1) = fst (rn_world r)"
    using record_turn_records [of "ex\<lparr>te_status := ?s\<rparr>" g "text" penv turn r] by auto
  obtain ss evs r' where rest: "settle_turns (host g text penv) turn exs ?r1 = (Inr ss, r')"
    "ss = map (\<lambda>ex. go_normalize g (fst (rn_world ?r1)) (te_request ex) (te_status ex)) exs"
    "fst (rn_world r') = fst (rn_world ?r1)" "rn_events r' = rn_events ?r1 @ evs"
    "list_all2 (records turn) ss (recorded evs)"
    using Cons.IH [of ?r1] Cons.prems by auto
  have "settle_turns (host g text penv) turn (ex # exs) r = (Inr (?s # ss), r')"
    using Cons.prems rest(1) by (simp add: ask_def)
  with first rest show ?case
    by (intro exI [of _ "?s # ss"] exI [of _ "evs1 @ evs"] exI [of _ r']) simp
qed

lemma settle_hosted_fails:
  assumes "\<exists>ex \<in> set exs. te_err ex \<noteq> None"
    and "\<forall>ex \<in> set exs. encodable_status (te_status ex) \<and> as_player (te_status ex) = rq_player (te_request ex)"
  shows "\<exists>e r'. settle_turns (host g text penv) turn exs r = (Inl e, r') \<and>
    (\<exists>ex \<in> set exs. te_err ex = Some e) \<and> fst (rn_world r') = fst (rn_world r)"
  using assms
proof (induction exs arbitrary: r)
  case (Cons ex exs)
  show ?case
  proof (cases "te_err ex")
    case None
    let ?s = "go_normalize g (fst (rn_world r)) (te_request ex) (te_status ex)"
    let ?r1 = "record_turn (host g text penv) turn (ex\<lparr>te_status := ?s\<rparr>) r"
    have "encodable_status ?s" "as_player ?s = rq_player (te_request ex)"
      using Cons.prems(2) normalize_encodable normalize_player by auto
    then have w: "fst (rn_world ?r1) = fst (rn_world r)"
      using record_turn_records [of "ex\<lparr>te_status := ?s\<rparr>" g "text" penv turn r] by auto
    have "\<exists>x \<in> set exs. te_err x \<noteq> None" using Cons.prems None by auto
    then obtain e r' where "settle_turns (host g text penv) turn exs ?r1 = (Inl e, r')"
      "\<exists>ex \<in> set exs. te_err ex = Some e" "fst (rn_world r') = fst (rn_world ?r1)"
      using Cons.IH Cons.prems(2) by (meson list.set_intros(2))
    then show ?thesis using None w by (auto simp: ask_def)
  qed auto
qed simp

text \<open>One step of a hosted game.\<close>

lemma executions_of_batch:
  assumes "good_players penv" "execute_turns (host g text penv) turn reqs r = (exs, r')"
  shows "map te_request exs = reqs" "quiet r r'"
    "\<And>ex. ex \<in> set exs \<Longrightarrow> encodable_status (te_status ex) \<and> as_player (te_status ex) = rq_player (te_request ex) \<and>
       (as_decision (te_status ex) = ActionAccepted \<and> as_reason (te_status ex) = NoReason \<or>
        as_decision (te_status ex) = ActionNoAction)"
    "\<And>ex e. ex \<in> set exs \<Longrightarrow> te_err ex = Some e \<Longrightarrow>
       \<exists>p i. snd (fst (en_turns penv turn reqs p) i) = Some e"
proof -
  obtain outcome w where o: "en_turns penv turn reqs (snd (rn_world r)) = (outcome, w)" by fastforce
  have exs: "exs = map (\<lambda>(i, req). execution req (outcome i)) (enumerate 0 reqs)"
    and r': "r' = r\<lparr>rn_world := (fst (rn_world r), w)\<rparr>"
    using assms(2) o by (auto simp: execute_turns_def ask_def beside_def)
  have "map te_request exs = map snd (enumerate 0 reqs)"
    by (simp add: exs execution_def case_prod_beta o_def)
  then show "map te_request exs = reqs" by simp
  show "quiet r r'" by (simp add: r' quiet_def)
  have good: "good_result (fst (outcome i))" for i
    using assms(1) o unfolding good_players_def by (metis fst_conv)
  show "encodable_status (te_status ex) \<and> as_player (te_status ex) = rq_player (te_request ex) \<and>
       (as_decision (te_status ex) = ActionAccepted \<and> as_reason (te_status ex) = NoReason \<or>
        as_decision (te_status ex) = ActionNoAction)" if ex: "ex \<in> set exs" for ex
  proof -
    from ex obtain i req where "ex = execution req (outcome i)" by (auto simp: exs)
    then show ?thesis using good [of i]
      by (cases "outcome i")
        (auto simp: execution_def good_result_def well_formed_result_def encodable_status_def)
  qed
  show "\<exists>p i. snd (fst (en_turns penv turn reqs p) i) = Some e" if ex: "ex \<in> set exs" "te_err ex = Some e" for ex e
  proof -
    from ex obtain i req where "ex = execution req (outcome i)" by (auto simp: exs)
    with ex(2) have "snd (outcome i) = Some e" by (cases "outcome i") (simp add: execution_def)
    then show ?thesis using o by (intro exI [of _ "snd (rn_world r)"] exI [of _ i]) simp
  qed
qed

lemma run_step_hosted:
  assumes good: "good_players penv" and inv: "inv (fst (rn_world r))"
    and next_: "go_next g (fst (rn_world r)) = Inr (Some step)"
  shows "(\<exists>r' raws es. run_step (host g text penv) step r = (None, r') \<and> answers step raws \<and>
      go_apply g (fst (rn_world r)) step (normalized g (fst (rn_world r)) step raws) = (None, fst (rn_world r')) \<and>
      rn_events r' = rn_events r @ es \<and>
      list_all2 (records (st_turn step)) (normalized g (fst (rn_world r)) step raws) (recorded es) \<and>
      map as_player (normalized g (fst (rn_world r)) step raws) = map rq_player (st_requests step) \<and>
      (\<forall>s \<in> set (normalized g (fst (rn_world r)) step raws). encodable_status s)) \<or>
    (\<exists>e r'. run_step (host g text penv) step r = (Some e, r') \<and> \<not> calm penv \<and>
       fst (rn_world r') = fst (rn_world r))"
proof -
  let ?env = "host g text penv" and ?m = "fst (rn_world r)" and ?t = "st_turn step" and ?reqs = "st_requests step"
  define r1 where "r1 = fold (prepare_turn ?env ?t) ?reqs r"
  have q1: "quiet r r1" unfolding r1_def by (rule quiet_fold) (rule quiet_prepare)
  obtain exs r2 where x: "execute_turns ?env ?t ?reqs r1 = (exs, r2)" by fastforce
  note b = executions_of_batch [OF good x]
  have q2: "quiet r r2" using q1 b(2) quiet_trans by blast
  then have m2: "fst (rn_world r2) = ?m" by (simp add: quiet_def)
  show ?thesis
  proof (cases "\<exists>ex \<in> set exs. te_err ex \<noteq> None")
    case True
    obtain e r3 where e: "settle_turns ?env ?t exs r2 = (Inl e, r3)" "\<exists>ex \<in> set exs. te_err ex = Some e"
      "fst (rn_world r3) = ?m"
      using settle_hosted_fails [OF True, of "text" penv ?t r2] b(3) m2 by auto
    then have "\<not> calm penv" using b(4) by (fastforce simp: calm_def)
    then show ?thesis using e x by (auto simp: run_step_def Let_def simp flip: r1_def)
  next
    case False
    then have "\<forall>ex \<in> set exs. te_err ex = None \<and> encodable_status (te_status ex) \<and>
        as_player (te_status ex) = rq_player (te_request ex)" using b(3) by auto
    from settle_hosted [OF this, of "text" penv ?t r2] m2 obtain ss evs r3 where
      s: "settle_turns ?env ?t exs r2 = (Inr ss, r3)"
      "ss = map (\<lambda>ex. go_normalize g ?m (te_request ex) (te_status ex)) exs"
      "fst (rn_world r3) = ?m" "rn_events r3 = rn_events r2 @ evs" "list_all2 (records ?t) ss (recorded evs)"
      by auto
    let ?raws = "map te_status exs"
    have "map as_player ?raws = map rq_player (map te_request exs)" using b(3) by simp
    then have ans: "answers step ?raws"
      unfolding answers_def b(1) using b(3) by auto
    have zip: "map2 f (map te_request exs) (map te_status exs) = map (\<lambda>ex. f (te_request ex) (te_status ex)) exs"
      for f :: "decision_request \<Rightarrow> action_status \<Rightarrow> action_status"
      by (induction exs) auto
    have ss: "ss = normalized g ?m step ?raws"
      unfolding normalized_def b(1) [symmetric] zip s(2) ..
    obtain m' where m': "go_apply g ?m step ss = (None, m')"
      using apply_ok [OF inv next_ ans] ss by auto
    let ?r4 = "r3\<lparr>rn_world := (m', snd (rn_world r3))\<rparr>"
    have ask: "ask (gs_apply (en_master ?env) step ss) r3 = (None, ?r4)"
      by (simp add: ask_def s(3) m')
    have run: "run_step ?env step r = (None, publish_exported ?env ?r4)"
      unfolding run_step_def r1_def [symmetric] Let_def x using s(1) ask by simp
    obtain es4 where q4: "fst (rn_world (publish_exported ?env ?r4)) = m'"
      "rn_events (publish_exported ?env ?r4) = rn_events r3 @ es4" "recorded es4 = []"
      using quiet_publish [OF quiet_refl, of ?r4 g "text" penv] by (auto simp: quiet_def)
    obtain es2 where e2: "rn_events r2 = rn_events r @ es2" "recorded es2 = []"
      using q2 by (auto simp: quiet_def)
    have pl: "map as_player ss = map rq_player ?reqs"
    proof -
      have "map as_player ss = map (\<lambda>ex. rq_player (te_request ex)) exs"
        using b(3) normalize_player by (auto simp: s(2))
      then show ?thesis by (simp add: b(1) [symmetric])
    qed
    have enc: "\<forall>y \<in> set ss. encodable_status y"
      using b(3) normalize_encodable by (auto simp: s(2))
    have "rn_events (publish_exported ?env ?r4) = rn_events r @ (es2 @ evs @ es4)"
      using q4(2) s(4) e2(1) by simp
    moreover have "recorded (es2 @ evs @ es4) = recorded evs" using e2(2) q4(3) by simp
    ultimately show ?thesis
      using run ans q4(1) m' s(5) pl enc unfolding ss by (intro disjI1) metis
  qed
qed

text \<open>The decision loop of a hosted game.\<close>

lemma decision_loop_hosted:
  assumes "good_players penv" "inv (fst (rn_world r))" "remaining (fst (rn_world r)) < n"
  shows "\<exists>l r' es. decision_loop (host g text penv) n r = (l, r') \<and> l \<noteq> OutOfFuel \<and>
    plays g (fst (rn_world r)) (fst (rn_world r')) \<and>
    rn_events r' = rn_events r @ es \<and>
    (l = LoopDone \<longrightarrow> go_next g (fst (rn_world r')) = Inr None \<and>
       logged g (fst (rn_world r)) (recorded es) (fst (rn_world r')) \<and>
       last_turn (fst (rn_world r')) = last_turn (fst (rn_world r))) \<and>
    (l \<noteq> LoopDone \<longrightarrow> \<not> calm penv)"
  using assms
proof (induction n arbitrary: r)
  case 0
  then show ?case by simp
next
  case (Suc n)
  let ?env = "host g text penv" and ?m = "fst (rn_world r)"
  obtain c p where c: "en_ctx penv (snd (rn_world r)) = (c, p)" by fastforce
  let ?r1 = "r\<lparr>rn_world := (?m, p)\<rparr>"
  have ask_ctx: "ask (en_ctx ?env) r = (c, ?r1)" by (simp add: ask_def beside_def c)
  have ask_next: "ask (gs_next (en_master ?env)) ?r1 = (lift_result text (go_next g ?m), ?r1)"
    by (simp add: ask_def)
  show ?case
  proof (cases c)
    case (Some e)
    then have "\<not> calm penv" using c unfolding calm_def by (metis fst_conv option.distinct(1))
    then show ?thesis using Some ask_ctx by (simp add: one_step_def plays_refl)
  next
    case None
    obtain o' where o: "go_next g ?m = Inr o'" using next_ok [OF Suc.prems(2)] by blast
    show ?thesis
    proof (cases o')
      case no: None
      then show ?thesis using None ask_ctx ask_next o
        by (simp add: one_step_def plays_refl logged_refl)
    next
      case (Some step)
      have next_: "go_next g (fst (rn_world ?r1)) = Inr (Some step)" using o Some by simp
      have mode: "st_mode step = Simultaneous \<or> st_mode step = Sequential \<and> length (st_requests step) = 1"
        using next_mode [OF Suc.prems(2)] o Some by simp
      have one: "one_step ?env r = (case run_step ?env step ?r1 of
          (Some e, r3) \<Rightarrow> (Some (LoopFailed e), r3) | (None, r3) \<Rightarrow> (None, r3))"
        unfolding one_step_def ask_ctx using mode None ask_next o Some by simp
      have inv1: "inv (fst (rn_world ?r1))" using Suc.prems(2) by simp
      from run_step_hosted [OF Suc.prems(1) inv1 next_, of "text"] show ?thesis
      proof (elim disjE exE conjE, goal_cases)
        case (1 r3 raws es)
        let ?m3 = "fst (rn_world r3)" and ?ss = "normalized g (fst (rn_world ?r1)) step raws"
        have ap: "go_apply g ?m step (normalized g ?m step raws) = (None, ?m3)" using 1 by simp
        obtain m' where m': "go_apply g ?m step (normalized g ?m step raws) = (None, m')" "inv m'"
          "Suc (remaining m') = remaining ?m"
          using apply_ok [OF Suc.prems(2) _ 1(2)] o Some by auto
        then have inv3: "inv ?m3" "remaining ?m3 < n" using ap Suc.prems(3) by auto
        obtain l r' es' where rest: "decision_loop ?env n r3 = (l, r')" "l \<noteq> OutOfFuel"
          "plays g ?m3 (fst (rn_world r'))" "rn_events r' = rn_events r3 @ es'"
          "l = LoopDone \<longrightarrow> go_next g (fst (rn_world r')) = Inr None \<and>
             logged g ?m3 (recorded es') (fst (rn_world r')) \<and> last_turn (fst (rn_world r')) = last_turn ?m3"
          "l \<noteq> LoopDone \<longrightarrow> \<not> calm penv"
          using Suc.IH [OF Suc.prems(1) inv3] by blast
        have n: "go_next g ?m = Inr (Some step)" using o Some by simp
        have "plays g ?m ?m3" by (rule plays_step [OF plays_refl n 1(2) ap])
        then have p: "plays g ?m (fst (rn_world r'))" using plays_trans rest(3) by blast
        have lt: "last_turn ?m3 = last_turn ?m" by (rule apply_turn [OF Suc.prems(2) n 1(2) ap])
        have "logged g ?m (recorded es @ recorded es') (fst (rn_world r'))" if "l = LoopDone"
          using 1 rest(5) that next_requests [OF Suc.prems(2) n] n ap
          by (intro logged_step [where ss = "normalized g ?m step raws"]) auto
        then show ?case using one 1(1,4) rest p lt
          by (intro exI [of _ l] exI [of _ r'] exI [of _ "es @ es'"]) auto
      next
        case (2 e r3)
        then have grow: "\<exists>es. rn_events r3 = rn_events r @ es"
          using run_step_logs [of ?env step ?r1] by (force simp: logs_def grows_def)
        then show ?case using one 2 plays_refl by auto
      qed
    qed
  qed
qed


text \<open>
  A whole run: enough fuel is one more than the steps that are left; a run without error is
  completed, played the game to its end, and recorded it.
\<close>

lemma hosted_run:
  assumes good: "good_players penv" and inv: "inv m0" and fuel: "remaining m0 < fuel"
  shows "\<exists>e rec r. run (host g text penv) fuel (new_runner match_id players (m0, p)) = Some (e, rec, r) \<and>
    (e = None \<longrightarrow> (\<exists>m es rest. plays g m0 m \<and> go_next g m = Inr None \<and> logged g m0 es m \<and>
       recorded (rc_event_log rec) = es @ rest \<and> rc_status rec = StatusCompleted \<and>
       rc_result rec = go_result g m \<and> sn_turn (rc_snapshot rec) = last_turn m0 \<and>
       last_turn m = last_turn m0 \<and>
       sn_game_state (rc_snapshot rec) = sn_game_state (go_snapshot g m))) \<and>
    (calm penv \<and> welcoming penv \<and>
      (\<forall>st pl. go_init g m0 = Inr st \<longrightarrow> getd RawNone (is_per_player st) pl \<noteq> RawBad) \<longrightarrow> e = None)"
proof -
  let ?env = "host g text penv" and ?r0 = "new_runner match_id players (m0, p)"
  let ?meta = "gs_metadata (en_master ?env) (rn_world ?r0)"
  define r1 where "r1 = match_started ?env ?meta ?r0"
  have "quiet ?r0 r1" unfolding r1_def match_started_def by (rule quiet_append) simp_all
  then have m1: "fst (rn_world r1) = m0" "recorded (rn_events r1) = []"
    by (auto simp: quiet_def new_runner_def)
  obtain ie r2 where i: "initialize_sessions ?env ?meta r1 = (ie, r2)" by fastforce
  have init: "\<exists>st. go_init g (fst (rn_world r1)) = Inr st" using init_ok [OF inv] m1 by simp
  note q = init_quiet [OF good init i]
  show ?thesis
  proof (cases ie)
    case (Some x)
    then have "\<not> (calm penv \<and> welcoming penv \<and>
        (\<forall>st pl. go_init g m0 = Inr st \<longrightarrow> getd RawNone (is_per_player st) pl \<noteq> RawBad))"
      using q m1(1) by auto
    moreover obtain e' r3 where c: "classify_terminal_error ?env x r2 = (e', r3)" by fastforce
    moreover obtain rec r where fin: "finish_run ?env ?meta r3 = (rec, r)" by fastforce
    moreover have "run ?env fuel ?r0 = Some (Some e', rec, r)"
      by (simp only: run_def Let_def r1_def [symmetric] i Some c fin option.case prod.case)
    ultimately show ?thesis by blast
  next
    case None
    then have q2: "quiet r1 r2" using q by simp
    then have m2: "fst (rn_world r2) = m0" "recorded (rn_events r2) = []"
      using m1 by (auto simp: quiet_def)
    let ?r2 = "r2\<lparr>rn_phase := StatusRunning\<rparr>"
    have pre: "inv (fst (rn_world ?r2))" "remaining (fst (rn_world ?r2)) < fuel" using m2 inv fuel by simp_all
    obtain l r3 es where l: "decision_loop ?env fuel ?r2 = (l, r3)" "l \<noteq> OutOfFuel"
      "plays g m0 (fst (rn_world r3))" "rn_events r3 = rn_events r2 @ es"
      "l = LoopDone \<longrightarrow> go_next g (fst (rn_world r3)) = Inr None \<and>
         logged g m0 (recorded es) (fst (rn_world r3)) \<and> last_turn (fst (rn_world r3)) = last_turn m0"
      "l \<noteq> LoopDone \<longrightarrow> \<not> calm penv"
      using decision_loop_hosted [OF good pre, of "text"] m2(1) by auto
    show ?thesis
    proof (cases l)
      case LoopDone
      let ?r3 = "r3\<lparr>rn_phase := StatusFinishing, rn_status := StatusCompleted\<rparr>" and ?m = "fst (rn_world r3)"
      obtain rec r where fin: "finish_run ?env ?meta ?r3 = (rec, r)" by fastforce
      have "run ?env fuel ?r0 = Some (None, rec, r)"
        by (simp only: run_def Let_def r1_def [symmetric] i None l(1) LoopDone fin
            option.case prod.case loop_end.case)
      moreover have rec: "rc_status rec = StatusCompleted" "rc_result rec = go_result g ?m"
        "sn_turn (rc_snapshot rec) = sn_turn (go_snapshot g ?m)"
        "sn_game_state (rc_snapshot rec) = sn_game_state (go_snapshot g ?m)"
        using finish_run_hosted [OF fin] by simp_all
      moreover have "inv ?m" using plays_inv [OF l(3) inv] by simp
      then have "sn_turn (go_snapshot g ?m) = last_turn m0" using end_turn l(5) LoopDone by simp
      moreover have "\<exists>rest. recorded (rc_event_log rec) = recorded es @ rest"
      proof -
        have "grows ?r0 r1" unfolding r1_def match_started_def by (rule grows_append) simp_all
        moreover have "grows r1 ?r2" using initialize_logs [OF i] by (simp add: logs_def)
        moreover have "grows ?r2 ?r3" using decision_loop_logs [OF l(1)] by (simp add: logs_def)
        ultimately have "grows ?r0 ?r3" by (rule grows_trans [OF grows_trans])
        then have "map ev_seq (rn_events ?r3) = [1..rn_next_seq ?r3]" "0 \<le> rn_next_seq ?r3"
          using grows_log [of ?r0 ?r3] by (simp_all add: new_runner_def)
        from finish_run_log [OF fin this] obtain evs ev where
          "rc_event_log rec = rn_events ?r3 @ evs @ [ev]" by blast
        then show ?thesis using l(4) m2(2) by simp
      qed
      ultimately show ?thesis using l(3,5) LoopDone by (intro exI conjI; blast?) auto
    next
      case (LoopFailed x)
      obtain e' r4 where c: "classify_terminal_error ?env x r3 = (e', r4)" by fastforce
      obtain rec r where fin: "finish_run ?env ?meta r4 = (rec, r)" by fastforce
      have "run ?env fuel ?r0 = Some (Some e', rec, r)"
        by (simp only: run_def Let_def r1_def [symmetric] i None l(1) LoopFailed c fin
            option.case prod.case loop_end.case)
      then show ?thesis using l(6) LoopFailed by blast
    next
      case OutOfFuel
      then show ?thesis using l(2) by simp
    qed
  qed
qed

text \<open>Replaying the log of a completed run, up to any turn of the game.\<close>

lemma replay_of_run:
  assumes "inv m0" "logged g m0 es m" "go_next g m = Inr None" "last_turn m = last_turn m0"
    and "inv m" "recorded log = es @ rest" "0 \<le> target" "target \<le> last_turn m0" "length es < fuel"
  shows "\<exists>m1 es1 es2. logged g m0 es1 m1 \<and> logged g m1 es2 m \<and> es = es1 @ es2 \<and> replay_stops g target m1 \<and>
    (\<forall>ev \<in> set es1. ev_turn ev \<le> target) \<and>
    snapshot_from_session_history (in_process g text) (Inr (m0, p)) fuel log target =
      Some (Inr (current_snapshot g m1))"
proof -
  have "target \<le> sn_turn (go_snapshot g m)" using end_turn [OF assms(5,3)] assms(4,8) by simp
  from replay_logged [OF assms(2,3) this assms(6,9), of "text" p] obtain m1 es1 es2 where
    "logged g m0 es1 m1" "logged g m1 es2 m" "es = es1 @ es2" "replay_stops g target m1"
    "\<forall>ev \<in> set es1. ev_turn ev \<le> target"
    "replay_loop (in_process g text) fuel log target (m0, p) = Some (Inr (current_snapshot g m1))" by blast
  moreover obtain st where "go_init g m0 = Inr st" using init_ok [OF assms(1)] by blast
  ultimately show ?thesis using assms(7) by (auto simp: snapshot_from_session_history_def)
qed

end

end
