(* ===== verification/Janken_Matches.thy ===== *)
theory Janken_Matches
  imports Janken_Restore Match_Host
begin

text \<open>
  Complete janken matches: the runner with a janken master in its process, and the replay of
  the event logs it writes.
\<close>

lemma janken_normalize_encodable:
  "encodable_status s \<Longrightarrow> encodable_status (normalize_action req s)"
  by (auto simp: encodable_status_def normalize_action_def Let_def enc_action_def split: option.split)

interpretation jk_record: recordable_game janken_game janken_ok
  "\<lambda>m. nat (jk_rounds m - jk_resolved m)" jk_rounds
proof
  show "as_player (go_normalize janken_game m req s) = rq_player req" if "as_player s = rq_player req" for s req m
    using that by simp
  show "encodable_status (go_normalize janken_game m req s)" if "encodable_status s" for s req m
    using janken_normalize_encodable [OF that] by simp
  show "st_requests step \<noteq> []" if "janken_ok m" "go_next janken_game m = Inr (Some step)" for m step
    using that by (auto simp: next_step_some janken_ok_def)
  show "st_turn step \<le> jk_rounds m" if "go_next janken_game m = Inr (Some step)" for m step
    using that by (auto simp: next_step_some)
  show "sn_turn (go_snapshot janken_game m) = jk_rounds m" if "janken_ok m" "go_next janken_game m = Inr None" for m
    using that by (auto simp: next_step_def janken_ok_def take_snapshot_def split: if_splits)
  show "jk_rounds m' = jk_rounds m"
    if "janken_ok m" "go_next janken_game m = Inr (Some step)" "answers step raws"
      "go_apply janken_game m step (normalized janken_game m step raws) = (None, m')" for m step raws m'
    using janken_ok_step [OF that(1) _ that(3)] that(2,4) by auto
qed

lemma janken_init_encodable:
  "go_init janken_game m = Inr st \<Longrightarrow> getd RawNone (is_per_player st) pl \<noteq> RawBad"
proof -
  assume "go_init janken_game m = Inr st"
  then obtain j where st: "is_per_player st = put_all pl_id (\<lambda>_. RawJson j) (jk_players m) []"
    by (auto simp: init_def Let_def)
  show ?thesis
  proof (cases "pl \<in> pl_id ` set (jk_players m)")
    case True
    then show ?thesis by (simp add: st getd_def map_of_put_all_const)
  next
    case False
    then show ?thesis by (simp add: st getd_def map_of_put_all_notin)
  qed
qed

text \<open>
  C2. A janken match hosted by the runner always ends: six rounds of the decision loop are
  enough whatever the players do, and when the runner reports no error the record is
  completed at turn five with the placements of the state that was reached. It reports none
  when every player accepts its initialisation and the context is not cancelled.
\<close>

theorem janken_match_completes:
  assumes "new_master cfg = Inr m0" "distinct (map pl_id (cf_players cfg))" "good_players penv"
  shows "\<exists>e rec r. run (host janken_game text penv) 6 (new_runner match_id (cf_players cfg) (m0, p)) = Some (e, rec, r) \<and>
    (e = None \<longrightarrow> rc_status rec = StatusCompleted \<and> sn_turn (rc_snapshot rec) = 5 \<and>
      (\<exists>m. plays janken_game m0 m \<and> next_step m = None \<and> rc_result rec = Janken.result m)) \<and>
    (calm penv \<and> welcoming penv \<longrightarrow> e = None)"
proof -
  have ok: "janken_ok m0" by (rule janken_ok_new [OF assms(1,2)])
  have five: "jk_rounds m0 = 5" "jk_resolved m0 = 0"
    using new_master_fields [OF assms(1)] by (simp_all add: RegularRounds_def)
  then have fuel: "nat (jk_rounds m0 - jk_resolved m0) < 6" by simp
  show ?thesis
    using jk_record.hosted_run [OF assms(3) ok fuel, of "text" match_id "cf_players cfg" p]
      janken_init_encodable [of m0] five
    by (elim exE conjE) (intro exI conjI; fastforce)
qed

section \<open>Replay\<close>

lemma apply_step_resolved:
  "apply_step m step ss = Inr m' \<Longrightarrow> jk_resolved m' = jk_resolved m + 1 \<and> jk_rounds m' = jk_rounds m"
proof -
  assume ok: "apply_step m step ss = Inr m'"
  then have "st_mode step = Simultaneous" "length ss = length (jk_players m)"
    by (auto simp: apply_step_def split: if_splits)
  with ok show ?thesis by (auto simp: apply_step_eq Let_def)
qed

lemma logged_rounds: "logged janken_game m es m' \<Longrightarrow> jk_rounds m' = jk_rounds m"
  by (induction rule: logged.induct) (auto dest: apply_step_resolved split: sum.splits)

lemma logged_last_turn:
  assumes "logged janken_game m es m'"
  shows "es = [] \<and> m' = m \<or> (\<exists>ev \<in> set es. ev_turn ev = jk_resolved m')"
  using assms
proof (induction rule: logged.induct)
  case (logged_step m step ss es m1 evs m')
  have "jk_resolved m1 = st_turn step"
    using logged_step.hyps(1,5) apply_step_resolved
    by (auto simp: next_step_some split: sum.splits)
  moreover have "es \<noteq> []"
    using logged_step.hyps(2,4,6) by (metis list.map_disc_iff list_all2_Nil2)
  then obtain ev where "ev \<in> set es" by (cases es) auto
  moreover from this have "ev_turn ev = st_turn step"
    using logged_step.hyps(4) by (auto simp: list_all2_conv_all_nth records_def in_set_conv_nth)
  ultimately show ?case using logged_step.IH by auto
qed simp

text \<open>
  C3. The event log of a completed janken match is a faithful record: replaying it up to any
  turn 0 to 5 through a fresh master succeeds and gives the in-process snapshot of that turn,
  taken at a state the match passed through; at turn 5 its game state is that of the
  match's final snapshot.
\<close>

theorem janken_log_replays:
  assumes new: "new_master cfg = Inr m0" and d: "distinct (map pl_id (cf_players cfg))"
    and good: "good_players penv"
    and run: "run (host janken_game text penv) 6 (new_runner match_id (cf_players cfg) (m0, p)) = Some (None, rec, r)"
    and target: "0 \<le> target" "target \<le> 5"
  shows "\<exists>m1 es1 sn. snapshot_from_session_history (in_process janken_game text) (Inr (m0, q))
      (Suc (length (rc_event_log rec))) (rc_event_log rec) target = Some (Inr sn) \<and>
    sn = current_snapshot janken_game m1 \<and> sn_turn sn = target \<and>
    logged janken_game m0 es1 m1 \<and> prefix es1 (recorded (rc_event_log rec)) \<and>
    (target = 5 \<longrightarrow> sn_game_state sn = sn_game_state (rc_snapshot rec))"
proof -
  have ok: "janken_ok m0" by (rule janken_ok_new [OF new d])
  have five: "jk_rounds m0 = 5" "jk_resolved m0 = 0"
    using new_master_fields [OF new] by (simp_all add: RegularRounds_def)
  then have fuel: "nat (jk_rounds m0 - jk_resolved m0) < 6" by simp
  obtain m es rest where m: "plays janken_game m0 m" "go_next janken_game m = Inr None"
    "logged janken_game m0 es m" "recorded (rc_event_log rec) = es @ rest" "jk_rounds m = jk_rounds m0"
    "sn_game_state (rc_snapshot rec) = sn_game_state (go_snapshot janken_game m)"
    using jk_record.hosted_run [OF good ok fuel, of "text" match_id "cf_players cfg" p] run by auto
  have okm: "janken_ok m" using jk_game.plays_inv [OF m(1) ok] by simp
  have len: "length es < Suc (length (rc_event_log rec))"
    using length_filter_le [of "\<lambda>ev. is_recorded_action_status_event (ev_kind ev)" "rc_event_log rec"]
    unfolding m(4) by simp
  have t5: "target \<le> jk_rounds m0" using target(2) five by simp
  obtain m1 es1 es2 where r: "logged janken_game m0 es1 m1" "logged janken_game m1 es2 m"
    "es = es1 @ es2" "replay_stops janken_game target m1" "\<forall>ev \<in> set es1. ev_turn ev \<le> target"
    "snapshot_from_session_history (in_process janken_game text) (Inr (m0, q))
       (Suc (length (rc_event_log rec))) (rc_event_log rec) target = Some (Inr (current_snapshot janken_game m1))"
    using jk_record.replay_of_run [OF ok m(3,2,5) okm m(4) target(1) t5 len, of "text" q] by blast
  have rounds: "jk_rounds m1 = 5" using logged_rounds [OF r(1)] five by simp
  have "jk_resolved m1 \<le> target"
    using logged_last_turn [OF r(1)] r(5) five target(1) by auto
  moreover have "target \<le> jk_resolved m1"
    using r(4) by (auto simp: replay_stops_def next_step_some take_snapshot_def)
  ultimately have t: "jk_resolved m1 = target" by simp
  have "m1 = m" if "target = 5"
    using logged_end [OF r(2)] t rounds that by (simp add: next_step_def)
  then have "sn_game_state (current_snapshot janken_game m1) = sn_game_state (rc_snapshot rec)" if "target = 5"
    using that m(6) by (simp add: current_snapshot_def Let_def)
  moreover have "sn_turn (current_snapshot janken_game m1) = target"
    using t by (simp add: take_snapshot_def)
  ultimately show ?thesis using r(1,3,6) m(4)
    by (intro exI [of _ m1] exI [of _ es1] exI [of _ "current_snapshot janken_game m1"] conjI impI)
      (simp_all add: prefix_def)
qed

section \<open>A concrete match\<close>

text \<open>
  Two players behind well-behaved sessions: both accept their initialisation, the first
  plays rock every round, the second lets every odd request time out.
\<close>

definition untold :: "error \<Rightarrow> string" where
  "untold e = ''janken''"

definition rock_result :: result where
  "rock_result = \<lparr>re_status = ActionAccepted, re_reason = NoReason,
     re_payload = RawJson (JObj [(''action'', JStr ''rock'')]), re_ignored = [], re_runtime_error = []\<rparr>"

definition rock_players :: "(master \<times> nat) env" where
  "rock_players =
     \<lparr>en_master = in_process janken_game untold,
      en_ctx = (\<lambda>w. (None, w)),
      en_init = (\<lambda>pl params w. (rock_result, w)),
      en_turns = (\<lambda>turn reqs w. ((\<lambda>i. (if i = 1 \<and> odd (snd w) then failed ReasonTimeout else rock_result, None)),
                   fst w, Suc (snd w))),
      en_game_over = (\<lambda>pl params w. (rock_result, w)),
      en_close = (\<lambda>pl w. (None, w)),
      en_stderr = (\<lambda>pl w. \<lparr>se_output = [], se_bytes_read = 0, se_truncated = False\<rparr>),
      en_on_event = (\<lambda>ev w. w),
      en_on_exported = (\<lambda>xs w. w),
      en_publishes = True,
      en_init_deadline = default_init_ack_deadline,
      en_game_over_deadline = default_game_over_ack_deadline,
      en_marshal_error = []\<rparr>"

lemma rock_players_ok: "good_players rock_players" "calm rock_players" "welcoming rock_players"
  by (simp_all add: good_players_def good_result_def well_formed_result_def calm_def welcoming_def
      rock_players_def rock_result_def failed_def)

theorem janken_match_completes_witness:
  "\<exists>rec r. run (host janken_game untold rock_players) 6
      (new_runner ''m'' (cf_players sample_config) (sample_master, sample_master, 0)) = Some (None, rec, r) \<and>
    rc_status rec = StatusCompleted \<and> sn_turn (rc_snapshot rec) = 5"
  using janken_match_completes [OF new_sample_master sample_distinct rock_players_ok(1),
      of untold "''m''" "(sample_master, 0)"] rock_players_ok by auto

text \<open>The completed run of these players, for the witnesses of the other properties.\<close>

lemma sample_run:
  "\<exists>rec r. run (host janken_game untold rock_players) 6
      (new_runner ''m'' (cf_players sample_config) (sample_master, sample_master, 0)) = Some (None, rec, r)"
proof -
  have ok: "janken_ok sample_master" by (rule janken_ok_new [OF new_sample_master sample_distinct])
  have "nat (jk_rounds sample_master - jk_resolved sample_master) < 6"
    using new_master_fields [OF new_sample_master] by (simp add: RegularRounds_def)
  from jk_record.hosted_run [OF rock_players_ok(1) ok this, of untold "''m''" "cf_players sample_config" "(sample_master, 0)"]
  show ?thesis using rock_players_ok janken_init_encodable [of sample_master] by auto
qed

theorem janken_log_replays_witness:
  "\<exists>rec r. run (host janken_game untold rock_players) 6
      (new_runner ''m'' (cf_players sample_config) (sample_master, sample_master, 0)) = Some (None, rec, r) \<and>
    (\<exists>sn. snapshot_from_session_history (in_process janken_game untold) (Inr (sample_master, ()))
      (Suc (length (rc_event_log rec))) (rc_event_log rec) 3 = Some (Inr sn) \<and> sn_turn sn = 3)"
proof -
  obtain rec r where r: "run (host janken_game untold rock_players) 6
      (new_runner ''m'' (cf_players sample_config) (sample_master, sample_master, 0)) = Some (None, rec, r)"
    using sample_run by blast
  from janken_log_replays [OF new_sample_master sample_distinct rock_players_ok(1) r, of 3 "()"] r
  show ?thesis by auto
qed

theorem run_log_well_formed_witness:
  "\<exists>rec r. run (host janken_game untold rock_players) 6
      (new_runner ''m'' (cf_players sample_config) (sample_master, sample_master, 0)) = Some (None, rec, r) \<and>
    map ev_seq (rc_event_log rec) = [1..int (length (rc_event_log rec))] \<and> ended (rc_status rec)"
proof -
  obtain rec r where r: "run (host janken_game untold rock_players) 6
      (new_runner ''m'' (cf_players sample_config) (sample_master, sample_master, 0)) = Some (None, rec, r)"
    using sample_run by blast
  from run_log_well_formed [OF r] r show ?thesis by (auto simp: Let_def)
qed

end
