(* ===== verification/Sha256.thy ===== *)
theory Sha256
  imports Prelude
begin

text \<open>
  \<open>sha256.Sum256\<close> on byte strings, which \<open>turnRank\<close> of
  \<open>internal/games/echo/echo.go\<close> uses to derive a turn order from the match seed: padding,
  the message schedule and the compression function of FIPS 180-4 on 32-bit words.
\<close>

unbundle bit_operations_syntax

type_synonym word32 = "32 word"

text \<open>
  The constants are the first 32 bits of the fractional parts of the square roots of the first
  eight primes and of the cube roots of the first sixty-four; \<open>iroot k n b r\<close> finds the root of
  \<open>n\<close> bit by bit.
\<close>

fun iroot :: "nat \<Rightarrow> int \<Rightarrow> nat \<Rightarrow> int \<Rightarrow> int" where
  "iroot k n 0 r = r"
| "iroot k n (Suc b) r = iroot k n b (if (r + 2 ^ b) ^ k \<le> n then r + 2 ^ b else r)"

definition primes_upto :: "nat \<Rightarrow> nat list" where
  "primes_upto n = filter (\<lambda>p. list_all (\<lambda>d. \<not> d dvd p) [2..<p]) [2..<Suc n]"

definition root_bits :: "nat \<Rightarrow> nat \<Rightarrow> word32" where
  "root_bits k p = of_int (iroot k (int p * 2 ^ (32 * k)) 36 0)"

definition initial_hash :: "word32 list" where
  "initial_hash = map (root_bits 2) (primes_upto 19)"

definition round_constants :: "word32 list" where
  "round_constants = map (root_bits 3) (primes_upto 311)"

definition rotr :: "nat \<Rightarrow> word32 \<Rightarrow> word32" where
  "rotr n w = (drop_bit n w) OR (push_bit (32 - n) w)"

definition big_sigma0 :: "word32 \<Rightarrow> word32" where
  "big_sigma0 x = rotr 2 x XOR rotr 13 x XOR rotr 22 x"

definition big_sigma1 :: "word32 \<Rightarrow> word32" where
  "big_sigma1 x = rotr 6 x XOR rotr 11 x XOR rotr 25 x"

definition small_sigma0 :: "word32 \<Rightarrow> word32" where
  "small_sigma0 x = rotr 7 x XOR rotr 18 x XOR drop_bit 3 x"

definition small_sigma1 :: "word32 \<Rightarrow> word32" where
  "small_sigma1 x = rotr 17 x XOR rotr 19 x XOR drop_bit 10 x"

definition ch :: "word32 \<Rightarrow> word32 \<Rightarrow> word32 \<Rightarrow> word32" where
  "ch x y z = (x AND y) XOR (NOT x AND z)"

definition maj :: "word32 \<Rightarrow> word32 \<Rightarrow> word32 \<Rightarrow> word32" where
  "maj x y z = (x AND y) XOR (x AND z) XOR (y AND z)"

text \<open>Padding: a one bit, zeros up to 56 modulo 64 bytes, and the bit length in 8 bytes.\<close>

fun be_bytes :: "nat \<Rightarrow> nat \<Rightarrow> nat list" where
  "be_bytes 0 n = []"
| "be_bytes (Suc k) n = be_bytes k (n div 256) @ [n mod 256]"

definition pad :: "string \<Rightarrow> nat list" where
  "pad msg =
     (let len = length msg; zeros = (119 - len mod 64) mod 64
      in map of_char msg @ [128] @ replicate zeros 0 @ be_bytes 8 (8 * len))"

fun be_words :: "nat list \<Rightarrow> word32 list" where
  "be_words (a # b # c # d # rest) =
     of_nat (((a * 256 + b) * 256 + c) * 256 + d) # be_words rest"
| "be_words _ = []"

fun blocks :: "nat \<Rightarrow> word32 list \<Rightarrow> word32 list list" where
  "blocks 0 ws = []"
| "blocks (Suc n) ws = (if ws = [] then [] else take 16 ws # blocks n (drop 16 ws))"

text \<open>The schedule is kept in reverse: the latest word first.\<close>

fun extend :: "nat \<Rightarrow> word32 list \<Rightarrow> word32 list" where
  "extend 0 rs = rs"
| "extend (Suc n) rs =
     extend n ((small_sigma1 (rs ! 1) + rs ! 6 + small_sigma0 (rs ! 14) + rs ! 15) # rs)"

definition schedule :: "word32 list \<Rightarrow> word32 list" where
  "schedule block = rev (extend 48 (rev block))"

fun sha_round :: "word32 \<times> word32 \<Rightarrow> word32 list \<Rightarrow> word32 list" where
  "sha_round (k, w) [a, b, c, d, e, f, g, h] =
     (let t1 = h + big_sigma1 e + ch e f g + k + w;
          t2 = big_sigma0 a + maj a b c
      in [t1 + t2, a, b, c, d + t1, e, f, g])"
| "sha_round kw st = st"

definition compress :: "word32 list \<Rightarrow> word32 list \<Rightarrow> word32 list" where
  "compress block hs = map2 (+) hs (fold sha_round (zip round_constants (schedule block)) hs)"

definition sum256 :: "string \<Rightarrow> string" where
  "sum256 msg =
     (let ws = be_words (pad msg); hs = fold compress (blocks (length ws) ws) initial_hash
      in concat (map (\<lambda>w. map char_of (be_bytes 4 (unat w))) hs))"

end
