(* ===== verification/Echo.thy ===== *)
theory Echo
  imports Contract Ordering Sha256
begin

text \<open>
  The echo-count game master of \<open>internal/games/echo/echo.go\<close>: ruleset selection, the
  seed-derived turn order, simultaneous and sequential steps, action normalisation,
  snapshots, snapshot restore, snapshots from an event log, and the final placements.
\<close>

section \<open>Data\<close>

definition GameID :: string where
  "GameID = ''echo-count''"

definition SubprocessGameID :: string where
  "SubprocessGameID = ''echo-count-subprocess''"

definition GameVersion :: string where
  "GameVersion = ''2.0.0''"

definition RulesetSimultaneous3Turn :: string where
  "RulesetSimultaneous3Turn = ''phase2-simultaneous-3turn''"

definition RulesetSequential3Turn :: string where
  "RulesetSequential3Turn = ''phase2-sequential-3turn''"

definition RulesetSimultaneous2Turn :: string where
  "RulesetSimultaneous2Turn = ''phase2-simultaneous-2turn''"

definition RulesetSimultaneousShuffle3Turn :: string where
  "RulesetSimultaneousShuffle3Turn = ''phase2-simultaneous-shuffle-3turn''"

definition supported_rulesets :: "string list" where
  "supported_rulesets =
     [RulesetSimultaneous3Turn, RulesetSequential3Turn, RulesetSimultaneous2Turn,
      RulesetSimultaneousShuffle3Turn]"

definition default_turn_deadline :: int where
  "default_turn_deadline = 100 * ns_per_ms"

record config =
  ec_game_id :: string
  ec_game_version :: string
  ec_ruleset :: string
  ec_rng_seed :: string
  ec_players :: "player list"

record master =
  em_meta :: game_metadata
  em_players :: "player list"
  em_player_ids :: "string list"
  em_mode :: decision_mode
  em_turns :: int
  em_deadline :: int
  em_rng_seed :: string
  em_seed_aware :: bool
  em_order :: "int list"
  em_resolved :: int
  em_next_player :: nat
  em_score :: "int gomap"
  em_last_action :: "action_status gomap"

record selection =
  sl_meta :: game_metadata
  sl_mode :: decision_mode
  sl_turns :: int
  sl_deadline :: int
  sl_seed_aware :: bool

datatype error =
    NoPlayers | GameVersionRequired | UnsupportedGameVersion string
  | UnsupportedRuleset string | SeedRequired string | UnsupportedMode decision_mode
  | PlayerIndexPanic
  | SnapshotGameID string | SnapshotGameVersion string | SnapshotRuleset string
  | DecodeGameState | SnapshotMode decision_mode | SnapshotTurn int
  | SnapshotSeedRequired | SnapshotSeed string | SnapshotOrder "int list" | SnapshotExpected int
  | UnknownScorePlayer string | UnknownPerPlayer string
  | TargetTurnOutOfRange int | DecodeEvent event | UnknownHistoryPlayer string

section \<open>Selection and turn order\<close>

definition selection_for :: "string \<Rightarrow> string \<Rightarrow> string \<Rightarrow> error + selection" where
  "selection_for game_id game_version ruleset =
     (if game_version \<noteq> GameVersion then Inl (UnsupportedGameVersion game_version)
      else
        let gid = (if game_id = [] then GameID else game_id);
            new_selection = (\<lambda>ruleset mode turns seed_aware.
              \<lparr>sl_meta = \<lparr>gm_game_id = gid, gm_game_version = game_version, gm_ruleset = ruleset\<rparr>,
               sl_mode = mode, sl_turns = turns, sl_deadline = default_turn_deadline,
               sl_seed_aware = seed_aware\<rparr>)
        in if ruleset = RulesetSimultaneous3Turn then
             Inr (new_selection RulesetSimultaneous3Turn Simultaneous 3 False)
           else if ruleset = RulesetSequential3Turn then
             Inr (new_selection RulesetSequential3Turn Sequential 3 False)
           else if ruleset = RulesetSimultaneous2Turn then
             Inr (new_selection RulesetSimultaneous2Turn Simultaneous 2 False)
           else if ruleset = RulesetSimultaneousShuffle3Turn then
             Inr (new_selection RulesetSimultaneousShuffle3Turn Simultaneous 3 True)
           else Inl (UnsupportedRuleset ruleset))"

definition turn_rank :: "string \<Rightarrow> int \<Rightarrow> string" where
  "turn_rank seed turn = sum256 (seed @ '':'' @ itoa turn)"

definition expected_order :: "int \<Rightarrow> string \<Rightarrow> bool \<Rightarrow> int list" where
  "expected_order turns seed seed_aware =
     (if \<not> seed_aware then [1..turns]
      else sort_slice (\<lambda>a b. turn_rank seed a < turn_rank seed b) [1..turns])"

definition expected_for_resolved_count :: "int list \<Rightarrow> int \<Rightarrow> int" where
  "expected_for_resolved_count order resolved =
     (if order = [] then 0
      else if resolved < int (length order) then order ! nat resolved
      else last order)"

definition new_master :: "config \<Rightarrow> error + master" where
  "new_master cfg =
     (if ec_players cfg = [] then Inl NoPlayers
      else if ec_game_version cfg = [] then Inl GameVersionRequired
      else bindR (selection_for (ec_game_id cfg) (ec_game_version cfg) (ec_ruleset cfg)) (\<lambda>sel.
        if sl_seed_aware sel \<and> ec_rng_seed cfg = [] then Inl (SeedRequired (ec_ruleset cfg))
        else Inr
          \<lparr>em_meta = sl_meta sel,
           em_players = ec_players cfg,
           em_player_ids = map pl_id (ec_players cfg),
           em_mode = sl_mode sel,
           em_turns = sl_turns sel,
           em_deadline = sl_deadline sel,
           em_rng_seed = ec_rng_seed cfg,
           em_seed_aware = sl_seed_aware sel,
           em_order = expected_order (sl_turns sel) (ec_rng_seed cfg) (sl_seed_aware sel),
           em_resolved = 0,
           em_next_player = 0,
           em_score = put_all pl_id (\<lambda>_. 0) (ec_players cfg) [],
           em_last_action = put_all pl_id (\<lambda>p. no_action (pl_id p)) (ec_players cfg) []\<rparr>))"

section \<open>State on the wire\<close>

record visible_state =
  vs_turn :: int
  vs_expected :: int
  vs_score :: "int gomap"

definition enc_visible_state :: "int \<Rightarrow> int \<Rightarrow> int gomap \<Rightarrow> raw" where
  "enc_visible_state turn expected score = RawJson (JObj
     [(''turn'', JInt turn), (''expected'', JInt expected), (''score'', enc_map JInt score)])"

definition dec_visible_state :: "visible_state decoder" where
  "dec_visible_state = dec_struct
     [(''turn'', dec_field vs_turn (\<lambda>x s. s\<lparr>vs_turn := x\<rparr>) dec_int),
      (''expected'', dec_field vs_expected (\<lambda>x s. s\<lparr>vs_expected := x\<rparr>) dec_int),
      (''score'', dec_field vs_score (\<lambda>x s. s\<lparr>vs_score := x\<rparr>) (dec_map dec_int 0))]"

definition zero_visible_state :: visible_state where
  "zero_visible_state = \<lparr>vs_turn = 0, vs_expected = 0, vs_score = []\<rparr>"

definition dec_action :: "int decoder" where
  "dec_action = dec_struct [(''echo'', dec_field (\<lambda>s. s) (\<lambda>x s. x) dec_int)]"

definition enc_action :: "int \<Rightarrow> raw" where
  "enc_action e = RawJson (JObj [(''echo'', JInt e)])"

record snapshot_state =
  es_mode :: decision_mode
  es_turn :: int
  es_expected :: int
  es_score :: "int gomap"
  es_rng_seed :: string
  es_order :: "int list"

definition zero_snapshot_state :: snapshot_state where
  "zero_snapshot_state = \<lparr>es_mode = OtherMode [], es_turn = 0, es_expected = 0, es_score = [],
     es_rng_seed = [], es_order = []\<rparr>"

text \<open>The struct as \<open>SnapshotFromHistory\<close> encodes it.\<close>

definition enc_snapshot_state :: "snapshot_state \<Rightarrow> json" where
  "enc_snapshot_state s = JObj
     ([(''mode'', JStr (mode_str (es_mode s))), (''turn'', JInt (es_turn s)),
       (''expected'', JInt (es_expected s)), (''score'', enc_map JInt (es_score s))] @
      omit_str ''rng_seed'' (es_rng_seed s) @
      (if es_order s = [] then [] else [(''expected_order'', JArr (map JInt (es_order s)))]))"

definition dec_snapshot_state :: "snapshot_state decoder" where
  "dec_snapshot_state = dec_struct
     [(''mode'', dec_field es_mode (\<lambda>x s. s\<lparr>es_mode := x\<rparr>) dec_mode),
      (''turn'', dec_field es_turn (\<lambda>x s. s\<lparr>es_turn := x\<rparr>) dec_int),
      (''expected'', dec_field es_expected (\<lambda>x s. s\<lparr>es_expected := x\<rparr>) dec_int),
      (''score'', dec_field es_score (\<lambda>x s. s\<lparr>es_score := x\<rparr>) (dec_map dec_int 0)),
      (''rng_seed'', dec_field es_rng_seed (\<lambda>x s. s\<lparr>es_rng_seed := x\<rparr>) dec_str),
      (''expected_order'', dec_field es_order (\<lambda>x s. s\<lparr>es_order := x\<rparr>) (dec_list dec_int 0))]"

section \<open>Steps\<close>

definition legal_action_hint :: raw where
  "legal_action_hint =
     RawJson (JObj [(''required'', JArr [JStr ''echo'']), (''type'', JStr ''object'')])"

definition master_expected :: "master \<Rightarrow> int \<Rightarrow> int" where
  "master_expected m resolved = expected_for_resolved_count (em_order m) resolved"

definition init :: "master \<Rightarrow> init_state" where
  "init m =
     (let state = RawJson (JObj [(''mode'', JStr (mode_str (em_mode m))), (''turns'', JInt (em_turns m)),
                                 (''player_order'', JArr (map JStr (em_player_ids m)))])
      in \<lparr>is_per_player = put_all pl_id (\<lambda>_. state) (em_players m) []\<rparr>)"

definition step_request :: "master \<Rightarrow> int \<Rightarrow> int \<Rightarrow> player \<Rightarrow> decision_request" where
  "step_request m turn expected p =
     \<lparr>rq_player = pl_id p, rq_visible = enc_visible_state turn expected (em_score m),
      rq_hint = legal_action_hint, rq_deadline = em_deadline m\<rparr>"

definition next_step :: "master \<Rightarrow> error + decision_step option" where
  "next_step m =
     (if em_resolved m \<ge> em_turns m then Inr None
      else
        let turn = em_resolved m + 1; expected = master_expected m (em_resolved m) in
        case em_mode m of
          Simultaneous \<Rightarrow> Inr (Some \<lparr>st_turn = turn, st_mode = Simultaneous,
             st_requests = map (step_request m turn expected) (em_players m)\<rparr>)
        | Sequential \<Rightarrow>
            if em_next_player m < length (em_players m) then
              Inr (Some \<lparr>st_turn = turn, st_mode = Sequential,
                st_requests = [step_request m turn expected (em_players m ! em_next_player m)]\<rparr>)
            else Inl PlayerIndexPanic
        | OtherMode x \<Rightarrow> Inl (UnsupportedMode (em_mode m)))"

definition expected_for_turn :: "master \<Rightarrow> decision_request \<Rightarrow> int" where
  "expected_for_turn m req =
     (case unmarshal dec_visible_state (rq_visible req) zero_visible_state of
        Some s \<Rightarrow> if vs_expected s > 0 then vs_expected s else master_expected m (em_resolved m)
      | None \<Rightarrow> master_expected m (em_resolved m))"

definition normalize_action :: "master \<Rightarrow> decision_request \<Rightarrow> action_status \<Rightarrow> action_status" where
  "normalize_action m req s =
     (if as_decision s \<noteq> ActionAccepted then s\<lparr>as_action := RawNone\<rparr>
      else
        let illegal = \<lparr>as_player = rq_player req, as_decision = ActionNoAction,
                       as_reason = ReasonIllegalAction, as_action = RawNone\<rparr>
        in case unmarshal dec_action (as_action s) 0 of
             None \<Rightarrow> illegal
           | Some e \<Rightarrow> if e \<noteq> expected_for_turn m req then illegal else s)"

definition apply_status :: "action_status \<Rightarrow> master \<Rightarrow> master" where
  "apply_status s m =
     (let m1 = m\<lparr>em_last_action := put (as_player s) s (em_last_action m)\<rparr>
      in if as_decision s = ActionAccepted then
           m1\<lparr>em_score := put (as_player s) (getd 0 (em_score m1) (as_player s) + 1) (em_score m1)\<rparr>
         else m1)"

text \<open>The statuses are applied before the mode is inspected, so they stay on the error path.\<close>

definition apply_step ::
  "master \<Rightarrow> decision_step \<Rightarrow> action_status list \<Rightarrow> error option \<times> master" where
  "apply_step m step statuses =
     (let m1 = fold apply_status statuses m in
      case st_mode step of
        Simultaneous \<Rightarrow> (None, m1\<lparr>em_resolved := em_resolved m1 + 1\<rparr>)
      | Sequential \<Rightarrow>
          (None,
           if em_next_player m1 + 1 \<ge> length (em_players m1)
           then m1\<lparr>em_next_player := 0, em_resolved := em_resolved m1 + 1\<rparr>
           else m1\<lparr>em_next_player := em_next_player m1 + 1\<rparr>)
      | OtherMode x \<Rightarrow> (Some (UnsupportedMode (st_mode step)), m1))"

section \<open>Snapshots\<close>

definition visible_state :: "master \<Rightarrow> string \<Rightarrow> raw" where
  "visible_state m p =
     (let turn = em_resolved m + 1;
          turn = (if turn > em_turns m then em_turns m else turn)
      in enc_visible_state turn (master_expected m (em_resolved m)) (em_score m))"

text \<open>A \<open>map[string]any\<close>: its members are written in the order of their names.\<close>

definition snapshot_state_json :: "master \<Rightarrow> json" where
  "snapshot_state_json m = JObj
     ([(''expected'', JInt (master_expected m (em_resolved m)))] @
      (if em_seed_aware m then [(''expected_order'', JArr (map JInt (em_order m)))] else []) @
      [(''mode'', JStr (mode_str (em_mode m)))] @
      (if em_seed_aware m then [(''rng_seed'', JStr (em_rng_seed m))] else []) @
      [(''score'', enc_map JInt (em_score m)), (''turn'', JInt (em_resolved m))])"

definition take_snapshot :: "master \<Rightarrow> snapshot" where
  "take_snapshot m =
     \<lparr>sn_match_id = [], sn_game_id = gm_game_id (em_meta m),
      sn_game_version = gm_game_version (em_meta m), sn_ruleset = gm_ruleset (em_meta m),
      sn_turn = em_resolved m, sn_status = StatusRunning,
      sn_game_state = RawJson (snapshot_state_json m), sn_per_player = []\<rparr>"

definition exported_snapshot_of :: "master \<Rightarrow> exported_snapshot" where
  "exported_snapshot_of m =
     \<lparr>xs_match_id = [], xs_game_id = gm_game_id (em_meta m),
      xs_game_version = gm_game_version (em_meta m), xs_ruleset = gm_ruleset (em_meta m),
      xs_turn = em_resolved m, xs_status = StatusRunning,
      xs_public_state = RawJson (JObj
        [(''mode'', JStr (mode_str (em_mode m))), (''resolved_turns'', JInt (em_resolved m)),
         (''score'', enc_map JInt (em_score m))]),
      xs_players = map (\<lambda>p. \<lparr>xp_player = p, xp_last = getd zero_status (em_last_action m) p\<rparr>)
        (em_player_ids m)\<rparr>"

text \<open>The seed part of \<open>applySnapshot\<close>.\<close>

definition restore_seed :: "master \<Rightarrow> snapshot_state \<Rightarrow> error + master" where
  "restore_seed m state =
     (if \<not> em_seed_aware m then Inr m
      else if es_rng_seed state = [] then Inl SnapshotSeedRequired
      else if em_rng_seed m \<noteq> [] \<and> es_rng_seed state \<noteq> em_rng_seed m then
        Inl (SnapshotSeed (es_rng_seed state))
      else
        let expected = expected_order (em_turns m) (es_rng_seed state) True in
        if es_order state \<noteq> [] \<and> es_order state \<noteq> expected then Inl (SnapshotOrder (es_order state))
        else Inr (m\<lparr>em_rng_seed := es_rng_seed state, em_order := expected\<rparr>))"

definition apply_snapshot :: "master \<Rightarrow> snapshot \<Rightarrow> error + master" where
  "apply_snapshot m sn =
     (if sn_game_id sn \<noteq> [] \<and> sn_game_id sn \<noteq> gm_game_id (em_meta m) then
        Inl (SnapshotGameID (sn_game_id sn))
      else if sn_game_version sn \<noteq> [] \<and> sn_game_version sn \<noteq> gm_game_version (em_meta m) then
        Inl (SnapshotGameVersion (sn_game_version sn))
      else if sn_ruleset sn \<noteq> [] \<and> sn_ruleset sn \<noteq> gm_ruleset (em_meta m) then
        Inl (SnapshotRuleset (sn_ruleset sn))
      else case unmarshal dec_snapshot_state (sn_game_state sn) zero_snapshot_state of
        None \<Rightarrow> Inl DecodeGameState
      | Some state \<Rightarrow>
          if es_mode state \<noteq> OtherMode [] \<and> es_mode state \<noteq> em_mode m then
            Inl (SnapshotMode (es_mode state))
          else if sn_turn sn < 0 \<or> sn_turn sn > em_turns m then Inl (SnapshotTurn (sn_turn sn))
          else
            bindR (restore_seed m state) (\<lambda>m.
            if es_expected state > 0 \<and> es_expected state \<noteq> master_expected m (sn_turn sn) then
              Inl (SnapshotExpected (es_expected state))
            else
              bindR (put_known UnknownScorePlayer (es_score state)
                       (put_all id (\<lambda>_. 0) (em_player_ids m) (em_score m))) (\<lambda>score.
              bindR (foldR (restore_last UnknownPerPlayer) (sn_per_player sn)
                       (put_all id no_action (em_player_ids m) (em_last_action m))) (\<lambda>last.
              Inr (m\<lparr>em_resolved := sn_turn sn, em_next_player := 0, em_score := score,
                     em_last_action := last\<rparr>)))))"

definition new_from_snapshot :: "config \<Rightarrow> snapshot \<Rightarrow> error + master" where
  "new_from_snapshot cfg sn =
     (let cfg1 = (if ec_rng_seed cfg = [] then
                    (case unmarshal dec_snapshot_state (sn_game_state sn) zero_snapshot_state of
                       Some state \<Rightarrow> cfg\<lparr>ec_rng_seed := es_rng_seed state\<rparr>
                     | None \<Rightarrow> cfg)
                  else cfg)
      in bindR (new_master cfg1) (\<lambda>m. apply_snapshot m sn))"

section \<open>Placements\<close>

definition player_before :: "string \<times> int \<Rightarrow> string \<times> int \<Rightarrow> bool" where
  "player_before a b = (if snd a \<noteq> snd b then snd a > snd b else fst a < fst b)"

definition result :: "master \<Rightarrow> match_result" where
  "result m =
     (let ranked = sort_slice player_before
            (map (\<lambda>p. (pl_id p, getd 0 (em_score m) (pl_id p))) (em_players m))
      in \<lparr>mr_placements = map (\<lambda>(p, n). \<lparr>pc_player = p, pc_place = n\<rparr>)
            (assign_places (=) 0 0 0 ranked)\<rparr>)"

section \<open>Snapshots from an event log\<close>

type_synonym history = "int gomap \<times> player_snapshot gomap"

definition collect_event :: "int \<Rightarrow> event \<Rightarrow> history \<Rightarrow> error + history" where
  "collect_event target ev = (\<lambda>(score, per_player).
     if ev_turn ev = 0 \<or> ev_turn ev > target then Inr (score, per_player)
     else if ev_kind ev \<in> {''turn_result'', ''turn_timeout'', ''protocol_error'', ''runtime_exited''} then
       (case unmarshal dec_action_status (ev_payload ev) zero_status of
          None \<Rightarrow> Inl (DecodeEvent ev)
        | Some s \<Rightarrow>
            (case map_of per_player (ev_player ev) of
               None \<Rightarrow> Inl (UnknownHistoryPlayer (ev_player ev))
             | Some ps \<Rightarrow>
                 let s1 = (if as_player s = [] then s\<lparr>as_player := ev_player ev\<rparr> else s)
                 in Inr (if as_decision s1 = ActionAccepted
                           then put (ev_player ev) (getd 0 score (ev_player ev) + 1) score else score,
                         put (ev_player ev) (ps\<lparr>ps_last := s1\<rparr>) per_player)))
     else Inr (score, per_player))"

definition snapshot_from_history ::
  "string \<Rightarrow> string \<Rightarrow> string \<Rightarrow> string \<Rightarrow> player list \<Rightarrow> event list \<Rightarrow> int \<Rightarrow> error + snapshot" where
  "snapshot_from_history game_id game_version ruleset seed players events target =
     bindR (selection_for game_id game_version ruleset) (\<lambda>sel.
       if sl_seed_aware sel \<and> seed = [] then Inl (SeedRequired ruleset)
       else if target < 0 \<or> target > sl_turns sel then Inl (TargetTurnOutOfRange target)
       else
         let order = expected_order (sl_turns sel) seed (sl_seed_aware sel) in
         bindR (foldR (collect_event target) events
                  (put_all pl_id (\<lambda>_. 0) players [],
                   put_all pl_id (\<lambda>p. zero_player_snapshot\<lparr>ps_last := no_action (pl_id p)\<rparr>) players []))
           (\<lambda>(score, per_player).
             let expected = expected_for_resolved_count order target;
                 visible = enc_visible_state expected expected score;
                 per = fold (\<lambda>p per. put (pl_id p)
                          ((getd zero_player_snapshot per (pl_id p))\<lparr>ps_visible := visible\<rparr>) per)
                        players per_player;
                 state = \<lparr>es_mode = sl_mode sel, es_turn = target, es_expected = expected,
                          es_score = score,
                          es_rng_seed = (if sl_seed_aware sel then seed else []),
                          es_order = (if sl_seed_aware sel then order else [])\<rparr>
             in Inr \<lparr>sn_match_id = [], sn_game_id = gm_game_id (sl_meta sel),
                     sn_game_version = gm_game_version (sl_meta sel),
                     sn_ruleset = gm_ruleset (sl_meta sel), sn_turn = target,
                     sn_status = StatusRunning, sn_game_state = RawJson (enc_snapshot_state state),
                     sn_per_player = per\<rparr>))"

end
