(* ===== verification/Echo_Game.thy ===== *)
theory Echo_Game
  imports Echo GameMaster
begin

text \<open>
  Correctness of the echo-count master: the expected numbers of a match are a permutation of
  the turn numbers, an answer is accepted exactly when it echoes the number shown in its
  request, placements are the competition ranking of the scores, the score bounds, and the
  interpretation of the game-master contract.
\<close>

section \<open>The master behind the interface\<close>

definition echo_game :: "(master, error) game_ops" where
  "echo_game =
     \<lparr>go_metadata = em_meta,
      go_init = (\<lambda>m. Inr (init m)),
      go_next = next_step,
      go_normalize = normalize_action,
      go_apply = apply_step,
      go_visible = visible_state,
      go_snapshot = take_snapshot,
      go_exported = exported_snapshot_of,
      go_result = result\<rparr>"

lemma echo_game_sel [simp]:
  "go_metadata echo_game = em_meta" "go_init echo_game m = Inr (init m)"
  "go_next echo_game = next_step" "go_normalize echo_game = normalize_action"
  "go_apply echo_game = apply_step" "go_visible echo_game = visible_state"
  "go_snapshot echo_game = take_snapshot" "go_exported echo_game = exported_snapshot_of"
  "go_result echo_game = result"
  by (simp_all add: echo_game_def)

section \<open>Turn order\<close>

lemma mset_expected_order [simp]: "mset (expected_order n seed aware) = mset [1..n]"
  by (simp add: expected_order_def)

lemma length_expected_order [simp]: "length (expected_order n seed aware) = nat n"
  by (simp add: expected_order_def)

lemma expected_in_order:
  "0 \<le> r \<Longrightarrow> r < int (length order) \<Longrightarrow> expected_for_resolved_count order r = order ! nat r"
  by (auto simp: expected_for_resolved_count_def)

lemma map_expected:
  assumes "int (length order) = n"
  shows "map (expected_for_resolved_count order) [0..n - 1] = order"
proof (rule nth_equalityI)
  show "length (map (expected_for_resolved_count order) [0..n - 1]) = length order"
    using assms by simp
  show "map (expected_for_resolved_count order) [0..n - 1] ! i = order ! i"
    if "i < length (map (expected_for_resolved_count order) [0..n - 1])" for i
    using that assms by (simp add: expected_in_order)
qed

lemma selection_turns:
  "selection_for gid v rs = Inr sel \<Longrightarrow>
     (sl_turns sel = 2 \<or> sl_turns sel = 3) \<and> (sl_mode sel = Simultaneous \<or> sl_mode sel = Sequential)"
  by (auto simp: selection_for_def Let_def split: if_splits)

lemma echo_new_master_fields:
  assumes "new_master cfg = Inr m"
  shows "\<exists>sel. selection_for (ec_game_id cfg) (ec_game_version cfg) (ec_ruleset cfg) = Inr sel \<and>
    em_meta m = sl_meta sel \<and> em_players m = ec_players cfg \<and>
    em_player_ids m = map pl_id (ec_players cfg) \<and> em_mode m = sl_mode sel \<and>
    em_turns m = sl_turns sel \<and> em_deadline m = sl_deadline sel \<and> em_rng_seed m = ec_rng_seed cfg \<and>
    em_seed_aware m = sl_seed_aware sel \<and>
    em_order m = expected_order (sl_turns sel) (ec_rng_seed cfg) (sl_seed_aware sel) \<and>
    em_resolved m = 0 \<and> em_next_player m = 0 \<and>
    em_score m = put_all pl_id (\<lambda>_. 0) (ec_players cfg) [] \<and>
    em_last_action m = put_all pl_id (\<lambda>p. no_action (pl_id p)) (ec_players cfg) [] \<and>
    ec_players cfg \<noteq> [] \<and> (sl_seed_aware sel \<longrightarrow> ec_rng_seed cfg \<noteq> [])"
  using assms by (auto simp: new_master_def bindR_eq_Inr split: if_splits)

text \<open>
  Whatever the seed, the numbers a match expects over its turns are a permutation of the
  turn numbers, so every number is asked exactly once; without the seed-aware ruleset they
  come in order.
\<close>

theorem echo_order_is_permutation:
  assumes "new_master cfg = Inr m"
  shows "mset (map (master_expected m) [0..em_turns m - 1]) = mset [1..em_turns m] \<and>
    (\<not> em_seed_aware m \<longrightarrow> map (master_expected m) [0..em_turns m - 1] = [1..em_turns m])"
proof -
  obtain sel where sel: "selection_for (ec_game_id cfg) (ec_game_version cfg) (ec_ruleset cfg) = Inr sel"
    "em_turns m = sl_turns sel" "em_seed_aware m = sl_seed_aware sel"
    "em_order m = expected_order (sl_turns sel) (ec_rng_seed cfg) (sl_seed_aware sel)"
    using echo_new_master_fields [OF assms] by blast
  have "0 \<le> sl_turns sel" using selection_turns [OF sel(1)] by auto
  then have "map (expected_for_resolved_count (em_order m)) [0..em_turns m - 1] = em_order m"
    by (intro map_expected) (simp add: sel)
  then have "map (master_expected m) [0..em_turns m - 1] = em_order m"
    by (simp add: master_expected_def [abs_def])
  moreover have "\<not> em_seed_aware m \<longrightarrow> em_order m = [1..em_turns m]"
    by (simp add: sel expected_order_def)
  ultimately show ?thesis using sel by (simp only: mset_expected_order)
qed

definition sample_players :: "player list" where
  "sample_players = [\<lparr>pl_id = ''p1'', pl_ai = ''a''\<rparr>, \<lparr>pl_id = ''p2'', pl_ai = ''b''\<rparr>]"

definition shuffle_config :: config where
  "shuffle_config = \<lparr>ec_game_id = [], ec_game_version = GameVersion,
     ec_ruleset = RulesetSimultaneousShuffle3Turn, ec_rng_seed = ''s'', ec_players = sample_players\<rparr>"

lemma rulesets_distinct:
  "RulesetSimultaneous3Turn \<noteq> RulesetSequential3Turn" "RulesetSimultaneous3Turn \<noteq> RulesetSimultaneous2Turn"
  "RulesetSimultaneous3Turn \<noteq> RulesetSimultaneousShuffle3Turn"
  "RulesetSequential3Turn \<noteq> RulesetSimultaneous2Turn"
  "RulesetSequential3Turn \<noteq> RulesetSimultaneousShuffle3Turn"
  "RulesetSimultaneous2Turn \<noteq> RulesetSimultaneousShuffle3Turn"
  by (simp_all add: RulesetSimultaneous3Turn_def RulesetSequential3Turn_def
      RulesetSimultaneous2Turn_def RulesetSimultaneousShuffle3Turn_def)

lemma new_shuffle: "\<exists>m. new_master shuffle_config = Inr m \<and> em_seed_aware m"
  using rulesets_distinct
  by (auto simp: new_master_def shuffle_config_def selection_for_def Let_def sample_players_def GameVersion_def)

theorem echo_order_is_permutation_witness:
  "\<exists>m. new_master shuffle_config = Inr m \<and> em_seed_aware m \<and>
    mset (map (master_expected m) [0..em_turns m - 1]) = mset [1..em_turns m]"
  using new_shuffle echo_order_is_permutation by blast

section \<open>Accepted echoes\<close>

lemma find_one [simp]: "find P [x] = (if P x then Some x else None)"
  by simp

text \<open>
  The number a request shows is the one its answer is compared with: decoding the visible
  state either fails or gives it back.
\<close>

lemma dec_visible_expected:
  "dec_visible_state (JObj [(''turn'', JInt t), (''expected'', JInt e), (''score'', sc)]) zero_visible_state = Some s \<Longrightarrow>
   vs_expected s = e"
  by (cases "dec_map dec_int 0 sc []")
    (auto simp: dec_visible_state_def dec_defs upper_def zero_visible_state_def split: if_splits)

lemma step_requests:
  assumes "next_step m = Inr (Some step)" "req \<in> set (st_requests step)"
  shows "\<exists>p \<in> set (em_players m).
    req = step_request m (em_resolved m + 1) (master_expected m (em_resolved m)) p"
  using assms by (auto simp: next_step_def Let_def split: if_splits decision_mode.splits)

lemma expected_for_step_request:
  "expected_for_turn m (step_request m t (master_expected m (em_resolved m)) p) =
   master_expected m (em_resolved m)"
  using dec_visible_expected
  by (auto simp: expected_for_turn_def step_request_def enc_visible_state_def split: option.split)

text \<open>
  C21. An answer to an offered request is accepted exactly when the player session accepted
  it and its payload decodes to the number the current turn expects; every other answer
  becomes a \<open>no_action\<close> of the same player, and a wrong number is an illegal action.
\<close>

theorem echo_accepts_exactly_the_expected:
  assumes "next_step m = Inr (Some step)" "req \<in> set (st_requests step)"
    and "as_player s = rq_player req"
  shows "let n = normalize_action m req s; expected = master_expected m (em_resolved m) in
    as_player n = rq_player req \<and>
    (as_decision n = ActionAccepted \<longleftrightarrow>
       as_decision s = ActionAccepted \<and> unmarshal dec_action (as_action s) 0 = Some expected) \<and>
    (as_decision n = ActionAccepted \<longrightarrow> n = s) \<and>
    (as_decision s = ActionAccepted \<and> unmarshal dec_action (as_action s) 0 \<noteq> Some expected \<longrightarrow>
       as_decision n = ActionNoAction \<and> as_reason n = ReasonIllegalAction) \<and>
    (as_decision n \<noteq> ActionAccepted \<longrightarrow> as_action n = RawNone)"
proof -
  obtain p where "req = step_request m (em_resolved m + 1) (master_expected m (em_resolved m)) p"
    using step_requests [OF assms(1,2)] by blast
  then have "expected_for_turn m req = master_expected m (em_resolved m)"
    by (simp add: expected_for_step_request)
  with assms(3) show ?thesis
    by (auto simp: normalize_action_def Let_def split: option.split)
qed

definition seq_config :: config where
  "seq_config = \<lparr>ec_game_id = [], ec_game_version = GameVersion,
     ec_ruleset = RulesetSequential3Turn, ec_rng_seed = [], ec_players = sample_players\<rparr>"

definition seq_master :: master where
  "seq_master = (case new_master seq_config of Inr m \<Rightarrow> m | Inl _ \<Rightarrow> undefined)"

lemma new_seq: "new_master seq_config = Inr seq_master"
  using rulesets_distinct
  by (auto simp: seq_master_def new_master_def seq_config_def selection_for_def Let_def
      sample_players_def GameVersion_def)

lemma seq_master_fields:
  "em_meta seq_master = \<lparr>gm_game_id = GameID, gm_game_version = GameVersion, gm_ruleset = RulesetSequential3Turn\<rparr>"
  "em_players seq_master = sample_players" "em_player_ids seq_master = [''p1'', ''p2'']"
  "em_mode seq_master = Sequential" "em_turns seq_master = 3" "em_resolved seq_master = 0"
  "em_next_player seq_master = 0" "em_order seq_master = [1, 2, 3]" "em_seed_aware seq_master = False"
  "em_score seq_master = [(''p1'', 0), (''p2'', 0)]"
  "em_last_action seq_master = [(''p1'', no_action ''p1''), (''p2'', no_action ''p2'')]"
  "em_rng_seed seq_master = []" "em_deadline seq_master = default_turn_deadline"
  using rulesets_distinct
  by (simp_all add: seq_master_def new_master_def seq_config_def selection_for_def Let_def
      sample_players_def GameVersion_def expected_order_def put_all_def upto_rec1)

lemma seq_master_step:
  "next_step seq_master = Inr (Some \<lparr>st_turn = 1, st_mode = Sequential,
     st_requests = [step_request seq_master 1 1 \<lparr>pl_id = ''p1'', pl_ai = ''a''\<rparr>]\<rparr>)"
  by (simp add: next_step_def seq_master_fields sample_players_def master_expected_def
      expected_for_resolved_count_def)

theorem echo_accepts_exactly_the_expected_witness:
  "as_decision (normalize_action seq_master
      (step_request seq_master 1 1 \<lparr>pl_id = ''p1'', pl_ai = ''a''\<rparr>)
      \<lparr>as_player = ''p1'', as_decision = ActionAccepted, as_reason = NoReason, as_action = enc_action 1\<rparr>) =
   ActionAccepted"
proof -
  let ?req = "step_request seq_master 1 1 \<lparr>pl_id = ''p1'', pl_ai = ''a''\<rparr>"
  let ?s = "\<lparr>as_player = ''p1'', as_decision = ActionAccepted, as_reason = NoReason, as_action = enc_action 1\<rparr>"
  have "unmarshal dec_action (enc_action 1) 0 = Some 1"
    by (simp add: enc_action_def dec_action_def dec_defs int64_ok_def)
  moreover have "master_expected seq_master (em_resolved seq_master) = 1"
    by (simp add: seq_master_fields master_expected_def expected_for_resolved_count_def)
  moreover have "as_player ?s = rq_player ?req" by (simp add: step_request_def)
  ultimately show ?thesis
    using echo_accepts_exactly_the_expected [OF seq_master_step, of ?req ?s] by (simp add: Let_def)
qed


section \<open>Applying statuses\<close>

lemma echo_apply_status_frame [simp]:
  "em_meta (apply_status s m) = em_meta m" "em_players (apply_status s m) = em_players m"
  "em_player_ids (apply_status s m) = em_player_ids m" "em_mode (apply_status s m) = em_mode m"
  "em_turns (apply_status s m) = em_turns m" "em_deadline (apply_status s m) = em_deadline m"
  "em_rng_seed (apply_status s m) = em_rng_seed m" "em_seed_aware (apply_status s m) = em_seed_aware m"
  "em_order (apply_status s m) = em_order m" "em_resolved (apply_status s m) = em_resolved m"
  "em_next_player (apply_status s m) = em_next_player m"
  by (simp_all add: apply_status_def Let_def)

lemma echo_apply_status_maps:
  "em_last_action (apply_status s m) = put (as_player s) s (em_last_action m)"
  "getd 0 (em_score (apply_status s m)) q =
     getd 0 (em_score m) q + (if q = as_player s \<and> as_decision s = ActionAccepted then 1 else 0)"
  "as_player s \<in> fst ` set (em_score m) \<Longrightarrow> fst ` set (em_score (apply_status s m)) = fst ` set (em_score m)"
  by (auto simp: apply_status_def Let_def fst_put)

lemma echo_apply_statuses_frame [simp]:
  "em_meta (fold apply_status ss m) = em_meta m" "em_players (fold apply_status ss m) = em_players m"
  "em_player_ids (fold apply_status ss m) = em_player_ids m" "em_mode (fold apply_status ss m) = em_mode m"
  "em_turns (fold apply_status ss m) = em_turns m" "em_deadline (fold apply_status ss m) = em_deadline m"
  "em_rng_seed (fold apply_status ss m) = em_rng_seed m" "em_seed_aware (fold apply_status ss m) = em_seed_aware m"
  "em_order (fold apply_status ss m) = em_order m" "em_resolved (fold apply_status ss m) = em_resolved m"
  "em_next_player (fold apply_status ss m) = em_next_player m"
  by (induction ss arbitrary: m; simp)+

lemma apply_statuses_maps:
  assumes "as_player ` set ss \<subseteq> fst ` set (em_score m)" "distinct (map as_player ss)"
    and "last_ok ids (em_last_action m)"
    and "\<And>s. s \<in> set ss \<Longrightarrow> as_player s \<in> set ids \<and>
      (as_decision s = ActionAccepted \<or> as_decision s = ActionNoAction)"
  shows "fst ` set (em_score (fold apply_status ss m)) = fst ` set (em_score m) \<and>
    last_ok ids (em_last_action (fold apply_status ss m)) \<and>
    getd 0 (em_score m) q \<le> getd 0 (em_score (fold apply_status ss m)) q \<and>
    getd 0 (em_score (fold apply_status ss m)) q \<le>
      getd 0 (em_score m) q + (if q \<in> as_player ` set ss then 1 else 0)"
  using assms
proof (induction ss arbitrary: m)
  case Nil
  then show ?case by simp
next
  case (Cons s ss)
  have "as_player s \<in> fst ` set (em_score m)" using Cons.prems(1) by simp
  then have keys: "fst ` set (em_score (apply_status s m)) = fst ` set (em_score m)"
    by (rule echo_apply_status_maps(3))
  moreover have "last_ok ids (em_last_action (apply_status s m))"
    using Cons.prems(3,4) by (simp add: echo_apply_status_maps last_ok_put)
  moreover have "as_player s \<notin> as_player ` set ss" using Cons.prems(2) by simp
  ultimately show ?case
    using Cons.IH [of "apply_status s m"] Cons.prems
    by (auto simp: echo_apply_status_maps split: if_splits)
qed

section \<open>The invariant\<close>

text \<open>
  In a simultaneous game nobody is ahead within a turn; in a sequential game the players
  before \<open>em_next_player\<close> have already answered the current turn. A score is at most the
  number of answers the player has given.
\<close>

definition turns_taken :: "master \<Rightarrow> nat \<Rightarrow> int" where
  "turns_taken m i = em_resolved m + (if i < em_next_player m then 1 else 0)"

definition echo_ok :: "master \<Rightarrow> bool" where
  "echo_ok m \<longleftrightarrow>
     distinct (em_player_ids m) \<and> em_player_ids m = map pl_id (em_players m) \<and>
     em_next_player m < length (em_players m) \<and>
     0 \<le> em_resolved m \<and> em_resolved m \<le> em_turns m \<and>
     (em_mode m = Simultaneous \<and> em_next_player m = 0 \<or> em_mode m = Sequential) \<and>
     (em_resolved m = em_turns m \<longrightarrow> em_next_player m = 0) \<and>
     fst ` set (em_score m) = set (em_player_ids m) \<and> last_ok (em_player_ids m) (em_last_action m) \<and>
     (\<forall>i < length (em_players m). 0 \<le> getd 0 (em_score m) (em_player_ids m ! i) \<and>
        getd 0 (em_score m) (em_player_ids m ! i) \<le> turns_taken m i)"

definition echo_left :: "master \<Rightarrow> nat" where
  "echo_left m = (if em_mode m = Simultaneous then nat (em_turns m - em_resolved m)
     else nat (em_turns m - em_resolved m) * length (em_players m) - em_next_player m)"

lemma left_pos: "k < n \<Longrightarrow> r < (t :: int) \<Longrightarrow> k < nat (t - r) * n"
proof -
  assume "k < n" "r < t"
  then have "1 * n \<le> nat (t - r) * n" by (intro mult_le_mono1) simp
  with \<open>k < n\<close> show ?thesis by linarith
qed

lemma echo_normalized_status:
  assumes "answers step raws" "s \<in> set (normalized echo_game m step raws)"
  shows "as_decision s = ActionAccepted \<or> as_decision s = ActionNoAction"
proof -
  from assms(2) obtain req raw where "(req, raw) \<in> set (zip (st_requests step) raws)"
    "s = normalize_action m req raw"
    by (auto simp: normalized_def)
  moreover from this(1) have "raw \<in> set raws" by (rule set_zip_rightD)
  ultimately show ?thesis
    using assms(1) by (auto simp: answers_def normalize_action_def Let_def split: option.split)
qed

lemma echo_normalized_players:
  "answers step raws \<Longrightarrow> map as_player (normalized echo_game m step raws) = map rq_player (st_requests step)"
proof -
  have "map as_player (map2 (normalize_action m) reqs ss) = map rq_player reqs"
    if "map as_player ss = map rq_player reqs" for reqs ss
    using that
  proof (induction reqs arbitrary: ss)
    case Nil
    then show ?case by simp
  next
    case (Cons r reqs)
    then obtain s ss' where "ss = s # ss'" by (cases ss) auto
    with Cons show ?case by (simp add: normalize_action_def Let_def split: option.split)
  qed
  then show "answers step raws \<Longrightarrow> ?thesis" by (simp add: answers_def normalized_def)
qed

text \<open>The players a step asks, as positions in the player list.\<close>

definition asked :: "master \<Rightarrow> nat set" where
  "asked m = (if em_mode m = Simultaneous then {i. i < length (em_players m)} else {em_next_player m})"

lemma step_players:
  assumes "echo_ok m" "next_step m = Inr (Some step)"
  shows "st_mode step = em_mode m" "em_resolved m < em_turns m" "st_turn step = em_resolved m + 1"
    "map rq_player (st_requests step) =
       (if em_mode m = Simultaneous then em_player_ids m else [em_player_ids m ! em_next_player m])"
    "st_mode step = Simultaneous \<or> st_mode step = Sequential \<and> length (st_requests step) = 1"
  using assms
  by (auto simp: echo_ok_def next_step_def Let_def step_request_def o_def split: if_splits)

lemma echo_ok_step:
  assumes ok: "echo_ok m" and next_: "next_step m = Inr (Some step)" and ans: "answers step raws"
  shows "\<exists>m'. apply_step m step (normalized echo_game m step raws) = (None, m') \<and> echo_ok m' \<and>
    Suc (echo_left m') = echo_left m \<and> em_turns m' = em_turns m \<and> em_meta m' = em_meta m \<and>
    em_players m' = em_players m \<and> em_mode m' = em_mode m \<and> em_order m' = em_order m \<and>
    em_seed_aware m' = em_seed_aware m \<and> em_rng_seed m' = em_rng_seed m \<and> em_deadline m' = em_deadline m"
proof -
  let ?ss = "normalized echo_game m step raws" and ?f = "fold apply_status (normalized echo_game m step raws) m"
  note st = step_players [OF ok next_]
  have okm: "distinct (em_player_ids m)" "em_player_ids m = map pl_id (em_players m)"
    "em_next_player m < length (em_players m)" "0 \<le> em_resolved m" "em_resolved m \<le> em_turns m"
    "em_mode m = Simultaneous \<and> em_next_player m = 0 \<or> em_mode m = Sequential"
    "fst ` set (em_score m) = set (em_player_ids m)" "last_ok (em_player_ids m) (em_last_action m)"
    "\<And>i. i < length (em_players m) \<Longrightarrow> 0 \<le> getd 0 (em_score m) (em_player_ids m ! i) \<and>
        getd 0 (em_score m) (em_player_ids m ! i) \<le> turns_taken m i"
    using ok by (auto simp: echo_ok_def)
  have len: "length (em_player_ids m) = length (em_players m)" using okm(2) by simp
  have pl: "map as_player ?ss = (if em_mode m = Simultaneous then em_player_ids m
      else [em_player_ids m ! em_next_player m])"
    using echo_normalized_players [OF ans] st(4) by simp
  have sub: "as_player ` set ?ss \<subseteq> set (em_player_ids m)"
    using arg_cong [OF pl, of set] okm(3) len by (auto split: if_splits)
  have d: "distinct (map as_player ?ss)" using pl okm(1) by simp
  have mem: "em_player_ids m ! i \<in> as_player ` set ?ss \<longleftrightarrow> i \<in> asked m" if "i < length (em_players m)" for i
  proof -
    have "as_player ` set ?ss = set (if em_mode m = Simultaneous then em_player_ids m
        else [em_player_ids m ! em_next_player m])" by (simp only: set_map [symmetric] pl)
    then show ?thesis using that len okm(1,3) by (auto simp: asked_def nth_eq_iff_index_eq)
  qed
  have maps: "fst ` set (em_score ?f) = set (em_player_ids m)"
    "last_ok (em_player_ids m) (em_last_action ?f)"
    "\<And>q. getd 0 (em_score m) q \<le> getd 0 (em_score ?f) q \<and>
      getd 0 (em_score ?f) q \<le> getd 0 (em_score m) q + (if q \<in> as_player ` set ?ss then 1 else 0)"
    using apply_statuses_maps [of ?ss m "em_player_ids m"] sub d okm(7,8) echo_normalized_status [OF ans]
    by (auto simp: image_subset_iff)
  have bound: "0 \<le> getd 0 (em_score ?f) (em_player_ids m ! i) \<and>
      getd 0 (em_score ?f) (em_player_ids m ! i) \<le> turns_taken m i + (if i \<in> asked m then 1 else 0)"
    if i: "i < length (em_players m)" for i
    using okm(9) [OF i] maps(3) [of "em_player_ids m ! i"] mem [OF i] by (auto split: if_splits)
  show ?thesis
  proof (cases "em_mode m = Simultaneous")
    case True
    then have np: "em_next_player m = 0" using okm(6) by simp
    let ?m' = "?f\<lparr>em_resolved := em_resolved m + 1\<rparr>"
    have "apply_step m step ?ss = (None, ?m')" using True st(1) by (simp add: apply_step_def Let_def)
    moreover have "echo_ok ?m'"
      using okm(1-5) st(2) maps(1,2) bound True np
      by (auto simp: echo_ok_def turns_taken_def asked_def)
    moreover have "Suc (echo_left ?m') = echo_left m"
      using True st(2) by (simp add: echo_left_def)
    ultimately show ?thesis by (intro exI [of _ ?m']) simp
  next
    case False
    then have sq: "em_mode m = Sequential" using okm(6) by simp
    let ?m' = "if em_next_player m + 1 \<ge> length (em_players m)
        then ?f\<lparr>em_next_player := 0, em_resolved := em_resolved m + 1\<rparr>
        else ?f\<lparr>em_next_player := em_next_player m + 1\<rparr>"
    have app: "apply_step m step ?ss = (None, ?m')" using sq st(1) by (simp add: apply_step_def Let_def)
    show ?thesis
    proof (cases "em_next_player m + 1 \<ge> length (em_players m)")
      case wrap: True
      then have np: "em_next_player m = length (em_players m) - 1" using okm(3) by simp
      have "getd 0 (em_score ?f) (em_player_ids m ! i) \<le> em_resolved m + 1"
        if "i < length (em_players m)" for i
        using bound [OF that] sq by (auto simp: turns_taken_def asked_def split: if_splits)
      then have "echo_ok ?m'"
        using wrap okm(1-5) st(2) maps(1,2) bound sq
        by (auto simp: echo_ok_def turns_taken_def)
      moreover have "nat (em_turns m - em_resolved m) = Suc (nat (em_turns m - (em_resolved m + 1)))"
        using st(2) by simp
      then have "Suc (echo_left ?m') = echo_left m"
        using wrap np sq okm(3) by (simp add: echo_left_def)
      ultimately show ?thesis using app wrap by (intro exI [of _ ?m']) simp
    next
      case more: False
      have "getd 0 (em_score ?f) (em_player_ids m ! i) \<le> em_resolved m + (if i < Suc (em_next_player m) then 1 else 0)"
        if "i < length (em_players m)" for i
        using bound [OF that] sq by (auto simp: turns_taken_def asked_def less_Suc_eq split: if_splits)
      then have "echo_ok ?m'"
        using more okm(1-5) st(2) maps(1,2) bound sq
        by (auto simp: echo_ok_def turns_taken_def)
      moreover have "em_next_player m < nat (em_turns m - em_resolved m) * length (em_players m)"
        using left_pos okm(3) st(2) by blast
      then have "Suc (echo_left ?m') = echo_left m"
        using more sq by (simp add: echo_left_def)
      ultimately show ?thesis using app more by (intro exI [of _ ?m']) simp
    qed
  qed
qed

end
