(* ===== verification/Echo_Restore.thy ===== *)
theory Echo_Restore
  imports Echo_Game
begin

text \<open>
  Runs of the echo-count master: the contract interpretation, score bounds, placements, and
  what restoring a snapshot does at and inside a turn.
\<close>

section \<open>The contract\<close>

lemma echo_ok_new:
  assumes "new_master cfg = Inr m" "distinct (map pl_id (ec_players cfg))"
  shows "echo_ok m"
proof -
  obtain sel where sel: "selection_for (ec_game_id cfg) (ec_game_version cfg) (ec_ruleset cfg) = Inr sel"
    and f: "em_players m = ec_players cfg" "em_player_ids m = map pl_id (ec_players cfg)"
    "em_mode m = sl_mode sel" "em_turns m = sl_turns sel" "em_resolved m = 0" "em_next_player m = 0"
    "em_score m = put_all pl_id (\<lambda>_. 0) (ec_players cfg) []"
    "em_last_action m = put_all pl_id (\<lambda>p. no_action (pl_id p)) (ec_players cfg) []" "ec_players cfg \<noteq> []"
    using echo_new_master_fields [OF assms(1)] by blast
  have "getd 0 (put_all pl_id (\<lambda>_. 0::int) (ec_players cfg) []) q = 0" for q by simp
  then show ?thesis
    using assms(2) selection_turns [OF sel] f
    by (auto simp: echo_ok_def fst_put_all last_ok_new turns_taken_def)
qed

interpretation ec_game: game_master echo_game echo_ok echo_left
proof
  show "\<exists>s. go_init echo_game m = Inr s" for m by simp
  show nx: "\<exists>r. go_next echo_game m = Inr r" if "echo_ok m" for m
    using that by (auto simp: next_step_def echo_ok_def Let_def)
  show "(go_next echo_game m = Inr None) = (echo_left m = 0)" if "echo_ok m" for m
  proof (cases "em_resolved m < em_turns m")
    case True
    then have "em_next_player m < nat (em_turns m - em_resolved m) * length (em_players m)"
      using that left_pos by (auto simp: echo_ok_def)
    then show ?thesis using True that by (auto simp: next_step_def echo_left_def echo_ok_def Let_def)
  next
    case False
    then show ?thesis using that by (auto simp: next_step_def echo_left_def echo_ok_def)
  qed
  show "st_mode step = Simultaneous \<or> st_mode step = Sequential \<and> length (st_requests step) = 1"
    if "echo_ok m" "go_next echo_game m = Inr (Some step)" for m step
    using step_players(5) that by simp
  show "\<exists>m'. go_apply echo_game m step (normalized echo_game m step raws) = (None, m') \<and>
      echo_ok m' \<and> Suc (echo_left m') = echo_left m"
    if "echo_ok m" "go_next echo_game m = Inr (Some step)" "answers step raws" for m step raws
    using echo_ok_step [OF that(1)] that by auto
qed

lemma echo_plays_frame:
  assumes "plays echo_game m0 m" "echo_ok m0"
  shows "em_turns m = em_turns m0 \<and> em_meta m = em_meta m0 \<and> em_players m = em_players m0 \<and>
    em_mode m = em_mode m0 \<and> em_order m = em_order m0 \<and> em_seed_aware m = em_seed_aware m0 \<and>
    em_rng_seed m = em_rng_seed m0 \<and> em_deadline m = em_deadline m0"
  using assms
proof (induction rule: plays.induct)
  case (plays_step m1 step raws m2)
  have inv: "echo_ok m1" using ec_game.plays_inv [OF plays_step.hyps(1) plays_step.prems] by simp
  from echo_ok_step [OF inv _ plays_step.hyps(3)] plays_step.hyps(2,4) plays_step.IH [OF plays_step.prems]
  show ?case by auto
qed simp

text \<open>
  No player can score more than once per turn: at every point of an echo-count match a
  score lies between 0 and the number of turns the player has answered so far, and when no
  step is left it is at most the number of turns of the ruleset.
\<close>

theorem echo_scores_bounded:
  assumes "new_master cfg = Inr m0" "distinct (map pl_id (ec_players cfg))"
    and "plays echo_game m0 m" "i < length (ec_players cfg)"
  shows "let s = getd 0 (em_score m) (pl_id (ec_players cfg ! i)) in
    0 \<le> s \<and> s \<le> turns_taken m i \<and> (next_step m = Inr None \<longrightarrow> s \<le> em_turns m)"
proof -
  have ok0: "echo_ok m0" by (rule echo_ok_new [OF assms(1,2)])
  have ok: "echo_ok m" using ec_game.plays_inv [OF assms(3) ok0] by simp
  have "em_players m = ec_players cfg"
    using echo_plays_frame [OF assms(3) ok0] echo_new_master_fields [OF assms(1)] by auto
  then have "em_player_ids m ! i = pl_id (ec_players cfg ! i)" "i < length (em_players m)"
    using ok assms(4) by (auto simp: echo_ok_def)
  then have b: "0 \<le> getd 0 (em_score m) (pl_id (ec_players cfg ! i)) \<and>
      getd 0 (em_score m) (pl_id (ec_players cfg ! i)) \<le> turns_taken m i"
    using ok by (auto simp: echo_ok_def)
  have "turns_taken m i \<le> em_turns m" if "next_step m = Inr None"
  proof -
    have "\<not> em_resolved m < em_turns m"
      using that ok by (auto simp: next_step_def echo_ok_def Let_def)
    then have "em_next_player m = 0" "em_resolved m = em_turns m" using ok by (auto simp: echo_ok_def)
    then show ?thesis by (simp add: turns_taken_def)
  qed
  with b show ?thesis by (auto simp: Let_def)
qed

lemma seq_distinct: "distinct (map pl_id (ec_players seq_config))"
  by (simp add: seq_config_def sample_players_def)

theorem echo_scores_bounded_witness:
  "\<exists>m. plays echo_game seq_master m \<and> next_step m = Inr None \<and>
    getd 0 (em_score m) ''p1'' \<le> em_turns m"
proof -
  obtain m where m: "plays echo_game seq_master m" "go_next echo_game m = Inr None"
    using ec_game.plays_complete [OF echo_ok_new [OF new_seq seq_distinct]] by blast
  have "0 < length (ec_players seq_config)" "pl_id (ec_players seq_config ! 0) = ''p1''"
    by (simp_all add: seq_config_def sample_players_def)
  with echo_scores_bounded [OF new_seq seq_distinct m(1), of 0] m show ?thesis by (auto simp: Let_def)
qed

section \<open>Placements\<close>

interpretation ec_score: placement "\<lambda>a b. (b :: int) < a" "(=)"
  by unfold_locales auto

lemma echo_player_before_alt:
  "player_before = (\<lambda>a b. snd b < snd a \<or> snd a = snd b \<and> fst a < fst b)"
  by (auto simp: player_before_def fun_eq_iff)

interpretation ec_before: weak_order player_before
  by unfold_locales (auto simp: player_before_def split: if_splits)

text \<open>
  The final placements of an echo-count match list every player exactly once, and a
  place is one more than the number of players with a higher score.
\<close>

theorem echo_result_is_competition_ranking:
  assumes "distinct (map pl_id (em_players m))"
  shows "mset (map pc_player (mr_placements (result m))) = mset (map pl_id (em_players m)) \<and>
    (\<forall>x \<in> set (mr_placements (result m)).
       pc_place x = 1 + int (card {q \<in> pl_id ` set (em_players m).
         getd 0 (em_score m) q > getd 0 (em_score m) (pc_player x)}))"
proof -
  define base where "base = map (\<lambda>p. (pl_id p, getd 0 (em_score m) (pl_id p))) (em_players m)"
  define ranked where "ranked = sort_slice player_before base"
  have "sorted_by player_before ranked"
    unfolding ranked_def by (rule ec_before.sorted_sort_slice)
  then have "sorted_by (\<lambda>a b. snd b < snd a) ranked"
    unfolding sorted_by_def by (rule sorted_wrt_mono_rel [rotated]) (auto simp: echo_player_before_alt)
  from ec_score.assign_places_rank [OF this, of 0 0]
  have pl: "mr_placements (result m) =
      map (\<lambda>(p, k). \<lparr>pc_player = p, pc_place = rank_of (\<lambda>a b. b < a) ranked k\<rparr>) ranked"
    by (simp add: result_def Let_def ranked_def base_def o_def case_prod_beta)
  have rank: "rank_of (\<lambda>a b. b < a) ranked k = 1 + int (card {q \<in> pl_id ` set (em_players m).
      k < getd 0 (em_score m) q})" for k
  proof -
    have "rank_of (\<lambda>a b. b < a) ranked k = rank_of (\<lambda>a b. b < a) base k"
      by (rule rank_of_mset_cong) (simp add: ranked_def)
    also have "\<dots> = 1 + int (length (filter (\<lambda>q. k < getd 0 (em_score m) q) (map pl_id (em_players m))))"
      by (simp add: rank_of_def base_def filter_map o_def)
    also have "length (filter (\<lambda>q. k < getd 0 (em_score m) q) (map pl_id (em_players m))) =
        card (set (filter (\<lambda>q. k < getd 0 (em_score m) q) (map pl_id (em_players m))))"
      using assms by (intro distinct_card [symmetric] distinct_filter)
    finally show ?thesis by simp
  qed
  have key: "snd x = getd 0 (em_score m) (fst x)" if "x \<in> set ranked" for x
    using that by (auto simp: ranked_def base_def)
  have "mset (map pc_player (mr_placements (result m))) = mset (map fst ranked)"
    by (simp add: pl o_def case_prod_beta)
  also have "mset (map fst ranked) = image_mset fst (mset base)" by (simp add: ranked_def)
  also have "\<dots> = mset (map pl_id (em_players m))" by (simp add: base_def o_def flip: mset_map)
  finally show ?thesis using key by (auto simp: pl rank)
qed

theorem echo_result_is_competition_ranking_witness:
  "mset (map pc_player (mr_placements (result seq_master))) = {#''p1'', ''p2''#}"
  using echo_result_is_competition_ranking [of seq_master]
  by (simp add: seq_master_fields sample_players_def)


section \<open>Restoring a snapshot\<close>

text \<open>Two masters that differ at most in the order in which maps store their entries.\<close>

definition alike :: "master \<Rightarrow> master \<Rightarrow> bool" where
  "alike m m' \<longleftrightarrow>
     em_meta m = em_meta m' \<and> em_players m = em_players m' \<and> em_player_ids m = em_player_ids m' \<and>
     em_mode m = em_mode m' \<and> em_turns m = em_turns m' \<and> em_deadline m = em_deadline m' \<and>
     em_rng_seed m = em_rng_seed m' \<and> em_seed_aware m = em_seed_aware m' \<and> em_order m = em_order m' \<and>
     em_resolved m = em_resolved m' \<and> em_next_player m = em_next_player m' \<and>
     map_of (em_score m) = map_of (em_score m') \<and> map_of (em_last_action m) = map_of (em_last_action m')"

lemma echo_alike_observations:
  assumes "alike m m'"
  shows "next_step m = next_step m'" "take_snapshot m = take_snapshot m'"
    "exported_snapshot_of m = exported_snapshot_of m'" "result m = result m'"
proof -
  note a = assms [unfolded alike_def]
  have enc: "enc_map JInt (em_score m) = enc_map JInt (em_score m')"
    using a by (intro enc_map_cong) simp
  have get: "getd 0 (em_score m) = getd 0 (em_score m')"
    "getd zero_status (em_last_action m) = getd zero_status (em_last_action m')"
    using a by (simp_all add: getd_def fun_eq_iff)
  have exp: "master_expected m = master_expected m'"
    using a by (simp add: master_expected_def fun_eq_iff)
  have req: "step_request m t e = step_request m' t e" for t e
    using a enc by (simp add: step_request_def enc_visible_state_def fun_eq_iff)
  show "next_step m = next_step m'" using a exp req by (simp add: next_step_def Let_def cong: decision_mode.case_cong)
  show "take_snapshot m = take_snapshot m'"
    using a exp enc by (simp add: take_snapshot_def snapshot_state_json_def)
  show "exported_snapshot_of m = exported_snapshot_of m'"
    using a get enc by (simp add: exported_snapshot_of_def)
  show "result m = result m'" using a get by (simp add: result_def)
qed

lemma str_mode_inverse [simp]:
  "str_mode (mode_str Sequential) = Sequential" "str_mode (mode_str Simultaneous) = Simultaneous"
  by (simp_all add: str_mode_def)

lemma dec_enc_ints: "(\<And>i. i \<in> set xs \<Longrightarrow> int64_ok i) \<Longrightarrow> dec_list dec_int 0 (JArr (map JInt xs)) ys = Some xs"
proof -
  assume "\<And>i. i \<in> set xs \<Longrightarrow> int64_ok i"
  then have "map_all (\<lambda>x. dec_int (JInt x) 0) xs = Some (map id xs)"
    by (intro map_all_Some) (simp add: dec_int_def)
  then show ?thesis by (simp add: dec_list_def map_all_map)
qed

lemma echo_dec_enc_snapshot_state:
  assumes mode: "em_mode m = Sequential \<or> em_mode m = Simultaneous"
    and ints: "int64_ok (master_expected m (em_resolved m))" "int64_ok (em_resolved m)"
      "\<And>i. i \<in> set (em_order m) \<Longrightarrow> int64_ok i" "\<And>p i. map_of (em_score m) p = Some i \<Longrightarrow> int64_ok i"
  shows "\<exists>sc. dec_snapshot_state (snapshot_state_json m) zero_snapshot_state = Some
      \<lparr>es_mode = em_mode m, es_turn = em_resolved m, es_expected = master_expected m (em_resolved m),
       es_score = sc, es_rng_seed = (if em_seed_aware m then em_rng_seed m else []),
       es_order = (if em_seed_aware m then em_order m else [])\<rparr> \<and>
    map_of sc = map_of (em_score m) \<and> distinct (map fst sc)"
proof -
  obtain sc where sc: "dec_map dec_int 0 (enc_map JInt (em_score m)) [] = Some sc"
    "map_of sc = map_of (em_score m)" "distinct (map fst sc)"
    using dec_enc_map [of "em_score m" dec_int JInt 0] ints(4) by (auto simp: dec_int_def)
  have order: "dec_list dec_int 0 (JArr (map JInt (em_order m))) ys = Some (em_order m)" for ys
    using dec_enc_ints ints(3) by blast
  have "str_mode (mode_str (em_mode m)) = em_mode m" using mode by (auto simp: str_mode_def)
  then show ?thesis
    using sc order ints(1,2)
    by (cases "em_seed_aware m")
      (simp_all add: snapshot_state_json_def dec_snapshot_state_def dec_defs dec_mode_def upper_def
        zero_snapshot_state_def)
qed

lemma echo_current_snapshot_players:
  assumes "distinct (em_player_ids m)"
  defines "per \<equiv> sn_per_player (current_snapshot echo_game m)"
  shows "distinct (map fst per)" "fst ` set per = set (em_player_ids m)"
    "p \<in> set (em_player_ids m) \<Longrightarrow> \<exists>v. map_of per p =
       Some \<lparr>ps_visible = v, ps_last = getd zero_status (em_last_action m) p, ps_stderr_bytes = 0\<rparr>"
proof -
  let ?xs = "map (\<lambda>p. \<lparr>xp_player = p, xp_last = getd zero_status (em_last_action m) p\<rparr>) (em_player_ids m)"
  have per: "per = fold (fill_player (visible_state m)) ?xs []"
    by (simp add: per_def current_snapshot_def take_snapshot_def exported_snapshot_of_def)
  show "distinct (map fst per)" unfolding per by (rule fill_players_distinct) simp
  show "fst ` set per = set (em_player_ids m)" by (simp add: per fill_players_keys image_image)
  have d: "distinct (map xp_player ?xs)" using assms(1) by (simp add: o_def)
  show "p \<in> set (em_player_ids m) \<Longrightarrow> \<exists>v. map_of per p =
       Some \<lparr>ps_visible = v, ps_last = getd zero_status (em_last_action m) p, ps_stderr_bytes = 0\<rparr>"
    using fill_players_fresh [OF d, of "\<lparr>xp_player = p, xp_last = getd zero_status (em_last_action m) p\<rparr>" "[]"]
    by (simp add: per image_iff)
qed

lemma expected_range:
  assumes "em_order m = expected_order n seed aware" "0 < n" "0 \<le> r"
  shows "1 \<le> master_expected m r \<and> master_expected m r \<le> n"
proof -
  have "set (em_order m) = {1..n}"
    using mset_eq_setD [OF mset_expected_order [of n seed aware]] assms(1) by simp
  moreover have "length (em_order m) = nat n" using assms(1) by simp
  then have "master_expected m r \<in> set (em_order m)"
    using assms(2,3) by (auto simp: master_expected_def expected_for_resolved_count_def)
  ultimately show ?thesis by simp
qed

lemma echo_restored_alike:
  assumes new: "new_master cfg = Inr m0" and d: "distinct (map pl_id (ec_players cfg))"
    and m: "plays echo_game m0 m"
  shows "\<exists>m'. new_from_snapshot cfg (current_snapshot echo_game m) = Inr m' \<and>
    alike (m\<lparr>em_next_player := 0\<rparr>) m'"
proof -
  have ok0: "echo_ok m0" by (rule echo_ok_new [OF new d])
  have ok: "echo_ok m" using ec_game.plays_inv [OF m ok0] by simp
  note frame = echo_plays_frame [OF m ok0]
  obtain sel where sel: "selection_for (ec_game_id cfg) (ec_game_version cfg) (ec_ruleset cfg) = Inr sel"
    and f: "em_players m0 = ec_players cfg" "em_player_ids m0 = map pl_id (ec_players cfg)"
    "em_mode m0 = sl_mode sel" "em_turns m0 = sl_turns sel" "em_seed_aware m0 = sl_seed_aware sel"
    "em_rng_seed m0 = ec_rng_seed cfg"
    "em_order m0 = expected_order (sl_turns sel) (ec_rng_seed cfg) (sl_seed_aware sel)"
    "em_score m0 = put_all pl_id (\<lambda>_. 0) (ec_players cfg) []"
    "em_last_action m0 = put_all pl_id (\<lambda>p. no_action (pl_id p)) (ec_players cfg) []"
    "sl_seed_aware sel \<longrightarrow> ec_rng_seed cfg \<noteq> []"
    using echo_new_master_fields [OF new] by blast
  have turns: "sl_turns sel = 2 \<or> sl_turns sel = 3" using selection_turns [OF sel] by simp
  have okm: "0 \<le> em_resolved m" "em_resolved m \<le> em_turns m0" "em_player_ids m = em_player_ids m0"
    "em_mode m = Sequential \<or> em_mode m = Simultaneous" "distinct (em_player_ids m)"
    "fst ` set (em_score m) = set (em_player_ids m)" "last_ok (em_player_ids m) (em_last_action m)"
    "\<And>i. i < length (em_players m) \<Longrightarrow> 0 \<le> getd 0 (em_score m) (em_player_ids m ! i) \<and>
        getd 0 (em_score m) (em_player_ids m ! i) \<le> turns_taken m i"
    using ok ok0 frame by (auto simp: echo_ok_def)
  have len: "length (em_player_ids m) = length (em_players m)" using ok by (auto simp: echo_ok_def)
  have small: "int64_ok i" if "0 \<le> i" "i \<le> 4" for i using that by (simp add: int64_ok_def)
  have exp: "1 \<le> master_expected m (em_resolved m) \<and> master_expected m (em_resolved m) \<le> sl_turns sel"
    by (rule expected_range [of m _ "ec_rng_seed cfg" "sl_seed_aware sel"]) (use frame f turns okm(1) in auto)
  have ord: "int64_ok i" if "i \<in> set (em_order m)" for i
  proof -
    have "set (em_order m) = {1..sl_turns sel}"
      using mset_eq_setD [OF mset_expected_order] frame f(7) by simp
    then show ?thesis using that turns by (intro small) auto
  qed
  have score: "int64_ok i" if s: "map_of (em_score m) p = Some i" for p i
  proof -
    have "p \<in> set (em_player_ids m)"
      using s okm(6) by (metis map_of_eq_None_iff option.distinct(1))
    then obtain k where k: "k < length (em_players m)" "em_player_ids m ! k = p"
      using len by (metis in_set_conv_nth)
    have "getd 0 (em_score m) p = i" using s by (simp add: getd_def)
    moreover have "turns_taken m k \<le> 4" using okm(2) f(4) turns by (auto simp: turns_taken_def)
    ultimately show ?thesis using okm(8) [OF k(1)] k(2) by (intro small) auto
  qed
  have res: "int64_ok (em_resolved m)" using okm(1,2) f(4) turns by (intro small) auto
  have expi: "int64_ok (master_expected m (em_resolved m))" using exp turns by (intro small) auto
  let ?sn = "current_snapshot echo_game m"
  have sn: "sn_game_id ?sn = gm_game_id (em_meta m0)" "sn_game_version ?sn = gm_game_version (em_meta m0)"
    "sn_ruleset ?sn = gm_ruleset (em_meta m0)" "sn_turn ?sn = em_resolved m"
    "sn_game_state ?sn = RawJson (snapshot_state_json m)"
    using frame by (simp_all add: current_snapshot_def take_snapshot_def)
  obtain sc where sc: "dec_snapshot_state (snapshot_state_json m) zero_snapshot_state = Some
      \<lparr>es_mode = em_mode m, es_turn = em_resolved m, es_expected = master_expected m (em_resolved m),
       es_score = sc, es_rng_seed = (if em_seed_aware m then em_rng_seed m else []),
       es_order = (if em_seed_aware m then em_order m else [])\<rparr>"
    "map_of sc = map_of (em_score m)" "distinct (map fst sc)"
    using echo_dec_enc_snapshot_state [of m] okm(4) expi res ord score by blast
  have keys: "fst ` set (put_all id v (em_player_ids m0) base) = set (em_player_ids m)"
    if "fst ` set base = set (em_player_ids m)" for v and base :: "'x gomap"
    using that okm(3) by (simp add: fst_put_all_base)
  obtain scores where scores: "put_known UnknownScorePlayer sc
      (put_all id (\<lambda>_. 0) (em_player_ids m0) (em_score m0)) = Inr scores"
    "map_of scores = map_of (em_score m)"
    using put_known_restores [OF sc(3,2), of "put_all id (\<lambda>_. 0) (em_player_ids m0) (em_score m0)"
        UnknownScorePlayer]
      keys [of "em_score m0"] okm(3,6) f(2,8) by (auto simp: fst_put_all)
  let ?per = "sn_per_player ?sn" and ?last0 = "put_all id no_action (em_player_ids m0) (em_last_action m0)"
  have per: "distinct (map fst ?per)" "fst ` set ?per = set (em_player_ids m)"
    "\<And>p. p \<in> set (em_player_ids m) \<Longrightarrow> \<exists>v. map_of ?per p =
       Some \<lparr>ps_visible = v, ps_last = getd zero_status (em_last_action m) p, ps_stderr_bytes = 0\<rparr>"
    using echo_current_snapshot_players [OF okm(5)] by blast+
  have last0: "fst ` set ?last0 = set (em_player_ids m)"
    using keys [of "em_last_action m0"] okm(3) f(2,9) by (simp add: fst_put_all)
  obtain l where l: "foldR (restore_last UnknownPerPlayer) ?per ?last0 = Inr l"
    "map_of l = map_of (em_last_action m)"
    using restore_last_restores [OF okm(7) per(1,2) _ last0, of UnknownPerPlayer] per(3) by fastforce
  have cfg: "\<not> em_seed_aware m \<and> new_master (cfg\<lparr>ec_rng_seed := []\<rparr>) = new_master cfg"
    if "ec_rng_seed cfg = []"
  proof -
    have "cfg\<lparr>ec_rng_seed := []\<rparr> = cfg" using that by simp
    then show ?thesis using that f(5,10) frame by metis
  qed
  let ?m' = "m0\<lparr>em_resolved := em_resolved m, em_next_player := 0, em_score := scores, em_last_action := l\<rparr>"
  have seed: "restore_seed m0 \<lparr>es_mode = em_mode m, es_turn = em_resolved m,
       es_expected = master_expected m (em_resolved m),
       es_score = sc, es_rng_seed = (if em_seed_aware m then em_rng_seed m else []),
       es_order = (if em_seed_aware m then em_order m else [])\<rparr> = Inr m0"
    using frame f by (cases "em_seed_aware m0") (auto simp: restore_seed_def Let_def)
  have "master_expected m0 (em_resolved m) = master_expected m (em_resolved m)"
    using frame by (simp add: master_expected_def)
  then have "apply_snapshot m0 ?sn = Inr ?m'"
    using sn okm(1,2) sc(1) scores(1) l(1) frame seed
    by (simp add: apply_snapshot_def)
  then have "new_from_snapshot cfg ?sn = Inr ?m'"
    using cfg new by (cases "ec_rng_seed cfg = []") (auto simp: new_from_snapshot_def Let_def sn(5) sc(1))
  moreover have "alike (m\<lparr>em_next_player := 0\<rparr>) ?m'"
    using frame okm(3) scores(2) l(2) by (simp add: alike_def)
  ultimately show ?thesis by blast
qed


text \<open>
  C22. Resuming at a turn boundary is lossless: whenever no player has answered the current
  turn yet, restoring the snapshot of the in-process session succeeds, and the restored
  master shows the same next step, the same snapshots and the same result.
\<close>

theorem echo_resume_at_turn_boundary_lossless:
  assumes "new_master cfg = Inr m0" "distinct (map pl_id (ec_players cfg))" "plays echo_game m0 m"
    and "em_next_player m = 0"
  shows "\<exists>m'. new_from_snapshot cfg (current_snapshot echo_game m) = Inr m' \<and>
    next_step m' = next_step m \<and> take_snapshot m' = take_snapshot m \<and>
    exported_snapshot_of m' = exported_snapshot_of m \<and> result m' = result m"
proof -
  have "m\<lparr>em_next_player := 0\<rparr> = m" using assms(4) by simp
  then show ?thesis using echo_restored_alike [OF assms(1-3)] echo_alike_observations by metis
qed

lemma sequential_second_player:
  "\<exists>m. plays echo_game seq_master m \<and> em_next_player m = 1 \<and> em_resolved m = 0 \<and>
    getd 0 (em_score m) ''p1'' = 1 \<and> em_players m = sample_players \<and> em_mode m = Sequential \<and> em_turns m = 3"
proof -
  let ?req = "step_request seq_master 1 1 \<lparr>pl_id = ''p1'', pl_ai = ''a''\<rparr>"
  let ?s = "\<lparr>as_player = ''p1'', as_decision = ActionAccepted, as_reason = NoReason, as_action = enc_action 1\<rparr>"
  let ?step = "\<lparr>st_turn = 1, st_mode = Sequential, st_requests = [?req]\<rparr>"
  have player: "rq_player ?req = ''p1''" by (simp add: step_request_def)
  have ans: "answers ?step [?s]" by (simp add: answers_def player)
  have "unmarshal dec_action (enc_action 1) 0 = Some 1"
    by (simp add: enc_action_def dec_action_def dec_defs int64_ok_def)
  moreover have "expected_for_turn seq_master ?req = 1"
    using expected_for_step_request [of seq_master 1 "\<lparr>pl_id = ''p1'', pl_ai = ''a''\<rparr>"]
    by (simp add: seq_master_fields master_expected_def expected_for_resolved_count_def)
  ultimately have "normalize_action seq_master ?req ?s = ?s"
    by (simp add: normalize_action_def)
  then have norm: "normalized echo_game seq_master ?step [?s] = [?s]" by (simp add: normalized_def)
  let ?m = "(apply_status ?s seq_master)\<lparr>em_next_player := 1\<rparr>"
  have "apply_step seq_master ?step [?s] = (None, ?m)"
    by (simp add: apply_step_def Let_def seq_master_fields sample_players_def)
  then have "plays echo_game seq_master ?m"
    using plays_step [OF plays_refl, of echo_game seq_master ?step "[?s]" ?m] seq_master_step ans norm by simp
  moreover have "getd 0 (em_score ?m) ''p1'' = 1"
    using echo_apply_status_maps(2) [of ?s seq_master "''p1''"] by (simp add: seq_master_fields getd_def)
  ultimately show ?thesis
    by (intro exI [of _ ?m]) (simp add: seq_master_fields)
qed

theorem echo_resume_at_turn_boundary_lossless_witness:
  "\<exists>m'. new_from_snapshot seq_config (current_snapshot echo_game seq_master) = Inr m' \<and>
    next_step m' = next_step seq_master"
  using echo_resume_at_turn_boundary_lossless [OF new_seq seq_distinct plays_refl] seq_master_fields(7)
  by blast

text \<open>
  Resuming inside a sequential turn is not: the snapshot does not record whose answer is
  next, so there is a reachable state in which the second player is to answer and the
  restored master asks the first player again, keeping the point already scored in that
  turn.
\<close>

theorem echo_resume_inside_turn_asks_again:
  "\<exists>m m' step step'. plays echo_game seq_master m \<and>
    new_from_snapshot seq_config (current_snapshot echo_game m) = Inr m' \<and>
    next_step m = Inr (Some step) \<and> map rq_player (st_requests step) = [''p2''] \<and>
    next_step m' = Inr (Some step') \<and> map rq_player (st_requests step') = [''p1''] \<and>
    st_turn step' = st_turn step \<and> getd 0 (em_score m') ''p1'' = 1"
proof -
  obtain m where m: "plays echo_game seq_master m" "em_next_player m = 1" "em_resolved m = 0"
    "getd 0 (em_score m) ''p1'' = 1" "em_players m = sample_players" "em_mode m = Sequential" "em_turns m = 3"
    using sequential_second_player by blast
  obtain m' where m': "new_from_snapshot seq_config (current_snapshot echo_game m) = Inr m'"
    "alike (m\<lparr>em_next_player := 0\<rparr>) m'"
    using echo_restored_alike [OF new_seq seq_distinct m(1)] by blast
  have f: "em_next_player m' = 0" "em_resolved m' = 0" "em_players m' = sample_players"
    "em_mode m' = Sequential" "em_turns m' = 3" "map_of (em_score m') = map_of (em_score m)"
    using m' m by (auto simp: alike_def)
  have s: "getd 0 (em_score m') ''p1'' = 1" using f(6) m(4) by (simp add: getd_def)
  show ?thesis
    using m m' f s
    by (intro exI [of _ m] exI [of _ m'])
      (auto simp: next_step_def Let_def sample_players_def step_request_def)
qed

end
