(* ===== verification/Paths.thy ===== *)
theory Paths
  imports Prelude
begin

text \<open>
  Slash-separated paths as \<open>path/filepath\<close> (on Unix) and \<open>path\<close> treat them: lexical
  cleaning, joining, the last element and the directory.
\<close>

fun join_with :: "string \<Rightarrow> string list \<Rightarrow> string" where
  "join_with sep [] = []"
| "join_with sep [x] = x"
| "join_with sep (x # y # ys) = x @ sep @ join_with sep (y # ys)"

text \<open>
  One path element against the elements kept so far, the last one first: \<open>..\<close> removes an
  element that is not itself \<open>..\<close>; at the root it disappears, in a relative path it stays.
\<close>

definition clean_element :: "bool \<Rightarrow> string \<Rightarrow> string list \<Rightarrow> string list" where
  "clean_element rooted e out =
     (if e = [] \<or> e = ''.'' then out
      else if e = ''..'' then
        (case out of
           [] \<Rightarrow> if rooted then [] else [''..'']
         | x # xs \<Rightarrow> if x = ''..'' then ''..'' # out else xs)
      else e # out)"

definition clean_elements :: "bool \<Rightarrow> string list \<Rightarrow> string list" where
  "clean_elements rooted es = rev (fold (clean_element rooted) es [])"

definition clean :: "string \<Rightarrow> string" where
  "clean p =
     (if p = [] then ''.''
      else
        let rooted = hd p = CHR ''/''; out = clean_elements rooted (split_on (CHR ''/'') p)
        in if rooted then ''/'' @ join_with ''/'' out
           else if out = [] then ''.'' else join_with ''/'' out)"

definition join :: "string list \<Rightarrow> string" where
  "join es = (case dropWhile (\<lambda>e. e = []) es of [] \<Rightarrow> [] | es1 \<Rightarrow> clean (join_with ''/'' es1))"

definition base :: "string \<Rightarrow> string" where
  "base p =
     (if p = [] then ''.''
      else
        let q = rev (dropWhile (\<lambda>c. c = CHR ''/'') (rev p));
            b = rev (takeWhile (\<lambda>c. c \<noteq> CHR ''/'') (rev q))
        in if b = [] then ''/'' else b)"

definition dir :: "string \<Rightarrow> string" where
  "dir p = clean (rev (dropWhile (\<lambda>c. c \<noteq> CHR ''/'') (rev p)))"

definition is_abs :: "string \<Rightarrow> bool" where
  "is_abs p = (p \<noteq> [] \<and> hd p = CHR ''/'')"

section \<open>Lemmas\<close>

lemma join_with_append:
  "xs \<noteq> [] \<Longrightarrow> ys \<noteq> [] \<Longrightarrow> join_with sep (xs @ ys) = join_with sep xs @ sep @ join_with sep ys"
proof (induction sep xs rule: join_with.induct)
  case (2 sep x)
  then show ?case by (cases ys) auto
qed auto

lemma base_join_last:
  assumes "CHR ''/'' \<notin> set n" "n \<noteq> []"
  shows "base (join_with ''/'' (es @ [n])) = n"
proof -
  obtain pre where p: "join_with ''/'' (es @ [n]) = pre @ n" "pre = [] \<or> last pre = CHR ''/''"
  proof (cases "es = []")
    case True
    then show ?thesis using that [of "[]"] by simp
  next
    case False
    then show ?thesis using that [of "join_with ''/'' es @ ''/''"] by (simp add: join_with_append)
  qed
  have n: "last n \<noteq> CHR ''/''" using assms by (metis last_in_set)
  have drop: "dropWhile (\<lambda>c. c = CHR ''/'') (rev (pre @ n)) = rev (pre @ n)"
    using n assms(2) by (cases n rule: rev_cases) auto
  have "takeWhile (\<lambda>c. c \<noteq> CHR ''/'') (rev n @ rev pre) = rev n"
    using assms(1) p(2) by (subst takeWhile_append2) (auto simp: takeWhile_eq_Nil_iff hd_rev)
  then show ?thesis using assms(2) by (simp add: base_def p(1) drop [simplified])
qed

end
