(* ===== verification/Artifacts.thy ===== *)
theory Artifacts
  imports Match_Log Paths
begin

text \<open>
  The artifact layout and the result summary of \<open>internal/platform/artifacts/artifacts.go\<close>.
  Creating the directories and writing the files is left to the operating system.
\<close>

record layout =
  ly_base_dir :: string
  ly_match_dir :: string
  ly_record :: string
  ly_log :: string
  ly_snapshot :: string
  ly_exported :: string
  ly_history :: string
  ly_summary :: string
  ly_replay :: string

record path_refs =
  pf_record :: string
  pf_log :: string
  pf_snapshot :: string
  pf_exported :: string
  pf_history :: string

record result_summary =
  sy_match :: string
  sy_game :: string
  sy_version :: string
  sy_ruleset :: string
  sy_status :: match_status
  sy_turn :: int
  sy_placements :: "placement list"
  sy_paths :: path_refs
  sy_error :: string

definition new_layout :: "string \<Rightarrow> string \<Rightarrow> layout" where
  "new_layout output_dir match_id =
     (let match_dir = join [output_dir, match_id]
      in \<lparr>ly_base_dir = output_dir, ly_match_dir = match_dir,
          ly_record = join [match_dir, ''record.json''],
          ly_log = join [match_dir, ''structured-log.ndjson''],
          ly_snapshot = join [match_dir, ''snapshot.json''],
          ly_exported = join [match_dir, ''exported-snapshot.json''],
          ly_history = join [match_dir, ''history.json''],
          ly_summary = join [match_dir, ''result-summary.json''],
          ly_replay = join [match_dir, ''public-replay.json'']\<rparr>)"

definition dec_error_payload :: "string decoder" where
  "dec_error_payload = dec_struct [(''error'', dec_field (\<lambda>s. s) (\<lambda>x s. x) dec_str)]"

fun last_error :: "event list \<Rightarrow> string" where
  "last_error [] = []"
| "last_error (ev # evs) =
     (if ev_kind ev \<noteq> ''match_failed'' \<and> ev_kind ev \<noteq> ''match_canceled'' then last_error evs
      else case unmarshal dec_error_payload (ev_payload ev) [] of
        Some e \<Rightarrow> e
      | None \<Rightarrow> last_error evs)"

definition terminal_error :: "record_ \<Rightarrow> string" where
  "terminal_error rec = last_error (rev (rc_event_log rec))"

definition no_paths :: path_refs where
  "no_paths = \<lparr>pf_record = [], pf_log = [], pf_snapshot = [], pf_exported = [], pf_history = []\<rparr>"

text \<open>An error message is copied when there is one; without one the field is empty anyway.\<close>

definition build_result_summary :: "layout \<Rightarrow> record_ \<Rightarrow> result_summary" where
  "build_result_summary ly rec =
     \<lparr>sy_match = rc_match_id rec, sy_game = gm_game_id (rc_game rec),
      sy_version = gm_game_version (rc_game rec), sy_ruleset = gm_ruleset (rc_game rec),
      sy_status = rc_status rec, sy_turn = sn_turn (rc_snapshot rec),
      sy_placements = mr_placements (rc_result rec),
      sy_paths = \<lparr>pf_record = base (ly_record ly), pf_log = base (ly_log ly),
                  pf_snapshot = base (ly_snapshot ly), pf_exported = base (ly_exported ly),
                  pf_history = base (ly_history ly)\<rparr>,
      sy_error = terminal_error rec\<rparr>"

section \<open>The error of a run in its summary\<close>

lemma dec_enc_error_payload:
  "unmarshal dec_error_payload (RawJson (JObj [(''error'', JStr e)])) [] = Some e"
  by (simp add: dec_error_payload_def dec_defs upper_def)

lemma last_error_skip:
  "\<forall>ev \<in> set evs. ev_kind ev \<notin> {''match_failed'', ''match_canceled''} \<Longrightarrow> last_error evs = []"
  by (induction evs) auto

lemma finish_run_terminal:
  assumes "finish_run env meta r = (rec, r')" "ended (rn_status r)"
  shows "\<exists>evs ev. rc_event_log rec = evs @ [ev] \<and>
    (rc_status rec \<noteq> StatusCompleted \<longrightarrow> ev_payload ev = RawJson (JObj [(''error'', JStr (err_string
       (case rn_terminal_err r of Some x \<Rightarrow> Some x | None \<Rightarrow> fst (capture_final_state env r))))]))"
proof -
  obtain err r1 where c: "capture_final_state env r = (err, r1)" by fastforce
  note cap = capture_keeps [OF c]
  let ?te = "case rn_terminal_err r of Some x \<Rightarrow> Some x | None \<Rightarrow> err"
  define r2 where "r2 = (case err of
      Some e \<Rightarrow>
        if rn_terminal_err r1 = None then
          (let r' = r1\<lparr>rn_terminal_err := Some e\<rparr>
           in if rn_status r' = StatusCompleted
              then r'\<lparr>rn_phase := StatusFailed, rn_status := StatusFailed\<rparr> else r')
        else r1
    | None \<Rightarrow> r1)"
  have t2: "rn_terminal_err r2 = ?te" "ended (rn_status r2)"
    using cap assms(2) by (auto simp: r2_def Let_def ended_def split: option.split)
  define r3 where "r3 = shutdown_game_master env (shutdown_sessions env r2)"
  have "logs r2 r3" unfolding r3_def using shutdown_sessions_logs shutdown_game_master_logs logs_trans by blast
  then have t3: "rn_terminal_err r3 = ?te" "ended (rn_status r3)"
    using t2 by (simp_all add: logs_def same_outcome_def)
  have rec: "rec = build_record env meta (emit_terminal_event env r3)"
    using assms(1) unfolding finish_run_def c Let_def r3_def r2_def by auto
  then have fields: "rc_event_log rec = rn_events (emit_terminal_event env r3)"
    "rc_status rec = rn_status (emit_terminal_event env r3)"
    by (simp_all add: build_record_def Let_def)
  from t3(2) consider "rn_status r3 = StatusCompleted" | "rn_status r3 = StatusFailed" | "rn_status r3 = StatusCanceled"
    by (auto simp: ended_def)
  then show ?thesis unfolding fields c fst_conv
    by cases (use t3(1) in \<open>simp_all add: emit_terminal_event_def append_event_def must_marshal_payload_def Let_def\<close>)
qed

text \<open>
  The error that ends a run reaches its summary: when the runner returns an error, the
  result summary of its record carries that error's text, and the summary of a completed
  record carries none.
\<close>

theorem summary_reports_run_error:
  assumes run: "run env fuel (new_runner match_id players w) = Some (e, rec, r)"
  shows "(\<forall>x. e = Some x \<longrightarrow> sy_error (build_result_summary ly rec) = ge_text x) \<and>
    (rc_status rec = StatusCompleted \<longrightarrow> sy_error (build_result_summary ly rec) = []) \<and>
    sy_status (build_result_summary ly rec) = rc_status rec"
proof -
  let ?log = "rc_event_log rec"
  have wf: "?log \<noteq> []" "\<forall>x \<in> set (butlast ?log). ev_kind x \<notin> terminal_kinds"
    "ev_kind (last ?log) = terminal_kind (rc_status rec)" "ended (rc_status rec)"
    "e \<noteq> None \<longrightarrow> rc_status rec = StatusCanceled \<or> rc_status rec = StatusFailed"
    using run_log [OF run] by (simp_all add: Let_def)
  have rev: "rev ?log = last ?log # rev (butlast ?log)"
    using wf(1) by (metis append_butlast_last_id rev.simps(2) rev_rev_ident)
  have completed: "terminal_error rec = []" if "rc_status rec = StatusCompleted"
    using wf(2,3) that unfolding terminal_error_def rev by (simp add: last_error_skip terminal_kinds_def)
  have failed: "terminal_error rec = ge_text x" if "e = Some x" for x
  proof -
    let ?r0 = "new_runner match_id players w"
    have "\<exists>r1. finish_run env (gs_metadata (en_master env) (rn_world ?r0)) r1 = (rec, r) \<and>
        (rn_status r1 = StatusCanceled \<or> rn_status r1 = StatusFailed) \<and> rn_terminal_err r1 = Some x"
      by (rule run_cases [OF run]) (use that in auto)
    then obtain r1 where f: "finish_run env (gs_metadata (en_master env) (rn_world ?r0)) r1 = (rec, r)"
      and o: "rn_status r1 = StatusCanceled \<or> rn_status r1 = StatusFailed" "rn_terminal_err r1 = Some x"
      by blast
    have "ended (rn_status r1)" using o(1) by (auto simp: ended_def)
    from finish_run_terminal [OF f this] o(2) wf(5) that
    have "ev_payload (last ?log) = RawJson (JObj [(''error'', JStr (ge_text x))])"
      by (auto simp: err_string_def)
    moreover have "ev_kind (last ?log) \<in> {''match_failed'', ''match_canceled''}" using wf(3,5) that by auto
    ultimately show ?thesis unfolding terminal_error_def rev using dec_enc_error_payload by auto
  qed
  show ?thesis using completed failed by (simp add: build_result_summary_def)
qed

end
