(* ===== verification/Match_Examples.thy ===== *)
theory Match_Examples
  imports Janken_Matches Artifacts
begin

text \<open>A match whose game master cannot be initialised.\<close>

definition broken_players :: "(master \<times> nat) env" where
  "broken_players = rock_players\<lparr>en_master :=
     (in_process janken_game untold)\<lparr>gs_init := (\<lambda>w. (Inl (plain_error ''boom''), w))\<rparr>\<rparr>"

lemma broken_run:
  "\<exists>rec r. run broken_players 6 (new_runner ''m'' (cf_players sample_config) (sample_master, 0)) =
     Some (Some (plain_error ''boom''), rec, r)"
proof -
  let ?r0 = "new_runner ''m'' (cf_players sample_config) (sample_master, 0)"
  let ?meta = "gs_metadata (en_master broken_players) (rn_world ?r0)"
  obtain r1 where i: "initialize_sessions broken_players ?meta (match_started broken_players ?meta ?r0) =
      (Some (plain_error ''boom''), r1)"
    by (simp add: initialize_sessions_def ask_def broken_players_def)
  obtain r2 where c: "classify_terminal_error broken_players (plain_error ''boom'') r1 = (plain_error ''boom'', r2)"
    by (simp add: classify_terminal_error_def ask_def broken_players_def rock_players_def)
  obtain rec r where "finish_run broken_players ?meta r2 = (rec, r)" by fastforce
  then have "run broken_players 6 ?r0 = Some (Some (plain_error ''boom''), rec, r)"
    by (simp only: run_def Let_def i c option.case prod.case)
  then show ?thesis by blast
qed

theorem summary_reports_run_error_witness:
  "\<exists>rec r. run broken_players 6 (new_runner ''m'' (cf_players sample_config) (sample_master, 0)) =
     Some (Some (plain_error ''boom''), rec, r) \<and>
    sy_error (build_result_summary (new_layout ''out'' ''m'') rec) = ''boom''"
proof -
  obtain rec r where r: "run broken_players 6 (new_runner ''m'' (cf_players sample_config) (sample_master, 0)) =
     Some (Some (plain_error ''boom''), rec, r)" using broken_run by blast
  from summary_reports_run_error [OF r, of "new_layout ''out'' ''m''"] r show ?thesis
    by (auto simp: plain_error_def)
qed

end
