(* ===== verification/Lifecycle.thy ===== *)
theory Lifecycle
  imports Contract
begin

text \<open>
  The service's data of \<open>internal/platform/service/types.go\<close>: submissions, run kinds, the
  lifecycle of a queue record, and the two validations, of a submission before it is admitted
  and of a lifecycle transition.
\<close>

section \<open>Data\<close>

record submitted_player =
  sp_player :: string
  sp_bot :: string
  sp_bot_name :: string
  sp_ai_submission :: string
  sp_artifact_ref :: string
  sp_artifact :: string

datatype run_kind = RunKindInitial | RunKindRetry | RunKindRerun | OtherRunKind string

record match_submission =
  ms_run :: string
  ms_match :: string
  ms_game :: game_metadata
  ms_game_artifact :: string
  ms_players :: "submitted_player list"
  ms_output_dir :: string
  ms_attempt :: int
  ms_parent :: string
  ms_kind :: run_kind
  ms_official :: bool

datatype lifecycle_state =
  StateQueued | StateLeased | StateRunning | StatePersisting | StateCompleted | StateFailed
| StateCanceled | OtherState string

text \<open>Points in time and durations are nanoseconds; a nil pointer is \<open>None\<close>.\<close>

record worker_lease =
  wl_worker :: string
  wl_deadline :: int
  wl_heartbeat :: int

record terminal_artifacts =
  ta_match_dir :: string
  ta_record_path :: string
  ta_summary_path :: string
  ta_stderr_paths :: "string gomap"
  ta_status :: match_status
  ta_error :: string
  ta_replay_path :: string
  ta_replay_format :: string
  ta_replay_version :: string
  ta_replay_size :: int
  ta_replay_digest :: string

record queue_record =
  qr_submission :: match_submission
  qr_state :: lifecycle_state
  qr_completed_at :: "int option"
  qr_lease :: "worker_lease option"
  qr_terminal :: "terminal_artifacts option"

abbreviation qr_run :: "queue_record \<Rightarrow> string" where
  "qr_run r \<equiv> ms_run (qr_submission r)"

abbreviation qr_match :: "queue_record \<Rightarrow> string" where
  "qr_match r \<equiv> ms_match (qr_submission r)"

abbreviation qr_official :: "queue_record \<Rightarrow> bool" where
  "qr_official r \<equiv> ms_official (qr_submission r)"

section \<open>Validation of a submission\<close>

datatype submission_error =
  RunIDMissing | MatchIDMissing | GameIDMissing | GameVersionMissing | RulesetMissing
| NoPlayers | OutputDirMissing | AttemptNotPositive | InitialAttempt | InitialParent
| ParentMissing run_kind | RunKindMissing | PlayerIDMissing | ArtifactMissing string
| DuplicatePlayer string

definition check_player :: "submitted_player \<Rightarrow> string list \<Rightarrow> submission_error + string list" where
  "check_player p ids =
     (if blank (sp_player p) then Inl PlayerIDMissing
      else if blank (sp_artifact_ref p) \<and> blank (sp_artifact p) then Inl (ArtifactMissing (sp_player p))
      else if sp_player p \<in> set ids then Inl (DuplicatePlayer (sp_player p))
      else Inr (ids @ [sp_player p]))"

definition check_kind :: "match_submission \<Rightarrow> submission_error + unit" where
  "check_kind s =
     (case ms_kind s of
        RunKindInitial \<Rightarrow>
          bindR (failIf (ms_attempt s \<noteq> 1) InitialAttempt) (\<lambda>_.
          failIf (\<not> blank (ms_parent s)) InitialParent)
      | RunKindRetry \<Rightarrow> failIf (blank (ms_parent s)) (ParentMissing RunKindRetry)
      | RunKindRerun \<Rightarrow> failIf (blank (ms_parent s)) (ParentMissing RunKindRerun)
      | OtherRunKind k \<Rightarrow> Inl RunKindMissing)"

definition validate_submission :: "match_submission \<Rightarrow> submission_error option" where
  "validate_submission s =
     (case
        bindR (failIf (blank (ms_run s)) RunIDMissing) (\<lambda>_.
        bindR (failIf (blank (ms_match s)) MatchIDMissing) (\<lambda>_.
        bindR (failIf (blank (gm_game_id (ms_game s))) GameIDMissing) (\<lambda>_.
        bindR (failIf (blank (gm_game_version (ms_game s))) GameVersionMissing) (\<lambda>_.
        bindR (failIf (blank (gm_ruleset (ms_game s))) RulesetMissing) (\<lambda>_.
        bindR (failIf (ms_players s = []) NoPlayers) (\<lambda>_.
        bindR (failIf (blank (ms_output_dir s)) OutputDirMissing) (\<lambda>_.
        bindR (failIf (ms_attempt s \<le> 0) AttemptNotPositive) (\<lambda>_.
        bindR (check_kind s) (\<lambda>_.
        foldR check_player (ms_players s) []))))))))) of
        Inl e \<Rightarrow> Some e
      | Inr ids \<Rightarrow> None)"

lemma check_player_ok:
  "check_player p ids = Inr ids' \<longleftrightarrow>
     ids' = ids @ [sp_player p] \<and> sp_player p \<notin> set ids \<and> \<not> blank (sp_player p) \<and>
     (\<not> blank (sp_artifact_ref p) \<or> \<not> blank (sp_artifact p))"
  by (auto simp: check_player_def)

lemma check_players_ok:
  "foldR check_player ps ids = Inr ids' \<longleftrightarrow>
     ids' = ids @ map sp_player ps \<and> distinct (map sp_player ps) \<and> set ids \<inter> sp_player ` set ps = {} \<and>
     (\<forall>p \<in> set ps. \<not> blank (sp_player p) \<and> (\<not> blank (sp_artifact_ref p) \<or> \<not> blank (sp_artifact p)))"
proof (induction ps arbitrary: ids)
  case (Cons p ps)
  have "foldR check_player (p # ps) ids = Inr ids' \<longleftrightarrow>
      (\<exists>mid. check_player p ids = Inr mid \<and> foldR check_player ps mid = Inr ids')"
    by (simp add: bindR_eq_Inr)
  then show ?case unfolding check_player_ok Cons.IH by auto
qed auto

lemma validate_submission_iff:
  "validate_submission s = None \<longleftrightarrow>
     \<not> blank (ms_run s) \<and> \<not> blank (ms_match s) \<and> \<not> blank (ms_output_dir s) \<and>
     \<not> blank (gm_game_id (ms_game s)) \<and> \<not> blank (gm_game_version (ms_game s)) \<and>
     \<not> blank (gm_ruleset (ms_game s)) \<and>
     ms_players s \<noteq> [] \<and> distinct (map sp_player (ms_players s)) \<and>
     (\<forall>p \<in> set (ms_players s). \<not> blank (sp_player p) \<and>
        (\<not> blank (sp_artifact_ref p) \<or> \<not> blank (sp_artifact p))) \<and>
     (ms_kind s = RunKindInitial \<and> ms_attempt s = 1 \<and> blank (ms_parent s) \<or>
      ms_kind s \<in> {RunKindRetry, RunKindRerun} \<and> 0 < ms_attempt s \<and> \<not> blank (ms_parent s))"
proof -
  have "validate_submission s = None \<longleftrightarrow> (\<exists>ids.
      \<not> blank (ms_run s) \<and> \<not> blank (ms_match s) \<and> \<not> blank (gm_game_id (ms_game s)) \<and>
      \<not> blank (gm_game_version (ms_game s)) \<and> \<not> blank (gm_ruleset (ms_game s)) \<and>
      ms_players s \<noteq> [] \<and> \<not> blank (ms_output_dir s) \<and> \<not> ms_attempt s \<le> 0 \<and>
      check_kind s = Inr () \<and> foldR check_player (ms_players s) [] = Inr ids)"
    unfolding validate_submission_def by (simp split: sum.split add: bindR_eq_Inl bindR_eq_Inr) (auto simp: bindR_def split: sum.splits)
  moreover have "check_kind s = Inr () \<longleftrightarrow>
      ms_kind s = RunKindInitial \<and> ms_attempt s = 1 \<and> blank (ms_parent s) \<or>
      ms_kind s \<in> {RunKindRetry, RunKindRerun} \<and> \<not> blank (ms_parent s)"
    by (auto simp: check_kind_def bindR_eq_Inr split: run_kind.split)
  ultimately show ?thesis by (auto simp: check_players_ok)
qed

text \<open>
  A submission passes validation exactly when it has a run id, a match id, a complete game
  selection, an output directory and players with pairwise distinct ids of which each names
  an artifact, and when its attempt and parent fit its kind: an initial run is attempt 1
  without a parent, a retry or a rerun has a positive attempt and a parent.
\<close>

theorem validate_submission_ok:
  "validate_submission s = None \<longleftrightarrow>
     \<not> blank (ms_run s) \<and> \<not> blank (ms_match s) \<and> \<not> blank (ms_output_dir s) \<and>
     \<not> blank (gm_game_id (ms_game s)) \<and> \<not> blank (gm_game_version (ms_game s)) \<and>
     \<not> blank (gm_ruleset (ms_game s)) \<and>
     ms_players s \<noteq> [] \<and> distinct (map sp_player (ms_players s)) \<and>
     (\<forall>p \<in> set (ms_players s). \<not> blank (sp_player p) \<and>
        (\<not> blank (sp_artifact_ref p) \<or> \<not> blank (sp_artifact p))) \<and>
     (ms_kind s = RunKindInitial \<and> ms_attempt s = 1 \<and> blank (ms_parent s) \<or>
      ms_kind s \<in> {RunKindRetry, RunKindRerun} \<and> 0 < ms_attempt s \<and> \<not> blank (ms_parent s))"
  by (rule validate_submission_iff)

definition sample_submission :: match_submission where
  "sample_submission = \<lparr>ms_run = ''run-1'', ms_match = ''match-1'',
     ms_game = \<lparr>gm_game_id = ''janken'', gm_game_version = ''2.1.0'', gm_ruleset = ''regular''\<rparr>,
     ms_game_artifact = [],
     ms_players = [\<lparr>sp_player = ''p1'', sp_bot = ''b1'', sp_bot_name = [], sp_ai_submission = [],
                     sp_artifact_ref = ''rock'', sp_artifact = []\<rparr>,
                   \<lparr>sp_player = ''p2'', sp_bot = ''b2'', sp_bot_name = [], sp_ai_submission = [],
                     sp_artifact_ref = [], sp_artifact = ''sha''\<rparr>],
     ms_output_dir = ''out'', ms_attempt = 1, ms_parent = [], ms_kind = RunKindInitial,
     ms_official = False\<rparr>"

lemma sample_not_blank:
  "\<not> blank ''run-1''" "\<not> blank ''match-1''" "\<not> blank ''janken''" "\<not> blank ''2.1.0''" "\<not> blank ''regular''"
  "\<not> blank ''p1''" "\<not> blank ''p2''" "\<not> blank ''rock''" "\<not> blank ''sha''" "\<not> blank ''out''"
  by code_simp+

theorem validate_submission_ok_witness:
  "validate_submission sample_submission = None \<and>
   validate_submission (sample_submission\<lparr>ms_attempt := 2\<rparr>) \<noteq> None"
  unfolding validate_submission_ok by (simp add: sample_submission_def sample_not_blank)

section \<open>Lifecycle transitions\<close>

datatype transition_error =
  TerminalState lifecycle_state lifecycle_state
| UnknownState lifecycle_state
| InvalidTransition lifecycle_state lifecycle_state

definition validate_transition :: "lifecycle_state \<Rightarrow> lifecycle_state \<Rightarrow> transition_error option" where
  "validate_transition src dst =
     (if src = dst then None
      else case src of
        StateQueued \<Rightarrow>
          if dst = StateLeased \<or> dst = StateCanceled then None else Some (InvalidTransition src dst)
      | StateLeased \<Rightarrow>
          if dst = StateRunning \<or> dst = StateFailed then None else Some (InvalidTransition src dst)
      | StateRunning \<Rightarrow>
          if dst = StatePersisting \<or> dst = StateFailed then None else Some (InvalidTransition src dst)
      | StatePersisting \<Rightarrow>
          if dst = StateCompleted \<or> dst = StateFailed then None else Some (InvalidTransition src dst)
      | StateCompleted \<Rightarrow> Some (TerminalState src dst)
      | StateFailed \<Rightarrow> Some (TerminalState src dst)
      | StateCanceled \<Rightarrow> Some (TerminalState src dst)
      | OtherState x \<Rightarrow> Some (UnknownState src))"

definition in_flight :: "lifecycle_state \<Rightarrow> bool" where
  "in_flight st \<longleftrightarrow> st \<in> {StateLeased, StateRunning, StatePersisting}"

definition terminal_state :: "lifecycle_state \<Rightarrow> bool" where
  "terminal_state st \<longleftrightarrow> st \<in> {StateCompleted, StateFailed, StateCanceled}"

text \<open>The edges of the lifecycle.\<close>

inductive edge :: "lifecycle_state \<Rightarrow> lifecycle_state \<Rightarrow> bool" where
  "edge StateQueued StateLeased"
| "edge StateQueued StateCanceled"
| "edge StateLeased StateRunning"
| "edge StateRunning StatePersisting"
| "edge StatePersisting StateCompleted"
| "in_flight src \<Longrightarrow> edge src StateFailed"

lemma validate_transition_edge: "validate_transition src dst = None \<longleftrightarrow> src = dst \<or> edge src dst"
  by (cases src; cases dst) (auto simp: validate_transition_def edge.simps in_flight_def)

lemma edge_from_terminal: "terminal_state src \<Longrightarrow> \<not> edge src dst"
  by (auto simp: terminal_state_def edge.simps in_flight_def)

end
