(* ===== verification/Ranking.thy ===== *)
theory Ranking
  imports Artifacts Lifecycle Ordering
begin

text \<open>
  The ranking snapshots of \<open>internal/platform/service/ranking.go\<close>: updates built from official
  completed runs, their application to a snapshot, normalisation and comparison. A nil slice or
  map and an empty one are both the empty list; the code distinguishes them nowhere.
\<close>

section \<open>Data\<close>

definition ranking_snapshot_version :: int where
  "ranking_snapshot_version = 2"

record ranking_scope =
  ks_game :: string
  ks_version :: string
  ks_ruleset :: string

record ranking_entry =
  ke_bot :: string
  ke_name :: string
  ke_player :: string
  ke_played :: int
  ke_first :: int
  ke_counts :: "(int \<times> int) list"
  ke_run :: string
  ke_match :: string
  ke_status :: match_status

record ranking_snapshot =
  kn_version :: int
  kn_scope :: ranking_scope
  kn_runs :: "string list"
  kn_matches :: "string list"
  kn_last_run :: string
  kn_last_match :: string
  kn_completed :: int
  kn_entries :: "ranking_entry list"

record ranking_placement =
  kp_bot :: string
  kp_name :: string
  kp_player :: string
  kp_place :: int

record ranking_update =
  ku_scope :: ranking_scope
  ku_run :: string
  ku_match :: string
  ku_status :: match_status
  ku_placements :: "ranking_placement list"

datatype ranking_error =
  ScopeGameMissing | ScopeVersionMissing | ScopeRulesetMissing
| SummaryNotCompleted | UpdateRunMissing | UpdateMatchMissing | PlacementsMissing
| PlaceNotPositive string | UnknownPlacementPlayer string | DuplicatePlacement string
| PlacementBotMissing string | ScopeMismatch
| SnapshotNotFound | MigrationRequired int | SnapshotUndecodable
| TerminalMissing | SummaryMissing | SummaryUndecodable string | SummaryUnreadable string string
| QueueMissing | QueueFailed

definition zero_ranking_entry :: ranking_entry where
  "zero_ranking_entry = \<lparr>ke_bot = [], ke_name = [], ke_player = [], ke_played = 0, ke_first = 0,
     ke_counts = [], ke_run = [], ke_match = [], ke_status = OtherStatus []\<rparr>"

section \<open>Normalisation\<close>

definition normalize_ranking_scope :: "ranking_scope \<Rightarrow> ranking_scope" where
  "normalize_ranking_scope sc =
     \<lparr>ks_game = trim_space (ks_game sc), ks_version = trim_space (ks_version sc),
      ks_ruleset = trim_space (ks_ruleset sc)\<rparr>"

definition validate_ranking_scope :: "ranking_scope \<Rightarrow> ranking_error option" where
  "validate_ranking_scope sc =
     (if ks_game sc = [] then Some ScopeGameMissing
      else if ks_version sc = [] then Some ScopeVersionMissing
      else if ks_ruleset sc = [] then Some ScopeRulesetMissing
      else None)"

definition normalize_ranking_entry :: "ranking_entry \<Rightarrow> ranking_entry" where
  "normalize_ranking_entry e =
     e\<lparr>ke_bot := trim_space (ke_bot e), ke_name := trim_space (ke_name e),
       ke_player := trim_space (ke_player e), ke_run := trim_space (ke_run e),
       ke_match := trim_space (ke_match e)\<rparr>"

definition entry_before :: "ranking_entry \<Rightarrow> ranking_entry \<Rightarrow> bool" where
  "entry_before a b = (ke_bot a < ke_bot b)"

definition normalize_ranking_snapshot :: "ranking_snapshot \<Rightarrow> ranking_snapshot" where
  "normalize_ranking_snapshot s =
     s\<lparr>kn_scope := normalize_ranking_scope (kn_scope s),
       kn_version := (if kn_version s = 0 then ranking_snapshot_version else kn_version s),
       kn_completed := int (length (kn_matches s)),
       kn_entries := sort_slice entry_before (map normalize_ranking_entry (kn_entries s))\<rparr>"

definition new_ranking_snapshot :: "ranking_scope \<Rightarrow> ranking_snapshot" where
  "new_ranking_snapshot sc =
     \<lparr>kn_version = ranking_snapshot_version, kn_scope = normalize_ranking_scope sc, kn_runs = [],
      kn_matches = [], kn_last_run = [], kn_last_match = [], kn_completed = 0, kn_entries = []\<rparr>"

definition scope_from_summary :: "result_summary \<Rightarrow> ranking_scope" where
  "scope_from_summary sy = normalize_ranking_scope
     \<lparr>ks_game = sy_game sy, ks_version = sy_version sy, ks_ruleset = sy_ruleset sy\<rparr>"

section \<open>Updates\<close>

definition has_bot_ranking_identity :: "match_submission \<Rightarrow> bool" where
  "has_bot_ranking_identity s =
     (list_all (\<lambda>p. \<not> blank (sp_bot p)) (ms_players s) \<and> ms_players s \<noteq> [])"

definition player_by_id :: "match_submission \<Rightarrow> submitted_player gomap" where
  "player_by_id s = put_all sp_player (\<lambda>p. p) (ms_players s) []"

definition check_placement :: "submitted_player gomap \<Rightarrow> placement \<Rightarrow>
    string list \<times> ranking_placement list \<Rightarrow> ranking_error + (string list \<times> ranking_placement list)" where
  "check_placement players pc = (\<lambda>(seen, placements).
     if pc_place pc \<le> 0 then Inl (PlaceNotPositive (pc_player pc))
     else case map_of players (pc_player pc) of
       None \<Rightarrow> Inl (UnknownPlacementPlayer (pc_player pc))
     | Some p \<Rightarrow>
         if pc_player pc \<in> set seen then Inl (DuplicatePlacement (pc_player pc))
         else if blank (sp_bot p) then Inl (PlacementBotMissing (pc_player pc))
         else Inr (pc_player pc # seen,
                   placements @ [\<lparr>kp_bot = sp_bot p, kp_name = sp_bot_name p,
                                  kp_player = pc_player pc, kp_place = pc_place pc\<rparr>]))"

definition build_ranking_update :: "match_submission \<Rightarrow> result_summary \<Rightarrow> ranking_error + ranking_update" where
  "build_ranking_update sub sy =
     (let scope = scope_from_summary sy in
      case validate_ranking_scope scope of
        Some e \<Rightarrow> Inl e
      | None \<Rightarrow>
          if sy_status sy \<noteq> StatusCompleted then Inl SummaryNotCompleted
          else if blank (ms_run sub) then Inl UpdateRunMissing
          else if blank (sy_match sy) then Inl UpdateMatchMissing
          else if sy_placements sy = [] then Inl PlacementsMissing
          else
            bindR (foldR (check_placement (player_by_id sub)) (sy_placements sy) ([], [])) (\<lambda>(seen, placements).
              Inr \<lparr>ku_scope = scope, ku_run = ms_run sub, ku_match = sy_match sy,
                   ku_status = sy_status sy, ku_placements = placements\<rparr>))"

definition bump :: "int \<Rightarrow> (int \<times> int) list \<Rightarrow> (int \<times> int) list" where
  "bump place counts =
     AList.update place ((case map_of counts place of None \<Rightarrow> 0 | Some n \<Rightarrow> n) + 1) counts"

definition apply_placement :: "ranking_update \<Rightarrow> ranking_placement \<Rightarrow> ranking_entry gomap \<Rightarrow> ranking_entry gomap" where
  "apply_placement u p entries =
     (let e = normalize_ranking_entry (getd zero_ranking_entry entries (kp_bot p));
          e1 = e\<lparr>ke_bot := kp_bot p,
                 ke_name := (if \<not> blank (kp_name p) then kp_name p else ke_name e),
                 ke_player := kp_player p,
                 ke_played := ke_played e + 1,
                 ke_counts := bump (kp_place p) (ke_counts e),
                 ke_first := (if kp_place p = 1 then ke_first e + 1 else ke_first e),
                 ke_run := ku_run u, ke_match := ku_match u, ke_status := ku_status u\<rparr>
      in put (kp_bot p) e1 entries)"

text \<open>
  The entries pass through a map: those of the snapshot are keyed by bot, the placements are
  applied, and the values are listed again in the order of their bots.
\<close>

definition apply_ranking_update :: "ranking_snapshot \<Rightarrow> ranking_update \<Rightarrow> ranking_error + ranking_snapshot" where
  "apply_ranking_update snapshot u =
     (let s = normalize_ranking_snapshot snapshot in
      if kn_scope s \<noteq> normalize_ranking_scope (ku_scope u) then Inl ScopeMismatch
      else if ku_run u \<in> set (kn_runs s) \<or> ku_match u \<in> set (kn_matches s) then Inr s
      else
        let entries = put_all ke_bot (\<lambda>e. e) (map normalize_ranking_entry (kn_entries s)) [];
            entries1 = fold (apply_placement u) (ku_placements u) entries;
            matches = kn_matches s @ [ku_match u]
        in Inr (s\<lparr>kn_runs := kn_runs s @ [ku_run u], kn_matches := matches,
                  kn_last_run := ku_run u, kn_last_match := ku_match u,
                  kn_completed := int (length matches),
                  kn_entries := sort_slice entry_before
                    (map (\<lambda>(b, e). normalize_ranking_entry e) entries1)\<rparr>))"

section \<open>Comparison\<close>

definition equal_placement_counts :: "(int \<times> int) list \<Rightarrow> (int \<times> int) list \<Rightarrow> bool" where
  "equal_placement_counts l r =
     (length l = length r \<and>
      list_all (\<lambda>(k, v). (case map_of r k of None \<Rightarrow> 0 | Some x \<Rightarrow> x) = v) l)"

definition ranking_entries_equal :: "ranking_entry \<Rightarrow> ranking_entry \<Rightarrow> bool" where
  "ranking_entries_equal left right =
     (let l = normalize_ranking_entry left; r = normalize_ranking_entry right
      in ke_bot l = ke_bot r \<and> ke_name l = ke_name r \<and> ke_player l = ke_player r \<and>
         ke_played l = ke_played r \<and> ke_first l = ke_first r \<and> ke_run l = ke_run r \<and>
         ke_match l = ke_match r \<and> ke_status l = ke_status r \<and>
         equal_placement_counts (ke_counts l) (ke_counts r))"

definition ranking_snapshots_equal :: "ranking_snapshot \<Rightarrow> ranking_snapshot \<Rightarrow> bool" where
  "ranking_snapshots_equal left right =
     (let l = normalize_ranking_snapshot left; r = normalize_ranking_snapshot right
      in kn_runs l = kn_runs r \<and> kn_matches l = kn_matches r \<and> kn_scope l = kn_scope r \<and>
         kn_last_run l = kn_last_run r \<and> kn_last_match l = kn_last_match r \<and>
         kn_completed l = kn_completed r \<and>
         list_all2 ranking_entries_equal (kn_entries l) (kn_entries r))"

section \<open>Summaries\<close>

definition summary_from_record :: "record_ \<Rightarrow> result_summary" where
  "summary_from_record rec =
     \<lparr>sy_match = rc_match_id rec, sy_game = gm_game_id (rc_game rec),
      sy_version = gm_game_version (rc_game rec), sy_ruleset = gm_ruleset (rc_game rec),
      sy_status = rc_status rec, sy_turn = sn_turn (rc_snapshot rec),
      sy_placements = mr_placements (rc_result rec), sy_paths = no_paths,
      sy_error = terminal_error rec\<rparr>"

end
