(* ===== verification/Ranking_Props.thy ===== *)
theory Ranking_Props
  imports Ranking
begin

text \<open>
  A ranking snapshot is a tally: the invariant of the snapshots that updates build, what one
  update adds to the counts of each bot, and what a whole list of updates amounts to.
\<close>

section \<open>Normal forms\<close>

lemma normalize_ranking_scope_idem [simp]:
  "normalize_ranking_scope (normalize_ranking_scope sc) = normalize_ranking_scope sc"
  by (simp add: normalize_ranking_scope_def)

lemma normalize_ranking_entry_idem [simp]:
  "normalize_ranking_entry (normalize_ranking_entry e) = normalize_ranking_entry e"
  by (simp add: normalize_ranking_entry_def)

lemma normalize_ranking_entry_sel [simp]:
  "ke_bot (normalize_ranking_entry e) = trim_space (ke_bot e)"
  "ke_played (normalize_ranking_entry e) = ke_played e" "ke_first (normalize_ranking_entry e) = ke_first e"
  "ke_counts (normalize_ranking_entry e) = ke_counts e"
  by (simp_all add: normalize_ranking_entry_def)

interpretation by_bot_order: weak_order entry_before
  by unfold_locales (auto simp: entry_before_def)

definition by_bot :: "ranking_entry list \<Rightarrow> string \<Rightarrow> ranking_entry option" where
  "by_bot es = map_of (map (\<lambda>e. (ke_bot e, e)) es)"

lemma by_bot_mset:
  assumes "distinct (map ke_bot es)" "mset es' = mset es"
  shows "by_bot es' = by_bot es"
proof -
  have "distinct (map fst (map (\<lambda>e. (ke_bot e, e)) es))" using assms(1) by (simp add: comp_def)
  moreover have "mset (map (\<lambda>e. (ke_bot e, e)) es') = mset (map (\<lambda>e. (ke_bot e, e)) es)" using assms(2) by simp
  ultimately show ?thesis unfolding by_bot_def
    by (metis (no_types, lifting) map_of_inject_set mset_eq_setD mset_eq_imp_distinct_iff mset_map)
qed

lemma sorted_entries: "sorted (map ke_bot es) = sorted_by entry_before es"
  by (simp add: sorted_by_def entry_before_def sorted_wrt_map not_less)

lemma sort_entries_sorted:
  assumes "distinct (map ke_bot es)" "sorted (map ke_bot es)"
  shows "sort_slice entry_before es = es"
proof (rule by_bot_order.sort_slice_unique [symmetric])
  show "sorted_by entry_before es" using assms(2) by (simp add: sorted_entries)
  show "entry_before a b \<or> entry_before b a" if "a \<in> set es" "b \<in> set es" "a \<noteq> b" for a b
  proof -
    have "ke_bot a \<noteq> ke_bot b" using assms(1) that by (auto simp: distinct_map inj_on_def)
    then show ?thesis by (auto simp: entry_before_def neq_iff)
  qed
qed simp

section \<open>Counts of an entry\<close>

definition count_of :: "ranking_entry \<Rightarrow> int \<Rightarrow> int" where
  "count_of e place = (case map_of (ke_counts e) place of None \<Rightarrow> 0 | Some n \<Rightarrow> n)"

definition tallied :: "ranking_entry \<Rightarrow> bool" where
  "tallied e \<longleftrightarrow> distinct (map fst (ke_counts e)) \<and> (\<forall>(k, n) \<in> set (ke_counts e). 0 < k \<and> 0 < n) \<and>
     ke_played e = sum_list (map snd (ke_counts e)) \<and> ke_first e = count_of e 1"

lemma tallied_normalize [simp]: "tallied (normalize_ranking_entry e) = tallied e"
  by (simp add: tallied_def count_of_def)

lemma sum_list_update:
  "sum_list (map snd (AList.update k (v :: int) xs)) =
     sum_list (map snd xs) + v - (case map_of xs k of None \<Rightarrow> 0 | Some w \<Rightarrow> w)"
  by (induction xs) (auto split: option.split)

lemma bump_sum: "sum_list (map snd (bump k c)) = sum_list (map snd c) + 1"
  by (simp add: bump_def sum_list_update split: option.split)

lemma bump_count:
  "(case map_of (bump k c) j of None \<Rightarrow> 0 | Some n \<Rightarrow> n) =
     (case map_of c j of None \<Rightarrow> 0 | Some n \<Rightarrow> n) + (if j = k then 1 else (0 :: int))"
  by (simp add: bump_def update_conv' split: option.split)

lemma bump_positive:
  assumes "distinct (map fst c)" "\<forall>(k, n) \<in> set c. 0 < k \<and> 0 < n" "0 < place"
  shows "distinct (map fst (bump place c))" "\<forall>(k, n) \<in> set (bump place c). 0 < k \<and> 0 < n"
proof -
  show d: "distinct (map fst (bump place c))" using assms(1) by (simp add: bump_def distinct_update)
  have pos: "0 < k \<and> 0 < n" if "map_of c k = Some n" for k n using assms(2) that by (force dest: map_of_SomeD)
  show "\<forall>(k, n) \<in> set (bump place c). 0 < k \<and> 0 < n"
  proof safe
    fix k n assume "(k, n) \<in> set (bump place c)"
    then have "map_of (bump place c) k = Some n" using d by simp
    then have "k = place \<and> n = (case map_of c place of None \<Rightarrow> 0 | Some n \<Rightarrow> n) + 1 \<or> map_of c k = Some n"
      by (auto simp: bump_def update_conv' split: if_splits)
    moreover have "0 \<le> (case map_of c place of None \<Rightarrow> 0 | Some n \<Rightarrow> n)"
      using pos by (auto split: option.split dest: pos)
    ultimately have "0 < k \<and> 0 < n" using pos assms(3) by auto
    then show "0 < k" "0 < n" by simp_all
  qed
qed

lemma apply_placement_entry:
  assumes "tallied e" "0 < kp_place p"
    and e1: "e1 = e\<lparr>ke_bot := b, ke_name := n, ke_player := q, ke_played := ke_played e + 1,
      ke_counts := bump (kp_place p) (ke_counts e),
      ke_first := (if kp_place p = 1 then ke_first e + 1 else ke_first e),
      ke_run := r, ke_match := m, ke_status := st\<rparr>"
  shows "tallied e1 \<and> ke_played e1 = ke_played e + 1 \<and>
    count_of e1 k = count_of e k + (if kp_place p = k then 1 else 0)"
proof -
  have c: "count_of e1 j = count_of e j + (if kp_place p = j then 1 else 0)" for j
    using bump_count [of "kp_place p" "ke_counts e" j] by (auto simp: e1 count_of_def)
  moreover have "tallied e1"
    using assms(1,2) bump_positive [of "ke_counts e" "kp_place p"] bump_sum [of "kp_place p" "ke_counts e"] c [of 1]
    by (simp add: tallied_def e1)
  ultimately show ?thesis by (simp add: e1)
qed

lemma zero_entry_tallied: "tallied zero_ranking_entry" "count_of zero_ranking_entry k = 0"
  by (simp_all add: tallied_def count_of_def zero_ranking_entry_def)

section \<open>The map of entries\<close>

definition entry_map_ok :: "ranking_entry gomap \<Rightarrow> bool" where
  "entry_map_ok m \<longleftrightarrow> distinct (map fst m) \<and>
     (\<forall>b e. map_of m b = Some e \<longrightarrow> ke_bot e = b \<and> trim_space b = b \<and> tallied e)"

definition played_in :: "(string \<Rightarrow> ranking_entry option) \<Rightarrow> string \<Rightarrow> int" where
  "played_in es b = (case es b of None \<Rightarrow> 0 | Some e \<Rightarrow> ke_played e)"

definition placed_in :: "(string \<Rightarrow> ranking_entry option) \<Rightarrow> string \<Rightarrow> int \<Rightarrow> int" where
  "placed_in es b k = (case es b of None \<Rightarrow> 0 | Some e \<Rightarrow> count_of e k)"

definition placement_ok :: "ranking_placement \<Rightarrow> bool" where
  "placement_ok p \<longleftrightarrow> trim_space (kp_bot p) = kp_bot p \<and> 0 < kp_place p"

lemma apply_placement_map:
  assumes "entry_map_ok m" "placement_ok p"
  shows "entry_map_ok (apply_placement u p m)"
    "played_in (map_of (apply_placement u p m)) b = played_in (map_of m) b + (if kp_bot p = b then 1 else 0)"
    "placed_in (map_of (apply_placement u p m)) b k =
       placed_in (map_of m) b k + (if kp_bot p = b \<and> kp_place p = k then 1 else 0)"
    "b \<noteq> kp_bot p \<Longrightarrow> map_of (apply_placement u p m) b = map_of m b"
    "map_of (apply_placement u p m) (kp_bot p) \<noteq> None"
proof -
  let ?e = "normalize_ranking_entry (getd zero_ranking_entry m (kp_bot p))"
  obtain e1 where a: "apply_placement u p m = put (kp_bot p) e1 m"
    and e1: "e1 = ?e\<lparr>ke_bot := kp_bot p,
                 ke_name := (if \<not> blank (kp_name p) then kp_name p else ke_name ?e),
                 ke_player := kp_player p, ke_played := ke_played ?e + 1,
                 ke_counts := bump (kp_place p) (ke_counts ?e),
                 ke_first := (if kp_place p = 1 then ke_first ?e + 1 else ke_first ?e),
                 ke_run := ku_run u, ke_match := ku_match u, ke_status := ku_status u\<rparr>"
    by (simp add: apply_placement_def Let_def)
  have t: "tallied ?e"
    using assms(1) zero_entry_tallied by (auto simp: entry_map_ok_def getd_def split: option.split)
  note step = apply_placement_entry [OF t _ e1, of k]
  have pl: "0 < kp_place p" "trim_space (kp_bot p) = kp_bot p" using assms(2) by (simp_all add: placement_ok_def)
  have old: "ke_played ?e = played_in (map_of m) (kp_bot p)" "count_of ?e k = placed_in (map_of m) (kp_bot p) k"
    by (simp_all add: played_in_def placed_in_def getd_def count_of_def zero_ranking_entry_def split: option.split)
  show "entry_map_ok (apply_placement u p m)"
    using assms(1) step pl e1 unfolding a entry_map_ok_def by (auto split: if_splits)
  show "played_in (map_of (apply_placement u p m)) b = played_in (map_of m) b + (if kp_bot p = b then 1 else 0)"
    using step pl(1) old(1) by (auto simp: a played_in_def)
  show "placed_in (map_of (apply_placement u p m)) b k =
       placed_in (map_of m) b k + (if kp_bot p = b \<and> kp_place p = k then 1 else 0)"
    using step pl(1) old(2) by (auto simp: a placed_in_def)
qed (simp_all add: apply_placement_def Let_def)

definition plays_of :: "ranking_placement list \<Rightarrow> string \<Rightarrow> int" where
  "plays_of ps b = int (length (filter (\<lambda>p. kp_bot p = b) ps))"

definition places_of :: "ranking_placement list \<Rightarrow> string \<Rightarrow> int \<Rightarrow> int" where
  "places_of ps b k = int (length (filter (\<lambda>p. kp_bot p = b \<and> kp_place p = k) ps))"

lemma plays_of_simps [simp]:
  "plays_of [] b = 0" "plays_of (p # ps) b = (if kp_bot p = b then 1 else 0) + plays_of ps b"
  "plays_of (ps @ qs) b = plays_of ps b + plays_of qs b"
  by (simp_all add: plays_of_def)

lemma places_of_simps [simp]:
  "places_of [] b k = 0"
  "places_of (p # ps) b k = (if kp_bot p = b \<and> kp_place p = k then 1 else 0) + places_of ps b k"
  "places_of (ps @ qs) b k = places_of ps b k + places_of qs b k"
  by (simp_all add: places_of_def)

lemma apply_placements_map:
  assumes "entry_map_ok m" "\<forall>p \<in> set ps. placement_ok p"
  shows "entry_map_ok (fold (apply_placement u) ps m) \<and>
    played_in (map_of (fold (apply_placement u) ps m)) b = played_in (map_of m) b + plays_of ps b \<and>
    placed_in (map_of (fold (apply_placement u) ps m)) b k = placed_in (map_of m) b k + places_of ps b k \<and>
    (b \<notin> kp_bot ` set ps \<longrightarrow> map_of (fold (apply_placement u) ps m) b = map_of m b) \<and>
    (map_of (fold (apply_placement u) ps m) b \<noteq> None \<longleftrightarrow> map_of m b \<noteq> None \<or> b \<in> kp_bot ` set ps)"
  using assms
proof (induction ps arbitrary: m)
  case (Cons p ps)
  have p: "placement_ok p" and rest: "\<forall>q \<in> set ps. placement_ok q" using Cons.prems(2) by simp_all
  note one = apply_placement_map [where u = u, OF Cons.prems(1) p]
  have known: "map_of (apply_placement u p m) b \<noteq> None \<longleftrightarrow> map_of m b \<noteq> None \<or> b = kp_bot p"
    using one(4,5) by metis
  show ?case using Cons.IH [OF one(1) rest] one(2,3) [of b] one(4) [of b] known
    by (auto simp: algebra_simps)
qed simp

section \<open>Snapshots\<close>

definition ranking_ok :: "ranking_snapshot \<Rightarrow> bool" where
  "ranking_ok s \<longleftrightarrow> normalize_ranking_scope (kn_scope s) = kn_scope s \<and> kn_version s \<noteq> 0 \<and>
     distinct (kn_runs s) \<and> distinct (kn_matches s) \<and> length (kn_runs s) = length (kn_matches s) \<and>
     kn_completed s = int (length (kn_matches s)) \<and>
     distinct (map ke_bot (kn_entries s)) \<and> sorted (map ke_bot (kn_entries s)) \<and>
     (\<forall>e \<in> set (kn_entries s). normalize_ranking_entry e = e \<and> tallied e)"

abbreviation played :: "ranking_snapshot \<Rightarrow> string \<Rightarrow> int" where
  "played s \<equiv> played_in (by_bot (kn_entries s))"

abbreviation placed :: "ranking_snapshot \<Rightarrow> string \<Rightarrow> int \<Rightarrow> int" where
  "placed s \<equiv> placed_in (by_bot (kn_entries s))"

lemma ranking_ok_new: "ranking_ok (new_ranking_snapshot sc)"
  by (simp add: ranking_ok_def new_ranking_snapshot_def ranking_snapshot_version_def)

lemma normalize_ok:
  assumes "ranking_ok s"
  shows "normalize_ranking_snapshot s = s"
proof -
  have "map normalize_ranking_entry (kn_entries s) = kn_entries s"
    using assms by (simp add: ranking_ok_def map_idI)
  moreover have "sort_slice entry_before (kn_entries s) = kn_entries s"
    using assms by (intro sort_entries_sorted) (simp_all add: ranking_ok_def)
  ultimately show ?thesis using assms by (simp add: normalize_ranking_snapshot_def ranking_ok_def)
qed

lemma entries_map:
  assumes "ranking_ok s"
  shows "entry_map_ok (put_all ke_bot (\<lambda>e. e) (map normalize_ranking_entry (kn_entries s)) []) \<and>
    map_of (put_all ke_bot (\<lambda>e. e) (map normalize_ranking_entry (kn_entries s)) []) = by_bot (kn_entries s)"
proof -
  let ?es = "kn_entries s"
  have same: "map normalize_ranking_entry ?es = ?es" using assms by (simp add: ranking_ok_def map_idI)
  have d: "distinct (map ke_bot ?es)" using assms by (simp add: ranking_ok_def)
  have "put_all ke_bot (\<lambda>e. e) ?es [] = put_all fst snd (map (\<lambda>e. (ke_bot e, e)) ?es) []"
    by (simp add: put_all_def fold_map comp_def)
  then have m: "map_of (put_all ke_bot (\<lambda>e. e) ?es []) = by_bot ?es"
    using map_of_put_all_pairs [of "map (\<lambda>e. (ke_bot e, e)) ?es" "[]"] d
    by (auto simp: by_bot_def comp_def fun_eq_iff split: option.split)
  have "ke_bot e = b \<and> trim_space b = b \<and> tallied e" if "by_bot ?es b = Some e" for b e
  proof -
    have "e \<in> set ?es" "ke_bot e = b" using that by (auto simp: by_bot_def dest!: map_of_SomeD)
    then show ?thesis using assms by (metis ranking_ok_def normalize_ranking_entry_sel(1))
  qed
  then show ?thesis unfolding same entry_map_ok_def m by simp
qed

lemma counts_normalized:
  "played_in (\<lambda>b. map_option normalize_ranking_entry (f b)) = played_in f"
  "placed_in (\<lambda>b. map_option normalize_ranking_entry (f b)) = placed_in f"
  by (auto simp: played_in_def placed_in_def count_of_def fun_eq_iff split: option.split)

text \<open>Listing the map again.\<close>

lemma listed_entries:
  assumes "entry_map_ok m"
  defines "es \<equiv> sort_slice entry_before (map (\<lambda>(b, e). normalize_ranking_entry e) m)"
  shows "distinct (map ke_bot es)" "sorted (map ke_bot es)"
    "\<forall>e \<in> set es. normalize_ranking_entry e = e \<and> tallied e"
    "by_bot es = (\<lambda>b. map_option normalize_ranking_entry (map_of m b))"
proof -
  let ?ns = "map (\<lambda>(b, e). normalize_ranking_entry e) m"
  have key: "ke_bot (normalize_ranking_entry e) = b \<and> tallied e" if "(b, e) \<in> set m" for b e
  proof -
    have "map_of m b = Some e" using assms(1) that by (simp add: entry_map_ok_def)
    then show ?thesis using assms(1) by (simp add: entry_map_ok_def)
  qed
  have keys: "map ke_bot ?ns = map fst m" using key by (auto intro: map_cong)
  have d: "distinct (map ke_bot ?ns)" unfolding keys using assms(1) by (simp add: entry_map_ok_def)
  have ms: "mset es = mset ?ns" by (simp add: es_def)
  show "distinct (map ke_bot es)" using d ms by (metis mset_map mset_eq_imp_distinct_iff)
  show "sorted (map ke_bot es)" by (simp add: es_def sorted_entries by_bot_order.sorted_sort_slice)
  show "\<forall>e \<in> set es. normalize_ranking_entry e = e \<and> tallied e"
    using key by (auto simp: es_def)
  have pairs: "map (\<lambda>e. (ke_bot e, e)) ?ns = map (\<lambda>(b, e). (b, normalize_ranking_entry e)) m"
    using key by (auto intro: map_cong)
  have "map_of (map (\<lambda>(b, e). (b, normalize_ranking_entry e)) m) b = map_option normalize_ranking_entry (map_of m b)" for b
    by (induction m) auto
  then show "by_bot es = (\<lambda>b. map_option normalize_ranking_entry (map_of m b))"
    unfolding by_bot_mset [OF d ms] unfolding by_bot_def pairs by (simp add: fun_eq_iff)
qed

lemma apply_ranking_update_step:
  assumes ok: "ranking_ok s" and pls: "\<forall>p \<in> set (ku_placements u). placement_ok p"
    and scope: "normalize_ranking_scope (ku_scope u) = kn_scope s"
  shows "\<exists>s'. apply_ranking_update s u = Inr s' \<and> ranking_ok s' \<and> kn_scope s' = kn_scope s \<and>
    (if ku_run u \<in> set (kn_runs s) \<or> ku_match u \<in> set (kn_matches s) then s' = s
     else kn_runs s' = kn_runs s @ [ku_run u] \<and> kn_matches s' = kn_matches s @ [ku_match u] \<and>
       (\<forall>b. played s' b = played s b + plays_of (ku_placements u) b \<and>
            (\<forall>k. placed s' b k = placed s b k + places_of (ku_placements u) b k) \<and>
            (b \<notin> kp_bot ` set (ku_placements u) \<longrightarrow> by_bot (kn_entries s') b = by_bot (kn_entries s) b)))"
proof (cases "ku_run u \<in> set (kn_runs s) \<or> ku_match u \<in> set (kn_matches s)")
  case True
  then have "apply_ranking_update s u = Inr s"
    using scope by (auto simp: apply_ranking_update_def normalize_ok [OF ok] Let_def)
  with True ok show ?thesis by auto
next
  case False
  let ?old = "put_all ke_bot (\<lambda>e. e) (map normalize_ranking_entry (kn_entries s)) []"
  let ?new = "fold (apply_placement u) (ku_placements u) ?old"
  let ?es = "sort_slice entry_before (map (\<lambda>(b, e). normalize_ranking_entry e) ?new)"
  define s' where "s' = s\<lparr>kn_runs := kn_runs s @ [ku_run u], kn_matches := kn_matches s @ [ku_match u],
      kn_last_run := ku_run u, kn_last_match := ku_match u,
      kn_completed := int (length (kn_matches s @ [ku_match u])), kn_entries := ?es\<rparr>"
  have m0: "entry_map_ok ?old" "map_of ?old = by_bot (kn_entries s)" using entries_map [OF ok] by simp_all
  note m = apply_placements_map [where u = u, OF m0(1) pls]
  note es = listed_entries [OF conjunct1 [OF m]]
  have app: "apply_ranking_update s u = Inr s'"
    using False scope by (simp add: apply_ranking_update_def normalize_ok [OF ok] Let_def s'_def)
  have "ranking_ok s'" using ok False es(1-3) by (simp add: ranking_ok_def s'_def)
  moreover have "played s' b = played s b + plays_of (ku_placements u) b" for b
    using m [of b] by (simp add: s'_def es(4) counts_normalized m0(2))
  moreover have "placed s' b k = placed s b k + places_of (ku_placements u) b k" for b k
    using m [of b k] by (simp add: s'_def es(4) counts_normalized m0(2))
  moreover have "by_bot (kn_entries s') b = by_bot (kn_entries s) b" if "b \<notin> kp_bot ` set (ku_placements u)" for b
  proof -
    have "map_of ?new b = by_bot (kn_entries s) b" using m [of b] that m0(2) by simp
    moreover have "map_option normalize_ranking_entry (by_bot (kn_entries s) b) = by_bot (kn_entries s) b"
      using ok by (cases "by_bot (kn_entries s) b") (auto simp: by_bot_def ranking_ok_def dest!: map_of_SomeD)
    ultimately show ?thesis by (simp add: s'_def es(4))
  qed
  ultimately show ?thesis using app False by (simp add: s'_def)
qed

text \<open>The updates that count: those whose run and match are new.\<close>

fun effective :: "string list \<Rightarrow> string list \<Rightarrow> ranking_update list \<Rightarrow> ranking_update list" where
  "effective runs matches [] = []"
| "effective runs matches (u # us) =
     (if ku_run u \<in> set runs \<or> ku_match u \<in> set matches then effective runs matches us
      else u # effective (runs @ [ku_run u]) (matches @ [ku_match u]) us)"

definition apply_updates :: "ranking_snapshot \<Rightarrow> ranking_update list \<Rightarrow> ranking_error + ranking_snapshot" where
  "apply_updates s us = foldR (\<lambda>u s. apply_ranking_update s u) us s"

definition all_placements :: "ranking_update list \<Rightarrow> ranking_placement list" where
  "all_placements us = concat (map ku_placements us)"

lemma apply_updates_tally:
  assumes "ranking_ok s" "\<forall>u \<in> set us. normalize_ranking_scope (ku_scope u) = kn_scope s \<and>
      (\<forall>p \<in> set (ku_placements u). placement_ok p)"
  shows "\<exists>s'. apply_updates s us = Inr s' \<and> ranking_ok s' \<and> kn_scope s' = kn_scope s \<and>
    kn_runs s' = kn_runs s @ map ku_run (effective (kn_runs s) (kn_matches s) us) \<and>
    kn_matches s' = kn_matches s @ map ku_match (effective (kn_runs s) (kn_matches s) us) \<and>
    (\<forall>b. played s' b = played s b + plays_of (all_placements (effective (kn_runs s) (kn_matches s) us)) b \<and>
      (\<forall>k. placed s' b k = placed s b k + places_of (all_placements (effective (kn_runs s) (kn_matches s) us)) b k))"
  using assms
proof (induction us arbitrary: s)
  case (Cons u us)
  obtain s1 where s1: "apply_ranking_update s u = Inr s1" "ranking_ok s1" "kn_scope s1 = kn_scope s"
    "if ku_run u \<in> set (kn_runs s) \<or> ku_match u \<in> set (kn_matches s) then s1 = s
     else kn_runs s1 = kn_runs s @ [ku_run u] \<and> kn_matches s1 = kn_matches s @ [ku_match u] \<and>
       (\<forall>b. played s1 b = played s b + plays_of (ku_placements u) b \<and>
            (\<forall>k. placed s1 b k = placed s b k + places_of (ku_placements u) b k))"
    using apply_ranking_update_step [OF Cons.prems(1), of u] Cons.prems(2) by (auto split: if_splits)
  have rest: "\<forall>u \<in> set us. normalize_ranking_scope (ku_scope u) = kn_scope s1 \<and>
      (\<forall>p \<in> set (ku_placements u). placement_ok p)" using Cons.prems(2) s1(3) by simp
  obtain s' where s': "apply_updates s1 us = Inr s'" "ranking_ok s'" "kn_scope s' = kn_scope s1"
    "kn_runs s' = kn_runs s1 @ map ku_run (effective (kn_runs s1) (kn_matches s1) us)"
    "kn_matches s' = kn_matches s1 @ map ku_match (effective (kn_runs s1) (kn_matches s1) us)"
    "\<forall>b. played s' b = played s1 b + plays_of (all_placements (effective (kn_runs s1) (kn_matches s1) us)) b \<and>
      (\<forall>k. placed s' b k = placed s1 b k + places_of (all_placements (effective (kn_runs s1) (kn_matches s1) us)) b k)"
    using Cons.IH [OF s1(2) rest] by blast
  have app: "apply_updates s (u # us) = Inr s'" using s1(1) s'(1) by (simp add: apply_updates_def)
  show ?case
  proof (cases "ku_run u \<in> set (kn_runs s) \<or> ku_match u \<in> set (kn_matches s)")
    case True
    then have "s1 = s" using s1(4) by simp
    with True s' app show ?thesis by (intro exI [of _ s']) simp
  next
    case False
    then show ?thesis using s' app s1(3,4) by (intro exI [of _ s']) (simp add: all_placements_def)
  qed
qed (simp add: apply_updates_def all_placements_def)

end
