(* ===== verification/Queue.thy ===== *)
theory Queue
  imports Lifecycle
begin

text \<open>
  The in-memory queue store of \<open>internal/platform/service/store_memory.go\<close>. Every operation
  holds the store's mutex from its first to its last statement, so it is one function of the
  store; the clock it reads is an argument. Records are copied in and out, so values suffice.
\<close>

datatype queue_error =
  RunIDRequired
| RunIDExists string
| WorkerIDRequired
| NoQueuedSubmission
| RecordNotFound
| NotLeaseOwner string
| BadTransition transition_error
| OnlyCompletedPromoted
| OnlyQueuedCanceled
| StoreFailed string  \<comment> \<open>only of stores that can fail\<close>

record queue_store =
  qs_all :: "string list"
  qs_order :: "string list"
  qs_records :: "queue_record gomap"

definition new_queue_store :: queue_store where
  "new_queue_store = \<lparr>qs_all = [], qs_order = [], qs_records = []\<rparr>"

definition worker_lease_duration :: int where
  "worker_lease_duration = 30 * 1000000000"

definition new_worker_lease :: "string \<Rightarrow> int \<Rightarrow> worker_lease" where
  "new_worker_lease worker now =
     \<lparr>wl_worker = worker, wl_deadline = now + worker_lease_duration, wl_heartbeat = now\<rparr>"

definition is_recoverable_lease :: "queue_record \<Rightarrow> int \<Rightarrow> bool" where
  "is_recoverable_lease r now =
     (case qr_lease r of
        None \<Rightarrow> False
      | Some l \<Rightarrow> if wl_deadline l > now then False
                 else qr_state r = StateLeased \<or> qr_state r = StateRunning \<or> qr_state r = StatePersisting)"

definition enqueue :: "match_submission \<Rightarrow> queue_store \<Rightarrow> (queue_error + queue_record) \<times> queue_store" where
  "enqueue sub s =
     (if blank (ms_run sub) then (Inl RunIDRequired, s)
      else if map_of (qs_records s) (ms_run sub) \<noteq> None then (Inl (RunIDExists (ms_run sub)), s)
      else
        let r = \<lparr>qr_submission = sub, qr_state = StateQueued, qr_completed_at = None,
                 qr_lease = None, qr_terminal = None\<rparr>
        in (Inr r, s\<lparr>qs_records := put (ms_run sub) r (qs_records s),
                     qs_all := qs_all s @ [ms_run sub], qs_order := qs_order s @ [ms_run sub]\<rparr>))"

fun claim_next :: "string \<Rightarrow> int \<Rightarrow> string list \<Rightarrow> queue_record gomap \<Rightarrow>
    (queue_error + queue_record) \<times> string list \<times> queue_record gomap" where
  "claim_next worker now [] recs = (Inl NoQueuedSubmission, [], recs)"
| "claim_next worker now (run # order) recs =
     (case map_of recs run of
        None \<Rightarrow> claim_next worker now order recs
      | Some r \<Rightarrow>
          if qr_state r \<noteq> StateQueued then claim_next worker now order recs
          else let r1 = r\<lparr>qr_state := StateLeased, qr_lease := Some (new_worker_lease worker now)\<rparr>
               in (Inr r1, order, put run r1 recs))"

definition claim :: "string \<Rightarrow> int \<Rightarrow> queue_store \<Rightarrow> (queue_error + queue_record) \<times> queue_store" where
  "claim worker now s =
     (if blank worker then (Inl WorkerIDRequired, s)
      else case claim_next worker now (qs_order s) (qs_records s) of
        (res, order, recs) \<Rightarrow> (res, s\<lparr>qs_order := order, qs_records := recs\<rparr>))"

definition heartbeat :: "string \<Rightarrow> string \<Rightarrow> int \<Rightarrow> queue_store \<Rightarrow> queue_error option \<times> queue_store" where
  "heartbeat run worker now s =
     (case map_of (qs_records s) run of
        None \<Rightarrow> (Some RecordNotFound, s)
      | Some r \<Rightarrow>
          (case qr_lease r of
             None \<Rightarrow> (Some (NotLeaseOwner run), s)
           | Some l \<Rightarrow>
               if wl_worker l \<noteq> worker then (Some (NotLeaseOwner run), s)
               else (None, s\<lparr>qs_records := put run (r\<lparr>qr_lease := Some (new_worker_lease worker now)\<rparr>)
                                               (qs_records s)\<rparr>)))"

text \<open>
  \<open>RecoverExpired\<close> ranges over a map, so the order in which it meets the records, and queues
  them again, is not determined: \<open>visit\<close> is that order.
\<close>

definition recover_one :: "int \<Rightarrow> string \<Rightarrow> nat \<times> queue_store \<Rightarrow> nat \<times> queue_store" where
  "recover_one now run = (\<lambda>(n, s).
     case map_of (qs_records s) run of
       None \<Rightarrow> (n, s)
     | Some r \<Rightarrow>
         if \<not> is_recoverable_lease r now then (n, s)
         else (Suc n, s\<lparr>qs_records := put run (r\<lparr>qr_state := StateQueued, qr_lease := None\<rparr>) (qs_records s),
                        qs_order := qs_order s @ [run]\<rparr>))"

definition recover_expired :: "string list \<Rightarrow> int \<Rightarrow> queue_store \<Rightarrow> nat \<times> queue_store" where
  "recover_expired visit now s = fold (recover_one now) visit (0, s)"

definition completion_time :: "queue_record \<Rightarrow> queue_record \<Rightarrow> int \<Rightarrow> int option" where
  "completion_time current next now =
     (case qr_completed_at current of
        Some t \<Rightarrow> Some t
      | None \<Rightarrow> if qr_state next = StateCompleted then Some now else None)"

definition update :: "queue_record \<Rightarrow> int \<Rightarrow> queue_store \<Rightarrow> queue_error option \<times> queue_store" where
  "update next now s =
     (case map_of (qs_records s) (qr_run next) of
        None \<Rightarrow> (Some RecordNotFound, s)
      | Some current \<Rightarrow>
          (case validate_transition (qr_state current) (qr_state next) of
             Some e \<Rightarrow> (Some (BadTransition e), s)
           | None \<Rightarrow>
               (None, s\<lparr>qs_records := put (qr_run next)
                    (next\<lparr>qr_completed_at := completion_time current next now\<rparr>) (qs_records s)\<rparr>)))"

definition set_official :: "bool \<Rightarrow> queue_record \<Rightarrow> queue_record" where
  "set_official b r = r\<lparr>qr_submission := (qr_submission r)\<lparr>ms_official := b\<rparr>\<rparr>"

text \<open>Each record is rewritten independently of the others, so the map order does not matter.\<close>

definition promote :: "string \<Rightarrow> queue_store \<Rightarrow> (queue_error + queue_record) \<times> queue_store" where
  "promote run s =
     (case map_of (qs_records s) run of
        None \<Rightarrow> (Inl RecordNotFound, s)
      | Some target \<Rightarrow>
          if qr_state target \<noteq> StateCompleted then (Inl OnlyCompletedPromoted, s)
          else
            let recs = map (\<lambda>(id, r).
                  (id, if qr_match r \<noteq> qr_match target then r else set_official (id = run) r)) (qs_records s)
            in (Inr (case map_of recs run of Some r \<Rightarrow> r | None \<Rightarrow> target), s\<lparr>qs_records := recs\<rparr>))"

definition remove_from_order :: "string \<Rightarrow> queue_store \<Rightarrow> queue_store" where
  "remove_from_order run s = s\<lparr>qs_order := filter (\<lambda>id. id \<noteq> run) (qs_order s)\<rparr>"

definition cancel_queued :: "string \<Rightarrow> queue_store \<Rightarrow> (queue_error + queue_record) \<times> queue_store" where
  "cancel_queued run s =
     (case map_of (qs_records s) run of
        None \<Rightarrow> (Inl RecordNotFound, s)
      | Some r \<Rightarrow>
          if qr_state r \<noteq> StateQueued then (Inl OnlyQueuedCanceled, s)
          else case validate_transition (qr_state r) StateCanceled of
            Some e \<Rightarrow> (Inl (BadTransition e), s)
          | None \<Rightarrow>
              let r1 = r\<lparr>qr_state := StateCanceled, qr_lease := None, qr_terminal := None\<rparr>
              in (Inr r1, remove_from_order run (s\<lparr>qs_records := put run r1 (qs_records s)\<rparr>)))"

definition get_record :: "string \<Rightarrow> queue_store \<Rightarrow> queue_error + queue_record" where
  "get_record run s =
     (case map_of (qs_records s) run of None \<Rightarrow> Inl RecordNotFound | Some r \<Rightarrow> Inr r)"

definition list_records :: "queue_store \<Rightarrow> queue_record list" where
  "list_records s = List.map_filter (map_of (qs_records s)) (qs_all s)"

section \<open>Reachable stores\<close>

text \<open>
  The steps a store can take. The callers of \<open>Update\<close> (\<open>worker.go\<close>) write one of the four
  states of a run that has started.
\<close>

definition worker_state :: "lifecycle_state \<Rightarrow> bool" where
  "worker_state st \<longleftrightarrow> st \<in> {StateRunning, StatePersisting, StateCompleted, StateFailed}"

inductive queue_step :: "queue_store \<Rightarrow> queue_store \<Rightarrow> bool" where
  step_enqueue: "queue_step s (snd (enqueue sub s))"
| step_claim: "queue_step s (snd (claim worker now s))"
| step_heartbeat: "queue_step s (snd (heartbeat run worker now s))"
| step_recover: "distinct visit \<Longrightarrow> set visit = fst ` set (qs_records s) \<Longrightarrow>
    queue_step s (snd (recover_expired visit now s))"
| step_update: "worker_state (qr_state next) \<Longrightarrow> queue_step s (snd (update next now s))"
| step_promote: "queue_step s (snd (promote run s))"
| step_cancel: "queue_step s (snd (cancel_queued run s))"

inductive_cases queue_step_cases: "queue_step s s'"

inductive queue_reach :: "queue_store \<Rightarrow> queue_store \<Rightarrow> bool" for s0 :: queue_store where
  reach_refl: "queue_reach s0 s0"
| reach_step: "queue_reach s0 s \<Longrightarrow> queue_step s s' \<Longrightarrow> queue_reach s0 s'"

text \<open>
  The invariant: records are keyed by their run id, listed once in insertion order; the order
  holds each queued run once and nothing else; exactly the completed records carry a
  completion time; runs in flight carry a lease.
\<close>

definition lookup :: "queue_store \<Rightarrow> string \<Rightarrow> queue_record option" where
  "lookup s = map_of (qs_records s)"

definition record_ok :: "string \<Rightarrow> queue_record \<Rightarrow> bool" where
  "record_ok run r \<longleftrightarrow> qr_run r = run \<and> \<not> blank run \<and>
     (qr_completed_at r \<noteq> None) = (qr_state r = StateCompleted) \<and>
     (qr_state r = StateQueued \<longrightarrow> qr_lease r = None)"

definition queue_ok :: "queue_store \<Rightarrow> bool" where
  "queue_ok s \<longleftrightarrow> distinct (map fst (qs_records s)) \<and> distinct (qs_all s) \<and>
     set (qs_all s) = dom (lookup s) \<and> distinct (qs_order s) \<and>
     (\<forall>run. run \<in> set (qs_order s) \<longleftrightarrow> (\<exists>r. lookup s run = Some r \<and> qr_state r = StateQueued)) \<and>
     (\<forall>run r. lookup s run = Some r \<longrightarrow> record_ok run r)"

end
