(* ===== verification/Ranking_Service.thy ===== *)
theory Ranking_Service
  imports Ranking_Props Queue
begin

text \<open>
  The ranking service of \<open>internal/platform/service/ranking.go\<close>: applying a completed run,
  rebuilding a snapshot from the queue, verification; the JSON form of snapshots and the local
  snapshot store; and \<open>readResultSummary\<close> of \<open>query.go\<close>, on which it relies.
\<close>

section \<open>Reading result summaries\<close>

text \<open>What an \<open>ArtifactReader\<close> answers: a missing artifact is its own case.\<close>

datatype read_outcome = ReadMissing | ReadFailed string | ReadOk raw

definition str_status :: "string \<Rightarrow> match_status" where
  "str_status s =
     (if s = ''starting'' then StatusStarting
      else if s = ''initializing'' then StatusInitializing
      else if s = ''running'' then StatusRunning
      else if s = ''finishing'' then StatusFinishing
      else if s = ''completed'' then StatusCompleted
      else if s = ''failed'' then StatusFailed
      else if s = ''canceled'' then StatusCanceled
      else OtherStatus s)"

definition dec_status :: "match_status decoder" where
  "dec_status j s = map_option str_status (dec_str j (status_str s))"

definition dec_placement :: "placement decoder" where
  "dec_placement = dec_struct
     [(''player_id'', dec_field pc_player (\<lambda>x s. s\<lparr>pc_player := x\<rparr>) dec_str),
      (''place'', dec_field pc_place (\<lambda>x s. s\<lparr>pc_place := x\<rparr>) dec_int)]"

definition zero_placement :: placement where
  "zero_placement = \<lparr>pc_player = [], pc_place = 0\<rparr>"

definition dec_path_refs :: "path_refs decoder" where
  "dec_path_refs = dec_struct
     [(''record'', dec_field pf_record (\<lambda>x s. s\<lparr>pf_record := x\<rparr>) dec_str),
      (''structured_log'', dec_field pf_log (\<lambda>x s. s\<lparr>pf_log := x\<rparr>) dec_str),
      (''snapshot'', dec_field pf_snapshot (\<lambda>x s. s\<lparr>pf_snapshot := x\<rparr>) dec_str),
      (''exported_snapshot'', dec_field pf_exported (\<lambda>x s. s\<lparr>pf_exported := x\<rparr>) dec_str),
      (''history'', dec_field pf_history (\<lambda>x s. s\<lparr>pf_history := x\<rparr>) dec_str)]"

definition dec_result_summary :: "result_summary decoder" where
  "dec_result_summary = dec_struct
     [(''match_id'', dec_field sy_match (\<lambda>x s. s\<lparr>sy_match := x\<rparr>) dec_str),
      (''game_id'', dec_field sy_game (\<lambda>x s. s\<lparr>sy_game := x\<rparr>) dec_str),
      (''game_version'', dec_field sy_version (\<lambda>x s. s\<lparr>sy_version := x\<rparr>) dec_str),
      (''ruleset_version'', dec_field sy_ruleset (\<lambda>x s. s\<lparr>sy_ruleset := x\<rparr>) dec_str),
      (''status'', dec_field sy_status (\<lambda>x s. s\<lparr>sy_status := x\<rparr>) dec_status),
      (''turn'', dec_field sy_turn (\<lambda>x s. s\<lparr>sy_turn := x\<rparr>) dec_int),
      (''placements'', dec_field sy_placements (\<lambda>x s. s\<lparr>sy_placements := x\<rparr>) (dec_list dec_placement zero_placement)),
      (''artifact_paths'', dec_field sy_paths (\<lambda>x s. s\<lparr>sy_paths := x\<rparr>) dec_path_refs),
      (''error'', dec_field sy_error (\<lambda>x s. s\<lparr>sy_error := x\<rparr>) dec_str)]"

definition zero_summary :: result_summary where
  "zero_summary = \<lparr>sy_match = [], sy_game = [], sy_version = [], sy_ruleset = [], sy_status = OtherStatus [],
     sy_turn = 0, sy_placements = [], sy_paths = no_paths, sy_error = []\<rparr>"

definition read_result_summary :: "(string \<Rightarrow> read_outcome) \<Rightarrow> string \<Rightarrow> ranking_error + result_summary option" where
  "read_result_summary read locator =
     (if blank locator then Inr None
      else case read locator of
        ReadMissing \<Rightarrow> Inr None
      | ReadFailed e \<Rightarrow> Inl (SummaryUnreadable locator e)
      | ReadOk data \<Rightarrow>
          (case unmarshal dec_result_summary data zero_summary of
             None \<Rightarrow> Inl (SummaryUndecodable locator)
           | Some sy \<Rightarrow> Inr (Some sy)))"

section \<open>The service\<close>

text \<open>
  The service over a world \<open>'w\<close>: the snapshot store, the queue (absent for a service built
  without one; \<open>None\<close> from the list is a store that failed) and the artifact reader.
\<close>

record 'w ranking_env =
  kv_get :: "ranking_scope \<Rightarrow> 'w \<Rightarrow> ranking_error + (ranking_snapshot \<times> string)"
  kv_put :: "ranking_snapshot \<Rightarrow> 'w \<Rightarrow> (ranking_error + string) \<times> 'w"
  kv_list :: "('w \<Rightarrow> queue_record list option) option"
  kv_read :: "'w \<Rightarrow> string \<Rightarrow> read_outcome"

definition ranking_apply_completed ::
  "'w ranking_env \<Rightarrow> match_submission \<Rightarrow> result_summary \<Rightarrow> 'w \<Rightarrow> ranking_error option \<times> 'w" where
  "ranking_apply_completed env sub sy w =
     (if \<not> ms_official sub then (None, w)
      else if \<not> has_bot_ranking_identity sub then (None, w)
      else case build_ranking_update sub sy of
        Inl e \<Rightarrow> (Some e, w)
      | Inr u \<Rightarrow>
          (case (case kv_get env (ku_scope u) w of
                   Inr (s, _) \<Rightarrow> Inr s
                 | Inl e \<Rightarrow> if e = SnapshotNotFound then Inr (new_ranking_snapshot (ku_scope u)) else Inl e) of
             Inl e \<Rightarrow> (Some e, w)
           | Inr current \<Rightarrow>
               (case apply_ranking_update current u of
                  Inl e \<Rightarrow> (Some e, w)
                | Inr next \<Rightarrow>
                    (case kv_put env next w of
                       (Inl e, w1) \<Rightarrow> (Some e, w1)
                     | (Inr _, w1) \<Rightarrow> (None, w1)))))"

definition recompute_step ::
  "(string \<Rightarrow> read_outcome) \<Rightarrow> ranking_scope \<Rightarrow> queue_record \<Rightarrow> ranking_snapshot \<Rightarrow> ranking_error + ranking_snapshot" where
  "recompute_step read scope r snapshot =
     (case qr_terminal r of
        None \<Rightarrow> Inr snapshot
      | Some t \<Rightarrow>
          if qr_state r \<noteq> StateCompleted \<or> \<not> qr_official r \<or> blank (ta_summary_path t) then Inr snapshot
          else if \<not> has_bot_ranking_identity (qr_submission r) then Inr snapshot
          else
            bindR (read_result_summary read (ta_summary_path t)) (\<lambda>osy.
              case osy of
                None \<Rightarrow> Inr snapshot
              | Some sy \<Rightarrow>
                  if normalize_ranking_scope (scope_from_summary sy) \<noteq> scope then Inr snapshot
                  else bindR (build_ranking_update (qr_submission r) sy) (apply_ranking_update snapshot)))"

definition ranking_recompute :: "'w ranking_env \<Rightarrow> ranking_scope \<Rightarrow> 'w \<Rightarrow> ranking_error + ranking_snapshot" where
  "ranking_recompute env scope0 w =
     (let scope = normalize_ranking_scope scope0 in
      case validate_ranking_scope scope of
        Some e \<Rightarrow> Inl e
      | None \<Rightarrow>
          (case kv_list env of
             None \<Rightarrow> Inl QueueMissing
           | Some list \<Rightarrow>
               (case list w of
                  None \<Rightarrow> Inl QueueFailed
                | Some records \<Rightarrow>
                    bindR (foldR (recompute_step (kv_read env w) scope) records (new_ranking_snapshot scope))
                      (\<lambda>s. Inr (normalize_ranking_snapshot s)))))"

definition ranking_refresh :: "'w ranking_env \<Rightarrow> queue_record \<Rightarrow> 'w \<Rightarrow> ranking_error option \<times> 'w" where
  "ranking_refresh env r w =
     (case qr_terminal r of
        None \<Rightarrow> (Some TerminalMissing, w)
      | Some t \<Rightarrow>
          (case read_result_summary (kv_read env w) (ta_summary_path t) of
             Inl e \<Rightarrow> (Some e, w)
           | Inr None \<Rightarrow> (Some SummaryMissing, w)
           | Inr (Some sy) \<Rightarrow>
               (case ranking_recompute env (scope_from_summary sy) w of
                  Inl e \<Rightarrow> (Some e, w)
                | Inr s \<Rightarrow>
                    (case kv_put env s w of
                       (Inl e, w1) \<Rightarrow> (Some e, w1)
                     | (Inr _, w1) \<Rightarrow> (None, w1)))))"

definition ranking_get :: "'w ranking_env \<Rightarrow> ranking_scope \<Rightarrow> 'w \<Rightarrow> ranking_error + (ranking_snapshot \<times> string)" where
  "ranking_get env scope0 w =
     (let scope = normalize_ranking_scope scope0 in
      case validate_ranking_scope scope of
        Some e \<Rightarrow> Inl e
      | None \<Rightarrow> bindR (kv_get env scope w) (\<lambda>(s, locator). Inr (normalize_ranking_snapshot s, locator)))"

record ranking_verification =
  rv_scope :: ranking_scope
  rv_stored :: "(ranking_snapshot \<times> string) option"
  rv_recomputed :: ranking_snapshot
  rv_ok :: bool

definition ranking_verify :: "'w ranking_env \<Rightarrow> ranking_scope \<Rightarrow> 'w \<Rightarrow> ranking_error + ranking_verification" where
  "ranking_verify env scope0 w =
     (let scope = normalize_ranking_scope scope0 in
      bindR (ranking_recompute env scope w) (\<lambda>recomputed.
        case ranking_get env scope w of
          Inr (s, locator) \<Rightarrow>
            Inr \<lparr>rv_scope = scope, rv_stored = Some (s, locator), rv_recomputed = recomputed,
                 rv_ok = ranking_snapshots_equal s recomputed\<rparr>
        | Inl e \<Rightarrow>
            if e = SnapshotNotFound then
              Inr \<lparr>rv_scope = scope, rv_stored = None, rv_recomputed = recomputed, rv_ok = False\<rparr>
            else Inl e))"

section \<open>The local snapshot store\<close>

text \<open>The members of a \<open>map[int]int\<close> are written in the order of their decimal keys.\<close>

definition enc_counts :: "(int \<times> int) list \<Rightarrow> json" where
  "enc_counts c = enc_map JInt (map (\<lambda>(k, n). (itoa k, n)) c)"

definition enc_ranking_entry :: "ranking_entry \<Rightarrow> json" where
  "enc_ranking_entry e = JObj
     ([(''bot_id'', JStr (ke_bot e)), (''bot_name'', JStr (ke_name e)),
       (''last_player_id'', JStr (ke_player e)), (''matches_played'', JInt (ke_played e)),
       (''first_places'', JInt (ke_first e))] @
      (if ke_counts e = [] then [] else [(''placement_counts'', enc_counts (ke_counts e))]) @
      [(''last_run_id'', JStr (ke_run e)), (''last_match_id'', JStr (ke_match e)),
       (''last_status'', JStr (status_str (ke_status e)))])"

definition enc_ranking_scope :: "ranking_scope \<Rightarrow> json" where
  "enc_ranking_scope sc = JObj [(''game_id'', JStr (ks_game sc)), (''game_version'', JStr (ks_version sc)),
     (''ruleset_version'', JStr (ks_ruleset sc))]"

definition enc_ranking_snapshot :: "ranking_snapshot \<Rightarrow> json" where
  "enc_ranking_snapshot s0 =
     (let s = normalize_ranking_snapshot s0 in JObj
       ([(''version'', JInt (kn_version s)), (''scope'', enc_ranking_scope (kn_scope s))] @
        (if kn_runs s = [] then [] else [(''applied_run_ids'', JArr (map JStr (kn_runs s)))]) @
        (if kn_matches s = [] then [] else [(''applied_match_ids'', JArr (map JStr (kn_matches s)))]) @
        omit_str ''last_applied_run_id'' (kn_last_run s) @
        omit_str ''last_applied_match_id'' (kn_last_match s) @
        [(''completed_matches'', JInt (kn_completed s))] @
        (if kn_entries s = [] then [] else [(''entries'', JArr (map enc_ranking_entry (kn_entries s)))])))"

fun dec_count_members :: "(string \<times> json) list \<Rightarrow> (int \<times> int) list \<Rightarrow> (int \<times> int) list option" where
  "dec_count_members [] c = Some c"
| "dec_count_members ((k, v) # rest) c =
     (case (atoi k, dec_int v 0) of
        (Some i, Some n) \<Rightarrow> dec_count_members rest (AList.update i n c)
      | _ \<Rightarrow> None)"

definition dec_counts :: "(int \<times> int) list decoder" where
  "dec_counts j c = (case j of JNull \<Rightarrow> Some [] | JObj kvs \<Rightarrow> dec_count_members kvs c | _ \<Rightarrow> None)"

definition dec_ranking_scope :: "ranking_scope decoder" where
  "dec_ranking_scope = dec_struct_strict
     [(''game_id'', dec_field ks_game (\<lambda>x s. s\<lparr>ks_game := x\<rparr>) dec_str),
      (''game_version'', dec_field ks_version (\<lambda>x s. s\<lparr>ks_version := x\<rparr>) dec_str),
      (''ruleset_version'', dec_field ks_ruleset (\<lambda>x s. s\<lparr>ks_ruleset := x\<rparr>) dec_str)]"

definition dec_ranking_entry :: "ranking_entry decoder" where
  "dec_ranking_entry = dec_struct_strict
     [(''bot_id'', dec_field ke_bot (\<lambda>x s. s\<lparr>ke_bot := x\<rparr>) dec_str),
      (''bot_name'', dec_field ke_name (\<lambda>x s. s\<lparr>ke_name := x\<rparr>) dec_str),
      (''last_player_id'', dec_field ke_player (\<lambda>x s. s\<lparr>ke_player := x\<rparr>) dec_str),
      (''matches_played'', dec_field ke_played (\<lambda>x s. s\<lparr>ke_played := x\<rparr>) dec_int),
      (''first_places'', dec_field ke_first (\<lambda>x s. s\<lparr>ke_first := x\<rparr>) dec_int),
      (''placement_counts'', dec_field ke_counts (\<lambda>x s. s\<lparr>ke_counts := x\<rparr>) dec_counts),
      (''last_run_id'', dec_field ke_run (\<lambda>x s. s\<lparr>ke_run := x\<rparr>) dec_str),
      (''last_match_id'', dec_field ke_match (\<lambda>x s. s\<lparr>ke_match := x\<rparr>) dec_str),
      (''last_status'', dec_field ke_status (\<lambda>x s. s\<lparr>ke_status := x\<rparr>) dec_status)]"

definition zero_ranking_snapshot :: ranking_snapshot where
  "zero_ranking_snapshot = \<lparr>kn_version = 0, kn_scope = \<lparr>ks_game = [], ks_version = [], ks_ruleset = []\<rparr>,
     kn_runs = [], kn_matches = [], kn_last_run = [], kn_last_match = [], kn_completed = 0, kn_entries = []\<rparr>"

definition dec_ranking_snapshot :: "ranking_snapshot decoder" where
  "dec_ranking_snapshot = dec_struct_strict
     [(''version'', dec_field kn_version (\<lambda>x s. s\<lparr>kn_version := x\<rparr>) dec_int),
      (''scope'', dec_field kn_scope (\<lambda>x s. s\<lparr>kn_scope := x\<rparr>) dec_ranking_scope),
      (''applied_run_ids'', dec_field kn_runs (\<lambda>x s. s\<lparr>kn_runs := x\<rparr>) (dec_list dec_str [])),
      (''applied_match_ids'', dec_field kn_matches (\<lambda>x s. s\<lparr>kn_matches := x\<rparr>) (dec_list dec_str [])),
      (''last_applied_run_id'', dec_field kn_last_run (\<lambda>x s. s\<lparr>kn_last_run := x\<rparr>) dec_str),
      (''last_applied_match_id'', dec_field kn_last_match (\<lambda>x s. s\<lparr>kn_last_match := x\<rparr>) dec_str),
      (''completed_matches'', dec_field kn_completed (\<lambda>x s. s\<lparr>kn_completed := x\<rparr>) dec_int),
      (''entries'', dec_field kn_entries (\<lambda>x s. s\<lparr>kn_entries := x\<rparr>) (dec_list dec_ranking_entry zero_ranking_entry))]"

definition decode_ranking_snapshot :: "raw \<Rightarrow> ranking_error + ranking_snapshot" where
  "decode_ranking_snapshot data =
     (case unmarshal dec_ranking_snapshot data zero_ranking_snapshot of
        None \<Rightarrow> Inl SnapshotUndecodable
      | Some s \<Rightarrow>
          if kn_version s \<noteq> ranking_snapshot_version then Inl (MigrationRequired (kn_version s))
          else Inr (normalize_ranking_snapshot s))"

definition escape_ranking_path_segment :: "string \<Rightarrow> string" where
  "escape_ranking_path_segment v =
     map (\<lambda>c. if c = CHR ''/'' \<or> c = CHR 0x5C \<or> c = CHR '' '' then CHR ''_'' else c) (trim_space v)"

definition ranking_locator :: "string \<Rightarrow> ranking_scope \<Rightarrow> string" where
  "ranking_locator base_dir sc =
     join [base_dir, ''.arena-service'', ''rankings'', escape_ranking_path_segment (ks_game sc),
           escape_ranking_path_segment (ks_version sc), escape_ranking_path_segment (ks_ruleset sc),
           ''snapshot.json'']"

definition ranking_object_key :: "ranking_scope \<Rightarrow> string" where
  "ranking_object_key sc =
     join [''rankings'', escape_ranking_path_segment (ks_game sc), escape_ranking_path_segment (ks_version sc),
           escape_ranking_path_segment (ks_ruleset sc), ''snapshot.json'']"

text \<open>
  The store's files by their locators; reads and writes of the file system that fail for
  other reasons than a missing file are left out.
\<close>

type_synonym files = "string \<Rightarrow> raw option"

definition local_ranking_get :: "string \<Rightarrow> ranking_scope \<Rightarrow> files \<Rightarrow> ranking_error + (ranking_snapshot \<times> string)" where
  "local_ranking_get base_dir scope0 fs =
     (let scope = normalize_ranking_scope scope0 in
      case validate_ranking_scope scope of
        Some e \<Rightarrow> Inl e
      | None \<Rightarrow>
          (case fs (ranking_locator base_dir scope) of
             None \<Rightarrow> Inl SnapshotNotFound
           | Some data \<Rightarrow>
               bindR (decode_ranking_snapshot data) (\<lambda>s.
                 Inr (normalize_ranking_snapshot s, ranking_locator base_dir scope))))"

definition local_ranking_put :: "string \<Rightarrow> ranking_snapshot \<Rightarrow> files \<Rightarrow> (ranking_error + string) \<times> files" where
  "local_ranking_put base_dir s0 fs =
     (let s = normalize_ranking_snapshot s0 in
      case validate_ranking_scope (kn_scope s) of
        Some e \<Rightarrow> (Inl e, fs)
      | None \<Rightarrow>
          (Inr (ranking_locator base_dir (kn_scope s)),
           fs(ranking_locator base_dir (kn_scope s) \<mapsto> RawJson (enc_ranking_snapshot s))))"

end
