(* ===== verification/Ranking_Facts.thy ===== *)
theory Ranking_Facts
  imports Ranking_Service
begin

text \<open>
  What rankings promise: a snapshot is the tally of the updates that count, recomputing one
  tallies the official completed runs of the queue, and verification compares tallies, but in
  the order in which they were made.
\<close>

section \<open>Tallies\<close>

text \<open>
  A ranking is the tally of its official results: applying any list of updates of one scope
  to a new snapshot succeeds; each run and each match counts once, the first time it appears;
  every bot has one entry, listed in the order of the bots, whose numbers of matches, of first
  places and of finishes in each place are those among the placements that count.
\<close>

theorem ranking_is_tally:
  assumes "\<forall>u \<in> set us. normalize_ranking_scope (ku_scope u) = normalize_ranking_scope sc \<and>
      (\<forall>p \<in> set (ku_placements u). trim_space (kp_bot p) = kp_bot p \<and> 0 < kp_place p)"
  defines "counted \<equiv> effective [] [] us"
  shows "\<exists>s. apply_updates (new_ranking_snapshot sc) us = Inr s \<and>
    kn_runs s = map ku_run counted \<and> kn_matches s = map ku_match counted \<and>
    distinct (kn_runs s) \<and> distinct (kn_matches s) \<and> kn_completed s = int (length counted) \<and>
    distinct (map ke_bot (kn_entries s)) \<and> sorted (map ke_bot (kn_entries s)) \<and>
    (\<forall>e \<in> set (kn_entries s). ke_played e = plays_of (all_placements counted) (ke_bot e) \<and>
       ke_first e = places_of (all_placements counted) (ke_bot e) 1 \<and>
       (\<forall>k. count_of e k = places_of (all_placements counted) (ke_bot e) k)) \<and>
    (\<forall>b. 0 < plays_of (all_placements counted) b \<longrightarrow> b \<in> ke_bot ` set (kn_entries s))"
proof -
  have us: "\<forall>u \<in> set us. normalize_ranking_scope (ku_scope u) = kn_scope (new_ranking_snapshot sc) \<and>
      (\<forall>p \<in> set (ku_placements u). placement_ok p)"
    using assms(1) by (simp add: new_ranking_snapshot_def placement_ok_def)
  obtain s where s: "apply_updates (new_ranking_snapshot sc) us = Inr s" "ranking_ok s"
    "kn_runs s = map ku_run counted" "kn_matches s = map ku_match counted"
    "\<forall>b. played s b = plays_of (all_placements counted) b \<and>
      (\<forall>k. placed s b k = places_of (all_placements counted) b k)"
    using apply_updates_tally [OF ranking_ok_new us]
    by (auto simp: counted_def new_ranking_snapshot_def by_bot_def played_in_def placed_in_def)
  have d: "distinct (map ke_bot (kn_entries s))" using s(2) by (simp add: ranking_ok_def)
  have entry: "by_bot (kn_entries s) (ke_bot e) = Some e" if "e \<in> set (kn_entries s)" for e
    using d that unfolding by_bot_def by (intro map_of_is_SomeI) (auto simp: comp_def)
  have "ke_played e = plays_of (all_placements counted) (ke_bot e) \<and>
       ke_first e = places_of (all_placements counted) (ke_bot e) 1 \<and>
       (\<forall>k. count_of e k = places_of (all_placements counted) (ke_bot e) k)" if "e \<in> set (kn_entries s)" for e
  proof -
    have "ke_played e = played s (ke_bot e)" "\<And>k. count_of e k = placed s (ke_bot e) k"
      using entry [OF that] by (simp_all add: played_in_def placed_in_def)
    moreover have "ke_first e = count_of e 1" using s(2) that by (simp add: ranking_ok_def tallied_def)
    ultimately show ?thesis using s(5) by simp
  qed
  moreover have "b \<in> ke_bot ` set (kn_entries s)" if "0 < plays_of (all_placements counted) b" for b
  proof (rule ccontr)
    assume "b \<notin> ke_bot ` set (kn_entries s)"
    then have "by_bot (kn_entries s) b = None" by (auto simp: by_bot_def map_of_eq_None_iff)
    then have "played s b = 0" by (simp add: played_in_def)
    with s(5) that show False by simp
  qed
  ultimately show ?thesis using s(1-4) d
    by (intro exI [of _ s]) (simp add: ranking_ok_def)
qed

section \<open>Building an update\<close>

lemma check_placements_ok:
  "foldR (check_placement players) pcs (seen, ps) = Inr (seen', ps') \<Longrightarrow>
   \<exists>qs. ps' = ps @ qs \<and> map kp_player qs = map pc_player pcs \<and> map kp_place qs = map pc_place pcs \<and>
     (\<forall>q \<in> set qs. 0 < kp_place q \<and> (\<exists>p. map_of players (kp_player q) = Some p \<and> kp_bot q = sp_bot p \<and> \<not> blank (sp_bot p))) \<and>
     distinct (map pc_player pcs) \<and> set seen \<inter> pc_player ` set pcs = {}"
proof (induction pcs arbitrary: seen ps)
  case (Cons pc pcs)
  let ?q = "\<lambda>p. \<lparr>kp_bot = sp_bot p, kp_name = sp_bot_name p, kp_player = pc_player pc, kp_place = pc_place pc\<rparr>"
  obtain p where p: "0 < pc_place pc" "map_of players (pc_player pc) = Some p" "pc_player pc \<notin> set seen"
    "\<not> blank (sp_bot p)"
    "foldR (check_placement players) pcs (pc_player pc # seen, ps @ [?q p]) = Inr (seen', ps')"
  proof -
    obtain mid where mid: "check_placement players pc (seen, ps) = Inr mid"
      "foldR (check_placement players) pcs mid = Inr (seen', ps')"
      using Cons.prems by (auto simp: bindR_eq_Inr)
    from mid(1) obtain p where "0 < pc_place pc" "map_of players (pc_player pc) = Some p"
      "pc_player pc \<notin> set seen" "\<not> blank (sp_bot p)" "mid = (pc_player pc # seen, ps @ [?q p])"
      by (auto simp: check_placement_def split: if_splits option.splits)
    with mid(2) that show ?thesis by blast
  qed
  from Cons.IH [OF p(5)] obtain qs where qs: "ps' = (ps @ [?q p]) @ qs" "map kp_player qs = map pc_player pcs"
    "map kp_place qs = map pc_place pcs"
    "\<forall>q \<in> set qs. 0 < kp_place q \<and> (\<exists>p. map_of players (kp_player q) = Some p \<and> kp_bot q = sp_bot p \<and> \<not> blank (sp_bot p))"
    "distinct (map pc_player pcs)" "set (pc_player pc # seen) \<inter> pc_player ` set pcs = {}" by blast
  then show ?case using p(1-4) by (intro exI [of _ "?q p # qs"]) auto
qed simp

lemma build_ranking_update_ok:
  assumes "build_ranking_update sub sy = Inr u"
  shows "ku_scope u = scope_from_summary sy \<and> ku_run u = ms_run sub \<and> ku_match u = sy_match sy \<and>
    sy_status sy = StatusCompleted \<and> map kp_player (ku_placements u) = map pc_player (sy_placements sy) \<and>
    map kp_place (ku_placements u) = map pc_place (sy_placements sy) \<and> distinct (map kp_player (ku_placements u)) \<and>
    (\<forall>q \<in> set (ku_placements u). 0 < kp_place q \<and>
       (\<exists>p \<in> set (ms_players sub). kp_bot q = sp_bot p \<and> \<not> blank (sp_bot p)))"
proof -
  obtain seen ps where c: "foldR (check_placement (player_by_id sub)) (sy_placements sy) ([], []) = Inr (seen, ps)"
    and u: "u = \<lparr>ku_scope = scope_from_summary sy, ku_run = ms_run sub, ku_match = sy_match sy,
        ku_status = sy_status sy, ku_placements = ps\<rparr>" "sy_status sy = StatusCompleted"
    using assms by (auto simp: build_ranking_update_def Let_def bindR_eq_Inr split: option.splits if_splits)
  have member: "p \<in> set (ms_players sub)" if "map_of (player_by_id sub) k = Some p" for k p
  proof -
    have "map_of (put_all sp_player (\<lambda>p. p) xs m) k = Some p \<Longrightarrow> p \<in> set xs \<or> map_of m k = Some p" for xs and m :: "submitted_player gomap"
    proof (induction xs arbitrary: m)
      case (Cons x xs)
      have "map_of (put_all sp_player (\<lambda>p. p) xs (put (sp_player x) x m)) k = Some p"
        using Cons.prems by (simp add: put_all_def)
      from Cons.IH [OF this] have "p \<in> set xs \<or> map_of (put (sp_player x) x m) k = Some p" .
      then show ?case by (auto split: if_splits)
    qed (simp add: put_all_def)
    then show ?thesis using that unfolding player_by_id_def by force
  qed
  from check_placements_ok [OF c] show ?thesis using u member by fastforce
qed

section \<open>Recomputing\<close>

text \<open>The updates of the official completed runs of a scope, in the order of the queue.\<close>

definition counts_for :: "(string \<Rightarrow> read_outcome) \<Rightarrow> ranking_scope \<Rightarrow> queue_record \<Rightarrow> ranking_update option" where
  "counts_for read scope r =
     (case qr_terminal r of
        None \<Rightarrow> None
      | Some t \<Rightarrow>
          if qr_state r = StateCompleted \<and> qr_official r \<and> has_bot_ranking_identity (qr_submission r) then
            (case read_result_summary read (ta_summary_path t) of
               Inr (Some sy) \<Rightarrow>
                 if scope_from_summary sy = scope then
                   (case build_ranking_update (qr_submission r) sy of Inr u \<Rightarrow> Some u | Inl _ \<Rightarrow> None)
                 else None
             | _ \<Rightarrow> None)
          else None)"

lemma scope_from_summary_normal [simp]:
  "normalize_ranking_scope (scope_from_summary sy) = scope_from_summary sy"
  by (simp add: scope_from_summary_def)

lemma recompute_step_counts:
  "recompute_step read scope r s = Inr s' \<Longrightarrow>
   (case counts_for read scope r of None \<Rightarrow> s' = s | Some u \<Rightarrow> apply_ranking_update s u = Inr s')"
  by (auto simp: recompute_step_def counts_for_def bindR_eq_Inr read_result_summary_def
      split: option.splits if_splits sum.splits)

lemma recompute_steps_counts:
  "foldR (recompute_step read scope) rs s = Inr s' \<Longrightarrow>
   apply_updates s (List.map_filter (counts_for read scope) rs) = Inr s'"
proof (induction rs arbitrary: s)
  case Nil
  then show ?case by (simp add: apply_updates_def List.map_filter_simps)
next
  case (Cons r rs)
  then obtain s1 where s1: "recompute_step read scope r s = Inr s1" "foldR (recompute_step read scope) rs s1 = Inr s'"
    by (auto simp: bindR_eq_Inr)
  from recompute_step_counts [OF s1(1)] Cons.IH [OF s1(2)] show ?case
    by (auto simp: apply_updates_def List.map_filter_simps split: option.splits)
qed

text \<open>
  C7. Recomputing a ranking tallies the official completed runs: the snapshot it returns counts,
  for every bot, its placements among those runs of the queue that are completed, official,
  identified by bots and of the requested scope, each run and match once, and nothing else.
\<close>

theorem recompute_tallies_official_runs:
  assumes run: "ranking_recompute env scope w = Inr s" and list: "kv_list env = Some list" "list w = Some records"
    and bots: "\<forall>r \<in> set records. \<forall>p \<in> set (ms_players (qr_submission r)). trim_space (sp_bot p) = sp_bot p"
  defines "counted \<equiv> effective [] [] (List.map_filter (counts_for (kv_read env w) (normalize_ranking_scope scope)) records)"
  shows "kn_scope s = normalize_ranking_scope scope \<and> kn_runs s = map ku_run counted \<and>
    kn_matches s = map ku_match counted \<and>
    (\<forall>b. played s b = plays_of (all_placements counted) b \<and>
      (\<forall>k. placed s b k = places_of (all_placements counted) b k))"
proof -
  let ?sc = "normalize_ranking_scope scope"
  let ?us = "List.map_filter (counts_for (kv_read env w) ?sc) records"
  obtain s0 where s0: "foldR (recompute_step (kv_read env w) ?sc) records (new_ranking_snapshot ?sc) = Inr s0"
    "s = normalize_ranking_snapshot s0"
    using run list by (auto simp: ranking_recompute_def Let_def bindR_eq_Inr split: option.splits)
  have us: "\<forall>u \<in> set ?us. normalize_ranking_scope (ku_scope u) = kn_scope (new_ranking_snapshot ?sc) \<and>
      (\<forall>p \<in> set (ku_placements u). placement_ok p)"
  proof
    fix u assume "u \<in> set ?us"
    then obtain r where r: "r \<in> set records" "counts_for (kv_read env w) ?sc r = Some u"
      by (auto simp: List.map_filter_def)
    then obtain sy where sy: "build_ranking_update (qr_submission r) sy = Inr u" "scope_from_summary sy = ?sc"
      by (auto simp: counts_for_def split: option.splits if_splits sum.splits)
    show "normalize_ranking_scope (ku_scope u) = kn_scope (new_ranking_snapshot ?sc) \<and>
      (\<forall>p \<in> set (ku_placements u). placement_ok p)"
      using build_ranking_update_ok [OF sy(1)] sy(2) bots r(1)
      by (fastforce simp: new_ranking_snapshot_def placement_ok_def)
  qed
  have "ranking_ok s0 \<and> kn_scope s0 = ?sc \<and> kn_runs s0 = map ku_run counted \<and> kn_matches s0 = map ku_match counted \<and>
    (\<forall>b. played s0 b = plays_of (all_placements counted) b \<and>
      (\<forall>k. placed s0 b k = places_of (all_placements counted) b k))"
    using apply_updates_tally [OF ranking_ok_new us] recompute_steps_counts [OF s0(1)]
    by (auto simp: counted_def new_ranking_snapshot_def by_bot_def played_in_def placed_in_def)
  then show ?thesis using s0(2) normalize_ok by metis
qed

end
