(* ===== verification/Ranking_Verify.thy ===== *)
theory Ranking_Verify
  imports Ranking_Facts
begin

text \<open>
  Verification of a stored ranking: on snapshots that updates build, the comparison is
  equality of everything a reader can see; it depends on the order in which the runs were
  applied, which the tallies do not.
\<close>

section \<open>What the comparison decides\<close>

lemma tallied_keys:
  assumes "tallied e"
  shows "k \<in> fst ` set (ke_counts e) \<longleftrightarrow> 0 < count_of e k" "k \<notin> fst ` set (ke_counts e) \<Longrightarrow> count_of e k = 0"
proof -
  have pos: "0 < n" if "map_of (ke_counts e) k = Some n" for n
    using assms that by (auto simp: tallied_def dest: map_of_SomeD)
  have dom: "k \<in> fst ` set (ke_counts e) \<longleftrightarrow> map_of (ke_counts e) k \<noteq> None"
    by (simp add: map_of_eq_None_iff)
  show "k \<in> fst ` set (ke_counts e) \<longleftrightarrow> 0 < count_of e k"
    unfolding dom using pos by (cases "map_of (ke_counts e) k") (simp_all add: count_of_def)
  show "k \<notin> fst ` set (ke_counts e) \<Longrightarrow> count_of e k = 0"
    by (auto simp: count_of_def map_of_eq_None_iff [symmetric])
qed

lemma equal_placement_counts_iff:
  assumes "tallied e" "tallied f"
  shows "equal_placement_counts (ke_counts e) (ke_counts f) \<longleftrightarrow> (\<forall>k. count_of e k = count_of f k)"
proof
  assume eq: "equal_placement_counts (ke_counts e) (ke_counts f)"
  have d: "distinct (map fst (ke_counts e))" "distinct (map fst (ke_counts f))" using assms by (simp_all add: tallied_def)
  have val: "count_of f k = count_of e k" if k: "k \<in> fst ` set (ke_counts e)" for k
  proof -
    obtain n where n: "(k, n) \<in> set (ke_counts e)" using k by force
    then have "map_of (ke_counts e) k = Some n" using d(1) by simp
    moreover have "count_of f k = n" using eq n by (auto simp: equal_placement_counts_def list_all_iff count_of_def)
    ultimately show ?thesis by (simp add: count_of_def)
  qed
  have sub: "fst ` set (ke_counts e) \<subseteq> fst ` set (ke_counts f)"
  proof
    fix k assume k: "k \<in> fst ` set (ke_counts e)"
    then have "0 < count_of f k" using val [OF k] tallied_keys(1) [OF assms(1), of k] by simp
    then show "k \<in> fst ` set (ke_counts f)" using tallied_keys(1) [OF assms(2), of k] by simp
  qed
  have "card (fst ` set (ke_counts e)) = card (fst ` set (ke_counts f))"
    using eq distinct_card [OF d(1)] distinct_card [OF d(2)] by (simp add: equal_placement_counts_def)
  then have same: "fst ` set (ke_counts e) = fst ` set (ke_counts f)" using sub by (intro card_subset_eq) auto
  show "\<forall>k. count_of e k = count_of f k"
  proof
    fix k
    show "count_of e k = count_of f k"
      using val [of k] tallied_keys(2) [OF assms(1), of k] tallied_keys(2) [OF assms(2), of k] same
      by (cases "k \<in> fst ` set (ke_counts e)") simp_all
  qed
next
  assume eq: "\<forall>k. count_of e k = count_of f k"
  have d: "distinct (map fst (ke_counts e))" "distinct (map fst (ke_counts f))" using assms by (simp_all add: tallied_def)
  have "fst ` set (ke_counts e) = fst ` set (ke_counts f)"
    using eq by (intro set_eqI) (simp only: tallied_keys(1) [OF assms(1)] tallied_keys(1) [OF assms(2)])
  then have "length (ke_counts e) = length (ke_counts f)"
    using distinct_card [OF d(1)] distinct_card [OF d(2)] by simp
  moreover have "(case map_of (ke_counts f) k of None \<Rightarrow> 0 | Some x \<Rightarrow> x) = n" if "(k, n) \<in> set (ke_counts e)" for k n
  proof -
    have "map_of (ke_counts e) k = Some n" using d(1) that by simp
    then have "count_of e k = n" by (simp add: count_of_def)
    then show ?thesis using eq by (simp add: count_of_def)
  qed
  ultimately show "equal_placement_counts (ke_counts e) (ke_counts f)"
    by (auto simp: equal_placement_counts_def list_all_iff)
qed

text \<open>What a reader sees of an entry: everything, the counts as a function of the place.\<close>

definition visible_entry :: "ranking_entry \<Rightarrow> string \<times> string \<times> string \<times> int \<times> int \<times> (int \<Rightarrow> int) \<times> string \<times> string \<times> match_status" where
  "visible_entry e = (ke_bot e, ke_name e, ke_player e, ke_played e, ke_first e, count_of e, ke_run e, ke_match e, ke_status e)"

text \<open>
  Verification is sound and complete: it reports a stored snapshot as correct exactly when
  it and the recomputed one agree in scope, in the lists of applied runs and matches, in the
  last applied ones, and in every entry with all its counts.
\<close>

theorem verification_compares_everything:
  assumes "ranking_ok s" "ranking_ok t"
  shows "ranking_snapshots_equal s t \<longleftrightarrow>
    kn_scope s = kn_scope t \<and> kn_runs s = kn_runs t \<and> kn_matches s = kn_matches t \<and>
    kn_last_run s = kn_last_run t \<and> kn_last_match s = kn_last_match t \<and>
    map visible_entry (kn_entries s) = map visible_entry (kn_entries t)"
proof -
  have entry: "ranking_entries_equal e f \<longleftrightarrow> visible_entry e = visible_entry f"
    if "e \<in> set (kn_entries s)" "f \<in> set (kn_entries t)" for e f
  proof -
    have "normalize_ranking_entry e = e" "tallied e" "normalize_ranking_entry f = f" "tallied f"
      using assms that by (simp_all add: ranking_ok_def)
    then show ?thesis
      using equal_placement_counts_iff [of e f]
      by (auto simp: ranking_entries_equal_def visible_entry_def fun_eq_iff Let_def)
  qed
  have "list_all2 ranking_entries_equal (kn_entries s) (kn_entries t) \<longleftrightarrow>
      list_all2 (\<lambda>e f. visible_entry e = visible_entry f) (kn_entries s) (kn_entries t)"
    using entry by (auto simp: list_all2_conv_all_nth)
  also have "\<dots> \<longleftrightarrow> map visible_entry (kn_entries s) = map visible_entry (kn_entries t)"
    by (simp add: list_eq_iff_nth_eq list_all2_conv_all_nth) (metis nth_map)
  finally show ?thesis using assms
    by (auto simp: ranking_snapshots_equal_def normalize_ok ranking_ok_def Let_def)
qed

section \<open>Order\<close>

text \<open>
  Verification depends on the order of application, the tallies do not: two official runs of
  two matches of one scope give the same counts for every bot in either order, and yet each of
  the two snapshots is reported as wrong when the other one is recomputed.
\<close>

theorem verification_depends_on_order:
  assumes "normalize_ranking_scope (ku_scope u) = normalize_ranking_scope sc"
    "normalize_ranking_scope (ku_scope v) = normalize_ranking_scope sc"
    "\<forall>p \<in> set (ku_placements u @ ku_placements v). trim_space (kp_bot p) = kp_bot p \<and> 0 < kp_place p"
    "ku_run u \<noteq> ku_run v" "ku_match u \<noteq> ku_match v"
  shows "\<exists>s t. apply_updates (new_ranking_snapshot sc) [u, v] = Inr s \<and>
    apply_updates (new_ranking_snapshot sc) [v, u] = Inr t \<and>
    (\<forall>b. played s b = played t b \<and> (\<forall>k. placed s b k = placed t b k)) \<and>
    \<not> ranking_snapshots_equal s t"
proof -
  have us: "\<forall>x \<in> set xs. normalize_ranking_scope (ku_scope x) = kn_scope (new_ranking_snapshot sc) \<and>
      (\<forall>p \<in> set (ku_placements x). placement_ok p)" if "set xs \<subseteq> {u, v}" for xs
    using assms(1-3) that by (auto simp: new_ranking_snapshot_def placement_ok_def)
  have both: "set [u, v] \<subseteq> {u, v}" "set [v, u] \<subseteq> {u, v}" by auto
  obtain s where s: "apply_updates (new_ranking_snapshot sc) [u, v] = Inr s" "kn_runs s = [ku_run u, ku_run v]"
    "\<forall>b. played s b = plays_of (ku_placements u @ ku_placements v) b \<and>
      (\<forall>k. placed s b k = places_of (ku_placements u @ ku_placements v) b k)"
    using apply_updates_tally [OF ranking_ok_new us [OF both(1)]] assms(4,5)
    by (auto simp: new_ranking_snapshot_def all_placements_def by_bot_def played_in_def placed_in_def)
  obtain t where t: "apply_updates (new_ranking_snapshot sc) [v, u] = Inr t" "kn_runs t = [ku_run v, ku_run u]"
    "\<forall>b. played t b = plays_of (ku_placements v @ ku_placements u) b \<and>
      (\<forall>k. placed t b k = places_of (ku_placements v @ ku_placements u) b k)"
    using apply_updates_tally [OF ranking_ok_new us [OF both(2)]] assms(4,5)
    by (auto simp: new_ranking_snapshot_def all_placements_def by_bot_def played_in_def placed_in_def)
  have "kn_runs (normalize_ranking_snapshot x) = kn_runs x" for x by (simp add: normalize_ranking_snapshot_def)
  then have "\<not> ranking_snapshots_equal s t" using s(2) t(2) assms(4) by (simp add: ranking_snapshots_equal_def Let_def)
  with s t show ?thesis by auto
qed

section \<open>Witnesses\<close>

definition sample_scope :: ranking_scope where
  "sample_scope = \<lparr>ks_game = ''janken'', ks_version = ''2.1.0'', ks_ruleset = ''regular''\<rparr>"

definition sample_update :: "string \<Rightarrow> string \<Rightarrow> int \<Rightarrow> int \<Rightarrow> ranking_update" where
  "sample_update r match_id i j = \<lparr>ku_scope = sample_scope, ku_run = r, ku_match = match_id,
     ku_status = StatusCompleted,
     ku_placements = [\<lparr>kp_bot = ''b1'', kp_name = ''one'', kp_player = ''p1'', kp_place = i\<rparr>,
                      \<lparr>kp_bot = ''b2'', kp_name = ''two'', kp_player = ''p2'', kp_place = j\<rparr>]\<rparr>"

lemma sample_bots_trimmed: "trim_space ''b1'' = ''b1''" "trim_space ''b2'' = ''b2''"
  by code_simp+

theorem ranking_is_tally_witness:
  "\<exists>s. apply_updates (new_ranking_snapshot sample_scope)
      [sample_update ''r1'' ''m1'' 1 2, sample_update ''r2'' ''m1'' 2 1, sample_update ''r3'' ''m3'' 1 1] = Inr s \<and>
    kn_runs s = [''r1'', ''r3''] \<and> (\<forall>e \<in> set (kn_entries s). ke_bot e = ''b1'' \<longrightarrow> ke_first e = 2)"
  using ranking_is_tally [of "[sample_update ''r1'' ''m1'' 1 2, sample_update ''r2'' ''m1'' 2 1, sample_update ''r3'' ''m3'' 1 1]" sample_scope]
  by (auto simp: sample_update_def sample_bots_trimmed all_placements_def)

theorem verification_depends_on_order_witness:
  "\<exists>s t. apply_updates (new_ranking_snapshot sample_scope) [sample_update ''r1'' ''m1'' 1 2, sample_update ''r2'' ''m2'' 2 1] = Inr s \<and>
    apply_updates (new_ranking_snapshot sample_scope) [sample_update ''r2'' ''m2'' 2 1, sample_update ''r1'' ''m1'' 1 2] = Inr t \<and>
    played s ''b1'' = played t ''b1'' \<and> \<not> ranking_snapshots_equal s t"
  using verification_depends_on_order [of "sample_update ''r1'' ''m1'' 1 2" sample_scope "sample_update ''r2'' ''m2'' 2 1"]
  by (auto simp: sample_update_def sample_bots_trimmed)

theorem verification_compares_everything_witness:
  "ranking_snapshots_equal (new_ranking_snapshot sample_scope) (new_ranking_snapshot sample_scope) \<and>
   \<not> ranking_snapshots_equal (new_ranking_snapshot sample_scope)
       (new_ranking_snapshot (sample_scope\<lparr>ks_game := ''echo''\<rparr>))"
proof -
  have "trim_space ''janken'' \<noteq> trim_space ''echo''" by code_simp
  then show ?thesis
    unfolding verification_compares_everything [OF ranking_ok_new ranking_ok_new]
    by (auto simp: new_ranking_snapshot_def normalize_ranking_scope_def sample_scope_def)
qed

text \<open>A queue with one official completed run and its summary.\<close>

definition sample_summary_json :: json where
  "sample_summary_json = JObj
     [(''match_id'', JStr ''match-1''), (''game_id'', JStr ''janken''), (''game_version'', JStr ''2.1.0''),
      (''ruleset_version'', JStr ''regular''), (''status'', JStr ''completed''), (''turn'', JInt 5),
      (''placements'', JArr [JObj [(''player_id'', JStr ''p1''), (''place'', JInt 1)],
                             JObj [(''player_id'', JStr ''p2''), (''place'', JInt 2)]])]"

definition sample_terminal :: terminal_artifacts where
  "sample_terminal = \<lparr>ta_match_dir = ''d'', ta_record_path = ''r'', ta_summary_path = ''s'', ta_stderr_paths = [],
     ta_status = StatusCompleted, ta_error = [], ta_replay_path = [], ta_replay_format = [],
     ta_replay_version = [], ta_replay_size = 0, ta_replay_digest = []\<rparr>"

definition sample_completed :: queue_record where
  "sample_completed = \<lparr>qr_submission = sample_submission\<lparr>ms_official := True\<rparr>, qr_state = StateCompleted,
     qr_completed_at = Some 7, qr_lease = None, qr_terminal = Some sample_terminal\<rparr>"

definition sample_ranking_env :: "unit ranking_env" where
  "sample_ranking_env = \<lparr>kv_get = (\<lambda>sc w. Inl SnapshotNotFound), kv_put = (\<lambda>s w. (Inr [], w)),
     kv_list = Some (\<lambda>w. Some [sample_completed]), kv_read = (\<lambda>w p. ReadOk (RawJson sample_summary_json))\<rparr>"

lemma sample_trimmed:
  "trim_space ''janken'' = ''janken''" "trim_space ''2.1.0'' = ''2.1.0''" "trim_space ''regular'' = ''regular''"
  "\<not> blank ''b1''" "\<not> blank ''b2''" "\<not> blank ''s''"
  by code_simp+

definition sample_summary :: result_summary where
  "sample_summary = \<lparr>sy_match = ''match-1'', sy_game = ''janken'', sy_version = ''2.1.0'', sy_ruleset = ''regular'',
     sy_status = StatusCompleted, sy_turn = 5,
     sy_placements = [\<lparr>pc_player = ''p1'', pc_place = 1\<rparr>, \<lparr>pc_player = ''p2'', pc_place = 2\<rparr>],
     sy_paths = no_paths, sy_error = []\<rparr>"

lemma sample_summary_read:
  "read_result_summary (kv_read sample_ranking_env ()) ''s'' = Inr (Some sample_summary)"
proof -
  have p: "dec_placement (JObj [(''player_id'', JStr p), (''place'', JInt i)]) zero_placement =
      Some \<lparr>pc_player = p, pc_place = i\<rparr>" if "int64_ok i" for p i
    using that by (simp add: dec_placement_def dec_defs upper_def zero_placement_def)
  have "int64_ok 1" "int64_ok 2" "int64_ok 5" by (simp_all add: int64_ok_def)
  then show ?thesis
    by (simp add: read_result_summary_def sample_trimmed sample_ranking_env_def sample_summary_json_def
        dec_result_summary_def dec_defs upper_def zero_summary_def p dec_list_def dec_status_def str_status_def
        sample_summary_def)
qed

lemma sample_update_built:
  "build_ranking_update (sample_submission\<lparr>ms_official := True\<rparr>) sample_summary =
     Inr \<lparr>ku_scope = sample_scope, ku_run = ''run-1'', ku_match = ''match-1'', ku_status = StatusCompleted,
          ku_placements = [\<lparr>kp_bot = ''b1'', kp_name = [], kp_player = ''p1'', kp_place = 1\<rparr>,
                           \<lparr>kp_bot = ''b2'', kp_name = [], kp_player = ''p2'', kp_place = 2\<rparr>]\<rparr>"
  by (simp add: build_ranking_update_def scope_from_summary_def normalize_ranking_scope_def sample_summary_def
      sample_trimmed validate_ranking_scope_def sample_submission_def sample_not_blank check_placement_def
      player_by_id_def put_all_def sample_scope_def)

theorem recompute_tallies_official_runs_witness:
  "\<exists>s. ranking_recompute sample_ranking_env sample_scope () = Inr s \<and> kn_runs s = [''run-1''] \<and>
    placed s ''b1'' 1 = 1"
proof -
  let ?u = "\<lparr>ku_scope = sample_scope, ku_run = ''run-1'', ku_match = ''match-1'', ku_status = StatusCompleted,
          ku_placements = [\<lparr>kp_bot = ''b1'', kp_name = [], kp_player = ''p1'', kp_place = 1\<rparr>,
                           \<lparr>kp_bot = ''b2'', kp_name = [], kp_player = ''p2'', kp_place = 2\<rparr>]\<rparr>"
  have sc: "normalize_ranking_scope sample_scope = sample_scope"
    by (simp add: normalize_ranking_scope_def sample_scope_def sample_trimmed)
  have scs: "scope_from_summary sample_summary = sample_scope"
    by (simp add: scope_from_summary_def normalize_ranking_scope_def sample_summary_def sample_scope_def sample_trimmed)
  have ident: "has_bot_ranking_identity (sample_submission\<lparr>ms_official := True\<rparr>)"
    by (simp add: has_bot_ranking_identity_def sample_submission_def sample_trimmed)
  have step: "recompute_step (kv_read sample_ranking_env ()) sample_scope sample_completed s = apply_ranking_update s ?u" for s
    using sample_summary_read sample_update_built
    by (simp add: recompute_step_def sample_completed_def sample_terminal_def ident scs sc sample_trimmed)
  have counts: "counts_for (kv_read sample_ranking_env ()) sample_scope sample_completed = Some ?u"
    using sample_summary_read sample_update_built
    by (simp add: counts_for_def sample_completed_def sample_terminal_def ident scs)
  have list: "kv_list sample_ranking_env = Some (\<lambda>w. Some [sample_completed])" by (simp add: sample_ranking_env_def)
  have valid: "validate_ranking_scope sample_scope = None"
    by (simp add: validate_ranking_scope_def sample_scope_def)
  have place: "\<forall>p \<in> set (ku_placements ?u). placement_ok p" by (simp add: placement_ok_def sample_bots_trimmed)
  have scopes: "normalize_ranking_scope (ku_scope ?u) = kn_scope (new_ranking_snapshot sample_scope)"
    by (simp add: new_ranking_snapshot_def sc)
  obtain s1 where "apply_ranking_update (new_ranking_snapshot sample_scope) ?u = Inr s1"
  proof -
    have "\<exists>s'. apply_updates (new_ranking_snapshot sample_scope) [?u] = Inr s'"
      using apply_updates_tally [OF ranking_ok_new, of "[?u]" sample_scope] place scopes by auto
    then obtain s' where "apply_updates (new_ranking_snapshot sample_scope) [?u] = Inr s'" ..
    then have "apply_ranking_update (new_ranking_snapshot sample_scope) ?u = Inr s'"
      by (cases "apply_ranking_update (new_ranking_snapshot sample_scope) ?u") (simp_all add: apply_updates_def)
    then show thesis by (rule that)
  qed
  then obtain s where s: "ranking_recompute sample_ranking_env sample_scope () = Inr s"
    by (simp add: ranking_recompute_def Let_def sc valid list step)
  have bots: "\<forall>r \<in> set [sample_completed]. \<forall>p \<in> set (ms_players (qr_submission r)). trim_space (sp_bot p) = sp_bot p"
    by (simp add: sample_completed_def sample_submission_def sample_bots_trimmed)
  from recompute_tallies_official_runs [OF s list refl bots] s show ?thesis
    by (auto simp: sc List.map_filter_simps counts all_placements_def)
qed

end
