(* ===== verification/Queue_Props.thy ===== *)
theory Queue_Props
  imports Queue
begin

text \<open>
  Properties of the queue store: the invariant of its reachable states, the refinement of an
  abstract lifecycle of runs with a first-in first-out list of pending ones, leases and their
  recovery.
\<close>

section \<open>What each operation does to a record\<close>

lemma lookup_put [simp]: "lookup (s\<lparr>qs_records := put k r (qs_records s)\<rparr>) = (lookup s)(k \<mapsto> r)"
  by (simp add: lookup_def)

lemma lookup_update [simp]:
  "lookup (s\<lparr>qs_all := a\<rparr>) = lookup s" "lookup (s\<lparr>qs_order := a\<rparr>) = lookup s"
  "lookup (s\<lparr>qs_records := recs\<rparr>) = map_of recs"
  by (simp_all add: lookup_def)

lemma lookup_mem: "lookup s run = Some r \<Longrightarrow> (run, r) \<in> set (qs_records s)"
  by (simp add: lookup_def map_of_SomeD)

lemma dom_lookup: "dom (lookup s) = fst ` set (qs_records s)"
  by (simp add: lookup_def dom_map_of_conv_image_fst)

lemma enqueue_cases:
  obtains e where "enqueue sub s = (Inl e, s)" "blank (ms_run sub) \<or> lookup s (ms_run sub) \<noteq> None"
  | r where "enqueue sub s = (Inr r, s\<lparr>qs_records := put (ms_run sub) r (qs_records s),
        qs_all := qs_all s @ [ms_run sub], qs_order := qs_order s @ [ms_run sub]\<rparr>)"
      "\<not> blank (ms_run sub)" "lookup s (ms_run sub) = None"
      "r = \<lparr>qr_submission = sub, qr_state = StateQueued, qr_completed_at = None, qr_lease = None, qr_terminal = None\<rparr>"
proof (cases "blank (ms_run sub) \<or> lookup s (ms_run sub) \<noteq> None")
  case True
  then have "\<exists>e. enqueue sub s = (Inl e, s)" by (auto simp: enqueue_def lookup_def)
  with True that(1) show ?thesis by blast
next
  case False
  then show ?thesis using that(2) by (simp add: enqueue_def lookup_def Let_def)
qed

definition leased :: "string \<Rightarrow> int \<Rightarrow> queue_record \<Rightarrow> queue_record" where
  "leased worker now r = r\<lparr>qr_state := StateLeased, qr_lease := Some (new_worker_lease worker now)\<rparr>"

lemma leased_sel [simp]:
  "qr_submission (leased w now r) = qr_submission r" "qr_state (leased w now r) = StateLeased"
  "qr_completed_at (leased w now r) = qr_completed_at r" "qr_lease (leased w now r) = Some (new_worker_lease w now)"
  by (simp_all add: leased_def)

lemma claim_next_head:
  assumes "\<forall>run \<in> set order. \<exists>r. map_of recs run = Some r \<and> qr_state r = StateQueued"
  shows "claim_next worker now order recs =
    (case order of [] \<Rightarrow> (Inl NoQueuedSubmission, [], recs)
     | run # rest \<Rightarrow> (let r = leased worker now (the (map_of recs run)) in (Inr r, rest, put run r recs)))"
  using assms by (cases order) (auto simp: leased_def Let_def)

lemma queue_okD:
  assumes "queue_ok s"
  shows "distinct (map fst (qs_records s))" "distinct (qs_all s)" "set (qs_all s) = dom (lookup s)"
    "distinct (qs_order s)"
    "run \<in> set (qs_order s) \<longleftrightarrow> (\<exists>r. lookup s run = Some r \<and> qr_state r = StateQueued)"
    "lookup s run = Some r \<Longrightarrow> record_ok run r"
  using assms by (simp_all add: queue_ok_def)

lemma claim_cases:
  assumes "queue_ok s"
  obtains e where "claim worker now s = (Inl e, s)" "e = WorkerIDRequired \<and> blank worker \<or>
      e = NoQueuedSubmission \<and> qs_order s = []"
  | run rest r where "\<not> blank worker" "qs_order s = run # rest" "lookup s run = Some r" "qr_state r = StateQueued"
      "claim worker now s = (Inr (leased worker now r),
         s\<lparr>qs_order := rest, qs_records := put run (leased worker now r) (qs_records s)\<rparr>)"
proof (cases "blank worker")
  case True
  then show ?thesis using that(1) by (simp add: claim_def)
next
  case False
  have all: "\<forall>run \<in> set (qs_order s). \<exists>r. map_of (qs_records s) run = Some r \<and> qr_state r = StateQueued"
    using queue_okD(5) [OF assms] by (simp add: lookup_def)
  show ?thesis
  proof (cases "qs_order s")
    case Nil
    then have "claim worker now s = (Inl NoQueuedSubmission, s)" using False by (simp add: claim_def)
    with Nil show ?thesis using that(1) by blast
  next
    case (Cons run rest)
    then obtain r where r: "map_of (qs_records s) run = Some r" "qr_state r = StateQueued" using all by auto
    have "claim worker now s = (Inr (leased worker now r),
        s\<lparr>qs_order := rest, qs_records := put run (leased worker now r) (qs_records s)\<rparr>)"
      using False Cons r by (simp add: claim_def leased_def Let_def)
    with Cons r show ?thesis using that(2) False by (simp add: lookup_def)
  qed
qed

lemma heartbeat_cases:
  obtains e where "heartbeat run worker now s = (Some e, s)"
  | r l where "lookup s run = Some r" "qr_lease r = Some l" "wl_worker l = worker"
      "heartbeat run worker now s =
        (None, s\<lparr>qs_records := put run (r\<lparr>qr_lease := Some (new_worker_lease worker now)\<rparr>) (qs_records s)\<rparr>)"
proof (cases "\<exists>r l. lookup s run = Some r \<and> qr_lease r = Some l \<and> wl_worker l = worker")
  case True
  then show ?thesis using that(2) by (auto simp: heartbeat_def lookup_def)
next
  case False
  then have "\<exists>e. heartbeat run worker now s = (Some e, s)"
    by (auto simp: heartbeat_def lookup_def split: option.split)
  then show ?thesis using that(1) by blast
qed

lemma update_Some:
  assumes "lookup s (qr_run next) = Some current"
    and "qr_state current = qr_state next \<or> edge (qr_state current) (qr_state next)"
  shows "update next now s = (None, s\<lparr>qs_records := put (qr_run next)
         (next\<lparr>qr_completed_at := completion_time current next now\<rparr>) (qs_records s)\<rparr>)"
  using assms by (auto simp: update_def lookup_def validate_transition_edge split: option.split)

lemma update_cases:
  obtains e where "update next now s = (Some e, s)"
  | current where "lookup s (qr_run next) = Some current"
      "qr_state current = qr_state next \<or> edge (qr_state current) (qr_state next)"
      "update next now s = (None, s\<lparr>qs_records := put (qr_run next)
         (next\<lparr>qr_completed_at := completion_time current next now\<rparr>) (qs_records s)\<rparr>)"
proof (cases "\<exists>current. lookup s (qr_run next) = Some current \<and>
    (qr_state current = qr_state next \<or> edge (qr_state current) (qr_state next))")
  case True
  then show ?thesis using that(2) update_Some by blast
next
  case False
  then have "\<exists>e. update next now s = (Some e, s)"
    by (cases "lookup s (qr_run next)")
      (auto simp: update_def lookup_def validate_transition_edge [symmetric] split: option.split)
  then show ?thesis using that(1) by blast
qed

lemma cancel_cases:
  obtains e where "cancel_queued run s = (Inl e, s)"
    "lookup s run = None \<or> (\<exists>r. lookup s run = Some r \<and> qr_state r \<noteq> StateQueued)"
  | r where "lookup s run = Some r" "qr_state r = StateQueued"
      "cancel_queued run s = (Inr (r\<lparr>qr_state := StateCanceled, qr_lease := None, qr_terminal := None\<rparr>),
         s\<lparr>qs_records := put run (r\<lparr>qr_state := StateCanceled, qr_lease := None, qr_terminal := None\<rparr>) (qs_records s),
           qs_order := filter (\<lambda>id. id \<noteq> run) (qs_order s)\<rparr>)"
proof (cases "\<exists>r. lookup s run = Some r \<and> qr_state r = StateQueued")
  case True
  then obtain r where r: "lookup s run = Some r" "qr_state r = StateQueued" by blast
  show ?thesis
    by (rule that(2) [OF r])
      (use r in \<open>simp add: cancel_queued_def lookup_def validate_transition_def remove_from_order_def Let_def\<close>)
next
  case False
  then have "\<exists>e. cancel_queued run s = (Inl e, s)"
    by (auto simp: cancel_queued_def lookup_def split: option.split)
  with False that(1) show ?thesis by (cases "lookup s run") auto
qed

text \<open>Promotion rewrites the official flag of the runs of one match.\<close>

definition promoted :: "string \<Rightarrow> string \<Rightarrow> string \<Rightarrow> queue_record \<Rightarrow> queue_record" where
  "promoted match_id run key r = (if qr_match r \<noteq> match_id then r else set_official (key = run) r)"

lemma promoted_sel [simp]:
  "qr_run (promoted m run key r) = qr_run r" "qr_match (promoted m run key r) = qr_match r"
  "qr_state (promoted m run key r) = qr_state r" "qr_completed_at (promoted m run key r) = qr_completed_at r"
  "qr_lease (promoted m run key r) = qr_lease r" "qr_terminal (promoted m run key r) = qr_terminal r"
  "qr_official (promoted m run key r) = (if qr_match r = m then key = run else qr_official r)"
  by (simp_all add: promoted_def set_official_def)

lemma map_of_map_keyed: "map_of (map (\<lambda>(k, v). (k, f k v)) xs) k = map_option (f k) (map_of xs k)"
  by (induction xs) auto

lemma promote_cases:
  obtains e where "promote run s = (Inl e, s)"
    "\<nexists>r. lookup s run = Some r \<and> qr_state r = StateCompleted"
  | target s' where "lookup s run = Some target" "qr_state target = StateCompleted"
      "promote run s = (Inr (promoted (qr_match target) run run target), s')"
      "s' = s\<lparr>qs_records := map (\<lambda>(id, r). (id, promoted (qr_match target) run id r)) (qs_records s)\<rparr>"
proof (cases "\<exists>r. lookup s run = Some r \<and> qr_state r = StateCompleted")
  case False
  then have "\<exists>e. promote run s = (Inl e, s)" by (auto simp: promote_def lookup_def split: option.split)
  with False that(1) show ?thesis by blast
next
  case True
  then obtain target where t: "map_of (qs_records s) run = Some target" "qr_state target = StateCompleted"
    by (auto simp: lookup_def)
  let ?recs = "map (\<lambda>(id, r). (id, promoted (qr_match target) run id r)) (qs_records s)"
  have "promote run s = (Inr (promoted (qr_match target) run run target), s\<lparr>qs_records := ?recs\<rparr>)"
    using t map_of_map_keyed [of "promoted (qr_match target) run" "qs_records s" run]
    by (simp add: promote_def promoted_def Let_def)
  with t that(2) show ?thesis by (simp add: lookup_def)
qed

lemma lookup_promote:
  "lookup (s\<lparr>qs_records := map (\<lambda>(id, r). (id, f id r)) (qs_records s)\<rparr>) = (\<lambda>id. map_option (f id) (lookup s id))"
  by (auto simp: lookup_def map_of_map_keyed fun_eq_iff)

text \<open>Recovery, record by record.\<close>

definition requeued :: "queue_record \<Rightarrow> queue_record" where
  "requeued r = r\<lparr>qr_state := StateQueued, qr_lease := None\<rparr>"

definition expired :: "queue_store \<Rightarrow> int \<Rightarrow> string \<Rightarrow> bool" where
  "expired s now run \<longleftrightarrow> (\<exists>r. lookup s run = Some r \<and> is_recoverable_lease r now)"

lemma recoverable_in_flight: "is_recoverable_lease r now \<Longrightarrow> in_flight (qr_state r)"
  by (auto simp: is_recoverable_lease_def in_flight_def split: option.splits if_splits)

lemma recoverable_alt:
  "is_recoverable_lease r now \<longleftrightarrow> in_flight (qr_state r) \<and> (\<exists>l. qr_lease r = Some l \<and> wl_deadline l \<le> now)"
  by (auto simp: is_recoverable_lease_def in_flight_def split: option.splits)

lemma recover_fold:
  assumes "distinct visit"
  shows "fst (fold (recover_one now) visit (n, s)) = n + length (filter (expired s now) visit) \<and>
    qs_all (snd (fold (recover_one now) visit (n, s))) = qs_all s \<and>
    qs_order (snd (fold (recover_one now) visit (n, s))) = qs_order s @ filter (expired s now) visit \<and>
    (\<forall>run. lookup (snd (fold (recover_one now) visit (n, s))) run =
       (if run \<in> set visit \<and> expired s now run then map_option requeued (lookup s run) else lookup s run)) \<and>
    map fst (qs_records (snd (fold (recover_one now) visit (n, s)))) = map fst (qs_records s)"
  using assms
proof (induction visit arbitrary: n s)
  case (Cons run visit)
  show ?case
  proof (cases "expired s now run")
    case False
    then have "recover_one now run (n, s) = (n, s)"
      by (auto simp: recover_one_def expired_def lookup_def split: option.split)
    with Cons False show ?thesis by simp
  next
    case True
    then obtain r where r: "lookup s run = Some r" "is_recoverable_lease r now" by (auto simp: expired_def)
    let ?s = "s\<lparr>qs_records := put run (requeued r) (qs_records s), qs_order := qs_order s @ [run]\<rparr>"
    have one: "recover_one now run (n, s) = (Suc n, ?s)"
      using r by (simp add: recover_one_def requeued_def lookup_def)
    have look: "lookup ?s = (lookup s)(run \<mapsto> requeued r)" by (simp add: lookup_def)
    have other: "expired ?s now x = expired s now x" if "x \<noteq> run" for x using that by (simp add: expired_def look)
    then have fl: "filter (expired ?s now) visit = filter (expired s now) visit"
      using Cons.prems by (intro filter_cong refl other) auto
    have keys: "map fst (qs_records ?s) = map fst (qs_records s)"
      using r(1) by (simp add: lookup_def update_keys) (metis domI dom_map_of_conv_image_fst)
    have out: "\<not> expired ?s now run" by (simp add: expired_def look recoverable_alt requeued_def in_flight_def)
    show ?thesis
      using Cons.IH [of "Suc n" ?s] Cons.prems True one fl keys r(1) other out
      by (auto simp: look)
  qed
qed (simp add: lookup_def)

lemma recover_expired_spec:
  assumes "distinct visit" "set visit = fst ` set (qs_records s)"
  shows "fst (recover_expired visit now s) = card {run. expired s now run} \<and>
    qs_all (snd (recover_expired visit now s)) = qs_all s \<and>
    qs_order (snd (recover_expired visit now s)) = qs_order s @ filter (expired s now) visit \<and>
    lookup (snd (recover_expired visit now s)) =
      (\<lambda>run. if expired s now run then map_option requeued (lookup s run) else lookup s run) \<and>
    map fst (qs_records (snd (recover_expired visit now s))) = map fst (qs_records s)"
proof -
  have "set (filter (expired s now) visit) = {run. expired s now run}"
    using assms(2) dom_lookup [of s] by (auto simp: expired_def)
  moreover have "card (set (filter (expired s now) visit)) = length (filter (expired s now) visit)"
    by (rule distinct_card) (use assms(1) in simp)
  moreover have "expired s now run \<Longrightarrow> run \<in> set visit" for run
    using assms(2) dom_lookup [of s] by (auto simp: expired_def)
  ultimately show ?thesis
    using recover_fold [OF assms(1), of now 0 s] by (auto simp: recover_expired_def fun_eq_iff)
qed

section \<open>The invariant\<close>

lemma queue_okI:
  assumes "distinct (map fst (qs_records s))" "distinct (qs_all s)" "set (qs_all s) = dom (lookup s)"
    "distinct (qs_order s)"
    "\<And>run. run \<in> set (qs_order s) \<longleftrightarrow> (\<exists>r. lookup s run = Some r \<and> qr_state r = StateQueued)"
    "\<And>run r. lookup s run = Some r \<Longrightarrow> record_ok run r"
  shows "queue_ok s"
  using assms by (simp add: queue_ok_def)

lemma queue_ok_new [go_inv]: "queue_ok new_queue_store"
  by (simp add: queue_ok_def new_queue_store_def lookup_def)

lemma enqueue_inv [go_inv]:
  assumes "queue_ok s"
  shows "queue_ok (snd (enqueue sub s))"
proof (cases rule: enqueue_cases [of sub s])
  case (2 r)
  note ok = queue_okD [OF assms]
  have fresh: "ms_run sub \<notin> set (qs_order s)" "ms_run sub \<notin> set (qs_all s)"
    using ok(3,5) 2(3) by auto
  show ?thesis unfolding 2(1) snd_conv
  proof (rule queue_okI, goal_cases)
    case (5 run)
    show ?case using ok(5) [of run] 2(3,4) by (auto simp: lookup_def)
  next
    case (6 run r')
    then show ?case using ok(6) [of run r'] 2(2,4) by (auto simp: lookup_def record_ok_def split: if_splits)
  qed (use ok(1-4) fresh in \<open>auto simp: lookup_def\<close>)
qed (simp add: assms)

text \<open>
  Replacing the record of a known run keeps the invariant when the new record is well formed
  and the order follows its state.
\<close>

lemma replace_inv:
  assumes "queue_ok s" "lookup s run = Some r0" "record_ok run r"
    and "distinct order" "\<And>x. x \<in> set order \<longleftrightarrow> (if x = run then qr_state r = StateQueued else x \<in> set (qs_order s))"
  shows "queue_ok (s\<lparr>qs_order := order, qs_records := put run r (qs_records s)\<rparr>)"
proof (rule queue_okI, goal_cases)
  case (5 x)
  show ?case using assms(5) [of x] queue_okD(5) [OF assms(1), of x] by (auto simp: lookup_def)
next
  case (6 x y)
  then show ?case using queue_okD(6) [OF assms(1)] assms(3) by (auto simp: lookup_def split: if_splits)
qed (use queue_okD(1-3) [OF assms(1)] assms(2,4) in \<open>auto simp: lookup_def\<close>)

lemma claim_inv [go_inv]:
  assumes "queue_ok s"
  shows "queue_ok (snd (claim worker now s))"
proof (cases rule: claim_cases [OF assms, of worker now])
  case (2 run rest r)
  have "queue_ok (s\<lparr>qs_order := rest, qs_records := put run (leased worker now r) (qs_records s)\<rparr>)"
    using queue_okD(4,6) [OF assms] 2(2-4)
    by (intro replace_inv [OF assms 2(3)]) (auto simp: record_ok_def)
  then show ?thesis using 2(5) by simp
qed (use assms in simp)

lemma same_order: "s\<lparr>qs_records := recs\<rparr> = s\<lparr>qs_order := qs_order s, qs_records := recs\<rparr>"
  by simp

lemma heartbeat_inv [go_inv]:
  assumes "queue_ok s"
  shows "queue_ok (snd (heartbeat run worker now s))"
proof (cases rule: heartbeat_cases [of run worker now s])
  case (2 r l)
  have "qr_state r \<noteq> StateQueued" using queue_okD(6) [OF assms 2(1)] 2(2) by (auto simp: record_ok_def)
  then show ?thesis unfolding 2(4) snd_conv
    using queue_okD(4,6) [OF assms] 2(1) queue_okD(5) [OF assms]
    by (subst same_order, intro replace_inv [OF assms 2(1)]) (auto simp: record_ok_def)
qed (use assms in simp)

lemma update_inv [go_inv]:
  assumes "queue_ok s" "worker_state (qr_state next)"
  shows "queue_ok (snd (update next now s))"
proof (cases rule: update_cases [of "next" now s])
  case (2 current)
  have nq: "qr_state next \<noteq> StateQueued" "qr_state current \<noteq> StateQueued"
    using assms(2) 2(2) by (auto simp: worker_state_def edge.simps in_flight_def)
  have c: "record_ok (qr_run next) current" using queue_okD(6) [OF assms(1) 2(1)] .
  have "(completion_time current next now \<noteq> None) = (qr_state next = StateCompleted)"
    using c 2(2) by (auto simp: completion_time_def record_ok_def edge.simps in_flight_def split: option.split)
  then have r: "record_ok (qr_run next) (next\<lparr>qr_completed_at := completion_time current next now\<rparr>)"
    using c nq by (auto simp: record_ok_def)
  have "qr_run next \<notin> set (qs_order s)" using queue_okD(5) [OF assms(1)] 2(1) nq(2) by auto
  then show ?thesis unfolding 2(3) snd_conv
    using queue_okD(4) [OF assms(1)] r nq(1)
    by (subst same_order, intro replace_inv [OF assms(1) 2(1)]) auto
qed (use assms(1) in simp)

lemma promote_inv [go_inv]:
  assumes "queue_ok s"
  shows "queue_ok (snd (promote run s))"
proof (cases rule: promote_cases [of run s])
  case (2 target s')
  let ?f = "promoted (qr_match target) run"
  have look: "lookup s' = (\<lambda>id. map_option (?f id) (lookup s id))" unfolding 2(4) by (rule lookup_promote)
  have frame: "qs_all s' = qs_all s" "qs_order s' = qs_order s" by (simp_all add: 2(4))
  have "queue_ok s'"
  proof (rule queue_okI, goal_cases)
    case 1
    show ?case using queue_okD(1) [OF assms] by (simp add: 2(4) case_prod_unfold comp_def)
  next
    case 3
    show ?case using queue_okD(3) [OF assms] by (auto simp: look frame)
  next
    case (5 x)
    show ?case using queue_okD(5) [OF assms, of x] by (auto simp: look frame)
  next
    case (6 x y)
    then obtain z where z: "lookup s x = Some z" "y = promoted (qr_match target) run x z" by (auto simp: look)
    from queue_okD(6) [OF assms z(1)] show ?case unfolding z(2) record_ok_def by simp
  qed (use queue_okD(2,4) [OF assms] frame in simp_all)
  then show ?thesis using 2(3) by simp
qed (use assms in simp)

lemma cancel_inv [go_inv]:
  assumes "queue_ok s"
  shows "queue_ok (snd (cancel_queued run s))"
proof (cases rule: cancel_cases [of run s])
  case (2 r)
  have swap: "s\<lparr>qs_records := a, qs_order := b\<rparr> = s\<lparr>qs_order := b, qs_records := a\<rparr>" for a b by simp
  show ?thesis unfolding 2(3) snd_conv swap
    using queue_okD(4) [OF assms] queue_okD(6) [OF assms 2(1)] 2(2)
    by (intro replace_inv [OF assms 2(1)]) (auto simp: record_ok_def)
qed (use assms in simp)

lemma recover_inv [go_inv]:
  assumes "queue_ok s" "distinct visit" "set visit = fst ` set (qs_records s)"
  shows "queue_ok (snd (recover_expired visit now s))"
proof -
  let ?s = "snd (recover_expired visit now s)"
  note sp = recover_expired_spec [OF assms(2,3), of now]
  have look: "lookup ?s = (\<lambda>run. if expired s now run then map_option requeued (lookup s run) else lookup s run)"
    using sp by simp
  have inq: "run \<in> set (qs_order ?s) \<longleftrightarrow> run \<in> set (qs_order s) \<or> expired s now run" for run
    using sp assms(3) dom_lookup [of s] by (auto simp: expired_def)
  have nq: "expired s now run \<Longrightarrow> run \<notin> set (qs_order s)" for run
    using queue_okD(5) [OF assms(1), of run] by (auto simp: expired_def recoverable_alt in_flight_def)
  show ?thesis
  proof (rule queue_okI, goal_cases)
    case 1
    show ?case using sp queue_okD(1) [OF assms(1)] by simp
  next
    case 2
    show ?case using sp queue_okD(2) [OF assms(1)] by simp
  next
    case 3
    show ?case using sp queue_okD(3) [OF assms(1)] by (auto simp: look expired_def)
  next
    case 4
    show ?case using sp queue_okD(4) [OF assms(1)] assms(2) nq by auto
  next
    case (5 run)
    show ?case unfolding inq look using queue_okD(5) [OF assms(1), of run] nq [of run]
      by (auto simp: expired_def requeued_def)
  next
    case (6 run r)
    then show ?case using queue_okD(6) [OF assms(1), of run]
      by (auto simp: look expired_def requeued_def record_ok_def recoverable_alt in_flight_def split: if_splits)
  qed
qed

lemma queue_step_inv: "queue_step s s' \<Longrightarrow> queue_ok s \<Longrightarrow> queue_ok s'"
  by (induction rule: queue_step.induct) (auto intro: go_inv)

lemma queue_reach_inv: "queue_reach s s' \<Longrightarrow> queue_ok s \<Longrightarrow> queue_ok s'"
  by (induction rule: queue_reach.induct) (auto intro: queue_step_inv)

end
