(* ===== verification/Queue_Spec.thy ===== *)
theory Queue_Spec
  imports Queue_Props
begin

text \<open>
  What the queue store promises: an abstract lifecycle with a list of pending runs that the
  store refines, first-in first-out claims, final terminal states, and leases that protect a
  run exactly until their deadline.
\<close>

section \<open>The abstract lifecycle\<close>

record lifecycle =
  lc_pending :: "string list"
  lc_state :: "string \<Rightarrow> lifecycle_state option"

inductive lifecycle_step :: "lifecycle \<Rightarrow> lifecycle \<Rightarrow> bool" where
  lc_stutter: "lifecycle_step a a"
| lc_submit: "lc_state a run = None \<Longrightarrow>
    lifecycle_step a \<lparr>lc_pending = lc_pending a @ [run], lc_state = (lc_state a)(run \<mapsto> StateQueued)\<rparr>"
| lc_lease: "lc_pending a = run # rest \<Longrightarrow>
    lifecycle_step a \<lparr>lc_pending = rest, lc_state = (lc_state a)(run \<mapsto> StateLeased)\<rparr>"
| lc_advance: "lc_state a run = Some src \<Longrightarrow> in_flight src \<Longrightarrow> edge src dst \<Longrightarrow>
    lifecycle_step a \<lparr>lc_pending = lc_pending a, lc_state = (lc_state a)(run \<mapsto> dst)\<rparr>"
| lc_cancel: "run \<in> set (lc_pending a) \<Longrightarrow>
    lifecycle_step a \<lparr>lc_pending = filter (\<lambda>x. x \<noteq> run) (lc_pending a),
      lc_state = (lc_state a)(run \<mapsto> StateCanceled)\<rparr>"
| lc_recover: "distinct runs \<Longrightarrow> \<forall>run \<in> set runs. \<exists>src. lc_state a run = Some src \<and> in_flight src \<Longrightarrow>
    lifecycle_step a \<lparr>lc_pending = lc_pending a @ runs,
      lc_state = (\<lambda>run. if run \<in> set runs then Some StateQueued else lc_state a run)\<rparr>"

definition lifecycle_of :: "queue_store \<Rightarrow> lifecycle" where
  "lifecycle_of s = \<lparr>lc_pending = qs_order s, lc_state = (\<lambda>run. map_option qr_state (lookup s run))\<rparr>"

lemma lifecycle_of_sel [simp]:
  "lc_pending (lifecycle_of s) = qs_order s"
  "lc_state (lifecycle_of s) run = map_option qr_state (lookup s run)"
  by (simp_all add: lifecycle_of_def)

lemma lifecycle_of_put:
  "lifecycle_of (s\<lparr>qs_order := order, qs_records := put run r (qs_records s)\<rparr>) =
     \<lparr>lc_pending = order, lc_state = (lc_state (lifecycle_of s))(run \<mapsto> qr_state r)\<rparr>"
  by (auto simp: lifecycle_of_def lookup_def fun_eq_iff)

lemma lifecycle_of_put_record:
  "lifecycle_of (s\<lparr>qs_records := put run r (qs_records s)\<rparr>) =
     \<lparr>lc_pending = qs_order s, lc_state = (lc_state (lifecycle_of s))(run \<mapsto> qr_state r)\<rparr>"
  by (auto simp: lifecycle_of_def lookup_def fun_eq_iff)

lemma lifecycle_of_put_same:
  "lookup s run = Some r0 \<Longrightarrow> qr_state r = qr_state r0 \<Longrightarrow>
   lifecycle_of (s\<lparr>qs_records := put run r (qs_records s)\<rparr>) = lifecycle_of s"
  by (auto simp: lifecycle_of_def lookup_def fun_eq_iff)

lemma lifecycle_of_promote:
  "lifecycle_of (s\<lparr>qs_records := map (\<lambda>(id, r). (id, promoted m run id r)) (qs_records s)\<rparr>) = lifecycle_of s"
  by (simp add: lifecycle_of_def lookup_promote [simplified lookup_def] lookup_def option.map_comp comp_def map_of_map_keyed)

lemma expired_in_flight: "expired s now run \<Longrightarrow> \<exists>src. lc_state (lifecycle_of s) run = Some src \<and> in_flight src"
  by (auto simp: expired_def recoverable_alt)

text \<open>
  C6. The queue store refines the abstract lifecycle: whatever operation is called on a
  reachable store, the states of all runs and the list of pending runs change by one abstract
  step: a submission is appended to the pending list, a claim leases the first pending run, a
  worker moves a run in flight along one edge, a cancellation takes a pending run away, and a
  recovery puts runs in flight back at the end; a refused call changes nothing.
\<close>

theorem queue_refines_lifecycle:
  assumes "queue_reach new_queue_store s" "queue_step s s'"
  shows "lifecycle_step (lifecycle_of s) (lifecycle_of s')"
proof -
  have ok: "queue_ok s" using queue_reach_inv [OF assms(1) queue_ok_new] .
  from assms(2) show ?thesis
  proof (cases rule: queue_step.cases)
    case (step_enqueue sub)
    show ?thesis
    proof (cases rule: enqueue_cases [of sub s])
      case (2 r)
      have "lifecycle_of s' = \<lparr>lc_pending = lc_pending (lifecycle_of s) @ [ms_run sub],
          lc_state = (lc_state (lifecycle_of s))(ms_run sub \<mapsto> StateQueued)\<rparr>"
        using step_enqueue 2(1,4) by (auto simp: lifecycle_of_def lookup_def fun_eq_iff)
      then show ?thesis using lc_submit [of "lifecycle_of s" "ms_run sub"] 2(3) by simp
    qed (simp add: step_enqueue lc_stutter)
  next
    case (step_claim worker now)
    show ?thesis
    proof (cases rule: claim_cases [OF ok, of worker now])
      case (2 run rest r)
      then show ?thesis using lc_lease [of "lifecycle_of s" run rest] step_claim by (simp add: lifecycle_of_put)
    qed (simp add: step_claim lc_stutter)
  next
    case (step_heartbeat run worker now)
    show ?thesis
      by (cases rule: heartbeat_cases [of run worker now s])
        (simp_all add: step_heartbeat lc_stutter lifecycle_of_put_same)
  next
    case (step_recover visit now)
    note sp = recover_expired_spec [OF step_recover(2,3), of now]
    let ?runs = "filter (expired s now) visit"
    have runs: "run \<in> set ?runs \<longleftrightarrow> expired s now run" for run
      using step_recover(3) dom_lookup [of s] by (auto simp: expired_def)
    have "lifecycle_of s' = \<lparr>lc_pending = lc_pending (lifecycle_of s) @ ?runs,
        lc_state = (\<lambda>run. if run \<in> set ?runs then Some StateQueued else lc_state (lifecycle_of s) run)\<rparr>"
      unfolding runs using sp step_recover(1)
      by (auto simp: lifecycle_of_def fun_eq_iff requeued_def expired_def)
    then show ?thesis
      using lc_recover [of ?runs "lifecycle_of s"] step_recover(2) expired_in_flight [of s now] runs by simp
  next
    case (step_update "next" now)
    show ?thesis
    proof (cases rule: update_cases [of "next" now s])
      case (2 current)
      show ?thesis
      proof (cases "qr_state current = qr_state next")
        case True
        then show ?thesis using 2(1,3) step_update(1) by (simp add: lifecycle_of_put_same lc_stutter)
      next
        case False
        then have e: "edge (qr_state current) (qr_state next)" using 2(2) by simp
        then have "in_flight (qr_state current)"
          using step_update(2) by (auto simp: worker_state_def edge.simps in_flight_def)
        then show ?thesis
          using lc_advance [of "lifecycle_of s" "qr_run next" "qr_state current" "qr_state next"] 2(1,3) e
            step_update(1) by (simp add: lifecycle_of_put_record)
      qed
    qed (simp add: step_update lc_stutter)
  next
    case (step_promote run)
    show ?thesis
      by (cases rule: promote_cases [of run s]) (simp_all add: step_promote lc_stutter lifecycle_of_promote)
  next
    case (step_cancel run)
    show ?thesis
    proof (cases rule: cancel_cases [of run s])
      case (2 r)
      have "run \<in> set (qs_order s)" using queue_okD(5) [OF ok] 2(1,2) by auto
      moreover have "lifecycle_of s' = \<lparr>lc_pending = filter (\<lambda>x. x \<noteq> run) (lc_pending (lifecycle_of s)),
          lc_state = (lc_state (lifecycle_of s))(run \<mapsto> StateCanceled)\<rparr>"
        using step_cancel 2(3) by (auto simp: lifecycle_of_def lookup_def fun_eq_iff)
      ultimately show ?thesis using lc_cancel [of run "lifecycle_of s"] by simp
    qed (simp add: step_cancel lc_stutter)
  qed
qed


lemma sample_enqueue:
  "enqueue sample_submission new_queue_store =
     (Inr \<lparr>qr_submission = sample_submission, qr_state = StateQueued, qr_completed_at = None,
            qr_lease = None, qr_terminal = None\<rparr>,
      \<lparr>qs_all = [''run-1''], qs_order = [''run-1''],
       qs_records = [(''run-1'', \<lparr>qr_submission = sample_submission, qr_state = StateQueued,
          qr_completed_at = None, qr_lease = None, qr_terminal = None\<rparr>)]\<rparr>)"
  by (simp add: enqueue_def new_queue_store_def sample_submission_def sample_not_blank Let_def)

definition sample_store :: queue_store where
  "sample_store = snd (enqueue sample_submission new_queue_store)"

lemma sample_reach: "queue_reach new_queue_store sample_store"
  unfolding sample_store_def by (rule reach_step [OF reach_refl step_enqueue])

theorem queue_refines_lifecycle_witness:
  "lifecycle_step (lifecycle_of new_queue_store) (lifecycle_of sample_store) \<and>
   lc_pending (lifecycle_of sample_store) = [''run-1'']"
  using queue_refines_lifecycle [OF reach_refl step_enqueue [of new_queue_store sample_submission]]
  by (simp add: sample_store_def sample_enqueue)

text \<open>
  Claims are first in, first out and exclusive: on a reachable store a worker with an id
  gets no run exactly when none is queued; otherwise it gets the run that has been pending
  longest, now leased to it for thirty seconds, and the store differs in that run only, which
  leaves the pending list.
\<close>

theorem claim_first_in_first_out:
  assumes "queue_reach new_queue_store s" "\<not> blank worker"
  shows "(fst (claim worker now s) = Inl NoQueuedSubmission \<longleftrightarrow>
            (\<forall>run r. lookup s run = Some r \<longrightarrow> qr_state r \<noteq> StateQueued)) \<and>
    (\<forall>e s'. claim worker now s = (Inl e, s') \<longrightarrow> e = NoQueuedSubmission \<and> s' = s) \<and>
    (\<forall>r s'. claim worker now s = (Inr r, s') \<longrightarrow>
       qs_order s = qr_run r # qs_order s' \<and> lookup s' = (lookup s)(qr_run r \<mapsto> r) \<and>
       (\<exists>r0. lookup s (qr_run r) = Some r0 \<and> qr_state r0 = StateQueued \<and>
          r = r0\<lparr>qr_state := StateLeased,
                 qr_lease := Some \<lparr>wl_worker = worker, wl_deadline = now + 30000000000, wl_heartbeat = now\<rparr>\<rparr>))"
proof -
  have ok: "queue_ok s" using queue_reach_inv [OF assms(1) queue_ok_new] .
  show ?thesis
  proof (cases rule: claim_cases [OF ok, of worker now])
    case (1 e)
    then have e: "e = NoQueuedSubmission" "qs_order s = []" using assms(2) by auto
    then have "\<forall>run r. lookup s run = Some r \<longrightarrow> qr_state r \<noteq> StateQueued"
      using queue_okD(5) [OF ok] by auto
    with 1(1) e show ?thesis by simp
  next
    case (2 run rest r)
    have "qr_run r = run" using queue_okD(6) [OF ok 2(3)] by (simp add: record_ok_def)
    then show ?thesis using 2(2-5)
      by (auto simp: lookup_def leased_def new_worker_lease_def worker_lease_duration_def)
  qed
qed

theorem claim_first_in_first_out_witness:
  "\<exists>r s'. claim ''w'' 0 sample_store = (Inr r, s') \<and> qr_run r = ''run-1'' \<and> qs_order s' = []"
proof -
  have w: "\<not> blank ''w''" by code_simp
  have "\<exists>r. lookup sample_store ''run-1'' = Some r \<and> qr_state r = StateQueued"
    by (simp add: sample_store_def sample_enqueue lookup_def)
  with claim_first_in_first_out [OF sample_reach w, of 0]
  obtain r s' where "claim ''w'' 0 sample_store = (Inr r, s')" "qs_order sample_store = qr_run r # qs_order s'"
    by (metis prod.collapse sum.exhaust)
  then show ?thesis by (simp add: sample_store_def sample_enqueue)
qed

section \<open>Terminal states\<close>

lemma queue_step_record:
  assumes "queue_ok s" "queue_step s s'" "lookup s run = Some r"
  shows "\<exists>r'. lookup s' run = Some r' \<and>
    (terminal_state (qr_state r) \<longrightarrow> qr_state r' = qr_state r \<and> qr_completed_at r' = qr_completed_at r)"
  using assms(2)
proof (cases rule: queue_step.cases)
  case (step_enqueue sub)
  then show ?thesis using assms(3)
    by (cases rule: enqueue_cases [of sub s]) (auto simp: lookup_def)
next
  case (step_claim worker now)
  then show ?thesis using assms(3)
    by (cases rule: claim_cases [OF assms(1), of worker now]) (auto simp: lookup_def terminal_state_def)
next
  case (step_heartbeat x worker now)
  then show ?thesis using assms(3)
    by (cases rule: heartbeat_cases [of x worker now s]) (auto simp: lookup_def)
next
  case (step_recover visit now)
  then show ?thesis using recover_expired_spec [OF step_recover(2,3), of now] assms(3)
    by (auto simp: expired_def recoverable_alt terminal_state_def in_flight_def requeued_def)
next
  case (step_update "next" now)
  show ?thesis
  proof (cases rule: update_cases [of "next" now s])
    case (2 current)
    show ?thesis
    proof (cases "run = qr_run next")
      case True
      then have c: "current = r" using 2(1) assms(3) by simp
      have "qr_state next = qr_state r" if "terminal_state (qr_state r)"
        using 2(2) edge_from_terminal [OF that] c by auto
      moreover have "completion_time r next now = qr_completed_at r"
        if "terminal_state (qr_state r)" "qr_state next = qr_state r"
        using queue_okD(6) [OF assms(1,3)] that by (auto simp: completion_time_def record_ok_def split: option.split)
      ultimately show ?thesis using 2(3) True step_update(1) c by simp
    next
      case False
      then show ?thesis using 2(3) step_update(1) assms(3) by simp
    qed
  qed (use step_update(1) assms(3) in simp)
next
  case (step_promote x)
  show ?thesis
  proof (cases rule: promote_cases [of x s])
    case (2 target s1)
    then have "lookup s' run = Some (promoted (qr_match target) x run r)"
      using step_promote assms(3) by (simp add: lookup_promote del: lookup_update)
    then show ?thesis by simp
  qed (use step_promote assms(3) in simp)
next
  case (step_cancel x)
  then show ?thesis using assms(3)
    by (cases rule: cancel_cases [of x s]) (auto simp: lookup_def terminal_state_def)
qed

text \<open>
  C24. Nothing that is finished is undone and nothing is lost: a run known to a reachable store
  stays known whatever operations follow, and once it is completed, failed or canceled its
  state and its completion time never change; exactly the completed runs have one.
\<close>

theorem terminal_runs_stay:
  assumes "queue_reach new_queue_store s" "lookup s run = Some r" "queue_reach s s'"
  shows "\<exists>r'. lookup s' run = Some r' \<and> qr_run r' = run \<and>
    (terminal_state (qr_state r) \<longrightarrow> qr_state r' = qr_state r \<and> qr_completed_at r' = qr_completed_at r) \<and>
    (qr_completed_at r' \<noteq> None \<longleftrightarrow> qr_state r' = StateCompleted)"
proof -
  have ok: "queue_ok s" using queue_reach_inv [OF assms(1) queue_ok_new] .
  from assms(3) have "\<exists>r'. lookup s' run = Some r' \<and>
    (terminal_state (qr_state r) \<longrightarrow> qr_state r' = qr_state r \<and> qr_completed_at r' = qr_completed_at r)"
  proof (induction rule: queue_reach.induct)
    case (reach_step s1 s2)
    have "queue_ok s1" using queue_reach_inv [OF reach_step.hyps(1) ok] .
    from reach_step.IH queue_step_record [OF this reach_step.hyps(2)] show ?case by metis
  qed (use assms(2) in simp)
  moreover have "queue_ok s'" using queue_reach_inv [OF assms(3) ok] .
  ultimately show ?thesis using queue_okD(6) by (force simp: record_ok_def)
qed

theorem terminal_runs_stay_witness:
  "\<exists>r'. lookup (snd (claim ''w'' 0 (snd (cancel_queued ''run-1'' sample_store)))) ''run-1'' = Some r' \<and>
    qr_state r' = StateCanceled"
proof -
  let ?s = "snd (cancel_queued ''run-1'' sample_store)"
  have reach: "queue_reach new_queue_store ?s" by (rule reach_step [OF sample_reach step_cancel])
  have s: "\<exists>r. lookup ?s ''run-1'' = Some r \<and> qr_state r = StateCanceled"
    by (simp add: cancel_queued_def sample_store_def sample_enqueue lookup_def remove_from_order_def
        validate_transition_def Let_def)
  then obtain r where r: "lookup ?s ''run-1'' = Some r" "qr_state r = StateCanceled" by blast
  from terminal_runs_stay [OF reach r(1) reach_step [OF reach_refl step_claim [of ?s "''w''" 0]]] r(2)
  show ?thesis by (auto simp: terminal_state_def)
qed

section \<open>Leases\<close>

text \<open>A store with one run that was claimed at time zero.\<close>

definition sample_record :: queue_record where
  "sample_record = \<lparr>qr_submission = sample_submission, qr_state = StateLeased, qr_completed_at = None,
     qr_lease = Some (new_worker_lease ''w'' 0), qr_terminal = None\<rparr>"

definition sample_claimed :: "queue_record \<Rightarrow> queue_store" where
  "sample_claimed r = \<lparr>qs_all = [''run-1''], qs_order = [], qs_records = [(''run-1'', r)]\<rparr>"

lemma sample_claim: "claim ''w'' 0 sample_store = (Inr sample_record, sample_claimed sample_record)"
proof -
  have w: "\<not> blank ''w''" by code_simp
  show ?thesis
    by (simp add: claim_def w sample_store_def sample_enqueue sample_record_def sample_claimed_def Let_def)
qed

lemma sample_claimed_reach: "queue_reach new_queue_store (sample_claimed sample_record)"
  using reach_step [OF sample_reach step_claim [of sample_store "''w''" 0]] by (simp add: sample_claim)

lemma sample_visit: "distinct [''run-1'']" "set [''run-1''] = fst ` set (qs_records (sample_claimed r))"
  by (simp_all add: sample_claimed_def)

text \<open>
  Recovery returns exactly the abandoned runs to the queue, whatever the order in which it
  meets the records: the runs that are leased, running or persisting and whose lease has a
  deadline that is not after the given time become pending, without a lease, behind those
  that were pending already; every other record stays as it is, and their number is returned.
\<close>

theorem recover_returns_exactly_expired:
  assumes "queue_reach new_queue_store s" "distinct visit" "set visit = fst ` set (qs_records s)"
    and "recover_expired visit now s = (n, s')"
  shows "\<exists>runs. distinct runs \<and> length runs = n \<and> qs_order s' = qs_order s @ runs \<and>
    (\<forall>run. run \<in> set runs \<longleftrightarrow> (\<exists>r l. lookup s run = Some r \<and> qr_lease r = Some l \<and>
       wl_deadline l \<le> now \<and> qr_state r \<in> {StateLeased, StateRunning, StatePersisting})) \<and>
    (\<forall>run. lookup s' run = (if run \<in> set runs
       then map_option (\<lambda>r. r\<lparr>qr_state := StateQueued, qr_lease := None\<rparr>) (lookup s run)
       else lookup s run))"
proof -
  let ?runs = "filter (expired s now) visit"
  note sp = recover_expired_spec [OF assms(2,3), of now]
  have mem: "run \<in> set ?runs \<longleftrightarrow> expired s now run" for run
    using assms(3) dom_lookup [of s] by (auto simp: expired_def)
  have "length ?runs = card {run. expired s now run}"
    using distinct_card [of ?runs] assms(2) mem by (simp add: Collect_conv_if set_eq_iff)
  then have "length ?runs = n" using sp assms(4) by simp
  moreover have "expired s now run \<longleftrightarrow> (\<exists>r l. lookup s run = Some r \<and> qr_lease r = Some l \<and>
       wl_deadline l \<le> now \<and> qr_state r \<in> {StateLeased, StateRunning, StatePersisting})" for run
    by (auto simp: expired_def recoverable_alt in_flight_def)
  moreover have "lookup s' run = (if run \<in> set ?runs
       then map_option (\<lambda>r. r\<lparr>qr_state := StateQueued, qr_lease := None\<rparr>) (lookup s run) else lookup s run)" for run
    using sp assms(4) unfolding mem by (simp add: requeued_def [abs_def])
  ultimately show ?thesis using sp assms(2,4) mem by (intro exI [of _ ?runs]) simp
qed

theorem recover_returns_exactly_expired_witness:
  "\<exists>s'. recover_expired [''run-1''] 30000000000 (sample_claimed sample_record) = (1, s') \<and>
    qs_order s' = [''run-1'']"
proof -
  let ?rec = "recover_expired [''run-1''] 30000000000 (sample_claimed sample_record)"
  obtain n s' where r: "?rec = (n, s')" by fastforce
  from recover_returns_exactly_expired [OF sample_claimed_reach sample_visit r]
  obtain runs where runs: "distinct runs" "length runs = n" "qs_order s' = runs"
    "\<And>run. run \<in> set runs \<longleftrightarrow> run = ''run-1''"
    by (auto simp: sample_claimed_def sample_record_def lookup_def new_worker_lease_def
        worker_lease_duration_def split: if_splits)
  then have "set runs = {''run-1''}" by blast
  then have "runs = [''run-1'']" using runs(1) by (cases runs; cases "tl runs") auto
  with runs r show ?thesis by auto
qed

text \<open>
  A heartbeat protects: after the owner's heartbeat, no recovery before thirty seconds have
  passed takes the run away, and a heartbeat of anyone else is refused and changes nothing.
\<close>

theorem heartbeat_protects_lease:
  assumes "queue_reach new_queue_store s" "heartbeat run worker t s = (e, s1)"
    and "distinct visit" "set visit = fst ` set (qs_records s1)" "now < t + 30000000000"
  shows "(e = None \<longrightarrow> lookup (snd (recover_expired visit now s1)) run = lookup s1 run \<and>
      (\<exists>r. lookup s1 run = Some r \<and> qr_lease r =
         Some \<lparr>wl_worker = worker, wl_deadline = t + 30000000000, wl_heartbeat = t\<rparr>)) \<and>
    (e = None \<longleftrightarrow> (\<exists>r l. lookup s run = Some r \<and> qr_lease r = Some l \<and> wl_worker l = worker)) \<and>
    (e \<noteq> None \<longrightarrow> s1 = s)"
proof (cases rule: heartbeat_cases [of run worker t s])
  case (1 e')
  then have "\<not> (\<exists>r l. lookup s run = Some r \<and> qr_lease r = Some l \<and> wl_worker l = worker)"
    by (auto simp: heartbeat_def lookup_def)
  then show ?thesis using 1 assms(2) by auto
next
  case (2 r l)
  then have s1: "e = None" "lookup s1 run = Some (r\<lparr>qr_lease := Some (new_worker_lease worker t)\<rparr>)"
    using assms(2) by auto
  then have "\<not> expired s1 now run"
    using assms(5) by (auto simp: expired_def recoverable_alt new_worker_lease_def worker_lease_duration_def)
  then show ?thesis using recover_expired_spec [OF assms(3,4), of now] s1 2(1-3)
    by (auto simp: new_worker_lease_def worker_lease_duration_def)
qed

theorem heartbeat_protects_lease_witness:
  "\<exists>s1. heartbeat ''run-1'' ''w'' 20000000000 (sample_claimed sample_record) = (None, s1) \<and>
    lookup (snd (recover_expired [''run-1''] 31000000000 s1)) ''run-1'' = lookup s1 ''run-1''"
proof -
  let ?s1 = "sample_claimed (sample_record\<lparr>qr_lease := Some (new_worker_lease ''w'' 20000000000)\<rparr>)"
  have h: "heartbeat ''run-1'' ''w'' 20000000000 (sample_claimed sample_record) = (None, ?s1)"
    by (simp add: heartbeat_def sample_claimed_def sample_record_def new_worker_lease_def)
  from heartbeat_protects_lease [OF sample_claimed_reach h sample_visit, of 31000000000] h
  show ?thesis by auto
qed

text \<open>
  C25. The worker's own updates undo its heartbeats: \<open>ProcessNext\<close> writes back the record that
  its claim returned, with the lease of that time, so once thirty seconds have passed since the
  claim a recovery takes a persisting run away from its worker however recent its last
  heartbeat is, and the worker's final update is then refused.
\<close>

theorem update_rolls_back_lease:
  assumes "queue_reach new_queue_store s" "claim worker t0 s = (Inr r, s1)"
    and "update (r\<lparr>qr_state := StateRunning\<rparr>) t1 s1 = (None, s2)"
    and "heartbeat (qr_run r) worker t2 s2 = (None, s3)"
    and "update (r\<lparr>qr_state := StatePersisting\<rparr>) t3 s3 = (None, s4)"
    and "distinct visit" "set visit = fst ` set (qs_records s4)" "t0 + 30000000000 \<le> now"
    and "recover_expired visit now s4 = (n, s5)"
  shows "(\<exists>q. lookup s5 (qr_run r) = Some q \<and> qr_state q = StateQueued \<and> qr_lease q = None) \<and>
    fst (update (r\<lparr>qr_state := StateCompleted\<rparr>) t5 s5) \<noteq> None"
proof -
  have ok: "queue_ok s" using queue_reach_inv [OF assms(1) queue_ok_new] .
  have lease: "qr_lease r = Some (new_worker_lease worker t0)"
    using assms(2) by (cases rule: claim_cases [OF ok, of worker t0]) auto
  have "\<exists>q. lookup s4 (qr_run r) = Some q \<and> qr_state q = StatePersisting \<and> qr_lease q = qr_lease r"
    using assms(5) by (cases rule: update_cases [of "r\<lparr>qr_state := StatePersisting\<rparr>" t3 s3]) auto
  then have "expired s4 now (qr_run r)"
    using lease assms(8)
    by (auto simp: expired_def recoverable_alt in_flight_def new_worker_lease_def worker_lease_duration_def)
  then have q: "\<exists>q. lookup s5 (qr_run r) = Some q \<and> qr_state q = StateQueued \<and> qr_lease q = None"
    using recover_expired_spec [OF assms(6,7), of now] assms(9) by (auto simp: expired_def requeued_def)
  then have "fst (update (r\<lparr>qr_state := StateCompleted\<rparr>) t5 s5) \<noteq> None"
    by (auto simp: update_def lookup_def validate_transition_def split: option.split)
  with q show ?thesis by blast
qed

theorem update_rolls_back_lease_witness:
  "\<exists>s2 s3 s4 s5. update (sample_record\<lparr>qr_state := StateRunning\<rparr>) 1 (sample_claimed sample_record) = (None, s2) \<and>
    heartbeat ''run-1'' ''w'' 29000000000 s2 = (None, s3) \<and>
    update (sample_record\<lparr>qr_state := StatePersisting\<rparr>) 29500000000 s3 = (None, s4) \<and>
    recover_expired [''run-1''] 30000000000 s4 = (1, s5) \<and>
    (\<exists>q. lookup s5 ''run-1'' = Some q \<and> qr_state q = StateQueued)"
proof -
  let ?run = "sample_record\<lparr>qr_state := StateRunning\<rparr>" and ?per = "sample_record\<lparr>qr_state := StatePersisting\<rparr>"
  let ?hb = "?run\<lparr>qr_lease := Some (new_worker_lease ''w'' 29000000000)\<rparr>"
  have run: "qr_run sample_record = ''run-1''" by (simp add: sample_record_def sample_submission_def)
  have u1: "update ?run 1 (sample_claimed sample_record) = (None, sample_claimed ?run)"
    by (simp add: update_def sample_claimed_def sample_record_def sample_submission_def
        validate_transition_def completion_time_def)
  have h: "heartbeat (qr_run sample_record) ''w'' 29000000000 (sample_claimed ?run) = (None, sample_claimed ?hb)"
    by (simp add: heartbeat_def sample_claimed_def sample_record_def sample_submission_def new_worker_lease_def)
  have u2: "update ?per 29500000000 (sample_claimed ?hb) = (None, sample_claimed ?per)"
    by (simp add: update_def sample_claimed_def sample_record_def sample_submission_def
        validate_transition_def completion_time_def)
  have rec: "fst (recover_expired [''run-1''] 30000000000 (sample_claimed ?per)) = 1"
    by (simp add: recover_expired_def recover_one_def sample_claimed_def sample_record_def
        is_recoverable_lease_def new_worker_lease_def worker_lease_duration_def)
  then obtain s5 where r: "recover_expired [''run-1''] 30000000000 (sample_claimed ?per) = (1, s5)"
    by (metis prod.collapse)
  from update_rolls_back_lease [OF sample_reach sample_claim u1 h u2 sample_visit _ r] u1 u2 h r run
  show ?thesis by auto
qed

end
