(* ===== verification/Worker.thy ===== *)
theory Worker
  imports Queue_Spec Ranking_Service
begin

text \<open>
  The worker of \<open>internal/platform/service/worker.go\<close> and its polling loop of
  \<open>worker_loop.go\<close>, over any queue store. The store, the runner, the persister and the
  rankings act on a world \<open>'w\<close>; so do the goroutines that run beside them, the heartbeat of
  the worker among them, whose effects are part of what a call of the runner does to the world.
\<close>

section \<open>The interface of a queue store\<close>

record 'w queue_ops =
  qo_enqueue :: "match_submission \<Rightarrow> 'w \<Rightarrow> (queue_error + queue_record) \<times> 'w"
  qo_claim :: "string \<Rightarrow> 'w \<Rightarrow> (queue_error + queue_record) \<times> 'w"
  qo_heartbeat :: "string \<Rightarrow> string \<Rightarrow> 'w \<Rightarrow> queue_error option \<times> 'w"
  qo_recover :: "int \<Rightarrow> 'w \<Rightarrow> (queue_error + nat) \<times> 'w"
  qo_update :: "queue_record \<Rightarrow> 'w \<Rightarrow> queue_error option \<times> 'w"
  qo_promote :: "string \<Rightarrow> 'w \<Rightarrow> (queue_error + queue_record) \<times> 'w"
  qo_cancel :: "string \<Rightarrow> 'w \<Rightarrow> (queue_error + queue_record) \<times> 'w"
  qo_get :: "string \<Rightarrow> 'w \<Rightarrow> queue_error + queue_record"
  qo_list :: "'w \<Rightarrow> queue_error + queue_record list"

section \<open>The worker\<close>

record execution_result =
  er_record :: record_
  er_stderr :: "string gomap"

datatype worker_error =
  QueueError queue_error
| RunError go_error
| NoTerminalRecord
| MismatchedMatch string string
| PersistError string
| RankingFailed ranking_error

record 'w worker =
  wk_queue :: "'w queue_ops"
  wk_run :: "match_submission \<Rightarrow> 'w \<Rightarrow> (execution_result \<times> go_error option) \<times> 'w"
  wk_persist :: "match_submission \<Rightarrow> execution_result \<Rightarrow> 'w \<Rightarrow> (string + terminal_artifacts) \<times> 'w"
  wk_rankings :: "(match_submission \<Rightarrow> result_summary \<Rightarrow> 'w \<Rightarrow> ranking_error option \<times> 'w) option"

text \<open>What \<open>ProcessNext\<close> returns: a zero record is \<open>None\<close>.\<close>

type_synonym answer = "queue_record option \<times> worker_error option"

definition should_auto_promote :: "'w worker \<Rightarrow> queue_record \<Rightarrow> 'w \<Rightarrow> queue_error + bool" where
  "should_auto_promote wk r w =
     (if ms_kind (qr_submission r) = RunKindRerun then Inr False
      else bindR (qo_list (wk_queue wk) w) (\<lambda>records.
        Inr (\<not> list_ex (\<lambda>c. qr_match c = qr_match r \<and> qr_run c \<noteq> qr_run r \<and>
                            qr_state c = StateCompleted \<and> qr_official c) records)))"

text \<open>An update whose error ends the call with a zero record.\<close>

definition save :: "'w worker \<Rightarrow> queue_record \<Rightarrow> ('w \<Rightarrow> answer \<times> 'w) \<Rightarrow> 'w \<Rightarrow> answer \<times> 'w" where
  "save wk r k w =
     (case qo_update (wk_queue wk) r w of
        (Some e, w1) \<Rightarrow> ((None, Some (QueueError e)), w1)
      | (None, w1) \<Rightarrow> k w1)"

definition fail_with :: "'w worker \<Rightarrow> queue_record \<Rightarrow> worker_error \<Rightarrow> 'w \<Rightarrow> answer \<times> 'w" where
  "fail_with wk r e =
     (let failed = r\<lparr>qr_state := StateFailed\<rparr> in save wk failed (\<lambda>w. ((Some failed, Some e), w)))"

definition apply_rankings ::
  "'w worker \<Rightarrow> queue_record \<Rightarrow> execution_result \<Rightarrow> go_error option \<Rightarrow> 'w \<Rightarrow> answer \<times> 'w" where
  "apply_rankings wk r res run_err w =
     (let done = \<lambda>w. ((Some r, map_option RunError run_err), w) in
      case wk_rankings wk of
        Some apply_completed \<Rightarrow>
          if rc_status (er_record res) = StatusCompleted \<and> qr_official r then
            (case apply_completed (qr_submission r) (summary_from_record (er_record res)) w of
               (Some e, w1) \<Rightarrow> ((Some r, Some (RankingFailed e)), w1)
             | (None, w1) \<Rightarrow> done w1)
          else done w
      | None \<Rightarrow> done w)"

definition complete_run ::
  "'w worker \<Rightarrow> queue_record \<Rightarrow> execution_result \<Rightarrow> go_error option \<Rightarrow> terminal_artifacts \<Rightarrow> 'w \<Rightarrow> answer \<times> 'w" where
  "complete_run wk r res run_err stored w =
     (let terminal = stored\<lparr>ta_status := rc_status (er_record res), ta_error := terminal_error (er_record res)\<rparr>;
          r1 = r\<lparr>qr_state := StateCompleted, qr_terminal := Some terminal\<rparr>;
          finish = (\<lambda>r2. save wk r2 (apply_rankings wk r2 res run_err))
      in if rc_status (er_record res) = StatusCompleted then
           (case should_auto_promote wk r1 w of
              Inl e \<Rightarrow> save wk r1 (\<lambda>w1. ((Some r1, Some (QueueError e)), w1)) w
            | Inr official \<Rightarrow> finish (set_official official r1) w)
         else finish r1 w)"

definition execute_run :: "'w worker \<Rightarrow> queue_record \<Rightarrow> 'w \<Rightarrow> answer \<times> 'w" where
  "execute_run wk r w =
     (case wk_run wk (qr_submission r) w of
        ((res, run_err), w1) \<Rightarrow>
          if rc_match_id (er_record res) = [] then
            fail_with wk r (case run_err of Some e \<Rightarrow> RunError e | None \<Rightarrow> NoTerminalRecord) w1
          else if rc_match_id (er_record res) \<noteq> qr_match r then
            fail_with wk r (MismatchedMatch (rc_match_id (er_record res)) (qr_run r)) w1
          else
            let r1 = r\<lparr>qr_state := StatePersisting\<rparr> in
            save wk r1 (\<lambda>w2.
              case wk_persist wk (qr_submission r1) res w2 of
                (Inl e, w3) \<Rightarrow> fail_with wk r1 (PersistError e) w3
              | (Inr stored, w3) \<Rightarrow> complete_run wk r1 res run_err stored w3) w1)"

definition process_next :: "'w worker \<Rightarrow> string \<Rightarrow> 'w \<Rightarrow> answer \<times> 'w" where
  "process_next wk worker w =
     (case qo_claim (wk_queue wk) worker w of
        (Inl e, w1) \<Rightarrow> ((None, Some (QueueError e)), w1)
      | (Inr claimed, w1) \<Rightarrow>
          let r = claimed\<lparr>qr_state := StateRunning\<rparr> in save wk r (execute_run wk r) w1)"

text \<open>
  The heartbeat goroutine: \<open>Heartbeat\<close> on every tick until one fails, which cancels the run;
  the clock of the ticks is advanced by \<open>tick\<close>.
\<close>

fun heartbeat_ticks :: "'w queue_ops \<Rightarrow> string \<Rightarrow> string \<Rightarrow> ('w \<Rightarrow> 'w) list \<Rightarrow> 'w \<Rightarrow> bool \<times> 'w" where
  "heartbeat_ticks ops rid worker [] w = (False, w)"
| "heartbeat_ticks ops rid worker (tick # ticks) w =
     (case qo_heartbeat ops rid worker (tick w) of
        (Some e, w1) \<Rightarrow> (True, w1)
      | (None, w1) \<Rightarrow> heartbeat_ticks ops rid worker ticks w1)"

definition heartbeat_interval :: int where
  "heartbeat_interval = worker_lease_duration div 3"

section \<open>The polling loop\<close>

datatype loop_error = RecoverFailed queue_error | ProcessFailed worker_error

datatype loop_wait = WaitNothing | WaitPoll | LoopEnds

text \<open>
  \<open>lp_select\<close> is the \<open>select\<close> at the head of the loop: it waits as long as the timer was set
  to and answers whether the context was done first.
\<close>

record 'w worker_loop =
  lp_worker :: "'w worker"
  lp_worker_id :: string
  lp_now :: "'w \<Rightarrow> int"
  lp_select :: "loop_wait \<Rightarrow> 'w \<Rightarrow> bool \<times> 'w"
  lp_canceled :: "'w \<Rightarrow> bool"
  lp_on_error :: "(loop_error \<Rightarrow> 'w \<Rightarrow> 'w) option"

definition report :: "'w worker_loop \<Rightarrow> loop_error \<Rightarrow> 'w \<Rightarrow> 'w" where
  "report lp e w = (case lp_on_error lp of None \<Rightarrow> w | Some f \<Rightarrow> f e w)"

text \<open>One pass of the loop: what it waits for next, and whether the loop is ready.\<close>

definition loop_pass :: "'w worker_loop \<Rightarrow> 'w \<Rightarrow> (loop_wait \<times> bool) \<times> 'w" where
  "loop_pass lp w =
     (case qo_recover (wk_queue (lp_worker lp)) (lp_now lp w) w of
        (Inl e, w1) \<Rightarrow> ((WaitPoll, False), report lp (RecoverFailed e) w1)
      | (Inr n, w1) \<Rightarrow>
          (case process_next (lp_worker lp) (lp_worker_id lp) w1 of
             ((_, None), w2) \<Rightarrow> ((WaitNothing, True), w2)
           | ((_, Some e), w2) \<Rightarrow>
               if lp_canceled lp w2 then ((LoopEnds, True), w2)
               else if e = QueueError NoQueuedSubmission then ((WaitPoll, True), w2)
               else ((WaitPoll, True), report lp (ProcessFailed e) w2)))"

text \<open>
  The loop has no end of its own: \<open>loop_passes n\<close> is its state after at most \<open>n\<close> passes, with
  the pending wait; \<open>LoopEnds\<close> is a loop that has returned.
\<close>

fun loop_passes :: "'w worker_loop \<Rightarrow> nat \<Rightarrow> loop_wait \<Rightarrow> bool \<Rightarrow> 'w \<Rightarrow> (loop_wait \<times> bool) \<times> 'w" where
  "loop_passes lp 0 wait ready w = ((wait, ready), w)"
| "loop_passes lp (Suc n) wait ready w =
     (if wait = LoopEnds then ((LoopEnds, False), w)
      else case lp_select lp wait w of
        (True, w1) \<Rightarrow> ((LoopEnds, False), w1)
      | (False, w1) \<Rightarrow>
          (case loop_pass lp w1 of ((wait', ready'), w2) \<Rightarrow> loop_passes lp n wait' ready' w2))"

text \<open>
  \<open>acquireWorkerWithRetry\<close>: the guard's answer at each attempt and, between two attempts,
  which of the three channels the \<open>select\<close> took.
\<close>

datatype guard_answer = Acquired | QueueOwned | GuardFailed string
datatype retry_event = RetryTick | DeadlineTick | ContextDone
datatype acquire_error = IntervalNotPositive | WaitNotPositive | GuardError string | ContextEnded | OwnershipTimeout

fun acquire_attempts :: "(nat \<Rightarrow> guard_answer) \<Rightarrow> (nat \<Rightarrow> retry_event) \<Rightarrow> nat \<Rightarrow> nat \<Rightarrow> (acquire_error option \<times> nat) option" where
  "acquire_attempts guard event 0 i = None"
| "acquire_attempts guard event (Suc fuel) i =
     (case guard i of
        Acquired \<Rightarrow> Some (None, i)
      | GuardFailed e \<Rightarrow> Some (Some (GuardError e), i)
      | QueueOwned \<Rightarrow>
          (case event i of
             ContextDone \<Rightarrow> Some (Some ContextEnded, i)
           | DeadlineTick \<Rightarrow> Some (Some OwnershipTimeout, i)
           | RetryTick \<Rightarrow> acquire_attempts guard event fuel (Suc i)))"

definition acquire_worker_with_retry ::
  "int \<Rightarrow> int \<Rightarrow> (nat \<Rightarrow> guard_answer) \<Rightarrow> (nat \<Rightarrow> retry_event) \<Rightarrow> nat \<Rightarrow> (acquire_error option \<times> nat) option" where
  "acquire_worker_with_retry interval wait guard event fuel =
     (if interval \<le> 0 then Some (Some IntervalNotPositive, 0)
      else if wait \<le> 0 then Some (Some WaitNotPositive, 0)
      else acquire_attempts guard event fuel 0)"

section \<open>The in-memory store as a queue store\<close>

text \<open>A world that holds a queue and a clock beside anything else.\<close>

record 'x service =
  sv_queue :: queue_store
  sv_now :: int
  sv_rest :: 'x

definition on_queue :: "(queue_store \<Rightarrow> 'a \<times> queue_store) \<Rightarrow> 'x service \<Rightarrow> 'a \<times> 'x service" where
  "on_queue f w = (case f (sv_queue w) of (a, q) \<Rightarrow> (a, w\<lparr>sv_queue := q\<rparr>))"

definition memory_ops :: "'x service queue_ops" where
  "memory_ops =
     \<lparr>qo_enqueue = (\<lambda>sub. on_queue (enqueue sub)),
      qo_claim = (\<lambda>worker w. on_queue (claim worker (sv_now w)) w),
      qo_heartbeat = (\<lambda>run worker w. on_queue (heartbeat run worker (sv_now w)) w),
      qo_recover = (\<lambda>now w. on_queue (\<lambda>q. apfst Inr (recover_expired (keys (qs_records q)) now q)) w),
      qo_update = (\<lambda>r w. on_queue (update r (sv_now w)) w),
      qo_promote = (\<lambda>run. on_queue (promote run)),
      qo_cancel = (\<lambda>run. on_queue (cancel_queued run)),
      qo_get = (\<lambda>run w. get_record run (sv_queue w)),
      qo_list = (\<lambda>w. Inr (list_records (sv_queue w)))\<rparr>"

end
