(* ===== verification/Worker_Props.thy ===== *)
theory Worker_Props
  imports Worker
begin

text \<open>
  What the worker needs of a queue store, as a locale with its client lemmas: a run that is
  claimed is driven to a terminal state. The in-memory store provides the contract.
\<close>

section \<open>Meanwhile\<close>

text \<open>
  What other callers may do to the queue while a run executes: submit new runs, cancel queued
  ones, renew leases. \<open>p\<close> is the list of pending runs and \<open>f\<close> the records by their ids.
\<close>

definition still_queued :: "(string \<Rightarrow> queue_record option) \<Rightarrow> string \<Rightarrow> bool" where
  "still_queued f x \<longleftrightarrow> (\<exists>q. f x = Some q \<and> qr_state q = StateQueued)"

definition same_run :: "queue_record \<Rightarrow> queue_record \<Rightarrow> bool" where
  "same_run q q' \<longleftrightarrow> qr_submission q' = qr_submission q \<and> qr_terminal q' = (if qr_state q = StateQueued then qr_terminal q' else qr_terminal q) \<and>
     (qr_state q' = qr_state q \<or> qr_state q = StateQueued \<and> qr_state q' = StateCanceled)"

definition waiting :: "queue_record \<Rightarrow> bool" where
  "waiting q \<longleftrightarrow> qr_state q \<in> {StateQueued, StateCanceled}"

definition meanwhile ::
  "string list \<Rightarrow> (string \<Rightarrow> queue_record option) \<Rightarrow> string list \<Rightarrow> (string \<Rightarrow> queue_record option) \<Rightarrow> bool" where
  "meanwhile p f p' f' \<longleftrightarrow>
     (\<exists>kept new. p' = kept @ new \<and> subseq kept p \<and> (\<forall>x \<in> set new. f x = None)) \<and>
     (\<forall>x q. f x = Some q \<longrightarrow> (\<exists>q'. f' x = Some q' \<and> same_run q q')) \<and>
     (\<forall>x q'. f x = None \<longrightarrow> f' x = Some q' \<longrightarrow> waiting q' \<and> \<not> qr_official q')"

lemma same_run_refl [simp]: "same_run q q"
  by (simp add: same_run_def)

lemma same_run_trans: "same_run q q' \<Longrightarrow> same_run q' q'' \<Longrightarrow> same_run q q''"
  by (auto simp: same_run_def split: if_splits)

lemma same_run_started: "same_run q q' \<Longrightarrow> qr_state q \<noteq> StateQueued \<Longrightarrow>
    qr_state q' = qr_state q \<and> qr_terminal q' = qr_terminal q \<and> qr_submission q' = qr_submission q"
  by (auto simp: same_run_def)

lemma meanwhile_refl [simp]: "meanwhile p f p f"
  unfolding meanwhile_def by (intro conjI exI [of _ p] exI [of _ "[]"]) auto

lemma meanwhile_known: "meanwhile p f p' f' \<Longrightarrow> f x = Some q \<Longrightarrow> \<exists>q'. f' x = Some q' \<and> same_run q q'"
  by (simp add: meanwhile_def)

lemma meanwhile_new: "meanwhile p f p' f' \<Longrightarrow> f x = None \<Longrightarrow> f' x = Some q' \<Longrightarrow> waiting q' \<and> \<not> qr_official q'"
  by (simp add: meanwhile_def)

lemma meanwhile_trans:
  assumes "meanwhile p f p' f'" "meanwhile p' f' p'' f''"
  shows "meanwhile p f p'' f''"
proof -
  obtain k1 n1 where n1: "p' = k1 @ n1" "subseq k1 p" "\<forall>x \<in> set n1. f x = None"
    using assms(1) by (auto simp: meanwhile_def)
  obtain k2 n2 where n2: "p'' = k2 @ n2" "subseq k2 (k1 @ n1)" "\<forall>x \<in> set n2. f' x = None"
    using assms(2) n1(1) by (auto simp: meanwhile_def)
  obtain a b where k2: "k2 = a @ b" "subseq a k1" "subseq b n1" using n2(2) by (auto simp: subseq_append_iff)
  have gone: "f x = None" if "f' x = None" for x
    using meanwhile_known [OF assms(1), of x] that by (cases "f x") auto
  have fresh: "\<forall>x \<in> set (b @ n2). f x = None"
    using n1(3) n2(3) gone by (auto elim: list_emb_set [OF k2(3)])
  show ?thesis
    unfolding meanwhile_def
  proof (intro conjI allI impI)
    show "\<exists>kept new. p'' = kept @ new \<and> subseq kept p \<and> (\<forall>x \<in> set new. f x = None)"
      using n2(1) k2(1) fresh subseq_order.trans [OF k2(2) n1(2)]
      by (intro exI [of _ a] exI [of _ "b @ n2"]) simp
  next
    fix x q assume "f x = Some q"
    then show "\<exists>q'. f'' x = Some q' \<and> same_run q q'"
      using meanwhile_known [OF assms(1)] meanwhile_known [OF assms(2)] same_run_trans by metis
  next
    fix x q' assume x: "f x = None" "f'' x = Some q'"
    show "waiting q'" "\<not> qr_official q'"
      using meanwhile_new [OF assms(1) x(1)] meanwhile_new [OF assms(2) _ x(2)] meanwhile_known [OF assms(2), of x] x(2)
      by (cases "f' x"; force simp: waiting_def same_run_def)+
  qed
qed

lemma meanwhile_without: "meanwhile p f p' f' \<Longrightarrow> f x \<noteq> None \<Longrightarrow> meanwhile p (f(x := None)) p' (f'(x := None))"
  unfolding meanwhile_def by (elim conjE exE, intro conjI exI) (auto split: if_splits)

text \<open>Another official completed run of the same match.\<close>

definition rival :: "(string \<Rightarrow> queue_record option) \<Rightarrow> string \<Rightarrow> string \<Rightarrow> bool" where
  "rival f x match_id \<longleftrightarrow> (\<exists>y q. y \<noteq> x \<and> f y = Some q \<and> qr_match q = match_id \<and>
     qr_state q = StateCompleted \<and> qr_official q)"

lemma rival_meanwhile:
  assumes "meanwhile p (f(x := None)) p' (f'(x := None))"
  shows "rival f' x m \<longleftrightarrow> rival f x m"
proof
  assume "rival f x m"
  then obtain y q where y: "y \<noteq> x" "f y = Some q" "qr_match q = m" "qr_state q = StateCompleted" "qr_official q"
    by (auto simp: rival_def)
  with meanwhile_known [OF assms, of y q] obtain q' where "f' y = Some q'" "same_run q q'" by auto
  with y show "rival f' x m" using same_run_started [of q q'] by (auto simp: rival_def)
next
  assume "rival f' x m"
  then obtain y q' where y: "y \<noteq> x" "f' y = Some q'" "qr_match q' = m" "qr_state q' = StateCompleted" "qr_official q'"
    by (auto simp: rival_def)
  show "rival f x m"
  proof (cases "f y")
    case None
    with meanwhile_new [OF assms, of y q'] y show ?thesis by (simp add: waiting_def)
  next
    case (Some q)
    with meanwhile_known [OF assms, of y q] y have "same_run q q'" by auto
    with y Some show ?thesis unfolding rival_def same_run_def by (metis lifecycle_state.distinct)
  qed
qed

text \<open>The submission is kept; only a completed match can change whether it is official.\<close>

definition decided :: "match_submission \<Rightarrow> queue_record \<Rightarrow> bool" where
  "decided sub r \<longleftrightarrow> (\<exists>b. qr_submission r = sub\<lparr>ms_official := b\<rparr> \<and>
     (b = ms_official sub \<or> qr_state r = StateCompleted \<and>
        (\<exists>t. qr_terminal r = Some t \<and> ta_status t = StatusCompleted)))"

lemma decided_same: "qr_submission r = sub \<Longrightarrow> decided sub r"
  by (auto simp: decided_def intro: exI [of _ "ms_official sub"])

lemma decidedD: "decided sub r \<Longrightarrow> \<exists>b. qr_submission r = sub\<lparr>ms_official := b\<rparr>"
  by (auto simp: decided_def)

section \<open>The contract of a queue store\<close>

locale queue_contract =
  fixes ops :: "'w queue_ops" and ok :: "'w \<Rightarrow> bool"
    and pending :: "'w \<Rightarrow> string list" and see :: "'w \<Rightarrow> string \<Rightarrow> queue_record option"
  assumes claim_head: "ok w \<Longrightarrow> \<not> blank worker \<Longrightarrow> pending w = x # rest \<Longrightarrow>
      \<exists>q r w'. see w x = Some q \<and> qr_state q = StateQueued \<and> qo_claim ops worker w = (Inr r, w') \<and>
        ok w' \<and> pending w' = rest \<and> see w' = (see w)(x \<mapsto> r) \<and>
        qr_submission r = qr_submission q \<and> qr_run r = x \<and> qr_state r = StateLeased"
    and claim_empty: "ok w \<Longrightarrow> \<not> blank worker \<Longrightarrow> pending w = [] \<Longrightarrow>
      qo_claim ops worker w = (Inl NoQueuedSubmission, w)"
    and update_step: "ok w \<Longrightarrow> see w (qr_run r) = Some q \<Longrightarrow> worker_state (qr_state r) \<Longrightarrow>
      qr_state q = qr_state r \<or> edge (qr_state q) (qr_state r) \<Longrightarrow>
      \<exists>r' w'. qo_update ops r w = (None, w') \<and> ok w' \<and> pending w' = pending w \<and>
        see w' = (see w)(qr_run r \<mapsto> r') \<and> qr_submission r' = qr_submission r \<and>
        qr_state r' = qr_state r \<and> qr_terminal r' = qr_terminal r"
    and recover_back: "ok w \<Longrightarrow> \<exists>n back w'. qo_recover ops now w = (Inr n, w') \<and> ok w' \<and>
        pending w' = pending w @ back \<and>
        (\<forall>x. see w' x = see w x \<or>
          (\<exists>q. see w x = Some q \<and> in_flight (qr_state q) \<and> see w' x = Some (requeued q)))"
    and list_records: "ok w \<Longrightarrow> \<exists>rs. qo_list ops w = Inr rs \<and> set rs = ran (see w)"
    and pending_queued: "ok w \<Longrightarrow> x \<in> set (pending w) \<longleftrightarrow> still_queued (see w) x"
    and keyed: "ok w \<Longrightarrow> see w x = Some q \<Longrightarrow> qr_run q = x"
begin

text \<open>What a call of the runner or of the persister does to the queue.\<close>

definition beside :: "'w \<Rightarrow> 'w \<Rightarrow> bool" where
  "beside w w' \<longleftrightarrow> (ok w \<longrightarrow> ok w' \<and> meanwhile (pending w) (see w) (pending w') (see w'))"

text \<open>
  A world in which the worker's run \<open>x\<close> has the given state, reached from another one without
  touching other runs.
\<close>

definition reaches :: "string \<Rightarrow> 'w \<Rightarrow> 'w \<Rightarrow> bool" where
  "reaches x w w' \<longleftrightarrow> ok w' \<and>
     meanwhile (pending w) ((see w)(x := None)) (pending w') ((see w')(x := None))"

definition holds :: "'w \<Rightarrow> queue_record \<Rightarrow> bool" where
  "holds w r \<longleftrightarrow> (\<exists>q. see w (qr_run r) = Some q \<and> qr_submission q = qr_submission r \<and>
     qr_state q = qr_state r \<and> qr_terminal q = qr_terminal r)"

lemma reaches_refl: "ok w \<Longrightarrow> reaches x w w"
  by (simp add: reaches_def)

lemma reaches_trans: "reaches x w w' \<Longrightarrow> reaches x w' w'' \<Longrightarrow> reaches x w w''"
  unfolding reaches_def using meanwhile_trans by blast

lemma beside_reaches:
  assumes "beside w w'" "ok w" "holds w r" "qr_state r \<noteq> StateQueued"
  shows "reaches (qr_run r) w w' \<and> holds w' r"
proof -
  have m: "meanwhile (pending w) (see w) (pending w') (see w')" "ok w'" using assms(1,2) by (auto simp: beside_def)
  obtain q where q: "see w (qr_run r) = Some q" "qr_submission q = qr_submission r" "qr_state q = qr_state r"
    "qr_terminal q = qr_terminal r"
    using assms(3) by (auto simp: holds_def)
  from meanwhile_known [OF m(1) q(1)] obtain q' where q': "see w' (qr_run r) = Some q'" "same_run q q'" by blast
  have "holds w' r" using same_run_started [OF q'(2)] q q'(1) assms(4) by (auto simp: holds_def)
  moreover have "reaches (qr_run r) w w'"
    unfolding reaches_def using m meanwhile_without [OF m(1)] q(1) by simp
  ultimately show ?thesis by simp
qed

lemma save_step:
  assumes "ok w" "holds w r0" "qr_run r = qr_run r0" "worker_state (qr_state r)"
    and "qr_state r0 = qr_state r \<or> edge (qr_state r0) (qr_state r)" and "wk_queue wk = ops"
  obtains w' where "save wk r k w = k w'" "ok w'" "reaches (qr_run r) w w'" "holds w' r"
proof -
  obtain q where q: "see w (qr_run r) = Some q" "qr_state q = qr_state r0" using assms(2,3) by (auto simp: holds_def)
  have e: "qr_state q = qr_state r \<or> edge (qr_state q) (qr_state r)" using assms(5) q(2) by simp
  obtain r' w' where w': "qo_update ops r w = (None, w')" "ok w'" "pending w' = pending w"
    "see w' = (see w)(qr_run r \<mapsto> r')" "qr_submission r' = qr_submission r" "qr_state r' = qr_state r"
    "qr_terminal r' = qr_terminal r"
    using update_step [OF assms(1) q(1) assms(4) e] by blast
  show ?thesis
    by (rule that [of w']) (use w' assms(6) in \<open>auto simp: save_def reaches_def holds_def\<close>)
qed

text \<open>A worker over this store whose runner, persister and rankings leave the queue to others.\<close>

definition steady :: "'w worker \<Rightarrow> bool" where
  "steady wk \<longleftrightarrow> wk_queue wk = ops \<and> (\<forall>sub w. beside w (snd (wk_run wk sub w))) \<and>
     (\<forall>sub res w. beside w (snd (wk_persist wk sub res w))) \<and>
     (\<forall>f sub sy w. wk_rankings wk = Some f \<longrightarrow> beside w (snd (f sub sy w)))"

lemma steadyD:
  assumes "steady wk"
  shows "wk_queue wk = ops" "wk_run wk sub w = (a, w1) \<Longrightarrow> beside w w1"
    "wk_persist wk sub res w = (b, w2) \<Longrightarrow> beside w w2"
    "wk_rankings wk = Some f \<Longrightarrow> f sub sy w = (c, w3) \<Longrightarrow> beside w w3"
  using assms unfolding steady_def by (metis snd_conv)+

text \<open>The end of a pass: the returned record is the stored one and its run is over.\<close>

definition ends :: "string \<Rightarrow> 'w \<Rightarrow> answer \<times> 'w \<Rightarrow> queue_record \<Rightarrow> bool" where
  "ends x w out r \<longleftrightarrow> reaches x w (snd out) \<and> fst (fst out) = Some r \<and> qr_run r = x \<and> holds (snd out) r \<and>
     (qr_state r = StateFailed \<and> snd (fst out) \<noteq> None \<or>
      qr_state r = StateCompleted \<and>
      (\<exists>t. qr_terminal r = Some t \<and>
        (ta_status t = StatusCompleted \<longrightarrow>
           qr_official r = (ms_kind (qr_submission r) \<noteq> RunKindRerun \<and> \<not> rival (see (snd out)) x (qr_match r)))))"

lemma ends_trans: "reaches x w w1 \<Longrightarrow> ends x w1 out r \<Longrightarrow> ends x w out r"
  using reaches_trans by (auto simp: ends_def)

lemma fail_with_ends:
  assumes "ok w" "holds w r" "in_flight (qr_state r)" "wk_queue wk = ops"
  shows "ends (qr_run r) w (fail_with wk r e w) (r\<lparr>qr_state := StateFailed\<rparr>)"
proof -
  let ?r = "r\<lparr>qr_state := StateFailed\<rparr>"
  obtain w' where w': "save wk ?r (\<lambda>w. ((Some ?r, Some e), w)) w = ((Some ?r, Some e), w')" "ok w'"
    "reaches (qr_run ?r) w w'" "holds w' ?r"
    by (rule save_step [OF assms(1,2), of ?r wk "\<lambda>w. ((Some ?r, Some e), w)"])
      (use assms(3,4) in \<open>auto simp: worker_state_def edge.simps\<close>)
  then show ?thesis by (simp add: ends_def fail_with_def Let_def)
qed

lemma apply_rankings_reaches:
  assumes "steady wk" "ok w" "holds w r" "qr_state r = StateCompleted"
  shows "\<exists>e w'. apply_rankings wk r res run_err w = ((Some r, e), w') \<and> reaches (qr_run r) w w' \<and> holds w' r"
proof (cases "wk_rankings wk")
  case None
  then show ?thesis using assms(2,3) by (simp add: apply_rankings_def reaches_refl)
next
  case (Some f)
  obtain e w1 where f: "f (qr_submission r) (summary_from_record (er_record res)) w = (e, w1)" by fastforce
  have "reaches (qr_run r) w w1 \<and> holds w1 r"
    using beside_reaches [OF steadyD(4) [OF assms(1) Some f] assms(2,3)] assms(4) by simp
  then show ?thesis using Some f assms(2,3)
    by (auto simp: apply_rankings_def Let_def reaches_refl split: option.split)
qed

lemma save_completed:
  assumes "steady wk" "ok w" "holds w r0" "qr_state r0 = StatePersisting" "qr_run r = qr_run r0"
    and "qr_state r = StateCompleted" "qr_terminal r = Some t"
    and "ta_status t = StatusCompleted \<Longrightarrow>
      qr_official r = (ms_kind (qr_submission r) \<noteq> RunKindRerun \<and> \<not> rival (see w) (qr_run r) (qr_match r))"
  shows "ends (qr_run r) w (save wk r (apply_rankings wk r res run_err) w) r"
proof -
  obtain w1 where w1: "save wk r (apply_rankings wk r res run_err) w = apply_rankings wk r res run_err w1"
    "ok w1" "reaches (qr_run r) w w1" "holds w1 r"
    by (rule save_step [OF assms(2,3,5), of wk "apply_rankings wk r res run_err"])
      (use assms(4,6) steadyD(1) [OF assms(1)] in \<open>auto simp: worker_state_def edge.simps\<close>)
  obtain e w2 where w2: "apply_rankings wk r res run_err w1 = ((Some r, e), w2)" "reaches (qr_run r) w1 w2" "holds w2 r"
    using apply_rankings_reaches [OF assms(1) w1(2,4) assms(6)] by blast
  have r: "reaches (qr_run r) w w2" using reaches_trans [OF w1(3) w2(2)] .
  then have rv: "rival (see w2) (qr_run r) m = rival (see w) (qr_run r) m" for m
    using rival_meanwhile unfolding reaches_def by blast
  show ?thesis
    unfolding ends_def w1(1) w2(1) fst_conv snd_conv rv using r w2(3) assms(6-8) by simp
qed

lemma auto_promote_rival:
  assumes "ok w" "wk_queue wk = ops"
  shows "should_auto_promote wk r w =
    Inr (ms_kind (qr_submission r) \<noteq> RunKindRerun \<and> \<not> rival (see w) (qr_run r) (qr_match r))"
proof -
  obtain rs where rs: "qo_list ops w = Inr rs" "set rs = ran (see w)" using list_records [OF assms(1)] by blast
  have "list_ex (\<lambda>c. qr_match c = qr_match r \<and> qr_run c \<noteq> qr_run r \<and> qr_state c = StateCompleted \<and> qr_official c) rs
      \<longleftrightarrow> rival (see w) (qr_run r) (qr_match r)"
  proof
    assume "rival (see w) (qr_run r) (qr_match r)"
    then obtain y c where "y \<noteq> qr_run r" "see w y = Some c" "qr_match c = qr_match r"
      "qr_state c = StateCompleted" "qr_official c" by (auto simp: rival_def)
    moreover from this have "c \<in> set rs" "qr_run c = y" using rs(2) keyed [OF assms(1)] by (auto simp: ran_def)
    ultimately show "list_ex (\<lambda>c. qr_match c = qr_match r \<and> qr_run c \<noteq> qr_run r \<and> qr_state c = StateCompleted \<and> qr_official c) rs"
      unfolding list_ex_iff by blast
  next
    assume "list_ex (\<lambda>c. qr_match c = qr_match r \<and> qr_run c \<noteq> qr_run r \<and> qr_state c = StateCompleted \<and> qr_official c) rs"
    then obtain y c where c: "see w y = Some c" "qr_run c \<noteq> qr_run r" "qr_match c = qr_match r"
      "qr_state c = StateCompleted" "qr_official c" using rs(2) by (auto simp: list_ex_iff ran_def)
    with keyed [OF assms(1) c(1)] show "rival (see w) (qr_run r) (qr_match r)" unfolding rival_def by blast
  qed
  then show ?thesis using rs(1) assms(2) by (auto simp: should_auto_promote_def)
qed

lemma complete_run_ends:
  assumes "steady wk" "ok w" "holds w r" "qr_state r = StatePersisting"
  shows "\<exists>r'. ends (qr_run r) w (complete_run wk r res run_err stored w) r' \<and> qr_state r' = StateCompleted \<and>
    qr_terminal r' = Some (stored\<lparr>ta_status := rc_status (er_record res), ta_error := terminal_error (er_record res)\<rparr>) \<and>
    decided (qr_submission r) r'"
proof -
  let ?t = "stored\<lparr>ta_status := rc_status (er_record res), ta_error := terminal_error (er_record res)\<rparr>"
  let ?r = "r\<lparr>qr_state := StateCompleted, qr_terminal := Some ?t\<rparr>"
  show ?thesis
  proof (cases "rc_status (er_record res) = StatusCompleted")
    case False
    then have c: "complete_run wk r res run_err stored w = save wk ?r (apply_rankings wk ?r res run_err) w"
      by (simp add: complete_run_def Let_def)
    have "ends (qr_run ?r) w (save wk ?r (apply_rankings wk ?r res run_err) w) ?r"
      by (rule save_completed [OF assms(1-3), of ?r ?t]) (use assms(4) False in simp_all)
    then show ?thesis unfolding c
      by (intro exI [of _ ?r]) (simp add: decided_same)
  next
    case True
    define b where "b = (ms_kind (qr_submission r) \<noteq> RunKindRerun \<and> \<not> rival (see w) (qr_run r) (qr_match r))"
    let ?s = "set_official b ?r"
    have "should_auto_promote wk ?r w = Inr b"
      using auto_promote_rival [OF assms(2) steadyD(1) [OF assms(1)], of ?r] by (simp add: b_def)
    then have c: "complete_run wk r res run_err stored w = save wk ?s (apply_rankings wk ?s res run_err) w"
      using True by (simp add: complete_run_def Let_def)
    have "ends (qr_run ?s) w (save wk ?s (apply_rankings wk ?s res run_err) w) ?s"
      by (rule save_completed [OF assms(1-3), of ?s ?t]) (use assms(4) in \<open>simp_all add: set_official_def b_def\<close>)
    then show ?thesis unfolding c
      using True by (intro exI [of _ ?s]) (auto simp: set_official_def decided_def)
  qed
qed

text \<open>The run of \<open>r\<close> was executed with a result that fits it and whose artifacts were stored.\<close>

definition succeeds :: "'w worker \<Rightarrow> queue_record \<Rightarrow> queue_record \<Rightarrow> bool" where
  "succeeds wk r r' \<longleftrightarrow> (\<exists>w1 w2 w3 w4 res err stored.
     wk_run wk (qr_submission r) w1 = ((res, err), w2) \<and> rc_match_id (er_record res) = qr_match r \<and> qr_match r \<noteq> [] \<and>
     wk_persist wk (qr_submission r) res w3 = (Inr stored, w4) \<and>
     qr_terminal r' = Some (stored\<lparr>ta_status := rc_status (er_record res), ta_error := terminal_error (er_record res)\<rparr>))"

lemma execute_run_ends:
  assumes "steady wk" "ok w" "holds w r" "qr_state r = StateRunning"
  shows "\<exists>r'. ends (qr_run r) w (execute_run wk r w) r' \<and>
    decided (qr_submission r) r' \<and> (qr_state r' = StateCompleted \<longrightarrow> succeeds wk r r')"
proof -
  obtain res err w1 where run: "wk_run wk (qr_submission r) w = ((res, err), w1)" by (metis prod.collapse)
  have b1: "reaches (qr_run r) w w1" "holds w1 r"
    using beside_reaches [OF steadyD(2) [OF assms(1) run] assms(2,3)] assms(4) by simp_all
  have ok1: "ok w1" using b1(1) by (simp add: reaches_def)
  note ops = steadyD(1) [OF assms(1)]
  have failed: "ends (qr_run r) w (fail_with wk r e w1) (r\<lparr>qr_state := StateFailed\<rparr>)" for e
    using ends_trans [OF b1(1)] fail_with_ends [OF ok1 b1(2) _ ops, of e] assms(4) by (simp add: in_flight_def)
  have sub: "decided (qr_submission r) (r\<lparr>qr_state := st\<rparr>)" for st by (rule decided_same) simp
  show ?thesis
  proof (cases "rc_match_id (er_record res) = [] \<or> rc_match_id (er_record res) \<noteq> qr_match r")
    case True
    then have "\<exists>e. execute_run wk r w = fail_with wk r e w1" by (auto simp: execute_run_def run)
    then obtain e where "execute_run wk r w = fail_with wk r e w1" by blast
    then show ?thesis using failed [of e] sub [of StateFailed]
      by (intro exI [of _ "r\<lparr>qr_state := StateFailed\<rparr>"]) simp
  next
    case False
    let ?r = "r\<lparr>qr_state := StatePersisting\<rparr>"
    define k where "k = (\<lambda>w2. case wk_persist wk (qr_submission ?r) res w2 of
                (Inl e, w3) \<Rightarrow> fail_with wk ?r (PersistError e) w3
              | (Inr stored, w3) \<Rightarrow> complete_run wk ?r res err stored w3)"
    have fits: "rc_match_id (er_record res) = qr_match r" "qr_match r \<noteq> []" using False by auto
    have ex: "execute_run wk r w = save wk ?r k w1" using fits by (simp add: execute_run_def run k_def Let_def)
    obtain w2 where w2: "save wk ?r k w1 = k w2" "ok w2" "reaches (qr_run ?r) w1 w2" "holds w2 ?r"
      by (rule save_step [OF ok1 b1(2), of ?r wk k]) (use assms(4) ops in \<open>auto simp: worker_state_def edge.simps\<close>)
    obtain out w3 where p: "wk_persist wk (qr_submission r) res w2 = (out, w3)" by fastforce
    have b3: "reaches (qr_run ?r) w2 w3" "holds w3 ?r"
      using beside_reaches [OF steadyD(3) [OF assms(1) p] w2(2,4)] by simp_all
    have ok3: "ok w3" using b3(1) by (simp add: reaches_def)
    have all: "reaches (qr_run r) w w3" using reaches_trans [OF reaches_trans [OF b1(1)]] w2(3) b3(1) by simp
    show ?thesis
    proof (cases out)
      case (Inl e)
      then have k: "k w2 = fail_with wk ?r (PersistError e) w3" using p by (simp add: k_def)
      have "ends (qr_run ?r) w3 (fail_with wk ?r (PersistError e) w3) (?r\<lparr>qr_state := StateFailed\<rparr>)"
        by (rule fail_with_ends [OF ok3 b3(2) _ ops]) (simp add: in_flight_def)
      then show ?thesis unfolding ex w2(1) k using ends_trans [OF all] sub [of StateFailed]
        by (intro exI [of _ "?r\<lparr>qr_state := StateFailed\<rparr>"]) simp
    next
      case (Inr stored)
      then have k: "k w2 = complete_run wk ?r res err stored w3" using p by (simp add: k_def)
      obtain r' where r': "ends (qr_run ?r) w3 (complete_run wk ?r res err stored w3) r'"
        "qr_terminal r' = Some (stored\<lparr>ta_status := rc_status (er_record res), ta_error := terminal_error (er_record res)\<rparr>)"
        "decided (qr_submission ?r) r'"
        using complete_run_ends [OF assms(1) ok3 b3(2), of res err stored] by auto
      have "succeeds wk r r'" unfolding succeeds_def using run p Inr fits r'(2) by blast
      moreover have "ends (qr_run r) w (complete_run wk ?r res err stored w3) r'"
        using ends_trans [OF all] r'(1) by simp
      ultimately show ?thesis unfolding ex w2(1) k using r'(3) by (intro exI [of _ r']) auto
    qed
  qed
qed

text \<open>The client's main fact: a claimed run ends.\<close>

lemma process_next_ends:
  assumes "steady wk" "ok w" "\<not> blank worker" "pending w = x # rest"
  obtains q r e w' where "process_next wk worker w = ((Some r, e), w')" "see w x = Some q" "qr_state q = StateQueued"
    "ok w'" "meanwhile rest ((see w)(x := None)) (pending w') ((see w')(x := None))" "qr_run r = x" "holds w' r"
    "qr_state r = StateFailed \<and> e \<noteq> None \<or> qr_state r = StateCompleted \<and> succeeds wk q r \<and>
      (\<exists>t. qr_terminal r = Some t \<and> (ta_status t = StatusCompleted \<longrightarrow>
           qr_official r = (ms_kind (qr_submission r) \<noteq> RunKindRerun \<and> \<not> rival (see w') x (qr_match r))))"
    "decided (qr_submission q) r"
proof -
  note ops = steadyD(1) [OF assms(1)]
  obtain q c w1 where c: "see w x = Some q" "qr_state q = StateQueued" "qo_claim ops worker w = (Inr c, w1)"
    "ok w1" "pending w1 = rest" "see w1 = (see w)(x \<mapsto> c)" "qr_submission c = qr_submission q" "qr_run c = x"
    "qr_state c = StateLeased"
    using claim_head [OF assms(2-4)] by blast
  let ?r = "c\<lparr>qr_state := StateRunning\<rparr>"
  have hc: "holds w1 c" using c(6,8) by (simp add: holds_def)
  obtain w2 where w2: "save wk ?r (execute_run wk ?r) w1 = execute_run wk ?r w2" "ok w2"
    "reaches (qr_run ?r) w1 w2" "holds w2 ?r"
    by (rule save_step [OF c(4) hc, of ?r wk "execute_run wk ?r"])
      (use c(9) ops in \<open>auto simp: worker_state_def edge.simps\<close>)
  have p: "process_next wk worker w = execute_run wk ?r w2" using c(3) w2(1) ops by (simp add: process_next_def Let_def)
  obtain r where r: "ends x w2 (execute_run wk ?r w2) r" "decided (qr_submission q) r"
    "qr_state r = StateCompleted \<longrightarrow> succeeds wk ?r r"
    using execute_run_ends [OF assms(1) w2(2,4)] c(7,8) by auto
  have su: "succeeds wk ?r r = succeeds wk q r" unfolding succeeds_def using c(7) by simp
  obtain a e w' where out: "execute_run wk ?r w2 = ((a, e), w')" by (metis prod.collapse)
  have e: "reaches x w2 w'" "a = Some r" "qr_run r = x" "holds w' r"
    "qr_state r = StateFailed \<and> e \<noteq> None \<or> qr_state r = StateCompleted \<and> (\<exists>t. qr_terminal r = Some t \<and>
        (ta_status t = StatusCompleted \<longrightarrow>
           qr_official r = (ms_kind (qr_submission r) \<noteq> RunKindRerun \<and> \<not> rival (see w') x (qr_match r))))"
    using r(1) unfolding ends_def out fst_conv snd_conv by blast+
  have "reaches x w1 w'" using reaches_trans [OF _ e(1)] w2(3) c(8) by simp
  then have m: "ok w'" "meanwhile rest ((see w)(x := None)) (pending w') ((see w')(x := None))"
    using c(5,6) by (simp_all add: reaches_def)
  show ?thesis
    by (rule that [OF _ c(1,2) m e(3,4) _ r(2)]) (use p out e(2,5) r(3) su in auto)
qed

lemma process_next_idle:
  assumes "ok w" "\<not> blank worker" "pending w = []" "wk_queue wk = ops"
  shows "process_next wk worker w = ((None, Some (QueueError NoQueuedSubmission)), w)"
  using claim_empty [OF assms(1-3)] assms(4) by (simp add: process_next_def)

end

end
