(* ===== verification/Worker_Spec.thy ===== *)
theory Worker_Spec
  imports Worker_Props
begin

text \<open>
  The worker on the in-memory queue store: the store provides the contract of
  \<open>Worker_Props\<close>, a claimed run always ends, and the polling loop drains the queue in order.
\<close>

section \<open>The in-memory store keeps the contract\<close>

lemma lookup_list_records:
  assumes "queue_ok s"
  shows "set (list_records s) = ran (lookup s)"
proof -
  have "set (list_records s) = {r. \<exists>x \<in> set (qs_all s). lookup s x = Some r}"
    by (force simp: list_records_def List.map_filter_def lookup_def)
  then show ?thesis using queue_okD(3) [OF assms] by (force simp: ran_def)
qed

lemma queue_ok_keys:
  assumes "queue_ok s"
  shows "distinct (keys (qs_records s))" "set (keys (qs_records s)) = fst ` set (qs_records s)"
  using queue_okD(1) [OF assms] by (simp_all add: keys_def)

lemma memory_claim_head:
  assumes "queue_ok s" "\<not> blank worker" "qs_order s = x # rest"
  shows "\<exists>q s'. lookup s x = Some q \<and> qr_state q = StateQueued \<and> claim worker now s = (Inr (leased worker now q), s') \<and>
    queue_ok s' \<and> qs_order s' = rest \<and> lookup s' = (lookup s)(x \<mapsto> leased worker now q) \<and> qr_run q = x"
proof (cases rule: claim_cases [OF assms(1), of worker now])
  case (2 y rest' r)
  have "queue_ok (snd (claim worker now s))" by (rule claim_inv [OF assms(1)])
  moreover have "qr_run r = y" using queue_okD(6) [OF assms(1) 2(3)] by (simp add: record_ok_def)
  ultimately show ?thesis using 2 assms(3) by (auto simp: lookup_def)
qed (use assms in auto)

lemma memory_update:
  assumes "queue_ok s" "lookup s (qr_run r) = Some q" "worker_state (qr_state r)"
    and "qr_state q = qr_state r \<or> edge (qr_state q) (qr_state r)"
  shows "\<exists>t s'. update r now s = (None, s') \<and> queue_ok s' \<and> qs_order s' = qs_order s \<and>
    lookup s' = (lookup s)(qr_run r \<mapsto> r\<lparr>qr_completed_at := t\<rparr>)"
  using update_Some [OF assms(2,4), of now] update_inv [OF assms(1,3), of now] by auto

lemma memory_recover:
  assumes "queue_ok s"
  shows "\<exists>back s'. snd (recover_expired (keys (qs_records s)) now s) = s' \<and> queue_ok s' \<and>
    qs_order s' = qs_order s @ back \<and>
    (\<forall>x. lookup s' x = lookup s x \<or>
       (\<exists>q. lookup s x = Some q \<and> in_flight (qr_state q) \<and> lookup s' x = Some (requeued q)))"
proof -
  note k = queue_ok_keys [OF assms]
  have "lookup (snd (recover_expired (keys (qs_records s)) now s)) x = lookup s x \<or>
       (\<exists>q. lookup s x = Some q \<and> in_flight (qr_state q) \<and>
         lookup (snd (recover_expired (keys (qs_records s)) now s)) x = Some (requeued q))" for x
    using recover_expired_spec [OF k, of now] by (auto simp: expired_def recoverable_alt)
  then show ?thesis using recover_expired_spec [OF k, of now] recover_inv [OF assms k, of now] by blast
qed

interpretation memory: queue_contract memory_ops "\<lambda>w. queue_ok (sv_queue w)"
  "\<lambda>w. qs_order (sv_queue w)" "\<lambda>w. lookup (sv_queue w)"
proof (unfold_locales, goal_cases)
  case (1 w worker x rest)
  from memory_claim_head [OF this, of "sv_now w"] show ?case
    by (auto simp: memory_ops_def on_queue_def)
next
  case (2 w worker)
  then have "claim worker (sv_now w) (sv_queue w) = (Inl NoQueuedSubmission, sv_queue w)"
    by (simp add: claim_def)
  then show ?case by (simp add: memory_ops_def on_queue_def)
next
  case (3 w r q)
  from memory_update [OF this, of "sv_now w"] obtain t s' where "update r (sv_now w) (sv_queue w) = (None, s')"
    "queue_ok s'" "qs_order s' = qs_order (sv_queue w)"
    "lookup s' = (lookup (sv_queue w))(qr_run r \<mapsto> r\<lparr>qr_completed_at := t\<rparr>)" by blast
  then show ?case
    by (intro exI [of _ "r\<lparr>qr_completed_at := t\<rparr>"] exI [of _ "w\<lparr>sv_queue := s'\<rparr>"])
      (simp add: memory_ops_def on_queue_def)
next
  case (4 w now)
  from memory_recover [OF this, of now] show ?case
    by (auto simp: memory_ops_def on_queue_def apfst_def map_prod_def split: prod.splits)
next
  case (5 w)
  then show ?case by (simp add: memory_ops_def lookup_list_records)
next
  case (6 w x)
  then show ?case using queue_okD(5) by (simp add: still_queued_def)
next
  case (7 w x q)
  then show ?case using queue_okD(6) by (simp add: record_ok_def)
qed

section \<open>Callers beside the worker\<close>

text \<open>What happens to the queue while a run executes.\<close>

inductive bystander :: "queue_store \<Rightarrow> queue_store \<Rightarrow> bool" where
  by_submit: "\<not> ms_official sub \<Longrightarrow> bystander s (snd (enqueue sub s))"
| by_heartbeat: "bystander s (snd (heartbeat rid worker now s))"
| by_cancel: "bystander s (snd (cancel_queued rid s))"

lemma same_run_lease [simp]: "same_run q (q\<lparr>qr_lease := l\<rparr>)"
  by (simp add: same_run_def)

lemma bystander_meanwhile:
  assumes "bystander s s'" "queue_ok s"
  shows "queue_ok s' \<and> meanwhile (qs_order s) (lookup s) (qs_order s') (lookup s')"
  using assms(1)
proof (cases rule: bystander.cases)
  case (by_submit sub)
  then have "queue_ok s'" using enqueue_inv [OF assms(2)] by simp
  moreover have "meanwhile (qs_order s) (lookup s) (qs_order s') (lookup s')"
  proof (cases rule: enqueue_cases [of sub s])
    case (2 r)
    then show ?thesis using by_submit unfolding meanwhile_def
      by (intro conjI exI [of _ "qs_order s"] exI [of _ "[ms_run sub]"])
        (auto simp: lookup_def waiting_def)
  qed (simp add: by_submit)
  ultimately show ?thesis ..
next
  case (by_heartbeat rid worker now)
  then have "queue_ok s'" using heartbeat_inv [OF assms(2)] by simp
  moreover have "meanwhile (qs_order s) (lookup s) (qs_order s') (lookup s')"
  proof (cases rule: heartbeat_cases [of rid worker now s])
    case (2 r l)
    then show ?thesis using by_heartbeat unfolding meanwhile_def
      by (intro conjI exI [of _ "qs_order s"] exI [of _ "[]"]) (auto simp: lookup_def)
  qed (simp add: by_heartbeat)
  ultimately show ?thesis ..
next
  case (by_cancel rid)
  then have "queue_ok s'" using cancel_inv [OF assms(2)] by simp
  moreover have "meanwhile (qs_order s) (lookup s) (qs_order s') (lookup s')"
  proof (cases rule: cancel_cases [of rid s])
    case (2 r)
    then show ?thesis using by_cancel unfolding meanwhile_def
      by (intro conjI exI [of _ "filter (\<lambda>id. id \<noteq> rid) (qs_order s)"] exI [of _ "[]"])
        (auto simp: lookup_def same_run_def)
  qed (simp add: by_cancel)
  ultimately show ?thesis ..
qed

lemma bystanders_meanwhile:
  "bystander\<^sup>*\<^sup>* s s' \<Longrightarrow> queue_ok s \<Longrightarrow> queue_ok s' \<and> meanwhile (qs_order s) (lookup s) (qs_order s') (lookup s')"
proof (induction rule: rtranclp_induct)
  case (step s1 s2)
  then show ?case using bystander_meanwhile [OF step.hyps(2)] meanwhile_trans by blast
qed simp

text \<open>
  A worker on the in-memory store whose runner, persister and rankings do not touch the queue
  themselves: whatever they do takes time in which others use it.
\<close>

definition bystanders :: "'x service \<Rightarrow> 'x service \<Rightarrow> bool" where
  "bystanders w w' \<longleftrightarrow> bystander\<^sup>*\<^sup>* (sv_queue w) (sv_queue w')"

definition memory_worker :: "'x service worker \<Rightarrow> bool" where
  "memory_worker wk \<longleftrightarrow> wk_queue wk = memory_ops \<and> (\<forall>sub w. bystanders w (snd (wk_run wk sub w))) \<and>
     (\<forall>sub res w. bystanders w (snd (wk_persist wk sub res w))) \<and>
     (\<forall>f sub sy w. wk_rankings wk = Some f \<longrightarrow> bystanders w (snd (f sub sy w)))"

lemma bystanders_beside: "bystanders w w' \<Longrightarrow> memory.beside w w'"
  using bystanders_meanwhile unfolding memory.beside_def bystanders_def by blast

lemma memory_worker_steady: "memory_worker wk \<Longrightarrow> memory.steady wk"
  unfolding memory_worker_def memory.steady_def using bystanders_beside by blast

lemma decided_cases:
  assumes "decided sub r"
  shows "qr_state r \<noteq> StateCompleted \<Longrightarrow> qr_submission r = sub"
    "qr_terminal r = Some t \<Longrightarrow> ta_status t \<noteq> StatusCompleted \<Longrightarrow> qr_submission r = sub"
  using assms by (auto simp: decided_def)

text \<open>
  C5. A claimed run always ends: when some run is pending, \<open>ProcessNext\<close> takes the one that has
  been pending longest and leaves it completed or failed. It is completed only with a terminal
  record of its own match whose artifacts were persisted; then it carries these artifacts with
  the status of the match. Of the submission only the official flag may change, and only by a
  completed run of a match that itself completed: this run is official exactly when it is no
  rerun and no other completed run of the match is official. A completed run of a failed or
  canceled match and a failed run keep the flag of their submission. A failed run comes with an
  error. The record that is returned is the stored one.
\<close>

theorem process_next_ends_run:
  assumes "memory_worker wk" "queue_reach new_queue_store (sv_queue w)" "\<not> blank worker"
    and "qs_order (sv_queue w) = x # rest" "lookup (sv_queue w) x = Some q"
  shows "\<exists>r e w' stored. process_next wk worker w = ((Some r, e), w') \<and>
    lookup (sv_queue w') x = Some stored \<and> qr_submission stored = qr_submission r \<and>
    qr_state stored = qr_state r \<and> qr_terminal stored = qr_terminal r \<and>
    (\<exists>b. qr_submission r = (qr_submission q)\<lparr>ms_official := b\<rparr>) \<and>
    (qr_state r = StateFailed \<and> e \<noteq> None \<and> qr_submission r = qr_submission q \<or>
     qr_state r = StateCompleted \<and>
       (\<exists>w1 w2 w3 w4 res err t. wk_run wk (qr_submission q) w1 = ((res, err), w2) \<and>
          rc_match_id (er_record res) = qr_match q \<and> wk_persist wk (qr_submission q) res w3 = (Inr t, w4) \<and>
          qr_terminal r = Some (t\<lparr>ta_status := rc_status (er_record res), ta_error := terminal_error (er_record res)\<rparr>) \<and>
          (qr_official r \<longleftrightarrow>
             (if rc_status (er_record res) = StatusCompleted
              then ms_kind (qr_submission q) \<noteq> RunKindRerun \<and> \<not> rival (lookup (sv_queue w')) x (qr_match q)
              else qr_official q))))"
proof -
  have ok: "queue_ok (sv_queue w)" using queue_reach_inv [OF assms(2) queue_ok_new] .
  obtain q' r e w' where p: "process_next wk worker w = ((Some r, e), w')" "lookup (sv_queue w) x = Some q'"
    "qr_run r = x" "memory.holds w' r"
    "qr_state r = StateFailed \<and> e \<noteq> None \<or> qr_state r = StateCompleted \<and> memory.succeeds wk q' r \<and>
      (\<exists>t. qr_terminal r = Some t \<and> (ta_status t = StatusCompleted \<longrightarrow>
           qr_official r = (ms_kind (qr_submission r) \<noteq> RunKindRerun \<and> \<not> rival (lookup (sv_queue w')) x (qr_match r))))"
    and dec: "decided (qr_submission q') r"
    by (rule memory.process_next_ends [OF memory_worker_steady [OF assms(1)] ok assms(3,4)])
  note sub = decidedD [OF dec]
  have q: "q' = q" using p(2) assms(5) by simp
  note kept = decided_cases [OF dec, unfolded q]
  obtain stored where st: "lookup (sv_queue w') x = Some stored" "qr_submission stored = qr_submission r"
    "qr_state stored = qr_state r" "qr_terminal stored = qr_terminal r"
    using p(3,4) by (auto simp: memory.holds_def)
  have "qr_state r = StateFailed \<and> e \<noteq> None \<and> qr_submission r = qr_submission q \<or>
     qr_state r = StateCompleted \<and>
       (\<exists>w1 w2 w3 w4 res err t. wk_run wk (qr_submission q) w1 = ((res, err), w2) \<and>
          rc_match_id (er_record res) = qr_match q \<and> wk_persist wk (qr_submission q) res w3 = (Inr t, w4) \<and>
          qr_terminal r = Some (t\<lparr>ta_status := rc_status (er_record res), ta_error := terminal_error (er_record res)\<rparr>) \<and>
          (qr_official r \<longleftrightarrow>
             (if rc_status (er_record res) = StatusCompleted
              then ms_kind (qr_submission q) \<noteq> RunKindRerun \<and> \<not> rival (lookup (sv_queue w')) x (qr_match q)
              else qr_official q)))"
  proof (cases "qr_state r = StateFailed")
    case True
    then show ?thesis using p(5) kept(1) by simp
  next
    case False
    with p(5) have c: "qr_state r = StateCompleted" "memory.succeeds wk q r"
      "\<exists>t. qr_terminal r = Some t \<and> (ta_status t = StatusCompleted \<longrightarrow>
           qr_official r = (ms_kind (qr_submission r) \<noteq> RunKindRerun \<and> \<not> rival (lookup (sv_queue w')) x (qr_match r)))"
      by (simp_all add: q)
    from sub have same: "ms_kind (qr_submission r) = ms_kind (qr_submission q)" "qr_match r = qr_match q"
      by (auto simp: q)
    from c(2) obtain w1 w2 w3 w4 res err t where run: "wk_run wk (qr_submission q) w1 = ((res, err), w2)"
      "rc_match_id (er_record res) = qr_match q" "wk_persist wk (qr_submission q) res w3 = (Inr t, w4)"
      "qr_terminal r = Some (t\<lparr>ta_status := rc_status (er_record res), ta_error := terminal_error (er_record res)\<rparr>)"
      unfolding memory.succeeds_def by blast
    have "qr_official r \<longleftrightarrow>
             (if rc_status (er_record res) = StatusCompleted
              then ms_kind (qr_submission q) \<noteq> RunKindRerun \<and> \<not> rival (lookup (sv_queue w')) x (qr_match q)
              else qr_official q)"
      using run(4) c(3) same kept(2) [OF run(4)] by simp
    with c(1) run show ?thesis by blast
  qed
  with p(1) st sub show ?thesis unfolding q by blast
qed

end
