(* ===== verification/Commands.thy ===== *)
theory Commands
  imports Worker_Spec
begin

text \<open>
  The command layer: admission and cancellation of \<open>internal/platform/service/command.go\<close> and
  retry, rerun and promotion of \<open>run_commands.go\<close>, over any queue store. The admission
  validator, the ranking refresh and the generator of run ids are parameters.
\<close>

section \<open>Commands\<close>

datatype service_error =
  AdmissionError string
| QueueFailure queue_error
| RefreshFailure ranking_error
| OnlyFailedRetried
| OnlyCompletedRerun
| BadRequest service_error    \<comment> \<open>wrapped by \<open>ErrBadRequest\<close>\<close>
| Conflict service_error      \<comment> \<open>wrapped by \<open>ErrConflict\<close>\<close>

definition lifecycle_str :: "lifecycle_state \<Rightarrow> string" where
  "lifecycle_str st =
     (case st of
        StateQueued \<Rightarrow> ''queued'' | StateLeased \<Rightarrow> ''leased'' | StateRunning \<Rightarrow> ''running''
      | StatePersisting \<Rightarrow> ''persisting'' | StateCompleted \<Rightarrow> ''completed'' | StateFailed \<Rightarrow> ''failed''
      | StateCanceled \<Rightarrow> ''canceled'' | OtherState s \<Rightarrow> s)"

definition transition_error_text :: "transition_error \<Rightarrow> string" where
  "transition_error_text e =
     (case e of
        TerminalState src dst \<Rightarrow> ''service: terminal state '' @ quoted (lifecycle_str src) @
          '' cannot transition to '' @ quoted (lifecycle_str dst)
      | UnknownState src \<Rightarrow> ''service: unknown lifecycle state '' @ quoted (lifecycle_str src)
      | InvalidTransition src dst \<Rightarrow> ''service: invalid transition '' @ quoted (lifecycle_str src) @
          '' -> '' @ quoted (lifecycle_str dst))"

definition queue_error_text :: "queue_error \<Rightarrow> string" where
  "queue_error_text e =
     (case e of
        RunIDRequired \<Rightarrow> ''service: run_id is required''
      | RunIDExists x \<Rightarrow> ''service: run_id '' @ quoted x @ '' already exists''
      | WorkerIDRequired \<Rightarrow> ''service: worker_id is required''
      | NoQueuedSubmission \<Rightarrow> ''service: no queued submission available''
      | RecordNotFound \<Rightarrow> ''service: queue record not found''
      | NotLeaseOwner x \<Rightarrow> ''service: worker does not own run '' @ quoted x
      | BadTransition t \<Rightarrow> transition_error_text t
      | OnlyCompletedPromoted \<Rightarrow> ''service: conflict: service: only completed runs can be promoted''
      | OnlyQueuedCanceled \<Rightarrow> ''service: only queued submissions can be canceled''
      | StoreFailed s \<Rightarrow> s)"

text \<open>\<open>strings.Contains\<close>\<close>

definition contains :: "string \<Rightarrow> string \<Rightarrow> bool" where
  "contains s sub = list_ex (prefix sub) (suffixes s)"

record 'w commands =
  cm_queue :: "'w queue_ops"
  cm_validate :: "match_submission \<Rightarrow> 'w \<Rightarrow> string option"
  cm_refresh :: "(queue_record \<Rightarrow> 'w \<Rightarrow> ranking_error option \<times> 'w) option"
  cm_uuid :: "'w \<Rightarrow> string \<times> 'w"

definition submit :: "'w commands \<Rightarrow> match_submission \<Rightarrow> 'w \<Rightarrow> (service_error + queue_record) \<times> 'w" where
  "submit cm sub w =
     (case cm_validate cm sub w of
        Some e \<Rightarrow> (Inl (BadRequest (AdmissionError e)), w)
      | None \<Rightarrow>
          (case qo_enqueue (cm_queue cm) sub w of
             (Inr r, w1) \<Rightarrow> (Inr r, w1)
           | (Inl e, w1) \<Rightarrow>
               if contains (queue_error_text e) ''already exists'' then (Inl (Conflict (QueueFailure e)), w1)
               else (Inl (QueueFailure e), w1)))"

definition cancel_run :: "'w commands \<Rightarrow> string \<Rightarrow> 'w \<Rightarrow> (service_error + queue_record) \<times> 'w" where
  "cancel_run cm rid w =
     (case qo_cancel (cm_queue cm) rid w of
        (Inl e, w1) \<Rightarrow> (Inl (QueueFailure e), w1)
      | (Inr r, w1) \<Rightarrow> (Inr r, w1))"

definition follow_up :: "string \<Rightarrow> run_kind \<Rightarrow> match_submission \<Rightarrow> match_submission" where
  "follow_up new_id kind sub =
     sub\<lparr>ms_run := new_id, ms_attempt := wrap64 (ms_attempt sub + 1), ms_parent := ms_run sub,
         ms_kind := kind, ms_official := False\<rparr>"

definition retry_run :: "'w commands \<Rightarrow> string \<Rightarrow> 'w \<Rightarrow> (service_error + queue_record) \<times> 'w" where
  "retry_run cm rid w =
     (case qo_get (cm_queue cm) (trim_space rid) w of
        Inl e \<Rightarrow> (Inl (QueueFailure e), w)
      | Inr r \<Rightarrow>
          if qr_state r \<noteq> StateFailed then (Inl (Conflict OnlyFailedRetried), w)
          else case cm_uuid cm w of
            (u, w1) \<Rightarrow> submit cm (follow_up (''run-'' @ u) RunKindRetry (qr_submission r)) w1)"

definition rerun_run :: "'w commands \<Rightarrow> string \<Rightarrow> 'w \<Rightarrow> (service_error + queue_record) \<times> 'w" where
  "rerun_run cm rid w =
     (case qo_get (cm_queue cm) (trim_space rid) w of
        Inl e \<Rightarrow> (Inl (QueueFailure e), w)
      | Inr r \<Rightarrow>
          if qr_state r \<noteq> StateCompleted then (Inl (Conflict OnlyCompletedRerun), w)
          else case cm_uuid cm w of
            (u, w1) \<Rightarrow> submit cm (follow_up (''run-'' @ u) RunKindRerun (qr_submission r)) w1)"

definition promote_run :: "'w commands \<Rightarrow> string \<Rightarrow> 'w \<Rightarrow> (service_error + queue_record) \<times> 'w" where
  "promote_run cm rid w =
     (case qo_promote (cm_queue cm) (trim_space rid) w of
        (Inl e, w1) \<Rightarrow> (Inl (QueueFailure e), w1)
      | (Inr target, w1) \<Rightarrow>
          (case cm_refresh cm of
             None \<Rightarrow> (Inr target, w1)
           | Some refresh \<Rightarrow>
               (case refresh target w1 of
                  (Some e, w2) \<Rightarrow> (Inl (RefreshFailure e), w2)
                | (None, w2) \<Rightarrow> (Inr target, w2))))"

section \<open>Errors of submission\<close>

lemma contains_append: "contains (a @ sub @ b) sub"
  unfolding contains_def list_ex_iff by (intro bexI [of _ "sub @ b"]) (auto simp: suffix_def)

lemma already_exists_text: "contains (queue_error_text (RunIDExists x)) ''already exists''"
  using contains_append [of "''service: run_id '' @ quoted x @ '' ''" "''already exists''" "[]"]
  by (simp add: queue_error_text_def)

lemma required_text: "\<not> contains (queue_error_text RunIDRequired) ''already exists''"
  unfolding queue_error_text_def queue_error.case by code_simp

section \<open>Commands on the in-memory store\<close>

text \<open>Commands whose validator and refresh leave the queue alone.\<close>

definition memory_commands :: "'x service commands \<Rightarrow> bool" where
  "memory_commands cm \<longleftrightarrow> cm_queue cm = memory_ops \<and>
     (\<forall>w. sv_queue (snd (cm_uuid cm w)) = sv_queue w) \<and>
     (\<forall>f r w. cm_refresh cm = Some f \<longrightarrow> sv_queue (snd (f r w)) = sv_queue w)"

lemma submit_memory:
  assumes "memory_commands cm" "submit cm sub w = (res, w')"
  shows "(case res of
      Inl e \<Rightarrow> w' = w
    | Inr r \<Rightarrow> cm_validate cm sub w = None \<and> lookup (sv_queue w) (ms_run sub) = None \<and> \<not> blank (ms_run sub) \<and>
        r = \<lparr>qr_submission = sub, qr_state = StateQueued, qr_completed_at = None, qr_lease = None, qr_terminal = None\<rparr> \<and>
        sv_queue w' = snd (enqueue sub (sv_queue w)) \<and>
        lookup (sv_queue w') = (lookup (sv_queue w))(ms_run sub \<mapsto> r) \<and>
        qs_order (sv_queue w') = qs_order (sv_queue w) @ [ms_run sub])"
  using assms
  by (cases rule: enqueue_cases [of sub "sv_queue w"])
    (auto simp: submit_def memory_commands_def memory_ops_def on_queue_def lookup_def split: option.splits if_splits)

end
