(* ===== verification/Worker_Drain.thy ===== *)
theory Worker_Drain
  imports Worker_Spec
begin

text \<open>
  The polling loop drains the queue: each pass serves the first pending run, so a run that is
  pending at position \<open>n\<close> is over after \<open>n + 1\<close> passes, whatever is submitted, canceled or
  recovered meanwhile.
\<close>

lemma subseq_drop_Suc: "subseq (drop (Suc n) xs) (drop n xs)"
  by (metis Suc_eq_plus1_left drop_drop subseq_order.order_refl suffix_drop suffix_imp_subseq)

lemma subseq_drop: "subseq ys xs \<Longrightarrow> subseq (drop n ys) (drop n xs)"
proof (induction arbitrary: n rule: list_emb.induct)
  case (list_emb_Cons ys xs x)
  show ?case
  proof (cases n)
    case (Suc m)
    then show ?thesis using subseq_order.trans [OF subseq_drop_Suc list_emb_Cons.IH [of m]] by simp
  qed (use list_emb_Cons.hyps in auto)
next
  case (list_emb_Cons2 x y ys xs)
  then show ?case by (cases n) auto
qed simp

lemma set_drop_subseq: "subseq ys xs \<Longrightarrow> set (drop n ys) \<subseteq> set (drop n xs)"
  using list_emb_set [OF subseq_drop] by (metis subsetI)

section \<open>Runs that are being served\<close>

text \<open>The runs \<open>T\<close> are pending or over, and the pending ones are among the first \<open>n\<close>.\<close>

definition served :: "string set \<Rightarrow> nat \<Rightarrow> queue_store \<Rightarrow> bool" where
  "served T n s \<longleftrightarrow> queue_ok s \<and> set (drop n (qs_order s)) \<inter> T = {} \<and>
     (\<forall>x \<in> T. \<exists>q. lookup s x = Some q \<and> (qr_state q = StateQueued \<or> terminal_state (qr_state q)))"

lemma served_start:
  assumes "queue_ok s"
  shows "served (set (qs_order s)) (length (qs_order s)) s"
  using assms queue_okD(5) [OF assms] by (auto simp: served_def)

lemma served_end:
  assumes "served T 0 s" "x \<in> T"
  shows "\<exists>q. lookup s x = Some q \<and> terminal_state (qr_state q)"
  using assms queue_okD(5) [of s x] by (auto simp: served_def)

lemma served_mono: "served T m s \<Longrightarrow> m \<le> n \<Longrightarrow> served T n s"
  using set_drop_subset_set_drop [of m n "qs_order s"] by (auto simp: served_def)

lemma same_run_settled:
  "same_run q q' \<Longrightarrow> qr_state q = StateQueued \<or> terminal_state (qr_state q) \<Longrightarrow>
   qr_state q' = StateQueued \<or> terminal_state (qr_state q')"
  by (auto simp: same_run_def terminal_state_def)

lemma served_bystanders:
  assumes "served T n s" "bystander\<^sup>*\<^sup>* s s'"
  shows "served T n s'"
proof -
  have ok: "queue_ok s" using assms(1) by (simp add: served_def)
  have m: "queue_ok s'" "meanwhile (qs_order s) (lookup s) (qs_order s') (lookup s')"
    using bystanders_meanwhile [OF assms(2) ok] by simp_all
  obtain kept new where o: "qs_order s' = kept @ new" "subseq kept (qs_order s)" "\<forall>x \<in> set new. lookup s x = None"
    using m(2) by (auto simp: meanwhile_def)
  have "set (drop n (qs_order s')) \<subseteq> set (drop n (qs_order s)) \<union> set new"
    using set_drop_subseq [OF o(2), of n] set_drop_subset [of "n - length kept" new] by (auto simp: o(1))
  moreover have "set new \<inter> T = {}" using assms(1) o(3) by (force simp: served_def)
  moreover have "\<exists>q. lookup s' x = Some q \<and> (qr_state q = StateQueued \<or> terminal_state (qr_state q))" if x: "x \<in> T" for x
  proof -
    from assms(1) x obtain q where q: "lookup s x = Some q" "qr_state q = StateQueued \<or> terminal_state (qr_state q)"
      by (auto simp: served_def)
    from meanwhile_known [OF m(2) q(1)] same_run_settled q(2) show ?thesis by blast
  qed
  ultimately show ?thesis using assms(1) m(1) unfolding served_def by blast
qed

lemma served_recover:
  assumes "served T n s"
  shows "served T n (snd (recover_expired (keys (qs_records s)) now s))"
proof -
  have ok: "queue_ok s" using assms by (simp add: served_def)
  obtain again s' where r: "snd (recover_expired (keys (qs_records s)) now s) = s'" "queue_ok s'"
    "qs_order s' = qs_order s @ again"
    "\<forall>x. lookup s' x = lookup s x \<or>
       (\<exists>q. lookup s x = Some q \<and> in_flight (qr_state q) \<and> lookup s' x = Some (requeued q))"
    using memory_recover [OF ok] by blast
  have same: "lookup s' x = lookup s x" if x: "x \<in> T" for x
  proof -
    from assms x obtain q where "lookup s x = Some q" "qr_state q = StateQueued \<or> terminal_state (qr_state q)"
      by (auto simp: served_def)
    moreover have "\<not> in_flight (qr_state q)" using calculation by (auto simp: in_flight_def terminal_state_def)
    ultimately show ?thesis using r(4) by (metis option.inject)
  qed
  have "set again \<inter> T = {}"
  proof -
    have "x \<notin> set again" if x: "x \<in> T" for x
    proof
      assume b: "x \<in> set again"
      then have "x \<in> set (qs_order s')" by (simp add: r(3))
      then have "x \<in> set (qs_order s)"
        using queue_okD(5) [OF r(2), of x] queue_okD(5) [OF ok, of x] same [OF x] by simp
      with b queue_okD(4) [OF r(2)] show False by (auto simp: r(3))
    qed
    then show ?thesis by blast
  qed
  then show ?thesis unfolding r(1) using assms r(2,3) same set_drop_subset [of "n - length (qs_order s)" again]
    by (auto simp: served_def)
qed

lemma served_process:
  assumes "served T (Suc n) (sv_queue w)" "memory_worker wk" "\<not> blank worker"
  shows "served T n (sv_queue (snd (process_next wk worker w)))"
proof -
  let ?s = "sv_queue w"
  have ok: "queue_ok ?s" using assms(1) by (simp add: served_def)
  have st: "memory.steady wk" using memory_worker_steady [OF assms(2)] .
  show ?thesis
  proof (cases "qs_order ?s")
    case Nil
    have "process_next wk worker w = ((None, Some (QueueError NoQueuedSubmission)), w)"
      using memory.process_next_idle [OF ok assms(3) Nil] assms(2) by (simp add: memory_worker_def)
    then show ?thesis using assms(1) Nil by (simp add: served_def)
  next
    case (Cons x rest)
    obtain q r e w' where p: "process_next wk worker w = ((Some r, e), w')" "queue_ok (sv_queue w')"
      and m: "meanwhile rest ((lookup ?s)(x := None)) (qs_order (sv_queue w')) ((lookup (sv_queue w'))(x := None))"
      and r: "qr_run r = x" "memory.holds w' r" "qr_state r = StateFailed \<or> qr_state r = StateCompleted"
      by (rule memory.process_next_ends [OF st ok assms(3) Cons]) blast
    let ?t = "sv_queue w'"
    obtain qx where qx: "lookup ?t x = Some qx" "terminal_state (qr_state qx)"
      using r by (auto simp: memory.holds_def terminal_state_def)
    have xt: "x \<notin> set (qs_order ?t)"
      using queue_okD(5) [OF p(2), of x] qx by (auto simp: terminal_state_def)
    obtain kept new where o: "qs_order ?t = kept @ new" "subseq kept rest"
      "\<forall>y \<in> set new. ((lookup ?s)(x := None)) y = None"
      using m by (auto simp: meanwhile_def)
    have "set (drop n (qs_order ?t)) \<subseteq> set (drop (Suc n) (qs_order ?s)) \<union> set new"
      using set_drop_subseq [OF o(2), of n] set_drop_subset [of "n - length kept" new] by (auto simp: o(1) Cons)
    moreover have "set new \<inter> T = {}"
    proof -
      have "y \<notin> T" if y: "y \<in> set new" for y
      proof
        assume T: "y \<in> T"
        have "y \<noteq> x" using y xt by (auto simp: o(1))
        with o(3) y have "lookup ?s y = None" by auto
        with T assms(1) show False by (auto simp: served_def)
      qed
      then show ?thesis by blast
    qed
    moreover have "\<exists>q. lookup ?t y = Some q \<and> (qr_state q = StateQueued \<or> terminal_state (qr_state q))"
      if y: "y \<in> T" for y
    proof (cases "y = x")
      case False
      from assms(1) y obtain q where q: "lookup ?s y = Some q" "qr_state q = StateQueued \<or> terminal_state (qr_state q)"
        by (auto simp: served_def)
      then obtain q' where "lookup ?t y = Some q'" "same_run q q'"
        using meanwhile_known [OF m, of y q] False by auto
      with same_run_settled q(2) show ?thesis by blast
    qed (use qx in simp)
    ultimately show ?thesis using assms(1) p unfolding served_def by auto
  qed
qed

section \<open>The loop\<close>

text \<open>A loop over the in-memory store whose context is never done.\<close>

definition memory_loop :: "'x service worker_loop \<Rightarrow> bool" where
  "memory_loop lp \<longleftrightarrow> memory_worker (lp_worker lp) \<and> \<not> blank (lp_worker_id lp) \<and>
     (\<forall>wait w. \<not> fst (lp_select lp wait w) \<and> bystanders w (snd (lp_select lp wait w))) \<and>
     (\<forall>w. \<not> lp_canceled lp w) \<and>
     (\<forall>f e w. lp_on_error lp = Some f \<longrightarrow> bystanders w (f e w))"

lemma served_report: "memory_loop lp \<Longrightarrow> served T n (sv_queue w) \<Longrightarrow> served T n (sv_queue (report lp e w))"
  using served_bystanders by (auto simp: report_def memory_loop_def bystanders_def split: option.split)

lemma served_pass:
  assumes "memory_loop lp" "served T (Suc n) (sv_queue w)"
  shows "\<exists>wait w'. loop_pass lp w = ((wait, True), w') \<and> wait \<noteq> LoopEnds \<and> served T n (sv_queue w')"
proof -
  have mw: "memory_worker (lp_worker lp)" "wk_queue (lp_worker lp) = memory_ops" "\<not> blank (lp_worker_id lp)"
    using assms(1) by (simp_all add: memory_loop_def memory_worker_def)
  define q where "q = sv_queue w"
  define w1 where "w1 = w\<lparr>sv_queue := snd (recover_expired (keys (qs_records q)) (lp_now lp w) q)\<rparr>"
  have rec: "\<exists>k. qo_recover memory_ops (lp_now lp w) w = (Inr k, w1)"
    by (simp add: memory_ops_def on_queue_def w1_def q_def apfst_def map_prod_def split: prod.split)
  have "served T (Suc n) (sv_queue w1)" using served_recover [OF assms(2)] by (simp add: w1_def q_def)
  from served_process [OF this mw(1,3)]
  have s2: "served T n (sv_queue (snd (process_next (lp_worker lp) (lp_worker_id lp) w1)))" .
  obtain a e w2 where p: "process_next (lp_worker lp) (lp_worker_id lp) w1 = ((a, e), w2)" by (metis prod.collapse)
  have "served T n (sv_queue w2)" using s2 p by simp
  then show ?thesis
    using rec p mw(2) assms(1) served_report [OF assms(1)]
    by (cases e) (auto simp: loop_pass_def memory_loop_def)
qed

lemma served_passes:
  assumes "memory_loop lp" "served T n (sv_queue w)" "wait \<noteq> LoopEnds"
  shows "\<exists>wait' ready' w'. loop_passes lp n wait ready w = ((wait', ready'), w') \<and> wait' \<noteq> LoopEnds \<and>
    served T 0 (sv_queue w')"
  using assms(2,3)
proof (induction n arbitrary: wait ready w)
  case (Suc n)
  obtain w1 where sel: "lp_select lp wait w = (False, w1)" "bystanders w w1"
    using assms(1) unfolding memory_loop_def by (metis prod.collapse)
  have "served T (Suc n) (sv_queue w1)" using served_bystanders [OF Suc.prems(1)] sel(2) by (simp add: bystanders_def)
  from served_pass [OF assms(1) this] obtain wait2 w2 where p: "loop_pass lp w1 = ((wait2, True), w2)"
    "wait2 \<noteq> LoopEnds" "served T n (sv_queue w2)" by blast
  then show ?case using Suc.IH [OF p(3,2)] sel(1) Suc.prems(2) by simp
qed simp

text \<open>
  C8. The worker loop drains the queue: started on a reachable queue, with a context that stays
  alive, the loop is still running after as many passes as there were pending runs, and every
  one of these runs is then completed, failed or canceled, whatever else was submitted,
  canceled or recovered meanwhile and however the runs went.
\<close>

theorem worker_loop_drains:
  assumes "memory_loop lp" "queue_reach new_queue_store (sv_queue w)" "length (qs_order (sv_queue w)) \<le> n"
  shows "\<exists>wait ready w'. loop_passes lp n WaitNothing False w = ((wait, ready), w') \<and> wait \<noteq> LoopEnds \<and>
    (\<forall>x \<in> set (qs_order (sv_queue w)). \<exists>q. lookup (sv_queue w') x = Some q \<and> terminal_state (qr_state q))"
proof -
  have "queue_ok (sv_queue w)" using queue_reach_inv [OF assms(2) queue_ok_new] .
  from served_mono [OF served_start [OF this] assms(3)]
  have s: "served (set (qs_order (sv_queue w))) n (sv_queue w)" .
  from served_passes [OF assms(1) s] obtain wait ready w' where
    "loop_passes lp n WaitNothing False w = ((wait, ready), w')" "wait \<noteq> LoopEnds"
    "served (set (qs_order (sv_queue w))) 0 (sv_queue w')" by blast
  then show ?thesis using served_end by blast
qed

end
