(* ===== verification/Worker_Examples.thy ===== *)
theory Worker_Examples
  imports Worker_Drain
begin

text \<open>A worker whose runner completes every match, on a queue with one run.\<close>

definition completed_record :: "string \<Rightarrow> record_" where
  "completed_record match_id = \<lparr>rc_match_id = match_id,
     rc_game = \<lparr>gm_game_id = ''janken'', gm_game_version = ''2.1.0'', gm_ruleset = ''regular''\<rparr>,
     rc_players = [], rc_status = StatusCompleted,
     rc_result = \<lparr>mr_placements = [\<lparr>pc_player = ''p1'', pc_place = 1\<rparr>, \<lparr>pc_player = ''p2'', pc_place = 2\<rparr>]\<rparr>,
     rc_event_log = [], rc_snapshot = zero_snapshot, rc_exported = zero_exported, rc_public_replay = None\<rparr>"

definition stored_artifacts :: terminal_artifacts where
  "stored_artifacts = \<lparr>ta_match_dir = ''out/run-1'', ta_record_path = ''out/run-1/record.json'',
     ta_summary_path = ''out/run-1/result-summary.json'', ta_stderr_paths = [], ta_status = OtherStatus [],
     ta_error = [], ta_replay_path = [], ta_replay_format = [], ta_replay_version = [], ta_replay_size = 0,
     ta_replay_digest = []\<rparr>"

definition completing_worker :: "'x service worker" where
  "completing_worker = \<lparr>wk_queue = memory_ops,
     wk_run = (\<lambda>sub w. ((\<lparr>er_record = completed_record (ms_match sub), er_stderr = []\<rparr>, None), w)),
     wk_persist = (\<lambda>sub res w. (Inr stored_artifacts, w)), wk_rankings = None\<rparr>"

definition completing_loop :: "'x service worker_loop" where
  "completing_loop = \<lparr>lp_worker = completing_worker, lp_worker_id = ''w'', lp_now = sv_now,
     lp_select = (\<lambda>wait w. (False, w)), lp_canceled = (\<lambda>w. False), lp_on_error = None\<rparr>"

lemma completing_memory_worker: "memory_worker completing_worker"
  by (simp add: memory_worker_def completing_worker_def bystanders_def)

definition sample_service :: "unit service" where
  "sample_service = \<lparr>sv_queue = sample_store, sv_now = 0, sv_rest = ()\<rparr>"

lemma sample_service_queue:
  "queue_reach new_queue_store (sv_queue sample_service)" "qs_order (sv_queue sample_service) = [''run-1'']"
  "lookup (sv_queue sample_service) ''run-1'' = Some \<lparr>qr_submission = sample_submission, qr_state = StateQueued,
     qr_completed_at = None, qr_lease = None, qr_terminal = None\<rparr>"
  by (simp_all add: sample_service_def sample_reach) (simp_all add: sample_store_def sample_enqueue lookup_def)

lemma worker_id_not_blank: "\<not> blank ''w''"
  by code_simp

theorem process_next_ends_run_witness:
  "\<exists>r e w' stored. process_next completing_worker ''w'' sample_service = ((Some r, e), w') \<and>
    lookup (sv_queue w') ''run-1'' = Some stored \<and> terminal_state (qr_state stored)"
  using process_next_ends_run [OF completing_memory_worker sample_service_queue(1) worker_id_not_blank
      sample_service_queue(2,3)]
  by (auto simp: terminal_state_def)

theorem worker_loop_drains_witness:
  "\<exists>wait ready w'. loop_passes completing_loop 1 WaitNothing False sample_service = ((wait, ready), w') \<and>
    (\<exists>q. lookup (sv_queue w') ''run-1'' = Some q \<and> terminal_state (qr_state q))"
proof -
  have "memory_loop completing_loop"
    using completing_memory_worker worker_id_not_blank
    by (simp add: memory_loop_def completing_loop_def bystanders_def)
  from worker_loop_drains [OF this sample_service_queue(1), of 1] sample_service_queue(2) show ?thesis by auto
qed

end
