(* ===== verification/Service_Spec.thy ===== *)
theory Service_Spec
  imports Commands Worker_Examples
begin

text \<open>
  The worker and the commands together on one in-memory queue: follow-up runs keep the lineage
  of their match, and every match has at most one official run.
\<close>

section \<open>Follow-up runs\<close>

text \<open>
  C23. Retries and reruns extend the lineage of a match and touch nothing else: a retry succeeds
  only for a failed run and a rerun only for a completed one; the new run has a new id, is
  queued last, is the run's submission with the next attempt number, the run as its parent, its
  kind and not official; all other runs are unchanged, a refused command changes nothing, and
  the new submission is again valid.
\<close>

theorem follow_up_runs:
  assumes cm: "memory_commands cm" and ok: "queue_ok (sv_queue w)"
    and cmd: "retry_run cm rid w = (res, w') \<and> kind = RunKindRetry \<and> st = StateFailed \<or>
      rerun_run cm rid w = (res, w') \<and> kind = RunKindRerun \<and> st = StateCompleted"
  shows "case res of
      Inl e \<Rightarrow> sv_queue w' = sv_queue w
    | Inr r \<Rightarrow>
        \<exists>parent u. lookup (sv_queue w) (trim_space rid) = Some parent \<and> qr_state parent = st \<and>
          qr_submission r = (qr_submission parent)\<lparr>ms_run := ''run-'' @ u, ms_attempt := wrap64 (ms_attempt (qr_submission parent) + 1),
            ms_parent := trim_space rid, ms_kind := kind, ms_official := False\<rparr> \<and>
          qr_state r = StateQueued \<and> lookup (sv_queue w) (''run-'' @ u) = None \<and>
          lookup (sv_queue w') = (lookup (sv_queue w))(''run-'' @ u \<mapsto> r) \<and>
          qs_order (sv_queue w') = qs_order (sv_queue w) @ [''run-'' @ u] \<and>
          (validate_submission (qr_submission parent) = None \<and> ms_attempt (qr_submission parent) < 2 ^ 63 - 1 \<longrightarrow>
             validate_submission (qr_submission r) = None)"
proof -
  have get: "qo_get (cm_queue cm) x w = (case lookup (sv_queue w) x of None \<Rightarrow> Inl RecordNotFound | Some r \<Rightarrow> Inr r)" for x
    using cm by (simp add: memory_commands_def memory_ops_def get_record_def lookup_def)
  have uuid: "sv_queue (snd (cm_uuid cm w)) = sv_queue w" using cm by (simp add: memory_commands_def)
  show ?thesis
  proof (cases "\<exists>parent. lookup (sv_queue w) (trim_space rid) = Some parent \<and> qr_state parent = st")
    case False
    then have "\<exists>e. (res, w') = (Inl e, w)"
      using cmd get by (auto simp: retry_run_def rerun_run_def split: option.splits if_splits)
    then show ?thesis by auto
  next
    case True
    then obtain parent where p: "lookup (sv_queue w) (trim_space rid) = Some parent" "qr_state parent = st" by blast
    have pid: "qr_run parent = trim_space rid" "\<not> blank (trim_space rid)"
      using queue_okD(6) [OF ok p(1)] by (simp_all add: record_ok_def)
    obtain u w1 where u: "cm_uuid cm w = (u, w1)" by fastforce
    have w1: "sv_queue w1 = sv_queue w" using uuid u by simp
    let ?sub = "follow_up (''run-'' @ u) kind (qr_submission parent)"
    have s: "submit cm ?sub w1 = (res, w')"
      using cmd p u by (auto simp: retry_run_def rerun_run_def get)
    note sp = submit_memory [OF cm s]
    show ?thesis
    proof (cases res)
      case (Inl e)
      then show ?thesis using sp w1 by simp
    next
      case (Inr r)
      have r: "qr_submission r = ?sub" "qr_state r = StateQueued" "lookup (sv_queue w) (''run-'' @ u) = None"
        "\<not> blank (''run-'' @ u)" "lookup (sv_queue w') = (lookup (sv_queue w))(''run-'' @ u \<mapsto> r)"
        "qs_order (sv_queue w') = qs_order (sv_queue w) @ [''run-'' @ u]"
        using sp Inr w1 by (auto simp: follow_up_def)
      have kind: "kind \<in> {RunKindRetry, RunKindRerun}" using cmd by auto
      have "validate_submission ?sub = None"
        if "validate_submission (qr_submission parent) = None" "ms_attempt (qr_submission parent) < 2 ^ 63 - 1"
      proof -
        from that(1) have "0 < ms_attempt (qr_submission parent)" by (auto simp: validate_submission_iff)
        then have "wrap64 (ms_attempt (qr_submission parent) + 1) = ms_attempt (qr_submission parent) + 1"
          using that(2) by (intro wrap64_id) auto
        with that(1) r(4) kind pid show ?thesis by (auto simp: validate_submission_iff follow_up_def)
      qed
      with p pid r show ?thesis unfolding Inr by (auto simp: follow_up_def)
    qed
  qed
qed

section \<open>Official runs\<close>

text \<open>A run that the worker promotes by itself: completed, of a completed match, and no rerun.\<close>

definition successful :: "queue_record \<Rightarrow> bool" where
  "successful q \<longleftrightarrow> qr_state q = StateCompleted \<and> ms_kind (qr_submission q) \<noteq> RunKindRerun \<and>
     (\<exists>t. qr_terminal q = Some t \<and> ta_status t = StatusCompleted)"

definition official_ok :: "(string \<Rightarrow> queue_record option) \<Rightarrow> bool" where
  "official_ok f \<longleftrightarrow>
     (\<forall>x q. f x = Some q \<longrightarrow> qr_official q \<longrightarrow> qr_state q = StateCompleted) \<and>
     (\<forall>x y p q. f x = Some p \<longrightarrow> f y = Some q \<longrightarrow> qr_official p \<longrightarrow> qr_official q \<longrightarrow>
        qr_match p = qr_match q \<longrightarrow> x = y) \<and>
     (\<forall>x q. f x = Some q \<longrightarrow> successful q \<longrightarrow> (\<exists>y p. f y = Some p \<and> qr_official p \<and> qr_match p = qr_match q))"

lemma official_okD:
  assumes "official_ok f"
  shows "f x = Some q \<Longrightarrow> qr_official q \<Longrightarrow> qr_state q = StateCompleted"
    "f x = Some p \<Longrightarrow> f y = Some q \<Longrightarrow> qr_official p \<Longrightarrow> qr_official q \<Longrightarrow> qr_match p = qr_match q \<Longrightarrow> x = y"
    "f x = Some q \<Longrightarrow> successful q \<Longrightarrow> \<exists>y p. f y = Some p \<and> qr_official p \<and> qr_match p = qr_match q"
  using assms unfolding official_ok_def by blast+

text \<open>
  The official and the successful runs are the same before and after, up to new records of
  neither sort.
\<close>

lemma official_ok_same:
  assumes "official_ok f"
    and "\<And>x q'. f' x = Some q' \<Longrightarrow> qr_official q' \<or> successful q' \<Longrightarrow>
      \<exists>q. f x = Some q \<and> qr_submission q' = qr_submission q \<and> qr_state q' = qr_state q \<and> qr_terminal q' = qr_terminal q"
    and "\<And>x q. f x = Some q \<Longrightarrow> qr_official q \<Longrightarrow> \<exists>q'. f' x = Some q' \<and> qr_submission q' = qr_submission q"
  shows "official_ok f'"
  unfolding official_ok_def
proof (intro conjI allI impI, goal_cases)
  case (1 x q)
  with assms(2) [of x q] official_okD(1) [OF assms(1), of x] show ?case by auto
next
  case (2 x y p q)
  with assms(2) [of x p] assms(2) [of y q] official_okD(2) [OF assms(1), of x _ y] show ?case by auto
next
  case (3 x q)
  then obtain q0 where q0: "f x = Some q0" "qr_submission q = qr_submission q0" "successful q0"
    using assms(2) [of x q] by (auto simp: successful_def)
  from official_okD(3) [OF assms(1) q0(1,3)] obtain y p where p: "f y = Some p" "qr_official p" "qr_match p = qr_match q0"
    by blast
  from assms(3) [OF p(1,2)] obtain p' where "f' y = Some p'" "qr_submission p' = qr_submission p" by blast
  with p q0(2) show ?case by (intro exI [of _ y] exI [of _ p']) simp
qed

lemma official_ok_waiting:
  assumes "official_ok f" "\<And>q. f x = Some q \<Longrightarrow> \<not> qr_official q" "\<not> qr_official r" "qr_state r \<noteq> StateCompleted"
  shows "official_ok (f(x \<mapsto> r))"
  by (rule official_ok_same [OF assms(1)])
    (use assms(2-4) in \<open>auto simp: successful_def split: if_splits\<close>)

lemma official_ok_promoted:
  assumes "official_ok f" "f x = Some target" "qr_state target = StateCompleted"
  shows "official_ok (\<lambda>id. map_option (promoted (qr_match target) x id) (f id))"
  unfolding official_ok_def
proof (intro conjI allI impI, goal_cases)
  case (1 y q)
  then obtain q0 where q0: "f y = Some q0" "q = promoted (qr_match target) x y q0" by auto
  show ?case
  proof (cases "qr_match q0 = qr_match target")
    case True
    then have "y = x" using 1(2) q0(2) by simp
    then show ?thesis using assms(2,3) q0 by simp
  next
    case False
    then show ?thesis using 1(2) q0 official_okD(1) [OF assms(1) q0(1)] by simp
  qed
next
  case (2 y z p q)
  then obtain p0 q0 where 0: "f y = Some p0" "p = promoted (qr_match target) x y p0"
    "f z = Some q0" "q = promoted (qr_match target) x z q0" by auto
  have m: "qr_match p0 = qr_match q0" using 2(5) 0(2,4) by simp
  show ?case
  proof (cases "qr_match q0 = qr_match target")
    case True
    then have "y = x" "z = x" using 2(3,4) 0(2,4) m by simp_all
    then show ?thesis by simp
  next
    case False
    then have "qr_official p0" "qr_official q0" using 2(3,4) 0(2,4) m by simp_all
    then show ?thesis by (rule official_okD(2) [OF assms(1) 0(1,3) _ _ m])
  qed
next
  case (3 y q)
  then obtain q0 where q0: "f y = Some q0" "q = promoted (qr_match target) x y q0" by auto
  show ?case
  proof (cases "qr_match q0 = qr_match target")
    case True
    then show ?thesis using assms(2) q0
      by (intro exI [of _ x] exI [of _ "promoted (qr_match target) x x target"]) simp
  next
    case False
    then have "successful q0" using 3(2) q0(2) by (simp add: promoted_def)
    from official_okD(3) [OF assms(1) q0(1) this] obtain z p where
      "f z = Some p" "qr_official p" "qr_match p = qr_match q0" by blast
    with False q0(2) show ?thesis
      by (intro exI [of _ z] exI [of _ p]) (simp add: promoted_def)
  qed
qed

text \<open>The end of a run: \<open>x\<close> was pending and not official, the others went on meanwhile.\<close>

lemma official_ok_ended:
  assumes "official_ok f" "meanwhile p (f(x := None)) p' (f'(x := None))"
    and q: "f x = Some q" "qr_state q = StateQueued" and r: "f' x = Some r" "decided (qr_submission q) r"
    and last: "qr_state r = StateFailed \<or> qr_state r = StateCompleted \<and>
      (\<exists>t. qr_terminal r = Some t \<and> (ta_status t = StatusCompleted \<longrightarrow>
         qr_official r = (ms_kind (qr_submission r) \<noteq> RunKindRerun \<and> \<not> rival f' x (qr_match r))))"
  shows "official_ok f'"
proof -
  have off: "\<not> qr_official q" using official_okD(1) [OF assms(1) q(1)] q(2) by auto
  have old: "\<exists>z0. f y = Some z0 \<and> same_run z0 z" if "f' y = Some z" "y \<noteq> x" "qr_official z \<or> qr_state z = StateCompleted" for y z
  proof (cases "f y")
    case None
    then show ?thesis using meanwhile_new [OF assms(2), of y z] that by (auto simp: waiting_def)
  next
    case (Some z0)
    then show ?thesis using meanwhile_known [OF assms(2), of y z0] that by auto
  qed
  have keep: "\<exists>z. f' y = Some z \<and> qr_submission z = qr_submission z0" if "f y = Some z0" "qr_official z0" for y z0
  proof -
    have "y \<noteq> x" using that q(1) off by auto
    then show ?thesis using meanwhile_known [OF assms(2), of y z0] that by (auto simp: same_run_def)
  qed
  have fin: "same_run z0 z \<Longrightarrow> qr_official z0 \<Longrightarrow> f y = Some z0 \<Longrightarrow> qr_state z = StateCompleted" for y z0 z
    using official_okD(1) [OF assms(1), of y z0] by (auto simp: same_run_def)
  have x_official: "qr_official r \<Longrightarrow> qr_state r = StateCompleted \<and> \<not> rival f' x (qr_match r)"
    using r(2) off last by (auto simp: decided_def)
  have official: "qr_official z \<Longrightarrow> f' y = Some z \<Longrightarrow> qr_state z = StateCompleted" for y z
  proof (cases "y = x")
    case False
    assume z: "qr_official z" "f' y = Some z"
    with old [OF z(2) False] obtain z0 where "f y = Some z0" "same_run z0 z" by blast
    with z(1) fin show ?thesis by (auto simp: same_run_def)
  qed (use r(1) x_official in auto)
  show ?thesis
    unfolding official_ok_def
  proof (intro conjI allI impI, goal_cases)
    case (1 y z)
    then show ?case using official by blast
  next
    case (2 y z a b)
    then have ab: "qr_state a = StateCompleted" "qr_state b = StateCompleted" using official by blast+
    show ?case
    proof (cases "y = x \<or> z = x")
      case True
      then show ?thesis
      proof
        assume y: "y = x"
        then have "a = r" using 2(1) r(1) by simp
        then have "\<not> rival f' x (qr_match b)" using x_official 2(3,5) by simp
        moreover have "rival f' x (qr_match b)" if "z \<noteq> x"
          unfolding rival_def using that 2(2,4) ab(2) by (intro exI [of _ z] exI [of _ b]) simp
        ultimately show ?thesis using y by blast
      next
        assume z: "z = x"
        then have "b = r" using 2(2) r(1) by simp
        then have "\<not> rival f' x (qr_match a)" using x_official 2(4,5) by simp
        moreover have "rival f' x (qr_match a)" if "y \<noteq> x"
          unfolding rival_def using that 2(1,3) ab(1) by (intro exI [of _ y] exI [of _ a]) simp
        ultimately show ?thesis using z by blast
      qed
    next
      case False
      then have n: "y \<noteq> x" "z \<noteq> x" by simp_all
      from old [OF 2(1) n(1)] ab(1) obtain a0 where a0: "f y = Some a0" "same_run a0 a" by blast
      from old [OF 2(2) n(2)] ab(2) obtain b0 where b0: "f z = Some b0" "same_run b0 b" by blast
      have "qr_submission a = qr_submission a0" "qr_submission b = qr_submission b0"
        using a0(2) b0(2) by (simp_all add: same_run_def)
      then show ?thesis using official_okD(2) [OF assms(1) a0(1) b0(1)] 2(3-5) by simp
    qed
  next
    case (3 y z)
    show ?case
    proof (cases "y = x")
      case True
      then have z: "z = r" "successful r" using 3 r(1) by simp_all
      show ?thesis
      proof (cases "qr_official r")
        case False
        then have "rival f' x (qr_match r)" using z(2) last by (auto simp: successful_def)
        then show ?thesis unfolding z(1) rival_def by blast
      qed (use r(1) z in blast)
    next
      case False
      then obtain z0 where z0: "f y = Some z0" "same_run z0 z"
        using old [of y z] 3 by (auto simp: successful_def)
      then have "successful z0" "qr_match z = qr_match z0" using 3(2) by (auto simp: successful_def same_run_def split: if_splits)
      from official_okD(3) [OF assms(1) z0(1) this(1)] obtain v p where
        v: "f v = Some p" "qr_official p" "qr_match p = qr_match z0" by blast
      from keep [OF v(1,2)] obtain p' where "f' v = Some p'" "qr_submission p' = qr_submission p" by blast
      with v \<open>qr_match z = qr_match z0\<close> show ?thesis by (intro exI [of _ v] exI [of _ p']) simp
    qed
  qed
qed

section \<open>The service as a whole\<close>

text \<open>
  The steps of a service with one worker: commands of operators, passes of the worker, the
  recovery of expired leases, and anything else that leaves the queue alone. No client submits
  a run as official.
\<close>

inductive service_step :: "'x service worker \<Rightarrow> 'x service commands \<Rightarrow> 'x service \<Rightarrow> 'x service \<Rightarrow> bool"
  for wk :: "'x service worker" and cm :: "'x service commands" where
  do_submit: "\<not> ms_official sub \<Longrightarrow> service_step wk cm w (snd (submit cm sub w))"
| do_cancel: "service_step wk cm w (snd (cancel_run cm rid w))"
| do_retry: "service_step wk cm w (snd (retry_run cm rid w))"
| do_rerun: "service_step wk cm w (snd (rerun_run cm rid w))"
| do_promote: "service_step wk cm w (snd (promote_run cm rid w))"
| do_process: "\<not> blank worker \<Longrightarrow> service_step wk cm w (snd (process_next wk worker w))"
| do_recover: "service_step wk cm w (snd (qo_recover (wk_queue wk) now w))"
| do_other: "sv_queue w' = sv_queue w \<Longrightarrow> service_step wk cm w w'"

definition service_ok :: "queue_store \<Rightarrow> bool" where
  "service_ok s \<longleftrightarrow> queue_ok s \<and> official_ok (lookup s)"

lemma service_ok_new [go_inv]: "service_ok new_queue_store"
  by (simp add: service_ok_def queue_ok_new) (simp add: official_ok_def new_queue_store_def lookup_def)

lemma submit_ok [go_inv]:
  assumes "memory_commands cm" "service_ok (sv_queue w)" "\<not> ms_official sub"
  shows "service_ok (sv_queue (snd (submit cm sub w)))"
proof -
  obtain res w' where s: "submit cm sub w = (res, w')" by fastforce
  note sp = submit_memory [OF assms(1) s]
  show ?thesis
  proof (cases res)
    case (Inr r)
    have "queue_ok (sv_queue w')" using sp Inr enqueue_inv [of "sv_queue w" sub] assms(2) by (simp add: service_ok_def)
    moreover have "official_ok (lookup (sv_queue w'))"
      using sp Inr assms(2,3) official_ok_waiting [of "lookup (sv_queue w)" "ms_run sub" r]
      by (auto simp: service_ok_def)
    ultimately show ?thesis by (simp add: s service_ok_def)
  qed (use s sp assms(2) in simp)
qed

lemma follow_up_not_official [simp]: "\<not> ms_official (follow_up i k sub)"
  by (simp add: follow_up_def)

lemma retry_ok [go_inv]:
  assumes "memory_commands cm" "service_ok (sv_queue w)"
  shows "service_ok (sv_queue (snd (retry_run cm rid w)))" "service_ok (sv_queue (snd (rerun_run cm rid w)))"
proof -
  have q: "sv_queue (snd (cm_uuid cm w)) = sv_queue w" using assms(1) by (simp add: memory_commands_def)
  have "service_ok (sv_queue (snd (submit cm (follow_up i k sub) (snd (cm_uuid cm w)))))" for i k sub
    by (rule submit_ok [OF assms(1)]) (use assms(2) q in simp_all)
  then show "service_ok (sv_queue (snd (retry_run cm rid w)))" "service_ok (sv_queue (snd (rerun_run cm rid w)))"
    using assms(2) by (simp_all add: retry_run_def rerun_run_def case_prod_unfold split: sum.split)
qed

lemma cancel_ok [go_inv]:
  assumes "memory_commands cm" "service_ok (sv_queue w)"
  shows "service_ok (sv_queue (snd (cancel_run cm rid w)))"
proof -
  have q: "sv_queue (snd (cancel_run cm rid w)) = snd (cancel_queued rid (sv_queue w))"
    using assms(1) by (simp add: cancel_run_def memory_commands_def memory_ops_def on_queue_def split: prod.split sum.split)
  have "official_ok (lookup (snd (cancel_queued rid (sv_queue w))))"
  proof (cases rule: cancel_cases [of rid "sv_queue w"])
    case (2 r)
    have oo: "official_ok (lookup (sv_queue w))" using assms(2) by (simp add: service_ok_def)
    have "\<not> qr_official r" using official_okD(1) [OF oo 2(1)] 2(2) by auto
    then have "official_ok ((lookup (sv_queue w))(rid \<mapsto> r\<lparr>qr_state := StateCanceled, qr_lease := None, qr_terminal := None\<rparr>))"
      using assms(2) 2(1) by (intro official_ok_waiting) (auto simp: service_ok_def)
    then show ?thesis using 2(3) by (simp add: lookup_def)
  qed (use assms(2) in \<open>simp add: service_ok_def\<close>)
  then show ?thesis using cancel_inv assms(2) by (simp add: service_ok_def q)
qed

lemma promote_ok [go_inv]:
  assumes "memory_commands cm" "service_ok (sv_queue w)"
  shows "service_ok (sv_queue (snd (promote_run cm rid w)))"
proof -
  let ?p = "promote (trim_space rid) (sv_queue w)"
  obtain out s1 where out: "?p = (out, s1)" by fastforce
  have keep: "sv_queue w2 = sv_queue w1" if "cm_refresh cm = Some f" "f r w1 = (e, w2)" for f r w1 e w2
    using assms(1) that unfolding memory_commands_def by (metis snd_conv)
  have q: "sv_queue (snd (promote_run cm rid w)) = snd ?p"
    using assms(1) by (cases out)
      (auto simp: promote_run_def memory_commands_def memory_ops_def on_queue_def out dest: keep
        split: prod.split option.split)
  have "official_ok (lookup (snd ?p))"
  proof (cases rule: promote_cases [of "trim_space rid" "sv_queue w"])
    case (2 target s')
    have "lookup s' = (\<lambda>id. map_option (promoted (qr_match target) (trim_space rid) id) (lookup (sv_queue w) id))"
      unfolding 2(4) by (rule lookup_promote)
    moreover have "official_ok (lookup (sv_queue w))" using assms(2) by (simp add: service_ok_def)
    ultimately show ?thesis using official_ok_promoted [of "lookup (sv_queue w)", OF _ 2(1,2)] 2(3) by simp
  qed (use assms(2) in \<open>simp add: service_ok_def\<close>)
  then show ?thesis using promote_inv assms(2) by (simp add: service_ok_def q)
qed

lemma recover_ok [go_inv]:
  assumes "service_ok s"
  shows "service_ok (snd (recover_expired (keys (qs_records s)) now s))"
proof -
  have ok: "queue_ok s" "official_ok (lookup s)" using assms by (simp_all add: service_ok_def)
  obtain again s' where r: "snd (recover_expired (keys (qs_records s)) now s) = s'" "queue_ok s'"
    "qs_order s' = qs_order s @ again"
    "\<forall>x. lookup s' x = lookup s x \<or>
       (\<exists>q. lookup s x = Some q \<and> in_flight (qr_state q) \<and> lookup s' x = Some (requeued q))"
    using memory_recover [OF ok(1)] by blast
  have "official_ok (lookup s')"
  proof (rule official_ok_same [OF ok(2)], goal_cases)
    case (1 x q')
    from r(4) [rule_format, of x] show ?case
    proof (elim disjE exE conjE)
      assume "lookup s' x = lookup s x"
      then show ?thesis using 1(1) by (intro exI [of _ q']) simp
    next
      fix q assume q: "lookup s x = Some q" "in_flight (qr_state q)" "lookup s' x = Some (requeued q)"
      then have "q' = requeued q" using 1(1) by simp
      then have "qr_official q" using 1(2) by (auto simp: requeued_def successful_def)
      with official_okD(1) [OF ok(2) q(1)] q(2) show ?thesis by (auto simp: in_flight_def)
    qed
  next
    case (2 x q)
    from r(4) [rule_format, of x] 2 show ?case by (auto simp: requeued_def)
  qed
  then show ?thesis using r(1,2) by (simp add: service_ok_def)
qed

lemma process_ok [go_inv]:
  assumes "memory_worker wk" "service_ok (sv_queue w)" "\<not> blank worker"
  shows "service_ok (sv_queue (snd (process_next wk worker w)))"
proof -
  have ok: "queue_ok (sv_queue w)" "official_ok (lookup (sv_queue w))" using assms(2) by (simp_all add: service_ok_def)
  show ?thesis
  proof (cases "qs_order (sv_queue w)")
    case Nil
    have "process_next wk worker w = ((None, Some (QueueError NoQueuedSubmission)), w)"
      using memory.process_next_idle [OF ok(1) assms(3) Nil] assms(1) by (simp add: memory_worker_def)
    then show ?thesis using assms(2) by simp
  next
    case (Cons x rest)
    obtain q r e w' where p: "process_next wk worker w = ((Some r, e), w')"
      and q: "lookup (sv_queue w) x = Some q" "qr_state q = StateQueued" "queue_ok (sv_queue w')"
      and m: "meanwhile rest ((lookup (sv_queue w))(x := None)) (qs_order (sv_queue w')) ((lookup (sv_queue w'))(x := None))"
      and r: "qr_run r = x" "memory.holds w' r"
      and last: "qr_state r = StateFailed \<or> qr_state r = StateCompleted \<and>
        (\<exists>t. qr_terminal r = Some t \<and> (ta_status t = StatusCompleted \<longrightarrow>
           qr_official r = (ms_kind (qr_submission r) \<noteq> RunKindRerun \<and> \<not> rival (lookup (sv_queue w')) x (qr_match r))))"
      and dec: "decided (qr_submission q) r"
      by (rule memory.process_next_ends [OF memory_worker_steady [OF assms(1)] ok(1) assms(3) Cons]) blast
    obtain st where st: "lookup (sv_queue w') x = Some st" "qr_submission st = qr_submission r"
      "qr_state st = qr_state r" "qr_terminal st = qr_terminal r"
      using r by (auto simp: memory.holds_def)
    have "official_ok (lookup (sv_queue w'))"
      by (rule official_ok_ended [OF ok(2) m q(1,2) st(1)])
        (use dec last st(2-4) in \<open>simp_all add: decided_def\<close>)
    then show ?thesis using q(3) by (simp add: p service_ok_def)
  qed
qed

lemma service_step_ok:
  assumes "service_step wk cm w w'" "memory_worker wk" "memory_commands cm" "service_ok (sv_queue w)"
  shows "service_ok (sv_queue w')"
  using assms(1)
proof cases
  case (do_recover now)
  have "sv_queue (snd (qo_recover memory_ops now w)) =
      snd (recover_expired (keys (qs_records (sv_queue w))) now (sv_queue w))"
    by (simp add: memory_ops_def on_queue_def apfst_def map_prod_def split: prod.split)
  then show ?thesis using do_recover assms(2) recover_ok [OF assms(4)] by (simp add: memory_worker_def)
qed (use assms(2-4) in \<open>simp_all add: go_inv\<close>)

lemma service_steps_ok:
  assumes "memory_worker wk" "memory_commands cm" "sv_queue w0 = new_queue_store" "(service_step wk cm)\<^sup>*\<^sup>* w0 w"
  shows "service_ok (sv_queue w)"
  using assms(4)
proof (induction rule: rtranclp_induct)
  case base
  then show ?case by (simp add: assms(3) service_ok_new)
next
  case (step w1 w2)
  then show ?case using service_step_ok assms(1,2) by blast
qed

text \<open>
  C4. Every match has at most one official run: whatever sequence of submissions, cancellations,
  retries, reruns, promotions, recoveries and worker passes a service with one worker goes
  through, an official run is completed, no two runs of a match are official, and once some run
  that is no rerun is completed with a match that itself completed (the terminal status of the
  match is \<open>completed\<close>, not \<open>failed\<close> or \<open>canceled\<close>), its match has an official run. A completed run
  of a failed or canceled match does not make one.
\<close>

theorem one_official_run:
  assumes "memory_worker wk" "memory_commands cm" "sv_queue w0 = new_queue_store" "(service_step wk cm)\<^sup>*\<^sup>* w0 w"
    and "lookup (sv_queue w) x = Some q"
  shows "(qr_official q \<longrightarrow> qr_state q = StateCompleted \<and>
      (\<forall>y p. lookup (sv_queue w) y = Some p \<longrightarrow> qr_official p \<longrightarrow> qr_match p = qr_match q \<longrightarrow> y = x)) \<and>
    (qr_state q = StateCompleted \<and> ms_kind (qr_submission q) \<noteq> RunKindRerun \<and>
       (\<exists>t. qr_terminal q = Some t \<and> ta_status t = StatusCompleted) \<longrightarrow>
     (\<exists>y p. lookup (sv_queue w) y = Some p \<and> qr_official p \<and> qr_match p = qr_match q))"
proof -
  have ok: "official_ok (lookup (sv_queue w))"
    using service_steps_ok [OF assms(1-4)] by (simp add: service_ok_def)
  show ?thesis
    unfolding successful_def [symmetric]
    using official_okD(1) [OF ok assms(5)] official_okD(2) [OF ok _ assms(5)] official_okD(3) [OF ok assms(5)] by blast
qed

end
