(* ===== verification/Service_Examples.thy ===== *)
theory Service_Examples
  imports Service_Spec
begin

text \<open>One submission, its run and a rerun, on a concrete service.\<close>

definition sample_commands :: "unit service commands" where
  "sample_commands = \<lparr>cm_queue = memory_ops,
     cm_validate = (\<lambda>sub w. if validate_submission sub = None then None else Some ''invalid''),
     cm_refresh = None, cm_uuid = (\<lambda>w. (''2'', w))\<rparr>"

definition empty_service :: "unit service" where
  "empty_service = \<lparr>sv_queue = new_queue_store, sv_now = 0, sv_rest = ()\<rparr>"

definition sample_finished :: "unit service" where
  "sample_finished = snd (process_next completing_worker ''w'' sample_service)"

lemma sample_memory_commands: "memory_commands sample_commands"
  by (simp add: memory_commands_def sample_commands_def)

lemma sample_submitted: "snd (submit sample_commands sample_submission empty_service) = sample_service"
proof -
  have v: "validate_submission sample_submission = None"
    by (auto simp: validate_submission_iff sample_submission_def sample_not_blank)
  show ?thesis
    by (simp add: submit_def sample_commands_def v memory_ops_def on_queue_def empty_service_def sample_service_def
        sample_store_def sample_enqueue)
qed

lemma sample_finished_official:
  "map_option (\<lambda>q. (qr_state q, qr_official q)) (lookup (sv_queue sample_finished) ''run-1'') = Some (StateCompleted, True)"
  by code_simp

lemma sample_rerun_admitted: "\<not> isl (fst (rerun_run sample_commands ''run-1'' sample_finished))"
  by code_simp

lemma sample_service_ok: "service_ok (sv_queue sample_finished)"
proof -
  have "service_ok (sv_queue empty_service)" using service_ok_new by (simp add: empty_service_def)
  then have "service_ok (sv_queue sample_service)"
    using submit_ok [OF sample_memory_commands, of empty_service sample_submission] sample_submitted
    by (simp add: sample_submission_def)
  then show ?thesis unfolding sample_finished_def
    using process_ok [OF completing_memory_worker _ worker_id_not_blank] by blast
qed

theorem follow_up_runs_witness:
  "\<exists>r w'. rerun_run sample_commands ''run-1'' sample_finished = (Inr r, w') \<and> ms_parent (qr_submission r) = ''run-1'' \<and>
    ms_kind (qr_submission r) = RunKindRerun \<and> qs_order (sv_queue w') \<noteq> []"
proof -
  have trim: "trim_space ''run-1'' = ''run-1''" by code_simp
  have ok: "queue_ok (sv_queue sample_finished)" using sample_service_ok by (simp add: service_ok_def)
  obtain res w' where run: "rerun_run sample_commands ''run-1'' sample_finished = (res, w')" by fastforce
  obtain r where r: "res = Inr r" using sample_rerun_admitted run by (cases res) auto
  from follow_up_runs [OF sample_memory_commands ok, of "''run-1''" res w' RunKindRerun StateCompleted] run r trim
  show ?thesis by auto
qed

lemma sample_steps: "(service_step completing_worker sample_commands)\<^sup>*\<^sup>* empty_service sample_finished"
proof -
  have "service_step completing_worker sample_commands empty_service sample_service"
    using do_submit [of sample_submission completing_worker sample_commands empty_service] sample_submitted
    by (simp add: sample_submission_def)
  moreover have "service_step completing_worker sample_commands sample_service sample_finished"
    unfolding sample_finished_def by (rule do_process [OF worker_id_not_blank])
  ultimately show ?thesis by (meson converse_rtranclp_into_rtranclp rtranclp.rtrancl_refl)
qed

theorem one_official_run_witness:
  "\<exists>q. lookup (sv_queue sample_finished) ''run-1'' = Some q \<and> qr_official q \<and>
    (\<forall>y p. lookup (sv_queue sample_finished) y = Some p \<and> qr_official p \<and> qr_match p = qr_match q \<longrightarrow> y = ''run-1'')"
proof -
  obtain q where q: "lookup (sv_queue sample_finished) ''run-1'' = Some q" "qr_official q"
    using sample_finished_official by (cases "lookup (sv_queue sample_finished) ''run-1''") simp_all
  have empty: "sv_queue empty_service = new_queue_store" by (simp add: empty_service_def)
  from one_official_run [OF completing_memory_worker sample_memory_commands empty sample_steps q(1)] q show ?thesis
    by blast
qed

end
