(* ===== verification/Bots.thy ===== *)
theory Bots
  imports Prelude
begin

text \<open>
  Bot ownership: the in-memory store of \<open>internal/platform/service/bot_ownership.go\<close>. Every
  operation holds the store's mutex; the ids that \<open>uuid.NewString\<close> generates, the clock and
  \<open>strings.ToLower\<close> (Unicode case mapping) are arguments.
\<close>

section \<open>Data\<close>

datatype bot_state = BotActive | BotRetired

text \<open>\<open>ValidationState\<close>: only the ready state is named by the source.\<close>

datatype validation_state = ValidationReady | OtherValidation string

record competition_scope =
  cs_scope :: string
  cs_game :: string
  cs_major :: int
  cs_ruleset :: string
  cs_max :: int

record owned_bot =
  ob_bot :: string
  ob_owner :: string
  ob_scope :: string
  ob_name :: string
  ob_normalized :: string
  ob_state :: bot_state
  ob_revision :: string

record eligible_bot =
  eb_bot :: string
  eb_scope :: string
  eb_name :: string
  eb_revision :: string

record resolved_bot =
  rb_eligible :: eligible_bot
  rb_artifact :: string

record bot_revision =
  br_id :: string
  br_bot :: string
  br_artifact :: string
  br_validation :: validation_state
  br_created :: int

record revision_request =
  vr_scope :: competition_scope
  vr_owner :: string
  vr_bot :: string
  vr_name :: string
  vr_artifact :: string
  vr_validation :: validation_state

datatype bot_error =
  OwnershipFieldsMissing | QuotaNotPositive | BotNotFound | NotActiveOwned | BotNameMissing
| BotNameTaken | BotQuotaExceeded | NotOwnedByPrincipal | NotEligible

record bot_store =
  bs_bots :: "owned_bot gomap"
  bs_revisions :: "bot_revision gomap"

definition new_bot_store :: bot_store where
  "new_bot_store = \<lparr>bs_bots = [], bs_revisions = []\<rparr>"

section \<open>Names\<close>

text \<open>\<open>strings.Fields\<close>: the maximal runs of characters that are not white space.\<close>

definition space_at :: "string \<Rightarrow> bool" where
  "space_at s \<longleftrightarrow> list_ex (\<lambda>p. prefix p s) space_seqs"

fun next_field :: "string \<Rightarrow> string \<times> string" where
  "next_field [] = ([], [])"
| "next_field (c # cs) =
     (if space_at (c # cs) then ([], c # cs)
      else case next_field cs of (f, rest) \<Rightarrow> (c # f, rest))"

lemma next_field_length: "length (snd (next_field s)) \<le> length s"
  by (induction s) (auto split: prod.splits)

function fields :: "string \<Rightarrow> string list" where
  "fields s =
     (let t = trim_front space_seqs s in
      if t = [] then []
      else case next_field t of (f, rest) \<Rightarrow> if f = [] then [] else f # fields rest)"
  by pat_completeness auto
termination
proof (relation "measure length", goal_cases)
  case (2 s t f rest)
  obtain c cs where t: "t = c # cs" using 2(2) by (meson neq_Nil_conv)
  have n: "next_field (c # cs) = (f, rest)" "f \<noteq> []" using 2(3,4) t by simp_all
  then have "\<not> space_at (c # cs)" by auto
  then have "rest = snd (next_field cs)" using n(1) by (auto split: prod.splits)
  then have "length rest < length t" using next_field_length [of cs] by (simp add: t less_Suc_eq_le)
  moreover have "length t \<le> length s" using 2(1) suffix_length_le [OF trim_front_suffix] by simp
  ultimately show ?case by simp
qed simp

declare fields.simps [simp del]

fun join_fields :: "string list \<Rightarrow> string" where
  "join_fields [] = []"
| "join_fields [x] = x"
| "join_fields (x # xs) = x @ '' '' @ join_fields xs"

definition normalize_bot_name :: "(string \<Rightarrow> string) \<Rightarrow> string \<Rightarrow> string" where
  "normalize_bot_name to_lower name = to_lower (join_fields (fields (trim_space name)))"

section \<open>Operations\<close>

text \<open>The values of the map, in the order in which a range visits them.\<close>

definition active_of :: "bot_store \<Rightarrow> string \<Rightarrow> string \<Rightarrow> owned_bot list" where
  "active_of s owner scope =
     filter (\<lambda>b. ob_owner b = owner \<and> ob_scope b = scope \<and> ob_state b = BotActive) (map snd (bs_bots s))"

text \<open>
  The loop over the bots counts the active ones and returns early when one has the name: the
  outcome does not depend on the order of the map.
\<close>

definition new_bot ::
  "(string \<Rightarrow> string) \<Rightarrow> string \<Rightarrow> revision_request \<Rightarrow> bot_store \<Rightarrow> bot_error + owned_bot" where
  "new_bot to_lower fresh req s =
     (let name = normalize_bot_name to_lower (vr_name req);
          active = active_of s (vr_owner req) (cs_scope (vr_scope req))
      in if name = [] then Inl BotNameMissing
         else if list_ex (\<lambda>b. ob_normalized b = name) active then Inl BotNameTaken
         else if int (length active) \<ge> cs_max (vr_scope req) then Inl BotQuotaExceeded
         else Inr \<lparr>ob_bot = ''bot-'' @ fresh, ob_owner = vr_owner req, ob_scope = cs_scope (vr_scope req),
                   ob_name = trim_space (vr_name req), ob_normalized = name, ob_state = BotActive, ob_revision = []\<rparr>)"

definition revised_bot :: "string \<Rightarrow> revision_request \<Rightarrow> bot_store \<Rightarrow> bot_error + owned_bot" where
  "revised_bot bot_id req s =
     (case map_of (bs_bots s) bot_id of
        None \<Rightarrow> Inl BotNotFound
      | Some b \<Rightarrow>
          if ob_owner b \<noteq> vr_owner req \<or> ob_scope b \<noteq> cs_scope (vr_scope req) \<or> ob_state b \<noteq> BotActive
          then Inl NotActiveOwned else Inr b)"

definition create_or_revise ::
  "(string \<Rightarrow> string) \<Rightarrow> string \<Rightarrow> string \<Rightarrow> int \<Rightarrow> revision_request \<Rightarrow> bot_store \<Rightarrow>
   (bot_error + owned_bot \<times> bot_revision) \<times> bot_store" where
  "create_or_revise to_lower fresh_bot fresh_ai now req s =
     (if blank (vr_owner req) \<or> blank (cs_scope (vr_scope req)) \<or> blank (vr_artifact req)
      then (Inl OwnershipFieldsMissing, s)
      else if cs_max (vr_scope req) < 1 then (Inl QuotaNotPositive, s)
      else case (if trim_space (vr_bot req) \<noteq> [] then revised_bot (trim_space (vr_bot req)) req s
                 else new_bot to_lower fresh_bot req s) of
        Inl e \<Rightarrow> (Inl e, s)
      | Inr b0 \<Rightarrow>
          let revn = \<lparr>br_id = ''ai-'' @ fresh_ai, br_bot = ob_bot b0, br_artifact = vr_artifact req,
                     br_validation = (if vr_validation req = OtherValidation [] then ValidationReady else vr_validation req),
                     br_created = now\<rparr>;
              b = b0\<lparr>ob_revision := br_id revn\<rparr>
          in (Inr (b, revn), s\<lparr>bs_bots := put (ob_bot b) b (bs_bots s),
                              bs_revisions := put (br_id revn) revn (bs_revisions s)\<rparr>))"

definition retire :: "string \<Rightarrow> string \<Rightarrow> bot_store \<Rightarrow> (bot_error + owned_bot) \<times> bot_store" where
  "retire owner bot_id s =
     (case map_of (bs_bots s) (trim_space bot_id) of
        None \<Rightarrow> (Inl BotNotFound, s)
      | Some b \<Rightarrow>
          if ob_owner b \<noteq> trim_space owner then (Inl NotOwnedByPrincipal, s)
          else let b1 = b\<lparr>ob_state := BotRetired\<rparr>
               in (Inr b1, s\<lparr>bs_bots := put (ob_bot b1) b1 (bs_bots s)\<rparr>))"

definition list_by_owner :: "string \<Rightarrow> string \<Rightarrow> bool \<Rightarrow> bot_store \<Rightarrow> owned_bot list" where
  "list_by_owner owner scope include_retired s =
     filter (\<lambda>b. ob_owner b = owner \<and> ob_scope b = scope \<and> (include_retired \<or> ob_state b = BotActive))
       (map snd (bs_bots s))"

definition ready_revision :: "bot_store \<Rightarrow> string \<Rightarrow> owned_bot \<Rightarrow> bot_revision option" where
  "ready_revision s scope b =
     (if ob_scope b \<noteq> trim_space scope \<or> ob_state b \<noteq> BotActive \<or> ob_revision b = [] then None
      else case map_of (bs_revisions s) (ob_revision b) of
        None \<Rightarrow> None
      | Some revn \<Rightarrow> if br_validation revn \<noteq> ValidationReady then None else Some revn)"

definition eligible_of :: "owned_bot \<Rightarrow> eligible_bot" where
  "eligible_of b = \<lparr>eb_bot = ob_bot b, eb_scope = ob_scope b, eb_name = ob_name b, eb_revision = ob_revision b\<rparr>"

definition list_eligible :: "string \<Rightarrow> bot_store \<Rightarrow> eligible_bot list" where
  "list_eligible scope s =
     map eligible_of (filter (\<lambda>b. ready_revision s scope b \<noteq> None) (map snd (bs_bots s)))"

fun resolve_eligible :: "string \<Rightarrow> string list \<Rightarrow> bot_store \<Rightarrow> bot_error + resolved_bot list" where
  "resolve_eligible scope [] s = Inr []"
| "resolve_eligible scope (i # ids) s =
     (case map_of (bs_bots s) (trim_space i) of
        None \<Rightarrow> Inl NotEligible
      | Some b \<Rightarrow>
          (case ready_revision s scope b of
             None \<Rightarrow> Inl NotEligible
           | Some revn \<Rightarrow>
               bindR (resolve_eligible scope ids s) (\<lambda>items.
                 Inr (\<lparr>rb_eligible = eligible_of b, rb_artifact = br_artifact revn\<rparr> # items))))"

section \<open>Reachable stores\<close>

text \<open>
  The steps of a store: the generated ids are new, and every request of a scope carries that
  scope's quota.
\<close>

inductive bot_step :: "(string \<Rightarrow> string) \<Rightarrow> (string \<Rightarrow> int) \<Rightarrow> bot_store \<Rightarrow> bot_store \<Rightarrow> bool"
  for to_lower :: "string \<Rightarrow> string" and quota :: "string \<Rightarrow> int" where
  step_revise: "cs_max (vr_scope req) = quota (cs_scope (vr_scope req)) \<Longrightarrow>
    ''bot-'' @ fresh_bot \<notin> fst ` set (bs_bots s) \<Longrightarrow> ''ai-'' @ fresh_ai \<notin> fst ` set (bs_revisions s) \<Longrightarrow>
    bot_step to_lower quota s (snd (create_or_revise to_lower fresh_bot fresh_ai now req s))"
| step_retire: "bot_step to_lower quota s (snd (retire owner bot_id s))"

definition bot_store_ok :: "(string \<Rightarrow> int) \<Rightarrow> bot_store \<Rightarrow> bool" where
  "bot_store_ok quota s \<longleftrightarrow> distinct (map fst (bs_bots s)) \<and>
     (\<forall>k b. map_of (bs_bots s) k = Some b \<longrightarrow> ob_bot b = k \<and>
        (\<exists>revn. map_of (bs_revisions s) (ob_revision b) = Some revn \<and> br_bot revn = k \<and> br_id revn = ob_revision b)) \<and>
     (\<forall>owner scope. active_of s owner scope \<noteq> [] \<longrightarrow> int (length (active_of s owner scope)) \<le> quota scope) \<and>
     (\<forall>j k b c. map_of (bs_bots s) j = Some b \<longrightarrow> map_of (bs_bots s) k = Some c \<longrightarrow>
        ob_owner b = ob_owner c \<longrightarrow> ob_scope b = ob_scope c \<longrightarrow> ob_state b = BotActive \<longrightarrow> ob_state c = BotActive \<longrightarrow>
        ob_normalized b = ob_normalized c \<longrightarrow> j = k)"

end
