(* ===== verification/Bots_Spec.thy ===== *)
theory Bots_Spec
  imports Bots
begin

text \<open>
  What the bot store promises: quotas and unique names of active bots, an immutable history,
  and an eligible list that holds exactly the bots that resolve.
\<close>

section \<open>Counting the entries of a map\<close>

lemma count_entries:
  assumes "distinct (map fst m)"
  shows "length (filter P (map snd m)) = card {k. \<exists>b. map_of m k = Some b \<and> P b}"
proof -
  have d: "distinct (map fst (filter (\<lambda>kb. P (snd kb)) m))" using assms by (rule distinct_map_filter)
  have "{k. \<exists>b. map_of m k = Some b \<and> P b} = set (map fst (filter (\<lambda>kb. P (snd kb)) m))"
    using assms by (force simp: map_of_eq_Some_iff)
  then have "card {k. \<exists>b. map_of m k = Some b \<and> P b} = length (filter (\<lambda>kb. P (snd kb)) m)"
    using distinct_card [OF d] by simp
  then show ?thesis by (simp add: filter_map comp_def)
qed

lemma finite_entries: "finite {k. \<exists>b. map_of m k = Some b \<and> P b}"
  by (rule finite_subset [OF _ finite_dom_map_of [of m]]) auto

definition is_active :: "string \<Rightarrow> string \<Rightarrow> owned_bot \<Rightarrow> bool" where
  "is_active owner scope b \<longleftrightarrow> ob_owner b = owner \<and> ob_scope b = scope \<and> ob_state b = BotActive"

lemma active_of_filter: "active_of s owner scope = filter (is_active owner scope) (map snd (bs_bots s))"
  by (simp add: active_of_def is_active_def [abs_def])

definition bots_of :: "bot_store \<Rightarrow> string \<Rightarrow> string \<Rightarrow> string set" where
  "bots_of s owner scope = {k. \<exists>b. map_of (bs_bots s) k = Some b \<and> is_active owner scope b}"

lemma active_card: "distinct (map fst (bs_bots s)) \<Longrightarrow> length (active_of s owner scope) = card (bots_of s owner scope)"
  unfolding active_of_filter bots_of_def by (rule count_entries)

section \<open>The invariant\<close>

lemma bot_store_okI:
  assumes "distinct (map fst (bs_bots s))"
    and "\<And>k b. map_of (bs_bots s) k = Some b \<Longrightarrow> ob_bot b = k \<and>
        (\<exists>revn. map_of (bs_revisions s) (ob_revision b) = Some revn \<and> br_bot revn = k \<and> br_id revn = ob_revision b)"
    and "\<And>owner scope. bots_of s owner scope \<noteq> {} \<Longrightarrow> int (card (bots_of s owner scope)) \<le> quota scope"
    and "\<And>j k b c owner scope. map_of (bs_bots s) j = Some b \<Longrightarrow> map_of (bs_bots s) k = Some c \<Longrightarrow>
        is_active owner scope b \<Longrightarrow> is_active owner scope c \<Longrightarrow> ob_normalized b = ob_normalized c \<Longrightarrow> j = k"
  shows "bot_store_ok quota s"
proof -
  have "int (length (active_of s owner scope)) \<le> quota scope" if "active_of s owner scope \<noteq> []" for owner scope
  proof -
    have "card (bots_of s owner scope) \<noteq> 0" using that active_card [OF assms(1), of owner scope] by (metis length_0_conv)
    then have "bots_of s owner scope \<noteq> {}" by auto
    with assms(3) show ?thesis by (simp add: active_card [OF assms(1)])
  qed
  moreover have "j = k" if "map_of (bs_bots s) j = Some b" "map_of (bs_bots s) k = Some c" "ob_owner b = ob_owner c"
    "ob_scope b = ob_scope c" "ob_state b = BotActive" "ob_state c = BotActive" "ob_normalized b = ob_normalized c" for j k b c
    using assms(4) [OF that(1,2), of "ob_owner b" "ob_scope b"] that by (simp add: is_active_def)
  ultimately show ?thesis using assms(1,2) by (simp add: bot_store_ok_def)
qed

lemma bot_store_okD:
  assumes "bot_store_ok quota s"
  shows "distinct (map fst (bs_bots s))"
    "map_of (bs_bots s) k = Some b \<Longrightarrow> ob_bot b = k"
    "map_of (bs_bots s) k = Some b \<Longrightarrow>
        \<exists>revn. map_of (bs_revisions s) (ob_revision b) = Some revn \<and> br_bot revn = k \<and> br_id revn = ob_revision b"
    "bots_of s owner scope \<noteq> {} \<Longrightarrow> int (card (bots_of s owner scope)) \<le> quota scope"
    "map_of (bs_bots s) j = Some b' \<Longrightarrow> map_of (bs_bots s) k = Some c \<Longrightarrow>
        is_active owner scope b' \<Longrightarrow> is_active owner scope c \<Longrightarrow> ob_normalized b' = ob_normalized c \<Longrightarrow> j = k"
proof -
  show d: "distinct (map fst (bs_bots s))" using assms by (simp add: bot_store_ok_def)
  show "map_of (bs_bots s) k = Some b \<Longrightarrow> ob_bot b = k"
    "map_of (bs_bots s) k = Some b \<Longrightarrow>
        \<exists>revn. map_of (bs_revisions s) (ob_revision b) = Some revn \<and> br_bot revn = k \<and> br_id revn = ob_revision b"
    using assms by (simp_all add: bot_store_ok_def)
  show "int (card (bots_of s owner scope)) \<le> quota scope" if "bots_of s owner scope \<noteq> {}"
  proof -
    have fin: "finite (bots_of s owner scope)" unfolding bots_of_def by (rule finite_entries)
    then have "active_of s owner scope \<noteq> []" using that active_card [OF d, of owner scope] by auto
    then show ?thesis using assms by (simp add: bot_store_ok_def active_card [OF d])
  qed
  show "map_of (bs_bots s) j = Some b' \<Longrightarrow> map_of (bs_bots s) k = Some c \<Longrightarrow>
        is_active owner scope b' \<Longrightarrow> is_active owner scope c \<Longrightarrow> ob_normalized b' = ob_normalized c \<Longrightarrow> j = k"
  proof -
    assume c: "map_of (bs_bots s) j = Some b'" "map_of (bs_bots s) k = Some c" "is_active owner scope b'"
      "is_active owner scope c" "ob_normalized b' = ob_normalized c"
    have "\<forall>j k b c. map_of (bs_bots s) j = Some b \<longrightarrow> map_of (bs_bots s) k = Some c \<longrightarrow>
        ob_owner b = ob_owner c \<longrightarrow> ob_scope b = ob_scope c \<longrightarrow> ob_state b = BotActive \<longrightarrow> ob_state c = BotActive \<longrightarrow>
        ob_normalized b = ob_normalized c \<longrightarrow> j = k"
      using assms by (simp add: bot_store_ok_def)
    from this [rule_format, OF c(1,2)] c(3-5) show ?thesis by (simp add: is_active_def)
  qed
qed

lemma bot_store_ok_new [go_inv]: "bot_store_ok quota new_bot_store"
  by (simp add: bot_store_ok_def new_bot_store_def active_of_def)

text \<open>The record of a new revision.\<close>

definition admitted :: "string \<Rightarrow> int \<Rightarrow> revision_request \<Rightarrow> owned_bot \<Rightarrow> bot_revision" where
  "admitted ai now req b = \<lparr>br_id = ai, br_bot = ob_bot b, br_artifact = vr_artifact req,
     br_validation = (if vr_validation req = OtherValidation [] then ValidationReady else vr_validation req),
     br_created = now\<rparr>"

lemma create_or_revise_alt:
  "create_or_revise to_lower fb fa now req s =
     (if blank (vr_owner req) \<or> blank (cs_scope (vr_scope req)) \<or> blank (vr_artifact req)
      then (Inl OwnershipFieldsMissing, s)
      else if cs_max (vr_scope req) < 1 then (Inl QuotaNotPositive, s)
      else case (if trim_space (vr_bot req) \<noteq> [] then revised_bot (trim_space (vr_bot req)) req s
                 else new_bot to_lower fb req s) of
        Inl e \<Rightarrow> (Inl e, s)
      | Inr b \<Rightarrow> (Inr (b\<lparr>ob_revision := ''ai-'' @ fa\<rparr>, admitted (''ai-'' @ fa) now req b),
          s\<lparr>bs_bots := put (ob_bot b) (b\<lparr>ob_revision := ''ai-'' @ fa\<rparr>) (bs_bots s),
            bs_revisions := put (''ai-'' @ fa) (admitted (''ai-'' @ fa) now req b) (bs_revisions s)\<rparr>))"
  by (simp add: create_or_revise_def admitted_def Let_def split: sum.split)

lemma create_or_revise_cases:
  obtains e where "create_or_revise to_lower fb fa now req s = (Inl e, s)"
  | b ai where "ai = ''ai-'' @ fa"
      "create_or_revise to_lower fb fa now req s = (Inr (b\<lparr>ob_revision := ai\<rparr>, admitted ai now req b),
        s\<lparr>bs_bots := put (ob_bot b) (b\<lparr>ob_revision := ai\<rparr>) (bs_bots s),
          bs_revisions := put ai (admitted ai now req b) (bs_revisions s)\<rparr>)"
      "new_bot to_lower fb req s = Inr b \<or> revised_bot (trim_space (vr_bot req)) req s = Inr b"
proof -
  let ?m = "if trim_space (vr_bot req) \<noteq> [] then revised_bot (trim_space (vr_bot req)) req s else new_bot to_lower fb req s"
  show ?thesis
  proof (cases "\<exists>e. create_or_revise to_lower fb fa now req s = (Inl e, s)")
    case False
    have c: "\<not> (blank (vr_owner req) \<or> blank (cs_scope (vr_scope req)) \<or> blank (vr_artifact req))"
      "\<not> cs_max (vr_scope req) < 1"
      using False by (simp_all add: create_or_revise_alt split: if_splits)
    obtain b where m: "?m = Inr b"
    proof (cases ?m)
      case (Inl e)
      have "create_or_revise to_lower fb fa now req s = (Inl e, s)" unfolding create_or_revise_alt Inl using c by simp
      with False show ?thesis by blast
    qed (rule that)
    show ?thesis
    proof (rule that(2) [OF refl])
      show "create_or_revise to_lower fb fa now req s = (Inr (b\<lparr>ob_revision := ''ai-'' @ fa\<rparr>, admitted (''ai-'' @ fa) now req b),
        s\<lparr>bs_bots := put (ob_bot b) (b\<lparr>ob_revision := ''ai-'' @ fa\<rparr>) (bs_bots s),
          bs_revisions := put (''ai-'' @ fa) (admitted (''ai-'' @ fa) now req b) (bs_revisions s)\<rparr>)"
        unfolding create_or_revise_alt m using c by simp
      show "new_bot to_lower fb req s = Inr b \<or> revised_bot (trim_space (vr_bot req)) req s = Inr b"
        using m by (auto split: if_splits)
    qed
  qed (use that(1) in blast)
qed

lemma revised_bot_ok:
  "revised_bot i req s = Inr b \<Longrightarrow> map_of (bs_bots s) i = Some b \<and> is_active (vr_owner req) (cs_scope (vr_scope req)) b"
  by (auto simp: revised_bot_def is_active_def split: option.splits if_splits)

lemma new_bot_ok:
  "new_bot to_lower fb req s = Inr b \<Longrightarrow> ob_bot b = ''bot-'' @ fb \<and> is_active (vr_owner req) (cs_scope (vr_scope req)) b \<and>
     (\<forall>c \<in> set (active_of s (vr_owner req) (cs_scope (vr_scope req))). ob_normalized c \<noteq> ob_normalized b) \<and>
     int (length (active_of s (vr_owner req) (cs_scope (vr_scope req)))) < cs_max (vr_scope req)"
  by (auto simp: new_bot_def Let_def is_active_def list_ex_iff split: if_splits)

lemma active_member:
  "map_of (bs_bots s) k = Some c \<Longrightarrow> is_active owner scope c \<Longrightarrow> c \<in> set (active_of s owner scope)"
  by (force simp: active_of_filter dest: map_of_SomeD)

lemma create_or_revise_inv [go_inv]:
  assumes "bot_store_ok quota s" "cs_max (vr_scope req) = quota (cs_scope (vr_scope req))"
    and "''bot-'' @ fb \<notin> fst ` set (bs_bots s)" "''ai-'' @ fa \<notin> fst ` set (bs_revisions s)"
  shows "bot_store_ok quota (snd (create_or_revise to_lower fb fa now req s))"
proof (cases rule: create_or_revise_cases [of to_lower fb fa now req s])
  case (2 b0 ai)
  note ok = bot_store_okD [OF assms(1)]
  let ?k = "ob_bot b0" and ?owner = "vr_owner req" and ?scope = "cs_scope (vr_scope req)"
  let ?b = "b0\<lparr>ob_revision := ai\<rparr>"
  define s' where "s' = snd (create_or_revise to_lower fb fa now req s)"
  have s': "bs_bots s' = put ?k ?b (bs_bots s)" "bs_revisions s' = put ai (admitted ai now req b0) (bs_revisions s)"
    by (simp_all add: s'_def 2(2))
  have look: "map_of (bs_bots s') x = (if x = ?k then Some ?b else map_of (bs_bots s) x)" for x by (simp add: s')
  have b: "is_active o' c ?b = is_active o' c b0" for o' c by (simp add: is_active_def)
  have fresh: "map_of (bs_revisions s) ai = None" using assms(4) by (simp add: map_of_eq_None_iff 2(1))
  have act: "is_active ?owner ?scope b0"
    using 2(3) new_bot_ok revised_bot_ok by blast
  have kind: "map_of (bs_bots s) ?k = Some b0 \<or> map_of (bs_bots s) ?k = None \<and> new_bot to_lower fb req s = Inr b0"
    using 2(3)
  proof
    assume n: "new_bot to_lower fb req s = Inr b0"
    then have "?k = ''bot-'' @ fb" using new_bot_ok by blast
    with n assms(3) show ?thesis by (simp add: map_of_eq_None_iff)
  next
    assume "revised_bot (trim_space (vr_bot req)) req s = Inr b0"
    from revised_bot_ok [OF this] ok(2) show ?thesis by auto
  qed
  have sets: "bots_of s' o' c = (if is_active o' c b0 then insert ?k (bots_of s o' c) else bots_of s o' c)" for o' c
    using kind by (auto simp: bots_of_def look b split: if_splits)
  have "bot_store_ok quota s'"
  proof (rule bot_store_okI, goal_cases)
    case 1
    show ?case using ok(1) by (simp add: s')
  next
    case (2 x y)
    show ?case
    proof (cases "x = ?k")
      case True
      then show ?thesis using 2 by (auto simp: look s' admitted_def)
    next
      case False
      then have y: "map_of (bs_bots s) x = Some y" using 2 by (simp add: look)
      from ok(3) [OF y] fresh have "ob_revision y \<noteq> ai" by auto
      then show ?thesis using ok(2,3) [OF y] by (auto simp: s')
    qed
  next
    case (3 o' c)
    show ?case
    proof (cases "is_active o' c b0")
      case False
      then show ?thesis using 3 ok(4) [of o' c] by (simp add: sets)
    next
      case True
      then have oc: "o' = ?owner" "c = ?scope" using act by (simp_all add: is_active_def)
      show ?thesis
      proof (cases "map_of (bs_bots s) ?k = Some b0")
        case True
        then have "?k \<in> bots_of s o' c" using \<open>is_active o' c b0\<close> by (auto simp: bots_of_def)
        then show ?thesis using ok(4) [of o' c] \<open>is_active o' c b0\<close> by (auto simp: sets insert_absorb)
      next
        case False
        then have n: "new_bot to_lower fb req s = Inr b0" using kind by blast
        have "card (insert ?k (bots_of s o' c)) \<le> Suc (card (bots_of s o' c))" by (rule card_insert_le_m1) simp_all
        moreover have "int (card (bots_of s o' c)) < quota c"
          using new_bot_ok [OF n] assms(2) active_card [OF ok(1)] by (simp add: oc)
        ultimately show ?thesis using True by (simp add: sets)
      qed
    qed
  next
    case (4 x y p q o' c)
    have new: "z \<noteq> ?k \<Longrightarrow> map_of (bs_bots s) z = Some r \<Longrightarrow> is_active o' c r \<Longrightarrow> is_active o' c b0 \<Longrightarrow>
        ob_normalized r \<noteq> ob_normalized b0" for z r
      using kind
    proof
      assume z: "z \<noteq> ?k" "map_of (bs_bots s) z = Some r" "is_active o' c r" "is_active o' c b0"
        and k: "map_of (bs_bots s) ?k = Some b0"
      then show ?thesis using ok(5) [OF z(2) k z(3,4)] by auto
    next
      assume z: "z \<noteq> ?k" "map_of (bs_bots s) z = Some r" "is_active o' c r" "is_active o' c b0"
        and n: "map_of (bs_bots s) ?k = None \<and> new_bot to_lower fb req s = Inr b0"
      have oc: "o' = ?owner" "c = ?scope" using act z(4) by (simp_all add: is_active_def)
      show ?thesis using new_bot_ok [OF conjunct2 [OF n]] active_member [OF z(2,3)] by (auto simp: oc)
    qed
    show ?case
      using 4 new [of y q] new [of x p] ok(5) [of x p y q o' c] b by (auto simp: look split: if_splits)
  qed
  then show ?thesis by (simp add: s'_def)
qed (use assms(1) in simp)

lemma retire_cases:
  obtains e where "retire owner i s = (Inl e, s)"
  | b where "map_of (bs_bots s) (trim_space i) = Some b" "ob_owner b = trim_space owner"
      "retire owner i s = (Inr (b\<lparr>ob_state := BotRetired\<rparr>),
        s\<lparr>bs_bots := put (ob_bot b) (b\<lparr>ob_state := BotRetired\<rparr>) (bs_bots s)\<rparr>)"
proof (cases "\<exists>b. map_of (bs_bots s) (trim_space i) = Some b \<and> ob_owner b = trim_space owner")
  case True
  then show ?thesis using that(2) by (auto simp: retire_def Let_def)
next
  case False
  then have "\<exists>e. retire owner i s = (Inl e, s)" by (auto simp: retire_def split: option.split)
  then show ?thesis using that(1) by blast
qed

lemma retire_inv [go_inv]:
  assumes "bot_store_ok quota s"
  shows "bot_store_ok quota (snd (retire owner i s))"
proof (cases rule: retire_cases [of owner i s])
  case (2 b0)
  note ok = bot_store_okD [OF assms]
  let ?k = "ob_bot b0" and ?b = "b0\<lparr>ob_state := BotRetired\<rparr>"
  define s' where "s' = snd (retire owner i s)"
  have s': "bs_bots s' = put ?k ?b (bs_bots s)" "bs_revisions s' = bs_revisions s" by (simp_all add: s'_def 2(3))
  have k: "map_of (bs_bots s) ?k = Some b0" using 2(1) ok(2) by auto
  have look: "map_of (bs_bots s') x = (if x = ?k then Some ?b else map_of (bs_bots s) x)" for x by (simp add: s')
  have gone: "\<not> is_active o' c ?b" for o' c by (simp add: is_active_def)
  have sub: "bots_of s' o' c \<subseteq> bots_of s o' c" for o' c
    using gone by (auto simp: bots_of_def look split: if_splits)
  have "bot_store_ok quota s'"
  proof (rule bot_store_okI, goal_cases)
    case 1
    show ?case using ok(1) by (simp add: s')
  next
    case (2 x y)
    show ?case
    proof (cases "x = ?k")
      case True
      then have "y = ?b" using 2 by (simp add: look)
      then show ?thesis using True ok(3) [OF k] by (simp add: s'(2))
    next
      case False
      then have y: "map_of (bs_bots s) x = Some y" using 2 by (simp add: look)
      show ?thesis using ok(2) [OF y] ok(3) [OF y] by (simp add: s'(2))
    qed
  next
    case (3 o' c)
    have fin: "finite (bots_of s o' c)" unfolding bots_of_def by (rule finite_entries)
    have ne: "bots_of s o' c \<noteq> {}" using 3 sub by blast
    show ?case using ok(4) [OF ne] card_mono [OF fin sub] by linarith
  next
    case (4 x y p q o' c)
    then have p: "map_of (bs_bots s) x = Some p" "map_of (bs_bots s) y = Some q"
      using gone by (auto simp: look split: if_splits)
    show ?case by (rule ok(5) [OF p 4(3-5)])
  qed
  then show ?thesis by (simp add: s'_def)
qed (use assms in simp)

lemma bot_steps_inv:
  assumes "(bot_step to_lower quota)\<^sup>*\<^sup>* s s'" "bot_store_ok quota s"
  shows "bot_store_ok quota s'"
  using assms
proof (induction rule: rtranclp_induct)
  case (step s1 s2)
  from step.hyps(2) show ?case
  proof (cases rule: bot_step.cases)
    case (step_revise req fb fa now)
    then show ?thesis using create_or_revise_inv [OF step.IH [OF step.prems] step_revise(2-4)] by simp
  next
    case (step_retire owner i)
    then show ?thesis using retire_inv [OF step.IH [OF step.prems]] by simp
  qed
qed simp

section \<open>Quotas and names\<close>

text \<open>
  C30. Bot quotas and names hold whatever is created, revised and retired: in every reachable
  store an owner has at most the scope's quota of active bots in it, no two of them share a
  normalised name, and each has an active revision, which is a revision of that bot.
\<close>

theorem bot_quota_and_names:
  assumes "(bot_step to_lower quota)\<^sup>*\<^sup>* new_bot_store s"
  shows "int (length (active_of s owner scope)) \<le> max 0 (quota scope) \<and>
    distinct (map ob_normalized (active_of s owner scope)) \<and>
    (\<forall>b \<in> set (active_of s owner scope). \<exists>revn. map_of (bs_revisions s) (ob_revision b) = Some revn \<and> br_bot revn = ob_bot b)"
proof -
  have sok: "bot_store_ok quota s" using bot_steps_inv [OF assms bot_store_ok_new] .
  note ok = bot_store_okD [OF sok]
  have quota: "int (length (active_of s owner scope)) \<le> max 0 (quota scope)"
  proof (cases "bots_of s owner scope = {}")
    case False
    then show ?thesis using ok(4) [OF False] active_card [OF ok(1), of owner scope] by simp
  qed (simp add: active_card [OF ok(1)])
  have mem: "map_of (bs_bots s) (ob_bot b) = Some b \<and> is_active owner scope b" if b: "b \<in> set (active_of s owner scope)" for b
  proof -
    from b obtain k where "(k, b) \<in> set (bs_bots s)" "is_active owner scope b" by (auto simp: active_of_filter)
    then have "map_of (bs_bots s) k = Some b" using ok(1) by simp
    with ok(2) \<open>is_active owner scope b\<close> show ?thesis by blast
  qed
  have "distinct (map ob_bot (map snd (bs_bots s)))"
  proof -
    have "ob_bot (snd kb) = fst kb" if "kb \<in> set (bs_bots s)" for kb
      using ok(1) that by (intro ok(2)) simp
    then have "map (\<lambda>kb. ob_bot (snd kb)) (bs_bots s) = map fst (bs_bots s)" by simp
    then show ?thesis using ok(1) by (simp only: map_map comp_def)
  qed
  then have d: "distinct (map ob_bot (active_of s owner scope))" unfolding active_of_filter by (rule distinct_map_filter)
  have "inj_on ob_normalized (set (active_of s owner scope))"
  proof (rule inj_onI)
    fix b c assume b: "b \<in> set (active_of s owner scope)" and c: "c \<in> set (active_of s owner scope)"
      and eq: "ob_normalized b = ob_normalized c"
    then have "ob_bot b = ob_bot c" using ok(5) mem [OF b] mem [OF c] by blast
    with mem [OF b] mem [OF c] have "Some b = Some c" by metis
    then show "b = c" by simp
  qed
  moreover have "distinct (active_of s owner scope)" using d by (simp only: distinct_map)
  ultimately have names: "distinct (map ob_normalized (active_of s owner scope))" by (simp add: distinct_map)
  have "\<exists>revn. map_of (bs_revisions s) (ob_revision b) = Some revn \<and> br_bot revn = ob_bot b"
    if b: "b \<in> set (active_of s owner scope)" for b
    using ok(3) mem [OF b] by blast
  with quota names show ?thesis by blast
qed

section \<open>History\<close>

definition keeps_history :: "bot_store \<Rightarrow> bot_store \<Rightarrow> bool" where
  "keeps_history s s' \<longleftrightarrow>
     (\<forall>k b. map_of (bs_bots s) k = Some b \<longrightarrow> (\<exists>b'. map_of (bs_bots s') k = Some b' \<and> ob_bot b' = k \<and>
        ob_owner b' = ob_owner b \<and> ob_scope b' = ob_scope b \<and> ob_name b' = ob_name b \<and> ob_normalized b' = ob_normalized b \<and>
        (ob_state b = BotRetired \<longrightarrow> b' = b))) \<and>
     (\<forall>i revn. map_of (bs_revisions s) i = Some revn \<longrightarrow> map_of (bs_revisions s') i = Some revn)"

lemma keeps_history_bot:
  "keeps_history s s' \<Longrightarrow> map_of (bs_bots s) k = Some b \<Longrightarrow> \<exists>b'. map_of (bs_bots s') k = Some b' \<and> ob_bot b' = k \<and>
     ob_owner b' = ob_owner b \<and> ob_scope b' = ob_scope b \<and> ob_name b' = ob_name b \<and> ob_normalized b' = ob_normalized b \<and>
     (ob_state b = BotRetired \<longrightarrow> b' = b)"
  by (simp add: keeps_history_def)

lemma keeps_history_trans:
  assumes "keeps_history s s1" "keeps_history s1 s2"
  shows "keeps_history s s2"
  unfolding keeps_history_def
proof (intro conjI allI impI)
  fix k b assume "map_of (bs_bots s) k = Some b"
  from keeps_history_bot [OF assms(1) this] obtain b1 where b1: "map_of (bs_bots s1) k = Some b1"
    "ob_owner b1 = ob_owner b" "ob_scope b1 = ob_scope b" "ob_name b1 = ob_name b" "ob_normalized b1 = ob_normalized b"
    "ob_state b = BotRetired \<longrightarrow> b1 = b" by blast
  from keeps_history_bot [OF assms(2) b1(1)] obtain b2 where b2: "map_of (bs_bots s2) k = Some b2" "ob_bot b2 = k"
    "ob_owner b2 = ob_owner b1" "ob_scope b2 = ob_scope b1" "ob_name b2 = ob_name b1" "ob_normalized b2 = ob_normalized b1"
    "ob_state b1 = BotRetired \<longrightarrow> b2 = b1" by blast
  show "\<exists>b'. map_of (bs_bots s2) k = Some b' \<and> ob_bot b' = k \<and> ob_owner b' = ob_owner b \<and> ob_scope b' = ob_scope b \<and>
      ob_name b' = ob_name b \<and> ob_normalized b' = ob_normalized b \<and> (ob_state b = BotRetired \<longrightarrow> b' = b)"
    by (rule exI [of _ b2]) (use b1 b2 in auto)
qed (use assms in \<open>auto simp: keeps_history_def\<close>)

lemma keeps_history_put:
  assumes "\<And>k b. map_of (bs_bots s) k = Some b \<Longrightarrow> ob_bot b = k"
    and "bs_bots s' = put k b (bs_bots s)" "ob_bot b = k"
    and "\<And>b0. map_of (bs_bots s) k = Some b0 \<Longrightarrow> ob_owner b = ob_owner b0 \<and> ob_scope b = ob_scope b0 \<and>
        ob_name b = ob_name b0 \<and> ob_normalized b = ob_normalized b0 \<and> (ob_state b0 = BotRetired \<longrightarrow> b = b0)"
    and "\<And>i revn. map_of (bs_revisions s) i = Some revn \<Longrightarrow> map_of (bs_revisions s') i = Some revn"
  shows "keeps_history s s'"
  unfolding keeps_history_def
proof (intro conjI allI impI)
  fix j c assume c: "map_of (bs_bots s) j = Some c"
  show "\<exists>b'. map_of (bs_bots s') j = Some b' \<and> ob_bot b' = j \<and> ob_owner b' = ob_owner c \<and> ob_scope b' = ob_scope c \<and>
      ob_name b' = ob_name c \<and> ob_normalized b' = ob_normalized c \<and> (ob_state c = BotRetired \<longrightarrow> b' = c)"
  proof (cases "j = k")
    case True
    show ?thesis by (rule exI [of _ b]) (use assms(2,3) assms(4) [of c] c True in simp)
  next
    case False
    show ?thesis by (rule exI [of _ c]) (use assms(1,2) c False in simp)
  qed
qed (use assms(5) in blast)

lemma bot_step_keeps_history:
  assumes "bot_step to_lower quota s1 s2" "bot_store_ok quota s1"
  shows "keeps_history s1 s2"
proof -
note ok = bot_store_okD [OF assms(2)]
from assms(1) show ?thesis
proof (cases rule: bot_step.cases)
  case (step_revise req fb fa now)
  show ?thesis
  proof (cases rule: create_or_revise_cases [of to_lower fb fa now req s1])
    case (1 e)
    then show ?thesis using step_revise(1) ok(2) by (simp add: keeps_history_def)
  next
    case (2 b0 ai)
    have same: "b1 = b0 \<and> ob_state b0 = BotActive" if "map_of (bs_bots s1) (ob_bot b0) = Some b1" for b1
      using 2(3)
    proof
      assume "new_bot to_lower fb req s1 = Inr b0"
      then have "ob_bot b0 = ''bot-'' @ fb" using new_bot_ok by blast
      then have "map_of (bs_bots s1) (ob_bot b0) = None" using step_revise(3) by (simp add: map_of_eq_None_iff)
      with that show ?thesis by simp
    next
      assume "revised_bot (trim_space (vr_bot req)) req s1 = Inr b0"
      from revised_bot_ok [OF this] have b: "map_of (bs_bots s1) (trim_space (vr_bot req)) = Some b0" "ob_state b0 = BotActive"
        by (simp_all add: is_active_def)
      from ok(2) [OF b(1)] b that show ?thesis by simp
    qed
    have fresh: "map_of (bs_revisions s1) ai = None" using step_revise(4) by (simp add: 2(1) map_of_eq_None_iff)
    have s2: "bs_bots s2 = put (ob_bot b0) (b0\<lparr>ob_revision := ai\<rparr>) (bs_bots s1)"
      "bs_revisions s2 = put ai (admitted ai now req b0) (bs_revisions s1)"
      using step_revise(1) 2(2) by simp_all
    show ?thesis
    proof (rule keeps_history_put [OF ok(2) s2(1)])
      show "map_of (bs_revisions s2) i = Some revn" if "map_of (bs_revisions s1) i = Some revn" for i revn
        using that fresh by (auto simp: s2(2))
    qed (use same in force)+
  qed
next
  case (step_retire owner i)
  show ?thesis
  proof (cases rule: retire_cases [of owner i s1])
    case (1 e)
    then show ?thesis using step_retire ok(2) by (simp add: keeps_history_def)
  next
    case (2 b0)
    have b0: "map_of (bs_bots s1) (ob_bot b0) = Some b0" using 2(1) ok(2) [OF 2(1)] by simp
    have s2: "bs_bots s2 = put (ob_bot b0) (b0\<lparr>ob_state := BotRetired\<rparr>) (bs_bots s1)" "bs_revisions s2 = bs_revisions s1"
      using step_retire 2(3) by simp_all
    show ?thesis
    proof (rule keeps_history_put [OF ok(2) s2(1)])
      fix b1 assume "map_of (bs_bots s1) (ob_bot b0) = Some b1"
      then have "b1 = b0" using b0 by simp
      then show "ob_owner (b0\<lparr>ob_state := BotRetired\<rparr>) = ob_owner b1 \<and> ob_scope (b0\<lparr>ob_state := BotRetired\<rparr>) = ob_scope b1 \<and>
          ob_name (b0\<lparr>ob_state := BotRetired\<rparr>) = ob_name b1 \<and> ob_normalized (b0\<lparr>ob_state := BotRetired\<rparr>) = ob_normalized b1 \<and>
          (ob_state b1 = BotRetired \<longrightarrow> b0\<lparr>ob_state := BotRetired\<rparr> = b1)"
        by (cases b0) simp
    qed (simp_all add: s2(2))
  qed
qed
qed

text \<open>
  C31. The history of bots is immutable: whatever happens, a bot keeps its owner, scope and names,
  a retired bot stays retired with its revision, and an admitted revision never changes.
\<close>

theorem bot_history_immutable:
  assumes "(bot_step to_lower quota)\<^sup>*\<^sup>* new_bot_store s" "(bot_step to_lower quota)\<^sup>*\<^sup>* s s'"
  shows "(\<forall>k b. map_of (bs_bots s) k = Some b \<longrightarrow> (\<exists>b'. map_of (bs_bots s') k = Some b' \<and> ob_bot b' = k \<and>
      ob_owner b' = ob_owner b \<and> ob_scope b' = ob_scope b \<and> ob_name b' = ob_name b \<and> ob_normalized b' = ob_normalized b \<and>
      (ob_state b = BotRetired \<longrightarrow> b' = b))) \<and>
    (\<forall>i revn. map_of (bs_revisions s) i = Some revn \<longrightarrow> map_of (bs_revisions s') i = Some revn)"
proof -
  have "keeps_history s s'"
    using assms(2)
  proof (induction rule: rtranclp_induct)
    case base
    have "bot_store_ok quota s" using bot_steps_inv [OF assms(1) bot_store_ok_new] .
    from bot_store_okD(2) [OF this] show ?case by (simp add: keeps_history_def)
  next
    case (step s1 s2)
    have "bot_store_ok quota s1"
      using bot_steps_inv [OF step.hyps(1) bot_steps_inv [OF assms(1) bot_store_ok_new]] .
    from keeps_history_trans [OF step.IH bot_step_keeps_history [OF step.hyps(2) this]] show ?case .
  qed
  then show ?thesis unfolding keeps_history_def .
qed

section \<open>Eligible bots\<close>

lemma eligible_bots:
  assumes "bot_store_ok quota s"
  shows "eb_bot ` set (list_eligible scope s) =
      {k. \<exists>b. map_of (bs_bots s) k = Some b \<and> ready_revision s scope b \<noteq> None}"
    and "map_of (bs_bots s) k = Some b \<Longrightarrow> ready_revision s scope b \<noteq> None \<Longrightarrow>
      eligible_of b \<in> set (list_eligible scope s)"
proof -
  note ok = bot_store_okD [OF assms]
  have "k \<in> eb_bot ` set (list_eligible scope s) \<longleftrightarrow>
      (\<exists>b. map_of (bs_bots s) k = Some b \<and> ready_revision s scope b \<noteq> None)" for k
  proof
    assume "k \<in> eb_bot ` set (list_eligible scope s)"
    then obtain j b where b: "(j, b) \<in> set (bs_bots s)" "ready_revision s scope b \<noteq> None" "k = ob_bot b"
      by (auto simp: list_eligible_def eligible_of_def)
    have "map_of (bs_bots s) j = Some b" using b(1) ok(1) by simp
    with ok(2) b show "\<exists>b. map_of (bs_bots s) k = Some b \<and> ready_revision s scope b \<noteq> None" by auto
  next
    assume "\<exists>b. map_of (bs_bots s) k = Some b \<and> ready_revision s scope b \<noteq> None"
    then obtain b where b: "(k, b) \<in> set (bs_bots s)" "ready_revision s scope b \<noteq> None" "ob_bot b = k"
      using ok(2) by (auto dest: map_of_SomeD)
    then show "k \<in> eb_bot ` set (list_eligible scope s)"
      by (intro image_eqI [of _ _ "eligible_of b"]) (force simp: list_eligible_def eligible_of_def)+
  qed
  then show "eb_bot ` set (list_eligible scope s) =
      {k. \<exists>b. map_of (bs_bots s) k = Some b \<and> ready_revision s scope b \<noteq> None}" by blast
  show "map_of (bs_bots s) k = Some b \<Longrightarrow> ready_revision s scope b \<noteq> None \<Longrightarrow>
      eligible_of b \<in> set (list_eligible scope s)"
    by (force simp: list_eligible_def dest: map_of_SomeD)
qed

lemma ready_revision_Some:
  assumes "bot_store_ok quota s" "map_of (bs_bots s) k = Some b" "ready_revision s scope b = Some revn"
  shows "map_of (bs_revisions s) (ob_revision b) = Some revn \<and> br_validation revn = ValidationReady \<and>
    br_bot revn = k \<and> ob_bot b = k"
  using bot_store_okD(2,3) [OF assms(1,2)] assms(3)
  by (auto simp: ready_revision_def split: if_splits option.splits)

lemma resolved_bots:
  assumes "(bot_step to_lower quota)\<^sup>*\<^sup>* new_bot_store s"
  shows "case resolve_eligible scope ids s of
      Inl e \<Rightarrow> \<not> trim_space ` set ids \<subseteq> eb_bot ` set (list_eligible scope s)
    | Inr items \<Rightarrow> trim_space ` set ids \<subseteq> eb_bot ` set (list_eligible scope s) \<and>
        map (\<lambda>r. eb_bot (rb_eligible r)) items = map trim_space ids \<and>
        (\<forall>r \<in> set items. rb_eligible r \<in> set (list_eligible scope s) \<and>
           (\<exists>revn. map_of (bs_revisions s) (eb_revision (rb_eligible r)) = Some revn \<and>
              br_validation revn = ValidationReady \<and> br_bot revn = eb_bot (rb_eligible r) \<and>
              rb_artifact r = br_artifact revn))"
proof -
  have ok: "bot_store_ok quota s" using bot_steps_inv [OF assms bot_store_ok_new] .
  note el = eligible_bots [OF ok, where scope = scope]
  show ?thesis
  proof (induction ids)
    case (Cons i ids)
    show ?case
    proof (cases "\<exists>b revn. map_of (bs_bots s) (trim_space i) = Some b \<and> ready_revision s scope b = Some revn")
      case False
      then have "resolve_eligible scope (i # ids) s = Inl NotEligible" by (auto split: option.split)
      moreover have "trim_space i \<notin> eb_bot ` set (list_eligible scope s)" using False unfolding el(1) by auto
      ultimately show ?thesis by simp
    next
      case True
      then obtain b revn where b: "map_of (bs_bots s) (trim_space i) = Some b" "ready_revision s scope b = Some revn" by blast
      let ?r = "\<lparr>rb_eligible = eligible_of b, rb_artifact = br_artifact revn\<rparr>"
      have r: "rb_eligible ?r \<in> set (list_eligible scope s)" using el(2) [OF b(1)] b(2) by simp
      have revn: "map_of (bs_revisions s) (eb_revision (rb_eligible ?r)) = Some revn" "br_validation revn = ValidationReady"
        "br_bot revn = eb_bot (rb_eligible ?r)" "eb_bot (rb_eligible ?r) = trim_space i"
        using ready_revision_Some [OF ok b] by (simp_all add: eligible_of_def)
      have i: "trim_space i \<in> eb_bot ` set (list_eligible scope s)" using r revn(4) by force
      show ?thesis
      proof (cases "resolve_eligible scope ids s")
        case (Inl e)
        then show ?thesis using Cons.IH b by simp
      next
        case (Inr items)
        have e: "resolve_eligible scope (i # ids) s = Inr (?r # items)" using Inr b by simp
        show ?thesis unfolding e using Cons.IH Inr i r revn by auto
      qed
    qed
  qed simp
qed

text \<open>
  What can be selected is what resolves: in a reachable store, resolving a list of bot ids
  succeeds exactly when every one of them is an id of the eligible list of the scope, and then
  gives, in order, these eligible bots, each with the artifact of its active revision, which is
  ready.
\<close>

theorem eligible_bots_resolve:
  assumes "(bot_step to_lower quota)\<^sup>*\<^sup>* new_bot_store s"
  shows "case resolve_eligible scope ids s of
      Inl e \<Rightarrow> \<not> trim_space ` set ids \<subseteq> eb_bot ` set (list_eligible scope s)
    | Inr items \<Rightarrow> trim_space ` set ids \<subseteq> eb_bot ` set (list_eligible scope s) \<and>
        map (\<lambda>r. eb_bot (rb_eligible r)) items = map trim_space ids \<and>
        (\<forall>r \<in> set items. rb_eligible r \<in> set (list_eligible scope s) \<and>
           (\<exists>revn. map_of (bs_revisions s) (eb_revision (rb_eligible r)) = Some revn \<and>
              br_validation revn = ValidationReady \<and> br_bot revn = eb_bot (rb_eligible r) \<and>
              rb_artifact r = br_artifact revn))"
  by (rule resolved_bots [OF assms])

section \<open>A concrete store\<close>

definition sample_bot_request :: "string \<Rightarrow> revision_request" where
  "sample_bot_request name = \<lparr>vr_scope = \<lparr>cs_scope = ''janken-v2-regular'', cs_game = ''janken'', cs_major = 2,
       cs_ruleset = ''regular'', cs_max = 1\<rparr>, vr_owner = ''alice'', vr_bot = [], vr_name = name,
     vr_artifact = ''sha'', vr_validation = OtherValidation []\<rparr>"

definition sample_bots :: bot_store where
  "sample_bots = snd (create_or_revise (\<lambda>s. s) ''1'' ''1'' 0 (sample_bot_request ''rock'') new_bot_store)"

lemma sample_bots_reach: "(bot_step (\<lambda>s. s) (\<lambda>_. 1))\<^sup>*\<^sup>* new_bot_store sample_bots"
  unfolding sample_bots_def
  by (rule r_into_rtranclp, rule step_revise) (simp_all add: sample_bot_request_def new_bot_store_def)

lemma sample_bots_values:
  "map ob_bot (active_of sample_bots ''alice'' ''janken-v2-regular'') = [''bot-1'']"
  "map_option br_artifact (map_of (bs_revisions sample_bots) ''ai-1'') = Some ''sha''"
  "map_option ob_bot (map_of (bs_bots sample_bots) ''bot-1'') = Some ''bot-1''"
  "\<not> isl (resolve_eligible ''janken-v2-regular'' ['' bot-1''] sample_bots)"
  by code_simp+

theorem bot_quota_and_names_witness:
  "length (active_of sample_bots ''alice'' ''janken-v2-regular'') = 1 \<and>
   distinct (map ob_normalized (active_of sample_bots ''alice'' ''janken-v2-regular''))"
proof -
  have "length (active_of sample_bots ''alice'' ''janken-v2-regular'') = 1"
    using arg_cong [OF sample_bots_values(1), of length] by simp
  with bot_quota_and_names [OF sample_bots_reach, of "''alice''" "''janken-v2-regular''"] show ?thesis by blast
qed

theorem bot_history_immutable_witness:
  "\<exists>revn. map_of (bs_revisions (snd (retire ''alice'' ''bot-1'' sample_bots))) ''ai-1'' = Some revn \<and> br_artifact revn = ''sha''"
proof -
  obtain revn where r: "map_of (bs_revisions sample_bots) ''ai-1'' = Some revn" "br_artifact revn = ''sha''"
    using sample_bots_values(2) by (cases "map_of (bs_revisions sample_bots) ''ai-1''") simp_all
  have step: "(bot_step (\<lambda>s. s) (\<lambda>_. 1))\<^sup>*\<^sup>* sample_bots (snd (retire ''alice'' ''bot-1'' sample_bots))"
    by (rule r_into_rtranclp, rule step_retire)
  have "map_of (bs_revisions (snd (retire ''alice'' ''bot-1'' sample_bots))) ''ai-1'' = Some revn"
    using bot_history_immutable [OF sample_bots_reach step] r(1) by blast
  with r(2) show ?thesis by blast
qed

theorem eligible_bots_resolve_witness:
  "\<exists>r. resolve_eligible ''janken-v2-regular'' ['' bot-1''] sample_bots = Inr [r] \<and> eb_bot (rb_eligible r) = ''bot-1''"
proof -
  obtain items where i: "resolve_eligible ''janken-v2-regular'' ['' bot-1''] sample_bots = Inr items"
    using sample_bots_values(4) by (cases "resolve_eligible ''janken-v2-regular'' ['' bot-1''] sample_bots") auto
  have t: "trim_space '' bot-1'' = ''bot-1''" by code_simp
  have "map (\<lambda>r. eb_bot (rb_eligible r)) items = [''bot-1'']"
    using eligible_bots_resolve [OF sample_bots_reach, where scope = "''janken-v2-regular''" and ids = "['' bot-1'']"] i t by simp
  with i show ?thesis by auto
qed

end
