(* ===== verification/Wasm.thy ===== *)
theory Wasm
  imports Prelude
begin

text \<open>
  The import policy for WebAssembly modules of \<open>artifactbundle/bundle.go\<close>: from
  \<open>validateWASMImports\<close> down to \<open>readWASMU32\<close>. Offsets are Go \<open>int\<close>s that never exceed the
  length of the data by more than a constant, so they are natural numbers; the 32-bit values
  read from the module are words.
\<close>

unbundle bit_operations_syntax

datatype wasm_error =
  TruncatedInteger | IntegerOverflow | InvalidName | TruncatedTableType | TruncatedGlobalType
| UnknownImportKind | InvalidImports | UnsupportedImportModule string | InvalidSection

type_synonym u32 = "32 word"

abbreviation byte_at :: "string \<Rightarrow> nat \<Rightarrow> 8 word" where
  "byte_at data i \<equiv> word_of_nat (of_char (data ! i))"

section \<open>Reading\<close>

text \<open>\<open>i\<close> counts the bytes that have been read; the sixth is never read.\<close>

function read_u32_from :: "string \<Rightarrow> nat \<Rightarrow> nat \<Rightarrow> u32 \<Rightarrow> wasm_error + (u32 \<times> nat)" where
  "read_u32_from data i offset acc =
     (if 5 \<le> i then Inl IntegerOverflow
      else if length data \<le> offset then Inl TruncatedInteger
      else
        let part = byte_at data offset in
        if i = 4 \<and> (part AND 0x80 \<noteq> 0 \<or> part > 1) then Inl IntegerOverflow
        else
          let acc1 = acc OR push_bit (7 * i) (ucast (part AND 0x7F)) in
          if part AND 0x80 = 0 then Inr (acc1, Suc offset)
          else read_u32_from data (Suc i) (Suc offset) acc1)"
  by pat_completeness auto
termination by (relation "measure (\<lambda>(data, i, offset, acc). 5 - i)") auto

declare read_u32_from.simps [simp del]

definition read_u32 :: "string \<Rightarrow> nat \<Rightarrow> wasm_error + (u32 \<times> nat)" where
  "read_u32 data offset = read_u32_from data 0 offset 0"

definition read_name :: "string \<Rightarrow> nat \<Rightarrow> wasm_error + (string \<times> nat)" where
  "read_name data offset =
     (case read_u32 data offset of
        Inl e \<Rightarrow> Inl InvalidName
      | Inr (len, offset1) \<Rightarrow>
          if length data < offset1 \<or> length data - offset1 < unat len then Inl InvalidName
          else Inr (take (unat len) (drop offset1 data), offset1 + unat len))"

definition skip_limits :: "string \<Rightarrow> nat \<Rightarrow> wasm_error + nat" where
  "skip_limits data offset =
     bindR (read_u32 data offset) (\<lambda>(flags, offset1).
     bindR (read_u32 data offset1) (\<lambda>(_, offset2).
       if flags AND 1 \<noteq> 0 then bindR (read_u32 data offset2) (\<lambda>(_, offset3). Inr offset3)
       else Inr offset2))"

definition skip_table_type :: "string \<Rightarrow> nat \<Rightarrow> wasm_error + nat" where
  "skip_table_type data offset =
     (if length data \<le> offset then Inl TruncatedTableType else skip_limits data (Suc offset))"

text \<open>What follows the kind of an import.\<close>

definition skip_description :: "string \<Rightarrow> 8 word \<Rightarrow> nat \<Rightarrow> wasm_error + nat" where
  "skip_description data kind offset =
     (if kind = 0 then bindR (read_u32 data offset) (\<lambda>(_, offset1). Inr offset1)
      else if kind = 1 then skip_table_type data offset
      else if kind = 2 then skip_limits data offset
      else if kind = 3 then
        (if length data < offset + 2 then Inl TruncatedGlobalType else Inr (offset + 2))
      else Inl UnknownImportKind)"

text \<open>One round of the loop over the imports; every inner error becomes the same one.\<close>

definition validate_import :: "string \<Rightarrow> nat \<Rightarrow> wasm_error + nat" where
  "validate_import data offset =
     (case read_name data offset of
        Inl _ \<Rightarrow> Inl InvalidImports
      | Inr (module, offset1) \<Rightarrow>
          (case read_name data offset1 of
             Inl _ \<Rightarrow> Inl InvalidImports
           | Inr (_, offset2) \<Rightarrow>
               if module \<noteq> ''wasi_snapshot_preview1'' then Inl (UnsupportedImportModule module)
               else if length data \<le> offset2 then Inl InvalidImports
               else
                 (case skip_description data (byte_at data offset2) (Suc offset2) of
                    Inl _ \<Rightarrow> Inl InvalidImports
                  | Inr offset3 \<Rightarrow> Inr offset3)))"

fun validate_import_list :: "string \<Rightarrow> nat \<Rightarrow> nat \<Rightarrow> wasm_error + nat" where
  "validate_import_list data 0 offset = Inr offset"
| "validate_import_list data (Suc n) offset =
     bindR (validate_import data offset) (validate_import_list data n)"

definition validate_import_section :: "string \<Rightarrow> wasm_error option" where
  "validate_import_section section =
     (case read_u32 section 0 of
        Inl _ \<Rightarrow> Some InvalidImports
      | Inr (number, offset) \<Rightarrow>
          (case validate_import_list section (unat number) offset of
             Inl e \<Rightarrow> Some e
           | Inr offset1 \<Rightarrow> if offset1 \<noteq> length section then Some InvalidImports else None))"

lemma read_u32_from_Inr:
  "read_u32_from data i offset acc = Inr r \<longleftrightarrow>
     i < 5 \<and> offset < length data \<and>
     \<not> (i = 4 \<and> (byte_at data offset AND 0x80 \<noteq> 0 \<or> byte_at data offset > 1)) \<and>
     (if byte_at data offset AND 0x80 = 0
      then r = (acc OR push_bit (7 * i) (ucast (byte_at data offset AND 0x7F)), Suc offset)
      else read_u32_from data (Suc i) (Suc offset)
             (acc OR push_bit (7 * i) (ucast (byte_at data offset AND 0x7F))) = Inr r)"
  by (subst read_u32_from.simps) (auto simp: Let_def)

lemma read_u32_from_advances:
  "read_u32_from data i offset acc = Inr r \<Longrightarrow> offset < snd r \<and> snd r \<le> length data"
proof (induction "5 - i" arbitrary: i offset acc)
  case 0
  then show ?case by (simp add: read_u32_from_Inr)
next
  case (Suc k)
  then show ?case by (subst (asm) (2) read_u32_from_Inr) (force split: if_splits)
qed

lemma read_u32_advances: "read_u32 data offset = Inr (v, next) \<Longrightarrow> offset < next \<and> next \<le> length data"
  unfolding read_u32_def using read_u32_from_advances by fastforce

text \<open>The loop over the sections stops at the first import section.\<close>

function validate_sections :: "string \<Rightarrow> nat \<Rightarrow> wasm_error option" where
  "validate_sections module offset =
     (if length module \<le> offset then None
      else
        let section_id = byte_at module offset in
        case read_u32 module (Suc offset) of
          Inl _ \<Rightarrow> Some InvalidSection
        | Inr (len, next) \<Rightarrow>
            if length module < next \<or> length module - next < unat len then Some InvalidSection
            else if section_id = 2 then validate_import_section (take (unat len) (drop next module))
            else if section_id \<noteq> 0 \<and> section_id > 12 then Some InvalidSection
            else validate_sections module (next + unat len))"
  by pat_completeness auto
termination
proof (relation "measure (\<lambda>(module, offset). length module - offset)", goal_cases)
  case (2 module offset section_id r len nx)
  then show ?case using read_u32_advances [of module "Suc offset" len nx] by auto
qed simp

declare validate_sections.simps [simp del]

definition validate_wasm_imports :: "string \<Rightarrow> wasm_error option" where
  "validate_wasm_imports module = validate_sections module 8"

end
