(* ===== verification/Bundle.thy ===== *)
theory Bundle
  imports Wasm Json Paths Sha256
begin

text \<open>
  Artifact bundles: \<open>artifactbundle/bundle.go\<close> and the local store of
  \<open>internal/platform/service/artifact_bundle_store.go\<close>. Opening a ZIP archive, parsing the text
  of a JSON value, \<open>strings.ToLower\<close> and the compiler of the WebAssembly runtime are parameters.
\<close>

section \<open>Manifests\<close>

definition max_bundle_bytes :: nat where "max_bundle_bytes = 64 * 2 ^ 20"
definition max_manifest_bytes :: nat where "max_manifest_bytes = 2 ^ 20"
definition max_module_bytes :: nat where "max_module_bytes = 32 * 2 ^ 20"
definition max_compression_ratio :: nat where "max_compression_ratio = 100"

record ruleset_limits =
  rl_ruleset :: string
  rl_players :: int
  rl_bots :: int

record bundle_runtime =
  bt_kind :: string
  bt_module :: string
  bt_args :: "string list"
  bt_pages :: int
  bt_timeout :: int

record manifest =
  mf_schema :: string
  mf_kind :: string
  mf_ai :: string
  mf_game :: string
  mf_version :: string
  mf_rulesets :: "ruleset_limits list"
  mf_runtime :: bundle_runtime

record artifact_bundle =
  bd_manifest :: manifest
  bd_digest :: string
  bd_bytes :: string

text \<open>A pointer: \<open>null\<close> clears it.\<close>

definition dec_pointer :: "'a decoder \<Rightarrow> 'a \<Rightarrow> 'a option decoder" where
  "dec_pointer dec zero j s = (if j = JNull then Some None else map_option Some (dec j zero))"

definition zero_limits :: ruleset_limits where
  "zero_limits = \<lparr>rl_ruleset = [], rl_players = 0, rl_bots = 0\<rparr>"

definition zero_manifest :: manifest where
  "zero_manifest = \<lparr>mf_schema = [], mf_kind = [], mf_ai = [], mf_game = [], mf_version = [], mf_rulesets = [],
     mf_runtime = \<lparr>bt_kind = [], bt_module = [], bt_args = [], bt_pages = 0, bt_timeout = 0\<rparr>\<rparr>"

definition dec_limits :: "ruleset_limits decoder" where
  "dec_limits = dec_struct_strict
     [(''ruleset_version'', dec_field rl_ruleset (\<lambda>x s. s\<lparr>rl_ruleset := x\<rparr>) dec_str),
      (''player_count'', dec_field rl_players (\<lambda>x s. s\<lparr>rl_players := x\<rparr>) dec_int),
      (''max_active_bots_per_owner'', dec_field rl_bots (\<lambda>x s. s\<lparr>rl_bots := x\<rparr>) dec_int)]"

definition dec_runtime :: "bundle_runtime decoder" where
  "dec_runtime = dec_struct_strict
     [(''kind'', dec_field bt_kind (\<lambda>x s. s\<lparr>bt_kind := x\<rparr>) dec_str),
      (''module'', dec_field bt_module (\<lambda>x s. s\<lparr>bt_module := x\<rparr>) dec_str),
      (''args'', dec_field bt_args (\<lambda>x s. s\<lparr>bt_args := x\<rparr>) (dec_list dec_str [])),
      (''memory_limit_pages'', dec_field bt_pages (\<lambda>x s. s\<lparr>bt_pages := x\<rparr>) dec_uint32),
      (''timeout_ms'', dec_field bt_timeout (\<lambda>x s. s\<lparr>bt_timeout := x\<rparr>) dec_uint32)]"

definition dec_manifest :: "manifest decoder" where
  "dec_manifest = dec_struct_strict
     [(''schema_version'', dec_field mf_schema (\<lambda>x s. s\<lparr>mf_schema := x\<rparr>) dec_str),
      (''artifact_kind'', dec_field mf_kind (\<lambda>x s. s\<lparr>mf_kind := x\<rparr>) dec_str),
      (''ai_id'', dec_field mf_ai (\<lambda>x s. s\<lparr>mf_ai := x\<rparr>) dec_str),
      (''game_id'', dec_field mf_game (\<lambda>x s. s\<lparr>mf_game := x\<rparr>) dec_str),
      (''game_version'', dec_field mf_version (\<lambda>x s. s\<lparr>mf_version := x\<rparr>) dec_str),
      (''rulesets'', dec_field mf_rulesets (\<lambda>x s. s\<lparr>mf_rulesets := x\<rparr>) (dec_list dec_limits zero_limits)),
      (''runtime'', dec_field mf_runtime (\<lambda>x s. s\<lparr>mf_runtime := x\<rparr>) dec_runtime)]"

text \<open>The numeric fields once more, to tell a zero from an absent member.\<close>

record numeric_fields =
  nf_rulesets :: "(int option \<times> int option) list"
  nf_runtime :: "int option \<times> int option"

definition dec_pair :: "string \<Rightarrow> string \<Rightarrow> int decoder \<Rightarrow> (int option \<times> int option) decoder" where
  "dec_pair a b dec = dec_struct
     [(a, dec_field fst (\<lambda>x s. (x, snd s)) (dec_pointer dec 0)), (b, dec_field snd (\<lambda>x s. (fst s, x)) (dec_pointer dec 0))]"

definition dec_numeric :: "numeric_fields decoder" where
  "dec_numeric = dec_struct
     [(''rulesets'', dec_field nf_rulesets (\<lambda>x s. s\<lparr>nf_rulesets := x\<rparr>)
         (dec_list (dec_pair ''player_count'' ''max_active_bots_per_owner'' dec_int) (None, None))),
      (''runtime'', dec_field nf_runtime (\<lambda>x s. s\<lparr>nf_runtime := x\<rparr>)
         (dec_pair ''memory_limit_pages'' ''timeout_ms'' dec_uint32))]"

datatype bundle_error =
  EmptyBundle | BundleTooBig | ZipUnreadable | NotTwoEntries | UnsafeEntry string | DuplicateEntry string
| FoldedDuplicate string | EntryTooBig string | ManifestMissing | ManifestUnreadable | ManifestUnparsable
| ManifestUnsupported | AIIDMissing | BudgetTooBig | NumericUnparsable | BudgetNotPositive | RulesetInvalid
| LimitNotPositive | ModuleMissing | ModuleUnreadable | NotWasm | NotCompiling | ImportsRefused wasm_error

definition validate_manifest :: "manifest \<Rightarrow> raw \<Rightarrow> bundle_error option" where
  "validate_manifest m text =
     (let r = mf_runtime m in
      if mf_schema m \<noteq> ''arena-bundle/v1'' \<or> (mf_kind m \<noteq> ''game'' \<and> mf_kind m \<noteq> ''ai'') \<or> mf_game m = [] \<or>
         mf_version m = [] \<or> bt_kind r \<noteq> ''wasm-wasi'' \<or> bt_module r = [] \<or> bt_module r \<noteq> base (bt_module r) \<or>
         CHR 0x5C \<in> set (bt_module r) then Some ManifestUnsupported
      else if mf_kind m = ''ai'' \<and> blank (mf_ai m) then Some AIIDMissing
      else if bt_pages r > 1024 \<or> bt_timeout r > 600000 then Some BudgetTooBig
      else
        (case unmarshal dec_numeric text \<lparr>nf_rulesets = [], nf_runtime = (None, None)\<rparr> of
           None \<Rightarrow> Some NumericUnparsable
         | Some n \<Rightarrow>
             if fst (nf_runtime n) = Some 0 \<or> snd (nf_runtime n) = Some 0 then Some BudgetNotPositive
             else if list_ex (\<lambda>rs. rl_ruleset rs = [] \<or> rl_players rs < 0 \<or> rl_bots rs < 0) (mf_rulesets m)
             then Some RulesetInvalid
             else if list_ex (\<lambda>(p, b). p = Some 0 \<or> b = Some 0) (nf_rulesets n) then Some LimitNotPositive
             else None))"

section \<open>Archives\<close>

text \<open>
  An entry of an archive, with the fields of \<open>zip.FileHeader\<close> that matter; reading it may fail.
\<close>

record zip_file =
  zf_name :: string
  zf_creator :: "16 word"
  zf_attrs :: "32 word"
  zf_compressed :: "64 word"
  zf_uncompressed :: "64 word"
  zf_data :: "string option"

unbundle bit_operations_syntax

text \<open>\<open>FileHeader.Mode\<close> of \<open>archive/zip\<close>: Unix and MS-DOS attributes as an \<open>fs.FileMode\<close>.\<close>

definition unix_mode :: "32 word \<Rightarrow> 32 word" where
  "unix_mode m =
     (m AND 0x1FF) OR
     (let t = m AND 0xF000 in
      if t = 0x6000 then push_bit 26 1
      else if t = 0x2000 then push_bit 26 1 OR push_bit 21 1
      else if t = 0x4000 then push_bit 31 1
      else if t = 0x1000 then push_bit 25 1
      else if t = 0xA000 then push_bit 27 1
      else if t = 0xC000 then push_bit 24 1
      else 0) OR
     (if m AND 0x400 \<noteq> 0 then push_bit 22 1 else 0) OR
     (if m AND 0x800 \<noteq> 0 then push_bit 23 1 else 0) OR
     (if m AND 0x200 \<noteq> 0 then push_bit 20 1 else 0)"

definition msdos_mode :: "32 word \<Rightarrow> 32 word" where
  "msdos_mode m =
     (let mode = (if m AND 0x10 \<noteq> 0 then push_bit 31 1 OR 0x1FF else 0x1B6)
      in if m AND 1 \<noteq> 0 then mode AND NOT 0x92 else mode)"

definition file_mode :: "zip_file \<Rightarrow> 32 word" where
  "file_mode f =
     (let creator = drop_bit 8 (zf_creator f);
          mode = (if creator = 3 \<or> creator = 19 then unix_mode (drop_bit 16 (zf_attrs f))
                  else if creator = 0 \<or> creator = 11 \<or> creator = 14 then msdos_mode (zf_attrs f)
                  else 0)
      in if zf_name f \<noteq> [] \<and> last (zf_name f) = CHR ''/'' then mode OR push_bit 31 1 else mode)"

definition is_dir :: "zip_file \<Rightarrow> bool" where
  "is_dir f = (file_mode f AND push_bit 31 1 \<noteq> 0)"

definition unsafe_entry :: "zip_file \<Rightarrow> bool" where
  "unsafe_entry f =
     (is_dir f \<or> file_mode f AND 0xF000 \<noteq> 0 \<or> zf_name f \<noteq> base (zf_name f) \<or> CHR 0x5C \<in> set (zf_name f))"

record bundle_env =
  bn_zip :: "string \<Rightarrow> zip_file list option"
  bn_first :: "string \<Rightarrow> raw"   \<comment> \<open>the first value of a JSON stream\<close>
  bn_whole :: "string \<Rightarrow> raw"   \<comment> \<open>the value of a JSON text\<close>
  bn_lower :: "string \<Rightarrow> string"
  bn_compiles :: "string \<Rightarrow> bool"

definition check_entry :: "bundle_env \<Rightarrow> zip_file \<Rightarrow> zip_file gomap \<times> string list \<Rightarrow>
    bundle_error + (zip_file gomap \<times> string list)" where
  "check_entry env f = (\<lambda>(entries, folded).
     if unsafe_entry f then Inl (UnsafeEntry (zf_name f))
     else if map_of entries (zf_name f) \<noteq> None then Inl (DuplicateEntry (zf_name f))
     else if bn_lower env (zf_name f) \<in> set folded then Inl (FoldedDuplicate (zf_name f))
     else if zf_uncompressed f > of_nat max_module_bytes \<or>
             (zf_compressed f > 0 \<and> zf_uncompressed f > zf_compressed f * of_nat max_compression_ratio)
     then Inl (EntryTooBig (zf_name f))
     else Inr (put (zf_name f) f entries, bn_lower env (zf_name f) # folded))"

definition read_entry :: "zip_file \<Rightarrow> nat \<Rightarrow> string option" where
  "read_entry f limit =
     (case zf_data f of None \<Rightarrow> None | Some bytes \<Rightarrow> if length bytes > limit then None else Some bytes)"

definition validate_wasm :: "bundle_env \<Rightarrow> string \<Rightarrow> bundle_error option" where
  "validate_wasm env bytes =
     (if \<not> bn_compiles env bytes then Some NotCompiling
      else map_option ImportsRefused (validate_wasm_imports bytes))"

definition hex_digit :: "nat \<Rightarrow> char" where
  "hex_digit n = char_of (if n < 10 then 48 + n else 87 + n)"

definition hex :: "string \<Rightarrow> string" where
  "hex s = concat (map (\<lambda>c. [hex_digit (of_char c div 16), hex_digit (of_char c mod 16)]) s)"

definition bundle_digest :: "string \<Rightarrow> string" where
  "bundle_digest data = ''sha256:'' @ hex (sum256 data)"

definition wasm_header :: string where
  "wasm_header = [CHR 0x00, CHR 0x61, CHR 0x73, CHR 0x6D, CHR 0x01, CHR 0x00, CHR 0x00, CHR 0x00]"

definition read_module :: "bundle_env \<Rightarrow> string \<Rightarrow> manifest \<Rightarrow> zip_file gomap \<Rightarrow> bundle_error + artifact_bundle" where
  "read_module env data m entries =
     (case map_of entries (bt_module (mf_runtime m)) of
        None \<Rightarrow> Inl ModuleMissing
      | Some f \<Rightarrow>
          if zf_name f = ''manifest.json'' then Inl ModuleMissing
          else case read_entry f max_module_bytes of
            None \<Rightarrow> Inl ModuleUnreadable
          | Some bytes \<Rightarrow>
              if take 8 bytes \<noteq> wasm_header then Inl NotWasm
              else (case validate_wasm env bytes of
                  Some e \<Rightarrow> Inl e
                | None \<Rightarrow> Inr \<lparr>bd_manifest = m, bd_digest = bundle_digest data, bd_bytes = data\<rparr>))"

definition read_bundle :: "bundle_env \<Rightarrow> string \<Rightarrow> bundle_error + artifact_bundle" where
  "read_bundle env data =
     (if data = [] then Inl EmptyBundle
      else if length data > max_bundle_bytes then Inl BundleTooBig
      else case bn_zip env data of
        None \<Rightarrow> Inl ZipUnreadable
      | Some files \<Rightarrow>
          if length files \<noteq> 2 then Inl NotTwoEntries
          else bindR (foldR (check_entry env) files ([], [])) (\<lambda>(entries, folded).
            case map_of entries ''manifest.json'' of
              None \<Rightarrow> Inl ManifestMissing
            | Some f \<Rightarrow>
                (case read_entry f max_manifest_bytes of
                   None \<Rightarrow> Inl ManifestUnreadable
                 | Some bytes \<Rightarrow>
                     (case unmarshal dec_manifest (bn_first env bytes) zero_manifest of
                        None \<Rightarrow> Inl ManifestUnparsable
                      | Some m \<Rightarrow>
                          (case validate_manifest m (bn_whole env bytes) of
                             Some e \<Rightarrow> Inl e
                           | None \<Rightarrow> read_module env data m entries)))))"

definition module_bytes :: "bundle_env \<Rightarrow> string \<Rightarrow> string \<Rightarrow> string option" where
  "module_bytes env data name =
     (case bn_zip env data of
        None \<Rightarrow> None
      | Some files \<Rightarrow>
          (case find (\<lambda>f. zf_name f = name) files of
             None \<Rightarrow> None
           | Some f \<Rightarrow> read_entry f max_module_bytes))"

section \<open>The local store\<close>

text \<open>
  Files by their paths. Failures of the file system are left out but for two: reading a missing file
  and writing to one of the names \<open>.\<close> and \<open>..\<close>, which are directories.
\<close>

datatype store_error = InvalidDigest string | DigestCollision | FileMissing | BadBundle bundle_error
| DigestMismatch | ModuleLost | IsDirectory

definition path_for :: "string \<Rightarrow> string \<Rightarrow> store_error + string" where
  "path_for root digest =
     (if \<not> prefix ''sha256:'' digest \<or> length digest \<noteq> 7 + 64 then Inl (InvalidDigest digest)
      else Inr (join [root, ''sha256'', drop 7 digest @ ''.zip'']))"

definition put_bundle :: "string \<Rightarrow> artifact_bundle \<Rightarrow> (string \<Rightarrow> string option) \<Rightarrow> store_error option \<times> (string \<Rightarrow> string option)" where
  "put_bundle root b fs =
     (case path_for root (bd_digest b) of
        Inl e \<Rightarrow> (Some e, fs)
      | Inr path \<Rightarrow>
          (case fs path of
             Some existing \<Rightarrow> if existing \<noteq> bd_bytes b then (Some DigestCollision, fs) else (None, fs)
           | None \<Rightarrow> (None, fs(path \<mapsto> bd_bytes b))))"

definition read_stored :: "string \<Rightarrow> string \<Rightarrow> (string \<Rightarrow> string option) \<Rightarrow> store_error + string" where
  "read_stored root digest fs =
     bindR (path_for root digest) (\<lambda>path. case fs path of None \<Rightarrow> Inl FileMissing | Some data \<Rightarrow> Inr data)"

text \<open>
  \<open>Materialize\<close> reads the stored archive, checks it again and writes two files; \<open>encode\<close> is
  \<open>ManifestJSON\<close>.
\<close>

definition materialize :: "bundle_env \<Rightarrow> (manifest \<Rightarrow> string) \<Rightarrow> string \<Rightarrow> string \<Rightarrow> string \<Rightarrow> (string \<Rightarrow> string option) \<Rightarrow>
    (store_error + string) \<times> (string \<Rightarrow> string option)" where
  "materialize env encode root digest destination fs =
     (case read_stored root digest fs of
        Inl e \<Rightarrow> (Inl e, fs)
      | Inr data \<Rightarrow>
          (case read_bundle env data of
             Inl e \<Rightarrow> (Inl (BadBundle e), fs)
           | Inr b \<Rightarrow>
               if bd_digest b \<noteq> digest then (Inl DigestMismatch, fs)
               else
                 let name = bt_module (mf_runtime (bd_manifest b));
                     fs1 = fs(join [destination, ''manifest.json''] \<mapsto> encode (bd_manifest b))
                 in (case module_bytes env data name of
                       None \<Rightarrow> (Inl ModuleLost, fs1)
                     | Some bytes \<Rightarrow>
                         if name = ''.'' \<or> name = ''..'' then (Inl IsDirectory, fs1)
                         else (Inr (join [destination, name]), fs1(join [destination, name] \<mapsto> bytes)))))"

end
