(* ===== verification/Wasm_Spec.thy ===== *)
theory Wasm_Spec
  imports Wasm
begin

section \<open>Numbers\<close>

text \<open>The bytes of a LEB128 number: seven bits each, the least significant first.\<close>

fun leb_value :: "string \<Rightarrow> nat" where
  "leb_value [] = 0"
| "leb_value (c # cs) = of_char c mod 128 + 128 * leb_value cs"

text \<open>
  The codes the reader accepts when \<open>i\<close> bytes have gone before: all but the last byte have the
  high bit, and a fifth byte is at most one.
\<close>

definition code_after :: "nat \<Rightarrow> string \<Rightarrow> bool" where
  "code_after i bs \<longleftrightarrow> bs \<noteq> [] \<and> i + length bs \<le> 5 \<and>
     list_all (\<lambda>c. 128 \<le> (of_char c :: nat)) (butlast bs) \<and> (of_char (last bs) :: nat) < 128 \<and>
     (i + length bs = 5 \<longrightarrow> (of_char (last bs) :: nat) \<le> 1)"

abbreviation u32_code :: "string \<Rightarrow> bool" where
  "u32_code \<equiv> code_after 0"

lemma code_after_Cons:
  "code_after i (c # cs) \<longleftrightarrow>
     (if (of_char c :: nat) < 128 then cs = [] \<and> i < 5 \<and> (i = 4 \<longrightarrow> (of_char c :: nat) \<le> 1)
      else code_after (Suc i) cs)"
  by (cases cs) (auto simp: code_after_def)

lemma unat_byte [simp]: "unat (word_of_nat (of_char c) :: 8 word) = of_char c"
  by (simp add: unat_of_nat)

lemma bit_word_unat: "bit w n \<longleftrightarrow> odd (unat w div 2 ^ n)"
proof -
  have "bit (unat w) n \<longleftrightarrow> bit w n" by (simp add: bit_unsigned_iff)
  then show ?thesis by (simp add: bit_iff_odd)
qed

lemma high_bit: "(w AND 0x80 = 0) \<longleftrightarrow> unat (w :: 8 word) < 128"
proof -
  have "w AND 0x80 = 0 \<longleftrightarrow> \<not> bit w 7" using and_exp_eq_0_iff_not_bit [of w 7] by simp
  also have "bit w 7 \<longleftrightarrow> odd (unat w div 128)" using bit_word_unat [of w 7] by simp
  also have "\<not> odd (unat w div 128) \<longleftrightarrow> unat w < 128"
  proof -
    have "unat w < 256" using unsigned_less [of w, where ?'a = nat] by simp
    then have "unat w div 128 = 0 \<or> unat w div 128 = 1" by linarith
    then show ?thesis by (auto simp: div_eq_0_iff)
  qed
  finally show ?thesis .
qed

lemma low_bits: "unat (ucast (w AND 0x7F :: 8 word) :: u32) = unat w mod 128"
proof -
  have "w AND 0x7F = take_bit 7 w" using take_bit_eq_mask [of 7 w] by (simp add: mask_numeral)
  then have "unat (w AND 0x7F) = take_bit 7 (unat w)" by (simp only: unsigned_take_bit_eq)
  then have "unat (w AND 0x7F) = unat w mod 128" by (simp only: take_bit_eq_mod power_numeral) simp
  then show ?thesis by (simp add: unsigned_ucast_eq take_bit_eq_mod)
qed

lemma or_shifted:
  assumes "unat (acc :: u32) < 2 ^ k" "2 ^ k * unat w + unat acc < 2 ^ 32"
  shows "unat (acc OR push_bit k w) = unat acc + 2 ^ k * unat w"
proof -
  have "\<not> bit acc n \<or> \<not> bit (push_bit k w) n" for n
  proof (cases "n < k")
    case True
    then show ?thesis by (simp add: bit_push_bit_iff)
  next
    case False
    then have "unat acc < 2 ^ n" using assms(1) by (meson le_less_trans less_le_trans not_less one_le_numeral power_increasing)
    then have "\<not> bit acc n" using bit_word_unat [of acc n] by simp
    then show ?thesis by simp
  qed
  then have "acc OR push_bit k w = acc + push_bit k w" by (rule disjunctive_add [symmetric])
  moreover have "unat (push_bit k w) = 2 ^ k * unat w"
  proof -
    have "unat (push_bit k w) = take_bit LENGTH(32) (push_bit k (unat w))" by (rule unsigned_push_bit_eq)
    then show ?thesis using assms(2) by (simp add: take_bit_eq_mod push_bit_eq_mult mult.commute)
  qed
  ultimately show ?thesis using assms(2) by (simp add: unat_word_ariths)
qed

lemma code_prefix:
  "(\<exists>bs rest. c # xs = bs @ rest \<and> code_after i bs \<and> P bs) \<longleftrightarrow>
     (if (of_char c :: nat) < 128 then i < 5 \<and> (i = 4 \<longrightarrow> (of_char c :: nat) \<le> 1) \<and> P [c]
      else \<exists>bs rest. xs = bs @ rest \<and> code_after (Suc i) bs \<and> P (c # bs))" (is "?l = ?r")
proof
  assume ?l
  then obtain bs rest where bs: "c # xs = bs @ rest" "code_after i bs" "P bs" by blast
  then obtain cs where "bs = c # cs" "xs = cs @ rest" by (cases bs) (auto simp: code_after_def)
  with bs show ?r by (auto simp: code_after_Cons split: if_splits)
next
  assume ?r
  show ?l
  proof (cases "(of_char c :: nat) < 128")
    case True
    then show ?thesis using \<open>?r\<close> by (intro exI [of _ "[c]"] exI [of _ xs]) (simp add: code_after_Cons)
  next
    case False
    then obtain bs rest where "xs = bs @ rest" "code_after (Suc i) bs" "P (c # bs)" using \<open>?r\<close> by auto
    then show ?thesis using False by (intro exI [of _ "c # bs"] exI [of _ rest]) (simp add: code_after_Cons)
  qed
qed

lemma read_u32_from_iff:
  assumes "unat acc < 2 ^ (7 * i)"
  shows "read_u32_from data i offset acc = Inr (v, nx) \<longleftrightarrow>
    (\<exists>bs rest. drop offset data = bs @ rest \<and> code_after i bs \<and>
       unat v = unat acc + 2 ^ (7 * i) * leb_value bs \<and> nx = offset + length bs)"
  using assms
proof (induction "5 - i" arbitrary: i offset acc)
  case 0
  then have "\<not> code_after i bs" for bs by (cases bs) (auto simp: code_after_def)
  with 0 show ?case by (simp add: read_u32_from_Inr)
next
  case (Suc k)
  then have i: "i < 5" by simp
  show ?case
  proof (cases "offset < length data")
    case False
    then show ?thesis by (simp add: read_u32_from_Inr code_after_def)
  next
    case True
    define c where "c = data ! offset"
    have d: "drop offset data = c # drop (Suc offset) data" using True by (simp add: c_def Cons_nth_drop_Suc)
    let ?w = "ucast (byte_at data offset AND 0x7F) :: u32"
    have w: "unat ?w = of_char c mod 128" by (simp add: low_bits c_def)
    have high: "byte_at data offset AND 0x80 = 0 \<longleftrightarrow> (of_char c :: nat) < 128" by (simp add: high_bit c_def)
    have big: "byte_at data offset > 1 \<longleftrightarrow> (of_char c :: nat) > 1" by (simp add: word_less_nat_alt c_def)
    have acc: "unat (acc OR push_bit (7 * i) ?w) = unat acc + 2 ^ (7 * i) * (of_char c mod 128)"
      if "i = 4 \<longrightarrow> (of_char c :: nat) \<le> 1"
    proof (rule or_shifted [OF Suc.prems, of ?w, unfolded w])
      have "i = 0 \<or> i = 1 \<or> i = 2 \<or> i = 3 \<or> i = 4" using i by linarith
      moreover have "(of_char c mod 128 :: nat) \<le> 127" by simp
      ultimately show "2 ^ (7 * i) * (of_char c mod 128) + unat acc < 2 ^ 32"
        using Suc.prems that by (auto simp: mod_less)
    qed
    show ?thesis
    proof (cases "(of_char c :: nat) < 128")
      case True
      have "read_u32_from data i offset acc = Inr (v, nx) \<longleftrightarrow> (i = 4 \<longrightarrow> (of_char c :: nat) \<le> 1) \<and>
          v = acc OR push_bit (7 * i) ?w \<and> nx = Suc offset"
        unfolding read_u32_from_Inr [of data i] high big using True i \<open>offset < length data\<close> by auto
      then show ?thesis
        unfolding d code_prefix using True i acc by (auto simp: word_unat_eq_iff)
    next
      case False
      show ?thesis
      proof (cases "i = 4")
        case True
        then have "\<not> code_after (Suc i) bs" for bs by (cases bs) (auto simp: code_after_def)
        then show ?thesis
          unfolding d code_prefix read_u32_from_Inr [of data i] high using False True by simp
      next
        case i4: False
        let ?acc = "acc OR push_bit (7 * i) ?w"
        have a: "unat ?acc = unat acc + 2 ^ (7 * i) * (of_char c mod 128)" using acc i4 by simp
        have "(of_char c mod 128 :: nat) \<le> 127" by simp
        then have "2 ^ (7 * i) * (of_char c mod 128) \<le> 2 ^ (7 * i) * (127 :: nat)" by (rule mult_le_mono2)
        from add_less_le_mono [OF Suc.prems this] have "unat ?acc < 2 ^ (7 * Suc i)"
          unfolding a by (simp add: power_add)
        moreover have e: "unat ?acc + 2 ^ (7 * Suc i) * leb_value bs = unat acc + 2 ^ (7 * i) * leb_value (c # bs)" for bs
          unfolding a by (simp add: power_add algebra_simps)
        ultimately have "unat ?acc < 2 ^ (7 * Suc i)" by simp
        note IH = Suc.hyps(1) [of "Suc i" ?acc "Suc offset", OF _ this]
        have "read_u32_from data i offset acc = Inr (v, nx) \<longleftrightarrow> read_u32_from data (Suc i) (Suc offset) ?acc = Inr (v, nx)"
          using False i i4 \<open>offset < length data\<close> by (subst read_u32_from_Inr) (simp add: high)
        also have "\<dots> \<longleftrightarrow> (\<exists>bs rest. drop (Suc offset) data = bs @ rest \<and> code_after (Suc i) bs \<and>
            unat v = unat ?acc + 2 ^ (7 * Suc i) * leb_value bs \<and> nx = Suc offset + length bs)"
          using IH Suc.hyps(2) by simp
        finally show ?thesis
          unfolding d code_prefix e using False by simp
      qed
    qed
  qed
qed

lemma read_u32_iff:
  "read_u32 data offset = Inr (v, nx) \<longleftrightarrow>
    (\<exists>bs rest. drop offset data = bs @ rest \<and> u32_code bs \<and> unat v = leb_value bs \<and> nx = offset + length bs)"
  using read_u32_from_iff [of 0 0 data offset v nx] by (simp add: read_u32_def)

section \<open>The range of the reader\<close>

lemma code_range:
  "code_after i bs \<Longrightarrow> leb_value bs < 2 ^ (29 - 7 * i)"
proof (induction bs arbitrary: i)
  case Nil
  then show ?case by (simp add: code_after_def)
next
  case (Cons c cs)
  show ?case
  proof (cases "(of_char c :: nat) < 128")
    case True
    with Cons.prems have "cs = []" "i \<in> {0, 1, 2, 3, 4}" "i = 4 \<longrightarrow> (of_char c :: nat) \<le> 1"
      by (auto simp: code_after_Cons)
    with True show ?thesis by auto
  next
    case False
    with Cons.prems have c: "code_after (Suc i) cs" by (simp add: code_after_Cons)
    then have "cs \<noteq> []" "Suc i + length cs \<le> 5" by (simp_all add: code_after_def)
    then have "i \<in> {0, 1, 2, 3}" by (cases cs) auto
    moreover have "(of_char c mod 128 :: nat) < 128" by simp
    ultimately show ?thesis using Cons.IH [OF c] by auto
  qed
qed

text \<open>The canonical code of a number.\<close>

fun leb128 :: "nat \<Rightarrow> string" where
  "leb128 n = (if n < 128 then [char_of n] else char_of (n mod 128 + 128) # leb128 (n div 128))"

declare leb128.simps [simp del]

lemma leb128_value: "leb_value (leb128 n) = n"
proof (induction n rule: leb128.induct)
  case (1 n)
  have "(n mod 128 + 128) mod 256 = n mod 128 + 128" by simp
  with 1 show ?case by (cases "n < 128") (simp_all add: leb128.simps [of n])
qed

lemma leb128_code: "i \<le> 4 \<Longrightarrow> n < 2 ^ (29 - 7 * i) \<Longrightarrow> code_after i (leb128 n)"
proof (induction n arbitrary: i rule: leb128.induct)
  case (1 n)
  show ?case
  proof (cases "n < 128")
    case True
    then show ?thesis using "1.prems" by (auto simp: leb128.simps [of n] code_after_Cons)
  next
    case False
    then have "i \<in> {0, 1, 2, 3}" using "1.prems" by (cases "i = 4") auto
    then have "Suc i \<le> 4" "n div 128 < 2 ^ (29 - 7 * Suc i)" using "1.prems"(2) by (auto simp: less_mult_imp_div_less)
    from "1.IH" [OF False this] False show ?thesis by (simp add: leb128.simps [of n] code_after_Cons)
  qed
qed

lemma leb128_too_big:
  assumes "i \<le> 4" "2 ^ (29 - 7 * i) \<le> n" "n < 2 ^ (32 - 7 * i)" "drop offset data = leb128 n @ post"
  shows "read_u32_from data i offset acc = Inl IntegerOverflow"
  using assms
proof (induction "4 - i" arbitrary: i n offset acc)
  case 0
  then have i: "i = 4" and n: "2 \<le> n" "n < 16" by auto
  have d: "drop offset data = char_of n # post" using 0 n by (simp add: leb128.simps [of n])
  then have "offset < length data" by (metis drop_all list.discI not_less)
  moreover have "data ! offset = char_of n" using d calculation by (metis Cons_nth_drop_Suc list.inject)
  ultimately show ?case using n by (subst read_u32_from.simps) (simp add: i word_less_nat_alt Let_def unat_of_nat)
next
  case (Suc k)
  have i: "i \<in> {0, 1, 2, 3}" using Suc.hyps(2) by auto
  then have n: "128 \<le> n" using Suc.prems(2) by auto
  have d: "drop offset data = char_of (n mod 128 + 128) # leb128 (n div 128) @ post"
    using Suc.prems(4) n by (simp add: leb128.simps [of n])
  then have o: "offset < length data" by (metis drop_all list.discI not_less)
  then have b: "data ! offset = char_of (n mod 128 + 128)" and d1: "drop (Suc offset) data = leb128 (n div 128) @ post"
    using d by (metis Cons_nth_drop_Suc list.inject)+
  have "\<not> (of_char (data ! offset) :: nat) < 128" by (simp add: b)
  then have "byte_at data offset AND 0x80 \<noteq> 0" unfolding high_bit unat_byte .
  moreover have "read_u32_from data (Suc i) (Suc offset) acc1 = Inl IntegerOverflow" for acc1
    using i Suc.prems(2,3) Suc.hyps(2) by (intro Suc.hyps(1) [OF _ _ _ _ d1]) (auto simp: less_mult_imp_div_less)
  ultimately show ?case using i o by (subst read_u32_from.simps) (auto simp: Let_def)
qed

text \<open>
  The reader of 32-bit numbers reads exactly the numbers below 2^29: the canonical code of
  such a number is read back wherever it stands, with the offset behind it, and every larger
  32-bit number, although its code is valid, is refused as an overflow.
\<close>

theorem read_u32_roundtrip:
  assumes "v < 2 ^ 32"
  shows "read_u32 (pre @ leb128 v @ post) (length pre) =
    (if v < 2 ^ 29 then Inr (word_of_nat v, length pre + length (leb128 v)) else Inl IntegerOverflow)"
proof (cases "v < 2 ^ 29")
  case True
  then have "u32_code (leb128 v)" using leb128_code [of 0 v] by simp
  moreover have "unat (word_of_nat v :: u32) = v" using assms by (simp add: unat_of_nat)
  ultimately have "read_u32 (pre @ leb128 v @ post) (length pre) = Inr (word_of_nat v, length pre + length (leb128 v))"
    unfolding read_u32_iff by (intro exI [of _ "leb128 v"] exI [of _ post]) (simp add: leb128_value)
  with True show ?thesis by simp
next
  case False
  with assms show ?thesis using leb128_too_big [of 0 v "length pre" "pre @ leb128 v @ post" post 0] by (simp add: read_u32_def)
qed

theorem read_u32_roundtrip_witness:
  "read_u32 (leb128 0x1FFFFFFF) 0 = Inr (0x1FFFFFFF, 5) \<and> read_u32 (leb128 0x20000000) 0 = Inl IntegerOverflow"
proof -
  have "length (leb128 0x1FFFFFFF) = 5" by (simp add: leb128.simps)
  with read_u32_roundtrip [where v = "0x1FFFFFFF" and pre = "[]" and post = "[]"]
    read_u32_roundtrip [where v = "0x20000000" and pre = "[]" and post = "[]"] show ?thesis by simp
qed

end
