(* ===== verification/Wasm_Imports.thy ===== *)
theory Wasm_Imports
  imports Wasm_Spec
begin

text \<open>
  The import section of the WebAssembly binary format as a grammar on byte strings, and the
  validator as a decision procedure for it.
\<close>

section \<open>The grammar\<close>

definition u32_is :: "nat \<Rightarrow> string \<Rightarrow> bool" where
  "u32_is n bs \<longleftrightarrow> u32_code bs \<and> leb_value bs = n"

definition name_code :: "string \<Rightarrow> string \<Rightarrow> bool" where
  "name_code nm bs \<longleftrightarrow> (\<exists>ls. bs = ls @ nm \<and> u32_is (length nm) ls)"

text \<open>Limits: flags, a minimum and, when the lowest flag is set, a maximum.\<close>

definition limits_code :: "string \<Rightarrow> bool" where
  "limits_code bs \<longleftrightarrow> (\<exists>f m x. bs = f @ m @ x \<and> u32_code f \<and> u32_code m \<and>
     (if odd (leb_value f) then u32_code x else x = []))"

text \<open>Functions, tables, memories and globals.\<close>

definition description_code :: "string \<Rightarrow> bool" where
  "description_code bs \<longleftrightarrow> (\<exists>k d. bs = k # d \<and>
     ((of_char k :: nat) = 0 \<and> u32_code d \<or>
      (of_char k :: nat) = 1 \<and> (\<exists>t l. d = t # l \<and> limits_code l) \<or>
      (of_char k :: nat) = 2 \<and> limits_code d \<or>
      (of_char k :: nat) = 3 \<and> length d = 2))"

definition import_code :: "string \<Rightarrow> string \<Rightarrow> bool" where
  "import_code module bs \<longleftrightarrow> (\<exists>a b d nm. bs = a @ b @ d \<and> name_code module a \<and> name_code nm b \<and> description_code d)"

fun imports_code :: "string list \<Rightarrow> string \<Rightarrow> bool" where
  "imports_code [] bs = (bs = [])"
| "imports_code (m # ms) bs = (\<exists>a b. bs = a @ b \<and> import_code m a \<and> imports_code ms b)"

definition section_code :: "string list \<Rightarrow> string \<Rightarrow> bool" where
  "section_code ms bs \<longleftrightarrow> (\<exists>c es. bs = c @ es \<and> u32_is (length ms) c \<and> imports_code ms es)"

section \<open>Reading at an offset\<close>

text \<open>A code of \<open>P\<close> stands at \<open>off\<close> and ends at \<open>nx\<close>.\<close>

definition reads :: "(string \<Rightarrow> bool) \<Rightarrow> string \<Rightarrow> nat \<Rightarrow> nat \<Rightarrow> bool" where
  "reads P data off nx \<longleftrightarrow> (\<exists>bs rest. drop off data = bs @ rest \<and> P bs \<and> nx = off + length bs)"

lemma reads_seq:
  "(\<exists>m. reads P data off m \<and> reads Q data m nx) \<longleftrightarrow> reads (\<lambda>bs. \<exists>a b. bs = a @ b \<and> P a \<and> Q b) data off nx" (is "?l = ?r")
proof
  assume ?l
  then obtain a r b s where a: "drop off data = a @ r" "P a" and b: "drop (off + length a) data = b @ s" "Q b"
    and nx: "nx = off + length a + length b" by (auto simp: reads_def)
  have "r = drop (length a) (drop off data)" by (simp add: a)
  then have "r = b @ s" using b by (simp add: add.commute)
  with a b nx show ?r unfolding reads_def by (intro exI [of _ "a @ b"] exI [of _ s]) auto
next
  assume ?r
  then obtain a b s where ab: "drop off data = a @ b @ s" "P a" "Q b" "nx = off + length a + length b"
    by (auto simp: reads_def)
  have "drop (off + length a) data = drop (length a) (drop off data)" by (simp add: add.commute)
  then have "drop (off + length a) data = b @ s" by (simp add: ab)
  with ab show ?l unfolding reads_def by (intro exI [of _ "off + length a"]) blast
qed

lemma reads_ex: "(\<exists>x. reads (P x) data off nx) \<longleftrightarrow> reads (\<lambda>bs. \<exists>x. P x bs) data off nx"
  by (auto simp: reads_def)

lemma reads_byte:
  "reads (\<lambda>bs. \<exists>k d. bs = k # d \<and> P k d) data off nx \<longleftrightarrow> off < length data \<and> reads (P (data ! off)) data (Suc off) nx" (is "?l = ?r")
proof
  assume ?l
  then obtain k d rest where k: "drop off data = k # d @ rest" "P k d" "nx = Suc off + length d" by (auto simp: reads_def)
  then have "off < length data" by (metis drop_all list.discI not_less)
  then have "data ! off = k" "drop (Suc off) data = d @ rest" using k(1) by (metis Cons_nth_drop_Suc list.inject)+
  with k \<open>off < length data\<close> show ?r by (auto simp: reads_def)
next
  assume ?r
  then obtain d rest where d: "off < length data" "drop (Suc off) data = d @ rest" "P (data ! off) d" "nx = Suc off + length d"
    by (auto simp: reads_def)
  then have "drop off data = (data ! off # d) @ rest" by (simp add: Cons_nth_drop_Suc [symmetric])
  with d show ?l unfolding reads_def by (intro exI [of _ "data ! off # d"] exI [of _ rest]) simp
qed

lemma reads_Nil: "reads (\<lambda>bs. bs = []) data off nx \<longleftrightarrow> nx = off"
  by (auto simp: reads_def)

lemma reads_conj: "reads (\<lambda>bs. c \<and> P bs) data off nx \<longleftrightarrow> c \<and> reads P data off nx"
  by (auto simp: reads_def)

lemma reads_disj: "reads (\<lambda>bs. P bs \<or> Q bs) data off nx \<longleftrightarrow> reads P data off nx \<or> reads Q data off nx"
  by (auto simp: reads_def)

lemma reads_bound: "reads P data off nx \<Longrightarrow> off \<le> length data \<Longrightarrow> nx \<le> length data"
proof -
  assume "reads P data off nx" "off \<le> length data"
  then obtain bs rest where "drop off data = bs @ rest" "nx = off + length bs" by (auto simp: reads_def)
  then have "length data - off = length bs + length rest" by (metis length_append length_drop)
  then show ?thesis using \<open>off \<le> length data\<close> \<open>nx = off + length bs\<close> by linarith
qed

lemma read_u32_reads: "read_u32 data off = Inr (v, nx) \<longleftrightarrow> reads (u32_is (unat v)) data off nx"
  by (auto simp: read_u32_iff reads_def u32_is_def)

lemma read_u32_any: "(\<exists>v. read_u32 data off = Inr (v, nx)) \<longleftrightarrow> reads u32_code data off nx"
proof -
  have "\<exists>v :: u32. unat v = leb_value bs" if "u32_code bs" for bs
  proof -
    have "leb_value bs < 2 ^ 29" using code_range [OF that] by simp
    then have "unat (word_of_nat (leb_value bs) :: u32) = leb_value bs" by (simp add: unat_of_nat)
    then show ?thesis by blast
  qed
  then show ?thesis by (auto simp: read_u32_reads reads_def u32_is_def) metis
qed

lemma read_u32_some:
  "(\<exists>v m. read_u32 data off = Inr (v, m) \<and> P (unat v) m) \<longleftrightarrow>
   (\<exists>n m. reads (u32_is n) data off m \<and> P n m)"
proof
  assume "\<exists>n m. reads (u32_is n) data off m \<and> P n m"
  then obtain n m where m: "reads (u32_is n) data off m" "P n m" by blast
  then have "reads u32_code data off m" by (auto simp: reads_def u32_is_def)
  then obtain v where v: "read_u32 data off = Inr (v, m)" using read_u32_any by blast
  from m(1) obtain bs rest where "drop off data = bs @ rest" "u32_is n bs" "m = off + length bs" by (auto simp: reads_def)
  moreover from v obtain bs' rest' where "drop off data = bs' @ rest'" "u32_is (unat v) bs'" "m = off + length bs'"
    unfolding read_u32_reads by (auto simp: reads_def)
  ultimately have "n = unat v" by (auto simp: u32_is_def append_eq_append_conv)
  with v m show "\<exists>v m. read_u32 data off = Inr (v, m) \<and> P (unat v) m" by blast
qed (auto simp: read_u32_reads)

section \<open>The parts of the validator\<close>

lemma odd_flags: "(v AND 1 \<noteq> 0) \<longleftrightarrow> odd (unat (v :: u32))"
proof -
  have "v AND 1 \<noteq> 0 \<longleftrightarrow> bit v 0" using and_exp_eq_0_iff_not_bit [of v 0] by simp
  then show ?thesis by (simp only: bit_word_unat power_0 div_by_1)
qed

lemma skip_limits_reads: "skip_limits data off = Inr nx \<longleftrightarrow> reads limits_code data off nx"
proof -
  have max: "(if odd n then reads u32_code data m nx else nx = m) \<longleftrightarrow>
      reads (\<lambda>bs. if odd n then u32_code bs else bs = []) data m nx" for n m
    by (cases "odd n") (simp_all add: reads_Nil)
  have "skip_limits data off = Inr nx \<longleftrightarrow>
      (\<exists>v m. read_u32 data off = Inr (v, m) \<and> (\<exists>m2. (\<exists>u. read_u32 data m = Inr (u, m2)) \<and>
         (if odd (unat v) then \<exists>u. read_u32 data m2 = Inr (u, nx) else nx = m2)))"
    by (fastforce simp: skip_limits_def bindR_eq_Inr odd_flags)
  also have "\<dots> \<longleftrightarrow> (\<exists>n m. reads (u32_is n) data off m \<and> (\<exists>m2. reads u32_code data m m2 \<and>
         reads (\<lambda>bs. if odd n then u32_code bs else bs = []) data m2 nx))"
    unfolding read_u32_any max by (rule read_u32_some)
  also have "\<dots> \<longleftrightarrow> reads (\<lambda>bs. \<exists>n a b. bs = a @ b \<and> u32_is n a \<and> (\<exists>c d. b = c @ d \<and> u32_code c \<and>
         (if odd n then u32_code d else d = []))) data off nx"
    unfolding reads_seq reads_ex ..
  also have "(\<lambda>bs. \<exists>n a b. bs = a @ b \<and> u32_is n a \<and> (\<exists>c d. b = c @ d \<and> u32_code c \<and>
         (if odd n then u32_code d else d = []))) = limits_code"
    unfolding limits_code_def u32_is_def fun_eq_iff by blast
  finally show ?thesis .
qed

lemma read_name_reads: "read_name data off = Inr (nm, nx) \<longleftrightarrow> reads (name_code nm) data off nx"
proof -
  have "read_name data off = Inr (nm, nx) \<longleftrightarrow>
      (\<exists>v m. read_u32 data off = Inr (v, m) \<and> unat v \<le> length data - m \<and> m \<le> length data \<and>
         nm = take (unat v) (drop m data) \<and> nx = m + unat v)"
    by (auto simp: read_name_def not_less split: sum.split)
  also have "\<dots> \<longleftrightarrow> (\<exists>n m. reads (u32_is n) data off m \<and> n \<le> length data - m \<and> m \<le> length data \<and>
         nm = take n (drop m data) \<and> nx = m + n)"
    by (rule read_u32_some)
  also have "\<dots> \<longleftrightarrow> (\<exists>m. reads (u32_is (length nm)) data off m \<and> reads (\<lambda>bs. bs = nm) data m nx)" (is "?l = ?r")
  proof
    assume ?l
    then obtain n m where m: "reads (u32_is n) data off m" "n \<le> length data - m" "m \<le> length data"
      "nm = take n (drop m data)" "nx = m + n" by blast
    then have "length nm = n" "drop m data = nm @ drop n (drop m data)" by (simp, metis append_take_drop_id)
    with m show ?r unfolding reads_def by metis
  next
    assume ?r
    then obtain m rest where m: "reads (u32_is (length nm)) data off m" "drop m data = nm @ rest" "nx = m + length nm"
      by (auto simp: reads_def)
    then have "length nm \<le> length data - m" by (metis length_append length_drop le_add1)
    moreover have "m \<le> length data"
    proof -
      obtain bs rest where bs: "drop off data = bs @ rest" "bs \<noteq> []"
        using m(1) by (auto simp: reads_def u32_is_def code_after_def)
      have "off \<le> length data"
      proof (rule ccontr)
        assume "\<not> off \<le> length data"
        then have "drop off data = []" by simp
        with bs show False by simp
      qed
      then show ?thesis using reads_bound [OF m(1)] by blast
    qed
    ultimately show ?l using m by (intro exI [of _ "length nm"] exI [of _ m]) simp
  qed
  also have "\<dots> \<longleftrightarrow> reads (name_code nm) data off nx"
    unfolding reads_seq by (simp add: name_code_def [abs_def] conj_commute)
  finally show ?thesis .
qed

lemma skip_table_type_reads:
  "skip_table_type data off = Inr nx \<longleftrightarrow> reads (\<lambda>bs. \<exists>t l. bs = t # l \<and> limits_code l) data off nx"
  unfolding reads_byte by (auto simp: skip_table_type_def skip_limits_reads)

lemma skip_description_reads:
  "off < length data \<and> skip_description data (byte_at data off) (Suc off) = Inr nx \<longleftrightarrow> reads description_code data off nx"
proof -
  have k: "byte_at data off = word_of_nat n \<longleftrightarrow> (of_char (data ! off) :: nat) = n" if "n < 256" for n
    using that by (simp add: word_unat_eq_iff unat_of_nat)
  note ks = k [of 0, simplified] k [of 1, simplified] k [of 2, simplified] k [of 3, simplified]
  have u: "bindR (read_u32 data m) (\<lambda>(_, m1). Inr m1) = Inr nx \<longleftrightarrow> reads u32_code data m nx" for m
    by (auto simp: bindR_eq_Inr simp flip: read_u32_any)
  have g: "reads (\<lambda>bs. length bs = 2) data m nx \<longleftrightarrow> \<not> length data < m + 2 \<and> m + 2 = nx" for m
  proof
    assume "\<not> length data < m + 2 \<and> m + 2 = nx"
    then have "length (take 2 (drop m data)) = 2" "nx = m + 2" by auto
    moreover have "drop m data = take 2 (drop m data) @ drop 2 (drop m data)" by (simp only: append_take_drop_id)
    ultimately show "reads (\<lambda>bs. length bs = 2) data m nx" unfolding reads_def by metis
  next
    assume "reads (\<lambda>bs. length bs = 2) data m nx"
    then obtain bs rest where "drop m data = bs @ rest" "length bs = 2" "nx = m + 2" by (auto simp: reads_def)
    moreover from this have "length data - m = 2 + length rest" by (metis length_append length_drop)
    ultimately show "\<not> length data < m + 2 \<and> m + 2 = nx" by simp
  qed
  show ?thesis
    unfolding description_code_def reads_byte skip_description_def ks reads_disj reads_conj
      if_distrib [where f = "\<lambda>r. r = Inr nx"] u g skip_table_type_reads skip_limits_reads
    by auto
qed

lemma validate_import_reads:
  "validate_import data off = Inr nx \<longleftrightarrow> reads (import_code ''wasi_snapshot_preview1'') data off nx"
proof -
  have "validate_import data off = Inr nx \<longleftrightarrow>
      (\<exists>m. read_name data off = Inr (''wasi_snapshot_preview1'', m) \<and> (\<exists>m2. (\<exists>nm. read_name data m = Inr (nm, m2)) \<and>
         (m2 < length data \<and> skip_description data (byte_at data m2) (Suc m2) = Inr nx)))"
    by (auto simp: validate_import_def not_le split: sum.splits if_splits)
  also have "\<dots> \<longleftrightarrow> reads (import_code ''wasi_snapshot_preview1'') data off nx"
    unfolding skip_description_reads read_name_reads reads_ex reads_seq import_code_def by (rule arg_cong [where f = "\<lambda>P. reads P data off nx"]) blast
  finally show ?thesis .
qed

lemma validate_import_list_reads:
  "validate_import_list data n off = Inr nx \<longleftrightarrow> reads (imports_code (replicate n ''wasi_snapshot_preview1'')) data off nx"
proof (induction n arbitrary: off)
  case 0
  then show ?case by (auto simp: reads_Nil)
next
  case (Suc n)
  then show ?case by (simp add: bindR_eq_Inr validate_import_reads flip: reads_seq)
qed

section \<open>The validator decides the grammar\<close>

lemma whole: "reads P data 0 (length data) \<longleftrightarrow> P data"
proof
  assume "reads P data 0 (length data)"
  then obtain bs rest where bs: "data = bs @ rest" "P bs" "length data = length bs" by (auto simp: reads_def)
  then have "rest = []" by simp
  with bs show "P data" by simp
qed (auto simp: reads_def)

lemma imports_code_all:
  "(\<exists>ms. length ms = n \<and> set ms \<subseteq> {m} \<and> imports_code ms bs) \<longleftrightarrow> imports_code (replicate n m) bs"
proof
  assume "\<exists>ms. length ms = n \<and> set ms \<subseteq> {m} \<and> imports_code ms bs"
  then obtain ms where ms: "length ms = n" "set ms \<subseteq> {m}" "imports_code ms bs" by blast
  then have "ms = replicate n m" by (auto intro: replicate_eqI)
  with ms show "imports_code (replicate n m) bs" by simp
qed (auto intro!: exI [of _ "replicate n m"])

lemma validate_import_section_iff:
  "validate_import_section bs = None \<longleftrightarrow> (\<exists>ms. section_code ms bs \<and> set ms \<subseteq> {''wasi_snapshot_preview1''})"
proof -
  let ?all = "\<lambda>n. imports_code (replicate n ''wasi_snapshot_preview1'')"
  have "validate_import_section bs = None \<longleftrightarrow>
      (\<exists>v m. read_u32 bs 0 = Inr (v, m) \<and> validate_import_list bs (unat v) m = Inr (length bs))"
    by (auto simp: validate_import_section_def split: sum.split if_splits)
  also have "\<dots> \<longleftrightarrow> (\<exists>n m. reads (u32_is n) bs 0 m \<and> reads (?all n) bs m (length bs))"
    unfolding validate_import_list_reads by (rule read_u32_some)
  also have "\<dots> \<longleftrightarrow> (\<exists>n c es. bs = c @ es \<and> u32_is n c \<and> ?all n es)"
    unfolding reads_seq whole ..
  also have "\<dots> \<longleftrightarrow> (\<exists>ms. section_code ms bs \<and> set ms \<subseteq> {''wasi_snapshot_preview1''})"
    unfolding section_code_def imports_code_all [symmetric] by blast
  finally show ?thesis .
qed

text \<open>
  The sections that follow the header of a module: others, up to the first import section, all
  of whose imports are from \<open>wasi_snapshot_preview1\<close>, or up to the end.
\<close>

inductive wasi_only :: "string \<Rightarrow> bool" where
  no_section: "wasi_only []"
| other_section: "(of_char k :: nat) \<noteq> 2 \<Longrightarrow> (of_char k :: nat) \<le> 12 \<Longrightarrow> u32_is (length body) ls \<Longrightarrow> wasi_only rest \<Longrightarrow>
    wasi_only (k # ls @ body @ rest)"
| import_section: "(of_char k :: nat) = 2 \<Longrightarrow> u32_is (length body) ls \<Longrightarrow> section_code ms body \<Longrightarrow>
    set ms \<subseteq> {''wasi_snapshot_preview1''} \<Longrightarrow> wasi_only (k # ls @ body @ rest)"

inductive_cases wasi_only_cases: "wasi_only bs"

lemma section_split:
  assumes "off < length data"
  shows "(\<exists>k ls body rest. drop off data = k # ls @ body @ rest \<and> u32_is (length body) ls \<and> P k body rest) \<longleftrightarrow>
    (\<exists>v m. read_u32 data (Suc off) = Inr (v, m) \<and> unat v \<le> length data - m \<and> m \<le> length data \<and>
       P (data ! off) (take (unat v) (drop m data)) (drop (m + unat v) data))" (is "?l \<longleftrightarrow> ?r")
proof
  assume ?l
  then obtain k ls body rest where d: "drop off data = k # ls @ body @ rest" "u32_is (length body) ls" "P k body rest" by blast
  have k: "data ! off = k" and d1: "drop (Suc off) data = ls @ body @ rest"
    using d(1) assms by (metis Cons_nth_drop_Suc list.inject)+
  let ?m = "Suc off + length ls"
  from d1 have "drop ?m data = body @ rest" by (metis add.commute append_eq_conv_conj drop_drop)
  then have "length body \<le> length data - ?m" "take (length body) (drop ?m data) = body"
    "drop (?m + length body) data = rest"
    by (metis le_add1 length_append length_drop, simp, metis add.commute append_eq_conv_conj drop_drop)
  moreover have "?m \<le> length data"
    using d1 assms by (metis add_le_mono1 add.commute le_add1 length_append length_drop Suc_leI le_add_diff_inverse2 nat_add_left_cancel_le)
  moreover have "reads (u32_is (length body)) data (Suc off) ?m" unfolding reads_def using d1 d(2) by blast
  ultimately have "\<exists>n m. reads (u32_is n) data (Suc off) m \<and> n \<le> length data - m \<and> m \<le> length data \<and>
       P (data ! off) (take n (drop m data)) (drop (m + n) data)"
    using d(3) k by (intro exI [of _ "length body"] exI [of _ ?m]) simp
  then show ?r by (simp only: read_u32_some [of data "Suc off" "\<lambda>n m. n \<le> length data - m \<and> m \<le> length data \<and>
       P (data ! off) (take n (drop m data)) (drop (m + n) data)"])
next
  assume ?r
  then obtain v :: u32 and m where vm: "reads (u32_is (unat v)) data (Suc off) m \<and> unat v \<le> length data - m \<and> m \<le> length data \<and>
      P (data ! off) (take (unat v) (drop m data)) (drop (m + unat v) data)"
    unfolding read_u32_reads by (elim exE) (rule that)
  then have v: "reads (u32_is (unat v)) data (Suc off) m" "unat v \<le> length data - m"
    "P (data ! off) (take (unat v) (drop m data)) (drop (m + unat v) data)" by simp_all
  from v(1) obtain ls rest where ls: "drop (Suc off) data = ls @ rest" "u32_is (unat v) ls" "m = Suc off + length ls"
    by (auto simp: reads_def)
  then have "drop m data = rest" by (metis add.commute append_eq_conv_conj drop_drop)
  then have "drop off data = data ! off # ls @ take (unat v) (drop m data) @ drop (m + unat v) data"
    using ls(1) assms by (metis Cons_nth_drop_Suc add.commute append_take_drop_id drop_drop)
  then show ?l using v(2,3) ls(2) by (metis length_take length_drop min_absorb2)
qed

lemma validate_sections_iff:
  "validate_sections data off = None \<longleftrightarrow> wasi_only (drop off data)"
proof (induction data off rule: validate_sections.induct)
  case (1 data off)
  show ?case
  proof (cases "length data \<le> off")
    case True
    then show ?thesis by (simp add: validate_sections.simps [of data off] no_section)
  next
    case False
    then have off: "off < length data" by simp
    have id: "byte_at data off = word_of_nat n \<longleftrightarrow> (of_char (data ! off) :: nat) = n" if "n < 256" for n
      using that by (simp add: word_unat_eq_iff unat_of_nat)
    have id2: "byte_at data off = 2 \<longleftrightarrow> (of_char (data ! off) :: nat) = 2" using id [of 2] by simp
    have id12: "byte_at data off \<noteq> 0 \<and> byte_at data off > 12 \<longleftrightarrow> \<not> (of_char (data ! off) :: nat) \<le> 12"
      by (auto simp: word_less_nat_alt word_unat_eq_iff)
    let ?step = "\<lambda>k body rest. (of_char k :: nat) \<noteq> 2 \<and> (of_char k :: nat) \<le> 12 \<and> wasi_only rest \<or>
        (of_char k :: nat) = 2 \<and> (\<exists>ms. section_code ms body \<and> set ms \<subseteq> {''wasi_snapshot_preview1''})"
    have "wasi_only (drop off data) \<longleftrightarrow>
        (\<exists>k ls body rest. drop off data = k # ls @ body @ rest \<and> u32_is (length body) ls \<and> ?step k body rest)" (is "?l \<longleftrightarrow> ?r")
    proof
      assume ?l
      then show ?r by (cases rule: wasi_only.cases) (use off in simp, blast+)
    qed (auto intro: wasi_only.intros)
    also have "\<dots> \<longleftrightarrow> (\<exists>v m. read_u32 data (Suc off) = Inr (v, m) \<and> unat v \<le> length data - m \<and> m \<le> length data \<and>
        ?step (data ! off) (take (unat v) (drop m data)) (drop (m + unat v) data))"
      by (rule section_split [OF off])
    also have "\<dots> \<longleftrightarrow> validate_sections data off = None"
    proof (cases "read_u32 data (Suc off)")
      case (Inl e)
      then show ?thesis using off by (simp add: validate_sections.simps [of data off] Let_def)
    next
      case (Inr r)
      obtain v m where r: "r = (v, m)" by (cases r)
      show ?thesis
      proof (cases "length data < m \<or> length data - m < unat v")
        case True
        then show ?thesis using off Inr r by (auto simp: validate_sections.simps [of data off] Let_def)
      next
        case in_range: False
        show ?thesis
        proof (cases "(of_char (data ! off) :: nat) = 2 \<or> \<not> (of_char (data ! off) :: nat) \<le> 12")
          case True
          then show ?thesis
            using off Inr r in_range id2 id12
            by (auto simp: validate_sections.simps [of data off] Let_def validate_import_section_iff not_less)
        next
          case False
          then have "validate_sections data (m + unat v) = None \<longleftrightarrow> wasi_only (drop (m + unat v) data)"
            using "1.IH" [OF \<open>\<not> length data \<le> off\<close> refl Inr r [symmetric]] in_range id2 id12 by simp
          then show ?thesis
            using off Inr r in_range id2 id12 False
            by (auto simp: validate_sections.simps [of data off] Let_def not_less)
        qed
      qed
    qed
    finally show ?thesis by simp
  qed
qed

text \<open>
  C33. The WebAssembly policy is decided exactly: the validator accepts a module if and only if
  its sections parse up to the first import section, or to the end when there is none, and this
  section is a well-formed list of imports all of which are from \<open>wasi_snapshot_preview1\<close>.
\<close>

theorem validate_wasm_imports_correct:
  "validate_wasm_imports module = None \<longleftrightarrow> wasi_only (drop 8 module)"
  unfolding validate_wasm_imports_def by (rule validate_sections_iff)

end
