(* ===== verification/Bundle_Spec.thy ===== *)
theory Bundle_Spec
  imports Bundle Wasm_Imports
begin

text \<open>
  What admission of a bundle guarantees: the module that is extracted later is the one that was
  checked, whoever stores and reads the archive.
\<close>

section \<open>Entries\<close>

lemma and_or_mask: "(a OR b) AND (m :: 32 word) = (a AND m) OR (b AND m)"
  by (rule bit.conj_disj_distrib2)

lemma unix_mode_type: "unix_mode m AND 0xF000 = 0"
proof -
  have m: "(m AND 0x1FF) AND 0xF000 = 0" by (simp add: and.assoc)
  show ?thesis by (simp add: unix_mode_def Let_def and_or_mask m)
qed

lemma msdos_mode_type: "msdos_mode m AND 0xF000 = 0"
  by (simp add: msdos_mode_def Let_def)

text \<open>
  The check for special files does nothing: the bits it tests are never set in the mode that the
  archive library returns, so an entry is refused exactly when it is a directory or has an unsafe
  name; a symbolic link, for one, passes.
\<close>

theorem special_files_pass:
  "(unsafe_entry f \<longleftrightarrow> is_dir f \<or> zf_name f \<noteq> base (zf_name f) \<or> CHR 0x5C \<in> set (zf_name f)) \<and>
   (\<exists>link. drop_bit 16 (zf_attrs link) AND 0xF000 = 0xA000 \<and> zf_creator link = 0x300 \<and> \<not> unsafe_entry link)"
proof -
  have mode: "file_mode f AND 0xF000 = 0"
    by (auto simp: file_mode_def Let_def and_or_mask unix_mode_type msdos_mode_type)
  let ?link = "\<lparr>zf_name = ''manifest.json'', zf_creator = 0x300, zf_attrs = 0xA1FF0000, zf_compressed = 0,
     zf_uncompressed = 0, zf_data = Some []\<rparr>"
  have "\<not> unsafe_entry ?link" by code_simp
  moreover have "drop_bit 16 (zf_attrs ?link) AND 0xF000 = 0xA000" by simp
  ultimately show ?thesis using mode by (auto simp: unsafe_entry_def intro!: exI [of _ ?link])
qed

lemma base_no_slash:
  assumes "base n = n" "n \<noteq> []" "last n \<noteq> CHR ''/''"
  shows "CHR ''/'' \<notin> set n"
proof -
  have q: "rev (dropWhile (\<lambda>c. c = CHR ''/'') (rev n)) = n"
    using assms(2,3) by (cases n rule: rev_cases) auto
  let ?b = "rev (takeWhile (\<lambda>c. c \<noteq> CHR ''/'') (rev n))"
  have "?b \<noteq> []" using assms(2,3) by (cases n rule: rev_cases) auto
  then have "base n = ?b" using assms(2) by (simp add: base_def Let_def q)
  then have "n = ?b" using assms(1) by simp
  then have "set n = set (takeWhile (\<lambda>c. c \<noteq> CHR ''/'') (rev n))" by (metis set_rev)
  then show ?thesis by (auto dest: set_takeWhileD)
qed

lemma slash_is_dir: "zf_name f \<noteq> [] \<Longrightarrow> last (zf_name f) = CHR ''/'' \<Longrightarrow> is_dir f"
proof -
  assume "zf_name f \<noteq> []" "last (zf_name f) = CHR ''/''"
  then obtain mode where "file_mode f = mode OR push_bit 31 1" by (auto simp: file_mode_def Let_def)
  then have "bit (file_mode f) 31" by (simp add: bit_simps)
  then show ?thesis using and_exp_eq_0_iff_not_bit [of "file_mode f" 31] by (simp add: is_dir_def push_bit_of_1)
qed

lemma safe_name:
  assumes "\<not> unsafe_entry f"
  shows "CHR ''/'' \<notin> set (zf_name f)" "CHR 0x5C \<notin> set (zf_name f)"
proof -
  have n: "base (zf_name f) = zf_name f" "\<not> is_dir f" using assms by (simp_all add: unsafe_entry_def)
  show "CHR ''/'' \<notin> set (zf_name f)"
  proof (cases "zf_name f = []")
    case True
    then show ?thesis by simp
  next
    case False
    with n(2) slash_is_dir have "last (zf_name f) \<noteq> CHR ''/''" by blast
    from base_no_slash [OF n(1) False this] show ?thesis .
  qed
  show "CHR 0x5C \<notin> set (zf_name f)" using assms by (simp add: unsafe_entry_def)
qed

lemma check_entry_Inr:
  "check_entry env f (entries, folded) = Inr st \<longleftrightarrow>
     \<not> unsafe_entry f \<and> map_of entries (zf_name f) = None \<and> bn_lower env (zf_name f) \<notin> set folded \<and>
     \<not> (zf_uncompressed f > of_nat max_module_bytes \<or>
        (zf_compressed f > 0 \<and> zf_uncompressed f > zf_compressed f * of_nat max_compression_ratio)) \<and>
     st = (put (zf_name f) f entries, bn_lower env (zf_name f) # folded)"
  by (auto simp: check_entry_def)

lemma check_entries:
  assumes "foldR (check_entry env) files (entries, folded) = Inr (entries', folded')"
  shows "(\<forall>f \<in> set files. \<not> unsafe_entry f) \<and> distinct (map zf_name files) \<and>
    zf_name ` set files \<inter> dom (map_of entries) = {} \<and>
    map_of entries' = (\<lambda>n. case find (\<lambda>f. zf_name f = n) files of Some f \<Rightarrow> Some f | None \<Rightarrow> map_of entries n)"
  using assms
proof (induction files arbitrary: entries folded)
  case Nil
  then show ?case by simp
next
  case (Cons f files)
  have c: "\<not> unsafe_entry f" "map_of entries (zf_name f) = None"
    and r: "foldR (check_entry env) files (put (zf_name f) f entries, bn_lower env (zf_name f) # folded) = Inr (entries', folded')"
    using Cons.prems by (auto simp: check_entry_Inr bindR_eq_Inr)
  note IH = Cons.IH [OF r]
  then have "zf_name f \<notin> zf_name ` set files" "zf_name ` set files \<inter> dom (map_of entries) = {}" by auto
  moreover from this(1) have "find (\<lambda>g. zf_name g = zf_name f) files = None"
    by (simp add: find_None_iff) (metis image_eqI)
  ultimately show ?case using IH c by (auto simp: fun_eq_iff split: option.splits)
qed

section \<open>Reading a bundle\<close>

lemma validate_manifest_ok:
  assumes "validate_manifest m js = None"
  shows "mf_schema m = ''arena-bundle/v1'' \<and> mf_kind m \<in> {''game'', ''ai''} \<and> bt_kind (mf_runtime m) = ''wasm-wasi'' \<and>
    (mf_kind m = ''ai'' \<longrightarrow> \<not> blank (mf_ai m)) \<and> bt_pages (mf_runtime m) \<le> 1024 \<and> bt_timeout (mf_runtime m) \<le> 600000"
  using assms by (auto simp: validate_manifest_def Let_def split: if_splits option.splits)

text \<open>What the policy demands of a module.\<close>

definition module_ok :: "bundle_env \<Rightarrow> string \<Rightarrow> bool" where
  "module_ok env bytes \<longleftrightarrow> length bytes \<le> max_module_bytes \<and> take 8 bytes = wasm_header \<and>
     bn_compiles env bytes \<and> wasi_only (drop 8 bytes)"

lemma read_module_ok:
  assumes "read_module env data m entries = Inr b"
  shows "b = \<lparr>bd_manifest = m, bd_digest = bundle_digest data, bd_bytes = data\<rparr> \<and>
    (\<exists>f bytes. map_of entries (bt_module (mf_runtime m)) = Some f \<and> zf_name f \<noteq> ''manifest.json'' \<and>
       read_entry f max_module_bytes = Some bytes \<and> module_ok env bytes)"
proof -
  obtain f bytes where f: "map_of entries (bt_module (mf_runtime m)) = Some f" "zf_name f \<noteq> ''manifest.json''"
    "read_entry f max_module_bytes = Some bytes" "take 8 bytes = wasm_header" "validate_wasm env bytes = None"
    "b = \<lparr>bd_manifest = m, bd_digest = bundle_digest data, bd_bytes = data\<rparr>"
    using assms by (auto simp: read_module_def split: option.splits if_splits)
  have "validate_wasm_imports bytes = None" "bn_compiles env bytes"
    using f(5) by (auto simp: validate_wasm_def split: if_splits)
  moreover have "length bytes \<le> max_module_bytes" using f(3) by (auto simp: read_entry_def split: option.splits if_splits)
  ultimately have "module_ok env bytes"
    using f(4) by (simp add: module_ok_def validate_wasm_imports_def validate_sections_iff)
  with f show ?thesis by blast
qed

lemma read_bundle_ok:
  assumes "read_bundle env data = Inr b"
  shows "bd_digest b = bundle_digest data \<and> bd_bytes b = data \<and>
    (\<exists>js. validate_manifest (bd_manifest b) js = None) \<and>
    (let name = bt_module (mf_runtime (bd_manifest b)) in
       CHR ''/'' \<notin> set name \<and> CHR 0x5C \<notin> set name \<and> name \<noteq> ''manifest.json'' \<and>
       (\<exists>bytes. module_bytes env data name = Some bytes \<and> module_ok env bytes))"
proof -
  obtain files where z: "bn_zip env data = Some files"
    using assms by (auto simp: read_bundle_def split: if_splits option.splits)
  with assms obtain entries folded where e: "foldR (check_entry env) files ([], []) = Inr (entries, folded)"
    and rest: "(case map_of entries ''manifest.json'' of
              None \<Rightarrow> Inl ManifestMissing
            | Some f \<Rightarrow>
                (case read_entry f max_manifest_bytes of
                   None \<Rightarrow> Inl ManifestUnreadable
                 | Some bytes \<Rightarrow>
                     (case unmarshal dec_manifest (bn_first env bytes) zero_manifest of
                        None \<Rightarrow> Inl ManifestUnparsable
                      | Some m \<Rightarrow>
                          (case validate_manifest m (bn_whole env bytes) of
                             Some e \<Rightarrow> Inl e
                           | None \<Rightarrow> read_module env data m entries)))) = Inr b"
    by (auto simp: read_bundle_def bindR_eq_Inr split: if_splits)
  from rest obtain m js where v: "validate_manifest m js = None" and r: "read_module env data m entries = Inr b"
    by (auto split: option.splits)
  let ?name = "bt_module (mf_runtime m)"
  note c = check_entries [OF e]
  note rm = read_module_ok [OF r]
  then obtain g bytes where g: "map_of entries ?name = Some g" "zf_name g \<noteq> ''manifest.json''"
    "read_entry g max_module_bytes = Some bytes" "module_ok env bytes" by blast
  have find: "find (\<lambda>f. zf_name f = ?name) files = Some g"
    using c g(1) by (simp split: option.splits)
  then have n: "zf_name g = ?name" "g \<in> set files" by (auto simp: find_Some_iff)
  then have "\<not> unsafe_entry g" using c by blast
  from safe_name [OF this] n g(2) have "CHR ''/'' \<notin> set ?name" "CHR 0x5C \<notin> set ?name" "?name \<noteq> ''manifest.json''" by auto
  moreover have "module_bytes env data ?name = Some bytes" by (simp add: module_bytes_def z find g(3))
  ultimately show ?thesis using rm v g(4) by auto
qed

section \<open>Storing a bundle\<close>

lemma length_sha_round: "length (sha_round kw st) = length st"
  by (induction kw st rule: sha_round.induct) (simp_all add: Let_def)

lemma length_fold_rounds: "length (fold sha_round kws st) = length st"
  by (induction kws arbitrary: st) (simp_all add: length_sha_round)

lemma length_compress: "length (compress block hs) = length hs"
  by (simp add: compress_def length_fold_rounds)

lemma length_fold_compress: "length (fold compress bs hs) = length hs"
  by (induction bs arbitrary: hs) (simp_all add: length_compress)

lemma length_be_bytes: "length (be_bytes k n) = k"
  by (induction k arbitrary: n) simp_all

lemma length_initial_hash: "length initial_hash = 8"
proof -
  have "length (primes_upto 19) = 8" by code_simp
  then show ?thesis by (simp add: initial_hash_def)
qed

lemma length_sum256: "length (sum256 s) = 32"
  by (simp add: sum256_def Let_def length_concat comp_def length_be_bytes length_fold_compress
      length_initial_hash sum_list_triv)

lemma length_hex: "length (hex s) = 2 * length s"
  by (induction s) (simp_all add: hex_def)

text \<open>The digest of a bundle is always one that the store takes.\<close>

lemma length_bundle_digest: "length (bundle_digest data) = 71"
  by (simp add: bundle_digest_def length_hex length_sum256)

text \<open>
  C32. A worker runs the module that was checked: once an accepted bundle is stored, reading its
  digest returns the uploaded bytes, and materialising it writes into the given directory, under a
  name without separators, a module within the size limit that has the WebAssembly header, compiles
  and imports nothing but \<open>wasi_snapshot_preview1\<close>; its manifest keeps to the runtime budget. The
  names \<open>.\<close> and \<open>..\<close> are accepted on upload and refused only here.
\<close>

theorem stored_bundle_runs_checked_module:
  assumes read: "read_bundle env data = Inr b" and stored: "put_bundle root b fs = (None, fs1)"
    and name: "bt_module (mf_runtime (bd_manifest b)) \<notin> {''.'', ''..''}"
  shows "read_stored root (bd_digest b) fs1 = Inr data \<and>
    (let r = mf_runtime (bd_manifest b) in
      bt_pages r \<le> 1024 \<and> bt_timeout r \<le> 600000 \<and>
      CHR ''/'' \<notin> set (bt_module r) \<and> CHR 0x5C \<notin> set (bt_module r) \<and> bt_module r \<noteq> ''manifest.json'' \<and>
      (\<exists>bytes fs2. materialize env encode root (bd_digest b) destination fs1 = (Inr (join [destination, bt_module r]), fs2) \<and>
         fs2 (join [destination, bt_module r]) = Some bytes \<and>
         length bytes \<le> 32 * 2 ^ 20 \<and> take 8 bytes = wasm_header \<and> bn_compiles env bytes \<and> wasi_only (drop 8 bytes)))"
proof -
  note b = read_bundle_ok [OF read]
  then obtain js where "validate_manifest (bd_manifest b) js = None" by blast
  note m = validate_manifest_ok [OF this]
  obtain path where p: "path_for root (bd_digest b) = Inr path"
    using stored by (auto simp: put_bundle_def split: sum.splits)
  have "fs1 path = Some data"
    using stored b p by (auto simp: put_bundle_def split: option.splits if_splits)
  then have s: "read_stored root (bd_digest b) fs1 = Inr data" by (simp add: read_stored_def p)
  obtain bytes where y: "module_bytes env data (bt_module (mf_runtime (bd_manifest b))) = Some bytes" "module_ok env bytes"
    using b by (auto simp: Let_def)
  then have "length bytes \<le> 32 * 2 ^ 20 \<and> take 8 bytes = wasm_header \<and> bn_compiles env bytes \<and> wasi_only (drop 8 bytes)"
    by (simp add: module_ok_def max_module_bytes_def)
  then show ?thesis using s b m y(1) name by (simp add: materialize_def read Let_def)
qed

text \<open>Bundles of a manifest of either kind and the empty module.\<close>

definition sample_json :: "string \<Rightarrow> json" where
  "sample_json kind = JObj
     [(''schema_version'', JStr ''arena-bundle/v1''), (''artifact_kind'', JStr kind), (''ai_id'', JStr ''bot''),
      (''game_id'', JStr ''go''), (''game_version'', JStr ''1.0.0''),
      (''rulesets'', JArr [JObj [(''ruleset_version'', JStr ''r''), (''player_count'', JInt 2),
         (''max_active_bots_per_owner'', JInt 3)]]),
      (''runtime'', JObj [(''kind'', JStr ''wasm-wasi''), (''module'', JStr ''m.wasm'')])]"

definition sample_bundle_env :: "string \<Rightarrow> bundle_env" where
  "sample_bundle_env kind =
     (let entry = (\<lambda>name content. \<lparr>zf_name = name, zf_creator = 0x300, zf_attrs = 0x81A40000, zf_compressed = 8,
          zf_uncompressed = 8, zf_data = Some content\<rparr>)
      in \<lparr>bn_zip = \<lambda>_. Some [entry ''manifest.json'' ''{}'', entry ''m.wasm'' wasm_header],
          bn_first = \<lambda>_. RawJson (sample_json kind), bn_whole = \<lambda>_. RawJson (sample_json kind),
          bn_lower = \<lambda>s. s, bn_compiles = \<lambda>_. True\<rparr>)"

definition sample_manifest :: "string \<Rightarrow> manifest" where
  "sample_manifest kind =
     \<lparr>mf_schema = ''arena-bundle/v1'', mf_kind = kind, mf_ai = ''bot'', mf_game = ''go'', mf_version = ''1.0.0'',
      mf_rulesets = [\<lparr>rl_ruleset = ''r'', rl_players = 2, rl_bots = 3\<rparr>],
      mf_runtime = \<lparr>bt_kind = ''wasm-wasi'', bt_module = ''m.wasm'', bt_args = [], bt_pages = 0, bt_timeout = 0\<rparr>\<rparr>"

definition sample_bundle :: "string \<Rightarrow> string \<Rightarrow> artifact_bundle" where
  "sample_bundle kind data = \<lparr>bd_manifest = sample_manifest kind, bd_digest = bundle_digest data, bd_bytes = data\<rparr>"

lemma sample_decoded: "unmarshal dec_manifest (RawJson (sample_json kind)) zero_manifest = Some (sample_manifest kind)"
  by (simp add: sample_json_def sample_manifest_def zero_manifest_def dec_manifest_def dec_struct_strict_def dec_defs
      dec_list_def dec_limits_def dec_runtime_def zero_limits_def upper_def int64_ok_def)

lemma sample_numeric:
  "unmarshal dec_numeric (RawJson (sample_json kind)) \<lparr>nf_rulesets = [], nf_runtime = (None, None)\<rparr> =
     Some \<lparr>nf_rulesets = [(Some 2, Some 3)], nf_runtime = (None, None)\<rparr>"
  by (simp add: sample_json_def dec_numeric_def dec_pair_def dec_pointer_def dec_defs dec_list_def upper_def int64_ok_def)

lemma sample_valid:
  assumes "kind \<in> {''game'', ''ai''}"
  shows "validate_manifest (sample_manifest kind) (RawJson (sample_json kind)) = None"
proof -
  have "\<not> blank ''bot''" "base ''m.wasm'' = ''m.wasm''" by code_simp+
  then show ?thesis using assms unfolding validate_manifest_def sample_numeric by (auto simp: sample_manifest_def)
qed

lemma sample_module: "validate_wasm_imports wasm_header = None"
  by code_simp

lemma sample_read:
  assumes "kind \<in> {''game'', ''ai''}" "data \<noteq> []" "length data \<le> 100"
  shows "read_bundle (sample_bundle_env kind) data = Inr (sample_bundle kind data)"
proof -
  let ?entry = "\<lambda>name content. \<lparr>zf_name = name, zf_creator = 0x300, zf_attrs = 0x81A40000, zf_compressed = 8,
    zf_uncompressed = 8, zf_data = Some content\<rparr>"
  have safe: "\<not> unsafe_entry (?entry ''manifest.json'' ''{}'')" "\<not> unsafe_entry (?entry ''m.wasm'' wasm_header)"
    by code_simp+
  have decoded: "unmarshal dec_manifest (RawJson (sample_json kind)) zero_manifest = Some (sample_manifest kind)"
    and valid: "validate_manifest (sample_manifest kind) (RawJson (sample_json kind)) = None"
    using sample_decoded sample_valid [OF assms(1)] by auto
  have "read_module (sample_bundle_env kind) data (sample_manifest kind)
      [(''manifest.json'', ?entry ''manifest.json'' ''{}''), (''m.wasm'', ?entry ''m.wasm'' wasm_header)] =
      Inr (sample_bundle kind data)"
    using sample_module
    by (simp add: read_module_def sample_bundle_def sample_manifest_def sample_bundle_env_def read_entry_def max_module_bytes_def
        validate_wasm_def) (simp add: wasm_header_def)
  then show ?thesis
    using decoded valid safe assms(2,3)
    by (simp add: read_bundle_def sample_bundle_env_def Let_def max_bundle_bytes_def check_entry_def
        max_module_bytes_def max_compression_ratio_def read_entry_def max_manifest_bytes_def)
qed

lemma sample_path: "\<exists>path. path_for root (bundle_digest data) = Inr path"
  using length_bundle_digest [of data] by (simp add: path_for_def bundle_digest_def)

theorem stored_bundle_runs_checked_module_witness:
  "\<exists>fs1. put_bundle ''/b'' (sample_bundle ''game'' ''zip'') Map.empty = (None, fs1) \<and>
     read_stored ''/b'' (bundle_digest ''zip'') fs1 = Inr ''zip''"
proof -
  obtain path where path: "path_for ''/b'' (bundle_digest ''zip'') = Inr path" using sample_path by blast
  have read: "read_bundle (sample_bundle_env ''game'') ''zip'' = Inr (sample_bundle ''game'' ''zip'')"
    by (rule sample_read) simp_all
  from path have "put_bundle ''/b'' (sample_bundle ''game'' ''zip'') Map.empty =
      (None, [path \<mapsto> bd_bytes (sample_bundle ''game'' ''zip'')])"
    by (simp add: put_bundle_def sample_bundle_def)
  moreover have "bt_module (mf_runtime (bd_manifest (sample_bundle ''game'' ''zip''))) \<notin> {''.'', ''..''}"
    by (simp add: sample_bundle_def sample_manifest_def)
  ultimately show ?thesis
    using stored_bundle_runs_checked_module [OF read] by (auto simp: sample_bundle_def)
qed

text \<open>
  The store does not check that a digest is one: any 64 characters are taken, and with separators
  among them the path leaves the root.
\<close>

theorem path_leaves_root:
  "path_for ''/store'' (''sha256:../../'' @ replicate 58 CHR ''x'') = Inr (''/'' @ replicate 58 CHR ''x'' @ ''.zip'')"
  by code_simp

end
