(* ===== verification/Registry.thy ===== *)
theory Registry
  imports Contract Paths Json
begin

text \<open>
  The catalog and the registry: metadata and runtime manifests (\<open>internal/platform/catalog\<close>),
  descriptor records, the in-memory and the external store, builders and resolvers
  (\<open>internal/platform/registry\<close>). Semantic versions (\<open>golang.org/x/mod/semver\<close>) and files are
  parameters.
\<close>

section \<open>Catalog\<close>

datatype catalog_error =
  MetaGameIDMissing | MetaVersionMissing | MetaRulesetMissing | MetaSemver | MetaGameMismatch | MetaMajorMismatch
| MetaRulesetMismatch | CommandMissing | ModuleMissingInManifest | RuntimeUnsupported string
| SidecarUnreadable string | TransportUnsupported string string | SidecarStatFailed string

text \<open>\<open>strings.Split\<close> never returns an empty list.\<close>

definition major_version :: "string \<Rightarrow> int option" where
  "major_version version =
     (let part = hd (split_on (CHR ''.'') version) in if part = [] then None else atoi part)"

definition validate_metadata :: "game_metadata \<Rightarrow> catalog_error option" where
  "validate_metadata m =
     (if gm_game_id m = [] then Some MetaGameIDMissing
      else if gm_game_version m = [] then Some MetaVersionMissing
      else if gm_ruleset m = [] then Some MetaRulesetMissing
      else if major_version (gm_game_version m) = None then Some MetaSemver
      else None)"

definition compatible :: "game_metadata \<Rightarrow> game_metadata \<Rightarrow> catalog_error option" where
  "compatible expected actual =
     (case validate_metadata expected of Some e \<Rightarrow> Some e
      | None \<Rightarrow>
     (case validate_metadata actual of Some e \<Rightarrow> Some e
      | None \<Rightarrow>
        if gm_game_id expected \<noteq> gm_game_id actual then Some MetaGameMismatch
        else if major_version (gm_game_version expected) \<noteq> major_version (gm_game_version actual)
        then Some MetaMajorMismatch
        else if gm_ruleset expected \<noteq> gm_ruleset actual then Some MetaRulesetMismatch
        else None))"

text \<open>The kind of a runtime is a string; the empty one means a local subprocess.\<close>

record runtime_manifest =
  rm_kind :: string
  rm_command :: "string list"
  rm_module :: string
  rm_args :: "string list"
  rm_pages :: int

record sidecar_manifest =
  sd_ai :: string
  sd_transport :: string
  sd_meta :: game_metadata
  sd_runtime :: runtime_manifest

record runtime_config =
  rc_kind :: string
  rc_command :: "string list"
  rc_module :: string
  rc_args :: "string list"
  rc_pages :: int

definition resolve_entry_relative :: "string \<Rightarrow> string \<Rightarrow> string" where
  "resolve_entry_relative entry path = (if is_abs path then path else join [dir entry, path])"

definition resolve_runtime :: "string \<Rightarrow> runtime_manifest \<Rightarrow> catalog_error + runtime_config" where
  "resolve_runtime entry m =
     (if rm_kind m = [] \<or> rm_kind m = ''local-subprocess'' then
        if rm_command m = [] then Inl CommandMissing
        else Inr \<lparr>rc_kind = ''local-subprocess'', rc_command = rm_command m, rc_module = [], rc_args = [], rc_pages = 0\<rparr>
      else if rm_kind m = ''wasm-wasi'' then
        if rm_module m = [] then Inl ModuleMissingInManifest
        else Inr \<lparr>rc_kind = ''wasm-wasi'', rc_command = [], rc_module = resolve_entry_relative entry (rm_module m),
                  rc_args = rm_args m, rc_pages = rm_pages m\<rparr>
      else Inl (RuntimeUnsupported (rm_kind m)))"

definition fallback_runtime :: "string \<Rightarrow> runtime_config" where
  "fallback_runtime entry =
     \<lparr>rc_kind = ''local-subprocess'', rc_command = [entry], rc_module = [], rc_args = [], rc_pages = 0\<rparr>"

definition dec_protocol :: "sidecar_manifest decoder" where
  "dec_protocol = dec_struct
     [(''transport'', dec_field sd_transport (\<lambda>x s. s\<lparr>sd_transport := x\<rparr>) dec_str),
      (''game_id'', dec_field (gm_game_id \<circ> sd_meta) (\<lambda>x s. s\<lparr>sd_meta := (sd_meta s)\<lparr>gm_game_id := x\<rparr>\<rparr>) dec_str),
      (''game_version'', dec_field (gm_game_version \<circ> sd_meta) (\<lambda>x s. s\<lparr>sd_meta := (sd_meta s)\<lparr>gm_game_version := x\<rparr>\<rparr>) dec_str),
      (''ruleset_version'', dec_field (gm_ruleset \<circ> sd_meta) (\<lambda>x s. s\<lparr>sd_meta := (sd_meta s)\<lparr>gm_ruleset := x\<rparr>\<rparr>) dec_str)]"

definition dec_runtime_manifest :: "runtime_manifest decoder" where
  "dec_runtime_manifest = dec_struct
     [(''kind'', dec_field rm_kind (\<lambda>x s. s\<lparr>rm_kind := x\<rparr>) dec_str),
      (''command'', dec_field rm_command (\<lambda>x s. s\<lparr>rm_command := x\<rparr>) (dec_list dec_str [])),
      (''module'', dec_field rm_module (\<lambda>x s. s\<lparr>rm_module := x\<rparr>) dec_str),
      (''args'', dec_field rm_args (\<lambda>x s. s\<lparr>rm_args := x\<rparr>) (dec_list dec_str [])),
      (''memory_limit_pages'', dec_field rm_pages (\<lambda>x s. s\<lparr>rm_pages := x\<rparr>) dec_uint32)]"

definition dec_sidecar :: "sidecar_manifest decoder" where
  "dec_sidecar = dec_struct
     [(''ai_id'', dec_field sd_ai (\<lambda>x s. s\<lparr>sd_ai := x\<rparr>) dec_str),
      (''protocol'', dec_protocol),
      (''runtime'', dec_field sd_runtime (\<lambda>x s. s\<lparr>sd_runtime := x\<rparr>) dec_runtime_manifest)]"

definition zero_sidecar :: sidecar_manifest where
  "zero_sidecar = \<lparr>sd_ai = [], sd_transport = [], sd_meta = \<lparr>gm_game_id = [], gm_game_version = [], gm_ruleset = []\<rparr>,
     sd_runtime = \<lparr>rm_kind = [], rm_command = [], rm_module = [], rm_args = [], rm_pages = 0\<rparr>\<rparr>"

text \<open>What the file system says of a path: its content as JSON, absent, or an error.\<close>

datatype stat_outcome = Present | Absent | StatFailed string

record files =
  fl_stat :: "string \<Rightarrow> stat_outcome"
  fl_json :: "string \<Rightarrow> raw option"

record loaded_entry =
  le_runtime :: runtime_config
  le_ai :: string

definition load_entry :: "files \<Rightarrow> game_metadata \<Rightarrow> string \<Rightarrow> catalog_error + loaded_entry" where
  "load_entry fl meta entry =
     (let sidecar = entry @ ''.arena.json'' in
      case fl_stat fl sidecar of
        Present \<Rightarrow>
          (case Option.bind (fl_json fl sidecar) (\<lambda>text. unmarshal dec_sidecar text zero_sidecar) of
             None \<Rightarrow> Inl (SidecarUnreadable sidecar)
           | Some m \<Rightarrow>
               (case compatible meta (sd_meta m) of
                  Some e \<Rightarrow> Inl e
                | None \<Rightarrow>
                    if sd_transport m \<noteq> [] \<and> sd_transport m \<noteq> ''stdio-jsonrpc-ndjson''
                    then Inl (TransportUnsupported (base entry) (sd_transport m))
                    else bindR (resolve_runtime entry (sd_runtime m))
                           (\<lambda>cfg. Inr \<lparr>le_runtime = cfg, le_ai = sd_ai m\<rparr>)))
      | StatFailed e \<Rightarrow> Inl (SidecarStatFailed e)
      | Absent \<Rightarrow>
          (case validate_metadata meta of
             Some e \<Rightarrow> Inl e
           | None \<Rightarrow> Inr \<lparr>le_runtime = fallback_runtime entry, le_ai = base entry\<rparr>))"

section \<open>Descriptor records\<close>

datatype build_mode = InProcess | LocalSubprocess | FutureExternalAdapter | WasmWasi | OtherMode string

record registry_key =
  rk_game :: string
  rk_major :: int

record descriptor_record =
  dr_key :: registry_key
  dr_game :: string
  dr_version :: string
  dr_artifact :: string
  dr_args :: "string list"
  dr_pages :: int
  dr_mode :: build_mode
  dr_builder :: string
  dr_rulesets :: "string list"

datatype registry_error =
  KeyGameMissing | KeyMajorNotPositive | ModeMissing | ModeUnsupported string | RulesetsMissing | RulesetEmpty
| RecordGameMissing | RecordGameMismatch | VersionInvalid string | VersionMajorMismatch string | BuilderMissing
| DuplicateRelease string string | UnsupportedMajor int string | UnsupportedGame string
| UnsupportedArtifact string | ReadOnlyStore | NoArtifactLookup | LookupVersionInvalid string
| DuplicateBuilder string | HookMissing | UnknownBuilder string | ModeMismatch string | RulesetsMismatch string
| NotWASIRelease | RegistryFailed string  \<comment> \<open>only of stores that can fail\<close>

text \<open>\<open>errors.Is(err, ErrRecordNotFound)\<close>\<close>

definition record_not_found :: "registry_error \<Rightarrow> bool" where
  "record_not_found e = (case e of UnsupportedGame _ \<Rightarrow> True | UnsupportedArtifact _ \<Rightarrow> True | _ \<Rightarrow> False)"

definition validate_registry_key :: "registry_key \<Rightarrow> registry_error option" where
  "validate_registry_key k =
     (if rk_game k = [] then Some KeyGameMissing
      else if rk_major k \<le> 0 then Some KeyMajorNotPositive
      else None)"

definition validate_build_mode :: "build_mode \<Rightarrow> registry_error option" where
  "validate_build_mode m =
     (case m of OtherMode s \<Rightarrow> if s = [] then Some ModeMissing else Some (ModeUnsupported s) | _ \<Rightarrow> None)"

definition validate_rulesets :: "string list \<Rightarrow> registry_error option" where
  "validate_rulesets rs =
     (if rs = [] then Some RulesetsMissing
      else if list_ex (\<lambda>r. r = []) rs then Some RulesetEmpty
      else None)"

text \<open>\<open>IsValid\<close>, \<open>Major\<close> and \<open>Compare\<close> of the semver package.\<close>

record semver =
  sv_valid :: "string \<Rightarrow> bool"
  sv_major :: "string \<Rightarrow> string"
  sv_compare :: "string \<Rightarrow> string \<Rightarrow> int"

definition with_v :: "string \<Rightarrow> string" where
  "with_v version = CHR ''v'' # (if prefix ''v'' version then tl version else version)"

definition validate_descriptor_record :: "semver \<Rightarrow> descriptor_record \<Rightarrow> registry_error option" where
  "validate_descriptor_record sv r =
     (if dr_game r = [] then Some RecordGameMissing
      else case validate_registry_key (dr_key r) of Some e \<Rightarrow> Some e
      | None \<Rightarrow>
        if rk_game (dr_key r) \<noteq> dr_game r then Some RecordGameMismatch
        else if dr_version r \<noteq> [] \<and> \<not> sv_valid sv (with_v (dr_version r)) then Some (VersionInvalid (dr_version r))
        else if dr_version r \<noteq> [] \<and> sv_major sv (with_v (dr_version r)) \<noteq> CHR ''v'' # itoa (rk_major (dr_key r))
        then Some (VersionMajorMismatch (dr_version r))
        else case validate_build_mode (dr_mode r) of Some e \<Rightarrow> Some e
        | None \<Rightarrow> if dr_builder r = [] then Some BuilderMissing else validate_rulesets (dr_rulesets r))"

fun count_values :: "string list \<Rightarrow> nat gomap \<Rightarrow> nat gomap" where
  "count_values [] seen = seen"
| "count_values (v # vs) seen = count_values vs (put v (getd 0 seen v + 1) seen)"

fun uncount_values :: "string list \<Rightarrow> nat gomap \<Rightarrow> bool" where
  "uncount_values [] seen = (seen = [])"
| "uncount_values (v # vs) seen =
     (case map_of seen v of
        None \<Rightarrow> False
      | Some n \<Rightarrow> if n = 1 then uncount_values vs (AList.delete v seen)
                 else uncount_values vs (put v (n - 1) seen))"

definition same_rulesets :: "string list \<Rightarrow> string list \<Rightarrow> bool" where
  "same_rulesets a b = (length a = length b \<and> uncount_values b (count_values a []))"

section \<open>Stores\<close>

text \<open>
  The in-memory store: releases by key, in the order of registration, and an optional tier to
  fall back on.
\<close>

type_synonym releases = "(registry_key \<times> descriptor_record list) list"

datatype memory_registry = MemoryRegistry (mr_records: releases) (mr_fallback: "memory_registry option")

definition release_version :: "descriptor_record \<Rightarrow> string" where
  "release_version r = (if dr_version r = [] then ''v0.0.0'' else with_v (dr_version r))"

definition latest_release :: "semver \<Rightarrow> descriptor_record list \<Rightarrow> descriptor_record" where
  "latest_release sv rs =
     fold (\<lambda>candidate latest.
       if sv_compare sv (release_version candidate) (release_version latest) > 0 then candidate else latest)
     (tl rs) (hd rs)"

definition releases_of :: "registry_key \<Rightarrow> releases \<Rightarrow> descriptor_record list" where
  "releases_of k recs = (case map_of recs k of None \<Rightarrow> [] | Some rs \<Rightarrow> rs)"

definition register :: "semver \<Rightarrow> descriptor_record \<Rightarrow> memory_registry \<Rightarrow> registry_error option \<times> memory_registry" where
  "register sv r st =
     (case validate_descriptor_record sv r of
        Some e \<Rightarrow> (Some e, st)
      | None \<Rightarrow>
          let rs = releases_of (dr_key r) (mr_records st)
          in (case find (\<lambda>x. dr_version x = dr_version r) rs of
                Some x \<Rightarrow>
                  if dr_artifact x = dr_artifact r \<and> dr_builder x = dr_builder r then (None, st)
                  else (Some (DuplicateRelease (dr_game r) (dr_version r)), st)
              | None \<Rightarrow> (None, MemoryRegistry (AList.update (dr_key r) (rs @ [r]) (mr_records st)) (mr_fallback st))))"

fun has_game :: "string \<Rightarrow> memory_registry \<Rightarrow> bool" where
  "has_game g (MemoryRegistry recs fb) =
     (list_ex (\<lambda>x. rk_game (fst x) = g) recs \<or>
      (case fb of None \<Rightarrow> False | Some st \<Rightarrow> has_game g st))"

fun lookup_memory :: "semver \<Rightarrow> registry_key \<Rightarrow> memory_registry \<Rightarrow> registry_error + descriptor_record" where
  "lookup_memory sv k (MemoryRegistry recs fb) =
     (let miss = (if has_game (rk_game k) (MemoryRegistry recs fb) then Inl (UnsupportedMajor (rk_major k) (rk_game k))
                  else Inl (UnsupportedGame (rk_game k)))
      in case validate_registry_key k of Some e \<Rightarrow> Inl e
      | None \<Rightarrow>
          (case map_of recs k of
             Some rs \<Rightarrow> Inr (latest_release sv rs)
           | None \<Rightarrow>
               (case fb of
                  None \<Rightarrow> miss
                | Some st \<Rightarrow>
                    (case lookup_memory sv k st of
                       Inr r \<Rightarrow> Inr r
                     | Inl e \<Rightarrow> if record_not_found e then miss else Inl e))))"

text \<open>The first record in the order in which the map is visited.\<close>

definition lookup_artifact_memory :: "string \<Rightarrow> memory_registry \<Rightarrow> registry_error + descriptor_record" where
  "lookup_artifact_memory a st =
     (case find (\<lambda>r. dr_artifact r = a) (concat (map snd (mr_records st))) of
        Some r \<Rightarrow> Inr r
      | None \<Rightarrow> Inl (UnsupportedArtifact a))"

fun register_all :: "semver \<Rightarrow> descriptor_record list \<Rightarrow> memory_registry \<Rightarrow> registry_error + memory_registry" where
  "register_all sv [] st = Inr st"
| "register_all sv (r # rs) st =
     (case register sv r st of
        (Some e, _) \<Rightarrow> Inl e
      | (None, st') \<Rightarrow> register_all sv rs st')"

definition new_memory_registry :: "semver \<Rightarrow> descriptor_record list \<Rightarrow> registry_error + memory_registry" where
  "new_memory_registry sv rs = register_all sv rs (MemoryRegistry [] None)"

definition clone_memory_registry :: "semver \<Rightarrow> memory_registry \<Rightarrow> registry_error + memory_registry" where
  "clone_memory_registry sv st = new_memory_registry sv (concat (map snd (mr_records st)))"

definition new_tiered_store :: "memory_registry \<Rightarrow> memory_registry" where
  "new_tiered_store fb = MemoryRegistry [] (Some fb)"

text \<open>
  The interface \<open>RegistryStore\<close> with its two optional extensions, over a world \<open>'w\<close>; the last
  field is the older form of registration, without a context.
\<close>

record 'w registry_store =
  gs_lookup :: "registry_key \<Rightarrow> 'w \<Rightarrow> registry_error + descriptor_record"
  gs_artifact :: "(string \<Rightarrow> 'w \<Rightarrow> registry_error + descriptor_record) option"
  gs_register :: "(descriptor_record \<Rightarrow> 'w \<Rightarrow> registry_error option \<times> 'w) option"
  gs_legacy :: "(descriptor_record \<Rightarrow> 'w \<Rightarrow> registry_error option \<times> 'w) option"

definition memory_registry_store :: "semver \<Rightarrow> memory_registry registry_store" where
  "memory_registry_store sv =
     \<lparr>gs_lookup = lookup_memory sv, gs_artifact = Some lookup_artifact_memory,
      gs_register = None, gs_legacy = Some (register sv)\<rparr>"

definition external_primary :: "'w registry_store \<Rightarrow> 'w registry_store \<Rightarrow> 'w registry_store" where
  "external_primary primary fb =
     \<lparr>gs_lookup = \<lambda>k w.
        (case gs_lookup primary k w of
           Inr r \<Rightarrow> Inr r
         | Inl e \<Rightarrow> if record_not_found e then gs_lookup fb k w else Inl e),
      gs_artifact = Some (\<lambda>a w.
        (case gs_artifact primary of None \<Rightarrow> Inl NoArtifactLookup | Some lk \<Rightarrow> lk a w)),
      gs_register = Some (\<lambda>r w.
        (case gs_register primary of None \<Rightarrow> (Some ReadOnlyStore, w) | Some reg \<Rightarrow> reg r w)),
      gs_legacy = None\<rparr>"

section \<open>Resolvers\<close>

text \<open>The three build functions of a descriptor are values of type \<open>'h\<close>, absent when nil.\<close>

record 'h hooks =
  hk_session :: "'h option"
  hk_from_snapshot :: "'h option"
  hk_history :: "'h option"

record 'h descriptor_builder =
  db_mode :: build_mode
  db_rulesets :: "string list"
  db_hooks :: "'h hooks"

record 'h game_descriptor =
  gd_key :: registry_key
  gd_game :: string
  gd_version :: string
  gd_artifact :: string
  gd_builder :: string
  gd_mode :: build_mode
  gd_rulesets :: "string list"
  gd_hooks :: "'h hooks"

definition validate_descriptor_builder :: "'h descriptor_builder \<Rightarrow> registry_error option" where
  "validate_descriptor_builder b =
     (case validate_build_mode (db_mode b) of Some e \<Rightarrow> Some e
      | None \<Rightarrow>
     (case validate_rulesets (db_rulesets b) of Some e \<Rightarrow> Some e
      | None \<Rightarrow>
        if hk_session (db_hooks b) = None then Some HookMissing
        else if hk_from_snapshot (db_hooks b) = None then Some HookMissing
        else if hk_history (db_hooks b) = None then Some HookMissing
        else None))"

definition register_builder :: "string \<Rightarrow> 'h descriptor_builder \<Rightarrow> 'h descriptor_builder gomap \<Rightarrow>
    registry_error + 'h descriptor_builder gomap" where
  "register_builder bid b bs =
     (if bid = [] then Inl BuilderMissing
      else case validate_descriptor_builder b of Some e \<Rightarrow> Inl e
      | None \<Rightarrow> if map_of bs bid \<noteq> None then Inl (DuplicateBuilder bid) else Inr (put bid b bs))"

definition new_static_resolver :: "'h descriptor_builder gomap \<Rightarrow> registry_error + 'h descriptor_builder gomap" where
  "new_static_resolver bs = foldR (\<lambda>(bid, b). register_builder bid b) bs []"

definition static_resolve :: "semver \<Rightarrow> 'h descriptor_builder gomap \<Rightarrow> descriptor_record \<Rightarrow> registry_error + 'h game_descriptor" where
  "static_resolve sv bs r =
     (case validate_descriptor_record sv r of Some e \<Rightarrow> Inl e
      | None \<Rightarrow>
     (case map_of bs (dr_builder r) of None \<Rightarrow> Inl (UnknownBuilder (dr_builder r))
      | Some b \<Rightarrow>
        if db_mode b \<noteq> dr_mode r then Inl (ModeMismatch (dr_builder r))
        else if \<not> same_rulesets (db_rulesets b) (dr_rulesets r) then Inl (RulesetsMismatch (dr_builder r))
        else Inr \<lparr>gd_key = dr_key r, gd_game = dr_game r, gd_version = dr_version r, gd_artifact = dr_artifact r,
                  gd_builder = dr_builder r, gd_mode = db_mode b, gd_rulesets = db_rulesets b,
                  gd_hooks = db_hooks b\<rparr>))"

text \<open>\<open>build\<close> stands for the closures that materialise the bundle and start the sandbox.\<close>

definition wasi_resolve :: "semver \<Rightarrow> (descriptor_record \<Rightarrow> 'h hooks) \<Rightarrow> descriptor_record \<Rightarrow> registry_error + 'h game_descriptor" where
  "wasi_resolve sv build r =
     (case validate_descriptor_record sv r of Some e \<Rightarrow> Inl e
      | None \<Rightarrow>
        if dr_mode r \<noteq> WasmWasi \<or> dr_artifact r = [] \<or> dr_version r = [] then Inl NotWASIRelease
        else Inr \<lparr>gd_key = dr_key r, gd_game = dr_game r, gd_version = dr_version r, gd_artifact = dr_artifact r,
                  gd_builder = dr_builder r, gd_mode = dr_mode r, gd_rulesets = dr_rulesets r, gd_hooks = build r\<rparr>)"

definition mode_resolve :: "(descriptor_record \<Rightarrow> registry_error + 'h game_descriptor) \<Rightarrow>
    (descriptor_record \<Rightarrow> registry_error + 'h game_descriptor) \<Rightarrow> descriptor_record \<Rightarrow> registry_error + 'h game_descriptor" where
  "mode_resolve fb wasi r = (if dr_mode r = WasmWasi then wasi r else fb r)"

section \<open>The registry\<close>

record ('w, 'h) registry =
  rg_store :: "'w registry_store"
  rg_resolve :: "descriptor_record \<Rightarrow> registry_error + 'h game_descriptor"

definition registry_lookup :: "('w, 'h) registry \<Rightarrow> registry_key \<Rightarrow> 'w \<Rightarrow> registry_error + 'h game_descriptor" where
  "registry_lookup rg k w = bindR (gs_lookup (rg_store rg) k w) (rg_resolve rg)"

definition registry_register :: "('w, 'h) registry \<Rightarrow> descriptor_record \<Rightarrow> 'w \<Rightarrow> registry_error option \<times> 'w" where
  "registry_register rg r w =
     (case gs_register (rg_store rg) of
        Some reg \<Rightarrow> reg r w
      | None \<Rightarrow>
          (case gs_legacy (rg_store rg) of
             Some reg \<Rightarrow> reg r w
           | None \<Rightarrow> (Some ReadOnlyStore, w)))"

definition lookup_version :: "('w, 'h) registry \<Rightarrow> string \<Rightarrow> string \<Rightarrow> 'w \<Rightarrow> registry_error + 'h game_descriptor" where
  "lookup_version rg game version w =
     (case major_version version of
        None \<Rightarrow> Inl (LookupVersionInvalid version)
      | Some major \<Rightarrow> registry_lookup rg \<lparr>rk_game = game, rk_major = major\<rparr> w)"

definition lookup_artifact :: "('w, 'h) registry \<Rightarrow> string \<Rightarrow> 'w \<Rightarrow> registry_error + 'h game_descriptor" where
  "lookup_artifact rg a w =
     (case gs_artifact (rg_store rg) of
        None \<Rightarrow> Inl NoArtifactLookup
      | Some lk \<Rightarrow> bindR (lk a w) (rg_resolve rg))"

text \<open>The registry of the service without an external store, and the state it starts in.\<close>

definition wasi_overlay :: "semver \<Rightarrow> memory_registry \<Rightarrow> 'h descriptor_builder gomap \<Rightarrow> (descriptor_record \<Rightarrow> 'h hooks) \<Rightarrow>
    registry_error + ((memory_registry, 'h) registry \<times> memory_registry)" where
  "wasi_overlay sv builtin bs build =
     bindR (clone_memory_registry sv builtin) (\<lambda>fb.
       Inr (\<lparr>rg_store = memory_registry_store sv,
             rg_resolve = mode_resolve (static_resolve sv bs) (wasi_resolve sv build)\<rparr>, new_tiered_store fb))"

text \<open>The same with an external store in front; \<open>fb\<close> does not change.\<close>

definition fixed_store :: "semver \<Rightarrow> memory_registry \<Rightarrow> 'w registry_store" where
  "fixed_store sv fb =
     \<lparr>gs_lookup = \<lambda>k w. lookup_memory sv k fb, gs_artifact = Some (\<lambda>a w. lookup_artifact_memory a fb),
      gs_register = None, gs_legacy = None\<rparr>"

definition external_overlay :: "semver \<Rightarrow> memory_registry \<Rightarrow> 'h descriptor_builder gomap \<Rightarrow> (descriptor_record \<Rightarrow> 'h hooks) \<Rightarrow>
    'w registry_store \<Rightarrow> registry_error + ('w, 'h) registry" where
  "external_overlay sv builtin bs build primary =
     bindR (clone_memory_registry sv builtin) (\<lambda>fb.
       Inr \<lparr>rg_store = external_primary primary (fixed_store sv fb),
            rg_resolve = mode_resolve (static_resolve sv bs) (wasi_resolve sv build)\<rparr>)"

end
