(* ===== verification/Registry_Spec.thy ===== *)
theory Registry_Spec
  imports Registry
begin

text \<open>
  What the registry promises: compatibility of metadata, releases that are never replaced, the
  latest one served for a key, and descriptors that belong to the game that was asked for.
\<close>

section \<open>Compatibility\<close>

lemma validate_metadata_ok:
  "validate_metadata m = None \<longleftrightarrow>
     gm_game_id m \<noteq> [] \<and> gm_game_version m \<noteq> [] \<and> gm_ruleset m \<noteq> [] \<and> major_version (gm_game_version m) \<noteq> None"
  by (auto simp: validate_metadata_def)

text \<open>
  Compatibility is an equivalence on valid metadata: the same game and rules and the same major
  version.
\<close>

lemma compatible_iff:
  "compatible a b = None \<longleftrightarrow> validate_metadata a = None \<and> validate_metadata b = None \<and>
     gm_game_id a = gm_game_id b \<and> gm_ruleset a = gm_ruleset b \<and>
     major_version (gm_game_version a) = major_version (gm_game_version b)"
  by (auto simp: compatible_def split: option.splits)

lemma compatible_equivalence:
  "compatible a b = None \<Longrightarrow> compatible b a = None"
  "compatible a b = None \<Longrightarrow> compatible b c = None \<Longrightarrow> compatible a c = None"
  by (auto simp: compatible_iff)

section \<open>Rulesets\<close>

lemma count_values_count:
  "getd 0 (count_values vs seen) v = getd 0 seen v + count (mset vs) v"
  "fst ` set (count_values vs seen) = fst ` set seen \<union> set vs"
  "distinct (map fst seen) \<Longrightarrow> distinct (map fst (count_values vs seen))"
  by (induction vs arbitrary: seen) (auto simp: fst_put)

lemma uncount_values_iff:
  assumes "distinct (map fst seen)" "\<And>v n. map_of seen v = Some n \<Longrightarrow> 0 < n"
  shows "uncount_values vs seen \<longleftrightarrow> (\<forall>v. getd 0 seen v = count (mset vs) v)"
  using assms
proof (induction vs arbitrary: seen)
  case Nil
  show ?case
  proof
    assume zero: "\<forall>v. getd 0 seen v = count (mset []) v"
    have "map_of seen v = None" for v
    proof (cases "map_of seen v")
      case (Some n)
      with zero have "n = 0" by (auto simp: getd_def dest!: spec [of _ v])
      with Some Nil.prems(2) show ?thesis by blast
    qed
    then have "map_of seen = Map.empty" by blast
    then show "uncount_values [] seen" by simp
  qed simp
next
  case (Cons v vs)
  show ?case
  proof (cases "map_of seen v")
    case None
    then have "getd 0 seen v \<noteq> count (mset (v # vs)) v" by (simp add: getd_def)
    with None show ?thesis by auto
  next
    case (Some n)
    then have n: "0 < n" "getd 0 seen v = n" using Cons.prems(2) by (auto simp: getd_def)
    let ?seen = "if n = 1 then AList.delete v seen else put v (n - 1) seen"
    have get: "getd 0 ?seen w = (if w = v then n - 1 else getd 0 seen w)" for w
      by (auto simp: getd_def delete_conv')
    have "uncount_values (v # vs) seen = uncount_values vs ?seen" using Some by simp
    also have "\<dots> \<longleftrightarrow> (\<forall>w. getd 0 ?seen w = count (mset vs) w)"
    proof (rule Cons.IH)
      show "distinct (map fst ?seen)" using Cons.prems(1) by (auto intro: distinct_delete)
      show "0 < m" if "map_of ?seen w = Some m" for w m
        using that n Cons.prems(2) [of w m] by (auto simp: delete_conv' split: if_splits)
    qed
    also have "\<dots> \<longleftrightarrow> (\<forall>w. getd 0 seen w = count (mset (v # vs)) w)"
      unfolding get using n by (intro arg_cong [where f = All] ext) auto
    finally show ?thesis .
  qed
qed

lemma same_rulesets_perm: "same_rulesets a b \<longleftrightarrow> mset a = mset b"
proof -
  have pos: "0 < n" if "map_of (count_values a []) v = Some n" for v n
  proof -
    have "v \<in> set a"
      using that count_values_count(2) [of a "[]"] by (metis Un_empty_left empty_set image_empty list.map(1) list.set_map map_of_eq_None_iff option.distinct(1))
    then show ?thesis using count_values_count(1) [of a "[]" v] that by (simp add: getd_def)
  qed
  have "uncount_values b (count_values a []) \<longleftrightarrow> (\<forall>v. count (mset a) v = count (mset b) v)"
    by (subst uncount_values_iff) (use pos in \<open>auto simp: count_values_count\<close>)
  also have "\<dots> \<longleftrightarrow> mset a = mset b" by (auto intro: multiset_eqI)
  finally show ?thesis by (auto simp: same_rulesets_def dest: mset_eq_length)
qed

text \<open>
  C_. A builder fits a record when both list the same rulesets with the same multiplicities,
  in whatever order: counting the one list up and the other down decides equality of multisets.
\<close>

theorem same_rulesets_correct: "same_rulesets a b \<longleftrightarrow> mset a = mset b"
  by (rule same_rulesets_perm)

section \<open>The in-memory store\<close>

text \<open>Registrations, whether they succeed or not.\<close>

inductive registrations :: "semver \<Rightarrow> memory_registry \<Rightarrow> memory_registry \<Rightarrow> bool" for sv where
  registrations_refl: "registrations sv st st"
| registrations_step: "registrations sv st st' \<Longrightarrow> registrations sv st (snd (register sv r st'))"

definition registry_ok :: "semver \<Rightarrow> memory_registry \<Rightarrow> bool" where
  "registry_ok sv st \<longleftrightarrow> distinct (map fst (mr_records st)) \<and>
     (\<forall>k rs. map_of (mr_records st) k = Some rs \<longrightarrow> rs \<noteq> [] \<and> distinct (map dr_version rs) \<and>
     (\<forall>r \<in> set rs. validate_descriptor_record sv r = None \<and> dr_key r = k))"

lemma register_cases:
  obtains "snd (register sv r st) = st"
  | "fst (register sv r st) = None" "validate_descriptor_record sv r = None"
    "dr_version r \<notin> dr_version ` set (releases_of (dr_key r) (mr_records st))"
    "snd (register sv r st) = MemoryRegistry
       (AList.update (dr_key r) (releases_of (dr_key r) (mr_records st) @ [r]) (mr_records st)) (mr_fallback st)"
proof -
  let ?rs = "releases_of (dr_key r) (mr_records st)"
  show thesis
  proof (cases "validate_descriptor_record sv r = None \<and> find (\<lambda>x. dr_version x = dr_version r) ?rs = None")
    case True
    then have "register sv r st = (None, MemoryRegistry (AList.update (dr_key r) (?rs @ [r]) (mr_records st)) (mr_fallback st))"
      by (simp add: register_def Let_def)
    moreover have "dr_version r \<notin> dr_version ` set ?rs" using True by (fastforce simp: find_None_iff)
    ultimately show thesis using that(2) True by simp
  next
    case False
    then have "snd (register sv r st) = st" by (auto simp: register_def Let_def split: option.splits)
    then show thesis by (rule that(1))
  qed
qed

lemma registry_ok_register: "registry_ok sv st \<Longrightarrow> registry_ok sv (snd (register sv r st))"
  by (rule register_cases [of sv r st])
    (auto simp: registry_ok_def releases_of_def update_conv' distinct_update split: option.splits if_splits
      simp del: map_of_eq_Some_iff Some_eq_map_of_iff)

lemma registrations_ok: "registrations sv st st' \<Longrightarrow> registry_ok sv st \<Longrightarrow> registry_ok sv st'"
  by (induction rule: registrations.induct) (auto intro: registry_ok_register)

lemma registrations_keep:
  "registrations sv st st' \<Longrightarrow> mr_fallback st' = mr_fallback st \<and>
     prefix (releases_of k (mr_records st)) (releases_of k (mr_records st'))"
proof (induction rule: registrations.induct)
  case (registrations_step st st' r)
  then show ?case
    by (cases rule: register_cases [of sv r st'])
      (auto simp: releases_of_def update_conv' split: option.splits intro: prefix_order.trans)
qed simp

text \<open>A total preorder, as the specification of semantic versions defines it.\<close>

definition version_order :: "semver \<Rightarrow> bool" where
  "version_order sv \<longleftrightarrow> (\<forall>a b. sv_compare sv a b \<le> 0 \<or> sv_compare sv b a \<le> 0) \<and>
     (\<forall>a b c. sv_compare sv a b \<le> 0 \<longrightarrow> sv_compare sv b c \<le> 0 \<longrightarrow> sv_compare sv a c \<le> 0)"

lemma latest_release_greatest:
  assumes "version_order sv" "rs \<noteq> []"
  shows "latest_release sv rs \<in> set rs \<and>
    (\<forall>x \<in> set rs. sv_compare sv (release_version x) (release_version (latest_release sv rs)) \<le> 0)"
proof -
  let ?le = "\<lambda>x y. sv_compare sv (release_version x) (release_version y) \<le> 0"
  let ?f = "\<lambda>candidate latest.
       if sv_compare sv (release_version candidate) (release_version latest) > 0 then candidate else latest"
  have order: "?le x y \<or> ?le y x" "?le x y \<Longrightarrow> ?le y z \<Longrightarrow> ?le x z" for x y z
    using assms(1) by (auto simp: version_order_def)
  have "fold ?f xs h \<in> insert h (set xs) \<and> (\<forall>x \<in> insert h (set xs). ?le x (fold ?f xs h))" for xs h
  proof (induction xs arbitrary: h)
    case Nil
    then show ?case using order(1) [of h h] by simp
  next
    case (Cons y xs)
    define m where "m = ?f y h"
    define z where "z = fold ?f xs m"
    have m: "?le h m" "?le y m" "m \<in> {h, y}"
      unfolding m_def using order(1) [of h y] order(1) [of h h] order(1) [of y y] by auto
    have z: "z \<in> insert m (set xs)" "\<forall>x \<in> insert m (set xs). ?le x z"
      using Cons.IH [of m] unfolding z_def by blast+
    have "?le h z" "?le y z" using z(2) m order(2) by blast+
    then have "z \<in> insert h (set (y # xs)) \<and> (\<forall>x \<in> insert h (set (y # xs)). ?le x z)"
      using z m(3) by auto
    moreover have "fold ?f (y # xs) h = z" by (simp add: z_def m_def)
    ultimately show ?case by (simp only:) blast
  qed
  from this [of "tl rs" "hd rs"] show ?thesis using assms(2) by (cases rs) (auto simp: latest_release_def)
qed

text \<open>
  Registrations never change what was admitted before, and a lookup serves the latest: in a
  store built by registrations over a fallback, the releases of a key only grow at their end, no
  two of them have the same version, and looking the key up gives one that no other release of
  the key exceeds; only a key without releases is answered by the fallback.
\<close>

theorem registry_serves_latest:
  assumes order: "version_order sv" and reach: "registrations sv (MemoryRegistry [] fb) st"
    and key: "validate_registry_key k = None"
  defines "rs \<equiv> releases_of k (mr_records st)"
  shows "distinct (map dr_version rs) \<and>
    (registrations sv st st' \<longrightarrow> prefix rs (releases_of k (mr_records st'))) \<and>
    (rs \<noteq> [] \<longrightarrow> (\<exists>r \<in> set rs. lookup_memory sv k st = Inr r \<and>
       (\<forall>x \<in> set rs. sv_compare sv (release_version x) (release_version r) \<le> 0))) \<and>
    (rs = [] \<longrightarrow> (\<forall>r. lookup_memory sv k st = Inr r \<longleftrightarrow>
       (\<exists>st0. fb = Some st0 \<and> lookup_memory sv k st0 = Inr r)))"
proof -
  have ok: "registry_ok sv st"
    using registrations_ok [OF reach] by (simp add: registry_ok_def)
  have fb: "mr_fallback st = fb" using registrations_keep [OF reach] by simp
  obtain recs where st: "st = MemoryRegistry recs fb" using fb by (cases st) simp
  have rs: "rs = (case map_of recs k of None \<Rightarrow> [] | Some rs \<Rightarrow> rs)" by (simp add: rs_def st releases_of_def)
  have some: "rs \<noteq> [] \<longleftrightarrow> map_of recs k = Some rs"
    using ok by (auto simp: rs registry_ok_def st split: option.splits)
  have "distinct (map dr_version rs)"
    using ok some by (cases "rs = []") (auto simp: registry_ok_def st)
  moreover have "prefix rs (releases_of k (mr_records st'))" if "registrations sv st st'"
    using registrations_keep [OF that] by (simp add: rs_def)
  moreover have "\<exists>r \<in> set rs. lookup_memory sv k st = Inr r \<and>
      (\<forall>x \<in> set rs. sv_compare sv (release_version x) (release_version r) \<le> 0)" if "rs \<noteq> []"
    using latest_release_greatest [OF order that] some that key by (simp add: st)
  moreover have "lookup_memory sv k st = Inr r \<longleftrightarrow> (\<exists>st0. fb = Some st0 \<and> lookup_memory sv k st0 = Inr r)"
    if "rs = []" for r
  proof -
    have "map_of recs k = None" using that some ok by (auto simp: rs registry_ok_def st split: option.splits)
    then show ?thesis using key by (auto simp: st Let_def split: option.splits sum.splits)
  qed
  ultimately show ?thesis by blast
qed

definition text_versions :: semver where
  "text_versions = \<lparr>sv_valid = \<lambda>_. True, sv_major = \<lambda>v. takeWhile (\<lambda>c. c \<noteq> CHR ''.'') v,
     sv_compare = \<lambda>a b. if a < b then - 1 else if a = b then 0 else 1\<rparr>"

definition release :: "string \<Rightarrow> string \<Rightarrow> descriptor_record" where
  "release version artifact =
     \<lparr>dr_key = \<lparr>rk_game = ''go'', rk_major = 1\<rparr>, dr_game = ''go'', dr_version = version, dr_artifact = artifact,
      dr_args = [], dr_pages = 0, dr_mode = WasmWasi, dr_builder = ''artifact/'' @ artifact, dr_rulesets = [''r'']\<rparr>"

definition two_releases :: memory_registry where
  "two_releases = snd (register text_versions (release ''1.0.0'' ''a'')
     (snd (register text_versions (release ''1.1.0'' ''b'') (MemoryRegistry [] None))))"

lemma two_releases_reach: "registrations text_versions (MemoryRegistry [] None) two_releases"
  unfolding two_releases_def by (intro registrations.intros)

lemma text_version_order: "version_order text_versions"
  by (auto simp: version_order_def text_versions_def)

lemma two_releases_lookup:
  "releases_of \<lparr>rk_game = ''go'', rk_major = 1\<rparr> (mr_records two_releases) = [release ''1.1.0'' ''b'', release ''1.0.0'' ''a'']"
  by code_simp

theorem registry_serves_latest_witness:
  "lookup_memory text_versions \<lparr>rk_game = ''go'', rk_major = 1\<rparr> two_releases \<noteq> Inr (release ''1.0.0'' ''a'')"
proof -
  have "validate_registry_key \<lparr>rk_game = ''go'', rk_major = 1\<rparr> = None" by code_simp
  note latest = registry_serves_latest [OF text_version_order two_releases_reach this, of two_releases]
  have "\<not> sv_compare text_versions (release_version (release ''1.1.0'' ''b'')) (release_version (release ''1.0.0'' ''a'')) \<le> 0"
    by code_simp
  with latest show ?thesis unfolding two_releases_lookup by auto
qed

section \<open>The contract of a store\<close>

locale registry_tier =
  fixes store :: "'w registry_store" and sv :: semver and good :: "'w \<Rightarrow> bool"
  assumes lookup_valid: "good w \<Longrightarrow> gs_lookup store k w = Inr r \<Longrightarrow>
      validate_descriptor_record sv r = None \<and> dr_key r = k"
    and artifact_valid: "good w \<Longrightarrow> gs_artifact store = Some lk \<Longrightarrow> lk a w = Inr r \<Longrightarrow>
      validate_descriptor_record sv r = None \<and> dr_artifact r = a"
begin

lemma version_found:
  assumes "good w" "rg_store rg = store" "lookup_version rg game version w = Inr d"
  obtains r where "rg_resolve rg r = Inr d" "validate_descriptor_record sv r = None" "dr_game r = game"
    "major_version version = Some (rk_major (dr_key r))"
    "dr_version r \<noteq> [] \<Longrightarrow> sv_valid sv (with_v (dr_version r)) \<and>
       sv_major sv (with_v (dr_version r)) = CHR ''v'' # itoa (rk_major (dr_key r))"
proof -
  obtain major r where r: "major_version version = Some major" "rg_resolve rg r = Inr d"
    "gs_lookup store \<lparr>rk_game = game, rk_major = major\<rparr> w = Inr r"
    using assms(2,3) by (auto simp: lookup_version_def registry_lookup_def bindR_eq_Inr split: option.splits)
  from lookup_valid [OF assms(1) r(3)]
  have valid: "validate_descriptor_record sv r = None" and key: "dr_key r = \<lparr>rk_game = game, rk_major = major\<rparr>" by auto
  from valid have "dr_game r = rk_game (dr_key r)"
    "dr_version r \<noteq> [] \<Longrightarrow> sv_valid sv (with_v (dr_version r)) \<and>
       sv_major sv (with_v (dr_version r)) = CHR ''v'' # itoa (rk_major (dr_key r))"
    by (auto simp: validate_descriptor_record_def split: option.splits if_splits)
  with r key valid show thesis by (intro that [of r]) simp_all
qed

lemma artifact_found:
  assumes "good w" "rg_store rg = store" "lookup_artifact rg a w = Inr d"
  obtains r where "rg_resolve rg r = Inr d" "validate_descriptor_record sv r = None" "dr_artifact r = a"
  using assms(2,3) artifact_valid [OF assms(1)]
  by (auto simp: lookup_artifact_def bindR_eq_Inr split: option.splits)

end

fun tiers_ok :: "semver \<Rightarrow> memory_registry \<Rightarrow> bool" where
  "tiers_ok sv (MemoryRegistry recs fb) \<longleftrightarrow> registry_ok sv (MemoryRegistry recs None) \<and>
     (case fb of None \<Rightarrow> True | Some st \<Rightarrow> tiers_ok sv st)"

lemma latest_release_mem: "rs \<noteq> [] \<Longrightarrow> latest_release sv rs \<in> set rs"
proof -
  have "fold (\<lambda>c l. if sv_compare sv (release_version c) (release_version l) > 0 then c else l) xs h \<in> insert h (set xs)" for xs h
    by (induction xs arbitrary: h) auto
  from this [of "tl rs" "hd rs"] show "rs \<noteq> [] \<Longrightarrow> latest_release sv rs \<in> set rs"
    by (cases rs) (auto simp: latest_release_def)
qed

lemma lookup_memory_valid:
  "tiers_ok sv st \<Longrightarrow> lookup_memory sv k st = Inr r \<Longrightarrow> validate_descriptor_record sv r = None \<and> dr_key r = k"
proof (induction sv k st rule: lookup_memory.induct)
  case (1 sv k recs fb)
  show ?case
  proof (cases "map_of recs k")
    case None
    with 1 show ?thesis by (auto simp: Let_def split: option.splits sum.splits if_splits)
  next
    case (Some rs)
    with "1.prems" have "rs \<noteq> []" "\<forall>r \<in> set rs. validate_descriptor_record sv r = None \<and> dr_key r = k"
      by (auto simp: registry_ok_def)
    moreover have "r = latest_release sv rs" using Some "1.prems"(2) by (auto simp: Let_def split: option.splits)
    ultimately show ?thesis using latest_release_mem [of rs sv] by simp
  qed
qed

lemma lookup_artifact_memory_valid:
  assumes "registry_ok sv st" "lookup_artifact_memory a st = Inr r"
  shows "validate_descriptor_record sv r = None \<and> dr_artifact r = a"
proof -
  have "find (\<lambda>r. dr_artifact r = a) (concat (map snd (mr_records st))) = Some r"
    using assms(2) by (simp add: lookup_artifact_memory_def split: option.splits)
  then have "r \<in> set (concat (map snd (mr_records st)))" and a: "dr_artifact r = a"
    by (auto simp: find_Some_iff simp del: set_concat)
  then obtain k rs where "(k, rs) \<in> set (mr_records st)" "r \<in> set rs" by auto
  with assms(1) have "map_of (mr_records st) k = Some rs" "r \<in> set rs"
    by (auto simp: registry_ok_def map_of_eq_Some_iff)
  with assms(1) a show ?thesis unfolding registry_ok_def by blast
qed

lemma tiers_ok_alt: "tiers_ok sv st \<longleftrightarrow> registry_ok sv st \<and> (case mr_fallback st of None \<Rightarrow> True | Some fb \<Rightarrow> tiers_ok sv fb)"
  by (cases st) (simp add: registry_ok_def)

lemma tiers_ok_registrations: "registrations sv st st' \<Longrightarrow> tiers_ok sv st \<Longrightarrow> tiers_ok sv st'"
  using registrations_ok registrations_keep by (simp add: tiers_ok_alt)

interpretation memory_tier: registry_tier "memory_registry_store sv" sv "tiers_ok sv" for sv
proof
  show "validate_descriptor_record sv r = None \<and> dr_key r = k"
    if "tiers_ok sv w" "gs_lookup (memory_registry_store sv) k w = Inr r" for w k r
    using that lookup_memory_valid by (simp add: memory_registry_store_def)
  show "validate_descriptor_record sv r = None \<and> dr_artifact r = a"
    if "tiers_ok sv w" "gs_artifact (memory_registry_store sv) = Some lk" "lk a w = Inr r" for w lk a r
    using that lookup_artifact_memory_valid by (auto simp: memory_registry_store_def tiers_ok_alt)
qed

text \<open>An external store in front of a fixed one keeps the contract.\<close>

locale external_tier = primary: registry_tier primary sv good
  for primary :: "'w registry_store" and sv good +
  fixes fb :: memory_registry
  assumes fallback_ok: "tiers_ok sv fb"

sublocale external_tier \<subseteq> overlay: registry_tier "external_primary primary (fixed_store sv fb)" sv good
proof
  show "validate_descriptor_record sv r = None \<and> dr_key r = k"
    if "good w" "gs_lookup (external_primary primary (fixed_store sv fb)) k w = Inr r" for w k r
    using that primary.lookup_valid [OF that(1)] lookup_memory_valid [OF fallback_ok]
    by (auto simp: external_primary_def fixed_store_def split: sum.splits if_splits)
  show "validate_descriptor_record sv r = None \<and> dr_artifact r = a"
    if "good w" "gs_artifact (external_primary primary (fixed_store sv fb)) = Some lk" "lk a w = Inr r" for w lk a r
    using that primary.artifact_valid [OF that(1)]
    by (auto simp: external_primary_def split: option.splits)
qed

text \<open>An in-memory store as the external one, in front of an empty fallback.\<close>

interpretation memory_overlay: external_tier "memory_registry_store sv" sv "tiers_ok sv" "MemoryRegistry [] None" for sv
  by unfold_locales (simp add: registry_ok_def)

section \<open>Descriptors of the service\<close>

lemma registrations_trans: "registrations sv st1 st2 \<Longrightarrow> registrations sv st0 st1 \<Longrightarrow> registrations sv st0 st2"
  by (induction rule: registrations.induct) (auto intro: registrations.intros)

lemma register_all_registrations: "register_all sv rs st = Inr st' \<Longrightarrow> registrations sv st st'"
proof (induction sv rs st rule: register_all.induct)
  case (2 sv r rs st)
  then have "registrations sv (snd (register sv r st)) st'" by (auto split: prod.splits option.splits)
  moreover have "registrations sv st (snd (register sv r st))" by (intro registrations.intros)
  ultimately show ?case by (rule registrations_trans)
qed (auto intro: registrations.intros)

lemma clone_ok: "clone_memory_registry sv st = Inr st' \<Longrightarrow> tiers_ok sv st'"
  using tiers_ok_registrations [OF register_all_registrations]
  by (simp add: clone_memory_registry_def new_memory_registry_def registry_ok_def)

lemma static_resolved:
  "static_resolve sv bs r = Inr d \<Longrightarrow> gd_key d = dr_key r \<and> gd_game d = dr_game r \<and> gd_version d = dr_version r \<and>
     gd_artifact d = dr_artifact r \<and> gd_builder d = dr_builder r \<and> gd_mode d = dr_mode r \<and>
     mset (gd_rulesets d) = mset (dr_rulesets r) \<and>
     (\<exists>b. map_of bs (dr_builder r) = Some b \<and> gd_hooks d = db_hooks b)"
  by (auto simp: static_resolve_def same_rulesets_perm split: option.splits if_splits)

lemma wasi_resolved:
  "wasi_resolve sv build r = Inr d \<Longrightarrow> gd_key d = dr_key r \<and> gd_game d = dr_game r \<and> gd_version d = dr_version r \<and>
     gd_artifact d = dr_artifact r \<and> gd_builder d = dr_builder r \<and> gd_mode d = dr_mode r \<and>
     gd_rulesets d = dr_rulesets r \<and> gd_hooks d = build r \<and> dr_artifact r \<noteq> [] \<and> dr_version r \<noteq> []"
  by (auto simp: wasi_resolve_def split: option.splits if_splits)

lemma mode_resolved:
  assumes "mode_resolve (static_resolve sv bs) (wasi_resolve sv build) r = Inr d"
  shows "gd_key d = dr_key r \<and> gd_game d = dr_game r \<and> gd_version d = dr_version r \<and> gd_artifact d = dr_artifact r \<and>
    gd_builder d = dr_builder r \<and> mset (gd_rulesets d) = mset (dr_rulesets r) \<and>
    (if gd_mode d = WasmWasi then gd_hooks d = build r \<and> gd_artifact d \<noteq> [] \<and> gd_version d \<noteq> []
     else \<exists>b. map_of bs (gd_builder d) = Some b \<and> gd_hooks d = db_hooks b)"
  using assms static_resolved [of sv bs r d] wasi_resolved [of sv build r d]
  by (auto simp: mode_resolve_def split: if_splits)

text \<open>
  A lookup serves what was asked for: whatever was registered with the service before, a
  descriptor found for a game and a version belongs to this game and has the major version that
  was asked for, also in its own version where it has one; a sandboxed game is built from the
  artifact it names, any other by the builder it names.
\<close>

theorem lookup_version_serves_request:
  assumes overlay: "wasi_overlay sv builtin bs build = Inr (rg, st0)" and reach: "registrations sv st0 st"
    and found: "lookup_version rg game version st = Inr d"
  shows "gd_game d = game \<and>
    (\<exists>major. major_version version = Some major \<and> rk_major (gd_key d) = major \<and>
       (gd_version d \<noteq> [] \<longrightarrow> sv_valid sv (with_v (gd_version d)) \<and> sv_major sv (with_v (gd_version d)) = CHR ''v'' # itoa major)) \<and>
    (if gd_mode d = WasmWasi then \<exists>r. gd_hooks d = build r \<and> dr_artifact r = gd_artifact d \<and> gd_artifact d \<noteq> []
     else \<exists>b. map_of bs (gd_builder d) = Some b \<and> gd_hooks d = db_hooks b)"
proof -
  obtain fb where fb: "clone_memory_registry sv builtin = Inr fb" "st0 = new_tiered_store fb"
    and rg: "rg_store rg = memory_registry_store sv" "rg_resolve rg = mode_resolve (static_resolve sv bs) (wasi_resolve sv build)"
    using overlay by (auto simp: wasi_overlay_def bindR_eq_Inr)
  have "tiers_ok sv st0" using clone_ok [OF fb(1)] by (simp add: fb(2) new_tiered_store_def registry_ok_def)
  then have "tiers_ok sv st" by (rule tiers_ok_registrations [OF reach])
  from memory_tier.version_found [OF this rg(1) found] obtain r where
    r: "rg_resolve rg r = Inr d" "dr_game r = game" "major_version version = Some (rk_major (dr_key r))"
    "dr_version r \<noteq> [] \<Longrightarrow> sv_valid sv (with_v (dr_version r)) \<and>
       sv_major sv (with_v (dr_version r)) = CHR ''v'' # itoa (rk_major (dr_key r))"
    by blast
  from r(1) have "mode_resolve (static_resolve sv bs) (wasi_resolve sv build) r = Inr d" by (simp add: rg(2))
  note d = mode_resolved [OF this]
  have "\<exists>r. gd_hooks d = build r \<and> dr_artifact r = gd_artifact d \<and> gd_artifact d \<noteq> []" if "gd_mode d = WasmWasi"
    using d that by auto
  moreover have "\<exists>b. map_of bs (gd_builder d) = Some b \<and> gd_hooks d = db_hooks b" if "gd_mode d \<noteq> WasmWasi"
    using d that by (auto simp only: if_False)
  ultimately show ?thesis using d r by auto
qed

definition sample_overlay :: "((memory_registry, unit) registry \<times> memory_registry) option" where
  "sample_overlay =
     (case wasi_overlay text_versions (MemoryRegistry [] None) [] (\<lambda>_. \<lparr>hk_session = None, hk_from_snapshot = None, hk_history = None\<rparr>) of
        Inl _ \<Rightarrow> None | Inr x \<Rightarrow> Some x)"

lemma sample_overlay_found:
  "(case sample_overlay of None \<Rightarrow> False
    | Some (rg, st0) \<Rightarrow>
        (case lookup_version rg ''go'' ''1.7'' (snd (register text_versions (release ''1.0.0'' ''a'') st0)) of
           Inl _ \<Rightarrow> False | Inr d \<Rightarrow> gd_mode d = WasmWasi))"
  by code_simp

theorem lookup_version_serves_request_witness:
  "\<exists>rg st d. lookup_version (rg :: (memory_registry, unit) registry) ''go'' ''1.7'' st = Inr d \<and> gd_game d = ''go'' \<and> gd_artifact d \<noteq> []"
proof -
  let ?build = "\<lambda>_ :: descriptor_record. \<lparr>hk_session = None, hk_from_snapshot = None, hk_history = None\<rparr> :: unit hooks"
  obtain rg st0 where s: "sample_overlay = Some (rg, st0)"
    using sample_overlay_found by (cases sample_overlay) auto
  then have o: "wasi_overlay text_versions (MemoryRegistry [] None) [] ?build = Inr (rg, st0)"
    by (simp add: sample_overlay_def split: sum.splits)
  obtain d where d: "lookup_version rg ''go'' ''1.7'' (snd (register text_versions (release ''1.0.0'' ''a'') st0)) = Inr d"
      "gd_mode d = WasmWasi"
    using sample_overlay_found unfolding s by (auto split: sum.splits)
  have "registrations text_versions st0 (snd (register text_versions (release ''1.0.0'' ''a'') st0))"
    by (intro registrations.intros)
  from lookup_version_serves_request [OF o this d(1)] d show ?thesis by auto
qed

end
