(* ===== verification/Registry_Defaults.thy ===== *)
theory Registry_Defaults
  imports Registry_Spec Janken Echo
begin

text \<open>
  The built-in games of \<open>internal/platform/registry/defaults.go\<close>: their records, the builders of
  their sessions, and that the default registry is complete. A subprocess is described by the
  configuration it is started with.
\<close>

section \<open>Builders\<close>

record build_spec =
  bp_version :: string
  bp_ruleset :: string
  bp_seed :: string
  bp_players :: "player list"

record subprocess_config =
  sc_meta :: game_metadata
  sc_command :: "string list"
  sc_players :: "player list"
  sc_seed :: string
  sc_resume :: "snapshot option"
  sc_stderr :: int

datatype hosted = EchoHosted Echo.master | JankenHosted Janken.master | ProcessHosted subprocess_config

datatype build_error = EchoFailed Echo.error | JankenFailed Janken.error

datatype build_hook =
  FromSpec "build_spec \<Rightarrow> build_error + hosted"
| FromSnapshot "build_spec \<Rightarrow> snapshot \<Rightarrow> build_error + hosted"
| FromHistory "build_spec \<Rightarrow> event list \<Rightarrow> int \<Rightarrow> build_error + snapshot"

definition build_echo :: "build_spec \<Rightarrow> snapshot option \<Rightarrow> build_error + hosted" where
  "build_echo spec snap =
     (let cfg = \<lparr>ec_game_id = [], ec_game_version = bp_version spec, ec_ruleset = bp_ruleset spec,
                 ec_rng_seed = bp_seed spec, ec_players = bp_players spec\<rparr>
      in map_sum EchoFailed EchoHosted
           (case snap of None \<Rightarrow> Echo.new_master cfg | Some sn \<Rightarrow> Echo.new_from_snapshot cfg sn))"

definition build_echo_subprocess :: "build_spec \<Rightarrow> snapshot option \<Rightarrow> build_error + hosted" where
  "build_echo_subprocess spec snap =
     (case Echo.selection_for Echo.SubprocessGameID (bp_version spec) (bp_ruleset spec) of
        Inl e \<Rightarrow> Inl (EchoFailed e)
      | Inr sel \<Rightarrow> Inr (ProcessHosted
          \<lparr>sc_meta = sl_meta sel,
           sc_command = [''go'', ''run'', ''./cmd/echo-count-gamemaster'', ''--game-id'', Echo.SubprocessGameID,
             ''--game-version'', bp_version spec, ''--ruleset'', bp_ruleset spec],
           sc_players = bp_players spec, sc_seed = bp_seed spec, sc_resume = snap, sc_stderr = 4096\<rparr>))"

definition build_janken :: "build_spec \<Rightarrow> snapshot option \<Rightarrow> build_error + hosted" where
  "build_janken spec snap =
     (let cfg = \<lparr>cf_game_version = bp_version spec, cf_ruleset = bp_ruleset spec, cf_players = bp_players spec\<rparr>
      in map_sum JankenFailed JankenHosted
           (case snap of None \<Rightarrow> Janken.new_master cfg | Some sn \<Rightarrow> Janken.new_from_snapshot cfg sn))"

section \<open>The default registry\<close>

definition echo_builder :: string where "echo_builder = ''echo-count/in-process''"
definition echo_subprocess_builder :: string where "echo_subprocess_builder = ''echo-count-subprocess/local-subprocess''"
definition janken_builder :: string where "janken_builder = ''janken/in-process''"

definition janken_rulesets :: "string list" where
  "janken_rulesets = [Janken.RulesetRegular]"

definition builtin_record :: "string \<Rightarrow> build_mode \<Rightarrow> string \<Rightarrow> string list \<Rightarrow> descriptor_record" where
  "builtin_record game mode builder rulesets =
     \<lparr>dr_key = \<lparr>rk_game = game, rk_major = 2\<rparr>, dr_game = game, dr_version = [], dr_artifact = [], dr_args = [],
      dr_pages = 0, dr_mode = mode, dr_builder = builder, dr_rulesets = rulesets\<rparr>"

definition builtin_records :: "descriptor_record list" where
  "builtin_records =
     [builtin_record Echo.GameID InProcess echo_builder Echo.supported_rulesets,
      builtin_record Echo.SubprocessGameID LocalSubprocess echo_subprocess_builder Echo.supported_rulesets,
      builtin_record Janken.GameID InProcess janken_builder janken_rulesets]"

definition builtin_builders :: "build_hook descriptor_builder gomap" where
  "builtin_builders =
     [(echo_builder,
       \<lparr>db_mode = InProcess, db_rulesets = Echo.supported_rulesets,
        db_hooks = \<lparr>hk_session = Some (FromSpec (\<lambda>spec. build_echo spec None)),
          hk_from_snapshot = Some (FromSnapshot (\<lambda>spec sn. build_echo spec (Some sn))),
          hk_history = Some (FromHistory (\<lambda>spec events target. map_sum EchoFailed id
            (Echo.snapshot_from_history Echo.GameID (bp_version spec) (bp_ruleset spec) (bp_seed spec)
               (bp_players spec) events target)))\<rparr>\<rparr>),
      (echo_subprocess_builder,
       \<lparr>db_mode = LocalSubprocess, db_rulesets = Echo.supported_rulesets,
        db_hooks = \<lparr>hk_session = Some (FromSpec (\<lambda>spec. build_echo_subprocess spec None)),
          hk_from_snapshot = Some (FromSnapshot (\<lambda>spec sn. build_echo_subprocess spec (Some sn))),
          hk_history = Some (FromHistory (\<lambda>spec events target. map_sum EchoFailed id
            (Echo.snapshot_from_history Echo.SubprocessGameID (bp_version spec) (bp_ruleset spec) (bp_seed spec)
               (bp_players spec) events target)))\<rparr>\<rparr>),
      (janken_builder,
       \<lparr>db_mode = InProcess, db_rulesets = janken_rulesets,
        db_hooks = \<lparr>hk_session = Some (FromSpec (\<lambda>spec. build_janken spec None)),
          hk_from_snapshot = Some (FromSnapshot (\<lambda>spec sn. build_janken spec (Some sn))),
          hk_history = Some (FromHistory (\<lambda>spec events target. map_sum JankenFailed id
            (Janken.snapshot_from_history (bp_version spec) (bp_ruleset spec) (bp_players spec) events target)))\<rparr>\<rparr>)]"

text \<open>\<open>mustDefaultRegistry\<close>: an error is a panic.\<close>

definition default_registry :: "semver \<Rightarrow> registry_error + (memory_registry, build_hook) registry \<times> memory_registry" where
  "default_registry sv =
     bindR (new_memory_registry sv builtin_records) (\<lambda>st.
     bindR (new_static_resolver builtin_builders) (\<lambda>bs.
       Inr (\<lparr>rg_store = memory_registry_store sv, rg_resolve = static_resolve sv bs\<rparr>, st)))"

section \<open>Completeness\<close>

lemma default_store:
  "new_memory_registry sv builtin_records = Inr (MemoryRegistry (map (\<lambda>r. (dr_key r, [r])) builtin_records) None)"
  by (simp add: new_memory_registry_def builtin_records_def builtin_record_def register_def Let_def releases_of_def
      validate_descriptor_record_def validate_registry_key_def validate_build_mode_def validate_rulesets_def
      Echo.GameID_def Echo.SubprocessGameID_def Janken.GameID_def echo_builder_def echo_subprocess_builder_def
      janken_builder_def Echo.supported_rulesets_def janken_rulesets_def Janken.RulesetRegular_def
      Echo.RulesetSimultaneous3Turn_def Echo.RulesetSequential3Turn_def Echo.RulesetSimultaneous2Turn_def
      Echo.RulesetSimultaneousShuffle3Turn_def)

lemma default_resolver: "new_static_resolver builtin_builders = Inr builtin_builders"
  by (simp add: new_static_resolver_def builtin_builders_def register_builder_def validate_descriptor_builder_def
      validate_build_mode_def validate_rulesets_def echo_builder_def echo_subprocess_builder_def janken_builder_def
      Echo.supported_rulesets_def janken_rulesets_def Janken.RulesetRegular_def
      Echo.RulesetSimultaneous3Turn_def Echo.RulesetSequential3Turn_def Echo.RulesetSimultaneous2Turn_def
      Echo.RulesetSimultaneousShuffle3Turn_def)

lemma builtin_record_sel [simp]:
  "dr_key (builtin_record g m b rs) = \<lparr>rk_game = g, rk_major = 2\<rparr>" "dr_game (builtin_record g m b rs) = g"
  "dr_version (builtin_record g m b rs) = []" "dr_builder (builtin_record g m b rs) = b"
  "dr_mode (builtin_record g m b rs) = m" "dr_rulesets (builtin_record g m b rs) = rs"
  by (simp_all add: builtin_record_def)

lemma game_ids: "distinct [Echo.GameID, Echo.SubprocessGameID, Janken.GameID]"
  by (simp add: Echo.GameID_def Echo.SubprocessGameID_def Janken.GameID_def)

lemma game_ids_neq [simp]:
  "Echo.GameID \<noteq> Echo.SubprocessGameID" "Echo.SubprocessGameID \<noteq> Echo.GameID" "Echo.GameID \<noteq> Janken.GameID"
  "Janken.GameID \<noteq> Echo.GameID" "Echo.SubprocessGameID \<noteq> Janken.GameID" "Janken.GameID \<noteq> Echo.SubprocessGameID"
  using game_ids by auto

lemma builder_ids_neq [simp]:
  "echo_builder \<noteq> echo_subprocess_builder" "echo_builder \<noteq> janken_builder" "echo_subprocess_builder \<noteq> janken_builder"
  "echo_subprocess_builder \<noteq> echo_builder" "janken_builder \<noteq> echo_builder" "janken_builder \<noteq> echo_subprocess_builder"
  by (simp_all add: echo_builder_def echo_subprocess_builder_def janken_builder_def)

lemma builtin_key:
  assumes "r \<in> set builtin_records"
  shows "map_of (map (\<lambda>r. (dr_key r, [r])) builtin_records) (dr_key r) = Some [r]"
proof -
  have keys: "distinct (map dr_key builtin_records)" by (simp add: builtin_records_def)
  have "map_of (map (\<lambda>r. (dr_key r, [r])) rs) (dr_key r) = Some [r]" if "r \<in> set rs" "distinct (map dr_key rs)" for rs
    using that by (induction rs) (auto simp: rev_image_eqI)
  from this [OF assms keys] show ?thesis .
qed

lemma default_store_ok: "registry_ok sv (MemoryRegistry (map (\<lambda>r. (dr_key r, [r])) builtin_records) None)"
proof -
  have "registry_ok sv (MemoryRegistry [] None)" by (simp add: registry_ok_def)
  then show ?thesis
    by (rule registrations_ok [OF register_all_registrations [OF default_store [unfolded new_memory_registry_def]]])
qed

lemma builtin_valid:
  assumes "r \<in> set builtin_records"
  shows "validate_descriptor_record sv r = None"
proof -
  from builtin_key [OF assms] default_store_ok [of sv]
  have "\<forall>x \<in> set [r]. validate_descriptor_record sv x = None"
    unfolding registry_ok_def memory_registry.sel by blast
  then show ?thesis by simp
qed

lemma default_lookup:
  assumes "r \<in> set builtin_records" "major_version version = Some 2"
    "rg_store rg = memory_registry_store sv" "rg_resolve rg = static_resolve sv builtin_builders"
  shows "lookup_version rg (dr_game r) version (MemoryRegistry (map (\<lambda>r. (dr_key r, [r])) builtin_records) None) =
    static_resolve sv builtin_builders r"
proof -
  have key: "\<lparr>rk_game = dr_game r, rk_major = 2\<rparr> = dr_key r" using assms(1) by (auto simp: builtin_records_def)
  have "validate_registry_key (dr_key r) = None"
    using builtin_valid [OF assms(1), of sv] by (auto simp: validate_descriptor_record_def split: option.splits if_splits)
  then have "lookup_memory sv (dr_key r) (MemoryRegistry (map (\<lambda>r. (dr_key r, [r])) builtin_records) None) = Inr r"
    using builtin_key [OF assms(1)] by (simp add: latest_release_def)
  then show ?thesis
    using assms(2-4) by (simp add: lookup_version_def registry_lookup_def memory_registry_store_def key)
qed

lemma builtin_resolved:
  assumes "r \<in> set builtin_records"
  shows "\<exists>b d. map_of builtin_builders (dr_builder r) = Some b \<and> static_resolve sv builtin_builders r = Inr d \<and>
    gd_hooks d = db_hooks b \<and> gd_rulesets d = dr_rulesets r \<and> gd_mode d = dr_mode r"
proof -
  obtain b where b: "map_of builtin_builders (dr_builder r) = Some b" "db_mode b = dr_mode r" "db_rulesets b = dr_rulesets r"
    using assms by (auto simp: builtin_records_def builtin_builders_def)
  then show ?thesis using builtin_valid [OF assms] by (simp add: static_resolve_def same_rulesets_perm)
qed

text \<open>What a session hosts.\<close>

fun hosted_meta :: "hosted \<Rightarrow> game_metadata" where
  "hosted_meta (EchoHosted m) = em_meta m"
| "hosted_meta (JankenHosted m) = jk_meta m"
| "hosted_meta (ProcessHosted cfg) = sc_meta cfg"

definition release_of :: "string \<Rightarrow> string" where
  "release_of game = (if game = Janken.GameID then Janken.GameVersion else Echo.GameVersion)"

lemma built_echo:
  assumes "bp_ruleset spec \<in> set Echo.supported_rulesets" "bp_players spec \<noteq> []" "bp_seed spec \<noteq> []"
  shows "if bp_version spec = Echo.GameVersion
    then \<exists>m. build_echo spec None = Inr (EchoHosted m) \<and>
      em_meta m = \<lparr>gm_game_id = Echo.GameID, gm_game_version = bp_version spec, gm_ruleset = bp_ruleset spec\<rparr>
    else \<exists>e. build_echo spec None = Inl e"
  using assms
  by (auto simp: build_echo_def Echo.new_master_def Echo.selection_for_def Echo.supported_rulesets_def Let_def
      Echo.GameVersion_def)

lemma built_echo_subprocess:
  assumes "bp_ruleset spec \<in> set Echo.supported_rulesets"
  shows "if bp_version spec = Echo.GameVersion
    then \<exists>c. build_echo_subprocess spec None = Inr (ProcessHosted c) \<and>
      sc_meta c = \<lparr>gm_game_id = Echo.SubprocessGameID, gm_game_version = bp_version spec, gm_ruleset = bp_ruleset spec\<rparr>
    else \<exists>e. build_echo_subprocess spec None = Inl e"
  using assms
  by (auto simp: build_echo_subprocess_def Echo.selection_for_def Echo.supported_rulesets_def Let_def
      Echo.GameVersion_def Echo.SubprocessGameID_def)

lemma built_janken:
  assumes "bp_ruleset spec \<in> set janken_rulesets" "2 \<le> length (bp_players spec)"
  shows "if bp_version spec = Janken.GameVersion
    then \<exists>m. build_janken spec None = Inr (JankenHosted m) \<and>
      jk_meta m = \<lparr>gm_game_id = Janken.GameID, gm_game_version = bp_version spec, gm_ruleset = bp_ruleset spec\<rparr>
    else \<exists>e. build_janken spec None = Inl e"
  using assms
  by (auto simp: build_janken_def Janken.new_master_def Janken.metadata_for_selection_def janken_rulesets_def Let_def
      Janken.GameVersion_def)

text \<open>
  The default registry is complete: its construction does not panic, every built-in game is
  found under every version with the major version 2 together with its rulesets, and the session
  it builds for a ruleset and enough players hosts exactly the game, version and rules that were
  asked for. Only the one version that a game implements can be built, though: the lookup admits
  other versions of the same major, which then fail.
\<close>

theorem default_registry_complete:
  "\<exists>rg st. default_registry sv = Inr (rg, st) \<and>
     (\<forall>r \<in> set builtin_records. \<forall>version. major_version version = Some 2 \<longrightarrow>
       (\<exists>d f. lookup_version rg (dr_game r) version st = Inr d \<and> gd_rulesets d = dr_rulesets r \<and>
          hk_session (gd_hooks d) = Some (FromSpec f) \<and>
          (\<forall>spec. bp_version spec = version \<longrightarrow> bp_ruleset spec \<in> set (dr_rulesets r) \<longrightarrow>
             2 \<le> length (bp_players spec) \<longrightarrow> bp_seed spec \<noteq> [] \<longrightarrow>
             (if version = release_of (dr_game r)
              then \<exists>h. f spec = Inr h \<and> hosted_meta h =
                \<lparr>gm_game_id = dr_game r, gm_game_version = version, gm_ruleset = bp_ruleset spec\<rparr>
              else \<exists>e. f spec = Inl e))))"
proof -
  let ?rg = "\<lparr>rg_store = memory_registry_store sv, rg_resolve = static_resolve sv builtin_builders\<rparr>"
  let ?st = "MemoryRegistry (map (\<lambda>r. (dr_key r, [r])) builtin_records) None"
  have "default_registry sv = Inr (?rg, ?st)"
    by (simp add: default_registry_def default_store default_resolver)
  moreover have "\<exists>d f. lookup_version ?rg (dr_game r) version ?st = Inr d \<and> gd_rulesets d = dr_rulesets r \<and>
      hk_session (gd_hooks d) = Some (FromSpec f) \<and>
      (\<forall>spec. bp_version spec = version \<longrightarrow> bp_ruleset spec \<in> set (dr_rulesets r) \<longrightarrow>
         2 \<le> length (bp_players spec) \<longrightarrow> bp_seed spec \<noteq> [] \<longrightarrow>
         (if version = release_of (dr_game r)
          then \<exists>h. f spec = Inr h \<and> hosted_meta h =
            \<lparr>gm_game_id = dr_game r, gm_game_version = version, gm_ruleset = bp_ruleset spec\<rparr>
          else \<exists>e. f spec = Inl e))"
    if r: "r \<in> set builtin_records" and version: "major_version version = Some 2" for r version
  proof -
    obtain b d where b: "map_of builtin_builders (dr_builder r) = Some b" and d: "static_resolve sv builtin_builders r = Inr d"
      "gd_hooks d = db_hooks b" "gd_rulesets d = dr_rulesets r"
      using builtin_resolved [OF r, of sv] by blast
    have "lookup_version ?rg (dr_game r) version ?st = Inr d"
      using default_lookup [OF r version, of ?rg sv] d(1) by simp
    moreover consider "dr_game r = Echo.GameID" "dr_rulesets r = Echo.supported_rulesets"
        "hk_session (db_hooks b) = Some (FromSpec (\<lambda>spec. build_echo spec None))"
      | "dr_game r = Echo.SubprocessGameID" "dr_rulesets r = Echo.supported_rulesets"
        "hk_session (db_hooks b) = Some (FromSpec (\<lambda>spec. build_echo_subprocess spec None))"
      | "dr_game r = Janken.GameID" "dr_rulesets r = janken_rulesets"
        "hk_session (db_hooks b) = Some (FromSpec (\<lambda>spec. build_janken spec None))"
      using r b by (auto simp: builtin_records_def builtin_builders_def)
    then have "\<exists>f. hk_session (db_hooks b) = Some (FromSpec f) \<and>
      (\<forall>spec. bp_version spec = version \<longrightarrow> bp_ruleset spec \<in> set (dr_rulesets r) \<longrightarrow>
         2 \<le> length (bp_players spec) \<longrightarrow> bp_seed spec \<noteq> [] \<longrightarrow>
         (if version = release_of (dr_game r)
          then \<exists>h. f spec = Inr h \<and> hosted_meta h =
            \<lparr>gm_game_id = dr_game r, gm_game_version = version, gm_ruleset = bp_ruleset spec\<rparr>
          else \<exists>e. f spec = Inl e))"
    proof cases
      case 1
      then show ?thesis using built_echo by (fastforce simp: release_of_def)
    next
      case 2
      then show ?thesis using built_echo_subprocess by (fastforce simp: release_of_def)
    next
      case 3
      then show ?thesis using built_janken by (fastforce simp: release_of_def)
    qed
    ultimately show ?thesis using d by auto
  qed
  ultimately show ?thesis by blast
qed

definition sample_spec :: build_spec where
  "sample_spec = \<lparr>bp_version = Janken.GameVersion, bp_ruleset = Janken.RulesetRegular, bp_seed = ''seed'',
     bp_players = [\<lparr>pl_id = ''a'', pl_ai = ''A''\<rparr>, \<lparr>pl_id = ''b'', pl_ai = ''B''\<rparr>]\<rparr>"

theorem default_registry_complete_witness:
  "\<exists>rg st d f h. default_registry text_versions = Inr (rg, st) \<and>
     lookup_version rg Janken.GameID Janken.GameVersion st = Inr d \<and> hk_session (gd_hooks d) = Some (FromSpec f) \<and>
     f sample_spec = Inr h \<and>
     hosted_meta h = \<lparr>gm_game_id = Janken.GameID, gm_game_version = Janken.GameVersion, gm_ruleset = Janken.RulesetRegular\<rparr>"
proof -
  let ?r = "builtin_record Janken.GameID InProcess janken_builder janken_rulesets"
  have r: "?r \<in> set builtin_records" by (simp add: builtin_records_def)
  have v: "major_version Janken.GameVersion = Some 2" by code_simp
  have spec: "bp_version sample_spec = Janken.GameVersion" "bp_ruleset sample_spec \<in> set (dr_rulesets ?r)"
    "2 \<le> length (bp_players sample_spec)" "bp_seed sample_spec \<noteq> []"
    by (simp_all add: sample_spec_def janken_rulesets_def)
  have "Janken.GameVersion = release_of (dr_game ?r)" by (simp add: release_of_def)
  with default_registry_complete [of text_versions] r v spec show ?thesis
    by (fastforce simp: sample_spec_def)
qed

end
