(* ===== verification/Admission.thy ===== *)
theory Admission
  imports Registry Bundle Lifecycle
begin

text \<open>
  Admission: the validator of submissions with its local dry run
  (\<open>internal/platform/service/admission.go\<close>) and the admission of game bundles
  (\<open>artifact_admission.go\<close>). URL parsing (\<open>net/url\<close>) is a parameter.
\<close>

section \<open>Local artifacts\<close>

record url =
  ur_scheme :: string
  ur_host :: string
  ur_path :: string

text \<open>\<open>BundleStore\<close>, over a world \<open>'w\<close>.\<close>

record 'w bundle_store =
  bs_put :: "artifact_bundle \<Rightarrow> 'w \<Rightarrow> store_error option \<times> 'w"
  bs_read :: "string \<Rightarrow> 'w \<Rightarrow> store_error + string"

text \<open>The environment of admission: files, URLs, the archive library, the store of bundles.\<close>

record 'w admission_env =
  ad_files :: files
  ad_url :: "string \<Rightarrow> url option"
  ad_base :: string
  ad_bundle :: bundle_env
  ad_store :: "'w bundle_store option"

datatype admission_error =
  ArtifactRefMissing | SchemeUnsupported string | HostUnsupported string | EntryInvalid catalog_error
| RuntimeKindUnsupported string | CommandRequired | GoRunTargetMissing | GoRunValueMissing string
| PathMissing string | OutputDirURI | StoreNotConfigured string | BundleUnreadable string store_error
| BundleInvalid string bundle_error | NotAIBundle string | LocalArtifactInvalid string admission_error
| SubmissionInvalid submission_error | RegistryFailure registry_error | ArtifactMismatch string
| RulesetUnsupported string

definition looks_like_path :: "string \<Rightarrow> bool" where
  "looks_like_path s \<longleftrightarrow> is_abs s \<or> prefix ''.'' s \<or> CHR ''/'' \<in> set s"

definition looks_like_uri :: "'w admission_env \<Rightarrow> string \<Rightarrow> bool" where
  "looks_like_uri env s = (case ad_url env s of None \<Rightarrow> False | Some u \<Rightarrow> ur_scheme u \<noteq> [])"

definition resolve_local_artifact_ref :: "'w admission_env \<Rightarrow> string \<Rightarrow> admission_error + string" where
  "resolve_local_artifact_ref env ref =
     (if blank ref then Inl ArtifactRefMissing
      else
        let local = (if is_abs ref then Inr (clean ref) else Inr (join [ad_base env, clean ref])) in
        case ad_url env ref of
          None \<Rightarrow> local
        | Some u \<Rightarrow>
            if ur_scheme u = [] then local
            else if ur_scheme u \<noteq> ''file'' then Inl (SchemeUnsupported (ur_scheme u))
            else if ur_host u \<noteq> [] \<and> ur_host u \<noteq> ''localhost'' then Inl (HostUnsupported (ur_host u))
            else Inr (clean (ur_path u)))"

definition ensure_path_exists :: "'w admission_env \<Rightarrow> string \<Rightarrow> admission_error option" where
  "ensure_path_exists env p = (if fl_stat (ad_files env) p = Present then None else Some (PathMissing p))"

definition ensure_command_target_exists :: "'w admission_env \<Rightarrow> string \<Rightarrow> admission_error option" where
  "ensure_command_target_exists env target =
     ensure_path_exists env (if is_abs target then target else join [ad_base env, clean target])"

definition is_go_run_boolean_flag :: "string \<Rightarrow> bool" where
  "is_go_run_boolean_flag f \<longleftrightarrow> f \<in> {''-asan'', ''-cover'', ''-modcacherw'', ''-msan'', ''-n'', ''-race'', ''-trimpath'',
     ''-v'', ''-work'', ''-x''}"

definition is_go_run_value_flag :: "string \<Rightarrow> bool" where
  "is_go_run_value_flag f \<longleftrightarrow> f \<in> {''-C'', ''-buildmode'', ''-buildvcs'', ''-compiler'', ''-exec'', ''-mod'', ''-modfile'',
     ''-overlay'', ''-pgo'', ''-pkgdir'', ''-tags'', ''-toolexec''}"

text \<open>The loop over the arguments from the third on; a flag that is neither is skipped alone.\<close>

fun go_run_args :: "string list \<Rightarrow> admission_error + string" where
  "go_run_args [] = Inl GoRunTargetMissing"
| "go_run_args (a # rest) =
     (if a = ''--'' then (case rest of [] \<Rightarrow> Inl GoRunTargetMissing | t # _ \<Rightarrow> Inr t)
      else if \<not> prefix ''-'' a \<or> a = ''-'' then Inr a
      else if CHR ''='' \<in> set a \<or> is_go_run_boolean_flag a then go_run_args rest
      else if is_go_run_value_flag a then (case rest of [] \<Rightarrow> Inl (GoRunValueMissing a) | _ # rest' \<Rightarrow> go_run_args rest')
      else go_run_args rest)"

definition go_run_target :: "string list \<Rightarrow> admission_error + string" where
  "go_run_target command = go_run_args (drop 2 command)"

definition ensure_command_startable :: "'w admission_env \<Rightarrow> string list \<Rightarrow> admission_error option" where
  "ensure_command_startable env command =
     (if command = [] then Some CommandRequired
      else if length command \<ge> 3 \<and> command ! 0 = ''go'' \<and> command ! 1 = ''run'' then
        (case go_run_target command of Inl e \<Rightarrow> Some e | Inr t \<Rightarrow> ensure_command_target_exists env t)
      else if \<not> looks_like_path (hd command) then None
      else ensure_command_target_exists env (hd command))"

definition ensure_runtime_startable :: "'w admission_env \<Rightarrow> runtime_config \<Rightarrow> admission_error option" where
  "ensure_runtime_startable env cfg =
     (if rc_kind cfg = [] \<or> rc_kind cfg = ''local-subprocess'' then ensure_command_startable env (rc_command cfg)
      else if rc_kind cfg = ''wasm-wasi'' then ensure_path_exists env (rc_module cfg)
      else Some (RuntimeKindUnsupported (rc_kind cfg)))"

definition validate_registered_artifact :: "'w admission_env \<Rightarrow> game_metadata \<Rightarrow> string \<Rightarrow> admission_error + loaded_entry" where
  "validate_registered_artifact env meta ref =
     bindR (resolve_local_artifact_ref env ref) (\<lambda>entry.
       case load_entry (ad_files env) meta entry of
         Inl e \<Rightarrow> Inl (EntryInvalid e)
       | Inr loaded \<Rightarrow>
           (case ensure_runtime_startable env (le_runtime loaded) of
              Some e \<Rightarrow> Inl e
            | None \<Rightarrow> Inr loaded))"

section \<open>The dry run and the validator\<close>

definition check_player_artifact :: "'w admission_env \<Rightarrow> game_metadata \<Rightarrow> submitted_player \<Rightarrow> 'w \<Rightarrow> admission_error option" where
  "check_player_artifact env meta p w =
     (if \<not> blank (sp_artifact p) then
        (case ad_store env of
           None \<Rightarrow> Some (StoreNotConfigured (sp_player p))
         | Some st \<Rightarrow>
             (case bs_read st (sp_artifact p) w of
                Inl e \<Rightarrow> Some (BundleUnreadable (sp_player p) e)
              | Inr data \<Rightarrow>
                  (case read_bundle (ad_bundle env) data of
                     Inl e \<Rightarrow> Some (BundleInvalid (sp_player p) e)
                   | Inr b \<Rightarrow>
                       if bd_digest b \<noteq> sp_artifact p \<or> mf_kind (bd_manifest b) \<noteq> ''ai''
                       then Some (NotAIBundle (sp_player p)) else None)))
      else
        (case validate_registered_artifact env meta (sp_artifact_ref p) of
           Inl e \<Rightarrow> Some (LocalArtifactInvalid (sp_player p) e)
         | Inr _ \<Rightarrow> None))"

fun first_error :: "('a \<Rightarrow> 'e option) \<Rightarrow> 'a list \<Rightarrow> 'e option" where
  "first_error f [] = None"
| "first_error f (x # xs) = (case f x of Some e \<Rightarrow> Some e | None \<Rightarrow> first_error f xs)"

lemma first_error_None: "first_error f xs = None \<longleftrightarrow> (\<forall>x \<in> set xs. f x = None)"
  by (induction xs) (auto split: option.splits)

definition dry_run_check :: "'w admission_env \<Rightarrow> match_submission \<Rightarrow> 'w \<Rightarrow> admission_error option" where
  "dry_run_check env sub w =
     (if looks_like_uri env (ms_output_dir sub) then Some OutputDirURI
      else first_error (\<lambda>p. check_player_artifact env (ms_game sub) p w) (ms_players sub))"

definition submission_descriptor :: "('w, 'h) registry \<Rightarrow> match_submission \<Rightarrow> 'w \<Rightarrow> admission_error + 'h game_descriptor" where
  "submission_descriptor rg sub w =
     (let game = ms_game sub; a = ms_game_artifact sub in
      if a \<noteq> [] then
        (case lookup_artifact rg a w of
           Inl e \<Rightarrow> Inl (RegistryFailure e)
         | Inr d \<Rightarrow>
             if gd_artifact d \<noteq> a \<or> gd_game d \<noteq> gm_game_id game \<or> gd_version d \<noteq> gm_game_version game
             then Inl (ArtifactMismatch a) else Inr d)
      else
        (case lookup_version rg (gm_game_id game) (gm_game_version game) w of
           Inl e \<Rightarrow> Inl (RegistryFailure e)
         | Inr d \<Rightarrow> Inr d))"

definition admission_validate :: "'w admission_env \<Rightarrow> ('w, 'h) registry \<Rightarrow> match_submission \<Rightarrow> 'w \<Rightarrow> admission_error option" where
  "admission_validate env rg sub w =
     (case validate_submission sub of
        Some e \<Rightarrow> Some (SubmissionInvalid e)
      | None \<Rightarrow>
          (case submission_descriptor rg sub w of
             Inl e \<Rightarrow> Some e
           | Inr d \<Rightarrow>
               if gm_ruleset (ms_game sub) \<notin> set (gd_rulesets d) then Some (RulesetUnsupported (gm_ruleset (ms_game sub)))
               else dry_run_check env sub w))"

section \<open>Game bundles\<close>

datatype game_bundle_error =
  GameBundleInvalid bundle_error | NotAGameBundle string | GameVersionUnparsable string | NoRulesetDeclared
| GameBundlePut store_error | GameBundleRegister registry_error

definition bundle_record :: "artifact_bundle \<Rightarrow> int \<Rightarrow> string list \<Rightarrow> descriptor_record" where
  "bundle_record b major rulesets =
     (let m = bd_manifest b in
      \<lparr>dr_key = \<lparr>rk_game = mf_game m, rk_major = major\<rparr>, dr_game = mf_game m, dr_version = mf_version m,
       dr_artifact = bd_digest b, dr_args = bt_args (mf_runtime m), dr_pages = bt_pages (mf_runtime m),
       dr_mode = WasmWasi, dr_builder = ''artifact/'' @ bd_digest b, dr_rulesets = rulesets\<rparr>)"

definition register_game_bundle :: "bundle_env \<Rightarrow> 'w bundle_store \<Rightarrow> ('w, 'h) registry \<Rightarrow> string \<Rightarrow> 'w \<Rightarrow>
    (game_bundle_error + descriptor_record) \<times> 'w" where
  "register_game_bundle benv st rg data w =
     (case read_bundle benv data of
        Inl e \<Rightarrow> (Inl (GameBundleInvalid e), w)
      | Inr b \<Rightarrow>
          let m = bd_manifest b; rulesets = filter (\<lambda>r. r \<noteq> []) (map rl_ruleset (mf_rulesets m)) in
          if mf_kind m \<noteq> ''game'' then (Inl (NotAGameBundle (mf_kind m)), w)
          else (case major_version (mf_version m) of
              None \<Rightarrow> (Inl (GameVersionUnparsable (mf_version m)), w)
            | Some major \<Rightarrow>
                if rulesets = [] then (Inl NoRulesetDeclared, w)
                else (case bs_put st b w of
                    (Some e, w1) \<Rightarrow> (Inl (GameBundlePut e), w1)
                  | (None, w1) \<Rightarrow>
                      let r = bundle_record b major rulesets in
                      (case registry_register rg r w1 of
                         (Some e, w2) \<Rightarrow> (Inl (GameBundleRegister e), w2)
                       | (None, w2) \<Rightarrow> (Inr r, w2)))))"

end
