(* ===== verification/General.thy ===== *)
theory General
  imports Admission Commands
begin

text \<open>
  General submissions (\<open>internal/platform/service/general.go\<close>): registered games and AIs, their
  in-memory stores, and the service that registers them. Generated ids are arguments.
\<close>

section \<open>Data\<close>

record registered_game =
  gr_id :: string
  gr_game :: game_metadata
  gr_artifact :: string
  gr_players :: int
  gr_max_bots :: int
  gr_mode :: build_mode
  gr_builder :: string
  gr_rulesets :: "string list"
  gr_source :: string
  gr_source_id :: string

record registered_ai =
  ga_id :: string
  ga_registration :: string
  ga_game :: game_metadata
  ga_ref :: string
  ga_artifact :: string
  ga_name :: string
  ga_kind :: string
  ga_ai :: string
  ga_state :: string
  ga_source :: string
  ga_source_id :: string

record game_request =
  gq_id :: string
  gq_game :: game_metadata
  gq_artifact :: string
  gq_ruleset :: string

record ai_request =
  aq_id :: string
  aq_registration :: string
  aq_ref :: string
  aq_name :: string

text \<open>The registries of games and AIs as the service sees them.\<close>

datatype save_error = IDRequired | AlreadyExists string | NotRegistered | SaveFailed string

definition save_error_text :: "string \<Rightarrow> save_error \<Rightarrow> string" where
  "save_error_text field e =
     (case e of
        IDRequired \<Rightarrow> ''service: '' @ field @ '' is required''
      | AlreadyExists i \<Rightarrow> ''service: '' @ field @ '' '' @ quoted i @ '' already exists''
      | NotRegistered \<Rightarrow> ''service: not found''
      | SaveFailed s \<Rightarrow> s)"

section \<open>In-memory stores\<close>

text \<open>Both stores have the same form; \<open>same\<close> is their notion of an identical record.\<close>

record 'r item_store =
  is_order :: "string list"
  is_items :: "'r gomap"

definition new_item_store :: "'r item_store" where
  "new_item_store = \<lparr>is_order = [], is_items = []\<rparr>"

definition save_item :: "('r \<Rightarrow> string) \<Rightarrow> ('r \<Rightarrow> 'r \<Rightarrow> bool) \<Rightarrow> 'r \<Rightarrow> 'r item_store \<Rightarrow> save_error option \<times> 'r item_store" where
  "save_item ident same r s =
     (if blank (ident r) then (Some IDRequired, s)
      else case map_of (is_items s) (ident r) of
        Some old \<Rightarrow>
          if \<not> same old r then (Some (AlreadyExists (ident r)), s)
          else (None, s\<lparr>is_items := put (ident r) r (is_items s)\<rparr>)
      | None \<Rightarrow> (None, s\<lparr>is_order := is_order s @ [ident r], is_items := put (ident r) r (is_items s)\<rparr>))"

definition get_item :: "string \<Rightarrow> 'r item_store \<Rightarrow> save_error + 'r" where
  "get_item i s = (case map_of (is_items s) i of None \<Rightarrow> Inl NotRegistered | Some r \<Rightarrow> Inr r)"

definition list_items :: "'r item_store \<Rightarrow> 'r list" where
  "list_items s = List.map_filter (map_of (is_items s)) (is_order s)"

definition same_registered_game :: "registered_game \<Rightarrow> registered_game \<Rightarrow> bool" where
  "same_registered_game a b \<longleftrightarrow>
     gr_id a = gr_id b \<and> gr_game a = gr_game b \<and> gr_mode a = gr_mode b \<and> gr_builder a = gr_builder b \<and>
     gr_rulesets a = gr_rulesets b \<and> gr_source a = gr_source b \<and> gr_source_id a = gr_source_id b"

definition same_registered_ai :: "registered_ai \<Rightarrow> registered_ai \<Rightarrow> bool" where
  "same_registered_ai a b \<longleftrightarrow>
     ga_id a = ga_id b \<and> ga_registration a = ga_registration b \<and> ga_game a = ga_game b \<and> ga_ref a = ga_ref b \<and>
     ga_name a = ga_name b \<and> ga_kind a = ga_kind b \<and> ga_ai a = ga_ai b \<and> ga_state a = ga_state b \<and>
     ga_source a = ga_source b \<and> ga_source_id a = ga_source_id b"

definition save_game :: "registered_game \<Rightarrow> registered_game item_store \<Rightarrow> save_error option \<times> registered_game item_store" where
  "save_game = save_item gr_id same_registered_game"

definition save_ai :: "registered_ai \<Rightarrow> registered_ai item_store \<Rightarrow> save_error option \<times> registered_ai item_store" where
  "save_ai = save_item ga_id same_registered_ai"

section \<open>The service\<close>

datatype general_error =
  GeneralBad general_error        \<comment> \<open>wrapped by \<open>ErrBadRequest\<close>\<close>
| GeneralConflict general_error   \<comment> \<open>wrapped by \<open>ErrConflict\<close>\<close>
| UploadNotConfigured | GameLookup save_error | AIBundleRejected bundle_error | AIBundleIncompatible
| AIVersionUnparsable | AIVersionIncompatible | AIBundlePut store_error | AISave save_error | GameSave save_error
| ArtifactUnreadable store_error | ArtifactRejected bundle_error | NotAGameArtifact | GameMetadataInvalid catalog_error
| GameRegistry registry_error | DescriptorMismatch | RequestedMetadataMismatch | RulesetNotDeclared string
| RulesetNotSupported string | RulesetLimitsMissing | RegistrationIDMissing | AIArtifactInvalid admission_error

definition wrap_conflict :: "string \<Rightarrow> (save_error \<Rightarrow> general_error) \<Rightarrow> save_error \<Rightarrow> general_error" where
  "wrap_conflict field err e =
     (if contains (save_error_text field e) ''already exists'' then GeneralConflict (err e) else err e)"

text \<open>The world holds the two stores beside whatever the bundle store and the registry need.\<close>

record 'x general_world =
  gw_games :: "registered_game item_store"
  gw_ais :: "registered_ai item_store"
  gw_rest :: 'x

record ('x, 'h) general_env =
  ge_admission :: "'x admission_env"
  ge_registry :: "('x, 'h) registry"

definition default_game_registration_id :: "game_metadata \<Rightarrow> string" where
  "default_game_registration_id g =
     (case major_version (gm_game_version g) of
        None \<Rightarrow> trim_space (gm_game_id g)
      | Some major \<Rightarrow> trim_space (gm_game_id g) @ ''-v'' @ itoa major @ ''-'' @ trim_space (gm_ruleset g))"

definition with_bundle :: "('x, 'h) general_env \<Rightarrow> string \<Rightarrow> 'x \<Rightarrow> general_error + artifact_bundle option" where
  "with_bundle env a w =
     (case ad_store (ge_admission env) of
        None \<Rightarrow> Inr None
      | Some st \<Rightarrow>
          if a = [] then Inr None
          else (case bs_read st a w of
              Inl e \<Rightarrow> Inl (ArtifactUnreadable e)
            | Inr data \<Rightarrow>
                (case read_bundle (ad_bundle (ge_admission env)) data of
                   Inl e \<Rightarrow> Inl (ArtifactRejected e)
                 | Inr b \<Rightarrow> Inr (Some b))))"

text \<open>The first ruleset of the manifest with the name.\<close>

definition ruleset_limits_of :: "manifest \<Rightarrow> string \<Rightarrow> ruleset_limits option" where
  "ruleset_limits_of m name = find (\<lambda>r. rl_ruleset r = name) (mf_rulesets m)"

definition build_registered_game :: "('x, 'h) general_env \<Rightarrow> string \<Rightarrow> game_metadata \<Rightarrow> 'x \<Rightarrow> general_error + registered_game" where
  "build_registered_game env rid g w =
     (case validate_metadata g of Some e \<Rightarrow> Inl (GeneralBad (GameMetadataInvalid e))
      | None \<Rightarrow>
     (case lookup_version (ge_registry env) (gm_game_id g) (gm_game_version g) w of
        Inl e \<Rightarrow> Inl (GeneralBad (GameRegistry e))
      | Inr d \<Rightarrow>
          if gm_ruleset g \<notin> set (gd_rulesets d) then Inl (GeneralBad (RulesetNotSupported (gm_ruleset g)))
          else bindR (with_bundle env (gd_artifact d) w) (\<lambda>bundle.
            let limits = Option.bind bundle (\<lambda>b. ruleset_limits_of (bd_manifest b) (gm_ruleset g)) in
            Inr \<lparr>gr_id = rid, gr_game = g, gr_artifact = gd_artifact d,
                 gr_players = (case limits of None \<Rightarrow> 0 | Some l \<Rightarrow> rl_players l),
                 gr_max_bots = (case limits of None \<Rightarrow> 0 | Some l \<Rightarrow> rl_bots l),
                 gr_mode = gd_mode d, gr_builder = gd_builder d, gr_rulesets = gd_rulesets d,
                 gr_source = ''manual'', gr_source_id = []\<rparr>)))"

definition build_artifact_game :: "('x, 'h) general_env \<Rightarrow> game_request \<Rightarrow> 'x \<Rightarrow> general_error + registered_game" where
  "build_artifact_game env req w =
     (case ad_store (ge_admission env) of None \<Rightarrow> Inl (GeneralBad UploadNotConfigured)
      | Some st \<Rightarrow>
     let a = trim_space (gq_artifact req) in
     (case bs_read st a w of Inl e \<Rightarrow> Inl (GeneralBad (ArtifactUnreadable e))
      | Inr data \<Rightarrow>
     (case read_bundle (ad_bundle (ge_admission env)) data of Inl e \<Rightarrow> Inl (GeneralBad (ArtifactRejected e))
      | Inr b \<Rightarrow>
     let m = bd_manifest b in
     if bd_digest b \<noteq> a \<or> mf_kind m \<noteq> ''game'' then Inl (GeneralBad NotAGameArtifact)
     else (case lookup_artifact (ge_registry env) a w of Inl e \<Rightarrow> Inl (GeneralBad (GameRegistry e))
      | Inr d \<Rightarrow>
     if gd_artifact d \<noteq> a \<or> gd_game d \<noteq> mf_game m \<or> gd_version d \<noteq> mf_version m \<or> gd_mode d \<noteq> WasmWasi \<or>
        gd_builder d \<noteq> ''artifact/'' @ a then Inl (GeneralBad DescriptorMismatch)
     else
       let asked = trim_space (gq_ruleset req); asked_game = trim_space (gm_ruleset (gq_game req));
           asked_id = trim_space (gm_game_id (gq_game req)); asked_version = trim_space (gm_game_version (gq_game req));
           ruleset = (if asked = [] then asked_game else asked) in
       if (asked_id \<noteq> [] \<and> asked_id \<noteq> mf_game m) \<or> (asked_version \<noteq> [] \<and> asked_version \<noteq> mf_version m) \<or>
          (asked_game \<noteq> [] \<and> asked \<noteq> [] \<and> asked_game \<noteq> asked) then Inl (GeneralBad RequestedMetadataMismatch)
       else
         let g = \<lparr>gm_game_id = mf_game m, gm_game_version = mf_version m, gm_ruleset = ruleset\<rparr> in
         (case validate_metadata g of Some e \<Rightarrow> Inl (GeneralBad (GameMetadataInvalid e))
          | None \<Rightarrow>
         (case ruleset_limits_of m ruleset of None \<Rightarrow> Inl (GeneralBad (RulesetNotDeclared ruleset))
          | Some l \<Rightarrow>
         if ruleset \<notin> set (gd_rulesets d) then Inl (GeneralBad (RulesetNotSupported ruleset))
         else if rl_players l < 1 \<or> rl_bots l < 1 then Inl (GeneralBad RulesetLimitsMissing)
         else
           let rid = trim_space (gq_id req) in
           Inr \<lparr>gr_id = (if rid = [] then default_game_registration_id g else rid), gr_game = g, gr_artifact = a,
                gr_players = rl_players l, gr_max_bots = rl_bots l, gr_mode = gd_mode d, gr_builder = gd_builder d,
                gr_rulesets = gd_rulesets d, gr_source = ''manual'', gr_source_id = []\<rparr>))))))"

definition register_game :: "('x, 'h) general_env \<Rightarrow> game_request \<Rightarrow> 'x general_world \<Rightarrow>
    (general_error + registered_game) \<times> 'x general_world" where
  "register_game env req w =
     (let rid = trim_space (gq_id req);
          built = (if trim_space (gq_artifact req) \<noteq> [] then build_artifact_game env req (gw_rest w)
                   else build_registered_game env (if rid = [] then default_game_registration_id (gq_game req) else rid)
                          (gq_game req) (gw_rest w))
      in case built of
        Inl e \<Rightarrow> (Inl e, w)
      | Inr r \<Rightarrow>
          (case save_game r (gw_games w) of
             (Some e, games) \<Rightarrow> (Inl (wrap_conflict ''registration_id'' GameSave e), w\<lparr>gw_games := games\<rparr>)
           | (None, games) \<Rightarrow> (Inr r, w\<lparr>gw_games := games\<rparr>)))"

definition save_registered_ai :: "registered_ai \<Rightarrow> 'x general_world \<Rightarrow> (general_error + registered_ai) \<times> 'x general_world" where
  "save_registered_ai r w =
     (case save_ai r (gw_ais w) of
        (Some e, ais) \<Rightarrow> (Inl (wrap_conflict ''ai_submission_id'' AISave e), w\<lparr>gw_ais := ais\<rparr>)
      | (None, ais) \<Rightarrow> (Inr r, w\<lparr>gw_ais := ais\<rparr>))"

definition register_ai_bundle :: "('x, 'h) general_env \<Rightarrow> string \<Rightarrow> ai_request \<Rightarrow> string \<Rightarrow> 'x general_world \<Rightarrow>
    (general_error + registered_ai) \<times> 'x general_world" where
  "register_ai_bundle env fresh req data w =
     (case ad_store (ge_admission env) of None \<Rightarrow> (Inl UploadNotConfigured, w)
      | Some st \<Rightarrow>
     (case get_item (trim_space (aq_registration req)) (gw_games w) of Inl e \<Rightarrow> (Inl (GeneralBad (GameLookup e)), w)
      | Inr g \<Rightarrow>
     (case read_bundle (ad_bundle (ge_admission env)) data of Inl e \<Rightarrow> (Inl (GeneralBad (AIBundleRejected e)), w)
      | Inr b \<Rightarrow>
     let m = bd_manifest b in
     if mf_kind m \<noteq> ''ai'' \<or> mf_game m \<noteq> gm_game_id (gr_game g) then (Inl (GeneralBad AIBundleIncompatible), w)
     else (case major_version (mf_version m) of None \<Rightarrow> (Inl (GeneralBad AIVersionUnparsable), w)
      | Some major \<Rightarrow>
     if major \<noteq> (case major_version (gm_game_version (gr_game g)) of None \<Rightarrow> 0 | Some v \<Rightarrow> v)
     then (Inl (GeneralBad AIVersionIncompatible), w)
     else (case bs_put st b (gw_rest w) of
        (Some e, x) \<Rightarrow> (Inl (AIBundlePut e), w\<lparr>gw_rest := x\<rparr>)
      | (None, x) \<Rightarrow>
          let i = trim_space (aq_id req); name = trim_space (aq_name req) in
          save_registered_ai
            \<lparr>ga_id = (if i = [] then ''ai-'' @ fresh else i), ga_registration = gr_id g, ga_game = gr_game g,
             ga_ref = [], ga_artifact = bd_digest b, ga_name = (if name = [] then mf_ai m else name),
             ga_kind = ''wasm-wasi'', ga_ai = mf_ai m, ga_state = ''ready'', ga_source = ''manual'', ga_source_id = []\<rparr>
            (w\<lparr>gw_rest := x\<rparr>))))))"

definition build_registered_ai :: "('x, 'h) general_env \<Rightarrow> string \<Rightarrow> registered_game \<Rightarrow> string \<Rightarrow> string \<Rightarrow> general_error + registered_ai" where
  "build_registered_ai env i g ref name =
     (case validate_registered_artifact (ge_admission env) (gr_game g) ref of
        Inl e \<Rightarrow> Inl (GeneralBad (AIArtifactInvalid e))
      | Inr loaded \<Rightarrow>
          let n = trim_space name in
          Inr \<lparr>ga_id = i, ga_registration = gr_id g, ga_game = gr_game g, ga_ref = trim_space ref, ga_artifact = [],
               ga_name = (if n = [] then le_ai loaded else n), ga_kind = rc_kind (le_runtime loaded), ga_ai = le_ai loaded,
               ga_state = ''ready'', ga_source = ''manual'', ga_source_id = []\<rparr>)"

definition register_ai :: "('x, 'h) general_env \<Rightarrow> string \<Rightarrow> ai_request \<Rightarrow> 'x general_world \<Rightarrow>
    (general_error + registered_ai) \<times> 'x general_world" where
  "register_ai env fresh req w =
     (let rid = trim_space (aq_registration req); i = trim_space (aq_id req) in
      if rid = [] then (Inl (GeneralBad RegistrationIDMissing), w)
      else case get_item rid (gw_games w) of
        Inl e \<Rightarrow> (Inl (GeneralBad (GameLookup e)), w)
      | Inr g \<Rightarrow>
          (case build_registered_ai env (if i = [] then ''ai-'' @ fresh else i) g (aq_ref req) (aq_name req) of
             Inl e \<Rightarrow> (Inl e, w)
           | Inr r \<Rightarrow> save_registered_ai r w))"

section \<open>The local service\<close>

text \<open>A world of the local bundle store and the registry of the process.\<close>

record local_state =
  lo_files :: "string \<Rightarrow> string option"
  lo_registry :: memory_registry

definition local_bundle_store :: "string \<Rightarrow> local_state bundle_store" where
  "local_bundle_store root =
     \<lparr>bs_put = \<lambda>b w. (case put_bundle root b (lo_files w) of (e, fs) \<Rightarrow> (e, w\<lparr>lo_files := fs\<rparr>)),
      bs_read = \<lambda>d w. read_stored root d (lo_files w)\<rparr>"

definition local_registry_store :: "semver \<Rightarrow> local_state registry_store" where
  "local_registry_store sv =
     \<lparr>gs_lookup = \<lambda>k w. lookup_memory sv k (lo_registry w),
      gs_artifact = Some (\<lambda>a w. lookup_artifact_memory a (lo_registry w)),
      gs_register = None,
      gs_legacy = Some (\<lambda>r w. case register sv r (lo_registry w) of (e, st) \<Rightarrow> (e, w\<lparr>lo_registry := st\<rparr>))\<rparr>"

end
