(* ===== verification/Requests.thy ===== *)
theory Requests
  imports General Bots
begin

text \<open>
  Match requests (\<open>internal/platform/service/request.go\<close>): validation of a request, the resolution
  of its participants, scheduling with rollback, and the listing with the state of the runs.
\<close>

section \<open>Data\<close>

record request_participant =
  rp_player :: string
  rp_bot :: string
  rp_ai :: string

record match_request =
  mq_id :: string
  mq_registration :: string
  mq_game :: game_metadata
  mq_participants :: "request_participant list"
  mq_output_dir :: string
  mq_source :: string
  mq_source_id :: string
  mq_match :: string
  mq_latest :: string
  mq_official :: string
  mq_state :: lifecycle_state

record create_request =
  cq_scope :: string
  cq_bots :: "string list"
  cq_id :: string
  cq_registration :: string
  cq_participants :: "request_participant list"
  cq_output_dir :: string
  cq_match :: string

text \<open>The ids generated for one call, without their prefixes.\<close>

record fresh_ids =
  fi_request :: string
  fi_run :: string
  fi_match :: string

datatype request_error =
  RequestBad request_error | RequestConflict request_error | ScopeMissing | RequestGame save_error
| RequestAI save_error | BotsNotConfigured | PlayerCountMismatch | BotIDMissing | DuplicateBotID
| RequestBots bot_error | ParticipantsMissing | RequestPlayerMissing | DuplicateRequestPlayer string
| AIMissing string | ForeignAI string string | RequestSubmit service_error | RequestSave save_error
| RequestQueue queue_error | RollbackFailed request_error string service_error

text \<open>The services that requests rest on, over a world \<open>'w\<close>.\<close>

record 'w request_env =
  re_game :: "string \<Rightarrow> 'w \<Rightarrow> save_error + registered_game"
  re_ai :: "string \<Rightarrow> 'w \<Rightarrow> save_error + registered_ai"
  re_bots :: "(string \<Rightarrow> string list \<Rightarrow> 'w \<Rightarrow> bot_error + resolved_bot list) option"
  re_commands :: "'w commands"
  re_save :: "match_request \<Rightarrow> 'w \<Rightarrow> save_error option \<times> 'w"
  re_list :: "'w \<Rightarrow> save_error + match_request list"

section \<open>Creating a request\<close>

definition game_artifact_id :: "registered_game \<Rightarrow> string" where
  "game_artifact_id g = (if prefix ''artifact/'' (gr_builder g) then drop (length ''artifact/'') (gr_builder g) else [])"

definition official_run_id :: "queue_record \<Rightarrow> string" where
  "official_run_id r = (if qr_official r then qr_run r else [])"

definition resolve_participant :: "'w request_env \<Rightarrow> string \<Rightarrow> 'w \<Rightarrow> request_participant \<Rightarrow>
    submitted_player list \<times> string list \<Rightarrow> request_error + (submitted_player list \<times> string list)" where
  "resolve_participant env rid w p = (\<lambda>(players, seen).
     let player = trim_space (rp_player p); ai_id = trim_space (rp_ai p) in
     if player = [] then Inl (RequestBad RequestPlayerMissing)
     else if player \<in> set seen then Inl (RequestBad (DuplicateRequestPlayer player))
     else if ai_id = [] then Inl (RequestBad (AIMissing player))
     else case re_ai env ai_id w of
       Inl e \<Rightarrow> Inl (if e = NotRegistered then RequestBad (RequestAI e) else RequestAI e)
     | Inr ai \<Rightarrow>
         if ga_registration ai \<noteq> rid then Inl (RequestBad (ForeignAI ai_id rid))
         else Inr (players @ [\<lparr>sp_player = player, sp_bot = [], sp_bot_name = ga_name ai, sp_ai_submission = ga_id ai,
                               sp_artifact_ref = ga_ref ai, sp_artifact = ga_artifact ai\<rparr>], seen @ [player]))"

definition resolve_participants :: "'w request_env \<Rightarrow> string \<Rightarrow> request_participant list \<Rightarrow> 'w \<Rightarrow> request_error + submitted_player list" where
  "resolve_participants env rid ps w =
     (if ps = [] then Inl (RequestBad ParticipantsMissing)
      else bindR (foldR (resolve_participant env rid w) ps ([], [])) (\<lambda>(players, _). Inr players))"

definition check_bot_id :: "string \<Rightarrow> string list \<Rightarrow> request_error + string list" where
  "check_bot_id raw seen =
     (let i = trim_space raw in
      if i = [] then Inl (RequestBad BotIDMissing)
      else if i \<in> set seen then Inl (RequestBad DuplicateBotID)
      else Inr (i # seen))"

definition bot_player :: "nat \<Rightarrow> resolved_bot \<Rightarrow> submitted_player" where
  "bot_player index b =
     \<lparr>sp_player = ''p'' @ itoa (int index + 1), sp_bot = eb_bot (rb_eligible b), sp_bot_name = eb_name (rb_eligible b),
      sp_ai_submission = eb_revision (rb_eligible b), sp_artifact_ref = [], sp_artifact = rb_artifact b\<rparr>"

definition resolve_bots :: "'w request_env \<Rightarrow> string \<Rightarrow> registered_game \<Rightarrow> string list \<Rightarrow> 'w \<Rightarrow> request_error + submitted_player list" where
  "resolve_bots env rid g ids w =
     (case re_bots env of None \<Rightarrow> Inl BotsNotConfigured
      | Some resolve \<Rightarrow>
          if gr_players g < 1 \<or> int (length ids) \<noteq> gr_players g then Inl (RequestBad PlayerCountMismatch)
          else bindR (foldR check_bot_id ids []) (\<lambda>_.
            case resolve rid ids w of
              Inl e \<Rightarrow> Inl (RequestBots e)
            | Inr bots \<Rightarrow> Inr (map (\<lambda>(i, b). bot_player i b) (enumerate 0 bots))))"

definition rollback_queued_submission :: "'w request_env \<Rightarrow> queue_record \<Rightarrow> request_error \<Rightarrow> 'w \<Rightarrow> request_error \<times> 'w" where
  "rollback_queued_submission env r cause w =
     (if qr_run r = [] then (cause, w)
      else case cancel_run (re_commands env) (qr_run r) w of
        (Inl e, w1) \<Rightarrow> (RollbackFailed cause (qr_run r) e, w1)
      | (Inr _, w1) \<Rightarrow> (cause, w1))"

text \<open>Both branches of \<open>Create\<close> end alike: submit, save the request, roll back on failure.\<close>

definition schedule :: "'w request_env \<Rightarrow> string \<Rightarrow> string \<Rightarrow> request_participant list \<Rightarrow> match_submission \<Rightarrow> 'w \<Rightarrow>
    (request_error + match_request \<times> queue_record) \<times> 'w" where
  "schedule env request_id rid participants sub w =
     (case submit (re_commands env) sub w of
        (Inl e, w1) \<Rightarrow> (Inl (RequestSubmit e), w1)
      | (Inr r, w1) \<Rightarrow>
          let item = \<lparr>mq_id = request_id, mq_registration = rid, mq_game = ms_game sub, mq_participants = participants,
                      mq_output_dir = ms_output_dir sub, mq_source = ''manual'', mq_source_id = [],
                      mq_match = qr_match r, mq_latest = qr_run r, mq_official = official_run_id r, mq_state = qr_state r\<rparr>
          in (case re_save env item w1 of
                (None, w2) \<Rightarrow> (Inr (item, r), w2)
              | (Some e, w2) \<Rightarrow>
                  let cause = (if contains (save_error_text ''request_id'' e) ''already exists''
                               then RequestConflict (RequestSave e) else RequestSave e)
                  in apfst Inl (rollback_queued_submission env r cause w2)))"

definition create_match_request :: "'w request_env \<Rightarrow> fresh_ids \<Rightarrow> create_request \<Rightarrow> 'w \<Rightarrow>
    (request_error + match_request \<times> queue_record) \<times> 'w" where
  "create_match_request env ids req w =
     (let asked = trim_space (cq_id req);
          request_id = (if asked = [] then ''req-'' @ fi_request ids else asked);
          scope = trim_space (cq_scope req);
          rid = (if scope = [] then trim_space (cq_registration req) else scope);
          run_id = ''run-'' @ fi_run ids
      in if rid = [] then (Inl (RequestBad ScopeMissing), w)
      else case re_game env rid w of
        Inl e \<Rightarrow> (Inl (if e = NotRegistered then RequestBad (RequestGame e) else RequestGame e), w)
      | Inr g \<Rightarrow>
          if cq_bots req = [] then
            (case resolve_participants env rid (cq_participants req) w of
               Inl e \<Rightarrow> (Inl e, w)
             | Inr players \<Rightarrow>
                 let m = trim_space (cq_match req) in
                 schedule env request_id rid (cq_participants req)
                   \<lparr>ms_run = run_id, ms_match = (if m = [] then ''match-'' @ fi_match ids else m), ms_game = gr_game g,
                    ms_game_artifact = game_artifact_id g, ms_players = players,
                    ms_output_dir = trim_space (cq_output_dir req), ms_attempt = 1, ms_parent = [],
                    ms_kind = RunKindInitial, ms_official = False\<rparr> w)
          else
            (case resolve_bots env rid g (cq_bots req) w of
               Inl e \<Rightarrow> (Inl e, w)
             | Inr players \<Rightarrow>
                 schedule env request_id rid
                   (map (\<lambda>p. \<lparr>rp_player = sp_player p, rp_bot = sp_bot p, rp_ai = sp_ai_submission p\<rparr>) players)
                   \<lparr>ms_run = run_id, ms_match = ''match-'' @ fi_match ids, ms_game = gr_game g,
                    ms_game_artifact = game_artifact_id g, ms_players = players, ms_output_dir = ''matches'',
                    ms_attempt = 1, ms_parent = [], ms_kind = RunKindInitial, ms_official = False\<rparr> w))"

section \<open>Listing\<close>

text \<open>The run of a match with the most attempts, the first of them on a tie.\<close>

definition index_latest :: "queue_record \<Rightarrow> queue_record gomap \<Rightarrow> queue_record gomap" where
  "index_latest r m =
     (let k = trim_space (qr_match r) in
      if k = [] then m
      else case map_of m k of
        Some current \<Rightarrow> if ms_attempt (qr_submission r) > ms_attempt (qr_submission current) then put k r m else m
      | None \<Rightarrow> put k r m)"

definition index_official :: "queue_record \<Rightarrow> queue_record gomap \<Rightarrow> queue_record gomap" where
  "index_official r m =
     (let k = trim_space (qr_match r) in if k = [] \<or> \<not> qr_official r then m else put k r m)"

definition refresh_item :: "queue_record gomap \<Rightarrow> queue_record gomap \<Rightarrow> match_request \<Rightarrow> match_request" where
  "refresh_item latest official item =
     (let k = trim_space (mq_match item) in
      if k = [] then item
      else
        let item1 = (case map_of latest k of None \<Rightarrow> item | Some r \<Rightarrow> item\<lparr>mq_latest := qr_run r, mq_state := qr_state r\<rparr>)
        in (case map_of official k of None \<Rightarrow> item1 | Some r \<Rightarrow> item1\<lparr>mq_official := qr_run r\<rparr>))"

definition list_match_requests :: "'w request_env \<Rightarrow> 'w \<Rightarrow> request_error + match_request list" where
  "list_match_requests env w =
     (case re_list env w of Inl e \<Rightarrow> Inl (RequestSave e)
      | Inr items \<Rightarrow>
     (case qo_list (cm_queue (re_commands env)) w of Inl e \<Rightarrow> Inl (RequestQueue e)
      | Inr records \<Rightarrow>
          Inr (map (refresh_item (fold index_latest records []) (fold index_official records [])) items)))"

section \<open>The in-memory service\<close>

definition save_match_request :: "match_request \<Rightarrow> match_request item_store \<Rightarrow> save_error option \<times> match_request item_store" where
  "save_match_request = save_item mq_id (\<lambda>_ _. False)"

record 'x arena_state =
  as_requests :: "match_request item_store"
  as_general :: "'x general_world"
  as_bots :: bot_store

definition on_requests :: "(match_request item_store \<Rightarrow> 'a \<times> match_request item_store) \<Rightarrow>
    'x arena_state service \<Rightarrow> 'a \<times> 'x arena_state service" where
  "on_requests f w =
     (case f (as_requests (sv_rest w)) of (a, s) \<Rightarrow> (a, w\<lparr>sv_rest := (sv_rest w)\<lparr>as_requests := s\<rparr>\<rparr>))"

definition memory_request_env :: "'x arena_state service commands \<Rightarrow> 'x arena_state service request_env" where
  "memory_request_env cm =
     \<lparr>re_game = \<lambda>i w. get_item i (gw_games (as_general (sv_rest w))),
      re_ai = \<lambda>i w. get_item i (gw_ais (as_general (sv_rest w))),
      re_bots = Some (\<lambda>scope ids w. resolve_eligible scope ids (as_bots (sv_rest w))),
      re_commands = cm,
      re_save = \<lambda>item. on_requests (save_match_request item),
      re_list = \<lambda>w. Inr (list_items (as_requests (sv_rest w)))\<rparr>"

text \<open>The commands of the service over the validator of admission.\<close>

definition arena_commands :: "('x, 'h) general_env \<Rightarrow> (admission_error \<Rightarrow> string) \<Rightarrow>
    'x arena_state service commands \<Rightarrow> 'x arena_state service commands" where
  "arena_commands env show_error cm =
     cm\<lparr>cm_queue := memory_ops,
        cm_validate := \<lambda>sub w. map_option show_error
          (admission_validate (ge_admission env) (ge_registry env) sub (gw_rest (as_general (sv_rest w))))\<rparr>"

end
