(* ===== verification/General_Spec.thy ===== *)
theory General_Spec
  imports General Registry_Spec Bundle_Spec
begin

text \<open>
  What registration guarantees: the stores keep one record per id, a game that is activated from an
  artifact agrees with its manifest and its admitted descriptor, and a failed registration changes
  nothing; and what it does not: the artifact of an AI can be replaced under its id.
\<close>

section \<open>Stores\<close>

definition item_store_ok :: "('r \<Rightarrow> string) \<Rightarrow> 'r item_store \<Rightarrow> bool" where
  "item_store_ok ident s \<longleftrightarrow> distinct (is_order s) \<and> set (is_order s) = dom (map_of (is_items s)) \<and>
     (\<forall>k r. map_of (is_items s) k = Some r \<longrightarrow> ident r = k)"

lemma item_store_ok_new: "item_store_ok ident new_item_store"
  by (simp add: item_store_ok_def new_item_store_def)

lemma save_item_None:
  "fst (save_item ident same r s) = None \<longleftrightarrow> \<not> blank (ident r) \<and>
     (\<forall>old. map_of (is_items s) (ident r) = Some old \<longrightarrow> same old r)"
  by (auto simp: save_item_def split: option.splits)

lemma save_item_Some: "fst (save_item ident same r s) = Some e \<Longrightarrow> snd (save_item ident same r s) = s"
  by (auto simp: save_item_def split: option.splits if_splits)

lemma save_item_items:
  assumes "fst (save_item ident same r s) = None"
  shows "map_of (is_items (snd (save_item ident same r s))) = (map_of (is_items s))(ident r \<mapsto> r)"
    "is_order (snd (save_item ident same r s)) =
       (if map_of (is_items s) (ident r) = None then is_order s @ [ident r] else is_order s)"
  using assms by (auto simp: save_item_def split: option.splits if_splits)

lemma item_store_ok_save: "item_store_ok ident s \<Longrightarrow> item_store_ok ident (snd (save_item ident same r s))"
proof (cases "fst (save_item ident same r s)")
  case None
  assume ok: "item_store_ok ident s"
  show ?thesis
    unfolding item_store_ok_def save_item_items [OF None] using ok
    by (auto simp: item_store_ok_def)
next
  case (Some e)
  assume "item_store_ok ident s"
  with save_item_Some [OF Some] show ?thesis by simp
qed

lemma list_items_map: "item_store_ok ident s \<Longrightarrow> list_items s = map (\<lambda>k. the (map_of (is_items s) k)) (is_order s)"
proof -
  assume ok: "item_store_ok ident s"
  have "List.map_filter (map_of (is_items s)) ks = map (\<lambda>k. the (map_of (is_items s) k)) ks"
    if "set ks \<subseteq> dom (map_of (is_items s))" for ks
    using that by (induction ks) (auto simp: List.map_filter_def)
  then show ?thesis using ok by (simp add: list_items_def item_store_ok_def)
qed

lemma list_items_new_id:
  assumes "item_store_ok ident s" "map_of (is_items s) (ident r) = None" "fst (save_item ident same r s) = None"
  shows "list_items (snd (save_item ident same r s)) = list_items s @ [r]"
proof -
  have n: "ident r \<notin> set (is_order s)" using assms(1,2) by (simp add: item_store_ok_def domIff)
  then have "map (\<lambda>k. the (((map_of (is_items s))(ident r \<mapsto> r)) k)) (is_order s) = map (\<lambda>k. the (map_of (is_items s) k)) (is_order s)"
    by auto
  then show ?thesis
    using assms(2) unfolding list_items_map [OF item_store_ok_save [OF assms(1)]] list_items_map [OF assms(1)]
      save_item_items [OF assms(3)] by simp
qed

section \<open>Games from artifacts\<close>

lemma ruleset_limits_of_Some:
  "ruleset_limits_of m name = Some l \<Longrightarrow> l \<in> set (mf_rulesets m) \<and> rl_ruleset l = name"
  by (auto simp: ruleset_limits_of_def find_Some_iff)

text \<open>A stored game agrees with its bundle and with the descriptor admitted for it.\<close>

definition agrees_with_artifact :: "('x, 'h) general_env \<Rightarrow> 'x \<Rightarrow> registered_game \<Rightarrow> bool" where
  "agrees_with_artifact env x g \<longleftrightarrow>
     (\<exists>st data b d l. ad_store (ge_admission env) = Some st \<and> bs_read st (gr_artifact g) x = Inr data \<and>
        read_bundle (ad_bundle (ge_admission env)) data = Inr b \<and> gr_artifact g = bundle_digest data \<and>
        mf_kind (bd_manifest b) = ''game'' \<and>
        gm_game_id (gr_game g) = mf_game (bd_manifest b) \<and> gm_game_version (gr_game g) = mf_version (bd_manifest b) \<and>
        l \<in> set (mf_rulesets (bd_manifest b)) \<and> rl_ruleset l = gm_ruleset (gr_game g) \<and>
        gr_players g = rl_players l \<and> gr_max_bots g = rl_bots l \<and> 1 \<le> gr_players g \<and> 1 \<le> gr_max_bots g \<and>
        lookup_artifact (ge_registry env) (gr_artifact g) x = Inr d \<and> gd_artifact d = gr_artifact g \<and>
        gd_game d = gm_game_id (gr_game g) \<and> gd_version d = gm_game_version (gr_game g) \<and> gd_mode d = WasmWasi \<and>
        gr_builder g = ''artifact/'' @ gr_artifact g \<and> gm_ruleset (gr_game g) \<in> set (gd_rulesets d))"

lemma build_artifact_game_parts:
  assumes "build_artifact_game env req x = Inr g"
  shows "\<exists>st data b d l. ad_store (ge_admission env) = Some st \<and> bs_read st (gr_artifact g) x = Inr data \<and>
    read_bundle (ad_bundle (ge_admission env)) data = Inr b \<and> bd_digest b = gr_artifact g \<and>
    mf_kind (bd_manifest b) = ''game'' \<and>
    lookup_artifact (ge_registry env) (gr_artifact g) x = Inr d \<and> gd_artifact d = gr_artifact g \<and>
    gd_game d = gm_game_id (gr_game g) \<and> gd_version d = gm_game_version (gr_game g) \<and>
    gd_mode d = WasmWasi \<and> gr_builder g = ''artifact/'' @ gr_artifact g \<and>
    mf_game (bd_manifest b) = gm_game_id (gr_game g) \<and> mf_version (bd_manifest b) = gm_game_version (gr_game g) \<and>
    l \<in> set (mf_rulesets (bd_manifest b)) \<and> rl_ruleset l = gm_ruleset (gr_game g) \<and>
    gr_players g = rl_players l \<and> gr_max_bots g = rl_bots l \<and> 1 \<le> gr_players g \<and> 1 \<le> gr_max_bots g \<and>
    gm_ruleset (gr_game g) \<in> set (gd_rulesets d)"
  using assms
  by (auto simp: build_artifact_game_def Let_def dest!: ruleset_limits_of_Some split: option.splits sum.splits if_splits)

lemma build_artifact_game_ok:
  assumes "build_artifact_game env req x = Inr g"
  shows "agrees_with_artifact env x g"
proof -
  from build_artifact_game_parts [OF assms] obtain st data b d l where
    p: "ad_store (ge_admission env) = Some st" "bs_read st (gr_artifact g) x = Inr data"
      "read_bundle (ad_bundle (ge_admission env)) data = Inr b" "bd_digest b = gr_artifact g"
    and q: "mf_kind (bd_manifest b) = ''game''" "lookup_artifact (ge_registry env) (gr_artifact g) x = Inr d"
      "gd_artifact d = gr_artifact g" "gd_game d = gm_game_id (gr_game g)" "gd_version d = gm_game_version (gr_game g)"
      "gd_mode d = WasmWasi" "gr_builder g = ''artifact/'' @ gr_artifact g"
      "mf_game (bd_manifest b) = gm_game_id (gr_game g)" "mf_version (bd_manifest b) = gm_game_version (gr_game g)"
      "l \<in> set (mf_rulesets (bd_manifest b))" "rl_ruleset l = gm_ruleset (gr_game g)"
      "gr_players g = rl_players l" "gr_max_bots g = rl_bots l" "1 \<le> gr_players g" "1 \<le> gr_max_bots g"
      "gm_ruleset (gr_game g) \<in> set (gd_rulesets d)"
    by blast
  have "bundle_digest data = gr_artifact g" using read_bundle_ok [OF p(3)] p(4) by simp
  with p q show ?thesis
    unfolding agrees_with_artifact_def
    by (intro exI [of _ st] exI [of _ data] exI [of _ b] exI [of _ d] exI [of _ l]) simp
qed

text \<open>
  C29. A game that is activated from an artifact is what its artifact says: the stored scope names
  an uploaded bundle with this digest, whose manifest and admitted descriptor agree with it on game
  and version, the selected ruleset is one the manifest declares and the descriptor supports, the
  player count and the bot quota are the positive ones of the manifest, and matches of the scope
  will be admitted against this very descriptor. A failed activation stores nothing.
\<close>

theorem activated_game_consistent:
  assumes artifact: "trim_space (gq_artifact req) \<noteq> []" and run: "register_game env req w = (res, w')"
  shows "case res of
      Inl e \<Rightarrow> w' = w
    | Inr g \<Rightarrow> get_item (gr_id g) (gw_games w') = Inr g \<and> gw_ais w' = gw_ais w \<and> gw_rest w' = gw_rest w \<and>
        agrees_with_artifact env (gw_rest w) g"
proof (cases "build_artifact_game env req (gw_rest w)")
  case (Inl e)
  then have "register_game env req w = (Inl e, w)" using artifact by (simp add: register_game_def Let_def)
  with run have "res = Inl e" "w' = w" by auto
  then show ?thesis by simp
next
  case (Inr g)
  show ?thesis
  proof (cases "fst (save_game g (gw_games w))")
    case None
    then have "register_game env req w = (Inr g, w\<lparr>gw_games := snd (save_game g (gw_games w))\<rparr>)"
      using artifact Inr by (cases "save_game g (gw_games w)") (simp add: register_game_def Let_def)
    moreover have "get_item (gr_id g) (snd (save_game g (gw_games w))) = Inr g"
      using None unfolding save_game_def get_item_def by (simp add: save_item_items)
    moreover from calculation(1) run have "res = Inr g" "w' = w\<lparr>gw_games := snd (save_game g (gw_games w))\<rparr>" by auto
    ultimately show ?thesis using build_artifact_game_ok [OF Inr] by simp
  next
    case (Some e)
    then have "snd (save_game g (gw_games w)) = gw_games w"
      unfolding save_game_def by (rule save_item_Some)
    with Some have "register_game env req w = (Inl (wrap_conflict ''registration_id'' GameSave e), w)"
      using artifact Inr by (cases "save_game g (gw_games w)") (simp add: register_game_def Let_def)
    with run have "res = Inl (wrap_conflict ''registration_id'' GameSave e)" "w' = w" by auto
    then show ?thesis by simp
  qed
qed

section \<open>Artifacts of AIs\<close>

lemma register_ai_bundle_ok:
  assumes "register_ai_bundle env fresh req data w = (Inr r, w1)"
  shows "\<exists>st g b x. ad_store (ge_admission env) = Some st \<and>
    get_item (trim_space (aq_registration req)) (gw_games w) = Inr g \<and>
    read_bundle (ad_bundle (ge_admission env)) data = Inr b \<and> mf_kind (bd_manifest b) = ''ai'' \<and>
    mf_game (bd_manifest b) = gm_game_id (gr_game g) \<and> major_version (mf_version (bd_manifest b)) \<noteq> None \<and>
    the (major_version (mf_version (bd_manifest b))) =
      (case major_version (gm_game_version (gr_game g)) of None \<Rightarrow> 0 | Some v \<Rightarrow> v) \<and>
    bs_put st b (gw_rest w) = (None, x) \<and>
    r = \<lparr>ga_id = (if trim_space (aq_id req) = [] then ''ai-'' @ fresh else trim_space (aq_id req)),
      ga_registration = gr_id g, ga_game = gr_game g, ga_ref = [], ga_artifact = bd_digest b,
      ga_name = (if trim_space (aq_name req) = [] then mf_ai (bd_manifest b) else trim_space (aq_name req)),
      ga_kind = ''wasm-wasi'', ga_ai = mf_ai (bd_manifest b), ga_state = ''ready'', ga_source = ''manual'', ga_source_id = []\<rparr> \<and>
    fst (save_ai r (gw_ais w)) = None \<and> w1 = w\<lparr>gw_rest := x, gw_ais := snd (save_ai r (gw_ais w))\<rparr>"
  using assms
  by (auto simp: register_ai_bundle_def save_registered_ai_def Let_def split: option.splits sum.splits if_splits prod.splits)

text \<open>
  The artifact of an admitted AI is not fixed: whoever uploads another bundle with the same
  manifest under the id of an admitted submission replaces its artifact, because the store compares
  everything else; matches that name the submission run the new module from then on.
\<close>

theorem ai_artifact_replaced:
  assumes first: "register_ai_bundle env fresh1 req data1 w = (Inr r1, w1)"
    and given: "trim_space (aq_id req) \<noteq> []"
    and bundles: "read_bundle (ad_bundle (ge_admission env)) data1 = Inr b1"
      "read_bundle (ad_bundle (ge_admission env)) data2 = Inr b2" "bd_manifest b2 = bd_manifest b1"
    and put: "ad_store (ge_admission env) = Some st" "bs_put st b2 (gw_rest w1) = (None, x)"
  shows "\<exists>w2. register_ai_bundle env fresh2 req data2 w1 = (Inr (r1\<lparr>ga_artifact := bundle_digest data2\<rparr>), w2) \<and>
    get_item (ga_id r1) (gw_ais w1) = Inr r1 \<and>
    get_item (ga_id r1) (gw_ais w2) = Inr (r1\<lparr>ga_artifact := bundle_digest data2\<rparr>)"
proof -
  let ?r2 = "r1\<lparr>ga_artifact := bundle_digest data2\<rparr>"
  from register_ai_bundle_ok [OF first] bundles(1) obtain g y where
    g: "get_item (trim_space (aq_registration req)) (gw_games w) = Inr g" "mf_kind (bd_manifest b1) = ''ai''"
      "mf_game (bd_manifest b1) = gm_game_id (gr_game g)" "major_version (mf_version (bd_manifest b1)) \<noteq> None"
      "the (major_version (mf_version (bd_manifest b1))) =
        (case major_version (gm_game_version (gr_game g)) of None \<Rightarrow> 0 | Some v \<Rightarrow> v)"
    and r1: "r1 = \<lparr>ga_id = trim_space (aq_id req), ga_registration = gr_id g, ga_game = gr_game g, ga_ref = [],
      ga_artifact = bd_digest b1,
      ga_name = (if trim_space (aq_name req) = [] then mf_ai (bd_manifest b1) else trim_space (aq_name req)),
      ga_kind = ''wasm-wasi'', ga_ai = mf_ai (bd_manifest b1), ga_state = ''ready'', ga_source = ''manual'', ga_source_id = []\<rparr>"
    and saved: "fst (save_ai r1 (gw_ais w)) = None" and w1: "w1 = w\<lparr>gw_rest := y, gw_ais := snd (save_ai r1 (gw_ais w))\<rparr>"
    using given by auto
  have digest: "bd_digest b2 = bundle_digest data2" using read_bundle_ok [OF bundles(2)] by blast
  have items: "map_of (is_items (gw_ais w1)) = (map_of (is_items (gw_ais w)))(ga_id r1 \<mapsto> r1)"
    using saved by (simp add: w1 save_ai_def save_item_items)
  have same: "same_registered_ai r1 ?r2" by (simp add: same_registered_ai_def)
  have "\<not> blank (ga_id r1)" using saved by (simp add: save_ai_def save_item_None)
  then have save2: "fst (save_ai ?r2 (gw_ais w1)) = None"
    using items same by (simp add: save_ai_def save_item_None)
  have "register_ai_bundle env fresh2 req data2 w1 = save_registered_ai ?r2 (w1\<lparr>gw_rest := x\<rparr>)"
    using g given put bundles digest by (auto simp: register_ai_bundle_def w1 r1 Let_def split: option.splits)
  also have "\<dots> = (Inr ?r2, w1\<lparr>gw_rest := x, gw_ais := snd (save_ai ?r2 (gw_ais w1))\<rparr>)"
    using save2 by (cases "save_ai ?r2 (gw_ais w1)") (simp add: save_registered_ai_def)
  finally have "register_ai_bundle env fresh2 req data2 w1 =
    (Inr ?r2, w1\<lparr>gw_rest := x, gw_ais := snd (save_ai ?r2 (gw_ais w1))\<rparr>)" .
  moreover have "get_item (ga_id r1) (snd (save_ai ?r2 (gw_ais w1))) = Inr ?r2"
    using save2 unfolding save_ai_def get_item_def by (simp add: save_item_items)
  moreover have "get_item (ga_id r1) (gw_ais w1) = Inr r1" by (simp add: get_item_def items)
  ultimately show ?thesis by auto
qed

end
