(* ===== verification/Requests_Spec.thy ===== *)
theory Requests_Spec
  imports Requests General_Spec Bots_Spec Service_Spec
begin

text \<open>
  What creating a match request does: all of it or nothing; the bots that were selected play, with
  the artifacts of their ready revisions; listings follow the runs; and one kind of registration
  whose matches are never admitted.
\<close>

section \<open>All or nothing\<close>

lemma submit_world:
  assumes "memory_commands cm" "submit cm sub w = (res, w')"
  shows "w' = w\<lparr>sv_queue := sv_queue w'\<rparr>"
  using assms
  by (auto simp: submit_def memory_commands_def memory_ops_def on_queue_def split: option.splits sum.splits if_splits prod.splits)

lemma cancel_world:
  assumes "memory_commands cm"
  shows "snd (cancel_run cm rid w) = w\<lparr>sv_queue := snd (cancel_queued rid (sv_queue w))\<rparr>"
  using assms
  by (auto simp: cancel_run_def memory_commands_def memory_ops_def on_queue_def split: sum.splits prod.splits)

lemma memory_request_env_sel [simp]:
  "re_commands (memory_request_env cm) = cm"
  "re_game (memory_request_env cm) i w = get_item i (gw_games (as_general (sv_rest w)))"
  "re_ai (memory_request_env cm) i w = get_item i (gw_ais (as_general (sv_rest w)))"
  "re_bots (memory_request_env cm) = Some (\<lambda>scope ids w. resolve_eligible scope ids (as_bots (sv_rest w)))"
  "re_save (memory_request_env cm) item = on_requests (save_match_request item)"
  by (simp_all add: memory_request_env_def)

definition unscheduled :: "'x arena_state service \<Rightarrow> 'x arena_state service \<Rightarrow> bool" where
  "unscheduled w w' \<longleftrightarrow> sv_rest w' = sv_rest w \<and> qs_order (sv_queue w') = qs_order (sv_queue w) \<and>
     (\<forall>k. lookup (sv_queue w') k = lookup (sv_queue w) k \<or>
        lookup (sv_queue w) k = None \<and> (\<exists>r. lookup (sv_queue w') k = Some r \<and> qr_state r = StateCanceled))"

definition scheduled :: "'x arena_state service commands \<Rightarrow> 'x arena_state service \<Rightarrow> match_request \<Rightarrow> queue_record \<Rightarrow>
    'x arena_state service \<Rightarrow> bool" where
  "scheduled cm w item r w' \<longleftrightarrow>
     cm_validate cm (qr_submission r) w = None \<and> qr_state r = StateQueued \<and> \<not> qr_official r \<and>
     lookup (sv_queue w) (qr_run r) = None \<and> lookup (sv_queue w') = (lookup (sv_queue w))(qr_run r \<mapsto> r) \<and>
     qs_order (sv_queue w') = qs_order (sv_queue w) @ [qr_run r] \<and>
     list_items (as_requests (sv_rest w')) = list_items (as_requests (sv_rest w)) @ [item] \<and>
     sv_rest w' = (sv_rest w)\<lparr>as_requests := as_requests (sv_rest w')\<rparr> \<and>
     mq_latest item = qr_run r \<and> mq_match item = qr_match r \<and> mq_official item = [] \<and> mq_state item = StateQueued"

lemma unscheduled_refl: "unscheduled w w"
  by (simp add: unscheduled_def)

lemma rollback_unscheduled:
  assumes cm: "memory_commands cm" and ok: "queue_ok (sv_queue w)"
    and q: "sv_queue w1 = snd (enqueue (qr_submission r) (sv_queue w))"
    and r: "lookup (sv_queue w) (qr_run r) = None" "lookup (sv_queue w1) = (lookup (sv_queue w))(qr_run r \<mapsto> r)"
      "qr_state r = StateQueued" "qr_run r \<noteq> []" "qs_order (sv_queue w1) = qs_order (sv_queue w) @ [qr_run r]"
    and rest: "sv_rest w1 = sv_rest w"
  shows "unscheduled w (snd (rollback_queued_submission (memory_request_env cm) r cause w1))"
proof -
  have "qr_run r \<notin> set (qs_order (sv_queue w))" using queue_okD(5) [OF ok] r(1) by auto
  then have order: "filter (\<lambda>id. id \<noteq> qr_run r) (qs_order (sv_queue w)) = qs_order (sv_queue w)"
    by (auto simp: filter_id_conv)
  have w2: "snd (rollback_queued_submission (memory_request_env cm) r cause w1) =
      w1\<lparr>sv_queue := snd (cancel_queued (qr_run r) (sv_queue w1))\<rparr>"
    using r(4) cancel_world [OF cm, of "qr_run r" w1]
    by (auto simp: rollback_queued_submission_def split: prod.splits sum.splits)
  let ?canceled = "r\<lparr>qr_state := StateCanceled, qr_lease := None, qr_terminal := None\<rparr>"
  let ?s2 = "snd (cancel_queued (qr_run r) (sv_queue w1))"
  have here: "lookup (sv_queue w1) (qr_run r) = Some r" using r(2) by simp
  have "?s2 = (sv_queue w1)\<lparr>qs_records := put (qr_run r) ?canceled (qs_records (sv_queue w1)),
      qs_order := filter (\<lambda>id. id \<noteq> qr_run r) (qs_order (sv_queue w1))\<rparr>"
    by (cases rule: cancel_cases [of "qr_run r" "sv_queue w1"]) (use here r(3) in auto)
  moreover from this have "lookup ?s2 = (lookup (sv_queue w))(qr_run r \<mapsto> ?canceled)"
    using r(2) by (simp add: lookup_def)
  ultimately show ?thesis using r(1,5) rest order by (simp add: unscheduled_def w2)
qed

lemma schedule_memory:
  assumes cm: "memory_commands cm" and ok: "queue_ok (sv_queue w)" "item_store_ok mq_id (as_requests (sv_rest w))"
    and sub: "\<not> ms_official sub" and run: "schedule (memory_request_env cm) i rid ps sub w = (res, w')"
  shows "case res of Inl e \<Rightarrow> unscheduled w w' | Inr (item, r) \<Rightarrow> scheduled cm w item r w' \<and> qr_submission r = sub"
proof (cases "submit cm sub w")
  case (Pair sres w1)
  note world = submit_world [OF cm Pair] and spec = submit_memory [OF cm Pair]
  show ?thesis
  proof (cases sres)
    case (Inl e)
    then have "w1 = w" using spec by simp
    then have "schedule (memory_request_env cm) i rid ps sub w = (Inl (RequestSubmit e), w)"
      using Pair Inl by (simp add: schedule_def)
    with run have "res = Inl (RequestSubmit e)" "w' = w" by auto
    then show ?thesis by (simp add: unscheduled_refl)
  next
    case (Inr r)
    let ?item = "\<lparr>mq_id = i, mq_registration = rid, mq_game = ms_game sub, mq_participants = ps,
      mq_output_dir = ms_output_dir sub, mq_source = ''manual'', mq_source_id = [],
      mq_match = qr_match r, mq_latest = qr_run r, mq_official = official_run_id r, mq_state = qr_state r\<rparr>"
    have r: "cm_validate cm sub w = None" "lookup (sv_queue w) (ms_run sub) = None" "\<not> blank (ms_run sub)"
      "r = \<lparr>qr_submission = sub, qr_state = StateQueued, qr_completed_at = None, qr_lease = None, qr_terminal = None\<rparr>"
      "lookup (sv_queue w1) = (lookup (sv_queue w))(ms_run sub \<mapsto> r)"
      "qs_order (sv_queue w1) = qs_order (sv_queue w) @ [ms_run sub]" "sv_queue w1 = snd (enqueue sub (sv_queue w))"
      using spec Inr by auto
    have rest: "sv_rest w1 = sv_rest w" by (subst world) simp
    let ?saved = "save_match_request ?item (as_requests (sv_rest w))"
    have save: "re_save (memory_request_env cm) ?item w1 =
        (fst ?saved, w1\<lparr>sv_rest := (sv_rest w)\<lparr>as_requests := snd ?saved\<rparr>\<rparr>)"
      using rest by (simp add: on_requests_def split: prod.splits)
    show ?thesis
    proof (cases "fst ?saved")
      case None
      then have new: "map_of (is_items (as_requests (sv_rest w))) (mq_id ?item) = None"
        by (auto simp: save_match_request_def save_item_None)
      have "schedule (memory_request_env cm) i rid ps sub w =
          (Inr (?item, r), w1\<lparr>sv_rest := (sv_rest w)\<lparr>as_requests := snd ?saved\<rparr>\<rparr>)"
        using Pair Inr save [unfolded memory_request_env_sel] None by (simp add: schedule_def Let_def)
      with run have "res = Inr (?item, r)" "w' = w1\<lparr>sv_rest := (sv_rest w)\<lparr>as_requests := snd ?saved\<rparr>\<rparr>" by auto
      moreover have "list_items (snd ?saved) = list_items (as_requests (sv_rest w)) @ [?item]"
        using list_items_new_id [OF ok(2) new] None by (simp add: save_match_request_def)
      ultimately show ?thesis
        using r sub by (simp add: scheduled_def official_run_id_def)
    next
      case (Some e)
      then have "snd ?saved = as_requests (sv_rest w)"
        unfolding save_match_request_def by (rule save_item_Some)
      then have same: "w1\<lparr>sv_rest := (sv_rest w)\<lparr>as_requests := snd ?saved\<rparr>\<rparr> = w1" using rest by (metis (no_types) arena_state.surjective arena_state.update_convs(1) service.surjective service.update_convs(3))
      have "\<exists>cause. schedule (memory_request_env cm) i rid ps sub w =
          apfst Inl (rollback_queued_submission (memory_request_env cm) r cause w1)"
        using Pair Inr save [unfolded memory_request_env_sel] Some same by (auto simp: schedule_def Let_def)
      then obtain cause where c: "schedule (memory_request_env cm) i rid ps sub w =
          apfst Inl (rollback_queued_submission (memory_request_env cm) r cause w1)" by blast
      have "unscheduled w (snd (rollback_queued_submission (memory_request_env cm) r cause w1))"
      proof (rule rollback_unscheduled [OF cm ok(1)])
        show "qr_run r \<noteq> []" using r(3,4) by auto
      qed (use r rest in simp_all)
      moreover have "w' = snd (rollback_queued_submission (memory_request_env cm) r cause w1)" "\<exists>e. res = Inl e"
        using c run by (cases "rollback_queued_submission (memory_request_env cm) r cause w1"; simp)+
      ultimately show ?thesis by auto
    qed
  qed
qed

text \<open>The registration that a request names.\<close>

definition request_registration :: "create_request \<Rightarrow> string" where
  "request_registration req =
     (if trim_space (cq_scope req) = [] then trim_space (cq_registration req) else trim_space (cq_scope req))"

lemma create_match_request_cases:
  assumes fails: "\<And>e. P (Inl e, w)"
    and sched: "\<And>g i ps sub. re_game env (request_registration req) w = Inr g \<Longrightarrow> \<not> ms_official sub \<Longrightarrow>
      ms_game sub = gr_game g \<Longrightarrow> ms_game_artifact sub = game_artifact_id g \<Longrightarrow>
      P (schedule env i (request_registration req) ps sub w)"
  shows "P (create_match_request env ids req w)"
proof -
  have ite: "P (if c then x else y)" if "P x" "P y" for c x y using that by simp
  have players: "P (case z of Inl a \<Rightarrow> f a | Inr b \<Rightarrow> g b)" if "\<And>a. P (f a)" "\<And>b. P (g b)"
    for z :: "request_error + submitted_player list" and f g using that by (cases z) simp_all
  show ?thesis
  proof (cases "re_game env (request_registration req) w")
    case (Inl e)
    then show ?thesis
      unfolding create_match_request_def Let_def request_registration_def [symmetric] Inl sum.case by (intro ite fails)
  next
    case (Inr g)
    show ?thesis
      unfolding create_match_request_def Let_def request_registration_def [symmetric] Inr sum.case
      by (intro ite players sched [OF Inr] fails) simp_all
  qed
qed

text \<open>
  C27. Creating a match request is all or nothing: on success exactly one admitted run is queued, at
  the end, with its request stored and pointing to it; on any failure, a duplicate request id
  included, the queue of pending runs and the requests are as before, and at most a canceled record
  of a run that was taken back remains.
\<close>

theorem match_request_all_or_nothing:
  assumes cm: "memory_commands cm" and ok: "queue_ok (sv_queue w)" "item_store_ok mq_id (as_requests (sv_rest w))"
    and create: "create_match_request (memory_request_env cm) ids req w = (res, w')"
  shows "case res of Inl e \<Rightarrow> unscheduled w w' | Inr (item, r) \<Rightarrow> scheduled cm w item r w'"
proof -
  let ?good = "\<lambda>x. case fst x of Inl e \<Rightarrow> unscheduled w (snd x) | Inr (item, r) \<Rightarrow> scheduled cm w item r (snd x)"
  have fails: "?good (Inl e, w)" for e by (simp add: unscheduled_refl)
  have sched: "?good (schedule (memory_request_env cm) i rid ps sub w)" if "\<not> ms_official sub" for i rid ps sub
    using schedule_memory [OF cm ok that prod.collapse [symmetric], of i rid ps]
    by (auto split: sum.splits prod.splits)
  have "?good (create_match_request (memory_request_env cm) ids req w)"
    by (rule create_match_request_cases) (rule fails, rule sched)
  then show ?thesis unfolding create fst_conv snd_conv .
qed

section \<open>The players of a request\<close>

lemma enumerate_bot_players:
  "map (\<lambda>(i, b). bot_player i b) (enumerate n bots) = map2 bot_player [n..<n + length bots] bots"
  by (simp add: enumerate_eq_zip)

lemma map_map2_left: "(\<And>x y. f (g x y) = h x) \<Longrightarrow> length xs = length ys \<Longrightarrow> map f (map2 g xs ys) = map h xs"
  by (induction xs ys rule: list_induct2') simp_all

lemma map_map2_right: "(\<And>x y. f (g x y) = h y) \<Longrightarrow> length xs = length ys \<Longrightarrow> map f (map2 g xs ys) = map h ys"
  by (induction xs ys rule: list_induct2') simp_all

lemma schedule_registration:
  assumes "schedule env i rid ps sub w = (Inr (item, r), w')"
  shows "mq_registration item = rid"
proof -
  have inl: "(apfst Inl x = (Inr y, z)) = False" for x y z by (cases x) simp
  show ?thesis
    using assms by (auto simp: schedule_def Let_def inl split: sum.splits option.splits prod.splits)
qed

lemma check_bot_ids:
  "foldR check_bot_id ids seen = Inr seen' \<Longrightarrow> distinct (map trim_space ids) \<and> set (map trim_space ids) \<inter> set seen = {}"
proof (induction ids arbitrary: seen)
  case (Cons raw ids)
  from Cons.prems obtain seen1 where one: "check_bot_id raw seen = Inr seen1" and rest: "foldR check_bot_id ids seen1 = Inr seen'"
    by (auto simp: bindR_eq_Inr)
  from one have new: "trim_space raw \<notin> set seen" and "seen1 = trim_space raw # seen"
    by (simp_all add: check_bot_id_def Let_def split: if_splits)
  with rest have "foldR check_bot_id ids (trim_space raw # seen) = Inr seen'" by simp
  from this have "distinct (map trim_space ids) \<and> set (map trim_space ids) \<inter> set (trim_space raw # seen) = {}"
    by (rule Cons.IH)
  then show ?case using new by auto
qed simp

text \<open>A player of a submission who is an active bot of the scope with its ready revision.\<close>

definition plays_ready_bot :: "bot_store \<Rightarrow> string \<Rightarrow> submitted_player \<Rightarrow> bool" where
  "plays_ready_bot s scope p \<longleftrightarrow>
     (\<exists>b revn. map_of (bs_bots s) (sp_bot p) = Some b \<and> ob_scope b = scope \<and> ob_state b = BotActive \<and>
        sp_bot_name p = ob_name b \<and> sp_ai_submission p = ob_revision b \<and>
        map_of (bs_revisions s) (ob_revision b) = Some revn \<and> br_validation revn = ValidationReady \<and>
        br_bot revn = sp_bot p \<and> sp_artifact p = br_artifact revn)"

lemma eligible_bot_plays:
  assumes ok: "bot_store_ok quota s" and e: "rb_eligible r \<in> set (list_eligible scope s)"
    and revn: "map_of (bs_revisions s) (eb_revision (rb_eligible r)) = Some revn" "br_validation revn = ValidationReady"
      "br_bot revn = eb_bot (rb_eligible r)" "rb_artifact r = br_artifact revn"
  shows "plays_ready_bot s (trim_space scope) (bot_player i r)"
proof -
  obtain k b where b: "(k, b) \<in> set (bs_bots s)" "ready_revision s scope b \<noteq> None" "rb_eligible r = eligible_of b"
    using e by (auto simp: list_eligible_def)
  have k: "map_of (bs_bots s) k = Some b" using b(1) bot_store_okD(1) [OF ok] by simp
  have "ob_bot b = k" using bot_store_okD(2) [OF ok k] by simp
  then show ?thesis
    using b(2,3) k revn
    by (auto simp: plays_ready_bot_def bot_player_def eligible_of_def ready_revision_def split: if_splits)
qed

text \<open>
  C26. The match that was asked for is the one that is scheduled: a request by bots queues a run of
  the registered game, with the artifact the registration stands for, whose players are exactly the
  selected bots, all different, as many as the game wants, in their order as \<open>p1\<close>, \<open>p2\<close>, ..., each
  an active bot of the scope playing the artifact of its ready revision.
\<close>

theorem match_request_plays_selected_bots:
  assumes cm: "memory_commands cm" and ok: "queue_ok (sv_queue w)" "item_store_ok mq_id (as_requests (sv_rest w))"
    and bots: "(bot_step to_lower quota)\<^sup>*\<^sup>* new_bot_store (as_bots (sv_rest w))" and some: "cq_bots req \<noteq> []"
    and create: "create_match_request (memory_request_env cm) ids req w = (Inr (item, r), w')"
  shows "\<exists>g. get_item (mq_registration item) (gw_games (as_general (sv_rest w))) = Inr g \<and>
    ms_game (qr_submission r) = gr_game g \<and> ms_game_artifact (qr_submission r) = game_artifact_id g \<and>
    int (length (ms_players (qr_submission r))) = gr_players g \<and>
    map sp_bot (ms_players (qr_submission r)) = map trim_space (cq_bots req) \<and>
    distinct (map sp_bot (ms_players (qr_submission r))) \<and>
    map sp_player (ms_players (qr_submission r)) =
      map (\<lambda>i. ''p'' @ itoa (int i + 1)) [0..<length (cq_bots req)] \<and>
    (\<forall>p \<in> set (ms_players (qr_submission r)). plays_ready_bot (as_bots (sv_rest w)) (mq_registration item) p)"
proof -
  let ?s = "as_bots (sv_rest w)"
  define rid where "rid = (if trim_space (cq_scope req) = [] then trim_space (cq_registration req) else trim_space (cq_scope req))"
  have rid: "trim_space rid = rid" by (simp add: rid_def)
  obtain g players ps sub i where g: "get_item rid (gw_games (as_general (sv_rest w))) = Inr g"
    and p: "resolve_bots (memory_request_env cm) rid g (cq_bots req) w = Inr players"
    and sub: "sub = \<lparr>ms_run = ''run-'' @ fi_run ids, ms_match = ''match-'' @ fi_match ids, ms_game = gr_game g,
                    ms_game_artifact = game_artifact_id g, ms_players = players, ms_output_dir = ''matches'',
                    ms_attempt = 1, ms_parent = [], ms_kind = RunKindInitial, ms_official = False\<rparr>"
    and sched: "schedule (memory_request_env cm) i rid ps sub w = (Inr (item, r), w')"
    using create some unfolding create_match_request_def Let_def rid_def [symmetric]
    by (auto split: sum.splits if_splits)
  have r: "qr_submission r = sub"
    using schedule_memory [OF cm ok _ sched] sub by simp
  have item: "mq_registration item = rid" by (rule schedule_registration [OF sched])
  obtain items where n: "int (length (cq_bots req)) = gr_players g"
    and checked: "\<exists>seen. foldR check_bot_id (cq_bots req) [] = Inr seen"
    and items: "resolve_eligible rid (cq_bots req) ?s = Inr items"
    and players: "players = map (\<lambda>(i, b). bot_player i b) (enumerate 0 items)"
    using p by (auto simp: resolve_bots_def bindR_eq_Inr split: sum.splits if_splits)
  have spec: "map (\<lambda>r. eb_bot (rb_eligible r)) items = map trim_space (cq_bots req)"
    "\<forall>r \<in> set items. rb_eligible r \<in> set (list_eligible rid ?s) \<and>
       (\<exists>revn. map_of (bs_revisions ?s) (eb_revision (rb_eligible r)) = Some revn \<and>
          br_validation revn = ValidationReady \<and> br_bot revn = eb_bot (rb_eligible r) \<and> rb_artifact r = br_artifact revn)"
    using resolved_bots [OF bots, where scope = rid and ids = "cq_bots req"] items by simp_all
  have len: "length items = length (cq_bots req)" using spec(1) by (metis length_map)
  have ps: "players = map2 bot_player [0..<length (cq_bots req)] items"
    using players len by (simp add: enumerate_bot_players)
  have ps_len: "length players = length (cq_bots req)" using len by (simp add: ps)
  have bot: "sp_bot (bot_player i b) = eb_bot (rb_eligible b)" "sp_player (bot_player i b) = ''p'' @ itoa (int i + 1)" for i b
    by (simp_all add: bot_player_def)
  have "map sp_bot players = map (\<lambda>r. eb_bot (rb_eligible r)) items"
    unfolding ps by (rule map_map2_right) (simp_all add: bot len)
  moreover have "map sp_player players = map (\<lambda>i. ''p'' @ itoa (int i + 1)) [0..<length (cq_bots req)]"
    unfolding ps by (rule map_map2_left) (simp_all add: bot len)
  moreover have "\<forall>p \<in> set players. plays_ready_bot ?s rid p"
  proof
    fix p assume "p \<in> set players"
    then obtain i b where b: "b \<in> set items" "p = bot_player i b" by (auto simp: ps dest: set_zip_rightD)
    obtain revn where "rb_eligible b \<in> set (list_eligible rid ?s)"
      "map_of (bs_revisions ?s) (eb_revision (rb_eligible b)) = Some revn" "br_validation revn = ValidationReady"
      "br_bot revn = eb_bot (rb_eligible b)" "rb_artifact b = br_artifact revn"
      using spec(2) b(1) by metis
    from eligible_bot_plays [OF bot_steps_inv [OF bots bot_store_ok_new] this] show "plays_ready_bot ?s rid p"
      by (simp add: rid b(2))
  qed
  moreover have "distinct (map trim_space (cq_bots req))" using checked check_bot_ids by blast
  ultimately show ?thesis
    using g r sub item n spec(1) len by (simp add: ps_len)
qed

section \<open>Registrations that never play\<close>

lemma refused_submission:
  assumes "cm_validate (re_commands env) sub w \<noteq> None"
  shows "\<exists>e. schedule env i rid ps sub w = (Inl e, w)"
  using assms by (auto simp: schedule_def submit_def split: option.splits)

text \<open>
  C28. A registration by name and version is served by the latest release of its major version, so
  when that release has another version than the registered one, admission compares the two versions
  and refuses the run of every request for the registration, whatever bots or participants it has.
\<close>

theorem mismatched_release_never_scheduled:
  assumes built: "build_registered_game env rid game x = Inr g"
    and found: "lookup_version (ge_registry env) (gm_game_id game) (gm_game_version game) x = Inr d"
    and d: "gd_builder d = ''artifact/'' @ gd_artifact d" "gd_artifact d \<noteq> []" "gd_version d \<noteq> gm_game_version game"
    and now: "get_item rid (gw_games (as_general (sv_rest w))) = Inr g"
      "lookup_artifact (ge_registry env) (gd_artifact d) (gw_rest (as_general (sv_rest w))) = Inr d"
    and req: "request_registration req = rid"
  shows "\<exists>e. create_match_request (memory_request_env (arena_commands env show_error cm)) ids req w = (Inl e, w)"
proof (rule create_match_request_cases)
  fix g' i ps and sub :: match_submission
  assume g': "re_game (memory_request_env (arena_commands env show_error cm)) (request_registration req) w = Inr g'"
    and sub: "ms_game sub = gr_game g'" "ms_game_artifact sub = game_artifact_id g'"
  have "g' = g" using g' now(1) req by simp
  moreover have "gr_game g = game" "gr_builder g = gd_builder d"
    using built found by (auto simp: build_registered_game_def bindR_eq_Inr Let_def split: option.splits if_splits)
  ultimately have "ms_game sub = game" "ms_game_artifact sub = gd_artifact d"
    using sub d(1) by (simp_all add: game_artifact_id_def)
  then have "admission_validate (ge_admission env) (ge_registry env) sub (gw_rest (as_general (sv_rest w))) \<noteq> None"
    using d(2,3) now(2) by (simp add: admission_validate_def submission_descriptor_def Let_def split: option.splits)
  then have "cm_validate (re_commands (memory_request_env (arena_commands env show_error cm))) sub w \<noteq> None"
    by (simp add: arena_commands_def)
  from refused_submission [OF this]
  show "\<exists>e. schedule (memory_request_env (arena_commands env show_error cm)) i (request_registration req) ps sub w = (Inl e, w)" .
qed simp

end
