(* ===== verification/Requests_Examples.thy ===== *)
theory Requests_Examples
  imports Requests_Spec
begin

text \<open>Match requests on a concrete service: one bot alone, and a registration that never plays.\<close>

definition solo_game :: registered_game where
  "solo_game = \<lparr>gr_id = ''janken-v2-regular'',
     gr_game = \<lparr>gm_game_id = ''janken'', gm_game_version = ''2.0.0'', gm_ruleset = ''regular''\<rparr>,
     gr_artifact = ''a'', gr_players = 1, gr_max_bots = 1, gr_mode = WasmWasi, gr_builder = ''artifact/a'',
     gr_rulesets = [''regular''], gr_source = ''manual'', gr_source_id = []\<rparr>"

definition arena :: "registered_game \<Rightarrow> 'x \<Rightarrow> bot_store \<Rightarrow> 'x arena_state service" where
  "arena g x bots = \<lparr>sv_queue = new_queue_store, sv_now = 0,
     sv_rest = \<lparr>as_requests = new_item_store,
       as_general = \<lparr>gw_games = \<lparr>is_order = [gr_id g], is_items = [(gr_id g, g)]\<rparr>, gw_ais = new_item_store, gw_rest = x\<rparr>,
       as_bots = bots\<rparr>\<rparr>"

definition lenient_commands :: "'x arena_state service commands" where
  "lenient_commands = \<lparr>cm_queue = memory_ops,
     cm_validate = (\<lambda>sub w. if validate_submission sub = None then None else Some ''invalid''),
     cm_refresh = None, cm_uuid = (\<lambda>w. (''2'', w))\<rparr>"

definition solo_request :: create_request where
  "solo_request = \<lparr>cq_scope = ''janken-v2-regular'', cq_bots = ['' bot-1''], cq_id = [], cq_registration = [],
     cq_participants = [], cq_output_dir = [], cq_match = []\<rparr>"

definition first_ids :: fresh_ids where
  "first_ids = \<lparr>fi_request = ''1'', fi_run = ''1'', fi_match = ''1''\<rparr>"

abbreviation solo_arena :: "unit arena_state service" where
  "solo_arena \<equiv> arena solo_game () sample_bots"

abbreviation solo_created :: "(request_error + match_request \<times> queue_record) \<times> unit arena_state service" where
  "solo_created \<equiv> create_match_request (memory_request_env lenient_commands) first_ids solo_request solo_arena"

lemma lenient_memory_commands: "memory_commands lenient_commands"
  by (simp add: memory_commands_def lenient_commands_def)

lemma arena_ok: "queue_ok (sv_queue (arena g x bots))" "item_store_ok mq_id (as_requests (sv_rest (arena g x bots)))"
  by (simp_all add: arena_def queue_ok_new item_store_ok_new)

lemma solo_admitted:
  "\<exists>item r w'. solo_created = (Inr (item, r), w')"
proof -
  have "\<not> isl (fst (solo_created))"
    by code_simp
  then show ?thesis by (metis isl_def obj_sumE prod.collapse)
qed

theorem match_request_all_or_nothing_witness:
  "\<exists>item r w'. solo_created = (Inr (item, r), w') \<and>
     qs_order (sv_queue w') = [qr_run r] \<and> list_items (as_requests (sv_rest w')) = [item]"
proof -
  obtain item r w' where c: "solo_created = (Inr (item, r), w')"
    using solo_admitted by blast
  from match_request_all_or_nothing [OF lenient_memory_commands arena_ok c]
  have "scheduled lenient_commands solo_arena item r w'" by simp
  then have "qs_order (sv_queue w') = [qr_run r]" "list_items (as_requests (sv_rest w')) = [item]"
    by (simp_all add: scheduled_def arena_def new_queue_store_def new_item_store_def list_items_def)
  with c show ?thesis by blast
qed

theorem match_request_plays_selected_bots_witness:
  "\<exists>item r w'. solo_created = (Inr (item, r), w') \<and>
     map sp_bot (ms_players (qr_submission r)) = [''bot-1''] \<and> map sp_player (ms_players (qr_submission r)) = [''p1'']"
proof -
  obtain item r w' where c: "solo_created = (Inr (item, r), w')"
    using solo_admitted by blast
  have bots: "(bot_step (\<lambda>s. s) (\<lambda>_. 1))\<^sup>*\<^sup>* new_bot_store (as_bots (sv_rest solo_arena))"
    using sample_bots_reach by (simp add: arena_def)
  have some: "cq_bots solo_request \<noteq> []" by (simp add: solo_request_def)
  have t: "map trim_space (cq_bots solo_request) = [''bot-1'']" "length (cq_bots solo_request) = 1" "itoa 1 = ''1''" by code_simp+
  show ?thesis
    using match_request_plays_selected_bots [OF lenient_memory_commands arena_ok bots some c] c t by auto
qed

definition lobby_env :: "(memory_registry, unit) general_env" where
  "lobby_env =
     \<lparr>ge_admission =
        \<lparr>ad_files = \<lparr>fl_stat = \<lambda>_. Absent, fl_json = \<lambda>_. None\<rparr>, ad_url = \<lambda>_. None, ad_base = ''/srv'',
         ad_bundle = sample_bundle_env ''game'', ad_store = None\<rparr>,
      ge_registry =
        \<lparr>rg_store = memory_registry_store text_versions,
         rg_resolve = wasi_resolve text_versions (\<lambda>_. \<lparr>hk_session = None, hk_from_snapshot = None, hk_history = None\<rparr>)\<rparr>\<rparr>"

definition old_release :: game_metadata where
  "old_release = \<lparr>gm_game_id = ''go'', gm_game_version = ''1.0.0'', gm_ruleset = ''r''\<rparr>"

definition old_request :: create_request where
  "old_request = \<lparr>cq_scope = [], cq_bots = [], cq_id = [], cq_registration = ''old'',
     cq_participants = [\<lparr>rp_player = ''p1'', rp_bot = [], rp_ai = ''a''\<rparr>], cq_output_dir = ''out'', cq_match = []\<rparr>"

definition old_built :: "(general_error + registered_game) \<times> (registry_error + unit game_descriptor)" where
  "old_built = (build_registered_game lobby_env ''old'' old_release two_releases,
     lookup_version (ge_registry lobby_env) ''go'' ''1.0.0'' two_releases)"

lemma old_built_values:
  "\<not> isl (fst old_built)"
  "map_sum (\<lambda>_. ()) (\<lambda>d. (gd_builder d, gd_artifact d, gd_version d)) (snd old_built) = Inr (''artifact/b'', ''b'', ''1.1.0'')"
  "lookup_artifact (ge_registry lobby_env) ''b'' two_releases = snd old_built"
  by code_simp+

theorem mismatched_release_never_scheduled_witness:
  "\<exists>g e. build_registered_game lobby_env ''old'' old_release two_releases = Inr g \<and>
     create_match_request (memory_request_env (arena_commands lobby_env (\<lambda>_. []) lenient_commands)) first_ids old_request
       (arena g two_releases new_bot_store) = (Inl e, arena g two_releases new_bot_store)"
proof -
  obtain g where g: "build_registered_game lobby_env ''old'' old_release two_releases = Inr g"
    using old_built_values(1) by (cases "build_registered_game lobby_env ''old'' old_release two_releases") (simp_all add: old_built_def)
  obtain d where d: "snd old_built = Inr d" "gd_builder d = ''artifact/b''" "gd_artifact d = ''b''" "gd_version d = ''1.1.0''"
    using old_built_values(2) by (cases "snd old_built") simp_all
  have id: "gr_id g = ''old''"
    using g by (auto simp: build_registered_game_def bindR_eq_Inr Let_def split: option.splits sum.splits if_splits)
  have req: "request_registration old_request = ''old''" by code_simp
  have found: "lookup_version (ge_registry lobby_env) (gm_game_id old_release) (gm_game_version old_release) two_releases = Inr d"
    using d(1) by (simp add: old_built_def old_release_def)
  have now: "get_item ''old'' (gw_games (as_general (sv_rest (arena g two_releases new_bot_store)))) = Inr g"
    "lookup_artifact (ge_registry lobby_env) (gd_artifact d) (gw_rest (as_general (sv_rest (arena g two_releases new_bot_store)))) = Inr d"
    using old_built_values(3) d id by (simp_all add: arena_def get_item_def)
  have "gd_builder d = ''artifact/'' @ gd_artifact d" "gd_artifact d \<noteq> []" "gd_version d \<noteq> gm_game_version old_release"
    using d by (simp_all add: old_release_def)
  from mismatched_release_never_scheduled [OF g found this now req] g show ?thesis by blast
qed

end
