(* ===== verification/General_Examples.thy ===== *)
theory General_Examples
  imports General_Spec
begin

text \<open>A local service with one uploaded game bundle, and AIs uploaded to it.\<close>

lemma no_space_prefix:
  assumes "\<forall>p \<in> set ps. p \<noteq> [] \<longrightarrow> hd p \<noteq> c"
  shows "trim_front ps (c # cs) = c # cs"
proof (rule trim_front_stop)
  show "find (\<lambda>p. p \<noteq> [] \<and> prefix p (c # cs)) ps = None"
    using assms by (auto simp: find_None_iff prefix_Cons)
qed

lemma hex_digits: "n < 16 \<Longrightarrow> hex_digit n \<in> set ''0123456789abcdef''"
proof -
  have "\<forall>n \<in> set [0..<16]. hex_digit n \<in> set ''0123456789abcdef''" by code_simp
  then show "n < 16 \<Longrightarrow> hex_digit n \<in> set ''0123456789abcdef''" by (metis atLeastLessThan_upt atLeastLessThan_iff le0)
qed

lemma trim_bundle_digest: "trim_space (bundle_digest data) = bundle_digest data"
proof -
  have "sum256 data \<noteq> []" using length_sum256 [of data] by auto
  then obtain xs x where "sum256 data = xs @ [x]" by (metis rev_exhaust)
  then obtain ys where ys: "bundle_digest data = ys @ [hex_digit (of_char x mod 16)]"
    by (simp add: bundle_digest_def hex_def)
  have front: "\<forall>p \<in> set space_seqs. p \<noteq> [] \<longrightarrow> hd p \<noteq> CHR ''s''" by code_simp
  have rear: "\<forall>c \<in> set ''0123456789abcdef''. \<forall>p \<in> set (map rev space_seqs). p \<noteq> [] \<longrightarrow> hd p \<noteq> c" by code_simp
  obtain zs where zs: "bundle_digest data = CHR ''s'' # zs" by (simp add: bundle_digest_def)
  have "trim_front space_seqs (bundle_digest data) = bundle_digest data"
    unfolding zs by (rule no_space_prefix [OF front])
  moreover have "trim_front (map rev space_seqs) (rev (bundle_digest data)) = rev (bundle_digest data)"
    unfolding ys using no_space_prefix [OF bspec [OF rear hex_digits]] by simp
  ultimately show ?thesis by (simp add: trim_space_def)
qed

definition shop_env :: "string \<Rightarrow> (local_state, unit) general_env" where
  "shop_env kind =
     \<lparr>ge_admission =
        \<lparr>ad_files = \<lparr>fl_stat = \<lambda>_. Absent, fl_json = \<lambda>_. None\<rparr>, ad_url = \<lambda>_. None, ad_base = ''/srv'',
         ad_bundle = sample_bundle_env kind, ad_store = Some (local_bundle_store ''/b'')\<rparr>,
      ge_registry =
        \<lparr>rg_store = local_registry_store text_versions,
         rg_resolve = wasi_resolve text_versions (\<lambda>_. \<lparr>hk_session = None, hk_from_snapshot = None, hk_history = None\<rparr>)\<rparr>\<rparr>"

definition shop_record :: descriptor_record where
  "shop_record = bundle_record (sample_bundle ''game'' ''zip'') 1 [''r'']"

definition shop_state :: "string \<Rightarrow> local_state" where
  "shop_state path = \<lparr>lo_files = [path \<mapsto> ''zip''],
     lo_registry = MemoryRegistry [(\<lparr>rk_game = ''go'', rk_major = 1\<rparr>, [shop_record])] None\<rparr>"

definition shop_world :: "string \<Rightarrow> local_state general_world" where
  "shop_world path = \<lparr>gw_games = new_item_store, gw_ais = new_item_store, gw_rest = shop_state path\<rparr>"

definition shop_request :: game_request where
  "shop_request = \<lparr>gq_id = [], gq_game = \<lparr>gm_game_id = [], gm_game_version = [], gm_ruleset = []\<rparr>,
     gq_artifact = bundle_digest ''zip'', gq_ruleset = ''r''\<rparr>"

lemma trimmed: "trim_space ''r'' = ''r''" "trim_space ''go'' = ''go''" "major_version ''1.0.0'' = Some 1"
  "\<not> blank ''go-v1-r''" "itoa 1 = ''1''"
  by code_simp+

lemma shop_record_valid: "validate_descriptor_record text_versions shop_record = None"
proof -
  have "sv_major text_versions (with_v ''1.0.0'') = ''v1''" by code_simp
  then show ?thesis
    by (simp add: validate_descriptor_record_def shop_record_def bundle_record_def sample_bundle_def sample_manifest_def
        validate_registry_key_def validate_build_mode_def validate_rulesets_def text_versions_def trimmed)
qed

lemma shop_game:
  assumes "path_for ''/b'' (bundle_digest ''zip'') = Inr path"
  shows "\<exists>g. build_artifact_game (shop_env ''game'') shop_request (shop_state path) = Inr g \<and> gr_id g = ''go-v1-r''"
proof -
  have read: "read_bundle (sample_bundle_env ''game'') ''zip'' = Inr (sample_bundle ''game'' ''zip'')"
    by (rule sample_read) simp_all
  have stored: "read_stored ''/b'' (bundle_digest ''zip'') [path \<mapsto> ''zip''] = Inr ''zip''"
    using assms by (simp add: read_stored_def)
  have digest: "bundle_digest ''zip'' \<noteq> []" by (simp add: bundle_digest_def)
  have made: "dr_artifact shop_record = bundle_digest ''zip''" "dr_game shop_record = ''go''" "dr_version shop_record = ''1.0.0''"
    "dr_mode shop_record = WasmWasi" "dr_builder shop_record = ''artifact/'' @ bundle_digest ''zip''" "dr_rulesets shop_record = [''r'']"
    by (simp_all add: shop_record_def bundle_record_def sample_bundle_def sample_manifest_def)
  show ?thesis
    using read stored digest made shop_record_valid
    by (simp add: build_artifact_game_def shop_env_def shop_request_def shop_state_def local_bundle_store_def
        local_registry_store_def lookup_artifact_def lookup_artifact_memory_def wasi_resolve_def trim_bundle_digest
        sample_bundle_def sample_manifest_def Let_def trimmed validate_metadata_def ruleset_limits_of_def
        default_game_registration_id_def)
qed

theorem activated_game_consistent_witness:
  "\<exists>path g w'. register_game (shop_env ''game'') shop_request (shop_world path) = (Inr g, w') \<and>
     get_item (gr_id g) (gw_games w') = Inr g \<and> agrees_with_artifact (shop_env ''game'') (shop_state path) g"
proof -
  obtain path where path: "path_for ''/b'' (bundle_digest ''zip'') = Inr path" using sample_path by blast
  obtain g where g: "build_artifact_game (shop_env ''game'') shop_request (shop_state path) = Inr g" "gr_id g = ''go-v1-r''"
    using shop_game [OF path] by blast
  have a: "trim_space (gq_artifact shop_request) \<noteq> []"
    by (simp add: shop_request_def trim_bundle_digest) (simp add: bundle_digest_def)
  have "\<exists>w'. register_game (shop_env ''game'') shop_request (shop_world path) = (Inr g, w')"
    using a g trimmed(4)
    by (simp add: register_game_def Let_def shop_world_def save_game_def save_item_def new_item_store_def)
  then obtain w' where "register_game (shop_env ''game'') shop_request (shop_world path) = (Inr g, w')" by blast
  with activated_game_consistent [OF a this] show ?thesis by (auto simp: shop_world_def)
qed

text \<open>AIs uploaded to a store that keeps everything.\<close>

definition upload_env :: "(unit, unit) general_env" where
  "upload_env =
     \<lparr>ge_admission =
        \<lparr>ad_files = \<lparr>fl_stat = \<lambda>_. Absent, fl_json = \<lambda>_. None\<rparr>, ad_url = \<lambda>_. None, ad_base = ''/srv'',
         ad_bundle = sample_bundle_env ''ai'',
         ad_store = Some \<lparr>bs_put = \<lambda>_ w. (None, w), bs_read = \<lambda>d _. Inl (InvalidDigest d)\<rparr>\<rparr>,
      ge_registry =
        \<lparr>rg_store = \<lparr>gs_lookup = \<lambda>_ _. Inl ReadOnlyStore, gs_artifact = None, gs_register = None, gs_legacy = None\<rparr>,
         rg_resolve = \<lambda>_. Inl ReadOnlyStore\<rparr>\<rparr>"

definition go_game :: registered_game where
  "go_game = \<lparr>gr_id = ''go'', gr_game = \<lparr>gm_game_id = ''go'', gm_game_version = ''1.0.0'', gm_ruleset = ''r''\<rparr>,
     gr_artifact = [], gr_players = 2, gr_max_bots = 3, gr_mode = WasmWasi, gr_builder = ''b'', gr_rulesets = [''r''],
     gr_source = ''manual'', gr_source_id = []\<rparr>"

definition upload_world :: "unit general_world" where
  "upload_world = \<lparr>gw_games = \<lparr>is_order = [''go''], is_items = [(''go'', go_game)]\<rparr>, gw_ais = new_item_store, gw_rest = ()\<rparr>"

definition upload_request :: ai_request where
  "upload_request = \<lparr>aq_id = ''r'', aq_registration = ''go'', aq_ref = [], aq_name = ''r''\<rparr>"

lemma upload_reads:
  "read_bundle (ad_bundle (ge_admission upload_env)) ''one'' = Inr (sample_bundle ''ai'' ''one'')"
  "read_bundle (ad_bundle (ge_admission upload_env)) ''two'' = Inr (sample_bundle ''ai'' ''two'')"
  by (simp_all add: upload_env_def sample_read)

lemma upload_first: "\<exists>r w1. register_ai_bundle upload_env [] upload_request ''one'' upload_world = (Inr r, w1) \<and> ga_id r = ''r''"
proof -
  have "\<not> blank ''r''" by code_simp
  then show ?thesis
    using upload_reads(1)
    by (simp add: register_ai_bundle_def upload_env_def upload_request_def upload_world_def get_item_def go_game_def trimmed
        sample_bundle_def sample_manifest_def save_registered_ai_def save_ai_def save_item_def new_item_store_def Let_def)
qed

theorem ai_artifact_replaced_witness:
  "\<exists>r1 w1 w2. register_ai_bundle upload_env [] upload_request ''one'' upload_world = (Inr r1, w1) \<and>
     register_ai_bundle upload_env [] upload_request ''two'' w1 = (Inr (r1\<lparr>ga_artifact := bundle_digest ''two''\<rparr>), w2) \<and>
     get_item ''r'' (gw_ais w2) = Inr (r1\<lparr>ga_artifact := bundle_digest ''two''\<rparr>)"
proof -
  obtain r w1 where one: "register_ai_bundle upload_env [] upload_request ''one'' upload_world = (Inr r, w1)" "ga_id r = ''r''"
    using upload_first by blast
  have "trim_space (aq_id upload_request) \<noteq> []" by (simp add: upload_request_def trimmed)
  moreover have "bd_manifest (sample_bundle ''ai'' ''two'') = bd_manifest (sample_bundle ''ai'' ''one'')"
    by (simp add: sample_bundle_def)
  moreover obtain st where "ad_store (ge_admission upload_env) = Some st"
    "bs_put st (sample_bundle ''ai'' ''two'') (gw_rest w1) = (None, gw_rest w1)"
    by (simp add: upload_env_def)
  ultimately show ?thesis
    using ai_artifact_replaced [OF one(1) _ upload_reads] one by fastforce
qed

end
