(* ===== verification/Public.thy ===== *)
theory Public
  imports Queue Registry Ordering Bundle
begin

text \<open>
  The read models of the public pages (\<open>internal/platform/service/public_state.go\<close>) and the query
  parameters of the match list (\<open>public_http.go\<close>). The order in which Go visits a map is an
  argument \<open>visit\<close>; the artifact reader and \<open>json.Valid\<close> are fields of the environment.
\<close>

section \<open>Published states\<close>

record public_state =
  us_match :: string
  us_run :: string
  us_version :: int
  us_snapshot :: exported_snapshot

definition state_key :: "string \<Rightarrow> string \<Rightarrow> string" where
  "state_key m r = m @ [CHR 0x00] @ r"

definition publish :: "string \<Rightarrow> string \<Rightarrow> exported_snapshot \<Rightarrow> public_state gomap \<Rightarrow>
    public_state option \<times> public_state gomap" where
  "publish m r snapshot states =
     (if m = [] \<or> r = [] then (None, states)
      else
        let key = state_key m r;
            version = (case map_of states key of None \<Rightarrow> 0 | Some s \<Rightarrow> us_version s);
            state = \<lparr>us_match = m, us_run = r, us_version = version + 1, us_snapshot = snapshot\<lparr>xs_match_id := m\<rparr>\<rparr>
        in (Some state, put key state states))"

definition latest_state :: "string \<Rightarrow> string \<Rightarrow> public_state gomap \<Rightarrow> public_state option" where
  "latest_state m r states = map_of states (state_key m r)"

section \<open>The selected run of a match\<close>

definition is_public_discoverable :: "lifecycle_state \<Rightarrow> bool" where
  "is_public_discoverable s \<longleftrightarrow>
     s \<in> {StateRunning, StatePersisting, StateCompleted, StateFailed, StateCanceled}"

definition is_public_terminal :: "lifecycle_state \<Rightarrow> bool" where
  "is_public_terminal s \<longleftrightarrow> s = StateCompleted \<or> s = StateFailed \<or> s = StateCanceled"

abbreviation completed_official :: "queue_record \<Rightarrow> bool" where
  "completed_official r \<equiv> qr_state r = StateCompleted \<and> qr_official r"

definition select_record :: "queue_record \<Rightarrow> queue_record gomap \<Rightarrow> queue_record gomap" where
  "select_record r selected =
     (if \<not> is_public_discoverable (qr_state r) then selected
      else case map_of selected (qr_match r) of
        None \<Rightarrow> put (qr_match r) r selected
      | Some current \<Rightarrow>
          if completed_official r \<or> \<not> completed_official current then put (qr_match r) r selected else selected)"

definition selected_map :: "queue_record list \<Rightarrow> queue_record gomap" where
  "selected_map records = fold select_record records []"

type_synonym visit = "queue_record gomap \<Rightarrow> queue_record gomap"

definition selected_public_records :: "visit \<Rightarrow> queue_record list \<Rightarrow> queue_record list" where
  "selected_public_records visit records = map snd (visit (selected_map records))"

definition selected_for :: "visit \<Rightarrow> queue_record list \<Rightarrow> string \<Rightarrow> queue_record option" where
  "selected_for visit records m = find (\<lambda>r. qr_match r = m) (selected_public_records visit records)"

section \<open>The match list\<close>

record list_options =
  lo_game :: string
  lo_major :: int
  lo_ruleset :: string
  lo_page :: int
  lo_limit :: int
  lo_order :: string

definition default_public_match_list_options :: list_options where
  "default_public_match_list_options =
     \<lparr>lo_game = [], lo_major = 0, lo_ruleset = [], lo_page = 1, lo_limit = 20, lo_order = ''desc''\<rparr>"

definition matches_public_game_scope :: "list_options \<Rightarrow> queue_record \<Rightarrow> bool" where
  "matches_public_game_scope options r =
     (let game = ms_game (qr_submission r) in
      if lo_game options \<noteq> [] \<and> gm_game_id game \<noteq> lo_game options then False
      else if lo_major options = 0 then True
      else major_version (gm_game_version game) = Some (lo_major options))"

definition matches_public_match_list_filters :: "list_options \<Rightarrow> queue_record \<Rightarrow> bool" where
  "matches_public_match_list_filters options r \<longleftrightarrow>
     matches_public_game_scope options r \<and>
     (lo_ruleset options = [] \<or> gm_ruleset (ms_game (qr_submission r)) = lo_ruleset options)"

definition available_public_ruleset_versions :: "list_options \<Rightarrow> queue_record list \<Rightarrow> string list" where
  "available_public_ruleset_versions options records =
     sort (map fst (put_all (\<lambda>r. gm_ruleset (ms_game (qr_submission r))) (\<lambda>_. ())
       (filter (matches_public_game_scope options) records) []))"

definition public_before :: "string \<Rightarrow> queue_record \<Rightarrow> queue_record \<Rightarrow> bool" where
  "public_before order left right =
     (case (qr_completed_at left, qr_completed_at right) of
        (None, None) \<Rightarrow> qr_match left < qr_match right
      | (None, Some _) \<Rightarrow> False
      | (Some _, None) \<Rightarrow> True
      | (Some l, Some r) \<Rightarrow>
          if l = r then qr_match left < qr_match right
          else if order = ''asc'' then l < r
          else l > r)"

record public_participant =
  up_player :: string
  up_name :: string
  up_ai :: string

record public_match =
  um_match :: string
  um_run :: string
  um_game :: game_metadata
  um_state :: lifecycle_state
  um_participants :: "public_participant list"
  um_completed_at :: "int option"

definition public_match_from_record :: "queue_record \<Rightarrow> public_match" where
  "public_match_from_record r =
     (let players = ms_players (qr_submission r) in
      \<lparr>um_match = qr_match r, um_run = qr_run r, um_game = ms_game (qr_submission r), um_state = qr_state r,
       um_participants =
         (if list_ex (\<lambda>p. sp_player p = [] \<or> sp_bot_name p = [] \<or> sp_ai_submission p = []) players then []
          else map (\<lambda>p. \<lparr>up_player = sp_player p, up_name = sp_bot_name p, up_ai = sp_ai_submission p\<rparr>) players),
       um_completed_at = (if qr_state r = StateCompleted then qr_completed_at r else None)\<rparr>)"

record public_match_list =
  ul_page :: int
  ul_limit :: int
  ul_total :: int
  ul_total_pages :: int
  ul_rulesets :: "string list"
  ul_items :: "public_match list"

text \<open>
  A limit or a page below one would make the service panic, by a division or a slice out of range;
  \<open>None\<close> is the panic.
\<close>

definition public_list :: "visit \<Rightarrow> list_options \<Rightarrow> queue_record list \<Rightarrow> public_match_list option" where
  "public_list visit options records =
     (let selected = selected_public_records visit records;
          rulesets = available_public_ruleset_versions options selected;
          filtered = sort_slice (public_before (lo_order options))
            (filter (matches_public_match_list_filters options) selected);
          total = int (length filtered)
      in if lo_limit options < 1 then None
      else
        let pages = (total + lo_limit options - 1) div lo_limit options;
            start = (lo_page options - 1) * lo_limit options;
            stop = min (start + lo_limit options) total
        in if lo_page options \<le> pages \<and> start < 0 then None
        else Some \<lparr>ul_page = lo_page options, ul_limit = lo_limit options, ul_total = total, ul_total_pages = pages,
               ul_rulesets = rulesets,
               ul_items = (if lo_page options \<le> pages
                           then map public_match_from_record (take (nat (stop - start)) (drop (nat start) filtered))
                           else [])\<rparr>)"

section \<open>Query parameters\<close>

definition parse_positive_public_query_int :: "string \<Rightarrow> int option" where
  "parse_positive_public_query_int s =
     (case atoi s of None \<Rightarrow> None
      | Some v \<Rightarrow> if v < - (2 ^ 31) \<or> v \<ge> 2 ^ 31 \<or> v < 1 then None else Some v)"

definition decode_option :: "string \<times> string list \<Rightarrow> list_options \<Rightarrow> list_options option" where
  "decode_option = (\<lambda>(key, vals) options.
     case vals of
       [v] \<Rightarrow>
         if key = ''game_id'' then Some (options\<lparr>lo_game := v\<rparr>)
         else if key = ''ruleset_version'' then Some (options\<lparr>lo_ruleset := v\<rparr>)
         else if key = ''game_version_major'' then
           map_option (\<lambda>n. options\<lparr>lo_major := n\<rparr>) (parse_positive_public_query_int v)
         else if key = ''page'' then
           map_option (\<lambda>n. options\<lparr>lo_page := n\<rparr>) (parse_positive_public_query_int v)
         else if key = ''limit'' then
           (case parse_positive_public_query_int v of None \<Rightarrow> None
            | Some n \<Rightarrow> if n > 100 then None else Some (options\<lparr>lo_limit := n\<rparr>))
         else if key = ''sort'' then (if v = ''completed_at'' then Some options else None)
         else if key = ''sort_order'' then
           (if v = ''asc'' \<or> v = ''desc'' then Some (options\<lparr>lo_order := v\<rparr>) else None)
         else None
     | _ \<Rightarrow> None)"

fun decode_options :: "(string \<times> string list) list \<Rightarrow> list_options \<Rightarrow> list_options option" where
  "decode_options [] options = Some options"
| "decode_options (kv # kvs) options = Option.bind (decode_option kv options) (decode_options kvs)"

definition decode_public_match_list_options :: "(string \<times> string list) list \<Rightarrow> list_options option" where
  "decode_public_match_list_options query = decode_options query default_public_match_list_options"

section \<open>Details, states and replays\<close>

datatype availability = Available | ReplayUnavailable | StateUnavailable

record replay_metadata =
  rm_availability :: availability
  rm_format :: string
  rm_version :: string
  rm_size :: int
  rm_digest :: string

text \<open>\<open>pe_read path dir limit\<close> is \<open>ReadBoundedUnder\<close>, \<open>None\<close> when it fails.\<close>

record public_env =
  pe_read :: "string \<Rightarrow> string \<Rightarrow> int \<Rightarrow> string option"
  pe_json_valid :: "string \<Rightarrow> bool"

definition max_public_replay_bytes :: int where
  "max_public_replay_bytes = 1048576"

definition replay_digest :: "string \<Rightarrow> string" where
  "replay_digest body = hex (sum256 body)"

definition no_replay :: replay_metadata where
  "no_replay = \<lparr>rm_availability = ReplayUnavailable, rm_format = [], rm_version = [], rm_size = 0, rm_digest = []\<rparr>"

definition replay_metadata :: "queue_record \<Rightarrow> replay_metadata" where
  "replay_metadata r =
     (case qr_terminal r of
        None \<Rightarrow> no_replay
      | Some t \<Rightarrow>
          if qr_state r \<noteq> StateCompleted \<or> ta_replay_path t = [] \<or> ta_replay_format t = [] \<or> ta_replay_version t = [] \<or>
             ta_replay_size t < 0 \<or> ta_replay_size t > max_public_replay_bytes \<or> ta_replay_digest t = []
          then no_replay
          else \<lparr>rm_availability = Available, rm_format = ta_replay_format t, rm_version = ta_replay_version t,
                rm_size = ta_replay_size t, rm_digest = ta_replay_digest t\<rparr>)"

text \<open>The body that the record promises, \<open>None\<close> when it cannot be read or differs.\<close>

definition checked_replay :: "public_env \<Rightarrow> queue_record \<Rightarrow> terminal_artifacts \<Rightarrow> string option" where
  "checked_replay env r t =
     (case pe_read env (ta_replay_path t) (ms_output_dir (qr_submission r)) max_public_replay_bytes of
        None \<Rightarrow> None
      | Some body \<Rightarrow>
          if int (length body) \<noteq> ta_replay_size t \<or> replay_digest body \<noteq> ta_replay_digest t \<or> \<not> pe_json_valid env body
          then None else Some body)"

definition service_replay_metadata :: "public_env \<Rightarrow> queue_record \<Rightarrow> replay_metadata" where
  "service_replay_metadata env r =
     (let metadata = replay_metadata r in
      case qr_terminal r of
        None \<Rightarrow> metadata
      | Some t \<Rightarrow>
          if rm_availability metadata \<noteq> Available then metadata
          else if checked_replay env r t = None then no_replay
          else metadata)"

definition public_get :: "public_env \<Rightarrow> visit \<Rightarrow> queue_record list \<Rightarrow> string \<Rightarrow> (public_match \<times> replay_metadata) option" where
  "public_get env visit records m =
     map_option (\<lambda>r. (public_match_from_record r, service_replay_metadata env r)) (selected_for visit records m)"

record state_response =
  sr_match :: public_match
  sr_availability :: availability
  sr_version :: int
  sr_turn :: int
  sr_state :: raw
  sr_retry :: int

definition public_state_of :: "visit \<Rightarrow> queue_record list \<Rightarrow> public_state gomap \<Rightarrow> string \<Rightarrow> state_response option" where
  "public_state_of visit records states m =
     (case selected_for visit records m of
        None \<Rightarrow> None
      | Some r \<Rightarrow>
          let retry = (if is_public_terminal (qr_state r) then 0 else 1000) in
          (case latest_state (qr_match r) (qr_run r) states of
             None \<Rightarrow>
               Some \<lparr>sr_match = public_match_from_record r, sr_availability = StateUnavailable, sr_version = 0,
                     sr_turn = 0, sr_state = RawNone, sr_retry = retry\<rparr>
           | Some s \<Rightarrow>
               Some \<lparr>sr_match = public_match_from_record r, sr_availability = Available, sr_version = us_version s,
                     sr_turn = xs_turn (us_snapshot s), sr_state = xs_public_state (us_snapshot s), sr_retry = retry\<rparr>))"

record replay_response =
  rr_availability :: availability
  rr_format :: string
  rr_version :: string
  rr_payload :: string

text \<open>Two environments: the artifact may change between the two reads.\<close>

definition public_replay :: "public_env \<Rightarrow> public_env \<Rightarrow> visit \<Rightarrow> queue_record list \<Rightarrow> string \<Rightarrow> replay_response option" where
  "public_replay env env' visit records m =
     (case selected_for visit records m of
        None \<Rightarrow> None
      | Some r \<Rightarrow>
          let metadata = service_replay_metadata env r;
              response = \<lparr>rr_availability = rm_availability metadata, rr_format = rm_format metadata,
                          rr_version = rm_version metadata, rr_payload = []\<rparr>
          in (case qr_terminal r of
                None \<Rightarrow> Some response
              | Some t \<Rightarrow>
                  if rm_availability metadata \<noteq> Available then Some response
                  else (case checked_replay env' r t of
                      None \<Rightarrow> Some \<lparr>rr_availability = ReplayUnavailable, rr_format = [], rr_version = [], rr_payload = []\<rparr>
                    | Some body \<Rightarrow> Some (response\<lparr>rr_payload := body\<rparr>))))"

end
