(* ===== verification/Public_Spec.thy ===== *)
theory Public_Spec
  imports Public Service_Spec
begin

text \<open>
  What visitors see: the run that stands for a match, pages that partition one sorted list, replays
  that are the bytes the run persisted, and versions that count publications.
\<close>

section \<open>Selection\<close>

lemma set_put_subset: "set (put k v m) \<subseteq> insert (k, v) (set m)"
  by (induction m) auto

definition visits :: "visit \<Rightarrow> bool" where
  "visits visit \<longleftrightarrow> (\<forall>m. mset (visit m) = mset m)"

text \<open>The run that stands for a match: the last completed official one, else the last discoverable one.\<close>

definition candidates :: "queue_record list \<Rightarrow> string \<Rightarrow> queue_record list" where
  "candidates records m = filter (\<lambda>r. is_public_discoverable (qr_state r) \<and> qr_match r = m) records"

definition standing_run :: "queue_record list \<Rightarrow> string \<Rightarrow> queue_record option" where
  "standing_run records m =
     (let os = filter completed_official (candidates records m) in
      if os \<noteq> [] then Some (last os)
      else if candidates records m \<noteq> [] then Some (last (candidates records m)) else None)"

lemma candidates_snoc:
  "candidates (records @ [r]) m =
     candidates records m @ (if is_public_discoverable (qr_state r) \<and> qr_match r = m then [r] else [])"
  by (simp add: candidates_def)

lemma selected_map_snoc: "selected_map (records @ [r]) = select_record r (selected_map records)"
  by (simp add: selected_map_def)

lemma standing_official:
  assumes "standing_run records m = Some c"
  shows "completed_official c \<longleftrightarrow> filter completed_official (candidates records m) \<noteq> []"
proof (cases "filter completed_official (candidates records m)" rule: rev_cases)
  case Nil
  with assms have "c \<in> set (candidates records m)" by (auto simp: standing_run_def Let_def split: if_splits)
  with Nil show ?thesis by (auto simp: filter_empty_conv)
next
  case (snoc xs x)
  have "x \<in> set (filter completed_official (candidates records m))" unfolding snoc by simp
  then have "completed_official x" by simp
  moreover have "c = x" using assms snoc by (simp add: standing_run_def)
  ultimately show ?thesis using snoc by simp
qed

lemma map_of_selected_map: "map_of (selected_map records) m = standing_run records m"
proof (induction records arbitrary: m rule: rev_induct)
  case Nil
  then show ?case by (simp add: selected_map_def standing_run_def candidates_def)
next
  case (snoc r records)
  show ?case
  proof (cases "is_public_discoverable (qr_state r) \<and> qr_match r = m")
    case False
    then have "map_of (select_record r (selected_map records)) m = map_of (selected_map records) m"
      by (auto simp: select_record_def split: option.splits)
    then show ?thesis
      using snoc False by (simp add: selected_map_snoc standing_run_def candidates_snoc)
  next
    case True
    show ?thesis
    proof (cases "standing_run records m")
      case None
      then have none: "candidates records m = []" by (simp add: standing_run_def Let_def split: if_splits)
      then show ?thesis
        using snoc [of m] None True by (simp add: selected_map_snoc select_record_def standing_run_def candidates_snoc)
    next
      case (Some c)
      note off = standing_official [OF Some]
      have new: "candidates (records @ [r]) m = candidates records m @ [r]" using True by (simp add: candidates_snoc)
      have "map_of (select_record r (selected_map records)) m =
          (if completed_official r \<or> \<not> completed_official c then Some r else Some c)"
        using snoc [of m] Some True by (simp add: select_record_def)
      also have "\<dots> = standing_run (records @ [r]) m"
        using off Some unfolding standing_run_def new Let_def by (auto split: if_splits)
      finally show ?thesis by (simp add: selected_map_snoc)
    qed
  qed
qed

lemma selected_map_keys: "distinct (map fst (selected_map records))" "(k, r) \<in> set (selected_map records) \<Longrightarrow> k = qr_match r"
proof -
  have "distinct (map fst (selected_map records)) \<and> (\<forall>(k, r) \<in> set (selected_map records). k = qr_match r)"
  proof (induction records rule: rev_induct)
    case Nil
    then show ?case by (simp add: selected_map_def)
  next
    case (snoc x records)
    have sub: "set (put (qr_match x) x (selected_map records)) \<subseteq> insert (qr_match x, x) (set (selected_map records))"
      by (rule set_put_subset)
    with snoc show ?case
      by (auto simp: selected_map_snoc select_record_def split: option.splits)
  qed
  then show "distinct (map fst (selected_map records))" "(k, r) \<in> set (selected_map records) \<Longrightarrow> k = qr_match r"
    by blast+
qed

lemma selected_list:
  assumes "visits visit"
  shows "mset (selected_public_records visit records) = mset (map snd (selected_map records))"
    and "distinct (map qr_match (selected_public_records visit records))"
    and "r \<in> set (selected_public_records visit records) \<longleftrightarrow> standing_run records (qr_match r) = Some r"
proof -
  show m: "mset (selected_public_records visit records) = mset (map snd (selected_map records))"
    using assms by (simp add: visits_def selected_public_records_def)
  have keys: "map fst (selected_map records) = map qr_match (map snd (selected_map records))"
    using selected_map_keys(2) by fastforce
  have "mset (map qr_match (selected_public_records visit records)) = mset (map fst (selected_map records))"
    unfolding keys by (metis m mset_map)
  then show "distinct (map qr_match (selected_public_records visit records))"
    using selected_map_keys(1) by (metis mset_eq_imp_distinct_iff)
  have "r \<in> set (selected_public_records visit records) \<longleftrightarrow> r \<in> snd ` set (selected_map records)"
    using mset_eq_setD [OF m] by simp
  also have "\<dots> \<longleftrightarrow> map_of (selected_map records) (qr_match r) = Some r"
    using selected_map_keys by (force dest: map_of_SomeD intro: map_of_is_SomeI)
  finally show "r \<in> set (selected_public_records visit records) \<longleftrightarrow> standing_run records (qr_match r) = Some r"
    by (simp add: map_of_selected_map)
qed

lemma standing_run_match: "standing_run records m = Some r \<Longrightarrow> qr_match r = m \<and> r \<in> set (candidates records m)"
  using selected_map_keys(2) map_of_selected_map map_of_SomeD
  by (smt (verit, best) filter_is_subset last_in_set option.discI option.inject standing_run_def subsetD)

lemma selected_for_standing:
  assumes "visits visit"
  shows "selected_for visit records m = standing_run records m"
proof (cases "standing_run records m")
  case None
  have "qr_match r \<noteq> m" if "r \<in> set (selected_public_records visit records)" for r
    using that None selected_list(3) [OF assms] by auto
  then show ?thesis using None by (simp add: selected_for_def find_None_iff)
next
  case (Some c)
  then have c: "c \<in> set (selected_public_records visit records)" "qr_match c = m"
    using standing_run_match [OF Some] selected_list(3) [OF assms] by auto
  show ?thesis
  proof (cases "selected_for visit records m")
    case None
    then show ?thesis using c by (auto simp: selected_for_def find_None_iff)
  next
    case (Some d)
    then have "d \<in> set (selected_public_records visit records)" "qr_match d = m"
      by (auto simp: selected_for_def find_Some_iff)
    then have "standing_run records m = Some d" using selected_list(3) [OF assms] by auto
    with Some show ?thesis by simp
  qed
qed

text \<open>
  C35. Visitors see the run that counts: in every state that a service with one worker reaches, a
  match with an official run is shown by that run, and a match without one by the latest of its
  runs that are running, persisting or finished; whatever the order in which the map is visited.
\<close>

theorem public_shows_official_run:
  assumes "memory_worker wk" "memory_commands cm" "sv_queue w0 = new_queue_store" "(service_step wk cm)\<^sup>*\<^sup>* w0 w"
    and "visits visit"
  shows "case selected_for visit (list_records (sv_queue w)) m of
      None \<Rightarrow> candidates (list_records (sv_queue w)) m = []
    | Some r \<Rightarrow> (\<forall>x q. lookup (sv_queue w) x = Some q \<longrightarrow> qr_official q \<longrightarrow> qr_match q = m \<longrightarrow> r = q) \<and>
        (qr_official r \<or> r = last (candidates (list_records (sv_queue w)) m))"
proof -
  let ?rs = "list_records (sv_queue w)"
  have ok: "queue_ok (sv_queue w)" "official_ok (lookup (sv_queue w))"
    using service_steps_ok [OF assms(1-4)] by (simp_all add: service_ok_def)
  have "r = q" if r: "standing_run ?rs m = Some r" and q: "lookup (sv_queue w) x = Some q" "qr_official q" "qr_match q = m" for r x q
  proof -
    have "qr_state q = StateCompleted" using official_okD(1) [OF ok(2) q(1)] q(2) by blast
    moreover have "q \<in> set ?rs" using lookup_list_records [OF ok(1)] q(1) by (auto simp: ran_def)
    ultimately have "q \<in> set (filter completed_official (candidates ?rs m))"
      using q by (simp add: candidates_def is_public_discoverable_def)
    then have off: "completed_official r" using standing_official [OF r] by (metis empty_iff empty_set)
    have "r \<in> set ?rs" "qr_match r = m" using standing_run_match [OF r] by (auto simp: candidates_def)
    then obtain y where "lookup (sv_queue w) y = Some r" using lookup_list_records [OF ok(1)] by (auto simp: ran_def)
    then show "r = q" using official_okD(2) [OF ok(2)] off q \<open>qr_match r = m\<close> by (metis option.inject)
  qed
  moreover have "qr_official r \<or> r = last (candidates ?rs m)" if "standing_run ?rs m = Some r" for r
    using standing_official [OF that] that by (auto simp: standing_run_def Let_def split: if_splits)
  moreover have "candidates ?rs m = []" if "standing_run ?rs m = None"
    using that by (simp add: standing_run_def Let_def split: if_splits)
  ultimately show ?thesis
    unfolding selected_for_standing [OF assms(5)] by (simp split: option.split)
qed

section \<open>Pages\<close>

interpretation publication: weak_order "public_before order" for order
  by unfold_locales (auto simp: public_before_def split: option.splits if_splits)

lemma public_before_total: "qr_match a \<noteq> qr_match b \<Longrightarrow> public_before order a b \<or> public_before order b a"
  by (auto simp: public_before_def split: option.splits)

text \<open>The whole list behind the pages.\<close>

definition public_runs :: "list_options \<Rightarrow> queue_record list \<Rightarrow> queue_record list" where
  "public_runs options records =
     sort_slice (public_before (lo_order options))
       (filter (matches_public_match_list_filters options) (map snd (selected_map records)))"

lemma public_runs_visit:
  assumes "visits visit"
  shows "sort_slice (public_before (lo_order options))
      (filter (matches_public_match_list_filters options) (selected_public_records visit records)) =
    public_runs options records"
  unfolding public_runs_def
proof (rule publication.sort_slice_unique)
  show "mset (sort_slice (public_before (lo_order options))
      (filter (matches_public_match_list_filters options) (selected_public_records visit records))) =
    mset (filter (matches_public_match_list_filters options) (map snd (selected_map records)))"
    using selected_list(1) [OF assms, of records] by simp
  fix a b
  assume ab: "a \<in> set (filter (matches_public_match_list_filters options) (map snd (selected_map records)))"
    "b \<in> set (filter (matches_public_match_list_filters options) (map snd (selected_map records)))" "a \<noteq> b"
  have "set (map snd (selected_map records)) = set (selected_public_records visit records)"
    using selected_list(1) [OF assms] mset_eq_setD by metis
  then have "standing_run records (qr_match a) = Some a" "standing_run records (qr_match b) = Some b"
    using ab selected_list(3) [OF assms] by (metis filter_is_subset subsetD)+
  then have "qr_match a \<noteq> qr_match b" using ab(3) by auto
  then show "public_before (lo_order options) a b \<or> public_before (lo_order options) b a" by (rule public_before_total)
qed (rule publication.sorted_sort_slice)

lemma visits_id: "visits (\<lambda>m. m)"
  by (simp add: visits_def)

lemma public_runs:
  "sorted_by (public_before (lo_order options)) (public_runs options records)"
  "distinct (map qr_match (public_runs options records))"
  "r \<in> set (public_runs options records) \<longleftrightarrow>
     standing_run records (qr_match r) = Some r \<and> matches_public_match_list_filters options r"
proof -
  have sel: "map snd (selected_map records) = selected_public_records (\<lambda>m. m) records"
    by (simp add: selected_public_records_def)
  show "sorted_by (public_before (lo_order options)) (public_runs options records)"
    unfolding public_runs_def by (rule publication.sorted_sort_slice)
  have "distinct (map qr_match (filter (matches_public_match_list_filters options) (map snd (selected_map records))))"
    unfolding sel by (rule distinct_map_filter [OF selected_list(2) [OF visits_id]])
  then show "distinct (map qr_match (public_runs options records))"
    unfolding public_runs_def by (metis mset_map mset_sort_slice mset_eq_imp_distinct_iff)
  show "r \<in> set (public_runs options records) \<longleftrightarrow>
     standing_run records (qr_match r) = Some r \<and> matches_public_match_list_filters options r"
    unfolding public_runs_def sel using selected_list(3) [OF visits_id, of r records] by auto
qed

lemma public_list_page:
  assumes "visits visit" "1 \<le> lo_limit options" "1 \<le> lo_page options"
    and "l = nat (lo_limit options)" "p = nat (lo_page options)" "runs = public_runs options records"
  shows "\<exists>pl. public_list visit options records = Some pl \<and> ul_total pl = int (length runs) \<and>
    ul_total_pages pl = int ((length runs + l - 1) div l) \<and>
    ul_items pl = map public_match_from_record (take l (drop ((p - 1) * l) runs))"
proof -
  have lp: "lo_limit options = int l" "lo_page options = int p" "1 \<le> l" "1 \<le> p" using assms(2-5) by auto
  define n s where "n = (length runs + l - 1) div l" and "s = (p - 1) * l"
  have pages: "(int (length runs) + int l - 1) div int l = int n"
    unfolding n_def using lp(3) by (simp add: zdiv_int of_nat_diff)
  have start: "(int p - 1) * int l = int s" unfolding s_def using lp(4) by (simp add: of_nat_diff)
  have beyond: "drop s runs = []" if "\<not> int p \<le> int n"
  proof -
    have "(length runs + l - 1) div l \<le> p - 1" using that by (simp add: n_def)
    then have "(length runs + l - 1) div l * l \<le> (p - 1) * l" by (rule mult_le_mono1)
    moreover have "length runs \<le> (length runs + l - 1) div l * l"
      using lp(3) dividend_less_div_times [of l "length runs + l - 1"] by linarith
    ultimately have "length runs \<le> (p - 1) * l" by (rule le_trans [rotated])
    then show ?thesis unfolding s_def by (rule drop_all)
  qed
  have window: "take (nat (min (int s + int l) (int (length runs)) - int s)) (drop s runs) = take l (drop s runs)"
    by (cases "s + l \<le> length runs") (auto simp: min_def nat_diff_distrib')
  show ?thesis
    unfolding public_list_def Let_def public_runs_visit [OF assms(1)] assms(6) [symmetric] lp(1,2) pages start
      n_def [symmetric] s_def [symmetric]
    using lp(3) beyond window by simp
qed

lemma concat_pages: "concat (map (\<lambda>i. take l (drop ((i - 1) * l) xs)) [1..<Suc n]) = take (n * l) xs"
proof (induction n)
  case (Suc n)
  have "concat (map (\<lambda>i. take l (drop ((i - 1) * l) xs)) [1..<Suc (Suc n)]) = take (n * l) xs @ take l (drop (n * l) xs)"
    using Suc.IH by simp
  then show ?case by (simp add: take_add [symmetric] add.commute)
qed simp

text \<open>The items of one page, none if the service panics.\<close>

definition page_items :: "visit \<Rightarrow> list_options \<Rightarrow> queue_record list \<Rightarrow> nat \<Rightarrow> public_match list" where
  "page_items visit options records i =
     (case public_list visit (options\<lparr>lo_page := int i\<rparr>) records of None \<Rightarrow> [] | Some pl \<Rightarrow> ul_items pl)"

text \<open>
  C36. The pages of the match list are one list, cut up: although every request visits the map in an
  order of its own, the pages one after the other give every match that has a run to show and
  passes the filters exactly once, shown by that run, sorted as asked, and every page reports the
  same totals.
\<close>

theorem public_pages_partition:
  assumes "\<And>i. visits (visit i)" "1 \<le> lo_limit options"
  shows "\<exists>runs. sorted_by (public_before (lo_order options)) runs \<and> distinct (map qr_match runs) \<and>
    (\<forall>r. r \<in> set runs \<longleftrightarrow> standing_run records (qr_match r) = Some r \<and> matches_public_match_list_filters options r) \<and>
    (\<exists>pages. concat (map (\<lambda>i. page_items (visit i) options records i) [1..<Suc pages]) = map public_match_from_record runs \<and>
      (\<forall>i. 1 \<le> i \<longrightarrow> (\<exists>pl. public_list (visit i) (options\<lparr>lo_page := int i\<rparr>) records = Some pl \<and>
         ul_total_pages pl = int pages \<and> ul_total pl = int (length runs) \<and> int (length (ul_items pl)) \<le> lo_limit options)))"
proof -
  define runs l where "runs = public_runs options records" and "l = nat (lo_limit options)"
  define pages where "pages = (length runs + l - 1) div l"
  have l: "1 \<le> l" "lo_limit options = int l" using assms(2) by (simp_all add: l_def)
  have scope: "matches_public_match_list_filters (options\<lparr>lo_page := q\<rparr>) = matches_public_match_list_filters options" for q
    by (rule ext) (simp add: matches_public_match_list_filters_def matches_public_game_scope_def Let_def)
  have same: "public_runs (options\<lparr>lo_page := q\<rparr>) records = runs" for q
    by (simp add: public_runs_def scope runs_def)
  have page: "\<exists>pl. public_list (visit i) (options\<lparr>lo_page := int i\<rparr>) records = Some pl \<and> ul_total pl = int (length runs) \<and>
      ul_total_pages pl = int pages \<and> ul_items pl = map public_match_from_record (take l (drop ((i - 1) * l) runs))"
    if "1 \<le> i" for i
  proof -
    have "1 \<le> lo_limit (options\<lparr>lo_page := int i\<rparr>)" "1 \<le> lo_page (options\<lparr>lo_page := int i\<rparr>)"
      "l = nat (lo_limit (options\<lparr>lo_page := int i\<rparr>))" "i = nat (lo_page (options\<lparr>lo_page := int i\<rparr>))"
      "runs = public_runs (options\<lparr>lo_page := int i\<rparr>) records"
      using l that by (simp_all add: same)
    from public_list_page [OF assms(1) this, of i] show ?thesis unfolding pages_def .
  qed
  have items: "page_items (visit i) options records i = map public_match_from_record (take l (drop ((i - 1) * l) runs))"
    if "1 \<le> i" for i
    using page [OF that] by (auto simp: page_items_def)
  have "concat (map (\<lambda>i. page_items (visit i) options records i) [1..<Suc pages]) =
      concat (map (\<lambda>i. map public_match_from_record (take l (drop ((i - 1) * l) runs))) [1..<Suc pages])"
    by (intro arg_cong [where f = concat] map_cong refl items) auto
  also have "\<dots> = map public_match_from_record (concat (map (\<lambda>i. take l (drop ((i - 1) * l) runs)) [1..<Suc pages]))"
    by (simp add: map_concat comp_def del: upt_Suc)
  also have "\<dots> = map public_match_from_record runs"
  proof -
    have "length runs \<le> pages * l"
      using l(1) dividend_less_div_times [of l "length runs + l - 1"] unfolding pages_def by linarith
    then show ?thesis unfolding concat_pages by simp
  qed
  finally have all: "concat (map (\<lambda>i. page_items (visit i) options records i) [1..<Suc pages]) = map public_match_from_record runs" .
  have totals: "\<exists>pl. public_list (visit i) (options\<lparr>lo_page := int i\<rparr>) records = Some pl \<and>
      ul_total_pages pl = int pages \<and> ul_total pl = int (length runs) \<and> int (length (ul_items pl)) \<le> lo_limit options"
    if i: "1 \<le> i" for i
  proof -
    obtain pl where pl: "public_list (visit i) (options\<lparr>lo_page := int i\<rparr>) records = Some pl" "ul_total pl = int (length runs)"
      "ul_total_pages pl = int pages" "ul_items pl = map public_match_from_record (take l (drop ((i - 1) * l) runs))"
      using page [OF i] by blast
    have "int (length (ul_items pl)) \<le> lo_limit options" unfolding pl(4) l(2) by simp
    with pl(1-3) show ?thesis by blast
  qed
  show ?thesis
    by (intro exI [of _ runs] exI [of _ pages] conjI allI impI all totals) (simp_all add: runs_def public_runs)
qed

section \<open>Query parameters\<close>

lemma decode_option_bounds:
  assumes "decode_option kv options = Some options'" "1 \<le> lo_page options" "1 \<le> lo_limit options" "lo_limit options \<le> 100"
  shows "1 \<le> lo_page options' \<and> 1 \<le> lo_limit options' \<and> lo_limit options' \<le> 100"
  using assms
  by (auto simp: decode_option_def parse_positive_public_query_int_def split: prod.splits list.splits if_splits option.splits)

lemma decode_options_bounds:
  "decode_options kvs options = Some options' \<Longrightarrow> 1 \<le> lo_page options \<Longrightarrow> 1 \<le> lo_limit options \<Longrightarrow> lo_limit options \<le> 100 \<Longrightarrow>
   1 \<le> lo_page options' \<and> 1 \<le> lo_limit options' \<and> lo_limit options' \<le> 100"
proof (induction kvs arbitrary: options)
  case (Cons kv kvs)
  then obtain mid where mid: "decode_option kv options = Some mid" "decode_options kvs mid = Some options'"
    by (auto simp: bind_eq_Some_conv)
  with Cons.IH [OF mid(2)] decode_option_bounds [OF mid(1)] Cons.prems(2-4) show ?case by blast
qed simp

text \<open>
  C37. No query makes the match list panic: whatever parameters a visitor sends, if they are
  accepted the page is answered, with at most a hundred matches.
\<close>

theorem accepted_queries_never_panic:
  assumes "decode_public_match_list_options query = Some options" "visits visit"
  shows "\<exists>pl. public_list visit options records = Some pl \<and> length (ul_items pl) \<le> 100"
proof -
  have b: "1 \<le> lo_page options" "1 \<le> lo_limit options" "lo_limit options \<le> 100"
    using decode_options_bounds [OF assms(1) [unfolded decode_public_match_list_options_def]]
    by (simp_all add: default_public_match_list_options_def)
  from public_list_page [OF assms(2) b(2,1) refl refl refl] obtain pl where
    "public_list visit options records = Some pl"
    "ul_items pl = map public_match_from_record
       (take (nat (lo_limit options)) (drop ((nat (lo_page options) - 1) * nat (lo_limit options)) (public_runs options records)))"
    by blast
  moreover from this(2) have "length (ul_items pl) \<le> nat (lo_limit options)" by simp
  moreover have "nat (lo_limit options) \<le> 100" using b(3) by simp
  ultimately show ?thesis using le_trans by blast
qed

section \<open>Replays\<close>

lemma checked_replay_Some:
  "checked_replay env r t = Some body \<longleftrightarrow>
     pe_read env (ta_replay_path t) (ms_output_dir (qr_submission r)) max_public_replay_bytes = Some body \<and>
     int (length body) = ta_replay_size t \<and> replay_digest body = ta_replay_digest t \<and> pe_json_valid env body"
  by (auto simp: checked_replay_def split: option.split)

text \<open>
  C38. A replay is served only as the run persisted it: a payload comes from the completed run that
  stands for the match, has the recorded size, at most a mebibyte, and the recorded SHA-256 digest,
  and is JSON; any other answer carries no byte, even when the artifact changes between two reads.
\<close>

theorem replay_is_what_was_persisted:
  assumes "visits visit" "public_replay env env' visit records m = Some resp"
  shows "if rr_availability resp = Available
    then \<exists>r t. standing_run records m = Some r \<and> qr_state r = StateCompleted \<and> qr_terminal r = Some t \<and>
      pe_read env' (ta_replay_path t) (ms_output_dir (qr_submission r)) max_public_replay_bytes = Some (rr_payload resp) \<and>
      int (length (rr_payload resp)) = ta_replay_size t \<and> ta_replay_size t \<le> 1048576 \<and>
      hex (sum256 (rr_payload resp)) = ta_replay_digest t \<and> pe_json_valid env' (rr_payload resp) \<and>
      rr_format resp = ta_replay_format t \<and> rr_version resp = ta_replay_version t
    else rr_payload resp = []"
proof -
  obtain r where r: "standing_run records m = Some r"
    using assms(2) by (auto simp: public_replay_def selected_for_standing [OF assms(1)] split: option.splits)
  show ?thesis
  proof (cases "qr_terminal r")
    case None
    then show ?thesis
      using assms(2) r
      by (auto simp: public_replay_def selected_for_standing [OF assms(1)] service_replay_metadata_def replay_metadata_def
          no_replay_def Let_def)
  next
    case (Some t)
    show ?thesis
    proof (cases "rm_availability (service_replay_metadata env r) = Available")
      case False
      then show ?thesis
        using assms(2) r Some by (auto simp: public_replay_def selected_for_standing [OF assms(1)] Let_def)
    next
      case True
      then have meta: "service_replay_metadata env r = replay_metadata r" "rm_availability (replay_metadata r) = Available"
        using Some by (auto simp: service_replay_metadata_def Let_def no_replay_def split: if_splits)
      have t: "qr_state r = StateCompleted" "ta_replay_size t \<le> max_public_replay_bytes"
        "rm_format (replay_metadata r) = ta_replay_format t" "rm_version (replay_metadata r) = ta_replay_version t"
        using meta(2) Some by (auto simp: replay_metadata_def no_replay_def split: if_splits)
      show ?thesis
      proof (cases "checked_replay env' r t")
        case None
        then show ?thesis
          using assms(2) r Some True by (auto simp: public_replay_def selected_for_standing [OF assms(1)] Let_def)
      next
        case (Some body)
        then have "resp = \<lparr>rr_availability = Available, rr_format = rm_format (replay_metadata r),
            rr_version = rm_version (replay_metadata r), rr_payload = body\<rparr>"
          using assms(2) r \<open>qr_terminal r = Some t\<close> meta
          by (auto simp: public_replay_def selected_for_standing [OF assms(1)] Let_def)
        then show ?thesis
          using Some [unfolded checked_replay_Some] t r \<open>qr_terminal r = Some t\<close>
          by (auto simp: replay_digest_def max_public_replay_bytes_def)
      qed
    qed
  qed
qed

section \<open>Versions\<close>

text \<open>Ids without a NUL byte, as every id of the service has, make different keys.\<close>

lemma state_key_inj:
  assumes "CHR 0x00 \<notin> set m" "CHR 0x00 \<notin> set m'"
  shows "state_key m r = state_key m' r' \<longleftrightarrow> m = m' \<and> r = r'"
proof
  assume "state_key m r = state_key m' r'"
  then have eq: "m @ CHR 0x00 # r = m' @ CHR 0x00 # r'" by (simp add: state_key_def)
  have w: "takeWhile (\<lambda>c. c \<noteq> CHR 0x00) (m @ CHR 0x00 # r) = m" "takeWhile (\<lambda>c. c \<noteq> CHR 0x00) (m' @ CHR 0x00 # r') = m'"
    by (subst takeWhile_append2; use assms in auto)+
  from w(1) have "m = m'" unfolding eq w(2) by simp
  with eq show "m = m' \<and> r = r'" by simp
qed (simp add: state_key_def)

definition publish_all :: "(string \<times> string \<times> exported_snapshot) list \<Rightarrow> public_state gomap" where
  "publish_all ps = fold (\<lambda>(m, r, x) states. snd (publish m r x states)) ps []"

text \<open>
  C_. Versions count publications: after any sequence of publications the latest state of a run is
  its last published snapshot under the id of the match, and its version is the number of times the
  run was published, whatever other runs and matches published in between.
\<close>

theorem versions_count_publications:
  assumes "\<forall>(m', r', x) \<in> set ps. m' \<noteq> [] \<and> r' \<noteq> [] \<and> CHR 0x00 \<notin> set m'" "CHR 0x00 \<notin> set m"
  shows "latest_state m r (publish_all ps) =
    (let own = filter (\<lambda>(m', r', x). m' = m \<and> r' = r) ps in
     if own = [] then None
     else Some \<lparr>us_match = m, us_run = r, us_version = int (length own),
                us_snapshot = (snd (snd (last own)))\<lparr>xs_match_id := m\<rparr>\<rparr>)"
  using assms
proof (induction ps rule: rev_induct)
  case Nil
  then show ?case by (simp add: latest_state_def publish_all_def)
next
  case (snoc p ps)
  obtain m' r' x where p: "p = (m', r', x)" by (cases p)
  have ids: "m' \<noteq> []" "r' \<noteq> []" "CHR 0x00 \<notin> set m'" using snoc.prems(1) p by auto
  have step: "publish_all (ps @ [p]) = snd (publish m' r' x (publish_all ps))" by (simp add: publish_all_def p)
  have IH: "latest_state m r (publish_all ps) =
    (let own = filter (\<lambda>(m', r', x). m' = m \<and> r' = r) ps in
     if own = [] then None
     else Some \<lparr>us_match = m, us_run = r, us_version = int (length own),
                us_snapshot = (snd (snd (last own)))\<lparr>xs_match_id := m\<rparr>\<rparr>)"
    using snoc by simp
  show ?case
  proof (cases "m' = m \<and> r' = r")
    case False
    then have "state_key m r \<noteq> state_key m' r'" using state_key_inj [OF snoc.prems(2) ids(3)] by auto
    then have "latest_state m r (publish_all (ps @ [p])) = latest_state m r (publish_all ps)"
      using ids by (simp add: step publish_def latest_state_def Let_def)
    then show ?thesis unfolding IH using False by (auto simp: p)
  next
    case True
    then have tr: "m' = m" "r' = r" by simp_all
    have here: "publish_all (ps @ [p]) = snd (publish m r x (publish_all ps))" using step tr by simp
    show ?thesis
      using ids IH unfolding here unfolding p tr by (auto simp: publish_def latest_state_def Let_def split: option.splits if_splits)
  qed
qed

end
