(* ===== verification/Public_Examples.thy ===== *)
theory Public_Examples
  imports Public_Spec Service_Examples Bundle_Spec
begin

text \<open>The public pages of concrete services.\<close>

theorem public_shows_official_run_witness:
  "\<exists>q. lookup (sv_queue sample_finished) ''run-1'' = Some q \<and> qr_official q \<and>
    selected_for rev (list_records (sv_queue sample_finished)) (qr_match q) = Some q"
proof -
  obtain q where q: "lookup (sv_queue sample_finished) ''run-1'' = Some q" "qr_official q"
    using sample_finished_official by (cases "lookup (sv_queue sample_finished) ''run-1''") simp_all
  have empty: "sv_queue empty_service = new_queue_store" by (simp add: empty_service_def)
  have rev: "visits rev" by (simp add: visits_def)
  have "map_option qr_match (lookup (sv_queue sample_finished) ''run-1'') = Some ''match-1''"
    "selected_for rev (list_records (sv_queue sample_finished)) ''match-1'' \<noteq> None"
    by code_simp+
  then obtain r where r: "selected_for rev (list_records (sv_queue sample_finished)) (qr_match q) = Some r"
    using q(1) by auto
  from public_shows_official_run [OF completing_memory_worker sample_memory_commands empty sample_steps rev, of "qr_match q"]
  have "r = q" using r q by auto
  with q r show ?thesis by blast
qed

definition finished :: "string \<Rightarrow> int \<Rightarrow> queue_record" where
  "finished m at = \<lparr>qr_submission = sample_submission\<lparr>ms_match := m\<rparr>, qr_state = StateCompleted, qr_completed_at = Some at,
     qr_lease = None,
     qr_terminal = Some \<lparr>ta_match_dir = [], ta_record_path = [], ta_summary_path = [], ta_stderr_paths = [],
       ta_status = StatusCompleted, ta_error = [], ta_replay_path = ''replay'', ta_replay_format = ''f'',
       ta_replay_version = ''1'', ta_replay_size = 2, ta_replay_digest = replay_digest ''{}''\<rparr>\<rparr>"

definition backwards :: "nat \<Rightarrow> visit" where
  "backwards i = (if even i then rev else (\<lambda>m. m))"

lemma backwards_visits: "visits (backwards i)"
  by (simp add: backwards_def visits_def)

definition by_one :: list_options where
  "by_one = default_public_match_list_options\<lparr>lo_limit := 1\<rparr>"

theorem public_pages_partition_witness:
  "\<exists>runs pages. concat (map (\<lambda>i. page_items (backwards i) by_one [finished ''a'' 1, finished ''b'' 2] i) [1..<Suc pages]) =
     map public_match_from_record runs \<and> distinct (map qr_match runs)"
proof -
  have "1 \<le> lo_limit by_one" by (simp add: by_one_def)
  from public_pages_partition [where visit = backwards, OF backwards_visits this, where records = "[finished ''a'' 1, finished ''b'' 2]"]
  show ?thesis by (elim exE conjE) blast
qed

theorem accepted_queries_never_panic_witness:
  "\<exists>options pl. decode_public_match_list_options [(''limit'', [''50'']), (''page'', [''2''])] = Some options \<and>
     public_list rev options [finished ''a'' 1] = Some pl"
proof -
  have "decode_public_match_list_options [(''limit'', [''50'']), (''page'', [''2''])] \<noteq> None" by code_simp
  then obtain options where o: "decode_public_match_list_options [(''limit'', [''50'']), (''page'', [''2''])] = Some options"
    by blast
  have "visits rev" by (simp add: visits_def)
  from accepted_queries_never_panic [OF o this, of "[finished ''a'' 1]"] o show ?thesis by blast
qed

definition bodies :: public_env where
  "bodies = \<lparr>pe_read = \<lambda>path dir limit. if path = ''replay'' then Some ''{}'' else None, pe_json_valid = \<lambda>b. b = ''{}''\<rparr>"

theorem replay_is_what_was_persisted_witness:
  "\<exists>resp. public_replay bodies bodies rev [finished ''a'' 1] ''a'' = Some resp \<and> rr_payload resp = ''{}''"
proof -
  let ?r = "finished ''a'' 1"
  have rev: "visits rev" by (simp add: visits_def)
  have fields: "qr_state ?r = StateCompleted" "qr_match ?r = ''a''"
    "checked_replay bodies ?r (the (qr_terminal ?r)) = Some ''{}''"
    by (simp_all add: finished_def checked_replay_def bodies_def)
  have "replay_digest ''{}'' \<noteq> []"
    using length_sum256 [of "''{}''"] by (cases "sum256 ''{}''") (auto simp: replay_digest_def hex_def)
  then have meta: "rm_availability (service_replay_metadata bodies ?r) = Available"
    using fields(3) by (simp add: service_replay_metadata_def replay_metadata_def finished_def max_public_replay_bytes_def)
  have "standing_run [?r] ''a'' = Some ?r"
    using fields by (simp add: standing_run_def candidates_def is_public_discoverable_def)
  then obtain resp where resp: "public_replay bodies bodies rev [?r] ''a'' = Some resp" "rr_availability resp = Available"
    using meta fields(3) by (auto simp: public_replay_def selected_for_standing [OF rev] Let_def finished_def)
  from replay_is_what_was_persisted [OF rev resp(1)] resp(2) have "rr_payload resp = ''{}''"
    by (auto simp: bodies_def split: if_splits)
  with resp(1) show ?thesis by blast
qed

definition some_snapshot :: exported_snapshot where
  "some_snapshot = \<lparr>xs_match_id = [], xs_game_id = ''go'', xs_game_version = ''1.0.0'', xs_ruleset = ''r'', xs_turn = 1,
     xs_status = StatusRunning, xs_public_state = RawNone, xs_players = []\<rparr>"

theorem versions_count_publications_witness:
  "map_option us_version (latest_state ''m'' ''r''
     (publish_all [(''m'', ''r'', some_snapshot), (''n'', ''r'', some_snapshot), (''m'', ''r'', some_snapshot)])) = Some 2"
  by (subst versions_count_publications) simp_all

end
