(* ===== verification/Wire.thy ===== *)
theory Wire
  imports Ranking_Service Bundle
begin

text \<open>
  The JSON form of match records (\<open>Record\<close> and \<open>Event\<close> of \<open>internal/platform/match/match.go\<close>, the
  snapshots of \<open>gamemaster/types.go\<close>), as the struct tags give it. \<open>None\<close> from an encoder is a raw
  message that is no JSON. A nil list or map is the empty one here.
\<close>

section \<open>Encoding\<close>

text \<open>Values whose encoding can fail.\<close>

definition enc_list :: "('a \<Rightarrow> json option) \<Rightarrow> 'a list \<Rightarrow> json option" where
  "enc_list enc xs = map_option JArr (map_all enc xs)"

definition enc_entries :: "('a \<Rightarrow> json option) \<Rightarrow> 'a gomap \<Rightarrow> json option" where
  "enc_entries enc m =
     map_option JObj (map_all (\<lambda>k. map_option (Pair k) (Option.bind (map_of m k) enc)) (sorted_keys m))"

definition enc_player_snapshot :: "player_snapshot \<Rightarrow> json option" where
  "enc_player_snapshot p =
     Option.bind (omit_raw ''visible_state'' (ps_visible p)) (\<lambda>v.
       map_option (\<lambda>s. JObj (v @ [(''last_action_status'', s), (''stderr_bytes'', JInt (ps_stderr_bytes p))]))
         (enc_action_status (ps_last p)))"

definition enc_snapshot :: "snapshot \<Rightarrow> json option" where
  "enc_snapshot s =
     Option.bind (omit_raw ''game_state'' (sn_game_state s)) (\<lambda>g.
       map_option (\<lambda>ps. JObj ([(''match_id'', JStr (sn_match_id s))] @ omit_str ''game_id'' (sn_game_id s) @
           omit_str ''game_version'' (sn_game_version s) @ omit_str ''ruleset_version'' (sn_ruleset s) @
           [(''turn'', JInt (sn_turn s)), (''status'', JStr (status_str (sn_status s)))] @ g @ [(''per_player'', ps)]))
         (enc_entries enc_player_snapshot (sn_per_player s)))"

definition enc_exported_player :: "exported_player_snapshot \<Rightarrow> json option" where
  "enc_exported_player p =
     map_option (\<lambda>s. JObj [(''player_id'', JStr (xp_player p)), (''last_action_status'', s)]) (enc_action_status (xp_last p))"

definition enc_exported :: "exported_snapshot \<Rightarrow> json option" where
  "enc_exported s =
     Option.bind (omit_raw ''public_state'' (xs_public_state s)) (\<lambda>g.
       map_option (\<lambda>ps. JObj ([(''match_id'', JStr (xs_match_id s))] @ omit_str ''game_id'' (xs_game_id s) @
           omit_str ''game_version'' (xs_game_version s) @ omit_str ''ruleset_version'' (xs_ruleset s) @
           [(''turn'', JInt (xs_turn s)), (''status'', JStr (status_str (xs_status s)))] @ g @ [(''players'', ps)]))
         (enc_list enc_exported_player (xs_players s)))"

definition enc_event :: "event \<Rightarrow> json option" where
  "enc_event e =
     map_option (\<lambda>p. JObj ([(''seq'', JInt (ev_seq e)), (''kind'', JStr (ev_kind e)), (''turn'', JInt (ev_turn e))] @
         omit_str ''player_id'' (ev_player e) @ p))
       (omit_raw ''payload'' (ev_payload e))"

definition enc_event_log :: "event list \<Rightarrow> json option" where
  "enc_event_log = enc_list enc_event"

definition enc_public_replay :: "public_replay \<Rightarrow> json option" where
  "enc_public_replay r =
     map_option (\<lambda>p. JObj [(''format'', JStr (rp_format r)), (''version'', JStr (rp_version r)), (''payload'', p)])
       (enc_raw (rp_payload r))"

definition enc_optional_replay :: "public_replay option \<Rightarrow> (string \<times> json) list option" where
  "enc_optional_replay r =
     (case r of None \<Rightarrow> Some [] | Some x \<Rightarrow> map_option (\<lambda>j. [(''public_replay'', j)]) (enc_public_replay x))"

definition enc_record :: "record_ \<Rightarrow> json option" where
  "enc_record r =
     Option.bind (enc_event_log (rc_event_log r)) (\<lambda>evs.
     Option.bind (enc_snapshot (rc_snapshot r)) (\<lambda>sn.
     Option.bind (enc_exported (rc_exported r)) (\<lambda>xs.
       map_option (\<lambda>rp. JObj ([(''match_id'', JStr (rc_match_id r)), (''game'', enc_metadata (rc_game r)),
           (''players'', JArr (map enc_player (rc_players r))), (''status'', JStr (status_str (rc_status r))),
           (''result'', enc_match_result (rc_result r)), (''event_log'', evs), (''snapshot'', sn),
           (''exported_snapshot'', xs)] @ rp))
         (enc_optional_replay (rc_public_replay r)))))"

definition enc_path_refs :: "path_refs \<Rightarrow> json" where
  "enc_path_refs p = JObj [(''record'', JStr (pf_record p)), (''structured_log'', JStr (pf_log p)),
     (''snapshot'', JStr (pf_snapshot p)), (''exported_snapshot'', JStr (pf_exported p)), (''history'', JStr (pf_history p))]"

definition enc_placement :: "placement \<Rightarrow> json" where
  "enc_placement p = JObj [(''player_id'', JStr (pc_player p)), (''place'', JInt (pc_place p))]"

definition enc_result_summary :: "result_summary \<Rightarrow> json" where
  "enc_result_summary s =
     JObj ([(''match_id'', JStr (sy_match s)), (''game_id'', JStr (sy_game s)), (''game_version'', JStr (sy_version s)),
       (''ruleset_version'', JStr (sy_ruleset s)), (''status'', JStr (status_str (sy_status s))), (''turn'', JInt (sy_turn s))] @
       (if sy_placements s = [] then [] else [(''placements'', JArr (map enc_placement (sy_placements s)))]) @
       [(''artifact_paths'', enc_path_refs (sy_paths s))] @ omit_str ''error'' (sy_error s))"

section \<open>Decoding\<close>

definition dec_player_snapshot :: "player_snapshot decoder" where
  "dec_player_snapshot = dec_struct
     [(''visible_state'', dec_field ps_visible (\<lambda>x s. s\<lparr>ps_visible := x\<rparr>) dec_raw),
      (''last_action_status'', dec_field ps_last (\<lambda>x s. s\<lparr>ps_last := x\<rparr>) dec_action_status),
      (''stderr_bytes'', dec_field ps_stderr_bytes (\<lambda>x s. s\<lparr>ps_stderr_bytes := x\<rparr>) dec_int)]"

definition dec_snapshot :: "snapshot decoder" where
  "dec_snapshot = dec_struct
     [(''match_id'', dec_field sn_match_id (\<lambda>x s. s\<lparr>sn_match_id := x\<rparr>) dec_str),
      (''game_id'', dec_field sn_game_id (\<lambda>x s. s\<lparr>sn_game_id := x\<rparr>) dec_str),
      (''game_version'', dec_field sn_game_version (\<lambda>x s. s\<lparr>sn_game_version := x\<rparr>) dec_str),
      (''ruleset_version'', dec_field sn_ruleset (\<lambda>x s. s\<lparr>sn_ruleset := x\<rparr>) dec_str),
      (''turn'', dec_field sn_turn (\<lambda>x s. s\<lparr>sn_turn := x\<rparr>) dec_int),
      (''status'', dec_field sn_status (\<lambda>x s. s\<lparr>sn_status := x\<rparr>) dec_status),
      (''game_state'', dec_field sn_game_state (\<lambda>x s. s\<lparr>sn_game_state := x\<rparr>) dec_raw),
      (''per_player'', dec_field sn_per_player (\<lambda>x s. s\<lparr>sn_per_player := x\<rparr>) (dec_map dec_player_snapshot zero_player_snapshot))]"

definition zero_exported_player :: exported_player_snapshot where
  "zero_exported_player = \<lparr>xp_player = [], xp_last = zero_status\<rparr>"

definition dec_exported_player :: "exported_player_snapshot decoder" where
  "dec_exported_player = dec_struct
     [(''player_id'', dec_field xp_player (\<lambda>x s. s\<lparr>xp_player := x\<rparr>) dec_str),
      (''last_action_status'', dec_field xp_last (\<lambda>x s. s\<lparr>xp_last := x\<rparr>) dec_action_status)]"

definition dec_exported :: "exported_snapshot decoder" where
  "dec_exported = dec_struct
     [(''match_id'', dec_field xs_match_id (\<lambda>x s. s\<lparr>xs_match_id := x\<rparr>) dec_str),
      (''game_id'', dec_field xs_game_id (\<lambda>x s. s\<lparr>xs_game_id := x\<rparr>) dec_str),
      (''game_version'', dec_field xs_game_version (\<lambda>x s. s\<lparr>xs_game_version := x\<rparr>) dec_str),
      (''ruleset_version'', dec_field xs_ruleset (\<lambda>x s. s\<lparr>xs_ruleset := x\<rparr>) dec_str),
      (''turn'', dec_field xs_turn (\<lambda>x s. s\<lparr>xs_turn := x\<rparr>) dec_int),
      (''status'', dec_field xs_status (\<lambda>x s. s\<lparr>xs_status := x\<rparr>) dec_status),
      (''public_state'', dec_field xs_public_state (\<lambda>x s. s\<lparr>xs_public_state := x\<rparr>) dec_raw),
      (''players'', dec_field xs_players (\<lambda>x s. s\<lparr>xs_players := x\<rparr>) (dec_list dec_exported_player zero_exported_player))]"

definition zero_event :: event where
  "zero_event = \<lparr>ev_seq = 0, ev_kind = [], ev_turn = 0, ev_player = [], ev_payload = RawNone\<rparr>"

definition dec_event :: "event decoder" where
  "dec_event = dec_struct
     [(''seq'', dec_field ev_seq (\<lambda>x s. s\<lparr>ev_seq := x\<rparr>) dec_int),
      (''kind'', dec_field ev_kind (\<lambda>x s. s\<lparr>ev_kind := x\<rparr>) dec_str),
      (''turn'', dec_field ev_turn (\<lambda>x s. s\<lparr>ev_turn := x\<rparr>) dec_int),
      (''player_id'', dec_field ev_player (\<lambda>x s. s\<lparr>ev_player := x\<rparr>) dec_str),
      (''payload'', dec_field ev_payload (\<lambda>x s. s\<lparr>ev_payload := x\<rparr>) dec_raw)]"

definition dec_event_log :: "event list decoder" where
  "dec_event_log = dec_list dec_event zero_event"

definition dec_metadata :: "game_metadata decoder" where
  "dec_metadata = dec_struct
     [(''game_id'', dec_field gm_game_id (\<lambda>x s. s\<lparr>gm_game_id := x\<rparr>) dec_str),
      (''game_version'', dec_field gm_game_version (\<lambda>x s. s\<lparr>gm_game_version := x\<rparr>) dec_str),
      (''ruleset_version'', dec_field gm_ruleset (\<lambda>x s. s\<lparr>gm_ruleset := x\<rparr>) dec_str)]"

definition dec_player :: "player decoder" where
  "dec_player = dec_struct
     [(''player_id'', dec_field pl_id (\<lambda>x s. s\<lparr>pl_id := x\<rparr>) dec_str),
      (''ai_id'', dec_field pl_ai (\<lambda>x s. s\<lparr>pl_ai := x\<rparr>) dec_str)]"

definition dec_match_result :: "match_result decoder" where
  "dec_match_result = dec_struct
     [(''placements'', dec_field mr_placements (\<lambda>x s. s\<lparr>mr_placements := x\<rparr>) (dec_list dec_placement zero_placement))]"

definition dec_public_replay :: "public_replay decoder" where
  "dec_public_replay = dec_struct
     [(''format'', dec_field rp_format (\<lambda>x s. s\<lparr>rp_format := x\<rparr>) dec_str),
      (''version'', dec_field rp_version (\<lambda>x s. s\<lparr>rp_version := x\<rparr>) dec_str),
      (''payload'', dec_field rp_payload (\<lambda>x s. s\<lparr>rp_payload := x\<rparr>) dec_raw)]"

definition zero_record :: record_ where
  "zero_record = \<lparr>rc_match_id = [], rc_game = \<lparr>gm_game_id = [], gm_game_version = [], gm_ruleset = []\<rparr>, rc_players = [],
     rc_status = OtherStatus [], rc_result = \<lparr>mr_placements = []\<rparr>, rc_event_log = [], rc_snapshot = zero_snapshot,
     rc_exported = zero_exported, rc_public_replay = None\<rparr>"

definition dec_record :: "record_ decoder" where
  "dec_record = dec_struct
     [(''match_id'', dec_field rc_match_id (\<lambda>x s. s\<lparr>rc_match_id := x\<rparr>) dec_str),
      (''game'', dec_field rc_game (\<lambda>x s. s\<lparr>rc_game := x\<rparr>) dec_metadata),
      (''players'', dec_field rc_players (\<lambda>x s. s\<lparr>rc_players := x\<rparr>) (dec_list dec_player \<lparr>pl_id = [], pl_ai = []\<rparr>)),
      (''status'', dec_field rc_status (\<lambda>x s. s\<lparr>rc_status := x\<rparr>) dec_status),
      (''result'', dec_field rc_result (\<lambda>x s. s\<lparr>rc_result := x\<rparr>) dec_match_result),
      (''event_log'', dec_field rc_event_log (\<lambda>x s. s\<lparr>rc_event_log := x\<rparr>) dec_event_log),
      (''snapshot'', dec_field rc_snapshot (\<lambda>x s. s\<lparr>rc_snapshot := x\<rparr>) dec_snapshot),
      (''exported_snapshot'', dec_field rc_exported (\<lambda>x s. s\<lparr>rc_exported := x\<rparr>) dec_exported),
      (''public_replay'', dec_field rc_public_replay (\<lambda>x s. s\<lparr>rc_public_replay := x\<rparr>)
         (dec_pointer dec_public_replay \<lparr>rp_format = [], rp_version = [], rp_payload = RawNone\<rparr>))]"

section \<open>Round trips\<close>

lemma map_all_decodes:
  assumes "map_all enc xs = Some js" "\<And>x j. x \<in> set xs \<Longrightarrow> enc x = Some j \<Longrightarrow> dec j = Some (f x)"
  shows "map_all dec js = Some (map f xs)"
  using assms
  by (induction xs arbitrary: js) (auto simp: bind_eq_Some_conv)

lemma dec_enc_list:
  assumes "enc_list enc xs = Some j" "\<And>x j. x \<in> set xs \<Longrightarrow> enc x = Some j \<Longrightarrow> dec j zero = Some x"
  shows "dec_list dec zero j s = Some xs"
proof -
  obtain js where "map_all enc xs = Some js" "j = JArr js" using assms(1) by (auto simp: enc_list_def)
  then show ?thesis using map_all_decodes [of enc xs js "\<lambda>j. dec j zero" "\<lambda>x. x"] assms(2) by (simp add: dec_list_def)
qed

lemma status_roundtrip: "dec_status (JStr (status_str st)) s = Some (str_status (status_str st))"
  by (simp add: dec_status_def dec_str_def)

text \<open>A status is canonical when it is not a known one in disguise.\<close>

definition canonical_status :: "match_status \<Rightarrow> bool" where
  "canonical_status st \<longleftrightarrow> str_status (status_str st) = st"

definition event_ok :: "event \<Rightarrow> bool" where
  "event_ok e \<longleftrightarrow> int64_ok (ev_seq e) \<and> int64_ok (ev_turn e)"

lemma dec_enc_event:
  assumes "enc_event e = Some j" "event_ok e"
  shows "dec_event j zero_event = Some e"
  using assms
  by (cases e; cases "ev_payload e"; cases "ev_player e = []")
    (auto simp: enc_event_def omit_raw_def omit_str_def event_ok_def dec_event_def dec_defs zero_event_def upper_def)

lemma dec_enc_event_log:
  assumes "enc_event_log evs = Some j" "\<forall>e \<in> set evs. event_ok e"
  shows "dec_event_log j s = Some evs"
  using dec_enc_list [OF assms(1) [unfolded enc_event_log_def]] dec_enc_event assms(2) by (simp add: dec_event_log_def)

lemma dec_enc_status:
  assumes "enc_action_status s = Some j" "canonical_decision (as_decision s)" "canonical_reason (as_reason s)"
  shows "dec_action_status j zero_status = Some s"
proof -
  have "as_action s \<noteq> RawBad" using assms(1) by (auto simp: enc_action_status_def omit_raw_def split: raw.splits)
  then have "encodable_status s" using assms by (simp add: encodable_status_def)
  from dec_enc_action_status [OF this] assms(1) show ?thesis by auto
qed

definition player_snapshot_ok :: "player_snapshot \<Rightarrow> bool" where
  "player_snapshot_ok p \<longleftrightarrow> int64_ok (ps_stderr_bytes p) \<and>
     canonical_decision (as_decision (ps_last p)) \<and> canonical_reason (as_reason (ps_last p))"

lemma dec_enc_player_snapshot:
  assumes "enc_player_snapshot p = Some j" "player_snapshot_ok p"
  shows "dec_player_snapshot j zero_player_snapshot = Some p"
proof -
  obtain v s where j: "omit_raw ''visible_state'' (ps_visible p) = Some v" "enc_action_status (ps_last p) = Some s"
    "j = JObj (v @ [(''last_action_status'', s), (''stderr_bytes'', JInt (ps_stderr_bytes p))])"
    using assms(1) by (auto simp: enc_player_snapshot_def bind_eq_Some_conv)
  have "dec_action_status s zero_status = Some (ps_last p)"
    using dec_enc_status [OF j(2)] assms(2) by (simp add: player_snapshot_ok_def)
  then show ?thesis
    using j(1,3) assms(2)
    by (cases "ps_visible p")
      (auto simp: omit_raw_def player_snapshot_ok_def dec_player_snapshot_def dec_defs zero_player_snapshot_def upper_def)
qed

lemma dec_entries_all:
  assumes "map_all (\<lambda>k. map_option (Pair k) (Option.bind (map_of m k) enc)) ks = Some kvs"
    "\<And>k v j. k \<in> set ks \<Longrightarrow> map_of m k = Some v \<Longrightarrow> enc v = Some j \<Longrightarrow> dec j zero = Some v"
  shows "dec_entries dec zero kvs m0 = Some (fold (\<lambda>k. put k (the (map_of m k))) ks m0)"
  using assms
proof (induction ks arbitrary: kvs m0)
  case (Cons k ks)
  then obtain v j rest where k: "map_of m k = Some v" "enc v = Some j" "kvs = (k, j) # rest"
    "map_all (\<lambda>k. map_option (Pair k) (Option.bind (map_of m k) enc)) ks = Some rest"
    by (auto simp: bind_eq_Some_conv)
  have "dec_entries dec zero rest (put k v m0) = Some (fold (\<lambda>k. put k (the (map_of m k))) ks (put k v m0))"
  proof (rule Cons.IH [OF k(4)])
    fix q v j assume "q \<in> set ks" "map_of m q = Some v" "enc v = Some j"
    then show "dec j zero = Some v" using Cons.prems(2) [of q v j] by simp
  qed
  then show ?case using k Cons.prems(2) [of k v j] by simp
qed simp

lemma dec_enc_entries:
  assumes "enc_entries enc m = Some j"
    "\<And>k v i. map_of m k = Some v \<Longrightarrow> enc v = Some i \<Longrightarrow> dec i zero = Some v"
  shows "\<exists>m'. dec_map dec zero j [] = Some m' \<and> map_of m' = map_of m"
proof -
  obtain kvs where kvs: "map_all (\<lambda>k. map_option (Pair k) (Option.bind (map_of m k) enc)) (sorted_keys m) = Some kvs"
    "j = JObj kvs"
    using assms(1) by (auto simp: enc_entries_def)
  let ?m = "fold (\<lambda>k. put k (the (map_of m k))) (sorted_keys m) []"
  have "dec_map dec zero j [] = Some ?m"
    using dec_entries_all [OF kvs(1), of dec zero "[]"] assms(2) kvs(2) by (simp add: dec_map_def)
  moreover have "q \<in> set (sorted_keys m) \<longleftrightarrow> map_of m q \<noteq> None" for q
    by (simp add: sorted_keys_def map_of_eq_None_iff)
  then have "map_of ?m = map_of m" by (auto simp: map_of_fold_put)
  ultimately show ?thesis by blast
qed

definition snapshot_ok :: "snapshot \<Rightarrow> bool" where
  "snapshot_ok s \<longleftrightarrow> int64_ok (sn_turn s) \<and> canonical_status (sn_status s) \<and>
     (\<forall>k p. map_of (sn_per_player s) k = Some p \<longrightarrow> player_snapshot_ok p)"

text \<open>Two snapshots with the same entries for the players.\<close>

definition same_snapshot :: "snapshot \<Rightarrow> snapshot \<Rightarrow> bool" where
  "same_snapshot s t \<longleftrightarrow> t = s\<lparr>sn_per_player := sn_per_player t\<rparr> \<and> map_of (sn_per_player t) = map_of (sn_per_player s)"

lemma dec_enc_snapshot:
  assumes "enc_snapshot s = Some j" "snapshot_ok s"
  shows "\<exists>t. dec_snapshot j zero_snapshot = Some t \<and> same_snapshot s t"
proof -
  obtain g ps where j: "omit_raw ''game_state'' (sn_game_state s) = Some g"
    "enc_entries enc_player_snapshot (sn_per_player s) = Some ps"
    "j = JObj ([(''match_id'', JStr (sn_match_id s))] @ omit_str ''game_id'' (sn_game_id s) @
       omit_str ''game_version'' (sn_game_version s) @ omit_str ''ruleset_version'' (sn_ruleset s) @
       [(''turn'', JInt (sn_turn s)), (''status'', JStr (status_str (sn_status s)))] @ g @ [(''per_player'', ps)])"
    using assms(1) by (auto simp: enc_snapshot_def bind_eq_Some_conv)
  obtain m' where m': "dec_map dec_player_snapshot zero_player_snapshot ps [] = Some m'"
    "map_of m' = map_of (sn_per_player s)"
    using dec_enc_entries [OF j(2)] dec_enc_player_snapshot assms(2) by (metis snapshot_ok_def)
  obtain a b c d t st r pp where s: "s = \<lparr>sn_match_id = a, sn_game_id = b, sn_game_version = c, sn_ruleset = d, sn_turn = t,
      sn_status = st, sn_game_state = r, sn_per_player = pp\<rparr>"
    by (cases s)
  have st: "str_status (status_str st) = st" "int64_ok t" using assms(2) by (simp_all add: snapshot_ok_def s canonical_status_def)
  have g: "g = (case r of RawJson v \<Rightarrow> [(''game_state'', v)] | _ \<Rightarrow> [])" "r \<noteq> RawBad"
    using j(1) by (auto simp: s omit_raw_def split: raw.splits)
  have "dec_snapshot j zero_snapshot = Some (s\<lparr>sn_per_player := m'\<rparr>)"
    unfolding j(3) g(1) using m'(1) st g(2)
    by (cases r; cases "b = []"; cases "c = []"; cases "d = []")
      (simp_all add: s omit_str_def dec_snapshot_def dec_defs zero_snapshot_def upper_def status_roundtrip)
  then show ?thesis using m'(2) by (simp add: same_snapshot_def)
qed

definition exported_ok :: "exported_snapshot \<Rightarrow> bool" where
  "exported_ok s \<longleftrightarrow> int64_ok (xs_turn s) \<and> canonical_status (xs_status s) \<and>
     (\<forall>p \<in> set (xs_players s). canonical_decision (as_decision (xp_last p)) \<and> canonical_reason (as_reason (xp_last p)))"

lemma dec_enc_exported_player:
  assumes "enc_exported_player p = Some j" "canonical_decision (as_decision (xp_last p))" "canonical_reason (as_reason (xp_last p))"
  shows "dec_exported_player j zero_exported_player = Some p"
proof -
  obtain s where j: "enc_action_status (xp_last p) = Some s"
    "j = JObj [(''player_id'', JStr (xp_player p)), (''last_action_status'', s)]"
    using assms(1) by (auto simp: enc_exported_player_def)
  from dec_enc_status [OF j(1) assms(2,3)] show ?thesis
    by (simp add: j(2) dec_exported_player_def dec_defs zero_exported_player_def upper_def)
qed

lemma dec_enc_exported:
  assumes "enc_exported s = Some j" "exported_ok s"
  shows "dec_exported j zero_exported = Some s"
proof -
  obtain g ps where j: "omit_raw ''public_state'' (xs_public_state s) = Some g"
    "enc_list enc_exported_player (xs_players s) = Some ps"
    "j = JObj ([(''match_id'', JStr (xs_match_id s))] @ omit_str ''game_id'' (xs_game_id s) @
       omit_str ''game_version'' (xs_game_version s) @ omit_str ''ruleset_version'' (xs_ruleset s) @
       [(''turn'', JInt (xs_turn s)), (''status'', JStr (status_str (xs_status s)))] @ g @ [(''players'', ps)])"
    using assms(1) by (auto simp: enc_exported_def bind_eq_Some_conv)
  have ps: "dec_list dec_exported_player zero_exported_player ps [] = Some (xs_players s)"
    by (rule dec_enc_list [OF j(2)]) (use dec_enc_exported_player assms(2) in \<open>auto simp: exported_ok_def\<close>)
  obtain a b c d t st r pp where s: "s = \<lparr>xs_match_id = a, xs_game_id = b, xs_game_version = c, xs_ruleset = d, xs_turn = t,
      xs_status = st, xs_public_state = r, xs_players = pp\<rparr>"
    by (cases s)
  have st: "str_status (status_str st) = st" "int64_ok t" using assms(2) by (simp_all add: exported_ok_def s canonical_status_def)
  have g: "g = (case r of RawJson v \<Rightarrow> [(''public_state'', v)] | _ \<Rightarrow> [])" "r \<noteq> RawBad"
    using j(1) by (auto simp: s omit_raw_def split: raw.splits)
  show ?thesis
    unfolding j(3) g(1) using ps st g(2)
    by (cases r; cases "b = []"; cases "c = []"; cases "d = []")
      (simp_all add: s omit_str_def dec_exported_def dec_defs zero_exported_def upper_def status_roundtrip)
qed

definition record_ok :: "record_ \<Rightarrow> bool" where
  "record_ok r \<longleftrightarrow> canonical_status (rc_status r) \<and> (\<forall>p \<in> set (mr_placements (rc_result r)). int64_ok (pc_place p)) \<and>
     (\<forall>e \<in> set (rc_event_log r). event_ok e) \<and> snapshot_ok (rc_snapshot r) \<and> exported_ok (rc_exported r) \<and>
     (\<forall>x. rc_public_replay r = Some x \<longrightarrow> rp_payload x \<noteq> RawNone)"

lemma dec_enc_match_result:
  assumes "\<forall>p \<in> set (mr_placements r). int64_ok (pc_place p)"
  shows "dec_match_result (enc_match_result r) \<lparr>mr_placements = []\<rparr> = Some r"
proof -
  have one: "dec_placement (JObj [(''player_id'', JStr (pc_player p)), (''place'', JInt (pc_place p))]) zero_placement = Some p"
    if "int64_ok (pc_place p)" for p
    using that by (simp add: dec_placement_def dec_defs zero_placement_def upper_def)
  have all: "map_all (\<lambda>j. dec_placement j zero_placement)
      (map (\<lambda>p. JObj [(''player_id'', JStr (pc_player p)), (''place'', JInt (pc_place p))]) (mr_placements r)) =
    Some (map (\<lambda>p. p) (mr_placements r))"
    unfolding map_all_map by (rule map_all_Some) (use one assms in auto)
  show ?thesis
    using all by (simp add: enc_match_result_def dec_match_result_def dec_defs dec_list_def upper_def)
qed

lemma dec_enc_players: "map_all (\<lambda>j. dec_player j \<lparr>pl_id = [], pl_ai = []\<rparr>) (map enc_player ps) = Some ps"
proof -
  have "map_all (\<lambda>x. dec_player (enc_player x) \<lparr>pl_id = [], pl_ai = []\<rparr>) ps = Some (map (\<lambda>p. p) ps)"
    by (rule map_all_Some) (simp add: enc_player_def dec_player_def dec_defs upper_def)
  then show ?thesis by (simp add: map_all_map)
qed

lemma dec_enc_replay:
  assumes "enc_public_replay x = Some j" "rp_payload x \<noteq> RawNone"
  shows "j \<noteq> JNull \<and> dec_public_replay j \<lparr>rp_format = [], rp_version = [], rp_payload = RawNone\<rparr> = Some x"
  using assms
  by (cases x; cases "rp_payload x")
    (auto simp: enc_public_replay_def enc_raw_def dec_public_replay_def dec_defs upper_def)

text \<open>What \<open>record.json\<close> holds: the record, with the very documents of its log and its snapshots.\<close>

lemma dec_enc_record:
  assumes "enc_record r = Some j" "record_ok r"
  obtains evs sn xs t where "enc_event_log (rc_event_log r) = Some evs" "enc_snapshot (rc_snapshot r) = Some sn"
    "enc_exported (rc_exported r) = Some xs" "dec_snapshot sn zero_snapshot = Some t" "same_snapshot (rc_snapshot r) t"
    "dec_record j zero_record = Some (r\<lparr>rc_snapshot := t\<rparr>)"
proof -
  obtain evs sn xs rp where enc: "enc_event_log (rc_event_log r) = Some evs" "enc_snapshot (rc_snapshot r) = Some sn"
    "enc_exported (rc_exported r) = Some xs" "enc_optional_replay (rc_public_replay r) = Some rp"
    and j: "j = JObj ([(''match_id'', JStr (rc_match_id r)), (''game'', enc_metadata (rc_game r)),
           (''players'', JArr (map enc_player (rc_players r))), (''status'', JStr (status_str (rc_status r))),
           (''result'', enc_match_result (rc_result r)), (''event_log'', evs), (''snapshot'', sn),
           (''exported_snapshot'', xs)] @ rp)"
    using assms(1) by (auto simp: enc_record_def bind_eq_Some_conv)
  have ok: "canonical_status (rc_status r)" "\<forall>p \<in> set (mr_placements (rc_result r)). int64_ok (pc_place p)"
    "\<forall>e \<in> set (rc_event_log r). event_ok e" "snapshot_ok (rc_snapshot r)" "exported_ok (rc_exported r)"
    "\<And>x. rc_public_replay r = Some x \<Longrightarrow> rp_payload x \<noteq> RawNone"
    using assms(2) by (auto simp: record_ok_def)
  obtain t where t: "dec_snapshot sn zero_snapshot = Some t" "same_snapshot (rc_snapshot r) t"
    using dec_enc_snapshot [OF enc(2) ok(4)] by blast
  have game: "dec_metadata (enc_metadata (rc_game r)) \<lparr>gm_game_id = [], gm_game_version = [], gm_ruleset = []\<rparr> = Some (rc_game r)"
    by (simp add: enc_metadata_def dec_metadata_def dec_defs upper_def)
  have players: "dec_list dec_player \<lparr>pl_id = [], pl_ai = []\<rparr> (JArr (map enc_player (rc_players r))) [] = Some (rc_players r)"
    by (simp add: dec_list_def dec_enc_players)
  obtain a b c st re lg ss xx rr where r: "r = \<lparr>rc_match_id = a, rc_game = b, rc_players = c, rc_status = st, rc_result = re,
      rc_event_log = lg, rc_snapshot = ss, rc_exported = xx, rc_public_replay = rr\<rparr>"
    by (cases r)
  note parts = game players dec_enc_match_result [OF ok(2)] dec_enc_event_log [OF enc(1) ok(3), of "[]"] t(1)
    dec_enc_exported [OF enc(3) ok(5)]
  have st: "dec_status (JStr (status_str st)) (OtherStatus []) = Some st"
    using ok(1) by (simp add: status_roundtrip canonical_status_def r)
  have "dec_record j zero_record = Some (r\<lparr>rc_snapshot := t\<rparr>)"
  proof (cases rr)
    case None
    then have "rp = []" using enc(4) by (simp add: r enc_optional_replay_def)
    then show ?thesis
      unfolding j using parts st None
      by (simp add: r dec_record_def dec_struct_def dec_field_def dec_str_def zero_record_def upper_def)
  next
    case (Some x)
    then obtain v where v: "enc_public_replay x = Some v" "rp = [(''public_replay'', v)]"
      using enc(4) by (auto simp: r enc_optional_replay_def)
    from dec_enc_replay [OF v(1)] ok(6) Some r
    have "v \<noteq> JNull" "dec_public_replay v \<lparr>rp_format = [], rp_version = [], rp_payload = RawNone\<rparr> = Some x" by auto
    then show ?thesis
      unfolding j v(2) using parts st Some
      by (simp add: r dec_record_def dec_struct_def dec_field_def dec_str_def zero_record_def upper_def dec_pointer_def)
  qed
  with that enc(1-3) t show ?thesis by blast
qed

end
