(* ===== verification/Path_Facts.thy ===== *)
theory Path_Facts
  imports Paths
begin

text \<open>\<open>filepath.Clean\<close> gives a normal form: cleaning and joining clean paths again changes nothing.\<close>

lemma split_on_element: "CHR ''/'' \<notin> set e \<Longrightarrow> split_on (CHR ''/'') (e @ CHR ''/'' # s) = e # split_on (CHR ''/'') s"
  by (induction e) auto

lemma split_on_single: "c \<notin> set e \<Longrightarrow> split_on c e = [e]"
  by (induction e) auto

lemma split_on_join_with:
  "es \<noteq> [] \<Longrightarrow> \<forall>e \<in> set es. CHR ''/'' \<notin> set e \<Longrightarrow> split_on (CHR ''/'') (join_with ''/'' es) = es"
proof (induction "''/''" es rule: join_with.induct)
  case (2 x)
  then show ?case by (simp add: split_on_single)
next
  case (3 x y ys)
  then show ?case by (simp add: split_on_element)
qed simp

lemma split_on_elements: "e \<in> set (split_on c s) \<Longrightarrow> c \<notin> set e"
  by (induction s arbitrary: e) (auto split: list.splits if_splits)

text \<open>Elements of a clean path, the last one first.\<close>

fun normal :: "bool \<Rightarrow> string list \<Rightarrow> bool" where
  "normal rooted [] \<longleftrightarrow> True"
| "normal rooted (e # out) \<longleftrightarrow> normal rooted out \<and> e \<noteq> [] \<and> e \<noteq> ''.'' \<and> CHR ''/'' \<notin> set e \<and>
     (e = ''..'' \<longrightarrow> \<not> rooted \<and> (\<forall>x \<in> set out. x = ''..''))"

lemma normal_clean_element:
  assumes "normal rooted out" "CHR ''/'' \<notin> set e"
  shows "normal rooted (clean_element rooted e out)"
  using assms
  by (cases out) (auto simp: clean_element_def)

lemma normal_fold: "normal rooted out \<Longrightarrow> \<forall>e \<in> set es. CHR ''/'' \<notin> set e \<Longrightarrow> normal rooted (fold (clean_element rooted) es out)"
  by (induction es arbitrary: out) (simp_all add: normal_clean_element)

lemma clean_element_normal: "normal rooted (e # out) \<Longrightarrow> clean_element rooted e out = e # out"
proof -
  assume "normal rooted (e # out)"
  then have e: "e \<noteq> []" "e \<noteq> ''.''" and up: "e = ''..'' \<longrightarrow> \<not> rooted \<and> (\<forall>x \<in> set out. x = ''..'')"
    unfolding normal.simps by blast+
  show ?thesis
  proof (cases "e = ''..''")
    case False
    with e show ?thesis unfolding clean_element_def by simp
  next
    case True
    show ?thesis
    proof (cases out)
      case Nil
      then show ?thesis using True up by (simp add: clean_element_def)
    next
      case (Cons x xs)
      then have "x = ''..''" using True up by simp
      then show ?thesis using True Cons by (simp add: clean_element_def)
    qed
  qed
qed

lemma fold_normal: "normal rooted out \<Longrightarrow> fold (clean_element rooted) (rev out) [] = out"
proof (induction out)
  case (Cons e out)
  then have "fold (clean_element rooted) (rev out) [] = out" by simp
  then show ?case using clean_element_normal [OF Cons.prems] by (simp del: normal.simps)
qed simp

lemma normal_set: "normal rooted out \<Longrightarrow> \<forall>e \<in> set out. e \<noteq> [] \<and> CHR ''/'' \<notin> set e"
  by (induction out) auto

lemma clean_elements_normal: "normal rooted (rev (clean_elements rooted (split_on (CHR ''/'') p)))"
  unfolding clean_elements_def by (simp add: normal_fold split_on_elements)

lemma clean_of_normal:
  assumes "normal rooted (rev es)" "es \<noteq> []"
  shows "clean ((if rooted then ''/'' else []) @ join_with ''/'' es) = (if rooted then ''/'' else []) @ join_with ''/'' es"
proof -
  have ne: "\<forall>e \<in> set es. e \<noteq> [] \<and> CHR ''/'' \<notin> set e" using normal_set [OF assms(1)] by simp
  have split: "split_on (CHR ''/'') (join_with ''/'' es) = es" using split_on_join_with assms(2) ne by blast
  have elements: "clean_elements rooted es = es"
    using fold_normal [OF assms(1)] by (simp add: clean_elements_def)
  obtain c cs where c: "join_with ''/'' es = c # cs" "c \<noteq> CHR ''/''"
  proof -
    obtain e rest where es: "es = e # rest" using assms(2) by (cases es) auto
    then have "e \<noteq> []" "CHR ''/'' \<notin> set e" using ne by auto
    then obtain c ds where e: "e = c # ds" "c \<noteq> CHR ''/''" by (cases e) auto
    have "\<exists>cs. join_with ''/'' es = c # cs" unfolding es e(1) by (cases rest) auto
    with e(2) that show ?thesis by blast
  qed
  show ?thesis
  proof (cases rooted)
    case True
    have "clean_elements True ([] # es) = clean_elements True es" by (simp add: clean_elements_def clean_element_def)
    then show ?thesis using True split elements by (simp add: clean_def)
  next
    case False
    then show ?thesis using split elements c assms(2) by (simp add: clean_def)
  qed
qed

lemma clean_form:
  obtains rooted es where "normal rooted (rev es)" "es \<noteq> []" "clean p = (if rooted then ''/'' else []) @ join_with ''/'' es"
  | "clean p = ''/''" | "clean p = ''.''"
proof -
  consider "p = []" | "p \<noteq> []" "hd p = CHR ''/''" | "p \<noteq> []" "hd p \<noteq> CHR ''/''" by blast
  then show ?thesis
  proof cases
    case 1
    then show ?thesis using that(3) by (simp add: clean_def)
  next
    case 2
    then show ?thesis
      using that(1) [OF clean_elements_normal [of True p]] that(2)
      by (cases "clean_elements True (split_on (CHR ''/'') p) = []") (simp_all add: clean_def Let_def)
  next
    case 3
    then show ?thesis
      using that(1) [OF clean_elements_normal [of False p]] that(3)
      by (cases "clean_elements False (split_on (CHR ''/'') p) = []") (simp_all add: clean_def Let_def)
  qed
qed

lemma clean_clean [simp]: "clean (clean p) = clean p"
proof (cases rule: clean_form [of p])
  case (1 rooted es)
  then show ?thesis using clean_of_normal by metis
next
  case 2
  then show ?thesis by (simp add: clean_def clean_elements_def clean_element_def)
next
  case 3
  then show ?thesis by (simp add: clean_def clean_elements_def clean_element_def)
qed

lemma clean_not_Nil [simp]: "clean p \<noteq> []"
proof (cases rule: clean_form [of p])
  case (1 rooted es)
  then have "\<forall>e \<in> set es. e \<noteq> []" using normal_set [OF 1(1)] by simp
  with 1(2,3) show ?thesis by (cases es; cases "tl es") auto
qed simp_all

lemma clean_join [simp]: "es \<noteq> [] \<Longrightarrow> \<exists>e \<in> set es. e \<noteq> [] \<Longrightarrow> clean (join es) = join es"
  by (auto simp: join_def split: list.split)

text \<open>A clean path has no empty element, so it is no \<open>file://\<close> URL.\<close>

lemma clean_no_double_slash: "\<not> prefix (CHR ''f'' # ''ile://'') (clean p)"
proof
  assume pre: "prefix (CHR ''f'' # ''ile://'') (clean p)"
  show False
  proof (cases rule: clean_form [of p])
    case (1 rooted es)
    have ne: "\<forall>e \<in> set es. e \<noteq> [] \<and> CHR ''/'' \<notin> set e" using normal_set [OF 1(1)] by simp
    have rooted: "\<not> rooted" using pre 1(3) by (auto simp: prefix_def)
    then obtain s where s: "join_with ''/'' es = ''file:'' @ CHR ''/'' # CHR ''/'' # s" using pre 1(3) by (auto simp: prefix_def)
    have "split_on (CHR ''/'') (join_with ''/'' es) = ''file:'' # [] # split_on (CHR ''/'') s"
      unfolding s by (subst split_on_element) simp_all
    then have "es = ''file:'' # [] # split_on (CHR ''/'') s" using split_on_join_with [OF 1(2)] ne by auto
    then show False using ne by simp
  qed (use pre in \<open>auto simp: prefix_def\<close>)
qed

section \<open>The last element\<close>

lemma split_on_append: "split_on c (x @ c # y) = split_on c x @ split_on c y"
  by (induction x) (auto split: list.split)

lemma clean_elements_last:
  assumes "last es = e" "es \<noteq> []" "e \<noteq> []" "e \<noteq> ''.''" "e \<noteq> ''..''"
  shows "\<exists>fs. clean_elements rooted es = fs @ [e]"
proof -
  obtain es0 where es: "es = es0 @ [e]" using assms(1,2) by (metis append_butlast_last_id)
  have "clean_elements rooted es = rev (clean_element rooted e (fold (clean_element rooted) es0 []))"
    by (simp add: clean_elements_def es)
  also have "clean_element rooted e (fold (clean_element rooted) es0 []) = e # fold (clean_element rooted) es0 []"
    using assms(3-5) by (simp add: clean_element_def)
  finally show ?thesis by simp
qed

lemma base_slash: "CHR ''/'' \<notin> set n \<Longrightarrow> n \<noteq> [] \<Longrightarrow> base (CHR ''/'' # join_with ''/'' (es @ [n])) = n"
  using base_join_last [of n "[] # es"] by (cases es) simp_all

lemma base_clean:
  assumes "p \<noteq> []" "last (split_on (CHR ''/'') p) = e" "e \<noteq> []" "e \<noteq> ''.''" "e \<noteq> ''..''"
  shows "base (clean p) = e"
proof -
  have e: "CHR ''/'' \<notin> set e" using assms(2) split_on_elements [of e "CHR ''/''" p] by (metis last_in_set split_on_not_Nil)
  obtain fs where fs: "clean_elements (hd p = CHR ''/'') (split_on (CHR ''/'') p) = fs @ [e]"
    using clean_elements_last [OF assms(2) split_on_not_Nil assms(3-5)] by blast
  show ?thesis
    using assms(1,3) e fs base_join_last [of e fs] base_slash [of e fs]
    by (cases "hd p = CHR ''/''") (simp_all add: clean_def Let_def)
qed

lemma base_join:
  assumes "n \<noteq> []" "last (split_on (CHR ''/'') n) = e" "e \<noteq> []" "e \<noteq> ''.''" "e \<noteq> ''..''"
  shows "base (join [d, n]) = e"
proof (cases "d = []")
  case True
  then show ?thesis using base_clean [OF assms] assms(1) by (simp add: join_def)
next
  case False
  have "last (split_on (CHR ''/'') (d @ CHR ''/'' # n)) = e" using assms(2) by (simp add: split_on_append)
  from base_clean [OF _ this assms(3-5)] False show ?thesis by (simp add: join_def)
qed

lemma split_on_last_append: "c \<notin> set b \<Longrightarrow> last (split_on c (a @ b)) = last (split_on c a) @ b"
proof (induction a)
  case Nil
  then show ?case by (simp add: split_on_single)
next
  case (Cons x a)
  obtain p ps where p: "split_on c (a @ b) = p # ps" by (cases "split_on c (a @ b)") simp_all
  obtain q qs where q: "split_on c a = q # qs" by (cases "split_on c a") simp_all
  have "length (split_on c (a @ b)) = length (split_on c a)"
    using Cons.prems by (induction a) (auto simp: split_on_single split: list.splits)
  then have "ps = [] \<longleftrightarrow> qs = []" using p q by auto
  then show ?case using Cons p q by auto
qed

section \<open>The elements of a path\<close>

text \<open>What lexical cleaning leaves of a path: an absolute one starts at the root, a relative one with its leading \<open>..\<close>.\<close>

definition elements :: "string \<Rightarrow> string list" where
  "elements p = clean_elements (is_abs p) (split_on (CHR ''/'') p)"

lemma elements_normal: "normal (is_abs p) (rev (elements p))"
  by (simp add: elements_def clean_elements_normal)

lemma elements_nonempty: "e \<in> set (elements p) \<Longrightarrow> e \<noteq> [] \<and> CHR ''/'' \<notin> set e"
  using normal_set [OF elements_normal, of p] by simp

lemma join_elements_start: "elements p \<noteq> [] \<Longrightarrow> \<exists>c cs. join_with ''/'' (elements p) = c # cs \<and> c \<noteq> CHR ''/''"
proof -
  assume "elements p \<noteq> []"
  then obtain e es where es: "elements p = e # es" by (cases "elements p") auto
  with elements_nonempty [of e p] obtain c ds where "e = c # ds" "c \<noteq> CHR ''/''" by (cases e) auto
  then show ?thesis unfolding es by (cases es) auto
qed

lemma clean_by_elements:
  "clean p = (if is_abs p then ''/'' @ join_with ''/'' (elements p)
     else if elements p = [] then ''.'' else join_with ''/'' (elements p))"
proof (cases "p = []")
  case True
  then show ?thesis by (simp add: clean_def elements_def is_abs_def clean_elements_def clean_element_def)
next
  case False
  then show ?thesis by (cases "hd p = CHR ''/''") (simp_all add: clean_def elements_def is_abs_def Let_def)
qed

lemma is_abs_clean [simp]: "is_abs (clean p) = is_abs p"
  using join_elements_start [of p] by (auto simp: clean_by_elements is_abs_def)

lemma normal_up:
  "normal rooted (us @ ''..'' # vs) \<Longrightarrow> \<forall>x \<in> set vs. x = ''..''"
  by (induction us) auto

text \<open>Elements behind one that is not \<open>..\<close> are not \<open>..\<close> either.\<close>

lemma elements_no_up:
  assumes "elements p = es @ e # rest" "e \<noteq> ''..''"
  shows "''..'' \<notin> set (e # rest)"
proof
  assume "''..'' \<in> set (e # rest)"
  then obtain us vs where r: "rest = us @ ''..'' # vs" using assms(2) by (auto dest: split_list)
  have "rev (elements p) = rev vs @ ''..'' # (rev us @ e # rev es)" by (simp add: assms(1) r)
  then have "\<forall>x \<in> set (rev us @ e # rev es). x = ''..''"
    using elements_normal [of p] normal_up by metis
  then show False using assms(2) by simp
qed

end
