(* ===== verification/Locators.thy ===== *)
theory Locators
  imports Path_Facts Admission Ranking_Service
begin

text \<open>
  Artifact locators and their readers (\<open>artifact_reader.go\<close>, \<open>artifact_locators.go\<close> and the locator
  functions of \<open>replay_inputs.go\<close>, in \<open>internal/platform/service\<close>). URL parsing and printing, the
  contents of files, symbolic links and remote objects are fields of the environment.
\<close>

record locator_env =
  le_url :: "string \<Rightarrow> url option"
  le_with_path :: "string \<Rightarrow> string \<Rightarrow> string"  \<comment> \<open>the URL with another path, printed\<close>

definition is_local_path :: "locator_env \<Rightarrow> string \<Rightarrow> bool" where
  "is_local_path env l =
     (case le_url env l of None \<Rightarrow> True | Some u \<Rightarrow> ur_scheme u = [] \<or> ur_scheme u = ''file'')"

definition local_path :: "string \<Rightarrow> string" where
  "local_path v = clean (if prefix ''file://'' v then drop (length ''file://'') v else v)"

definition is_absolute_locator :: "locator_env \<Rightarrow> string \<Rightarrow> bool" where
  "is_absolute_locator env v \<longleftrightarrow>
     is_abs v \<or> (case le_url env v of None \<Rightarrow> False | Some u \<Rightarrow> ur_scheme u \<noteq> [])"

definition locator_base :: "locator_env \<Rightarrow> string \<Rightarrow> string" where
  "locator_base env v =
     (if blank v then []
      else if is_local_path env v then base (local_path v)
      else case le_url env v of None \<Rightarrow> base v | Some u \<Rightarrow> base (ur_path u))"

text \<open>\<open>strings.TrimSuffix(p, "/")\<close>\<close>

definition trim_slash :: "string \<Rightarrow> string" where
  "trim_slash p = (if p \<noteq> [] \<and> last p = CHR ''/'' then butlast p else p)"

definition join_artifact_locator :: "locator_env \<Rightarrow> string \<Rightarrow> string \<Rightarrow> string" where
  "join_artifact_locator env b r =
     (let b = trim_space b; r = trim_space r in
      if b = [] \<or> r = [] then []
      else if is_absolute_locator env r then r
      else if is_local_path env b then
        let joined = join [local_path b, clean r] in
        if prefix ''file://'' b then ''file://'' @ joined else joined
      else case le_url env b of
        None \<Rightarrow> []
      | Some u \<Rightarrow> if ur_scheme u = [] then [] else le_with_path env b (join [trim_slash (ur_path u), r]))"

section \<open>Readers\<close>

text \<open>What a path and a remote locator hold.\<close>

record artifact_source =
  so_file :: "string \<Rightarrow> read_outcome"
  so_remote :: "string \<Rightarrow> read_outcome"

text \<open>\<open>ReadBounded\<close> without a limit.\<close>

definition read_artifact :: "locator_env \<Rightarrow> artifact_source \<Rightarrow> string \<Rightarrow> read_outcome" where
  "read_artifact env src locator =
     (let l = trim_space locator in
      if l = [] then ReadFailed ''service: artifact locator is required''
      else if is_local_path env l then so_file src (local_path l)
      else case le_url env l of
        None \<Rightarrow> ReadFailed (''service: parse artifact locator '' @ l)
      | Some u \<Rightarrow>
          if ur_scheme u \<in> {''http'', ''https'', ''s3''} then so_remote src l
          else if is_abs l then so_file src (clean l)
          else ReadFailed (''service: unsupported artifact locator scheme '' @ ur_scheme u))"

text \<open>\<open>filepath.Rel\<close>, on the elements of the two clean paths.\<close>

definition path_elements :: "string \<Rightarrow> string list" where
  "path_elements c = (let c = (if is_abs c then tl c else c) in if c = [] then [] else split_on (CHR ''/'') c)"

fun strip_common :: "string list \<Rightarrow> string list \<Rightarrow> string list \<times> string list" where
  "strip_common (x # xs) (y # ys) = (if x = y then strip_common xs ys else (x # xs, y # ys))"
| "strip_common xs ys = (xs, ys)"

definition rel :: "string \<Rightarrow> string \<Rightarrow> string option" where
  "rel basepath targ =
     (let b = clean basepath; t = clean targ in
      if t = b then Some ''.''
      else
        let b = (if b = ''.'' then [] else b) in
        if is_abs b \<noteq> is_abs t then None
        else case strip_common (path_elements b) (path_elements t) of (bs, ts) \<Rightarrow>
          if bs = [''..''] then None
          else Some (join_with ''/'' (replicate (length bs) ''..'' @ ts)))"

text \<open>The file system below the public reader: \<open>EvalSymlinks\<close> and the bytes of a file.\<close>

record file_system =
  fs_resolve :: "string \<Rightarrow> string option"
  fs_bytes :: "string \<Rightarrow> string option"

definition read_bounded :: "int \<Rightarrow> string \<Rightarrow> string option" where
  "read_bounded limit bytes = (if limit > 0 \<and> int (length bytes) > limit then None else Some bytes)"

definition escapes_root :: "string \<Rightarrow> bool" where
  "escapes_root r \<longleftrightarrow> r = ''..'' \<or> prefix ''../'' r \<or> is_abs r"

definition read_file_bounded_under :: "file_system \<Rightarrow> string \<Rightarrow> string \<Rightarrow> int \<Rightarrow> string option" where
  "read_file_bounded_under fs root path limit =
     Option.bind (fs_resolve fs root) (\<lambda>rroot.
     Option.bind (fs_resolve fs path) (\<lambda>rpath.
     Option.bind (rel rroot rpath) (\<lambda>r.
       if escapes_root r then None
       else Option.bind (fs_bytes fs rpath) (read_bounded limit))))"

definition read_bounded_under :: "locator_env \<Rightarrow> file_system \<Rightarrow> (string \<Rightarrow> int \<Rightarrow> string option) \<Rightarrow>
    string \<Rightarrow> string \<Rightarrow> int \<Rightarrow> string option" where
  "read_bounded_under env fs remote locator root limit =
     (let l = trim_space locator in
      if is_local_path env l then read_file_bounded_under fs root (local_path l) limit
      else remote l limit)"

section \<open>Reads stay under their root\<close>

lemma strip_common_prefix: "strip_common xs ys = (us, vs) \<Longrightarrow> \<exists>c. xs = c @ us \<and> ys = c @ vs"
proof (induction xs ys arbitrary: us vs rule: strip_common.induct)
  case (1 x xs y ys)
  show ?case
  proof (cases "x = y")
    case True
    then obtain c where "xs = c @ us" "ys = c @ vs" using 1 by auto
    with True show ?thesis by (intro exI [of _ "y # c"]) simp
  next
    case False
    with 1(2) show ?thesis by simp
  qed
qed auto

lemma path_elements_clean: "path_elements (if clean p = ''.'' then [] else clean p) = elements p"
proof (cases "elements p = []")
  case True
  then show ?thesis by (auto simp: clean_by_elements path_elements_def is_abs_def)
next
  case False
  obtain c cs where c: "join_with ''/'' (elements p) = c # cs" "c \<noteq> CHR ''/''"
    using join_elements_start [OF False] by blast
  have s: "split_on (CHR ''/'') (c # cs) = elements p"
    using split_on_join_with [OF False] elements_nonempty [of _ p] c(1) by simp
  have "c # cs \<noteq> ''.''"
  proof
    assume "c # cs = ''.''"
    with s have "elements p = [''.'']" by simp
    with elements_normal [of p] show False by simp
  qed
  then show ?thesis using False c s by (simp add: clean_by_elements path_elements_def is_abs_def)
qed

text \<open>Two paths with the same clean form have the same elements.\<close>

lemma elements_clean_eq: "clean p = clean q \<Longrightarrow> elements p = elements q"
  using path_elements_clean [of p] path_elements_clean [of q] by (simp cong: if_cong)

lemma join_with_up: "escapes_root (join_with ''/'' (''..'' # rest))"
  by (cases rest) (simp_all add: escapes_root_def)

lemma rel_inside:
  assumes "rel b t = Some r" "\<not> escapes_root r"
  shows "is_abs t = is_abs b \<and> (\<exists>rest. elements t = elements b @ rest \<and> ''..'' \<notin> set rest)"
proof (cases "clean t = clean b")
  case True
  then have "is_abs t = is_abs b" using is_abs_clean [of t] is_abs_clean [of b] by simp
  then show ?thesis using elements_clean_eq [OF True] by simp
next
  case False
  let ?b = "if clean b = ''.'' then [] else clean b"
  obtain bs ts where s: "strip_common (path_elements ?b) (path_elements (clean t)) = (bs, ts)" by fastforce
  have r: "r = join_with ''/'' (replicate (length bs) ''..'' @ ts)" and a: "is_abs ?b = is_abs (clean t)"
    using assms(1) False s by (auto simp: rel_def Let_def split: if_splits)
  have bs: "bs = []"
  proof (rule ccontr)
    assume "bs \<noteq> []"
    then obtain n where "length bs = Suc n" by (cases bs) auto
    then show False using assms(2) join_with_up [of "replicate n ''..'' @ ts"] by (simp add: r)
  qed
  have abs: "is_abs t = is_abs b"
  proof (cases "clean b = ''.''")
    case True
    have "\<not> is_abs []" "\<not> is_abs ''.''" by (simp_all add: is_abs_def)
    with True a is_abs_clean [of b] show ?thesis by simp
  next
    case False
    then show ?thesis using a by simp
  qed
  have t: "path_elements (clean t) = elements b @ ts"
    using strip_common_prefix [OF s] bs by (simp add: path_elements_clean)
  show ?thesis
  proof (cases "clean t = ''.''")
    case True
    have "path_elements ''.'' = [''.'']" by (simp add: path_elements_def is_abs_def)
    with t True have "elements b @ ts = [''.'']" by simp
    moreover have "elements b \<noteq> [''.'']" using elements_normal [of b] by auto
    ultimately have "elements b = []" by (cases "elements b") auto
    then have "clean b = clean t" using True abs is_abs_clean [of t] by (simp add: clean_by_elements [of b] is_abs_def)
    with False show ?thesis by simp
  next
    case False
    then have e: "elements t = elements b @ ts" using t path_elements_clean [of t] by simp
    have "''..'' \<notin> set ts"
    proof (cases ts)
      case (Cons y ys)
      then have "y \<noteq> ''..''" using assms(2) join_with_up [of ys] by (auto simp: r bs)
      then show ?thesis using elements_no_up [of t "elements b" y ys] e Cons by simp
    qed simp
    with e abs show ?thesis by blast
  qed
qed

text \<open>
  C39. The public reader cannot be led out of the output directory: whatever path a record names and
  whatever links there are, bytes are only read from a file whose resolved path lies below the
  resolved directory. Both are absolute or both relative, the path has the elements of the directory
  in front (none, for the directory \<open>.\<close>), and no element behind them is \<open>..\<close>. The bytes are those of
  that file, and when a limit is set (a limit above 0) there are never more of them than the limit.
\<close>

theorem public_reads_stay_under_root:
  assumes "read_file_bounded_under fs root path limit = Some bytes"
  shows "\<exists>rroot rpath. fs_resolve fs root = Some rroot \<and> fs_resolve fs path = Some rpath \<and> fs_bytes fs rpath = Some bytes \<and>
    is_abs rpath = is_abs rroot \<and>
    (\<exists>rest. elements rpath = elements rroot @ rest \<and> ''..'' \<notin> set rest) \<and>
    (0 < limit \<longrightarrow> int (length bytes) \<le> limit)"
proof -
  obtain rroot rpath r where r: "fs_resolve fs root = Some rroot" "fs_resolve fs path = Some rpath"
    "rel rroot rpath = Some r" "\<not> escapes_root r" "Option.bind (fs_bytes fs rpath) (read_bounded limit) = Some bytes"
    using assms by (auto simp: read_file_bounded_under_def bind_eq_Some_conv split: if_splits)
  have "fs_bytes fs rpath = Some bytes" "0 < limit \<longrightarrow> int (length bytes) \<le> limit"
    using r(5) by (auto simp: bind_eq_Some_conv read_bounded_def split: if_splits)
  then show ?thesis using r(1,2) rel_inside [OF r(3,4)] by blast
qed

text \<open>A directory with a link out of it, and the working directory as a root with paths that leave it.\<close>

definition linked :: file_system where
  "linked = \<lparr>fs_resolve = (\<lambda>p. if p = ''/out/link'' then Some ''/etc/passwd'' else Some p), fs_bytes = (\<lambda>p. Some ''{}'')\<rparr>"

theorem public_reads_stay_under_root_witness:
  "read_file_bounded_under linked ''/out'' ''/out/run/replay'' 10 = Some ''{}'' \<and>
   read_file_bounded_under linked ''/out'' ''/out/link'' 10 = None \<and>
   read_file_bounded_under linked ''/out'' ''out/run'' 10 = None \<and>
   read_file_bounded_under linked ''.'' ''../run'' 10 = None \<and>
   (\<exists>rest. [''out'', ''run'', ''replay''] = [''out''] @ rest \<and> ''..'' \<notin> set rest)"
proof -
  have read: "read_file_bounded_under linked ''/out'' ''/out/run/replay'' 10 = Some ''{}''" by code_simp
  have e: "elements ''/out/run/replay'' = [''out'', ''run'', ''replay'']" "elements ''/out'' = [''out'']" by code_simp+
  have "\<exists>rest. [''out'', ''run'', ''replay''] = [''out''] @ rest \<and> ''..'' \<notin> set rest"
    using public_reads_stay_under_root [OF read] by (auto simp: linked_def e)
  moreover have "read_file_bounded_under linked ''/out'' ''/out/link'' 10 = None"
    "read_file_bounded_under linked ''/out'' ''out/run'' 10 = None"
    "read_file_bounded_under linked ''.'' ''../run'' 10 = None"
    by code_simp+
  ultimately show ?thesis using read by blast
qed

end
