(* ===== verification/Persist.thy ===== *)
theory Persist
  imports Worker Wire Locators
begin

text \<open>
  Writing the terminal artifacts of a run: \<open>WriteStandardArtifacts\<close> of
  \<open>internal/platform/artifacts/artifacts.go\<close>, the local persister of \<open>worker_local.go\<close> and the one
  for S3 of \<open>worker_s3.go\<close>. The files and the object store are records of operations on a world.
\<close>

text \<open>What is written: a JSON document, or bytes.\<close>

datatype content = Document json | Bytes string

section \<open>Files\<close>

record 'w file_ops =
  fo_mkdir :: "string \<Rightarrow> 'w \<Rightarrow> string option \<times> 'w"           \<comment> \<open>\<open>os.MkdirAll\<close>\<close>
  fo_create :: "string \<Rightarrow> 'w \<Rightarrow> string option \<times> 'w"          \<comment> \<open>\<open>os.Create\<close>: the file is empty\<close>
  fo_write :: "string \<Rightarrow> content \<Rightarrow> 'w \<Rightarrow> string option \<times> 'w"  \<comment> \<open>writing the open file and closing it\<close>

type_synonym 'w step = "'w \<Rightarrow> string option \<times> 'w"

text \<open>Steps in order, up to the first error.\<close>

fun run_steps :: "'w step list \<Rightarrow> 'w step" where
  "run_steps [] w = (None, w)"
| "run_steps (f # fs) w = (case f w of (Some e, w1) \<Rightarrow> (Some e, w1) | (None, w1) \<Rightarrow> run_steps fs w1)"

definition ensure_layout :: "'w file_ops \<Rightarrow> layout \<Rightarrow> 'w step" where
  "ensure_layout ops ly w =
     apfst (map_option (\<lambda>e. ''create artifact directory '' @ ly_match_dir ly @ '': '' @ e)) (fo_mkdir ops (ly_match_dir ly) w)"

definition create_file_output :: "'w file_ops \<Rightarrow> string \<Rightarrow> 'w step" where
  "create_file_output ops path w =
     (case fo_mkdir ops (dir path) w of
        (Some e, w1) \<Rightarrow> (Some e, w1)
      | (None, w1) \<Rightarrow> fo_create ops path w1)"

definition write_json_file :: "'w file_ops \<Rightarrow> string \<Rightarrow> json option \<Rightarrow> string \<Rightarrow> 'w step" where
  "write_json_file ops path doc label w =
     (case create_file_output ops path w of
        (Some e, w1) \<Rightarrow> (Some (''create '' @ label @ '' '' @ path @ '': '' @ e), w1)
      | (None, w1) \<Rightarrow>
          (case doc of
             None \<Rightarrow> (Some (''write '' @ label @ '' '' @ path @ '': unsupported value''), w1)
           | Some j \<Rightarrow> apfst (map_option (\<lambda>e. ''write '' @ label @ '' '' @ path @ '': '' @ e)) (fo_write ops path (Document j) w1)))"

definition write_standard_artifacts :: "'w file_ops \<Rightarrow> layout \<Rightarrow> record_ \<Rightarrow> 'w step" where
  "write_standard_artifacts ops ly rec = run_steps
     [write_json_file ops (ly_record ly) (enc_record rec) ''record'',
      write_json_file ops (ly_snapshot ly) (enc_snapshot (rc_snapshot rec)) ''snapshot'',
      write_json_file ops (ly_exported ly) (enc_exported (rc_exported rec)) ''exported snapshot'',
      write_json_file ops (ly_history ly) (enc_event_log (rc_event_log rec)) ''history'',
      write_json_file ops (ly_summary ly) (Some (enc_result_summary (build_result_summary ly rec))) ''result summary'']"

section \<open>The local persister\<close>

definition replay_limit :: int where
  "replay_limit = 1048576"

definition write_player_stderr :: "'w file_ops \<Rightarrow> string \<Rightarrow> string \<Rightarrow> 'w step" where
  "write_player_stderr ops path stderr w =
     (case create_file_output ops path w of
        (Some e, w1) \<Rightarrow> (Some (''create stderr artifact '' @ path @ '': '' @ e), w1)
      | (None, w1) \<Rightarrow> apfst (map_option (\<lambda>e. ''write stderr artifact '' @ path @ '': '' @ e)) (fo_write ops path (Bytes stderr) w1))"

definition ensure_structured_log_file :: "'w file_ops \<Rightarrow> string \<Rightarrow> 'w step" where
  "ensure_structured_log_file ops path w =
     apfst (map_option (\<lambda>e. ''create structured log artifact '' @ path @ '': '' @ e)) (create_file_output ops path w)"

definition stderr_path :: "layout \<Rightarrow> player \<Rightarrow> string" where
  "stderr_path ly p = join [ly_match_dir ly, pl_id p @ ''-stderr.log'']"

text \<open>\<open>text r\<close> are the bytes of a raw message.\<close>

definition kept_replay :: "(raw \<Rightarrow> string) \<Rightarrow> record_ \<Rightarrow> public_replay option" where
  "kept_replay bytes rec =
     (case rc_public_replay rec of
        None \<Rightarrow> None
      | Some x \<Rightarrow> if int (length (bytes (rp_payload x))) \<le> replay_limit then Some x else None)"

definition write_public_replay :: "'w file_ops \<Rightarrow> string \<Rightarrow> string \<Rightarrow> 'w step" where
  "write_public_replay ops path payload w =
     (case create_file_output ops path w of
        (Some e, w1) \<Rightarrow> (Some e, w1)
      | (None, w1) \<Rightarrow> apfst (map_option (\<lambda>e. ''write public replay artifact: '' @ e)) (fo_write ops path (Bytes payload) w1))"

text \<open>Without a replay its fields stay empty.\<close>

definition with_replay :: "(raw \<Rightarrow> string) \<Rightarrow> string \<Rightarrow> public_replay option \<Rightarrow> terminal_artifacts \<Rightarrow> terminal_artifacts" where
  "with_replay bytes locator replay t =
     (case replay of
        None \<Rightarrow> t
      | Some x \<Rightarrow> t\<lparr>ta_replay_path := locator, ta_replay_format := rp_format x, ta_replay_version := rp_version x,
                    ta_replay_size := int (length (bytes (rp_payload x))),
                    ta_replay_digest := hex (sum256 (bytes (rp_payload x)))\<rparr>)"

definition new_terminal :: "string \<Rightarrow> string \<Rightarrow> string \<Rightarrow> string gomap \<Rightarrow> terminal_artifacts" where
  "new_terminal match_dir record_path summary_path stderrs =
     \<lparr>ta_match_dir = match_dir, ta_record_path = record_path, ta_summary_path = summary_path, ta_stderr_paths = stderrs,
      ta_status = OtherStatus [], ta_error = [], ta_replay_path = [], ta_replay_format = [], ta_replay_version = [],
      ta_replay_size = 0, ta_replay_digest = []\<rparr>"

definition local_persist :: "(raw \<Rightarrow> string) \<Rightarrow> 'w file_ops \<Rightarrow> match_submission \<Rightarrow> execution_result \<Rightarrow> 'w \<Rightarrow>
    (string + terminal_artifacts) \<times> 'w" where
  "local_persist bytes ops sub res w =
     (let ly = new_layout (ms_output_dir sub) (ms_run sub); rec = er_record res; replay = kept_replay bytes rec in
      case run_steps
        ([ensure_layout ops ly, write_standard_artifacts ops ly rec, ensure_structured_log_file ops (ly_log ly)] @
         map (\<lambda>p. write_player_stderr ops (stderr_path ly p) (getd [] (er_stderr res) (pl_id p))) (rc_players rec) @
         (case replay of None \<Rightarrow> [] | Some x \<Rightarrow> [write_public_replay ops (ly_replay ly) (bytes (rp_payload x))])) w
      of (Some e, w1) \<Rightarrow> (Inl e, w1)
       | (None, w1) \<Rightarrow>
           (Inr (with_replay bytes (ly_replay ly) replay
             (new_terminal (ly_match_dir ly) (ly_record ly) (ly_summary ly)
               (put_all pl_id (stderr_path ly) (rc_players rec) []))), w1))"

section \<open>The persister for S3\<close>

record 'w object_ops =
  ob_put :: "string \<Rightarrow> content \<Rightarrow> string \<Rightarrow> 'w \<Rightarrow> (string + string) \<times> 'w"  \<comment> \<open>\<open>PutBytes\<close>: key, body, content type\<close>
  ob_locator :: "string \<Rightarrow> string"                                  \<comment> \<open>\<open>ObjectLocator\<close>\<close>

definition and_then :: "('w \<Rightarrow> ('e + 'a) \<times> 'w) \<Rightarrow> ('a \<Rightarrow> 'w \<Rightarrow> ('e + 'b) \<times> 'w) \<Rightarrow> 'w \<Rightarrow> ('e + 'b) \<times> 'w" where
  "and_then f k w = (case f w of (Inl e, w1) \<Rightarrow> (Inl e, w1) | (Inr x, w1) \<Rightarrow> k x w1)"

definition put_json :: "'w object_ops \<Rightarrow> string \<Rightarrow> json option \<Rightarrow> 'w \<Rightarrow> (string + string) \<times> 'w" where
  "put_json ops key doc w =
     (case doc of
        None \<Rightarrow> (Inl (''service: encode artifact '' @ key @ '': unsupported value''), w)
      | Some j \<Rightarrow> ob_put ops key (Document j) ''application/json'' w)"

fun put_stderrs :: "'w object_ops \<Rightarrow> string \<Rightarrow> string gomap \<Rightarrow> player list \<Rightarrow> string gomap \<Rightarrow> 'w \<Rightarrow> (string + string gomap) \<times> 'w" where
  "put_stderrs ops pre stderr [] paths w = (Inr paths, w)"
| "put_stderrs ops pre stderr (p # ps) paths w =
     and_then (ob_put ops (join [pre, pl_id p @ ''-stderr.log'']) (Bytes (getd [] stderr (pl_id p))) ''text/plain; charset=utf-8'')
       (\<lambda>locator. put_stderrs ops pre stderr ps (put (pl_id p) locator paths)) w"

definition trim_slashes :: "string \<Rightarrow> string" where
  "trim_slashes s = rev (dropWhile (\<lambda>c. c = CHR ''/'') (rev (dropWhile (\<lambda>c. c = CHR ''/'') s)))"

definition s3_names :: layout where
  "s3_names = \<lparr>ly_base_dir = [], ly_match_dir = [], ly_record = ''record.json'', ly_log = ''structured-log.ndjson'',
     ly_snapshot = ''snapshot.json'', ly_exported = ''exported-snapshot.json'', ly_history = ''history.json'',
     ly_summary = ''result-summary.json'', ly_replay = []\<rparr>"

definition s3_persist :: "(raw \<Rightarrow> string) \<Rightarrow> 'w object_ops \<Rightarrow> match_submission \<Rightarrow> execution_result \<Rightarrow> 'w \<Rightarrow>
    (string + terminal_artifacts) \<times> 'w" where
  "s3_persist bytes ops sub res =
     (let pre = join [trim_slashes (trim_space (ms_output_dir sub)), ms_run sub];
          rec = er_record res;
          key = (\<lambda>name. join [pre, name])
      in and_then (put_json ops (key ''record.json'') (enc_record rec)) (\<lambda>record_path.
         and_then (put_json ops (key ''snapshot.json'') (enc_snapshot (rc_snapshot rec))) (\<lambda>_.
         and_then (put_json ops (key ''exported-snapshot.json'') (enc_exported (rc_exported rec))) (\<lambda>_.
         and_then (put_json ops (key ''history.json'') (enc_event_log (rc_event_log rec))) (\<lambda>_.
         and_then (put_json ops (key ''result-summary.json'') (Some (enc_result_summary (build_result_summary s3_names rec)))) (\<lambda>summary_path.
         and_then (ob_put ops (key ''structured-log.ndjson'') (Bytes []) ''text/plain; charset=utf-8'') (\<lambda>_.
         and_then (put_stderrs ops pre (er_stderr res) (rc_players rec) []) (\<lambda>stderrs.
           let t = new_terminal (ob_locator ops pre) record_path summary_path stderrs in
           case kept_replay bytes rec of
             None \<Rightarrow> (\<lambda>w. (Inr t, w))
           | Some x \<Rightarrow> and_then (ob_put ops (key ''public-replay.json'') (Bytes (bytes (rp_payload x))) ''application/json'')
               (\<lambda>locator w. (Inr (with_replay bytes locator (Some x) t), w))))))))))"

section \<open>A disk\<close>

text \<open>Files by their clean paths; nothing fails. \<open>parse\<close> reads the bytes that are no document here.\<close>

type_synonym disk = "string \<Rightarrow> content option"

definition disk_ops :: "disk file_ops" where
  "disk_ops = \<lparr>fo_mkdir = \<lambda>path d. (None, d), fo_create = \<lambda>path d. (None, d(clean path \<mapsto> Bytes [])),
     fo_write = \<lambda>path c d. (None, d(clean path \<mapsto> c))\<rparr>"

definition disk_file :: "(string \<Rightarrow> raw) \<Rightarrow> disk \<Rightarrow> string \<Rightarrow> read_outcome" where
  "disk_file parse d path =
     (case d (clean path) of None \<Rightarrow> ReadMissing | Some (Document j) \<Rightarrow> ReadOk (RawJson j) | Some (Bytes b) \<Rightarrow> ReadOk (parse b))"

definition disk_source :: "(string \<Rightarrow> raw) \<Rightarrow> disk \<Rightarrow> artifact_source" where
  "disk_source parse d = \<lparr>so_file = disk_file parse d, so_remote = \<lambda>_. ReadMissing\<rparr>"

end
