(* ===== verification/Query.thy ===== *)
theory Query
  imports Worker Wire Locators
begin

text \<open>
  The operator's view of runs (\<open>internal/platform/service/query.go\<close>) and the inputs of a replay with
  their verification (\<open>replay_inputs.go\<close>), over a function that reads artifacts.
\<close>

type_synonym reader = "string \<Rightarrow> read_outcome"

datatype query_error =
  QueryQueue queue_error | QuerySummary ranking_error | ArtifactUnread string | ArtifactUndecoded string

definition read_json_artifact :: "'a decoder \<Rightarrow> 'a \<Rightarrow> reader \<Rightarrow> string \<Rightarrow> query_error + 'a" where
  "read_json_artifact dec zero read locator =
     (case read locator of
        ReadOk data \<Rightarrow> (case unmarshal dec data zero of None \<Rightarrow> Inl (ArtifactUndecoded locator) | Some x \<Rightarrow> Inr x)
      | _ \<Rightarrow> Inl (ArtifactUnread locator))"

section \<open>Replay inputs\<close>

datatype issue =
  RecordMatchDiffers string string | RecordGameDiffers game_metadata game_metadata | PlayerOrderDiffers
| SummaryMatchDiffers string string | SummaryGameDiffers | SummaryRecordRef string string
| SummarySnapshotRef string string | SummaryHistoryRef string string | SummaryExportedRef string string
| SnapshotLocatorMissing | SnapshotUnloadable query_error | SnapshotDiffers
| HistoryLocatorMissing | HistoryUnloadable query_error | HistoryDiffers
| ExportedLocatorMissing | ExportedUnloadable query_error | ExportedDiffers

record verification =
  vf_checked :: bool
  vf_consistent :: bool
  vf_issues :: "issue list"

record replay_inputs =
  ri_game :: game_metadata
  ri_players :: "submitted_player list"
  ri_record :: string
  ri_snapshot :: string
  ri_history :: string
  ri_exported :: string
  ri_verification :: verification

text \<open>\<open>artifactRef\<close>: the name in the summary, else the usual one.\<close>

definition artifact_ref :: "result_summary option \<Rightarrow> (path_refs \<Rightarrow> string) \<Rightarrow> string \<Rightarrow> string" where
  "artifact_ref summary field fallback =
     (case summary of None \<Rightarrow> fallback | Some s \<Rightarrow> if field (sy_paths s) \<noteq> [] then field (sy_paths s) else fallback)"

definition player_order_matches :: "submitted_player list \<Rightarrow> player list \<Rightarrow> bool" where
  "player_order_matches submitted persisted \<longleftrightarrow>
     length submitted = length persisted \<and> list_all2 (\<lambda>s p. sp_player s = pl_id p) submitted persisted"

definition ref_issue :: "locator_env \<Rightarrow> string \<Rightarrow> string \<Rightarrow> (string \<Rightarrow> string \<Rightarrow> issue) \<Rightarrow> issue list" where
  "ref_issue env r locator mk =
     (if r \<noteq> [] \<and> locator_base env locator \<noteq> r then [mk r (locator_base env locator)] else [])"

definition verify_result_summary :: "locator_env \<Rightarrow> result_summary \<Rightarrow> record_ \<Rightarrow> replay_inputs \<Rightarrow> issue list" where
  "verify_result_summary env s rec inputs =
     (if sy_match s \<noteq> rc_match_id rec then [SummaryMatchDiffers (sy_match s) (rc_match_id rec)] else []) @
     (if sy_game s \<noteq> gm_game_id (rc_game rec) \<or> sy_version s \<noteq> gm_game_version (rc_game rec) \<or>
         sy_ruleset s \<noteq> gm_ruleset (rc_game rec) then [SummaryGameDiffers] else []) @
     ref_issue env (pf_record (sy_paths s)) (ri_record inputs) SummaryRecordRef @
     ref_issue env (pf_snapshot (sy_paths s)) (ri_snapshot inputs) SummarySnapshotRef @
     ref_issue env (pf_history (sy_paths s)) (ri_history inputs) SummaryHistoryRef @
     ref_issue env (pf_exported (sy_paths s)) (ri_exported inputs) SummaryExportedRef"

text \<open>
  \<open>reflect.DeepEqual\<close> of the loaded artifact with the part of the record; a nil slice and an empty one
  are the same here.
\<close>

definition artifact_issues :: "'a decoder \<Rightarrow> 'a \<Rightarrow> reader \<Rightarrow> string \<Rightarrow> 'a \<Rightarrow> issue \<Rightarrow> (query_error \<Rightarrow> issue) \<Rightarrow> issue \<Rightarrow> issue list" where
  "artifact_issues dec zero read locator expected missing unloadable differs =
     (let path = trim_space locator in
      if path = [] then [missing]
      else case read_json_artifact dec zero read path of
        Inl e \<Rightarrow> [unloadable e]
      | Inr x \<Rightarrow> if x \<noteq> expected then [differs] else [])"

definition verify_replay_inputs :: "locator_env \<Rightarrow> reader \<Rightarrow> queue_record \<Rightarrow> result_summary option \<Rightarrow> replay_inputs \<Rightarrow>
    query_error + verification" where
  "verify_replay_inputs env read r summary inputs =
     (if blank (ri_record inputs) then Inr \<lparr>vf_checked = False, vf_consistent = False, vf_issues = []\<rparr>
      else bindR (read_json_artifact dec_record zero_record read (ri_record inputs)) (\<lambda>rec.
        let issues =
          (if rc_match_id rec \<noteq> qr_match r then [RecordMatchDiffers (rc_match_id rec) (qr_match r)] else []) @
          (if rc_game rec \<noteq> ms_game (qr_submission r) then [RecordGameDiffers (rc_game rec) (ms_game (qr_submission r))] else []) @
          (if \<not> player_order_matches (ms_players (qr_submission r)) (rc_players rec) then [PlayerOrderDiffers] else []) @
          (case summary of None \<Rightarrow> [] | Some s \<Rightarrow> verify_result_summary env s rec inputs) @
          artifact_issues dec_snapshot zero_snapshot read (ri_snapshot inputs) (rc_snapshot rec)
            SnapshotLocatorMissing SnapshotUnloadable SnapshotDiffers @
          artifact_issues dec_event_log [] read (ri_history inputs) (rc_event_log rec)
            HistoryLocatorMissing HistoryUnloadable HistoryDiffers @
          artifact_issues dec_exported zero_exported read (ri_exported inputs) (rc_exported rec)
            ExportedLocatorMissing ExportedUnloadable ExportedDiffers
        in Inr \<lparr>vf_checked = True, vf_consistent = (issues = []), vf_issues = issues\<rparr>))"

definition build_replay_inputs :: "locator_env \<Rightarrow> reader \<Rightarrow> queue_record \<Rightarrow> result_summary option \<Rightarrow>
    query_error + replay_inputs option" where
  "build_replay_inputs env read r summary =
     (case qr_terminal r of None \<Rightarrow> Inr None
      | Some t \<Rightarrow>
          if blank (ta_record_path t) then Inr None
          else
            let at = (\<lambda>field name. if blank (ta_match_dir t) then []
                                   else join_artifact_locator env (ta_match_dir t) (artifact_ref summary field name));
                inputs = \<lparr>ri_game = ms_game (qr_submission r), ri_players = ms_players (qr_submission r),
                          ri_record = ta_record_path t, ri_snapshot = at pf_snapshot ''snapshot.json'',
                          ri_history = at pf_history ''history.json'', ri_exported = at pf_exported ''exported-snapshot.json'',
                          ri_verification = \<lparr>vf_checked = False, vf_consistent = False, vf_issues = []\<rparr>\<rparr>
            in bindR (verify_replay_inputs env read r summary inputs) (\<lambda>v. Inr (Some (inputs\<lparr>ri_verification := v\<rparr>))))"

section \<open>Queries\<close>

record result_list_item =
  rl_run :: string
  rl_match :: string
  rl_attempt :: int
  rl_official :: bool
  rl_game :: game_metadata
  rl_state :: lifecycle_state
  rl_worker :: string
  rl_terminal_status :: "match_status option"
  rl_error :: string
  rl_turn :: "int option"
  rl_placements :: "placement list"
  rl_summary_path :: string

definition build_result_list_item :: "reader \<Rightarrow> queue_record \<Rightarrow> query_error + result_list_item \<times> result_summary option" where
  "build_result_list_item read r =
     (let sub = qr_submission r;
          item = \<lparr>rl_run = ms_run sub, rl_match = ms_match sub, rl_attempt = ms_attempt sub, rl_official = ms_official sub,
                  rl_game = ms_game sub, rl_state = qr_state r,
                  rl_worker = (case qr_lease r of None \<Rightarrow> [] | Some l \<Rightarrow> wl_worker l),
                  rl_terminal_status = None, rl_error = [], rl_turn = None, rl_placements = [], rl_summary_path = []\<rparr>
      in case qr_terminal r of None \<Rightarrow> Inr (item, None)
         | Some t \<Rightarrow>
             let item1 = item\<lparr>rl_summary_path := ta_summary_path t,
                     rl_terminal_status := (if ta_status t = OtherStatus [] then None else Some (ta_status t)),
                     rl_error := ta_error t\<rparr>
             in (case read_result_summary read (ta_summary_path t) of
                   Inl e \<Rightarrow> Inl (QuerySummary e)
                 | Inr None \<Rightarrow> Inr (item1, None)
                 | Inr (Some s) \<Rightarrow>
                     Inr (item1\<lparr>rl_terminal_status := Some (sy_status s), rl_error := sy_error s, rl_turn := Some (sy_turn s),
                                rl_placements := sy_placements s\<rparr>, Some s)))"

record match_detail =
  md_item :: result_list_item
  md_players :: "submitted_player list"
  md_output_dir :: string
  md_match_dir :: string
  md_record :: string
  md_stderr :: "string gomap"
  md_summary :: "result_summary option"
  md_inputs :: "replay_inputs option"

fun list_items_of :: "reader \<Rightarrow> queue_record list \<Rightarrow> query_error + result_list_item list" where
  "list_items_of read [] = Inr []"
| "list_items_of read (r # rs) =
     bindR (build_result_list_item read r) (\<lambda>(item, _). bindR (list_items_of read rs) (\<lambda>items. Inr (item # items)))"

definition query_list :: "'w queue_ops \<Rightarrow> reader \<Rightarrow> 'w \<Rightarrow> query_error + result_list_item list" where
  "query_list ops read w =
     (case qo_list ops w of Inl e \<Rightarrow> Inl (QueryQueue e) | Inr records \<Rightarrow> list_items_of read records)"

definition query_get :: "locator_env \<Rightarrow> 'w queue_ops \<Rightarrow> reader \<Rightarrow> string \<Rightarrow> 'w \<Rightarrow> query_error + match_detail" where
  "query_get env ops read rid w =
     (case qo_get ops rid w of
        Inl e \<Rightarrow> Inl (QueryQueue e)
      | Inr r \<Rightarrow>
          bindR (build_result_list_item read r) (\<lambda>(item, summary).
          bindR (build_replay_inputs env read r summary) (\<lambda>inputs.
            let t = qr_terminal r in
            Inr \<lparr>md_item = item, md_players = ms_players (qr_submission r), md_output_dir = ms_output_dir (qr_submission r),
                 md_match_dir = (case t of None \<Rightarrow> [] | Some t \<Rightarrow> ta_match_dir t),
                 md_record = (case t of None \<Rightarrow> [] | Some t \<Rightarrow> ta_record_path t),
                 md_stderr = (case t of None \<Rightarrow> [] | Some t \<Rightarrow> ta_stderr_paths t),
                 md_summary = summary, md_inputs = inputs\<rparr>)))"

end
