(* ===== verification/Persist_Spec.thy ===== *)
theory Persist_Spec
  imports Persist Query
begin

text \<open>
  What is persisted is what is read back: the documents of a run on a disk, the operator's view of
  them, their verification, and what a consistent verification means.
\<close>

section \<open>The file names of a run\<close>

lemma layout_bases:
  "base (ly_record (new_layout d i)) = ''record.json''" "base (ly_log (new_layout d i)) = ''structured-log.ndjson''"
  "base (ly_snapshot (new_layout d i)) = ''snapshot.json''" "base (ly_exported (new_layout d i)) = ''exported-snapshot.json''"
  "base (ly_history (new_layout d i)) = ''history.json''" "base (ly_summary (new_layout d i)) = ''result-summary.json''"
  "base (ly_replay (new_layout d i)) = ''public-replay.json''"
  by (simp_all add: new_layout_def Let_def base_join)

lemma layout_clean:
  "clean (ly_record (new_layout d i)) = ly_record (new_layout d i)"
  "clean (ly_log (new_layout d i)) = ly_log (new_layout d i)"
  "clean (ly_snapshot (new_layout d i)) = ly_snapshot (new_layout d i)"
  "clean (ly_exported (new_layout d i)) = ly_exported (new_layout d i)"
  "clean (ly_history (new_layout d i)) = ly_history (new_layout d i)"
  "clean (ly_summary (new_layout d i)) = ly_summary (new_layout d i)"
  "clean (ly_replay (new_layout d i)) = ly_replay (new_layout d i)"
  by (simp_all add: new_layout_def Let_def)

text \<open>Whatever the id of a player is, its log is not one of the documents.\<close>

lemma stderr_path_base: "\<exists>x. base (stderr_path ly p) = x @ ''-stderr.log''"
proof -
  let ?n = "pl_id p @ ''-stderr.log''"
  obtain x where x: "last (split_on (CHR ''/'') ?n) = x @ ''-stderr.log''"
    using split_on_last_append [of "CHR ''/''" "''-stderr.log''" "pl_id p"] by auto
  have "base (stderr_path ly p) = x @ ''-stderr.log''"
    unfolding stderr_path_def by (rule base_join [OF _ x]) (cases x; auto)+
  then show ?thesis by blast
qed

definition document_names :: "string set" where
  "document_names = {''record.json'', ''snapshot.json'', ''exported-snapshot.json'', ''history.json'', ''result-summary.json''}"

lemma document_no_stderr: "n \<in> document_names \<Longrightarrow> n \<noteq> x @ ''-stderr.log''"
proof
  assume n: "n \<in> document_names" "n = x @ ''-stderr.log''"
  have "\<forall>m \<in> document_names. last m = CHR ''n''" by (simp add: document_names_def)
  then show False using n by auto
qed

lemma stderr_no_document: "base path \<in> document_names \<Longrightarrow> clean (stderr_path ly p) \<noteq> path"
  using stderr_path_base [of ly p] document_no_stderr
  by (metis stderr_path_def clean_join append_is_Nil_conv list.discI list.set_intros(1) list.set_intros(2))

section \<open>The disk after persisting\<close>

lemma create_on_disk: "create_file_output disk_ops path d = (None, d(clean path \<mapsto> Bytes []))"
  by (simp add: create_file_output_def disk_ops_def)

lemma write_on_disk: "fo_write disk_ops path c d = (None, d(clean path \<mapsto> c))"
  by (simp add: disk_ops_def)

lemma write_json_on_disk:
  "write_json_file disk_ops path doc label d =
     (case doc of None \<Rightarrow> (Some (''write '' @ label @ '' '' @ path @ '': unsupported value''), d(clean path \<mapsto> Bytes []))
      | Some j \<Rightarrow> (None, d(clean path \<mapsto> Document j)))"
  by (simp add: write_json_file_def create_on_disk write_on_disk split: option.split)

lemma run_steps_append:
  "run_steps (fs @ gs) w = (case run_steps fs w of (Some e, w1) \<Rightarrow> (Some e, w1) | (None, w1) \<Rightarrow> run_steps gs w1)"
  by (induction fs arbitrary: w) (auto split: prod.split option.split)

text \<open>Steps that do not fail and leave a path alone.\<close>

definition spares :: "string \<Rightarrow> disk step \<Rightarrow> bool" where
  "spares path f \<longleftrightarrow> (\<forall>d. fst (f d) = None \<and> snd (f d) path = d path)"

lemma run_steps_spares: "\<forall>f \<in> set fs. spares path f \<Longrightarrow> fst (run_steps fs d) = None \<and> snd (run_steps fs d) path = d path"
proof (induction fs arbitrary: d)
  case (Cons f fs)
  then have "fst (f d) = None" "snd (f d) path = d path" by (simp_all add: spares_def)
  then obtain d1 where "f d = (None, d1)" "d1 path = d path" by (cases "f d") simp
  then show ?case using Cons by simp
qed simp

lemma spares_log: "clean log \<noteq> path \<Longrightarrow> spares path (ensure_structured_log_file disk_ops log)"
  by (simp add: spares_def ensure_structured_log_file_def create_on_disk)

lemma spares_stderr: "clean log \<noteq> path \<Longrightarrow> spares path (write_player_stderr disk_ops log text)"
  by (simp add: spares_def write_player_stderr_def create_on_disk write_on_disk)

lemma spares_replay: "clean log \<noteq> path \<Longrightarrow> spares path (write_public_replay disk_ops log text)"
  by (simp add: spares_def write_public_replay_def create_on_disk write_on_disk)

lemma standard_on_disk:
  assumes "write_standard_artifacts disk_ops (new_layout o' i) rec d = (None, d')"
  obtains jr js jx jh where "enc_record rec = Some jr" "enc_snapshot (rc_snapshot rec) = Some js"
    "enc_exported (rc_exported rec) = Some jx" "enc_event_log (rc_event_log rec) = Some jh"
    "d' (ly_record (new_layout o' i)) = Some (Document jr)" "d' (ly_snapshot (new_layout o' i)) = Some (Document js)"
    "d' (ly_exported (new_layout o' i)) = Some (Document jx)" "d' (ly_history (new_layout o' i)) = Some (Document jh)"
    "d' (ly_summary (new_layout o' i)) =
       Some (Document (enc_result_summary (build_result_summary (new_layout o' i) rec)))"
proof -
  let ?ly = "new_layout o' i"
  have differ: "ly_record ?ly \<noteq> ly_snapshot ?ly" "ly_record ?ly \<noteq> ly_exported ?ly" "ly_record ?ly \<noteq> ly_history ?ly"
    "ly_record ?ly \<noteq> ly_summary ?ly" "ly_snapshot ?ly \<noteq> ly_exported ?ly" "ly_snapshot ?ly \<noteq> ly_history ?ly"
    "ly_snapshot ?ly \<noteq> ly_summary ?ly" "ly_exported ?ly \<noteq> ly_history ?ly" "ly_exported ?ly \<noteq> ly_summary ?ly"
    "ly_history ?ly \<noteq> ly_summary ?ly"
    by (rule notI, drule arg_cong [where f = base], simp add: layout_bases)+
  from assms obtain jr js jx jh where docs: "enc_record rec = Some jr" "enc_snapshot (rc_snapshot rec) = Some js"
    "enc_exported (rc_exported rec) = Some jx" "enc_event_log (rc_event_log rec) = Some jh"
    and d': "d' = d(ly_record ?ly \<mapsto> Document jr, ly_snapshot ?ly \<mapsto> Document js, ly_exported ?ly \<mapsto> Document jx,
      ly_history ?ly \<mapsto> Document jh, ly_summary ?ly \<mapsto> Document (enc_result_summary (build_result_summary ?ly rec)))"
    by (auto simp: write_standard_artifacts_def write_json_on_disk layout_clean split: option.splits)
  show ?thesis by (rule that [OF docs]) (use differ in \<open>simp_all add: d'\<close>)
qed

lemma local_persist_documents:
  assumes "local_persist bytes disk_ops sub res d = (Inr t, d')"
  defines "ly \<equiv> new_layout (ms_output_dir sub) (ms_run sub)" and "rec \<equiv> er_record res"
  obtains jr js jx jh where "enc_record rec = Some jr" "enc_snapshot (rc_snapshot rec) = Some js"
    "enc_exported (rc_exported rec) = Some jx" "enc_event_log (rc_event_log rec) = Some jh"
    "d' (ly_record ly) = Some (Document jr)" "d' (ly_snapshot ly) = Some (Document js)"
    "d' (ly_exported ly) = Some (Document jx)" "d' (ly_history ly) = Some (Document jh)"
    "d' (ly_summary ly) = Some (Document (enc_result_summary (build_result_summary ly rec)))"
    "ta_match_dir t = ly_match_dir ly" "ta_record_path t = ly_record ly" "ta_summary_path t = ly_summary ly"
proof -
  define later where "later = ensure_structured_log_file disk_ops (ly_log ly) #
     map (\<lambda>p. write_player_stderr disk_ops (stderr_path ly p) (getd [] (er_stderr res) (pl_id p))) (rc_players rec) @
     (case kept_replay bytes rec of None \<Rightarrow> [] | Some x \<Rightarrow> [write_public_replay disk_ops (ly_replay ly) (bytes (rp_payload x))])"
  have mkdir: "ensure_layout disk_ops ly d = (None, d)" by (simp add: ensure_layout_def disk_ops_def)
  obtain e1 d1 where std: "write_standard_artifacts disk_ops ly rec d = (e1, d1)" by fastforce
  have "e1 = None \<and> d' = snd (run_steps later d1) \<and> ta_match_dir t = ly_match_dir ly \<and>
      ta_record_path t = ly_record ly \<and> ta_summary_path t = ly_summary ly"
    using assms(1) mkdir std
    by (auto simp: local_persist_def Let_def ly_def [symmetric] rec_def [symmetric] later_def with_replay_def new_terminal_def
        split: option.splits prod.splits)
  then have e1: "e1 = None" and d': "d' = snd (run_steps later d1)"
    and t: "ta_match_dir t = ly_match_dir ly" "ta_record_path t = ly_record ly" "ta_summary_path t = ly_summary ly" by auto
  note bases = layout_bases [of "ms_output_dir sub" "ms_run sub", folded ly_def]
    and cleans = layout_clean [of "ms_output_dir sub" "ms_run sub", folded ly_def]
  have keep: "d' path = d1 path" if "base path \<in> document_names" for path
  proof -
    have "clean (ly_log ly) \<noteq> path" "clean (ly_replay ly) \<noteq> path"
      using that bases cleans by (auto simp: document_names_def)
    then have "\<forall>f \<in> set later. spares path f"
      using stderr_no_document [OF that] by (auto simp: later_def spares_log spares_stderr spares_replay split: option.splits)
    then show ?thesis unfolding d' using run_steps_spares by blast
  qed
  have names: "base (ly_record ly) \<in> document_names" "base (ly_snapshot ly) \<in> document_names"
    "base (ly_exported ly) \<in> document_names" "base (ly_history ly) \<in> document_names" "base (ly_summary ly) \<in> document_names"
    using bases by (simp_all add: document_names_def)
  from standard_on_disk [of "ms_output_dir sub" "ms_run sub" rec d d1, folded ly_def] std e1
  obtain jr js jx jh where docs: "enc_record rec = Some jr" "enc_snapshot (rc_snapshot rec) = Some js"
    "enc_exported (rc_exported rec) = Some jx" "enc_event_log (rc_event_log rec) = Some jh"
    "d1 (ly_record ly) = Some (Document jr)" "d1 (ly_snapshot ly) = Some (Document js)"
    "d1 (ly_exported ly) = Some (Document jx)" "d1 (ly_history ly) = Some (Document jh)"
    "d1 (ly_summary ly) = Some (Document (enc_result_summary (build_result_summary ly rec)))"
    by metis
  show ?thesis by (rule that [OF docs(1-4) _ _ _ _ _ t]) (use docs(5-9) keep names in simp_all)
qed

section \<open>Reading it back\<close>

text \<open>
  The locators of the run are paths: without space around them, with no scheme but \<open>file\<close> to a URL
  parser, and the names of the documents are relative.
\<close>

definition plain_path :: "locator_env \<Rightarrow> string \<Rightarrow> bool" where
  "plain_path env p \<longleftrightarrow> trim_space p = p \<and> is_local_path env p"

definition plain_layout :: "locator_env \<Rightarrow> layout \<Rightarrow> bool" where
  "plain_layout env ly \<longleftrightarrow>
     (\<forall>p \<in> {ly_match_dir ly, ly_record ly, ly_snapshot ly, ly_exported ly, ly_history ly, ly_summary ly}. plain_path env p) \<and>
     (\<forall>n \<in> {''snapshot.json'', ''history.json'', ''exported-snapshot.json''}. \<not> is_absolute_locator env n)"

lemma local_path_clean: "clean p = p \<Longrightarrow> local_path p = p"
  using clean_no_double_slash [of p] by (simp add: local_path_def)

lemma read_document:
  assumes "plain_path env p" "clean p = p" "d p = Some (Document j)"
  shows "read_artifact env (disk_source parse d) p = ReadOk (RawJson j)"
proof -
  have "p \<noteq> []" using assms(2) clean_not_Nil by metis
  then show ?thesis
    using assms local_path_clean [OF assms(2)]
    by (simp add: read_artifact_def plain_path_def disk_source_def disk_file_def Let_def)
qed

lemma layout_locator:
  assumes "plain_layout env (new_layout d i)" "i \<noteq> []"
    and n: "n \<in> {''snapshot.json'', ''history.json'', ''exported-snapshot.json''}"
  shows "join_artifact_locator env (ly_match_dir (new_layout d i)) n = join [ly_match_dir (new_layout d i), n]"
proof -
  let ?m = "ly_match_dir (new_layout d i)"
  have m: "clean ?m = ?m" using assms(2) by (simp add: new_layout_def Let_def)
  then have "?m \<noteq> []" "\<not> prefix ''file://'' ?m" using clean_not_Nil clean_no_double_slash by metis+
  moreover have "trim_space n = n" "clean n = n" "n \<noteq> []" using n by (elim insertE emptyE; simp only:; code_simp)+
  moreover have "plain_path env ?m" "\<not> is_absolute_locator env n" using assms(1) n by (auto simp: plain_layout_def)
  ultimately show ?thesis
    by (simp add: join_artifact_locator_def Let_def plain_path_def local_path_clean [OF m])
qed

lemma dec_enc_result_summary:
  assumes "canonical_status (sy_status s)" "int64_ok (sy_turn s)" "\<forall>p \<in> set (sy_placements s). int64_ok (pc_place p)"
  shows "dec_result_summary (enc_result_summary s) zero_summary = Some s"
proof -
  obtain a b c e st t ps pa er where s: "s = \<lparr>sy_match = a, sy_game = b, sy_version = c, sy_ruleset = e, sy_status = st,
      sy_turn = t, sy_placements = ps, sy_paths = pa, sy_error = er\<rparr>"
    by (cases s)
  have st: "dec_status (JStr (status_str st)) (OtherStatus []) = Some st" "int64_ok t"
    using assms(1,2) by (simp_all add: s status_roundtrip canonical_status_def)
  have pa: "dec_path_refs (enc_path_refs pa) no_paths = Some pa"
    by (cases pa) (simp add: dec_path_refs_def enc_path_refs_def dec_defs no_paths_def upper_def)
  have "dec_placement (enc_placement p) zero_placement = Some p" if "p \<in> set ps" for p
    using bspec [OF assms(3) [unfolded s result_summary.simps] that]
    by (simp add: dec_placement_def enc_placement_def dec_defs zero_placement_def upper_def)
  then have "map_all (\<lambda>j. dec_placement j zero_placement) (map enc_placement ps) = Some (map (\<lambda>p. p) ps)"
    unfolding map_all_map by (intro map_all_Some)
  then have ps: "dec_list dec_placement zero_placement (JArr (map enc_placement ps)) [] = Some ps"
    by (simp add: dec_list_def)
  show ?thesis
    using st pa ps
    by (cases "ps = []"; cases "er = []")
      (simp_all add: s enc_result_summary_def omit_str_def dec_result_summary_def dec_struct_def dec_field_def dec_str_def
        dec_int_def zero_summary_def upper_def)
qed

text \<open>
  C34. What a run leaves behind proves itself: when the local persister succeeds, the operator's view
  of the completed run reads the summary that was written, with the placements, turn and status of
  the record, and the verification of its replay inputs loads the record, the snapshots and the
  history and finds no issue.
\<close>

theorem persisted_run_verifies:
  assumes persist: "local_persist bytes disk_ops sub res d = (Inr t, d')"
    and rec: "record_ok (er_record res)" "rc_match_id (er_record res) = ms_match sub" "rc_game (er_record res) = ms_game sub"
      "player_order_matches (ms_players sub) (rc_players (er_record res))"
    and plain: "plain_layout env (new_layout (ms_output_dir sub) (ms_run sub))" "ms_run sub \<noteq> []"
    and r: "qr_submission r = sub\<lparr>ms_official := official\<rparr>" "qr_terminal r = Some (t\<lparr>ta_status := status, ta_error := error\<rparr>)"
    and read: "read = read_artifact env (disk_source parse d')"
  shows "\<exists>item s inputs. build_result_list_item read r = Inr (item, Some s) \<and>
    rl_placements item = mr_placements (rc_result (er_record res)) \<and>
    rl_terminal_status item = Some (rc_status (er_record res)) \<and> rl_turn item = Some (sn_turn (rc_snapshot (er_record res))) \<and>
    build_replay_inputs env read r (Some s) = Inr (Some inputs) \<and>
    ri_verification inputs = \<lparr>vf_checked = True, vf_consistent = True, vf_issues = []\<rparr>"
proof -
  let ?ly = "new_layout (ms_output_dir sub) (ms_run sub)" and ?rec = "er_record res"
  define s where "s = build_result_summary ?ly ?rec"
  obtain jr js jx jh where enc: "enc_record ?rec = Some jr" "enc_snapshot (rc_snapshot ?rec) = Some js"
    "enc_exported (rc_exported ?rec) = Some jx" "enc_event_log (rc_event_log ?rec) = Some jh"
    and disk: "d' (ly_record ?ly) = Some (Document jr)" "d' (ly_snapshot ?ly) = Some (Document js)"
    "d' (ly_exported ?ly) = Some (Document jx)" "d' (ly_history ?ly) = Some (Document jh)"
    "d' (ly_summary ?ly) = Some (Document (enc_result_summary s))"
    and t: "ta_match_dir t = ly_match_dir ?ly" "ta_record_path t = ly_record ?ly" "ta_summary_path t = ly_summary ?ly"
    using local_persist_documents [OF persist] unfolding s_def by metis
  have plain1: "plain_path env p" if "p \<in> {ly_match_dir ?ly, ly_record ?ly, ly_snapshot ?ly, ly_exported ?ly, ly_history ?ly, ly_summary ?ly}" for p
    using plain(1) that by (auto simp: plain_layout_def)
  have reads: "read (ly_record ?ly) = ReadOk (RawJson jr)" "read (ly_snapshot ?ly) = ReadOk (RawJson js)"
    "read (ly_exported ?ly) = ReadOk (RawJson jx)" "read (ly_history ?ly) = ReadOk (RawJson jh)"
    "read (ly_summary ?ly) = ReadOk (RawJson (enc_result_summary s))"
    unfolding read using disk
    by (auto intro!: read_document plain1 simp: layout_clean)
  have ok: "canonical_status (sy_status s)" "int64_ok (sy_turn s)" "\<forall>p \<in> set (sy_placements s). int64_ok (pc_place p)"
    using rec(1) by (simp_all add: s_def build_result_summary_def record_ok_def snapshot_ok_def)
  have nb: "\<not> blank p" if "p \<in> {ly_match_dir ?ly, ly_record ?ly, ly_summary ?ly}" for p
  proof -
    have "clean p = p" using that plain(2) by (auto simp: layout_clean) (simp add: new_layout_def Let_def)
    then have "p \<noteq> []" using clean_not_Nil by metis
    then show ?thesis using plain1 [of p] that by (auto simp: blank_def plain_path_def)
  qed
  have summary: "read_result_summary read (ly_summary ?ly) = Inr (Some s)"
    using nb [of "ly_summary ?ly"] dec_enc_result_summary [OF ok] by (simp add: read_result_summary_def reads)
  obtain snap where snap: "dec_snapshot js zero_snapshot = Some snap"
    "dec_record jr zero_record = Some (?rec\<lparr>rc_snapshot := snap\<rparr>)"
    using dec_enc_record [OF enc(1) rec(1)] enc(2) by (metis option.inject)
  have loads: "dec_event_log jh [] = Some (rc_event_log ?rec)" "dec_exported jx zero_exported = Some (rc_exported ?rec)"
    using dec_enc_event_log [OF enc(4)] dec_enc_exported [OF enc(3)] rec(1) by (auto simp: record_ok_def)
  obtain item where item: "build_result_list_item read r = Inr (item, Some s)"
    "rl_placements item = sy_placements s" "rl_terminal_status item = Some (sy_status s)" "rl_turn item = Some (sy_turn s)"
    using summary by (simp add: build_result_list_item_def Let_def r(2) t)
  have refs: "pf_snapshot (sy_paths s) = ''snapshot.json''" "pf_history (sy_paths s) = ''history.json''"
    "pf_exported (sy_paths s) = ''exported-snapshot.json''" "pf_record (sy_paths s) = ''record.json''"
    by (simp_all add: s_def build_result_summary_def layout_bases)
  have locators: "join_artifact_locator env (ly_match_dir ?ly) ''snapshot.json'' = ly_snapshot ?ly"
    "join_artifact_locator env (ly_match_dir ?ly) ''history.json'' = ly_history ?ly"
    "join_artifact_locator env (ly_match_dir ?ly) ''exported-snapshot.json'' = ly_exported ?ly"
    using layout_locator [OF plain] by (simp_all add: new_layout_def Let_def)
  have bases: "locator_base env p = base p" if "p \<in> {ly_record ?ly, ly_snapshot ?ly, ly_exported ?ly, ly_history ?ly}" for p
  proof -
    have c: "clean p = p" using that by (auto simp: layout_clean)
    then have "p \<noteq> []" using clean_not_Nil by metis
    moreover have "plain_path env p" using plain1 [of p] that by auto
    ultimately show ?thesis by (simp add: locator_base_def blank_def plain_path_def local_path_clean [OF c])
  qed
  have trimmed: "trim_space (ly_snapshot ?ly) = ly_snapshot ?ly" "trim_space (ly_history ?ly) = ly_history ?ly"
    "trim_space (ly_exported ?ly) = ly_exported ?ly"
    using plain1 by (simp_all add: plain_path_def)
  have nonempty: "ly_snapshot ?ly \<noteq> []" "ly_history ?ly \<noteq> []" "ly_exported ?ly \<noteq> []"
    using layout_clean [of "ms_output_dir sub" "ms_run sub"] clean_not_Nil by metis+
  obtain inputs where inputs: "build_replay_inputs env read r (Some s) = Inr (Some inputs)"
    "ri_verification inputs = \<lparr>vf_checked = True, vf_consistent = True, vf_issues = []\<rparr>"
  proof -
    let ?i = "\<lparr>ri_game = ms_game (qr_submission r), ri_players = ms_players (qr_submission r), ri_record = ly_record ?ly,
      ri_snapshot = ly_snapshot ?ly, ri_history = ly_history ?ly, ri_exported = ly_exported ?ly,
      ri_verification = \<lparr>vf_checked = False, vf_consistent = False, vf_issues = []\<rparr>\<rparr>"
    have "verify_result_summary env s (?rec\<lparr>rc_snapshot := snap\<rparr>) ?i = []"
      by (simp add: verify_result_summary_def ref_issue_def refs bases layout_bases)
        (simp add: s_def build_result_summary_def)
    then have v: "verify_replay_inputs env read r (Some s) ?i = Inr \<lparr>vf_checked = True, vf_consistent = True, vf_issues = []\<rparr>"
      using nb [of "ly_record ?ly"] rec(2-4)
      by (simp add: verify_replay_inputs_def read_json_artifact_def reads snap loads artifact_issues_def Let_def trimmed
          nonempty r(1))
    have "build_replay_inputs env read r (Some s) =
        Inr (Some (?i\<lparr>ri_verification := \<lparr>vf_checked = True, vf_consistent = True, vf_issues = []\<rparr>\<rparr>))"
      using nb [of "ly_record ?ly"] nb [of "ly_match_dir ?ly"] v
      by (simp add: build_replay_inputs_def r(2) t artifact_ref_def refs locators Let_def)
    then show ?thesis by (rule that) simp
  qed
  have "rl_placements item = mr_placements (rc_result ?rec)" "rl_terminal_status item = Some (rc_status ?rec)"
    "rl_turn item = Some (sn_turn (rc_snapshot ?rec))"
    using item(2-4) by (simp_all add: s_def build_result_summary_def)
  then show ?thesis using item(1) inputs by blast
qed

end
