(* ===== verification/Persist_Examples.thy ===== *)
theory Persist_Examples
  imports Persist_Spec
begin

text \<open>
  Where the persister writes, and the run of one player on an empty disk: what is persisted, read back
  and verified.
\<close>

section \<open>The files of a run stay in its directory\<close>

lemma join_element:
  assumes "clean m = m" "m \<noteq> ''.''" "m \<noteq> ''/''" and n: "CHR ''/'' \<notin> set n" "n \<noteq> []" "n \<noteq> ''.''" "n \<noteq> ''..''"
  shows "join [m, n] = m @ ''/'' @ n"
proof (cases rule: clean_form [of m])
  case (1 rooted es)
  let ?pre = "if rooted then ''/'' else []"
  have m: "m = ?pre @ join_with ''/'' es" "m \<noteq> []" using 1(3) assms(1) clean_not_Nil [of m] by simp_all
  have "join_with ''/'' (es @ [n]) = join_with ''/'' es @ ''/'' @ n"
    using 1(2) by (induction "''/''" es rule: join_with.induct) auto
  then have mn: "m @ ''/'' @ n = ?pre @ join_with ''/'' (es @ [n])" using m by simp
  have "normal rooted (rev (es @ [n]))" using 1(1) n by simp
  then have "clean (m @ ''/'' @ n) = m @ ''/'' @ n" unfolding mn by (rule clean_of_normal) simp
  then show ?thesis using m(2) by (simp add: join_def)
qed (use assms in auto)

lemma run_steps_leave: "\<forall>f \<in> set fs. \<forall>d. snd (f d) path = d path \<Longrightarrow> snd (run_steps fs d) path = d path"
proof (induction fs arbitrary: d)
  case (Cons f fs)
  obtain e d1 where f: "f d = (e, d1)" by fastforce
  with Cons.prems have "d1 path = d path" by (metis list.set_intros(1) snd_conv)
  with f Cons show ?case by (simp split: option.split)
qed simp

lemma leave_layout: "snd (ensure_layout disk_ops ly d) path = d path"
  by (simp add: ensure_layout_def disk_ops_def)

lemma leave_json: "clean file \<noteq> path \<Longrightarrow> snd (write_json_file disk_ops file doc label d) path = d path"
  by (simp add: write_json_on_disk split: option.split)

lemma leave_standard:
  assumes "path \<notin> {ly_record (new_layout o' i), ly_snapshot (new_layout o' i), ly_exported (new_layout o' i),
    ly_history (new_layout o' i), ly_summary (new_layout o' i)}"
  shows "snd (write_standard_artifacts disk_ops (new_layout o' i) rec d) path = d path"
  unfolding write_standard_artifacts_def using assms by (intro run_steps_leave) (auto simp: leave_json layout_clean)

lemma local_persist_frame:
  assumes "local_persist bytes disk_ops sub res d = (out, d')" and ly: "ly = new_layout (ms_output_dir sub) (ms_run sub)"
    and path: "path \<notin> {ly_record ly, ly_snapshot ly, ly_exported ly, ly_history ly, ly_summary ly, ly_log ly, ly_replay ly}"
      "path \<notin> stderr_path ly ` set (rc_players (er_record res))"
  shows "d' path = d path"
proof -
  let ?rec = "er_record res"
  define fs where "fs = [ensure_layout disk_ops ly, write_standard_artifacts disk_ops ly ?rec, ensure_structured_log_file disk_ops (ly_log ly)] @
    map (\<lambda>p. write_player_stderr disk_ops (stderr_path ly p) (getd [] (er_stderr res) (pl_id p))) (rc_players ?rec) @
    (case kept_replay bytes ?rec of None \<Rightarrow> [] | Some x \<Rightarrow> [write_public_replay disk_ops (ly_replay ly) (bytes (rp_payload x))])"
  have d': "d' = snd (run_steps fs d)"
    using assms(1) by (auto simp: local_persist_def Let_def ly fs_def split: prod.splits option.splits)
  have clean_stderr: "clean (stderr_path ly p) = stderr_path ly p" for p by (simp add: stderr_path_def)
  have "snd (f d) path = d path" if "f \<in> set fs" for f d
    using that path
    unfolding fs_def
    by (auto simp: ly leave_layout leave_standard ensure_structured_log_file_def create_on_disk write_on_disk layout_clean
        clean_stderr [unfolded ly] write_player_stderr_def write_public_replay_def split: option.splits)
  then show ?thesis unfolding d' by (intro run_steps_leave) blast
qed

text \<open>
  C40. The persister writes inside the directory of the run: when no player id has a slash, every file
  that is different afterwards, also after a failure, is an entry of the run's own directory. (An id
  with a slash is admitted by the validation and leads out of it, as the second half of the example shows.)
\<close>

theorem persister_stays_in_run_directory:
  assumes "local_persist bytes disk_ops sub res d = (out, d')" "d' path \<noteq> d path"
    and dir: "m = ly_match_dir (new_layout (ms_output_dir sub) (ms_run sub))" "m \<noteq> ''.''" "m \<noteq> ''/''" "ms_run sub \<noteq> []"
    and ids: "\<forall>p \<in> set (rc_players (er_record res)). CHR ''/'' \<notin> set (pl_id p)"
  shows "\<exists>n. CHR ''/'' \<notin> set n \<and> n \<noteq> [] \<and> n \<noteq> ''..'' \<and> path = m @ ''/'' @ n"
proof -
  let ?ly = "new_layout (ms_output_dir sub) (ms_run sub)"
  have m: "clean m = m" unfolding dir(1) using dir(4) by (simp add: new_layout_def Let_def)
  have in_dir: "\<exists>n. CHR ''/'' \<notin> set n \<and> n \<noteq> [] \<and> n \<noteq> ''..'' \<and> join [m, k] = m @ ''/'' @ n"
    if "CHR ''/'' \<notin> set k" "k \<noteq> []" "k \<noteq> ''.''" "k \<noteq> ''..''" for k
    using join_element [OF m dir(2,3) that] that by blast
  have "path \<in> {ly_record ?ly, ly_snapshot ?ly, ly_exported ?ly, ly_history ?ly, ly_summary ?ly, ly_log ?ly, ly_replay ?ly} \<or>
      path \<in> stderr_path ?ly ` set (rc_players (er_record res))"
    using local_persist_frame [OF assms(1) refl] assms(2) by blast
  then obtain k where k: "path = join [m, k]" "CHR ''/'' \<notin> set k" "k \<noteq> []" "k \<noteq> ''.''" "k \<noteq> ''..''"
  proof (elim disjE)
    assume "path \<in> stderr_path ?ly ` set (rc_players (er_record res))"
    then obtain p where p: "p \<in> set (rc_players (er_record res))" "path = stderr_path ?ly p" by blast
    have "pl_id p @ ''-stderr.log'' \<noteq> ''.''" "pl_id p @ ''-stderr.log'' \<noteq> ''..''"
      by (cases "pl_id p"; simp; cases "tl (pl_id p)"; simp)+
    then show thesis using p ids by (intro that [of "pl_id p @ ''-stderr.log''"]) (auto simp: stderr_path_def dir(1))
  qed (auto simp: dir(1) new_layout_def Let_def intro: that)
  show ?thesis unfolding k(1) by (rule in_dir [OF k(2-5)])
qed

section \<open>A run of two players\<close>

definition finished_record :: record_ where
  "finished_record = zero_record\<lparr>rc_match_id := ''match-1'', rc_game := ms_game sample_submission,
     rc_players := [\<lparr>pl_id = ''p1'', pl_ai = ''rock''\<rparr>, \<lparr>pl_id = ''p2'', pl_ai = ''paper''\<rparr>], rc_status := StatusCompleted,
     rc_result := \<lparr>mr_placements = [\<lparr>pc_player = ''p2'', pc_place = 1\<rparr>, \<lparr>pc_player = ''p1'', pc_place = 2\<rparr>]\<rparr>\<rparr>"

definition finished_result :: execution_result where
  "finished_result = \<lparr>er_record = finished_record, er_stderr = [(''p1'', ''panic'')]\<rparr>"

definition plain_env :: locator_env where
  "plain_env = \<lparr>le_url = \<lambda>_. None, le_with_path = \<lambda>_ p. p\<rparr>"

definition no_bytes :: "raw \<Rightarrow> string" where
  "no_bytes r = []"

lemma finished_record_ok: "record_ok finished_record"
  by (simp add: record_ok_def finished_record_def zero_record_def canonical_status_def str_status_def snapshot_ok_def exported_ok_def zero_snapshot_def
      zero_exported_def int64_ok_def)

lemma sample_persists: "\<exists>t d'. local_persist no_bytes disk_ops sample_submission finished_result (\<lambda>_. None) = (Inr t, d')"
proof -
  have "\<not> isl (fst (local_persist no_bytes disk_ops sample_submission finished_result (\<lambda>_. None)))" by code_simp
  then show ?thesis
    by (cases "local_persist no_bytes disk_ops sample_submission finished_result (\<lambda>_. None)"; cases "fst (local_persist no_bytes disk_ops sample_submission finished_result (\<lambda>_. None))") auto
qed

lemma sample_plain: "plain_layout plain_env (new_layout (ms_output_dir sample_submission) (ms_run sample_submission))"
proof -
  let ?ly = "new_layout (ms_output_dir sample_submission) (ms_run sample_submission)"
  have "list_all (\<lambda>p. trim_space p = p) [ly_match_dir ?ly, ly_record ?ly, ly_snapshot ?ly, ly_exported ?ly, ly_history ?ly, ly_summary ?ly]"
    by code_simp
  moreover have "is_local_path plain_env p" for p by (simp add: is_local_path_def plain_env_def)
  moreover have "\<not> is_absolute_locator plain_env n" if "n \<in> {''snapshot.json'', ''history.json'', ''exported-snapshot.json''}" for n
    using that by (auto simp: is_absolute_locator_def is_abs_def plain_env_def)
  ultimately show ?thesis by (simp add: plain_layout_def plain_path_def)
qed

theorem persisted_run_verifies_witness:
  "\<exists>t d' r item s inputs. local_persist no_bytes disk_ops sample_submission finished_result (\<lambda>_. None) = (Inr t, d') \<and>
     build_result_list_item (read_artifact plain_env (disk_source (\<lambda>_. RawNone) d')) r = Inr (item, Some s) \<and>
     build_replay_inputs plain_env (read_artifact plain_env (disk_source (\<lambda>_. RawNone) d')) r (Some s) = Inr (Some inputs) \<and>
     rl_placements item = [\<lparr>pc_player = ''p2'', pc_place = 1\<rparr>, \<lparr>pc_player = ''p1'', pc_place = 2\<rparr>] \<and>
     vf_consistent (ri_verification inputs)"
proof -
  obtain t d' where persist: "local_persist no_bytes disk_ops sample_submission finished_result (\<lambda>_. None) = (Inr t, d')"
    using sample_persists by blast
  define r where "r = \<lparr>qr_submission = sample_submission\<lparr>ms_official := True\<rparr>, qr_state = StateCompleted, qr_completed_at = None,
    qr_lease = None, qr_terminal = Some (t\<lparr>ta_status := StatusCompleted, ta_error := []\<rparr>)\<rparr>"
  have order: "player_order_matches (ms_players sample_submission) (rc_players (er_record finished_result))"
    by (simp add: player_order_matches_def sample_submission_def finished_result_def finished_record_def)
  have r: "qr_submission r = sample_submission\<lparr>ms_official := True\<rparr>"
    "qr_terminal r = Some (t\<lparr>ta_status := StatusCompleted, ta_error := []\<rparr>)" by (simp_all add: r_def)
  have rec: "record_ok (er_record finished_result)" "rc_match_id (er_record finished_result) = ms_match sample_submission"
    "rc_game (er_record finished_result) = ms_game sample_submission" "ms_run sample_submission \<noteq> []"
    using finished_record_ok by (simp_all add: finished_result_def finished_record_def sample_submission_def)
  have places: "mr_placements (rc_result (er_record finished_result)) =
      [\<lparr>pc_player = ''p2'', pc_place = 1\<rparr>, \<lparr>pc_player = ''p1'', pc_place = 2\<rparr>]"
    by (simp add: finished_result_def finished_record_def)
  obtain item s inputs where "build_result_list_item (read_artifact plain_env (disk_source (\<lambda>_. RawNone) d')) r = Inr (item, Some s)"
    "build_replay_inputs plain_env (read_artifact plain_env (disk_source (\<lambda>_. RawNone) d')) r (Some s) = Inr (Some inputs)"
    "rl_placements item = [\<lparr>pc_player = ''p2'', pc_place = 1\<rparr>, \<lparr>pc_player = ''p1'', pc_place = 2\<rparr>]"
    "vf_consistent (ri_verification inputs)"
    using persisted_run_verifies [OF persist rec(1-3) order sample_plain rec(4) r refl, of "\<lambda>_. RawNone", unfolded places] by auto
  with persist show ?thesis by blast
qed

text \<open>The second half: a submission with a player id that leads out of the directory is valid.\<close>

theorem persister_stays_in_run_directory_witness:
  "\<exists>out d'. local_persist no_bytes disk_ops sample_submission finished_result (\<lambda>_. None) = (out, d') \<and>
     (\<forall>path. d' path \<noteq> None \<longrightarrow> (\<exists>n. CHR ''/'' \<notin> set n \<and> path = ''out/run-1/'' @ n)) \<and>
     stderr_path (new_layout ''out'' ''run-1'') \<lparr>pl_id = ''../../x'', pl_ai = []\<rparr> = ''x-stderr.log'' \<and>
     validate_submission (sample_submission\<lparr>ms_players := map (sp_player_update (\<lambda>p. if p = ''p1'' then ''../../x'' else p))
       (ms_players sample_submission)\<rparr>) = None"
proof -
  let ?m = "ly_match_dir (new_layout (ms_output_dir sample_submission) (ms_run sample_submission))"
  obtain t d' where persist: "local_persist no_bytes disk_ops sample_submission finished_result (\<lambda>_. None) = (Inr t, d')"
    using sample_persists by blast
  have m: "?m = ''out/run-1''" by code_simp
  have ids: "\<forall>p \<in> set (rc_players (er_record finished_result)). CHR ''/'' \<notin> set (pl_id p)" "?m \<noteq> ''.''" "?m \<noteq> ''/''" "ms_run sample_submission \<noteq> []"
    unfolding m by (auto simp: finished_result_def finished_record_def sample_submission_def)
  have "\<exists>n. CHR ''/'' \<notin> set n \<and> path = ''out/run-1/'' @ n" if "d' path \<noteq> None" for path
    using persister_stays_in_run_directory [OF persist that refl ids(2-4) ids(1)] m by auto
  moreover have "stderr_path (new_layout ''out'' ''run-1'') \<lparr>pl_id = ''../../x'', pl_ai = []\<rparr> = ''x-stderr.log''" by code_simp
  moreover have "validate_submission (sample_submission\<lparr>ms_players := map (sp_player_update (\<lambda>p. if p = ''p1'' then ''../../x'' else p))
       (ms_players sample_submission)\<rparr>) = None" by code_simp
  ultimately show ?thesis using persist by blast
qed

end
