(* ===== verification/Encoding.thy ===== *)
theory Encoding
  imports Bundle
begin

text \<open>
  The encodings of the standard library behind the signed cookies of the service:
  \<open>base64.RawURLEncoding\<close>, \<open>hex.DecodeString\<close> and \<open>hmac\<close> over SHA-256.
\<close>

section \<open>Bits\<close>

text \<open>The bits of a number, the most significant one first.\<close>

fun bits_of :: "nat \<Rightarrow> nat \<Rightarrow> bool list" where
  "bits_of 0 n = []"
| "bits_of (Suc w) n = (n div 2 ^ w mod 2 = 1) # bits_of w n"

definition num_of :: "bool list \<Rightarrow> nat" where
  "num_of bs = foldl (\<lambda>a b. 2 * a + of_bool b) 0 bs"

lemma length_bits_of [simp]: "length (bits_of w n) = w"
  by (induction w) simp_all

lemma foldl_bits: "foldl (\<lambda>a b. 2 * a + of_bool b) a bs = a * 2 ^ length bs + num_of bs"
proof (induction bs arbitrary: a)
  case (Cons b bs)
  have "num_of (b # bs) = of_bool b * 2 ^ length bs + num_of bs"
    using Cons [of "of_bool b"] by (simp add: num_of_def)
  then show ?case using Cons [of "2 * a + of_bool b"] by (simp add: algebra_simps)
qed (simp add: num_of_def)

lemma num_of_Cons: "num_of (b # bs) = of_bool b * 2 ^ length bs + num_of bs"
  using foldl_bits [of "of_bool b" bs] by (simp add: num_of_def)

lemma num_of_bits_of: "num_of (bits_of w n) = n mod 2 ^ w"
proof (induction w)
  case (Suc w)
  have "n mod 2 ^ Suc w = 2 ^ w * (n div 2 ^ w mod 2) + n mod 2 ^ w"
    by (metis mod_mult2_eq mult.commute power_Suc)
  then show ?case using Suc by (simp add: num_of_Cons)
qed (simp add: num_of_def)

lemma num_of_less: "num_of bs < 2 ^ length bs"
  by (induction bs) (auto simp: num_of_Cons, simp add: num_of_def)

lemma bits_of_mod: "w \<le> v \<Longrightarrow> bits_of w (n mod 2 ^ v) = bits_of w n"
proof (induction w)
  case (Suc w)
  have "(n mod 2 ^ v div 2 ^ w mod 2 = 1) = bit (take_bit v n) w"
    by (simp add: bit_iff_odd take_bit_eq_mod odd_iff_mod_2_eq_one)
  also have "\<dots> = (n div 2 ^ w mod 2 = 1)"
    using Suc.prems by (simp add: bit_take_bit_iff) (simp add: bit_iff_odd odd_iff_mod_2_eq_one)
  finally show ?case using Suc by simp
qed simp

lemma bits_of_num_of: "bits_of (length bs) (num_of bs) = bs"
proof (induction bs)
  case (Cons b bs)
  have less: "num_of bs < 2 ^ length bs" by (rule num_of_less)
  have "num_of (b # bs) mod 2 ^ length bs = num_of bs" using less by (simp add: num_of_Cons)
  then have "bits_of (length bs) (num_of (b # bs)) = bs"
    using Cons bits_of_mod [of "length bs" "length bs" "num_of (b # bs)"] by simp
  moreover have "num_of (b # bs) div 2 ^ length bs = of_bool b" using less by (simp add: num_of_Cons)
  ultimately show ?case by simp
qed simp

section \<open>Base 64\<close>

definition b64_chars :: string where
  "b64_chars = ''ABCDEFGHIJKLMNOPQRSTUVWXYZabcdefghijklmnopqrstuvwxyz0123456789-_''"

fun sextets :: "bool list \<Rightarrow> string" where
  "sextets [] = []"
| "sextets (b # bs) = b64_chars ! num_of (take 6 (b # bs @ replicate 5 False)) # sextets (drop 5 bs)"

definition b64_encode :: "string \<Rightarrow> string" where
  "b64_encode s = sextets (concat (map (\<lambda>c. bits_of 8 (of_char c)) s))"

definition b64_value :: "char \<Rightarrow> nat option" where
  "b64_value c = (if c \<in> set b64_chars then Some (length (takeWhile (\<lambda>x. x \<noteq> c) b64_chars)) else None)"

fun octets :: "bool list \<Rightarrow> string" where
  "octets bs = (if length bs < 8 then [] else char_of (num_of (take 8 bs)) # octets (drop 8 bs))"

declare octets.simps [simp del]

text \<open>Line breaks are skipped, a single last character is an error and its spare bits are ignored.\<close>

definition b64_decode :: "string \<Rightarrow> string option" where
  "b64_decode s =
     (let t = filter (\<lambda>c. c \<noteq> CHR 0x0A \<and> c \<noteq> CHR 0x0D) s in
      if length t mod 4 = 1 then None
      else map_option (\<lambda>vs. octets (concat (map (bits_of 6) vs))) (map_all b64_value t))"

lemma b64_chars_facts: "length b64_chars = 64" "distinct b64_chars" "CHR 0x0A \<notin> set b64_chars"
  "CHR 0x0D \<notin> set b64_chars" "CHR ''.'' \<notin> set b64_chars"
  by code_simp+

lemma b64_value_nth: "i < 64 \<Longrightarrow> b64_value (b64_chars ! i) = Some i"
proof -
  assume i: "i < 64"
  then have "takeWhile (\<lambda>x. x \<noteq> b64_chars ! i) b64_chars = take i b64_chars"
    using b64_chars_facts(1,2) by (intro takeWhile_eq_take_P_nth) (auto simp: nth_eq_iff_index_eq)
  then show ?thesis using i b64_chars_facts(1) by (simp add: b64_value_def)
qed

lemma num_of_six: "length bs = 6 \<Longrightarrow> num_of bs < 64"
  using num_of_less [of bs] by (simp only:) simp

lemma sextets_chars: "set (sextets bs) \<subseteq> set b64_chars"
proof (induction bs rule: sextets.induct)
  case (2 b bs)
  have "num_of (take 6 (b # bs @ replicate 5 False)) < 64"
    by (rule num_of_six) simp
  then have "b64_chars ! num_of (take 6 (b # bs @ replicate 5 False)) \<in> set b64_chars"
    by (intro nth_mem) (simp only: b64_chars_facts(1))
  with 2 show ?case by (simp only: sextets.simps list.set(2)) blast
qed simp

lemma length_sextets: "length (sextets bs) = (length bs + 5) div 6"
proof (induction bs rule: sextets.induct)
  case (2 b bs)
  then show ?case by (cases "length bs < 5") simp_all
qed simp

lemma sextets_bits: "\<exists>vs k. map_all b64_value (sextets bs) = Some vs \<and> concat (map (bits_of 6) vs) = bs @ replicate k False \<and> k < 6"
proof (induction bs rule: sextets.induct)
  case (2 b bs)
  let ?h = "take 6 (b # bs @ replicate 5 False)"
  have len: "length ?h = 6" by simp
  have less: "num_of ?h < 64" by (rule num_of_six [OF len])
  obtain vs k where vs: "map_all b64_value (sextets (drop 5 bs)) = Some vs"
    "concat (map (bits_of 6) vs) = drop 5 bs @ replicate k False" "k < 6" using 2 by blast
  have bits: "bits_of 6 (num_of ?h) = ?h" using bits_of_num_of [of ?h] unfolding len .
  have "map_all b64_value (sextets (b # bs)) = Some (num_of ?h # vs)"
    unfolding sextets.simps using b64_value_nth [OF less] vs(1) by simp
  moreover have "\<exists>k. ?h @ drop 5 bs @ replicate k' False = (b # bs) @ replicate k False \<and> k < 6"
    if "k' = k" for k'
  proof (cases "length bs < 5")
    case True
    have "sextets (drop 5 bs) = []" using True by simp
    then have "vs = []" using vs(1) by simp
    then have "k = 0" using vs(2) True by simp
    then show ?thesis using True that by (intro exI [of _ "5 - length bs"]) simp
  next
    case False
    then show ?thesis using that vs(3) by (intro exI [of _ k]) simp
  qed
  ultimately show ?case using vs(2) bits by (auto simp del: sextets.simps)
qed simp

lemma octets_bits: "length spare < 8 \<Longrightarrow> octets (concat (map (\<lambda>c. bits_of 8 (of_char c)) s) @ spare) = s"
proof (induction s)
  case Nil
  then show ?case by (simp add: octets.simps)
next
  case (Cons c s)
  have "num_of (bits_of 8 (of_char c)) = of_char c" by (simp add: num_of_bits_of)
  then show ?case using Cons by (subst octets.simps) simp
qed

theorem b64_roundtrip: "b64_decode (b64_encode s) = Some s"
proof -
  let ?bs = "concat (map (\<lambda>c. bits_of 8 (of_char c)) s)"
  have clean: "filter (\<lambda>c. c \<noteq> CHR 0x0A \<and> c \<noteq> CHR 0x0D) (sextets ?bs) = sextets ?bs"
    using sextets_chars [of ?bs] b64_chars_facts(3,4) by (intro filter_True) blast
  have "length ?bs = 8 * length s" by (induction s) simp_all
  then have "length (sextets ?bs) mod 4 \<noteq> 1" unfolding length_sextets by presburger
  moreover obtain vs k where "map_all b64_value (sextets ?bs) = Some vs"
    "concat (map (bits_of 6) vs) = ?bs @ replicate k False" "k < 6" using sextets_bits by blast
  ultimately show ?thesis using clean by (simp add: b64_decode_def b64_encode_def octets_bits)
qed

section \<open>Hexadecimal\<close>

definition hex_value :: "char \<Rightarrow> nat option" where
  "hex_value c =
     (let n = of_char c :: nat in
      if 48 \<le> n \<and> n \<le> 57 then Some (n - 48)
      else if 97 \<le> n \<and> n \<le> 102 then Some (n - 87)
      else if 65 \<le> n \<and> n \<le> 70 then Some (n - 55)
      else None)"

fun hex_decode :: "string \<Rightarrow> string option" where
  "hex_decode [] = Some []"
| "hex_decode [c] = None"
| "hex_decode (c # d # cs) =
     (case (hex_value c, hex_value d, hex_decode cs) of
        (Some x, Some y, Some s) \<Rightarrow> Some (char_of (16 * x + y) # s)
      | _ \<Rightarrow> None)"

lemma hex_value_digit:
  assumes "n < 16"
  shows "hex_value (hex_digit n) = Some n"
proof -
  have "of_char (hex_digit n) = (if n < 10 then 48 + n else 87 + n)"
    using assms by (simp add: hex_digit_def)
  then show ?thesis using assms unfolding hex_value_def Let_def by simp
qed

theorem hex_roundtrip: "hex_decode (hex s) = Some s"
proof (induction s)
  case (Cons c s)
  define n where "n = (of_char c :: nat)"
  have c: "c = char_of n" "n < 256" by (simp_all add: n_def)
  have digits: "hex_value (hex_digit (n div 16)) = Some (n div 16)" "hex_value (hex_digit (n mod 16)) = Some (n mod 16)"
    using c(2) by (intro hex_value_digit; simp add: less_mult_imp_div_less)+
  have "hex (c # s) = hex_digit (n div 16) # hex_digit (n mod 16) # hex s" by (simp add: hex_def n_def)
  then have "hex_decode (hex (c # s)) = Some (char_of (16 * (n div 16) + n mod 16) # s)" using Cons digits by simp
  also have "16 * (n div 16) + n mod 16 = n" by (rule mult_div_mod_eq)
  finally show ?case by (simp add: c(1))
qed (simp add: hex_def)

section \<open>Keyed hashes\<close>

definition xor_pad :: "nat \<Rightarrow> string \<Rightarrow> string" where
  "xor_pad p key = map (\<lambda>c. char_of (xor (of_char c) p :: nat)) key"

definition hmac_sha256 :: "string \<Rightarrow> string \<Rightarrow> string" where
  "hmac_sha256 key msg =
     (let k = (if length key > 64 then sum256 key else key);
          block = k @ replicate (64 - length k) (CHR 0x00)
      in sum256 (xor_pad 0x5C block @ sum256 (xor_pad 0x36 block @ msg)))"

end
