(* ===== verification/Auth.thy ===== *)
theory Auth
  imports Encoding Admission
begin

text \<open>
  Authentication of the service: the tables and transactions of the auth store
  (\<open>internal/platform/service/auth_postgres.go\<close>, whose statements are written out over lists of
  rows) and the login flow, sessions and role checks of \<open>auth.go\<close>. Tokens, ids, the clock, URL
  parsing and printing, the text of the JSON in the cookie, the identity provider and failures of the
  database are fields of the environment of a request.
\<close>

datatype auth_error =
  AuthDisabled | AuthenticationNeeded | OperatorRoleNeeded | SignupInviteRequired | InvalidSignupInvite
| IdentityIncomplete | InviteRoleInvalid | InviteTtlNegative | DatabaseFailed string | NoRandom
| InvalidReturnTo | ReturnToNotAbsolute | ReturnToNotAllowed | ProviderUnavailable | OriginNotAllowed
| NoCookie | InvalidSignedCookie | UndecodableCookie | SignatureMismatch | AuthConfigIncomplete | EndpointInvalid

section \<open>The auth store\<close>

record auth_identity =
  ai_provider :: string
  ai_subject :: string
  ai_login :: string
  ai_email :: string

record identity_row = auth_identity +
  ai_account :: string
  ai_created :: int

record session_row =
  ss_account :: string
  ss_hash :: string
  ss_expires :: int

record invite_row =
  iv_hash :: string
  iv_role :: string
  iv_expires :: int
  iv_claim :: "(string \<times> int) option"    \<comment> \<open>the account and the time\<close>

record auth_db =
  ad_accounts :: "string list"
  ad_identities :: "identity_row list"
  ad_roles :: "(string \<times> string) list"     \<comment> \<open>account and role\<close>
  ad_sessions :: "session_row list"
  ad_invites :: "invite_row list"

record auth_principal =
  pr_account :: string
  pr_provider :: string
  pr_login :: string
  pr_email :: string
  pr_roles :: "string list"

record signup_invite =
  si_token :: string
  si_role :: string
  si_expires :: int

definition token_hash :: "string \<Rightarrow> string" where
  "token_hash v = hex (sum256 (trim_space v))"

definition normalized_identity :: "auth_identity \<Rightarrow> auth_identity" where
  "normalized_identity i = \<lparr>ai_provider = trim_space (ai_provider i), ai_subject = trim_space (ai_subject i),
     ai_login = trim_space (ai_login i), ai_email = trim_space (ai_email i)\<rparr>"

definition load_roles :: "auth_db \<Rightarrow> string \<Rightarrow> string list" where
  "load_roles db a = sort (map snd (filter (\<lambda>(x, _). x = a) (ad_roles db)))"

definition principal_of :: "auth_db \<Rightarrow> identity_row \<Rightarrow> auth_principal" where
  "principal_of db i = \<lparr>pr_account = ai_account i, pr_provider = ai_provider i, pr_login = ai_login i,
     pr_email = ai_email i, pr_roles = load_roles db (ai_account i)\<rparr>"

definition lookup_principal_by_identity :: "auth_db \<Rightarrow> string \<Rightarrow> string \<Rightarrow> auth_principal option" where
  "lookup_principal_by_identity db provider subject =
     map_option (principal_of db)
       (find (\<lambda>i. ai_provider i = provider \<and> ai_subject i = subject \<and> ai_account i \<in> set (ad_accounts db)) (ad_identities db))"

text \<open>The join of sessions, accounts and identities, and its first row by provider and creation time.\<close>

definition session_rows :: "auth_db \<Rightarrow> string \<Rightarrow> int \<Rightarrow> session_row list \<Rightarrow> identity_row list" where
  "session_rows db hash now sessions =
     concat (map (\<lambda>s. if ss_hash s = hash \<and> ss_expires s > now \<and> ss_account s \<in> set (ad_accounts db)
                     then filter (\<lambda>i. ai_account i = ss_account s) (ad_identities db) else []) sessions)"

definition lookup_principal_by_session :: "auth_db \<Rightarrow> string \<Rightarrow> int \<Rightarrow> auth_principal option" where
  "lookup_principal_by_session db hash now =
     (case sort_key ai_provider (sort_key ai_created (session_rows db hash now (ad_sessions db))) of
        [] \<Rightarrow> None
      | i # rest \<Rightarrow> Some (principal_of db i))"

definition create_principal_from_invite :: "string \<Rightarrow> auth_identity \<Rightarrow> string \<Rightarrow> int \<Rightarrow> auth_db \<Rightarrow>
    auth_error + auth_principal \<times> auth_db" where
  "create_principal_from_invite account identity invite now db =
     (let i = normalized_identity identity in
      case find (\<lambda>v. iv_hash v = token_hash invite) (ad_invites db) of
        None \<Rightarrow> Inl InvalidSignupInvite
      | Some v \<Rightarrow>
          if iv_claim v \<noteq> None \<or> iv_expires v \<le> now then Inl InvalidSignupInvite
          else if account \<in> set (ad_accounts db) then Inl (DatabaseFailed ''accounts'')
          else if list_ex (\<lambda>x. ai_provider x = ai_provider i \<and> ai_subject x = ai_subject i) (ad_identities db)
          then Inl (DatabaseFailed ''account_identities'')
          else Inr (\<lparr>pr_account = account, pr_provider = ai_provider i, pr_login = ai_login i, pr_email = ai_email i,
                     pr_roles = [iv_role v]\<rparr>,
                    db\<lparr>ad_accounts := ad_accounts db @ [account],
                       ad_identities := ad_identities db @
                         [\<lparr>ai_provider = ai_provider i, ai_subject = ai_subject i, ai_login = ai_login i, ai_email = ai_email i,
                           ai_account = account, ai_created = now\<rparr>],
                       ad_roles := ad_roles db @ [(account, iv_role v)]\<rparr>))"

text \<open>\<open>UPDATE signup_invites SET ... WHERE invite_token_hash = ...\<close>\<close>

definition claim_invite :: "string \<Rightarrow> string \<Rightarrow> int \<Rightarrow> auth_db \<Rightarrow> auth_db" where
  "claim_invite account invite now db =
     db\<lparr>ad_invites := map (\<lambda>v. if iv_hash v = token_hash invite then v\<lparr>iv_claim := Some (account, now)\<rparr> else v) (ad_invites db)\<rparr>"

text \<open>One transaction: an error leaves the tables as they were.\<close>

definition resolve_identity_login :: "string option \<Rightarrow> string \<Rightarrow> auth_identity \<Rightarrow> string \<Rightarrow> int \<Rightarrow> auth_db \<Rightarrow>
    (auth_error + auth_principal) \<times> auth_db" where
  "resolve_identity_login fault account identity invite now db =
     (let i = normalized_identity identity in
      if ai_provider i = [] \<or> ai_subject i = [] \<or> ai_login i = [] then (Inl IdentityIncomplete, db)
      else case fault of Some e \<Rightarrow> (Inl (DatabaseFailed e), db)
      | None \<Rightarrow>
          (case lookup_principal_by_identity db (ai_provider i) (ai_subject i) of
             Some p \<Rightarrow> (Inr p, db)
           | None \<Rightarrow>
               if blank invite then (Inl SignupInviteRequired, db)
               else case create_principal_from_invite account i invite now db of
                 Inl e \<Rightarrow> (Inl e, db)
               | Inr (p, db1) \<Rightarrow> (Inr p, claim_invite account invite now db1)))"

definition create_session :: "string option \<Rightarrow> string option \<Rightarrow> string \<Rightarrow> int \<Rightarrow> auth_db \<Rightarrow> (auth_error + string) \<times> auth_db" where
  "create_session fault token account expires db =
     (case token of None \<Rightarrow> (Inl NoRandom, db)
      | Some t \<Rightarrow>
          (case fault of Some e \<Rightarrow> (Inl (DatabaseFailed e), db)
           | None \<Rightarrow>
               if account \<notin> set (ad_accounts db) \<or> list_ex (\<lambda>s. ss_hash s = token_hash t) (ad_sessions db)
               then (Inl (DatabaseFailed ''account_sessions''), db)
               else (Inr t, db\<lparr>ad_sessions := ad_sessions db @
                      [\<lparr>ss_account = account, ss_hash = token_hash t, ss_expires = expires\<rparr>]\<rparr>)))"

definition get_session :: "string option \<Rightarrow> string \<Rightarrow> int \<Rightarrow> auth_db \<Rightarrow> auth_error + auth_principal" where
  "get_session fault token now db =
     (case fault of Some e \<Rightarrow> Inl (DatabaseFailed e)
      | None \<Rightarrow> (case lookup_principal_by_session db (token_hash token) now of
                  None \<Rightarrow> Inl AuthenticationNeeded | Some p \<Rightarrow> Inr p))"

definition delete_session :: "string option \<Rightarrow> string \<Rightarrow> auth_db \<Rightarrow> auth_error option \<times> auth_db" where
  "delete_session fault token db =
     (case fault of Some e \<Rightarrow> (Some (DatabaseFailed e), db)
      | None \<Rightarrow> (None, db\<lparr>ad_sessions := filter (\<lambda>s. ss_hash s \<noteq> token_hash token) (ad_sessions db)\<rparr>))"

definition validate_invite_role :: "string \<Rightarrow> bool" where
  "validate_invite_role role \<longleftrightarrow> trim_space role \<in> {''participant'', ''developer'', ''operator''}"

definition store_signup_invite :: "string option \<Rightarrow> string option \<Rightarrow> string \<Rightarrow> int \<Rightarrow> auth_db \<Rightarrow>
    (auth_error + signup_invite) \<times> auth_db" where
  "store_signup_invite fault token role expires db =
     (let role = trim_space role in
      if \<not> validate_invite_role role then (Inl InviteRoleInvalid, db)
      else case token of None \<Rightarrow> (Inl NoRandom, db)
      | Some t \<Rightarrow>
          (case fault of Some e \<Rightarrow> (Inl (DatabaseFailed e), db)
           | None \<Rightarrow>
               if list_ex (\<lambda>v. iv_hash v = token_hash t) (ad_invites db)
               then (Inl (DatabaseFailed ''signup_invites''), db)
               else (Inr \<lparr>si_token = t, si_role = role, si_expires = expires\<rparr>,
                     db\<lparr>ad_invites := ad_invites db @
                       [\<lparr>iv_hash = token_hash t, iv_role = role, iv_expires = expires, iv_claim = None\<rparr>]\<rparr>)))"

section \<open>Requests and responses\<close>

text \<open>
  The path is the escaped one (\<open>EscapedPath\<close>). Query values, headers and cookies by name, the first one
  of a name counts; the query is there as it came, too.
\<close>

record http_request =
  hr_method :: string
  hr_path :: string
  hr_raw_query :: string
  hr_query :: "string gomap"
  hr_headers :: "string gomap"
  hr_cookies :: "string gomap"
  hr_host :: string
  hr_tls :: bool

datatype same_site = SameSiteLax | SameSiteNone

text \<open>All cookies are for the path \<open>/\<close> and \<open>HttpOnly\<close>.\<close>

record cookie =
  ck_name :: string
  ck_value :: string
  ck_secure :: bool
  ck_same_site :: same_site
  ck_max_age :: int

record 'b http_response =
  rs_status :: int
  rs_location :: string
  rs_cookies :: "cookie list"
  rs_body :: 'b

text \<open>\<open>strings.EqualFold(s, "https")\<close>, with the other letter that folds to s.\<close>

definition ascii_lower :: "char \<Rightarrow> char" where
  "ascii_lower c = (let n = of_char c :: nat in if 65 \<le> n \<and> n \<le> 90 then char_of (n + 32) else c)"

definition folds_to_https :: "string \<Rightarrow> bool" where
  "folds_to_https s \<longleftrightarrow>
     map ascii_lower s = ''https'' \<or> map ascii_lower (take 4 s) = ''http'' \<and> drop 4 s = [CHR 0xC5, CHR 0xBF]"

definition is_https_request :: "http_request \<Rightarrow> bool" where
  "is_https_request r \<longleftrightarrow> hr_tls r \<or> folds_to_https (getd [] (hr_headers r) ''X-Forwarded-Proto'')"

definition session_cookie_same_site :: "http_request \<Rightarrow> same_site" where
  "session_cookie_same_site r = (if is_https_request r then SameSiteNone else SameSiteLax)"

fun replace_first :: "string \<Rightarrow> string \<Rightarrow> string \<Rightarrow> string" where
  "replace_first old new [] = []"
| "replace_first old new (c # s) =
     (if prefix old (c # s) then new @ drop (length old) (c # s) else c # replace_first old new s)"

definition callback_url :: "http_request \<Rightarrow> string \<Rightarrow> string" where
  "callback_url r provider =
     (let https = is_https_request r;
          host = hr_host r;
          host = (if \<not> https \<and> provider = ''github'' then replace_first ''127.0.0.1'' ''localhost'' host else host);
          host = (if \<not> https \<and> provider = ''local-oidc'' then replace_first ''localhost'' ''127.0.0.1'' host else host)
      in (if https then ''https'' else ''http'') @ ''://'' @ host @ ''/auth/'' @ provider @ ''/callback'')"

section \<open>The service\<close>

datatype exchange_error = LookupFailed string | ExchangeFailed string

text \<open>\<open>AuthorizationURL\<close> and \<open>ExchangeIdentity\<close>, each with the callback URL.\<close>

record identity_provider =
  op_authorize :: "string \<Rightarrow> string \<Rightarrow> string"
  op_exchange :: "string \<Rightarrow> string \<Rightarrow> exchange_error + auth_identity"

record auth_service =
  ac_allowed :: "string list"
  ac_ttl :: int
  ac_secret :: string
  ac_github :: identity_provider
  ac_oidc :: "identity_provider option"

record auth_config =
  cf_client_id :: string
  cf_client_secret :: string
  cf_origins :: "string list"
  cf_ttl :: int
  cf_signing_secret :: string
  cf_oidc :: "identity_provider option"

definition ns_per_second :: int where
  "ns_per_second = 1000000000"

definition default_session_lifetime :: int where
  "default_session_lifetime = 24 * 3600 * ns_per_second"

definition default_signup_invite_lifetime :: int where
  "default_signup_invite_lifetime = 24 * 3600 * ns_per_second"

definition default_return_origins :: "string list" where
  "default_return_origins = [''http://localhost:4173'', ''http://127.0.0.1:4173'', ''http://localhost:5173'',
     ''http://127.0.0.1:5173'', ''https://staging.ai-arena.pages.dev'', ''https://ai-arena.pages.dev'']"

definition new_auth_service :: "auth_config \<Rightarrow> identity_provider \<Rightarrow> auth_error + auth_service" where
  "new_auth_service cfg github =
     (if blank (cf_client_id cfg) \<or> blank (cf_client_secret cfg) then Inl AuthConfigIncomplete
      else
        let origins = (if cf_origins cfg = [] then default_return_origins else cf_origins cfg);
            secret = trim_space (cf_signing_secret cfg)
        in Inr \<lparr>ac_allowed = filter (\<lambda>t. t \<noteq> []) (map trim_space origins),
                ac_ttl = (if cf_ttl cfg \<le> 0 then default_session_lifetime else cf_ttl cfg),
                ac_secret = (if secret = [] then trim_space (cf_client_secret cfg) else secret),
                ac_github = github, ac_oidc = cf_oidc cfg\<rparr>)"

record pending_auth =
  pa_provider :: string
  pa_nonce :: string
  pa_return :: string
  pa_invite :: string
  pa_issued :: int

datatype store_call = ResolveLogin | CreateSession | GetSession | DeleteSession | CreateInvite

record auth_env =
  au_now :: int
  au_token :: "nat \<Rightarrow> string option"            \<comment> \<open>\<open>randomToken\<close>\<close>
  au_account :: string                           \<comment> \<open>a new UUID\<close>
  au_fault :: "store_call \<Rightarrow> string option"      \<comment> \<open>the database fails\<close>
  au_parse :: "string \<Rightarrow> url option"
  au_return :: "string \<Rightarrow> string"                \<comment> \<open>the URL without fragment, an empty path replaced by \<open>/operator\<close>, printed\<close>
  au_login :: "string \<Rightarrow> string \<Rightarrow> (string \<times> string) list \<Rightarrow> string"  \<comment> \<open>scheme, host, query of \<open>/login\<close>\<close>
  au_json :: "pending_auth \<Rightarrow> string"
  au_unjson :: "string \<Rightarrow> pending_auth option"

datatype auth_body = NoBody | AuthFailed auth_error | SessionStatus "auth_principal option" bool

text \<open>The mode of the answer: without a service authentication is disabled.\<close>

record session_status =
  sn_enabled :: bool
  sn_body :: auth_body

subsection \<open>Cookies\<close>

definition session_cookie_name :: string where
  "session_cookie_name = ''arena_session''"

definition pending_cookie_name :: string where
  "pending_cookie_name = ''arena_github_oauth_pending''"

definition seconds :: "int \<Rightarrow> int" where
  "seconds d = d sdiv ns_per_second"

definition session_cookie :: "http_request \<Rightarrow> string \<Rightarrow> int \<Rightarrow> cookie" where
  "session_cookie r token ttl = \<lparr>ck_name = session_cookie_name, ck_value = token, ck_secure = is_https_request r,
     ck_same_site = session_cookie_same_site r, ck_max_age = seconds ttl\<rparr>"

definition sign_value :: "string \<Rightarrow> string \<Rightarrow> string" where
  "sign_value secret data =
     (let encoded = b64_encode data in encoded @ ''.'' @ hex (hmac_sha256 secret encoded))"

definition signed_cookie :: "auth_service \<Rightarrow> auth_env \<Rightarrow> http_request \<Rightarrow> string \<Rightarrow> pending_auth \<Rightarrow> int \<Rightarrow> cookie" where
  "signed_cookie a env r name p ttl = \<lparr>ck_name = name, ck_value = sign_value (ac_secret a) (au_json env p),
     ck_secure = is_https_request r, ck_same_site = SameSiteLax, ck_max_age = seconds ttl\<rparr>"

definition cleared_cookie :: "http_request \<Rightarrow> string \<Rightarrow> cookie" where
  "cleared_cookie r name = \<lparr>ck_name = name, ck_value = [], ck_secure = is_https_request r,
     ck_same_site = session_cookie_same_site r, ck_max_age = -1\<rparr>"

definition decode_signed_value :: "auth_service \<Rightarrow> string \<Rightarrow> auth_error + string" where
  "decode_signed_value a v =
     (case split_on (CHR ''.'') v of
        [encoded, s] \<Rightarrow>
          (case hex_decode s of
             None \<Rightarrow> Inl InvalidSignedCookie
           | Some sig \<Rightarrow>
               if sig \<noteq> hmac_sha256 (ac_secret a) encoded then Inl SignatureMismatch
               else (case b64_decode encoded of None \<Rightarrow> Inl UndecodableCookie | Some payload \<Rightarrow> Inr payload))
      | _ \<Rightarrow> Inl InvalidSignedCookie)"

definition pending_auth_of :: "auth_service \<Rightarrow> auth_env \<Rightarrow> http_request \<Rightarrow> auth_error + pending_auth" where
  "pending_auth_of a env r =
     (case map_of (hr_cookies r) pending_cookie_name of
        None \<Rightarrow> Inl NoCookie
      | Some v \<Rightarrow>
          bindR (decode_signed_value a v) (\<lambda>payload.
          case au_unjson env payload of
            None \<Rightarrow> Inl UndecodableCookie
          | Some p \<Rightarrow> Inr (if blank (pa_provider p) then p\<lparr>pa_provider := ''github''\<rparr> else p)))"

subsection \<open>Sessions and roles\<close>

definition session_principal :: "auth_env \<Rightarrow> http_request \<Rightarrow> auth_db \<Rightarrow> auth_error + auth_principal" where
  "session_principal env r db =
     (case map_of (hr_cookies r) session_cookie_name of
        None \<Rightarrow> Inl AuthenticationNeeded
      | Some v \<Rightarrow>
          let token = trim_space v in
          if token = [] then Inl AuthenticationNeeded
          else get_session (au_fault env GetSession) token (au_now env) db)"

definition has_role :: "string list \<Rightarrow> string \<Rightarrow> bool" where
  "has_role roles want \<longleftrightarrow> list_ex (\<lambda>x. x = want) roles"

text \<open>The gates: the error response, or \<open>None\<close> when the handler behind is called.\<close>

definition require_operator :: "auth_env \<Rightarrow> http_request \<Rightarrow> auth_db \<Rightarrow> (int \<times> auth_error) option" where
  "require_operator env r db =
     (case session_principal env r db of
        Inl e \<Rightarrow> Some (401, AuthenticationNeeded)
      | Inr p \<Rightarrow> if has_role (pr_roles p) ''operator'' then None else Some (403, OperatorRoleNeeded))"

definition require_authenticated :: "auth_env \<Rightarrow> http_request \<Rightarrow> auth_db \<Rightarrow> (int \<times> auth_error) option" where
  "require_authenticated env r db =
     (case session_principal env r db of Inl e \<Rightarrow> Some (401, AuthenticationNeeded) | Inr p \<Rightarrow> None)"

definition session_status_of :: "auth_service option \<Rightarrow> auth_env \<Rightarrow> http_request \<Rightarrow> auth_db \<Rightarrow> session_status" where
  "session_status_of service env r db =
     (case service of
        None \<Rightarrow> \<lparr>sn_enabled = False, sn_body = SessionStatus None False\<rparr>
      | Some a \<Rightarrow>
          \<lparr>sn_enabled = True,
           sn_body = SessionStatus (case session_principal env r db of Inl e \<Rightarrow> None | Inr p \<Rightarrow> Some p) (ac_oidc a \<noteq> None)\<rparr>)"

definition create_signup_invite :: "auth_env \<Rightarrow> string \<Rightarrow> int \<Rightarrow> auth_db \<Rightarrow> (auth_error + signup_invite) \<times> auth_db" where
  "create_signup_invite env role ttl db =
     (let role = trim_space role in
      if \<not> validate_invite_role role then (Inl InviteRoleInvalid, db)
      else if ttl < 0 then (Inl InviteTtlNegative, db)
      else
        let ttl = (if ttl = 0 then default_signup_invite_lifetime else ttl) in
        store_signup_invite (au_fault env CreateInvite) (au_token env 24) role (au_now env + ttl) db)"

definition logout :: "auth_service \<Rightarrow> auth_env \<Rightarrow> http_request \<Rightarrow> auth_db \<Rightarrow> auth_body http_response \<times> auth_db" where
  "logout a env r db =
     (let origin = trim_space (getd [] (hr_headers r) ''Origin'') in
      if origin \<noteq> [] \<and> origin \<notin> set (ac_allowed a)
      then (\<lparr>rs_status = 403, rs_location = [], rs_cookies = [], rs_body = AuthFailed OriginNotAllowed\<rparr>, db)
      else
        let db1 = (case map_of (hr_cookies r) session_cookie_name of
                     None \<Rightarrow> db
                   | Some v \<Rightarrow> if blank v then db else snd (delete_session (au_fault env DeleteSession) v db))
        in (\<lparr>rs_status = 204, rs_location = [], rs_cookies = [cleared_cookie r session_cookie_name], rs_body = NoBody\<rparr>, db1))"

subsection \<open>The login flow\<close>

definition validated_return_to :: "auth_service \<Rightarrow> auth_env \<Rightarrow> string \<Rightarrow> auth_error + string" where
  "validated_return_to a env s =
     (let s = trim_space s in
      case au_parse env s of
        None \<Rightarrow> Inl InvalidReturnTo
      | Some u \<Rightarrow>
          if ur_scheme u = [] \<or> ur_host u = [] then Inl ReturnToNotAbsolute
          else if ur_scheme u @ ''://'' @ ur_host u \<notin> set (ac_allowed a) then Inl ReturnToNotAllowed
          else Inr (au_return env s))"

definition failed :: "int \<Rightarrow> auth_error \<Rightarrow> cookie list \<Rightarrow> auth_body http_response" where
  "failed status e cookies = \<lparr>rs_status = status, rs_location = [], rs_cookies = cookies, rs_body = AuthFailed e\<rparr>"

definition redirect :: "string \<Rightarrow> cookie list \<Rightarrow> auth_body http_response" where
  "redirect location cookies = \<lparr>rs_status = 302, rs_location = location, rs_cookies = cookies, rs_body = NoBody\<rparr>"

definition start_login :: "auth_service \<Rightarrow> auth_env \<Rightarrow> string \<Rightarrow> identity_provider option \<Rightarrow> http_request \<Rightarrow>
    auth_body http_response" where
  "start_login a env name provider r =
     (case provider of
        None \<Rightarrow> failed 404 ProviderUnavailable []
      | Some op \<Rightarrow>
          (case validated_return_to a env (getd [] (hr_query r) ''return_to'') of
             Inl e \<Rightarrow> failed 400 e []
           | Inr return_to \<Rightarrow>
               (case au_token env 32 of
                  None \<Rightarrow> failed 500 NoRandom []
                | Some nonce \<Rightarrow>
                    let p = \<lparr>pa_provider = name, pa_nonce = nonce, pa_return = return_to,
                             pa_invite = trim_space (getd [] (hr_query r) ''invite_token''), pa_issued = au_now env\<rparr>
                    in redirect (op_authorize op (callback_url r name) nonce)
                         [signed_cookie a env r pending_cookie_name p (600 * ns_per_second)])))"

definition redirect_login_error :: "auth_env \<Rightarrow> http_request \<Rightarrow> pending_auth \<Rightarrow> cookie list \<Rightarrow> string \<Rightarrow> auth_body http_response" where
  "redirect_login_error env r p cookies code =
     (let cookies = cookies @ [cleared_cookie r pending_cookie_name] in
      case au_parse env (pa_return p) of
        None \<Rightarrow> failed 400 InvalidReturnTo cookies
      | Some u \<Rightarrow>
          redirect (au_login env (ur_scheme u) (ur_host u)
            ([(''return_to'', pa_return p)] @ (if blank (pa_invite p) then [] else [(''invite_token'', pa_invite p)]) @
             [(''error'', code)])) cookies)"

definition login_error_code :: "auth_error \<Rightarrow> string" where
  "login_error_code e =
     (if e = SignupInviteRequired then ''signup_invite_required''
      else if e = InvalidSignupInvite then ''signup_invite_invalid'' else ''login_failed'')"

definition complete_callback :: "auth_service \<Rightarrow> auth_env \<Rightarrow> string \<Rightarrow> identity_provider option \<Rightarrow> http_request \<Rightarrow> auth_db \<Rightarrow>
    auth_body http_response \<times> auth_db" where
  "complete_callback a env name provider r db =
     (case pending_auth_of a env r of
        Inl e \<Rightarrow> (failed 400 e [], db)
      | Inr p \<Rightarrow>
          let state = trim_space (getd [] (hr_query r) ''state''); code = trim_space (getd [] (hr_query r) ''code'') in
          if state = [] \<or> state \<noteq> pa_nonce p
          then (redirect_login_error env r p [cleared_cookie r pending_cookie_name] ''oauth_state_mismatch'', db)
          else if code = [] then (redirect_login_error env r p [] ''missing_code'', db)
          else case provider of
            None \<Rightarrow> (redirect_login_error env r p [] ''login_failed'', db)
          | Some op \<Rightarrow>
              if pa_provider p \<noteq> name then (redirect_login_error env r p [] ''login_failed'', db)
              else case op_exchange op code (callback_url r (pa_provider p)) of
                Inl (LookupFailed e) \<Rightarrow> (redirect_login_error env r p [] ''github_profile_failed'', db)
              | Inl (ExchangeFailed e) \<Rightarrow> (redirect_login_error env r p [] ''token_exchange_failed'', db)
              | Inr identity \<Rightarrow>
                  (case resolve_identity_login (au_fault env ResolveLogin) (au_account env) identity (pa_invite p) (au_now env) db of
                     (Inl e, db1) \<Rightarrow> (redirect_login_error env r p [] (login_error_code e), db1)
                   | (Inr who, db1) \<Rightarrow>
                       (case create_session (au_fault env CreateSession) (au_token env 32) (pr_account who)
                               (au_now env + ac_ttl a) db1 of
                          (Inl e, db2) \<Rightarrow> (failed 500 e [], db2)
                        | (Inr token, db2) \<Rightarrow>
                            (redirect (pa_return p)
                               [cleared_cookie r pending_cookie_name, session_cookie r token (ac_ttl a)], db2))))"

section \<open>The identity providers\<close>

text \<open>
  \<open>DefaultGitHubAuthProvider\<close>: the token exchange of the OAuth library and the profile request with its
  decoded answer are arguments.
\<close>

record github_user =
  gu_status :: int
  gu_body :: "(int \<times> string \<times> string) option"   \<comment> \<open>id, login and email, \<open>None\<close> when it does not decode\<close>

definition fetch_user :: "(string \<Rightarrow> github_user option) \<Rightarrow> string \<Rightarrow> auth_identity option" where
  "fetch_user get access_token =
     (case get (''Bearer '' @ trim_space access_token) of
        None \<Rightarrow> None
      | Some resp \<Rightarrow>
          if gu_status resp < 200 \<or> gu_status resp \<ge> 300 then None
          else (case gu_body resp of
              None \<Rightarrow> None
            | Some (uid, login, email) \<Rightarrow>
                if uid = 0 \<or> blank login then None
                else Some \<lparr>ai_provider = ''github'', ai_subject = itoa uid, ai_login = login, ai_email = email\<rparr>))"

definition github_exchange :: "(string \<Rightarrow> string \<Rightarrow> string option) \<Rightarrow> (string \<Rightarrow> github_user option) \<Rightarrow>
    string \<Rightarrow> string \<Rightarrow> exchange_error + auth_identity" where
  "github_exchange exchange get code redirect_uri =
     (case exchange (trim_space code) (trim_space redirect_uri) of
        None \<Rightarrow> Inl (ExchangeFailed ''exchange'')
      | Some token \<Rightarrow>
          if blank token then Inl (ExchangeFailed ''empty access token'')
          else (case fetch_user get token of
              None \<Rightarrow> Inl (LookupFailed ''user'')
            | Some i \<Rightarrow> Inr i))"

record oidc_claims =
  oc_subject :: string
  oc_email :: string
  oc_name :: string
  oc_username :: string

definition normalized_oidc_identity :: "(string \<Rightarrow> oidc_claims option) \<Rightarrow> string \<Rightarrow> string \<Rightarrow> auth_identity option" where
  "normalized_oidc_identity verify provider id_token =
     (case verify (trim_space id_token) of
        None \<Rightarrow> None
      | Some c \<Rightarrow>
          let login = (if trim_space (oc_username c) = [] then trim_space (oc_name c) else trim_space (oc_username c)) in
          if blank provider \<or> blank (oc_subject c) \<or> login = [] then None
          else Some \<lparr>ai_provider = trim_space provider, ai_subject = trim_space (oc_subject c), ai_login = login,
                     ai_email = trim_space (oc_email c)\<rparr>)"

text \<open>The exchange gives the ID token, \<open>None\<close> when it fails or carries none.\<close>

definition oidc_exchange :: "(string \<Rightarrow> string \<Rightarrow> string option) \<Rightarrow> (string \<Rightarrow> oidc_claims option) \<Rightarrow>
    string \<Rightarrow> string \<Rightarrow> exchange_error + auth_identity" where
  "oidc_exchange exchange verify code redirect_uri =
     (case exchange (trim_space code) (trim_space redirect_uri) of
        None \<Rightarrow> Inl (ExchangeFailed ''exchange'')
      | Some t \<Rightarrow>
          if blank t then Inl (ExchangeFailed ''no id token'')
          else (case normalized_oidc_identity verify ''local-oidc'' t of
              None \<Rightarrow> Inl (ExchangeFailed ''identity'')
            | Some i \<Rightarrow> Inr i))"

end
