(* ===== verification/Http.thy ===== *)
theory Http
  imports Auth Requests Query
begin

text \<open>
  The operator API (\<open>internal/platform/service/http.go\<close>): the routes with their gates, the handlers over
  the modelled services, the mapping of errors to status codes and the headers for other origins. What a
  request carries beside its headers (decoded bodies, uploaded files) is part of the request. The text
  that \<open>net/http\<close> itself writes into its 404, 405 and redirect answers is \<open>Empty\<close>.
\<close>

section \<open>Errors and status codes\<close>

datatype api_error =
  ServiceFailed service_error | GeneralFailed general_error | RequestFailed request_error | BotFailed bot_error
| RankingUnavailable ranking_error | QueryFailed query_error | BundleRefused game_bundle_error | StoreRefused save_error
| AuthRefused auth_error | BadBody | ScopeIDRequired | RunIDMissingInPath | RankingScopeRequired | UploadDisabled
| BundleFileRequired | InviteTtlInvalid | ScopeAndBotsRequired | BundleUnreadableForBot store_error
| BundleInvalidForBot bundle_error | BundleNotForScope | MethodNotAllowedError | IssueFailed

text \<open>\<open>errors.Is\<close> with the four errors that mean a missing record.\<close>

fun service_not_found :: "service_error \<Rightarrow> bool" where
  "service_not_found (QueueFailure e) = (e = RecordNotFound)"
| "service_not_found (RefreshFailure e) = (e = SnapshotNotFound)"
| "service_not_found (BadRequest e) = service_not_found e"
| "service_not_found (Conflict e) = service_not_found e"
| "service_not_found _ = False"

fun service_conflict :: "service_error \<Rightarrow> bool" where
  "service_conflict (Conflict e) = True"
| "service_conflict (BadRequest e) = service_conflict e"
| "service_conflict (QueueFailure e) = (e = OnlyCompletedPromoted)"
| "service_conflict _ = False"

fun service_bad :: "service_error \<Rightarrow> bool" where
  "service_bad (BadRequest e) = True"
| "service_bad (Conflict e) = service_bad e"
| "service_bad _ = False"

fun general_not_found :: "general_error \<Rightarrow> bool" where
  "general_not_found (GeneralBad e) = general_not_found e"
| "general_not_found (GeneralConflict e) = general_not_found e"
| "general_not_found (GameLookup e) = (e = NotRegistered)"
| "general_not_found (AISave e) = (e = NotRegistered)"
| "general_not_found (GameSave e) = (e = NotRegistered)"
| "general_not_found _ = False"

fun general_conflict :: "general_error \<Rightarrow> bool" where
  "general_conflict (GeneralConflict e) = True"
| "general_conflict (GeneralBad e) = general_conflict e"
| "general_conflict _ = False"

fun general_bad :: "general_error \<Rightarrow> bool" where
  "general_bad (GeneralBad e) = True"
| "general_bad (GeneralConflict e) = general_bad e"
| "general_bad _ = False"

definition bot_conflict :: "bot_error \<Rightarrow> bool" where
  "bot_conflict e \<longleftrightarrow> e = BotNameTaken"

definition bot_bad :: "bot_error \<Rightarrow> bool" where
  "bot_bad e \<longleftrightarrow> e \<in> {OwnershipFieldsMissing, QuotaNotPositive, NotActiveOwned, BotNameMissing, NotOwnedByPrincipal, NotEligible}"

fun request_not_found :: "request_error \<Rightarrow> bool" where
  "request_not_found (RequestBad e) = request_not_found e"
| "request_not_found (RequestConflict e) = request_not_found e"
| "request_not_found (RequestGame e) = (e = NotRegistered)"
| "request_not_found (RequestAI e) = (e = NotRegistered)"
| "request_not_found (RequestSubmit e) = service_not_found e"
| "request_not_found (RequestQueue e) = (e = RecordNotFound)"
| "request_not_found (RollbackFailed e rid cause) = request_not_found e"
| "request_not_found _ = False"

fun request_conflict :: "request_error \<Rightarrow> bool" where
  "request_conflict (RequestBad e) = request_conflict e"
| "request_conflict (RequestConflict e) = True"
| "request_conflict (RequestBots e) = bot_conflict e"
| "request_conflict (RequestSubmit e) = service_conflict e"
| "request_conflict (RollbackFailed e rid cause) = request_conflict e"
| "request_conflict _ = False"

fun request_bad :: "request_error \<Rightarrow> bool" where
  "request_bad (RequestBad e) = True"
| "request_bad (RequestConflict e) = request_bad e"
| "request_bad (RequestBots e) = bot_bad e"
| "request_bad (RequestSubmit e) = service_bad e"
| "request_bad (RollbackFailed e rid cause) = request_bad e"
| "request_bad _ = False"

fun is_not_found :: "api_error \<Rightarrow> bool" where
  "is_not_found (ServiceFailed e) = service_not_found e"
| "is_not_found (GeneralFailed e) = general_not_found e"
| "is_not_found (RequestFailed e) = request_not_found e"
| "is_not_found (RankingUnavailable e) = (e = SnapshotNotFound)"
| "is_not_found (QueryFailed e) = (e = QueryQueue RecordNotFound)"
| "is_not_found (StoreRefused e) = (e = NotRegistered)"
| "is_not_found _ = False"

fun is_conflict :: "api_error \<Rightarrow> bool" where
  "is_conflict (ServiceFailed e) = service_conflict e"
| "is_conflict (GeneralFailed e) = general_conflict e"
| "is_conflict (RequestFailed e) = request_conflict e"
| "is_conflict (BotFailed e) = bot_conflict e"
| "is_conflict _ = False"

fun is_bad_request :: "api_error \<Rightarrow> bool" where
  "is_bad_request (ServiceFailed e) = service_bad e"
| "is_bad_request (GeneralFailed e) = general_bad e"
| "is_bad_request (RequestFailed e) = request_bad e"
| "is_bad_request (BotFailed e) = bot_bad e"
| "is_bad_request _ = False"

definition status_code_for_service_error :: "api_error \<Rightarrow> int" where
  "status_code_for_service_error e =
     (if is_not_found e then 404 else if is_conflict e then 409 else if is_bad_request e then 400 else 500)"

section \<open>Requests, answers and the API\<close>

datatype upload = UploadMalformed | UploadWithoutFile | UploadUnreadable | Uploaded string

text \<open>The body of a request as each handler decodes it, \<open>None\<close> when it does not decode.\<close>

record request_body =
  bd_invite :: "(string \<times> string) option"         \<comment> \<open>role and ttl\<close>
  bd_game :: "game_request option"
  bd_ai :: "ai_request option"
  bd_match :: "create_request option"
  bd_bot :: "(string \<times> revision_request) option"    \<comment> \<open>the \<open>scope_id\<close> beside the request\<close>
  bd_upload :: upload
  bd_form :: "string gomap"

record access_metadata =
  am_locator :: string
  am_url :: string
  am_issuer :: string
  am_status :: string

datatype api_body =
  AuthAnswer auth_body | SessionAnswer session_status | ErrorAnswer api_error | Empty
| Health bool | VersionAnswer string | Invite signup_invite string | Games "registered_game list" | Game registered_game
| AIs "registered_ai list" | AI registered_ai | GameBundle descriptor_record | MatchRequests "match_request list"
| Requested match_request | Eligible "eligible_bot list" | Bots "owned_bot list" | Revised owned_bot bot_revision
| Retired owned_bot | Ranking ranking_snapshot | Run result_list_item | Runs "result_list_item list"
| Detail match_detail "access_metadata gomap"

type_synonym reply = "int \<times> api_body"

record 'x site =
  si_auth :: auth_db
  si_arena :: "'x arena_state service"

record ('x, 'h) operator_api =
  oa_auth :: "auth_service option"
  oa_commands :: "'x arena_state service commands"
  oa_general :: "('x, 'h) general_env"
  oa_with_bots :: bool
  oa_rankings :: "'x arena_state service ranking_env option"
  oa_reader :: reader
  oa_locators :: locator_env
  oa_admits_games :: bool
  oa_version :: string
  oa_ready :: "bool option"

text \<open>What is generated for one request, and \<open>time.ParseDuration\<close>.\<close>

record api_env =
  ae_auth :: auth_env
  ae_ids :: fresh_ids
  ae_ai :: string
  ae_bot :: string
  ae_lower :: "string \<Rightarrow> string"
  ae_duration :: "string \<Rightarrow> int option"
  ae_invite_url :: "string \<Rightarrow> string"

definition refuse :: "int \<Rightarrow> api_error \<Rightarrow> reply" where
  "refuse status e = (status, ErrorAnswer e)"

definition refuse_service :: "api_error \<Rightarrow> reply" where
  "refuse_service e = refuse (status_code_for_service_error e) e"

section \<open>Access to artifacts\<close>

definition add_artifact_path :: "string \<Rightarrow> string \<Rightarrow> string gomap \<Rightarrow> string gomap" where
  "add_artifact_path kind path m = (if blank path then m else put kind path m)"

definition is_direct_download_url :: "locator_env \<Rightarrow> string \<Rightarrow> bool" where
  "is_direct_download_url env l =
     (case le_url env l of None \<Rightarrow> False | Some u \<Rightarrow> ur_scheme u = ''http'' \<or> ur_scheme u = ''https'')"

definition access_of :: "locator_env \<Rightarrow> string \<Rightarrow> access_metadata" where
  "access_of env l =
     (if is_direct_download_url env l
      then \<lparr>am_locator = l, am_url = l, am_issuer = ''direct'', am_status = ''delegated''\<rparr>
      else \<lparr>am_locator = l, am_url = [], am_issuer = ''locator-only'', am_status = ''locator-only''\<rparr>)"

definition issue_access :: "locator_env \<Rightarrow> match_detail \<Rightarrow> access_metadata gomap" where
  "issue_access env d =
     (let m = add_artifact_path ''result-summary'' (rl_summary_path (md_item d)) [];
          m = add_artifact_path ''record'' (md_record d) m;
          m = (case md_inputs d of None \<Rightarrow> m
               | Some i \<Rightarrow> add_artifact_path ''exported-snapshot'' (ri_exported i)
                            (add_artifact_path ''history'' (ri_history i) (add_artifact_path ''snapshot'' (ri_snapshot i) m)));
          m = fold (\<lambda>(player, path). add_artifact_path (''stderr:'' @ player) path) (md_stderr d) m
      in map (map_prod id (access_of env)) m)"

section \<open>Origins\<close>

definition allowed_operator_origins :: "string list" where
  "allowed_operator_origins = [''https://staging.ai-arena.pages.dev'', ''https://ai-arena.pages.dev'']"

text \<open>\<open>strings.ToLower\<close>: no letter outside ASCII folds to one of the two names.\<close>

definition lower_header :: "string \<Rightarrow> string" where
  "lower_header s = map ascii_lower s"

definition cors_request_headers_allowed :: "string \<Rightarrow> bool" where
  "cors_request_headers_allowed s \<longleftrightarrow>
     list_all (\<lambda>h. let h = lower_header (trim_space h) in h \<in> {[], ''content-type'', ''x-ms-useragent''}) (split_on (CHR '','') s)"

definition cors_headers :: "http_request \<Rightarrow> (string \<times> string) list" where
  "cors_headers r =
     (let origin = trim_space (getd [] (hr_headers r) ''Origin'') in
      if origin = [] \<or> origin \<notin> set allowed_operator_origins then []
      else if hr_method r = ''OPTIONS'' \<and>
              \<not> cors_request_headers_allowed (getd [] (hr_headers r) ''Access-Control-Request-Headers'') then []
      else [(''Vary'', ''Origin''), (''Access-Control-Allow-Origin'', origin),
            (''Access-Control-Allow-Methods'', ''GET, POST, OPTIONS''),
            (''Access-Control-Allow-Headers'', ''Content-Type, x-ms-useragent''),
            (''Access-Control-Allow-Credentials'', ''true'')])"

section \<open>Handlers\<close>

text \<open>Operations on parts of the site.\<close>

definition on_auth :: "(auth_db \<Rightarrow> 'a \<times> auth_db) \<Rightarrow> 'x site \<Rightarrow> 'a \<times> 'x site" where
  "on_auth f s = (case f (si_auth s) of (a, db) \<Rightarrow> (a, s\<lparr>si_auth := db\<rparr>))"

definition on_arena :: "('x arena_state service \<Rightarrow> 'a \<times> 'x arena_state service) \<Rightarrow> 'x site \<Rightarrow> 'a \<times> 'x site" where
  "on_arena f s = (case f (si_arena s) of (a, w) \<Rightarrow> (a, s\<lparr>si_arena := w\<rparr>))"

definition on_general :: "('x general_world \<Rightarrow> 'a \<times> 'x general_world) \<Rightarrow> 'x site \<Rightarrow> 'a \<times> 'x site" where
  "on_general f = on_arena (\<lambda>w. case f (as_general (sv_rest w)) of
     (a, g) \<Rightarrow> (a, w\<lparr>sv_rest := (sv_rest w)\<lparr>as_general := g\<rparr>\<rparr>))"

definition on_bots :: "(bot_store \<Rightarrow> 'a \<times> bot_store) \<Rightarrow> 'x site \<Rightarrow> 'a \<times> 'x site" where
  "on_bots f = on_arena (\<lambda>w. case f (as_bots (sv_rest w)) of
     (a, b) \<Rightarrow> (a, w\<lparr>sv_rest := (sv_rest w)\<lparr>as_bots := b\<rparr>\<rparr>))"

abbreviation site_general :: "'x site \<Rightarrow> 'x general_world" where
  "site_general s \<equiv> as_general (sv_rest (si_arena s))"

abbreviation site_bots :: "'x site \<Rightarrow> bot_store" where
  "site_bots s \<equiv> as_bots (sv_rest (si_arena s))"

definition handle_eligible_bots :: "('x, 'h) operator_api \<Rightarrow> http_request \<Rightarrow> 'x site \<Rightarrow> reply" where
  "handle_eligible_bots api r s =
     (let scope = trim_space (getd [] (hr_query r) ''scope_id'') in
      if \<not> oa_with_bots api then refuse 404 (BotFailed BotNotFound)
      else if scope = [] then refuse 400 ScopeIDRequired
      else (200, Eligible (list_eligible scope (site_bots s))))"

definition handle_bots :: "('x, 'h) operator_api \<Rightarrow> api_env \<Rightarrow> http_request \<Rightarrow> 'x site \<Rightarrow> reply" where
  "handle_bots api env r s =
     (if \<not> oa_with_bots api \<or> oa_auth api = None then refuse 404 (BotFailed BotNotFound)
      else case session_principal (ae_auth env) r (si_auth s) of
        Inl e \<Rightarrow> refuse 401 (AuthRefused e)
      | Inr p \<Rightarrow>
          let scope = trim_space (getd [] (hr_query r) ''scope_id'') in
          if scope = [] then refuse 400 ScopeIDRequired
          else (200, Bots (list_by_owner (pr_account p) scope (getd [] (hr_query r) ''include_retired'' = ''true'') (site_bots s))))"

text \<open>The request that the bundle and the registration of the scope make of the one in the body.\<close>

definition bot_request :: "('x, 'h) operator_api \<Rightarrow> string \<Rightarrow> revision_request \<Rightarrow> 'x general_world \<Rightarrow> (int \<times> api_error) + revision_request" where
  "bot_request api scope_id req w =
     (case get_item scope_id (gw_games w) of
        Inl e \<Rightarrow> Inl (status_code_for_service_error (StoreRefused e), StoreRefused e)
      | Inr scope \<Rightarrow>
     (case ad_store (ge_admission (oa_general api)) of
        None \<Rightarrow> Inl (400, UploadDisabled)
      | Some st \<Rightarrow>
     (case bs_read st (vr_artifact req) (gw_rest w) of
        Inl e \<Rightarrow> Inl (400, BundleUnreadableForBot e)
      | Inr data \<Rightarrow>
     (case read_bundle (ad_bundle (ge_admission (oa_general api))) data of
        Inl e \<Rightarrow> Inl (400, BundleInvalidForBot e)
      | Inr b \<Rightarrow>
          let m = bd_manifest b in
          (case (major_version (mf_version m), major_version (gm_game_version (gr_game scope))) of
             (Some major, Some expected) \<Rightarrow>
               if mf_kind m \<noteq> ''ai'' \<or> mf_game m \<noteq> gm_game_id (gr_game scope) \<or> major \<noteq> expected
               then Inl (400, BundleNotForScope)
               else Inr (req\<lparr>vr_scope := \<lparr>cs_scope = gr_id scope, cs_game = gm_game_id (gr_game scope), cs_major = expected,
                      cs_ruleset = gm_ruleset (gr_game scope), cs_max = gr_max_bots scope\<rparr>\<rparr>)
           | _ \<Rightarrow> Inl (400, BundleNotForScope))))))"

definition handle_bot_revision :: "('x, 'h) operator_api \<Rightarrow> api_env \<Rightarrow> http_request \<Rightarrow> request_body \<Rightarrow> 'x site \<Rightarrow> reply \<times> 'x site" where
  "handle_bot_revision api env r body s =
     (if \<not> oa_with_bots api \<or> oa_auth api = None then (refuse 404 (BotFailed BotNotFound), s)
      else case session_principal (ae_auth env) r (si_auth s) of
        Inl e \<Rightarrow> (refuse 401 (AuthRefused e), s)
      | Inr p \<Rightarrow>
          (case bd_bot body of
             None \<Rightarrow> (refuse 400 BadBody, s)
           | Some (scope_id, req0) \<Rightarrow>
               let req = req0\<lparr>vr_owner := pr_account p\<rparr>;
                   scope = (if cs_scope (vr_scope req) = [] then scope_id else cs_scope (vr_scope req))
               in (case bot_request api scope req (site_general s) of
                     Inl (status, e) \<Rightarrow> (refuse status e, s)
                   | Inr req1 \<Rightarrow>
                       (case on_bots (create_or_revise (ae_lower env) (ae_bot env) (ae_ai env) (au_now (ae_auth env)) req1) s of
                          (Inl e, s1) \<Rightarrow> (refuse_service (BotFailed e), s1)
                        | (Inr (b, revn), s1) \<Rightarrow> ((201, Revised b revn), s1)))))"

definition handle_bot_retire :: "('x, 'h) operator_api \<Rightarrow> api_env \<Rightarrow> http_request \<Rightarrow> string \<Rightarrow> 'x site \<Rightarrow> reply \<times> 'x site" where
  "handle_bot_retire api env r bid s =
     (if \<not> oa_with_bots api \<or> oa_auth api = None then (refuse 404 (BotFailed BotNotFound), s)
      else case session_principal (ae_auth env) r (si_auth s) of
        Inl e \<Rightarrow> (refuse 401 (AuthRefused e), s)
      | Inr p \<Rightarrow>
          (case on_bots (retire (pr_account p) bid) s of
             (Inl e, s1) \<Rightarrow> (refuse_service (BotFailed e), s1)
           | (Inr b, s1) \<Rightarrow> ((200, Retired b), s1)))"

text \<open>The file of a multipart form.\<close>

definition uploaded_file :: "request_body \<Rightarrow> api_error + string" where
  "uploaded_file body =
     (case bd_upload body of
        UploadMalformed \<Rightarrow> Inl BadBody
      | UploadWithoutFile \<Rightarrow> Inl BundleFileRequired
      | UploadUnreadable \<Rightarrow> Inl BadBody
      | Uploaded data \<Rightarrow> Inr data)"

definition handle_ai_bundle_upload :: "('x, 'h) operator_api \<Rightarrow> api_env \<Rightarrow> request_body \<Rightarrow> 'x site \<Rightarrow> reply \<times> 'x site" where
  "handle_ai_bundle_upload api env body s =
     (if ad_store (ge_admission (oa_general api)) = None then (refuse 404 UploadDisabled, s)
      else case uploaded_file body of
        Inl e \<Rightarrow> (refuse 400 e, s)
      | Inr data \<Rightarrow>
          (case on_general (register_ai_bundle (oa_general api) (ae_ai env)
                  \<lparr>aq_id = [], aq_registration = getd [] (bd_form body) ''game_registration_id'', aq_ref = [],
                   aq_name = getd [] (bd_form body) ''display_name''\<rparr> data) s of
             (Inl e, s1) \<Rightarrow> (refuse_service (GeneralFailed e), s1)
           | (Inr ai, s1) \<Rightarrow> ((201, AI ai), s1)))"

text \<open>The admission of game bundles shares the store of bundles and the registry.\<close>

definition on_rest :: "('x \<Rightarrow> 'a \<times> 'x) \<Rightarrow> 'x site \<Rightarrow> 'a \<times> 'x site" where
  "on_rest f = on_general (\<lambda>g. case f (gw_rest g) of (a, x) \<Rightarrow> (a, g\<lparr>gw_rest := x\<rparr>))"

definition handle_game_bundle_upload :: "('x, 'h) operator_api \<Rightarrow> request_body \<Rightarrow> 'x site \<Rightarrow> reply \<times> 'x site" where
  "handle_game_bundle_upload api body s =
     (case (oa_admits_games api, ad_store (ge_admission (oa_general api))) of
        (True, Some st) \<Rightarrow>
          (case uploaded_file body of
             Inl e \<Rightarrow> (refuse 400 e, s)
           | Inr data \<Rightarrow>
               (case on_rest (register_game_bundle (ad_bundle (ge_admission (oa_general api))) st (ge_registry (oa_general api)) data) s of
                  (Inl e, s1) \<Rightarrow> (refuse_service (BundleRefused e), s1)
                | (Inr d, s1) \<Rightarrow> ((201, GameBundle d), s1)))
      | _ \<Rightarrow> (refuse 404 UploadDisabled, s))"

definition handle_signup_invites :: "('x, 'h) operator_api \<Rightarrow> api_env \<Rightarrow> request_body \<Rightarrow> 'x site \<Rightarrow> reply \<times> 'x site" where
  "handle_signup_invites api env body s =
     (if oa_auth api = None then (refuse 503 (AuthRefused AuthDisabled), s)
      else case bd_invite body of
        None \<Rightarrow> (refuse 400 BadBody, s)
      | Some (role0, ttl0) \<Rightarrow>
          let role = trim_space role0 in
          if \<not> validate_invite_role role then (refuse 400 (AuthRefused InviteRoleInvalid), s)
          else case (if blank ttl0 then Some default_signup_invite_lifetime else ae_duration env (trim_space ttl0)) of
            None \<Rightarrow> (refuse 400 BadBody, s)
          | Some ttl \<Rightarrow>
              if \<not> blank ttl0 \<and> ttl \<le> 0 then (refuse 400 InviteTtlInvalid, s)
              else case on_auth (create_signup_invite (ae_auth env) role ttl) s of
                (Inl e, s1) \<Rightarrow> (refuse_service (AuthRefused e), s1)
              | (Inr invite, s1) \<Rightarrow> ((201, Invite invite (ae_invite_url env (trim_space (si_token invite)))), s1))"

definition handle_game_registrations :: "('x, 'h) operator_api \<Rightarrow> http_request \<Rightarrow> request_body \<Rightarrow> 'x site \<Rightarrow> reply \<times> 'x site" where
  "handle_game_registrations api r body s =
     (if hr_method r = ''GET'' then ((200, Games (list_items (gw_games (site_general s)))), s)
      else if hr_method r = ''POST'' then
        (case bd_game body of
           None \<Rightarrow> (refuse 400 BadBody, s)
         | Some req \<Rightarrow>
             (case on_general (register_game (oa_general api) req) s of
                (Inl e, s1) \<Rightarrow> (refuse_service (GeneralFailed e), s1)
              | (Inr g, s1) \<Rightarrow> ((201, Game g), s1)))
      else (refuse 405 MethodNotAllowedError, s))"

definition handle_ai_submissions :: "('x, 'h) operator_api \<Rightarrow> api_env \<Rightarrow> http_request \<Rightarrow> request_body \<Rightarrow> 'x site \<Rightarrow> reply \<times> 'x site" where
  "handle_ai_submissions api env r body s =
     (if hr_method r = ''GET'' then ((200, AIs (list_items (gw_ais (site_general s)))), s)
      else if hr_method r = ''POST'' then
        (case bd_ai body of
           None \<Rightarrow> (refuse 400 BadBody, s)
         | Some req \<Rightarrow>
             (case on_general (register_ai (oa_general api) (ae_ai env) req) s of
                (Inl e, s1) \<Rightarrow> (refuse_service (GeneralFailed e), s1)
              | (Inr ai, s1) \<Rightarrow> ((201, AI ai), s1)))
      else (refuse 405 MethodNotAllowedError, s))"

definition request_env_of :: "('x, 'h) operator_api \<Rightarrow> 'x arena_state service request_env" where
  "request_env_of api =
     (memory_request_env (oa_commands api))\<lparr>re_bots := (if oa_with_bots api
        then re_bots (memory_request_env (oa_commands api)) else None)\<rparr>"

definition handle_match_requests :: "('x, 'h) operator_api \<Rightarrow> api_env \<Rightarrow> http_request \<Rightarrow> request_body \<Rightarrow> 'x site \<Rightarrow> reply \<times> 'x site" where
  "handle_match_requests api env r body s =
     (if hr_method r = ''GET'' then
        (case list_match_requests (request_env_of api) (si_arena s) of
           Inl e \<Rightarrow> (refuse 500 (RequestFailed e), s)
         | Inr items \<Rightarrow> ((200, MatchRequests items), s))
      else if hr_method r = ''POST'' then
        (case bd_match body of
           None \<Rightarrow> (refuse 400 BadBody, s)
         | Some req \<Rightarrow>
             if oa_with_bots api \<and> (blank (cq_scope req) \<or> cq_bots req = []) \<and>
                isl (get_item (trim_space (cq_registration req)) (gw_games (site_general s)))
             then (refuse 400 ScopeAndBotsRequired, s)
             else (case on_arena (create_match_request (request_env_of api) (ae_ids env) req) s of
                (Inl e, s1) \<Rightarrow> (refuse_service (RequestFailed e), s1)
              | (Inr (item, q), s1) \<Rightarrow> ((201, Requested item), s1)))
      else (refuse 405 MethodNotAllowedError, s))"

definition handle_rankings :: "('x, 'h) operator_api \<Rightarrow> http_request \<Rightarrow> 'x site \<Rightarrow> reply" where
  "handle_rankings api r s =
     (case oa_rankings api of
        None \<Rightarrow> refuse 404 (RankingUnavailable SnapshotNotFound)
      | Some env \<Rightarrow>
          let scope = \<lparr>ks_game = trim_space (getd [] (hr_query r) ''game_id''),
                       ks_version = trim_space (getd [] (hr_query r) ''game_version''),
                       ks_ruleset = trim_space (getd [] (hr_query r) ''ruleset_version'')\<rparr>
          in if ks_game scope = [] \<or> ks_version scope = [] \<or> ks_ruleset scope = [] then refuse 400 RankingScopeRequired
             else case ranking_get env scope (si_arena s) of
               Inl e \<Rightarrow> refuse_service (RankingUnavailable e)
             | Inr (snapshot, _) \<Rightarrow> (200, Ranking snapshot))"

text \<open>A run command answers with the list item of the run.\<close>

definition handle_run_command :: "('x, 'h) operator_api \<Rightarrow> int \<Rightarrow>
    ('x arena_state service \<Rightarrow> (service_error + queue_record) \<times> 'x arena_state service) \<Rightarrow> 'x site \<Rightarrow> reply \<times> 'x site" where
  "handle_run_command api status command s =
     (case on_arena command s of
        (Inl e, s1) \<Rightarrow> (refuse_service (ServiceFailed e), s1)
      | (Inr q, s1) \<Rightarrow>
          (case build_result_list_item (oa_reader api) q of
             Inl e \<Rightarrow> (refuse 500 (QueryFailed e), s1)
           | Inr (item, _) \<Rightarrow> ((status, Run item), s1)))"

definition handle_match_list :: "('x, 'h) operator_api \<Rightarrow> lifecycle_state list \<Rightarrow> 'x site \<Rightarrow> reply" where
  "handle_match_list api allowed s =
     (case query_list (cm_queue (oa_commands api)) (oa_reader api) (si_arena s) of
        Inl e \<Rightarrow> refuse 500 (QueryFailed e)
      | Inr items \<Rightarrow> (200, Runs (filter (\<lambda>i. rl_state i \<in> set allowed) items)))"

definition active_states :: "lifecycle_state list" where
  "active_states = [StateQueued, StateLeased, StateRunning, StatePersisting]"

definition completed_states :: "lifecycle_state list" where
  "completed_states = [StateCompleted, StateFailed, StateCanceled]"

definition handle_match_detail :: "('x, 'h) operator_api \<Rightarrow> string \<Rightarrow> 'x site \<Rightarrow> reply" where
  "handle_match_detail api rid s =
     (let rid = trim_space rid in
      if rid = [] then refuse 400 RunIDMissingInPath
      else case query_get (oa_locators api) (cm_queue (oa_commands api)) (oa_reader api) rid (si_arena s) of
        Inl e \<Rightarrow> refuse_service (QueryFailed e)
      | Inr d \<Rightarrow> (200, Detail d (issue_access (oa_locators api) d)))"

section \<open>Routes\<close>

datatype endpoint =
  ToHealth | ToVersion | ToSession | ToGitHubLogin | ToGitHubCallback | ToOidcLogin | ToOidcCallback | ToLogout
| ToBots | ToBotRevision | ToBotRetire | ToInvites | ToGames | ToAIs | ToAIBundles | ToGameBundles | ToMatchRequests
| ToEligible | ToRankings | ToCancel | ToRetry | ToRerun | ToPromote | ToActive | ToCompleted | ToDetail

datatype segment_pattern = Lit string | Wild

type_synonym routes = "(string \<times> segment_pattern list \<times> endpoint) list"

text \<open>
  The patterns of the two multiplexers, each with its method, empty for all. The arms of the first one
  under \<open>/api/v1/bots\<close> are more specific than the subtree \<open>/api/v1/\<close> and go first.
\<close>

definition open_routes :: "bool \<Rightarrow> routes" where
  "open_routes with_auth =
     [(''GET'', [Lit ''healthz''], ToHealth),
      (''GET'', [Lit ''version''], ToVersion),
      (''GET'', [Lit ''auth'', Lit ''session''], ToSession)] @
     (if with_auth then
     [(''GET'', [Lit ''auth'', Lit ''github'', Lit ''login''], ToGitHubLogin),
      (''GET'', [Lit ''auth'', Lit ''github'', Lit ''callback''], ToGitHubCallback),
      (''GET'', [Lit ''auth'', Lit ''local-oidc'', Lit ''login''], ToOidcLogin),
      (''GET'', [Lit ''auth'', Lit ''local-oidc'', Lit ''callback''], ToOidcCallback),
      (''POST'', [Lit ''auth'', Lit ''logout''], ToLogout),
      (''GET'', [Lit ''api'', Lit ''v1'', Lit ''bots''], ToBots),
      (''POST'', [Lit ''api'', Lit ''v1'', Lit ''bots''], ToBotRevision),
      (''POST'', [Lit ''api'', Lit ''v1'', Lit ''bots'', Wild, Lit ''retire''], ToBotRetire)] else [])"

definition protected_routes :: routes where
  "protected_routes =
     [(''POST'', [Lit ''api'', Lit ''v1'', Lit ''signup-invites''], ToInvites),
      ([], [Lit ''api'', Lit ''v1'', Lit ''game-registrations''], ToGames),
      ([], [Lit ''api'', Lit ''v1'', Lit ''ai-submissions''], ToAIs),
      (''POST'', [Lit ''api'', Lit ''v1'', Lit ''ai-bundles''], ToAIBundles),
      (''POST'', [Lit ''api'', Lit ''v1'', Lit ''game-bundles''], ToGameBundles),
      ([], [Lit ''api'', Lit ''v1'', Lit ''match-requests''], ToMatchRequests),
      (''GET'', [Lit ''api'', Lit ''v1'', Lit ''eligible-bots''], ToEligible),
      (''GET'', [Lit ''api'', Lit ''v1'', Lit ''rankings''], ToRankings),
      (''POST'', [Lit ''api'', Lit ''v1'', Lit ''runs'', Wild, Lit ''cancel''], ToCancel),
      (''POST'', [Lit ''api'', Lit ''v1'', Lit ''runs'', Wild, Lit ''retry''], ToRetry),
      (''POST'', [Lit ''api'', Lit ''v1'', Lit ''runs'', Wild, Lit ''rerun''], ToRerun),
      (''POST'', [Lit ''api'', Lit ''v1'', Lit ''runs'', Wild, Lit ''promote''], ToPromote),
      (''GET'', [Lit ''api'', Lit ''v1'', Lit ''matches'', Lit ''active''], ToActive),
      (''GET'', [Lit ''api'', Lit ''v1'', Lit ''matches'', Lit ''completed''], ToCompleted),
      (''GET'', [Lit ''api'', Lit ''v1'', Lit ''runs'', Wild], ToDetail)]"

text \<open>
  The matching of \<open>net/http\<close>: a segment is compared after its escapes are decoded (as it is, when they
  do not decode), the end of a path with a slash counts as the segment \<open>/\<close>, and GET serves HEAD.
\<close>

fun path_unescape :: "string \<Rightarrow> string option" where
  "path_unescape [] = Some []"
| "path_unescape (c # cs) =
     (if c = CHR ''%'' then
        (case cs of
           d # e # rest \<Rightarrow>
             (case (hex_value d, hex_value e, path_unescape rest) of
                (Some x, Some y, Some s) \<Rightarrow> Some (char_of (16 * x + y) # s)
              | _ \<Rightarrow> None)
         | _ \<Rightarrow> None)
      else map_option (\<lambda>s. c # s) (path_unescape cs))"

definition path_segment :: "string \<Rightarrow> string" where
  "path_segment s = (case path_unescape s of None \<Rightarrow> s | Some t \<Rightarrow> t)"

definition path_segments :: "string \<Rightarrow> string list" where
  "path_segments p =
     (if p = [] then []
      else let ss = split_on (CHR ''/'') (tl p) in
        map path_segment (butlast ss) @ [if last ss = [] then ''/'' else path_segment (last ss)])"

definition clean_path :: "string \<Rightarrow> string" where
  "clean_path p =
     (if p = [] then ''/''
      else let p = (if hd p = CHR ''/'' then p else CHR ''/'' # p); np = clean p in
        if last p = CHR ''/'' \<and> np \<noteq> ''/'' then np @ ''/'' else np)"

definition segments_match :: "segment_pattern list \<Rightarrow> string list \<Rightarrow> bool" where
  "segments_match ps ss \<longleftrightarrow> list_all2 (\<lambda>p s. case p of Lit l \<Rightarrow> s = l | Wild \<Rightarrow> s \<noteq> ''/'') ps ss"

definition method_matches :: "string \<Rightarrow> string \<Rightarrow> bool" where
  "method_matches m r \<longleftrightarrow> m = [] \<or> m = r \<or> m = ''GET'' \<and> r = ''HEAD''"

datatype routed = Found endpoint | WrongMethod | NoRoute

definition find_route :: "routes \<Rightarrow> string \<Rightarrow> string list \<Rightarrow> routed" where
  "find_route rs m ss =
     (case find (\<lambda>(rm, ps, e). method_matches rm m \<and> segments_match ps ss) rs of
        Some (rm, ps, e) \<Rightarrow> Found e
      | None \<Rightarrow> if list_ex (\<lambda>(rm, ps, e). segments_match ps ss) rs then WrongMethod else NoRoute)"

text \<open>\<open>PathValue\<close>: the wildcards stand at the fourth place.\<close>

definition path_value :: "string list \<Rightarrow> string" where
  "path_value ss = (if length ss > 3 then ss ! 3 else [])"

definition in_subtree :: "string list \<Rightarrow> bool" where
  "in_subtree ss \<longleftrightarrow> length ss > 2 \<and> take 2 ss = [''api'', ''v1'']"

section \<open>Serving a request\<close>

type_synonym response = "api_body http_response"

definition answer :: "reply \<Rightarrow> response" where
  "answer a = \<lparr>rs_status = fst a, rs_location = [], rs_cookies = [], rs_body = snd a\<rparr>"

definition auth_answer :: "auth_body http_response \<Rightarrow> response" where
  "auth_answer a = \<lparr>rs_status = rs_status a, rs_location = rs_location a, rs_cookies = rs_cookies a, rs_body = AuthAnswer (rs_body a)\<rparr>"

definition answers :: "reply \<times> 's \<Rightarrow> response \<times> 's" where
  "answers = map_prod answer id"

text \<open>The routes behind the operator gate.\<close>

definition serve_protected :: "('x, 'h) operator_api \<Rightarrow> api_env \<Rightarrow> http_request \<Rightarrow> request_body \<Rightarrow> string list \<Rightarrow>
    'x site \<Rightarrow> response \<times> 'x site" where
  "serve_protected api env r body ss s =
     (let cm = oa_commands api; rid = path_value ss in
      case find_route protected_routes (hr_method r) ss of
        WrongMethod \<Rightarrow> (answer (405, Empty), s)
      | NoRoute \<Rightarrow> (answer (404, Empty), s)
      | Found e \<Rightarrow>
          (case e of
             ToInvites \<Rightarrow> answers (handle_signup_invites api env body s)
           | ToGames \<Rightarrow> answers (handle_game_registrations api r body s)
           | ToAIs \<Rightarrow> answers (handle_ai_submissions api env r body s)
           | ToAIBundles \<Rightarrow> answers (handle_ai_bundle_upload api env body s)
           | ToGameBundles \<Rightarrow> answers (handle_game_bundle_upload api body s)
           | ToMatchRequests \<Rightarrow> answers (handle_match_requests api env r body s)
           | ToEligible \<Rightarrow> (answer (handle_eligible_bots api r s), s)
           | ToRankings \<Rightarrow> (answer (handle_rankings api r s), s)
           | ToCancel \<Rightarrow> answers (handle_run_command api 200 (cancel_run cm rid) s)
           | ToRetry \<Rightarrow> answers (handle_run_command api 201 (retry_run cm rid) s)
           | ToRerun \<Rightarrow> answers (handle_run_command api 201 (rerun_run cm rid) s)
           | ToPromote \<Rightarrow> answers (handle_run_command api 200 (promote_run cm rid) s)
           | ToActive \<Rightarrow> (answer (handle_match_list api active_states s), s)
           | ToCompleted \<Rightarrow> (answer (handle_match_list api completed_states s), s)
           | ToDetail \<Rightarrow> (answer (handle_match_detail api rid s), s)
           | _ \<Rightarrow> (answer (404, Empty), s)))"

definition gate :: "(int \<times> auth_error) option \<Rightarrow> 's \<Rightarrow> response \<times> 's \<Rightarrow> response \<times> 's" where
  "gate refusal s behind =
     (case refusal of Some (status, e) \<Rightarrow> (answer (refuse status (AuthRefused e)), s) | None \<Rightarrow> behind)"

definition health_status :: "bool option \<Rightarrow> bool" where
  "health_status ready = (ready = Some True)"

definition serve_auth :: "auth_service \<Rightarrow> api_env \<Rightarrow> http_request \<Rightarrow> endpoint \<Rightarrow> auth_db \<Rightarrow>
    auth_body http_response \<times> auth_db" where
  "serve_auth a env r e db =
     (let aenv = ae_auth env in
      case e of
        ToGitHubLogin \<Rightarrow> (start_login a aenv ''github'' (Some (ac_github a)) r, db)
      | ToGitHubCallback \<Rightarrow> complete_callback a aenv ''github'' (Some (ac_github a)) r db
      | ToOidcLogin \<Rightarrow> (start_login a aenv ''local-oidc'' (ac_oidc a) r, db)
      | ToOidcCallback \<Rightarrow> complete_callback a aenv ''local-oidc'' (ac_oidc a) r db
      | _ \<Rightarrow> logout a aenv r db)"

text \<open>The routes of the first multiplexer, those for accounts behind the gate for any login.\<close>

definition serve_open :: "('x, 'h) operator_api \<Rightarrow> api_env \<Rightarrow> http_request \<Rightarrow> request_body \<Rightarrow> string list \<Rightarrow> endpoint \<Rightarrow>
    'x site \<Rightarrow> response \<times> 'x site" where
  "serve_open api env r body ss e s =
     (let login = require_authenticated (ae_auth env) r (si_auth s) in
      case e of
        ToHealth \<Rightarrow> (answer (200, Health (health_status (oa_ready api))), s)
      | ToVersion \<Rightarrow> (answer (200, VersionAnswer (oa_version api)), s)
      | ToSession \<Rightarrow> (answer (200, SessionAnswer (session_status_of (oa_auth api) (ae_auth env) r (si_auth s))), s)
      | ToBots \<Rightarrow> gate login s (answer (handle_bots api env r s), s)
      | ToBotRevision \<Rightarrow> gate login s (answers (handle_bot_revision api env r body s))
      | ToBotRetire \<Rightarrow> gate login s (answers (handle_bot_retire api env r (path_value ss) s))
      | _ \<Rightarrow> (case oa_auth api of
                None \<Rightarrow> (answer (404, Empty), s)
              | Some a \<Rightarrow> map_prod auth_answer id (on_auth (serve_auth a env r e) s)))"

text \<open>The path that is matched, a CONNECT as it came.\<close>

definition routed_path :: "http_request \<Rightarrow> string" where
  "routed_path r = (if hr_method r = ''CONNECT'' then hr_path r else clean_path (hr_path r))"

definition dispatch :: "('x, 'h) operator_api \<Rightarrow> api_env \<Rightarrow> http_request \<Rightarrow> request_body \<Rightarrow> string list \<Rightarrow> routed \<Rightarrow>
    'x site \<Rightarrow> response \<times> 'x site" where
  "dispatch api env r body ss found s =
     (case found of
        Found e \<Rightarrow> serve_open api env r body ss e s
      | other \<Rightarrow>
          if in_subtree ss then
            (if oa_auth api = None then serve_protected api env r body ss s
             else gate (require_operator (ae_auth env) r (si_auth s)) s (serve_protected api env r body ss s))
          else (answer (if other = WrongMethod then 405 else 404, Empty), s))"

text \<open>
  Where the multiplexer redirects to: from the root of the subtree \<open>/api/v1/\<close> without its slash to the
  decoded path with one, and from a path that is not clean to the clean one.
\<close>

definition redirect_path :: "http_request \<Rightarrow> string option" where
  "redirect_path r =
     (if path_segments (routed_path r) = [''api'', ''v1''] then Some (clean_path (path_segment (hr_path r)) @ ''/'')
      else if routed_path r \<noteq> hr_path r then Some (routed_path r)
      else None)"

text \<open>How \<open>net/url\<close> prints a path, and \<open>net/http\<close> a header: other bytes are escaped.\<close>

definition plain_in_path :: "char \<Rightarrow> bool" where
  "plain_in_path c \<longleftrightarrow>
     (let n = of_char c :: nat in 48 \<le> n \<and> n \<le> 57 \<or> 65 \<le> n \<and> n \<le> 90 \<or> 97 \<le> n \<and> n \<le> 122) \<or>
     c \<in> set ''-_.~$&+,/:;=@''"

definition upper_hex :: "nat \<Rightarrow> char" where
  "upper_hex n = char_of (if n < 10 then 48 + n else 55 + n)"

definition escape_path :: "string \<Rightarrow> string" where
  "escape_path p = concat (map (\<lambda>c. if plain_in_path c then [c]
     else [CHR ''%'', upper_hex (of_char c div 16), upper_hex (of_char c mod 16)]) p)"

definition escape_non_ascii :: "string \<Rightarrow> string" where
  "escape_non_ascii s = concat (map (\<lambda>c. if of_char c < (128 :: nat) then [c] else CHR ''%'' # hex [c]) s)"

text \<open>
  \<open>RedirectHandler\<close> of the multiplexer, 307 since Go 1.26: \<open>http.Redirect\<close> cleans the printed path once
  more and keeps its last slash and the query.
\<close>

definition mux_redirect :: "http_request \<Rightarrow> string \<Rightarrow> response" where
  "mux_redirect r p =
     \<lparr>rs_status = 307,
      rs_location = escape_non_ascii (clean_path (escape_path p) @
        (if hr_raw_query r = [] then [] else CHR ''?'' # hr_raw_query r)),
      rs_cookies = [], rs_body = Empty\<rparr>"

definition serve :: "('x, 'h) operator_api \<Rightarrow> api_env \<Rightarrow> http_request \<Rightarrow> request_body \<Rightarrow> 'x site \<Rightarrow> response \<times> 'x site" where
  "serve api env r body s =
     (case redirect_path r of
        Some p \<Rightarrow> (mux_redirect r p, s)
      | None \<Rightarrow>
          let ss = path_segments (routed_path r) in
          dispatch api env r body ss (find_route (open_routes (oa_auth api \<noteq> None)) (hr_method r) ss) s)"

text \<open>Any path answers OPTIONS with 204.\<close>

definition handle_request :: "('x, 'h) operator_api \<Rightarrow> api_env \<Rightarrow> http_request \<Rightarrow> request_body \<Rightarrow> 'x site \<Rightarrow>
    (response \<times> (string \<times> string) list) \<times> 'x site" where
  "handle_request api env r body s =
     (if hr_method r = ''OPTIONS'' then ((answer (204, Empty), cors_headers r), s)
      else case serve api env r body s of (resp, s1) \<Rightarrow> ((resp, cors_headers r), s1))"

end
