(* ===== verification/Auth_Spec.thy ===== *)
theory Auth_Spec
  imports Auth
begin

text \<open>
  What the auth tables and the login flow guarantee: accounts come from invites, the operator gate opens
  for them alone, a login ends where it was asked to and a logout ends the session.
\<close>

section \<open>Reachable tables\<close>

inductive auth_step :: "auth_db \<Rightarrow> auth_db \<Rightarrow> bool" where
  do_login: "auth_step db (snd (resolve_identity_login fault account identity invite now db))"
| do_session: "auth_step db (snd (create_session fault token account expires db))"
| do_delete: "auth_step db (snd (delete_session fault token db))"
| do_invite: "auth_step db (snd (store_signup_invite fault token role expires db))"

definition empty_auth :: auth_db where
  "empty_auth = \<lparr>ad_accounts = [], ad_identities = [], ad_roles = [], ad_sessions = [], ad_invites = []\<rparr>"

definition claimed :: "auth_db \<Rightarrow> (string \<times> string) list" where
  "claimed db = concat (map (\<lambda>v. case iv_claim v of None \<Rightarrow> [] | Some (a, t) \<Rightarrow> [(a, iv_role v)]) (ad_invites db))"

definition identity_key :: "identity_row \<Rightarrow> string \<times> string" where
  "identity_key i = (ai_provider i, ai_subject i)"

definition auth_ok :: "auth_db \<Rightarrow> bool" where
  "auth_ok db \<longleftrightarrow>
     distinct (ad_accounts db) \<and> map ai_account (ad_identities db) = ad_accounts db \<and> map fst (ad_roles db) = ad_accounts db \<and>
     distinct (map identity_key (ad_identities db)) \<and> distinct (map iv_hash (ad_invites db)) \<and>
     mset (claimed db) = mset (ad_roles db) \<and>
     (\<forall>v \<in> set (ad_invites db). iv_role v \<in> {''participant'', ''developer'', ''operator''} \<and>
        (\<forall>a t. iv_claim v = Some (a, t) \<longrightarrow> t < iv_expires v)) \<and>
     distinct (map ss_hash (ad_sessions db)) \<and> ss_account ` set (ad_sessions db) \<subseteq> set (ad_accounts db)"

lemma auth_ok_empty: "auth_ok empty_auth"
  by (simp add: auth_ok_def empty_auth_def claimed_def)

lemma claim_one:
  assumes "distinct (map iv_hash vs)" "v \<in> set vs" "iv_claim v = None"
  shows "mset (concat (map (\<lambda>v. case iv_claim v of None \<Rightarrow> [] | Some (a, t) \<Rightarrow> [(a, iv_role v)])
             (map (\<lambda>x. if iv_hash x = iv_hash v then x\<lparr>iv_claim := Some (b, now)\<rparr> else x) vs))) =
         add_mset (b, iv_role v) (mset (concat (map (\<lambda>v. case iv_claim v of None \<Rightarrow> [] | Some (a, t) \<Rightarrow> [(a, iv_role v)]) vs)))"
  using assms
proof (induction vs)
  case (Cons x xs)
  show ?case
  proof (cases "x = v")
    case True
    then have "iv_hash y \<noteq> iv_hash v" if "y \<in> set xs" for y using Cons.prems(1) that by (metis distinct.simps(2) image_eqI list.set_map list.simps(9))
    then have "map (\<lambda>x. if iv_hash x = iv_hash v then x\<lparr>iv_claim := Some (b, now)\<rparr> else x) xs = xs"
      by (intro map_idI) simp
    then show ?thesis using True Cons.prems(3) by simp
  next
    case False
    then have "v \<in> set xs" "iv_hash x \<noteq> iv_hash v" using Cons.prems(1,2) by (auto simp: image_iff)
    then show ?thesis using Cons by simp
  qed
qed simp

lemma create_principal_Inr:
  assumes create: "create_principal_from_invite account i invite now db = Inr (p, db1)" and norm: "normalized_identity i = i"
  obtains v where "find (\<lambda>v. iv_hash v = token_hash invite) (ad_invites db) = Some v"
    "iv_claim v = None" "now < iv_expires v" "account \<notin> set (ad_accounts db)"
    "\<not> list_ex (\<lambda>x. ai_provider x = ai_provider i \<and> ai_subject x = ai_subject i) (ad_identities db)"
    "p = \<lparr>pr_account = account, pr_provider = ai_provider i, pr_login = ai_login i, pr_email = ai_email i, pr_roles = [iv_role v]\<rparr>"
    "db1 = db\<lparr>ad_accounts := ad_accounts db @ [account],
      ad_identities := ad_identities db @ [\<lparr>ai_provider = ai_provider i, ai_subject = ai_subject i, ai_login = ai_login i,
        ai_email = ai_email i, ai_account = account, ai_created = now\<rparr>],
      ad_roles := ad_roles db @ [(account, iv_role v)]\<rparr>"
proof -
  from create obtain v where v: "find (\<lambda>v. iv_hash v = token_hash invite) (ad_invites db) = Some v"
    by (auto simp: create_principal_from_invite_def Let_def norm split: option.splits)
  show thesis
    by (rule that [OF v]; use create v in \<open>cases "iv_claim v"; auto simp: create_principal_from_invite_def Let_def norm split: if_splits\<close>)
qed

lemma auth_ok_login:
  assumes "auth_ok db"
  shows "auth_ok (snd (resolve_identity_login fault account identity invite now db))"
proof (cases "snd (resolve_identity_login fault account identity invite now db) = db")
  case True
  with assms show ?thesis by simp
next
  case False
  define i where "i = normalized_identity identity"
  have norm: "normalized_identity i = i"
    by (simp add: i_def normalized_identity_def)
  from False obtain p db1 where create: "create_principal_from_invite account i invite now db = Inr (p, db1)"
    and db': "snd (resolve_identity_login fault account identity invite now db) = claim_invite account invite now db1"
    by (auto simp: resolve_identity_login_def Let_def i_def [symmetric] split: if_splits option.splits sum.splits prod.splits)
  from create norm obtain v where v: "find (\<lambda>v. iv_hash v = token_hash invite) (ad_invites db) = Some v"
    and free: "iv_claim v = None" "now < iv_expires v" "account \<notin> set (ad_accounts db)"
      "\<not> list_ex (\<lambda>x. ai_provider x = ai_provider i \<and> ai_subject x = ai_subject i) (ad_identities db)"
    and db1: "db1 = db\<lparr>ad_accounts := ad_accounts db @ [account],
      ad_identities := ad_identities db @ [\<lparr>ai_provider = ai_provider i, ai_subject = ai_subject i, ai_login = ai_login i,
        ai_email = ai_email i, ai_account = account, ai_created = now\<rparr>],
      ad_roles := ad_roles db @ [(account, iv_role v)]\<rparr>"
    by (rule create_principal_Inr)
  have vin: "v \<in> set (ad_invites db)" "iv_hash v = token_hash invite" using v by (auto simp: find_Some_iff)
  let ?db = "claim_invite account invite now db1"
  have "mset (claimed ?db) = add_mset (account, iv_role v) (mset (claimed db))"
    unfolding claimed_def claim_invite_def db1 using claim_one [OF _ vin(1) free(1), of account now] assms vin(2)
    by (simp add: auth_ok_def)
  moreover have "map iv_hash (ad_invites ?db) = map iv_hash (ad_invites db)" by (simp add: claim_invite_def db1)
  moreover have "\<forall>w \<in> set (ad_invites ?db). iv_role w \<in> {''participant'', ''developer'', ''operator''} \<and>
      (\<forall>a t. iv_claim w = Some (a, t) \<longrightarrow> t < iv_expires w)"
  proof
    fix w assume "w \<in> set (ad_invites ?db)"
    then obtain x where x: "x \<in> set (ad_invites db)"
      "w = (if iv_hash x = token_hash invite then x\<lparr>iv_claim := Some (account, now)\<rparr> else x)"
      by (auto simp: claim_invite_def db1)
    have "x = v" if "iv_hash x = token_hash invite"
      using assms x(1) vin that by (auto simp: auth_ok_def distinct_map inj_on_def)
    then show "iv_role w \<in> {''participant'', ''developer'', ''operator''} \<and> (\<forall>a t. iv_claim w = Some (a, t) \<longrightarrow> t < iv_expires w)"
      using assms x free(2) by (auto simp: auth_ok_def)
  qed
  moreover have "identity_key ` set (ad_identities db) \<subseteq> - {(ai_provider i, ai_subject i)}"
    using free(4) by (auto simp: list_ex_iff identity_key_def)
  moreover have "ad_accounts ?db = ad_accounts db @ [account]" "ad_roles ?db = ad_roles db @ [(account, iv_role v)]"
    "map ai_account (ad_identities ?db) = map ai_account (ad_identities db) @ [account]"
    "map identity_key (ad_identities ?db) = map identity_key (ad_identities db) @ [(ai_provider i, ai_subject i)]"
    "ad_sessions ?db = ad_sessions db"
    by (simp_all add: claim_invite_def db1 identity_key_def)
  ultimately show ?thesis
    unfolding db' auth_ok_def [of ?db] using assms free(3) by (auto simp: auth_ok_def)
qed

lemma auth_ok_step: "auth_step db db' \<Longrightarrow> auth_ok db \<Longrightarrow> auth_ok db'"
proof (induction rule: auth_step.induct)
  case (do_login db fault account identity invite now)
  then show ?case by (rule auth_ok_login)
next
  case (do_session db fault token account expires)
  then show ?case
    by (auto simp: create_session_def auth_ok_def claimed_def list_ex_iff split: option.split)
next
  case (do_delete db fault token)
  then show ?case
    by (auto simp: delete_session_def auth_ok_def claimed_def distinct_map_filter split: option.split)
next
  case (do_invite db fault token role expires)
  then show ?case
    by (auto simp: store_signup_invite_def Let_def auth_ok_def claimed_def list_ex_iff validate_invite_role_def split: option.split)
qed

lemma auth_ok_steps: "auth_step\<^sup>*\<^sup>* db db' \<Longrightarrow> auth_ok db \<Longrightarrow> auth_ok db'"
  by (induction rule: rtranclp_induct) (auto intro: auth_ok_step)

lemma filter_key: "distinct (map f xs) \<Longrightarrow> x \<in> set xs \<Longrightarrow> filter (\<lambda>y. f y = f x) xs = [x]"
  by (induction xs) (auto simp: filter_empty_conv image_iff)

lemma load_roles_single:
  assumes "auth_ok db" "(a, x) \<in> set (ad_roles db)"
  shows "load_roles db a = [x]"
proof -
  have "filter (\<lambda>r. fst r = fst (a, x)) (ad_roles db) = [(a, x)]"
    using assms by (intro filter_key) (auto simp: auth_ok_def)
  then show ?thesis by (simp add: load_roles_def case_prod_unfold)
qed

lemma identities_of:
  assumes "auth_ok db" "i \<in> set (ad_identities db)"
  shows "filter (\<lambda>x. ai_account x = ai_account i) (ad_identities db) = [i]"
  using assms by (intro filter_key) (auto simp: auth_ok_def)

lemma account_of: "auth_ok db \<Longrightarrow> i \<in> set (ad_identities db) \<Longrightarrow> ai_account i \<in> set (ad_accounts db)"
  by (metis auth_ok_def image_eqI list.set_map)

lemma account_identity:
  assumes "auth_ok db" "a \<in> set (ad_accounts db)"
  obtains i where "i \<in> set (ad_identities db)" "ai_account i = a"
proof -
  have "a \<in> ai_account ` set (ad_identities db)" using assms unfolding auth_ok_def by (metis list.set_map)
  then show ?thesis using that by blast
qed

lemma account_role:
  assumes "auth_ok db" "a \<in> set (ad_accounts db)"
  obtains x where "(a, x) \<in> set (ad_roles db)"
proof -
  have "a \<in> fst ` set (ad_roles db)" using assms unfolding auth_ok_def by (metis list.set_map)
  then show ?thesis using that by auto
qed

text \<open>The roles are those of the claimed invites.\<close>

lemma role_from_invite:
  assumes "auth_ok db"
  shows "(a, x) \<in> set (ad_roles db) \<longleftrightarrow> (\<exists>v t. v \<in> set (ad_invites db) \<and> iv_claim v = Some (a, t) \<and> iv_role v = x)"
proof -
  have "set (ad_roles db) = set (claimed db)" using assms by (metis auth_ok_def mset_eq_setD)
  moreover have "(a, x) \<in> set (claimed db) \<longleftrightarrow> (\<exists>v t. v \<in> set (ad_invites db) \<and> iv_claim v = Some (a, t) \<and> iv_role v = x)"
  proof
    assume "(a, x) \<in> set (claimed db)"
    then obtain v where "v \<in> set (ad_invites db)" "(a, x) \<in> set (case iv_claim v of None \<Rightarrow> [] | Some (a, t) \<Rightarrow> [(a, iv_role v)])"
      by (auto simp: claimed_def)
    then show "\<exists>v t. v \<in> set (ad_invites db) \<and> iv_claim v = Some (a, t) \<and> iv_role v = x" by (cases "iv_claim v") auto
  next
    assume "\<exists>v t. v \<in> set (ad_invites db) \<and> iv_claim v = Some (a, t) \<and> iv_role v = x"
    then show "(a, x) \<in> set (claimed db)" by (auto simp: claimed_def intro!: bexI)
  qed
  ultimately show ?thesis by simp
qed

text \<open>An invite is claimed by one account, and an account claims one invite.\<close>

lemma invite_of_account_unique:
  assumes "auth_ok db" "v \<in> set (ad_invites db)" "w \<in> set (ad_invites db)"
    "iv_claim v = Some (a, t)" "iv_claim w = Some (a, u)"
  shows "v = w"
proof (rule ccontr)
  assume "v \<noteq> w"
  let ?f = "\<lambda>v. case iv_claim v of None \<Rightarrow> [] | Some (a, t) \<Rightarrow> [(a, iv_role v)]"
  obtain xs ys zs where "ad_invites db = xs @ v # ys @ w # zs \<or> ad_invites db = xs @ w # ys @ v # zs"
    using assms(2,3) \<open>v \<noteq> w\<close> by (metis split_list Un_iff append_assoc append_Cons set_ConsD set_append)
  then have "\<exists>m. mset (map fst (claimed db)) = add_mset a (add_mset a m)"
    using assms(4,5) by (auto simp: claimed_def)
  moreover have "mset (map fst (claimed db)) = mset (ad_accounts db)"
    using assms(1) by (metis auth_ok_def mset_map)
  moreover have "count (mset (ad_accounts db)) a \<le> 1"
    using assms(1) by (simp add: auth_ok_def distinct_count_atmost_1)
  ultimately show False by auto
qed

text \<open>
  Whatever logins, sessions, logouts and invites there were, every account was opened by exactly one
  invite, which it claimed before the invite expired, has the role of that invite and no other, and one
  identity; nobody else can claim the invite, and no two accounts have the same provider identity.
\<close>

theorem accounts_come_from_invites:
  assumes "auth_step\<^sup>*\<^sup>* empty_auth db" "a \<in> set (ad_accounts db)"
  shows "\<exists>v \<in> set (ad_invites db). \<exists>t. iv_claim v = Some (a, t) \<and> t < iv_expires v \<and> load_roles db a = [iv_role v] \<and>
    (\<forall>w \<in> set (ad_invites db). (\<exists>u. iv_claim w = Some (a, u)) \<longrightarrow> w = v) \<and>
    (\<exists>i. filter (\<lambda>x. ai_account x = a) (ad_identities db) = [i] \<and>
      (\<forall>j \<in> set (ad_identities db). identity_key j = identity_key i \<longrightarrow> j = i))"
proof -
  have ok: "auth_ok db" using auth_ok_steps [OF assms(1) auth_ok_empty] .
  obtain x where x: "(a, x) \<in> set (ad_roles db)" using account_role [OF ok assms(2)] .
  then obtain v t where v: "v \<in> set (ad_invites db)" "iv_claim v = Some (a, t)" "iv_role v = x"
    using role_from_invite [OF ok] by blast
  obtain i where i: "i \<in> set (ad_identities db)" "ai_account i = a" using account_identity [OF ok assms(2)] .
  have "t < iv_expires v" using ok v by (auto simp: auth_ok_def)
  moreover have "load_roles db a = [iv_role v]" using load_roles_single [OF ok x] v(3) by simp
  moreover have "\<forall>w \<in> set (ad_invites db). (\<exists>u. iv_claim w = Some (a, u)) \<longrightarrow> w = v"
    using invite_of_account_unique [OF ok _ v(1) _ v(2)] by blast
  moreover have "filter (\<lambda>x. ai_account x = a) (ad_identities db) = [i]" using identities_of [OF ok i(1)] i(2) by simp
  moreover have "\<forall>j \<in> set (ad_identities db). identity_key j = identity_key i \<longrightarrow> j = i"
    using ok i(1) by (auto simp: auth_ok_def distinct_map inj_on_def)
  ultimately show ?thesis using v(1,2) by blast
qed

section \<open>The operator gate\<close>

text \<open>The sessions that count at a time.\<close>

definition live_session :: "auth_db \<Rightarrow> string \<Rightarrow> int \<Rightarrow> session_row \<Rightarrow> bool" where
  "live_session db token now s \<longleftrightarrow> s \<in> set (ad_sessions db) \<and> ss_hash s = token_hash token \<and> now < ss_expires s"

lemma live_session_unique:
  assumes "auth_ok db" "live_session db token now s" "live_session db token now s'"
  shows "s = s'"
  using assms by (auto simp: live_session_def auth_ok_def distinct_map inj_on_def)

lemma session_rows_append: "session_rows db h now (xs @ ys) = session_rows db h now xs @ session_rows db h now ys"
  by (simp add: session_rows_def)

lemma session_rows_single: "session_rows db h now [s] =
    (if ss_hash s = h \<and> now < ss_expires s \<and> ss_account s \<in> set (ad_accounts db)
     then filter (\<lambda>i. ai_account i = ss_account s) (ad_identities db) else [])"
  by (simp add: session_rows_def)

lemma lookup_session:
  assumes ok: "auth_ok db"
  shows "lookup_principal_by_session db (token_hash token) now = Some p \<longleftrightarrow>
    (\<exists>s i. live_session db token now s \<and> i \<in> set (ad_identities db) \<and> ai_account i = ss_account s \<and> p = principal_of db i)"
proof (cases "\<exists>s. live_session db token now s")
  case False
  then have "session_rows db (token_hash token) now (ad_sessions db) = []" by (auto simp: live_session_def session_rows_def)
  then show ?thesis using False by (simp add: lookup_principal_by_session_def)
next
  case True
  then obtain s where s: "live_session db token now s" by blast
  then have acct: "ss_account s \<in> set (ad_accounts db)" using ok by (auto simp: live_session_def auth_ok_def)
  then obtain i where i: "i \<in> set (ad_identities db)" "ai_account i = ss_account s" using account_identity [OF ok] by metis
  obtain xs ys where ss: "ad_sessions db = xs @ s # ys" using s by (meson live_session_def split_list)
  have others: "ss_hash x \<noteq> token_hash token" if "x \<in> set xs \<union> set ys" for x
  proof -
    have "distinct (map ss_hash (xs @ s # ys))" using ok by (simp add: auth_ok_def ss)
    then show ?thesis using that s by (auto simp: live_session_def image_iff)
  qed
  have empty: "session_rows db (token_hash token) now zs = []" if "set zs \<subseteq> set xs \<union> set ys" for zs
    using others that by (induction zs) (auto simp: session_rows_def)
  have "session_rows db (token_hash token) now (ad_sessions db) = [i]"
    using session_rows_append [of db "token_hash token" now xs "[s] @ ys"] session_rows_append [of db "token_hash token" now "[s]" ys]
      empty [of xs] empty [of ys] s acct identities_of [OF ok i(1)] i(2)
    by (simp add: ss live_session_def session_rows_single)
  then have "lookup_principal_by_session db (token_hash token) now = Some (principal_of db i)"
    by (simp add: lookup_principal_by_session_def)
  moreover have "s' = s" if "live_session db token now s'" for s' using live_session_unique [OF ok that s] .
  moreover have "j = i" if "j \<in> set (ad_identities db)" "ai_account j = ss_account s" for j
  proof -
    have "j \<in> set (filter (\<lambda>x. ai_account x = ai_account i) (ad_identities db))" using that i(2) by simp
    then show ?thesis unfolding identities_of [OF ok i(1)] by simp
  qed
  ultimately have "\<And>p. (\<exists>s i. live_session db token now s \<and> i \<in> set (ad_identities db) \<and> ai_account i = ss_account s \<and>
      p = principal_of db i) \<longleftrightarrow> p = principal_of db i"
    using s i by metis
  then show ?thesis using \<open>lookup_principal_by_session db (token_hash token) now = Some (principal_of db i)\<close>
    by (simp add: eq_commute [of "principal_of db i"])
qed

text \<open>
  C12. The gate of the operator routes opens for a request exactly when its session cookie holds the token
  of a session that has not expired and whose account claimed an invite for operators; every other
  request is answered with 401 or 403.
\<close>

theorem operator_gate_exact:
  assumes "auth_step\<^sup>*\<^sup>* empty_auth db" "au_fault env GetSession = None"
  shows "require_operator env r db = None \<longleftrightarrow>
    (\<exists>v s w t. map_of (hr_cookies r) session_cookie_name = Some v \<and> \<not> blank v \<and> live_session db v (au_now env) s \<and>
      w \<in> set (ad_invites db) \<and> iv_role w = ''operator'' \<and> iv_claim w = Some (ss_account s, t))"
    (is "?open \<longleftrightarrow> ?member")
proof -
  have ok: "auth_ok db" using auth_ok_steps [OF assms(1) auth_ok_empty] .
  have hash: "token_hash (trim_space v) = token_hash v" for v by (simp add: token_hash_def)
  have live: "live_session db (trim_space v) now s = live_session db v now s" for v now s
    by (simp add: live_session_def hash)
  have role: "has_role (pr_roles (principal_of db i)) ''operator'' \<longleftrightarrow> (ai_account i, ''operator'') \<in> set (ad_roles db)"
    if i: "i \<in> set (ad_identities db)" for i
  proof -
    obtain x where x: "(ai_account i, x) \<in> set (ad_roles db)" using account_role [OF ok account_of [OF ok i]] .
    have "y = x" if "(ai_account i, y) \<in> set (ad_roles db)" for y
      using load_roles_single [OF ok x] load_roles_single [OF ok that] by simp
    moreover have "has_role (pr_roles (principal_of db i)) ''operator'' \<longleftrightarrow> x = ''operator''"
      by (simp add: principal_of_def has_role_def load_roles_single [OF ok x])
    ultimately show ?thesis using x by blast
  qed
  have "?open \<longleftrightarrow> (\<exists>v p. map_of (hr_cookies r) session_cookie_name = Some v \<and> \<not> blank v \<and>
      lookup_principal_by_session db (token_hash v) (au_now env) = Some p \<and> has_role (pr_roles p) ''operator'')"
  proof (cases "map_of (hr_cookies r) session_cookie_name")
    case None
    then show ?thesis by (simp add: require_operator_def session_principal_def)
  next
    case (Some v)
    show ?thesis
    proof (cases "blank v")
      case True
      then show ?thesis using Some by (simp add: require_operator_def session_principal_def blank_def)
    next
      case False
      then have "session_principal env r db = (case lookup_principal_by_session db (token_hash v) (au_now env) of
          None \<Rightarrow> Inl AuthenticationNeeded | Some p \<Rightarrow> Inr p)"
        using Some assms(2) by (simp add: session_principal_def get_session_def Let_def blank_def hash)
      then show ?thesis using Some False
        by (cases "lookup_principal_by_session db (token_hash v) (au_now env)") (simp_all add: require_operator_def)
    qed
  qed
  also have "\<dots> \<longleftrightarrow> (\<exists>v s i. map_of (hr_cookies r) session_cookie_name = Some v \<and> \<not> blank v \<and>
      live_session db v (au_now env) s \<and> i \<in> set (ad_identities db) \<and> ai_account i = ss_account s \<and>
      (ss_account s, ''operator'') \<in> set (ad_roles db))"
    unfolding lookup_session [OF ok] using role by metis
  also have "\<dots> \<longleftrightarrow> ?member"
  proof -
    have "\<exists>i \<in> set (ad_identities db). ai_account i = ss_account s" if "live_session db v now s" for v now s
      using account_identity [OF ok] that ok by (metis (no_types) auth_ok_def image_subset_iff live_session_def)
    then show ?thesis unfolding role_from_invite [OF ok] by blast
  qed
  finally show ?thesis .
qed

text \<open>
  C_. A logout from an allowed page ends the session of the browser for good: its cookie no longer
  authenticates a request at any time, and the sessions of other tokens stay as they were.
\<close>

theorem logout_revokes:
  assumes "map_of (hr_cookies r) session_cookie_name = Some v"
    and "trim_space (getd [] (hr_headers r) ''Origin'') \<in> insert [] (set (ac_allowed a))" "au_fault env DeleteSession = None"
    and "logout a env r db = (resp, db')"
  shows "rs_status resp = 204 \<and> (\<forall>c \<in> set (rs_cookies resp). ck_name c = session_cookie_name \<and> ck_max_age c < 0) \<and>
    (map_of (hr_cookies r') session_cookie_name = Some v \<longrightarrow> (\<exists>e. session_principal env' r' db' = Inl e)) \<and>
    (\<forall>token now. token_hash token \<noteq> token_hash v \<longrightarrow>
      lookup_principal_by_session db' (token_hash token) now = lookup_principal_by_session db (token_hash token) now)"
proof -
  have resp: "resp = \<lparr>rs_status = 204, rs_location = [], rs_cookies = [cleared_cookie r session_cookie_name], rs_body = NoBody\<rparr>"
    and db': "db' = (if blank v then db else db\<lparr>ad_sessions := filter (\<lambda>s. ss_hash s \<noteq> token_hash v) (ad_sessions db)\<rparr>)"
    using assms by (auto simp: logout_def Let_def delete_session_def split: if_splits)
  have hash: "token_hash (trim_space v) = token_hash v" by (simp add: token_hash_def)
  have "\<exists>e. session_principal env' r' db' = Inl e" if "map_of (hr_cookies r') session_cookie_name = Some v"
  proof (cases "blank v")
    case True
    then show ?thesis using that by (simp add: session_principal_def blank_def)
  next
    case False
    then have "session_rows db' (token_hash v) now (ad_sessions db') = []" for now
      by (auto simp: db' session_rows_def)
    then have "lookup_principal_by_session db' (token_hash v) now = None" for now
      by (simp add: lookup_principal_by_session_def)
    then show ?thesis
      using that by (auto simp: session_principal_def get_session_def Let_def hash blank_def split: option.split)
  qed
  moreover have "lookup_principal_by_session db' (token_hash token) now = lookup_principal_by_session db (token_hash token) now"
    if "token_hash token \<noteq> token_hash v" for token now
  proof -
    have same: "session_rows db' (token_hash token) now (filter (\<lambda>s. ss_hash s \<noteq> token_hash v) ss) =
        session_rows db (token_hash token) now ss" for ss
    proof -
      have fields: "ad_accounts db' = ad_accounts db" "ad_identities db' = ad_identities db" by (simp_all add: db')
      show ?thesis using that unfolding session_rows_def fields by (induction ss) auto
    qed
    then have "session_rows db' (token_hash token) now (ad_sessions db') = session_rows db (token_hash token) now (ad_sessions db)"
      by (cases "blank v") (simp_all add: db')
    moreover have "principal_of db' = principal_of db" by (intro ext) (simp add: db' principal_of_def load_roles_def)
    ultimately show ?thesis by (simp add: lookup_principal_by_session_def split: list.split)
  qed
  ultimately show ?thesis by (simp add: resp cleared_cookie_def)
qed

end
