(* ===== verification/Http_Spec.thy ===== *)
theory Http_Spec
  imports Http Auth_Spec Bots_Spec
begin

text \<open>
  What the operator API guarantees: every answer is well formed, the arena changes only behind the gates,
  and the auth tables change only by the operations of the auth store.
\<close>

section \<open>Routing\<close>

lemma find_route_Found:
  assumes "find_route rs m ss = Found e"
  obtains rm ps where "(rm, ps, e) \<in> set rs" "method_matches rm m" "segments_match ps ss"
  using assms by (auto simp: find_route_def find_Some_iff split: option.splits if_splits) (metis nth_mem)

lemma found_revision:
  assumes "find_route (open_routes b) m ss = Found e" "e = ToBotRevision \<or> e = ToBotRetire"
  shows "m = ''POST''"
  using assms(1) by (rule find_route_Found) (use assms(2) in \<open>auto simp: open_routes_def method_matches_def split: if_splits\<close>)

lemma found_protected:
  assumes "find_route protected_routes m ss = Found e" "m \<noteq> ''POST''"
  shows "e \<in> {ToGames, ToAIs, ToMatchRequests, ToEligible, ToRankings, ToActive, ToCompleted, ToDetail}"
  using assms(1) by (rule find_route_Found) (use assms(2) in \<open>auto simp: protected_routes_def method_matches_def\<close>)

section \<open>Parts of the site\<close>

lemma on_auth_arena [simp]: "si_arena (snd (on_auth f s)) = si_arena s"
  by (simp add: on_auth_def split: prod.split)

lemma on_auth_auth [simp]: "si_auth (snd (on_auth f s)) = snd (f (si_auth s))"
  by (simp add: on_auth_def split: prod.split)

lemma on_arena_auth [simp]: "si_auth (snd (on_arena f s)) = si_auth s"
  by (simp add: on_arena_def split: prod.split)

lemma on_general_auth [simp]: "si_auth (snd (on_general f s)) = si_auth s"
  by (simp add: on_general_def)

lemma on_rest_auth [simp]: "si_auth (snd (on_rest f s)) = si_auth s"
  by (simp add: on_rest_def)

lemma on_bots_auth [simp]: "si_auth (snd (on_bots f s)) = si_auth s"
  by (simp add: on_bots_def)

lemma on_bots_result: "fst (on_bots f s) = fst (f (site_bots s))"
  by (simp add: on_bots_def on_arena_def split: prod.split)

lemma on_bots_arena: "si_arena (snd (on_bots f s)) =
    (si_arena s)\<lparr>sv_rest := (sv_rest (si_arena s))\<lparr>as_bots := snd (f (site_bots s))\<rparr>\<rparr>"
  by (simp add: on_bots_def on_arena_def split: prod.split)

lemma answers_snd [simp]: "snd (answers x) = snd x"
  by (simp add: answers_def)

text \<open>The state after the handlers: an operation on a part of the site, or nothing.\<close>

lemma run_command_site: "snd (handle_run_command api status f s) = snd (on_arena f s)"
  by (cases "on_arena f s") (auto simp: handle_run_command_def split: sum.split)

lemma bot_retire_site: "snd (handle_bot_retire api env r bid s) = s \<or>
    (\<exists>p. session_principal (ae_auth env) r (si_auth s) = Inr p \<and>
      snd (handle_bot_retire api env r bid s) = snd (on_bots (retire (pr_account p) bid) s))"
  by (auto simp: handle_bot_retire_def split: sum.split prod.split)

lemma bot_revision_site: "snd (handle_bot_revision api env r body s) = s \<or>
    (\<exists>p req. session_principal (ae_auth env) r (si_auth s) = Inr p \<and> vr_owner req = pr_account p \<and>
      snd (handle_bot_revision api env r body s) =
        snd (on_bots (create_or_revise (ae_lower env) (ae_bot env) (ae_ai env) (au_now (ae_auth env)) req) s))"
proof (cases "\<not> oa_with_bots api \<or> oa_auth api = None")
  case False
  show ?thesis
  proof (cases "session_principal (ae_auth env) r (si_auth s)")
    case (Inr p)
    show ?thesis
    proof (cases "bd_bot body")
      case (Some b)
      obtain i req0 where b: "b = (i, req0)" by (cases b)
      let ?req = "req0\<lparr>vr_owner := pr_account p\<rparr>"
      let ?scope = "if cs_scope (vr_scope ?req) = [] then i else cs_scope (vr_scope ?req)"
      show ?thesis
      proof (cases "bot_request api ?scope ?req (site_general s)")
        case (Inl e)
        then show ?thesis using False Inr Some b by (cases e) (simp add: handle_bot_revision_def Let_def)
      next
        case req: (Inr req)
        have "vr_owner req = pr_account p"
          using req by (auto simp: bot_request_def Let_def split: sum.splits option.splits if_splits)
        moreover have "snd (handle_bot_revision api env r body s) =
            snd (on_bots (create_or_revise (ae_lower env) (ae_bot env) (ae_ai env) (au_now (ae_auth env)) req) s)"
          using False Inr Some b req by (auto simp: handle_bot_revision_def Let_def split: sum.split prod.split)
        ultimately show ?thesis using Inr by blast
      qed
    qed (use False Inr in \<open>simp add: handle_bot_revision_def\<close>)
  qed (use False in \<open>simp add: handle_bot_revision_def\<close>)
qed (simp add: handle_bot_revision_def)


lemma answered_state [simp]:
  "snd (case x of (Inl e, s1) \<Rightarrow> (f e s1, s1) | (Inr a, s1) \<Rightarrow> (g a s1, s1)) = snd x"
  "snd (case x' of (Inl e, s1) \<Rightarrow> (f e s1, s1) | (Inr (a, b), s1) \<Rightarrow> (h a b s1, s1)) = snd x'"
  by (simp_all split: prod.split sum.split)

lemma games_site: "snd (handle_game_registrations api r body s) = s \<or> hr_method r = ''POST'' \<and>
    (\<exists>req. snd (handle_game_registrations api r body s) = snd (on_general (register_game (oa_general api) req) s))"
  by (auto simp: handle_game_registrations_def split: option.split)

lemma ais_site: "snd (handle_ai_submissions api env r body s) = s \<or> hr_method r = ''POST'' \<and>
    (\<exists>req. snd (handle_ai_submissions api env r body s) = snd (on_general (register_ai (oa_general api) (ae_ai env) req) s))"
  by (auto simp: handle_ai_submissions_def split: option.split)

lemma match_requests_site: "snd (handle_match_requests api env r body s) = s \<or> hr_method r = ''POST'' \<and>
    (\<exists>req. snd (handle_match_requests api env r body s) =
       snd (on_arena (create_match_request (request_env_of api) (ae_ids env) req) s))"
  by (auto simp: handle_match_requests_def split: option.split sum.split)

lemma ai_upload_site: "snd (handle_ai_bundle_upload api env body s) = s \<or>
    (\<exists>req data. snd (handle_ai_bundle_upload api env body s) =
       snd (on_general (register_ai_bundle (oa_general api) (ae_ai env) req data) s))"
  by (auto simp: handle_ai_bundle_upload_def split: sum.split)

lemma game_upload_site: "snd (handle_game_bundle_upload api body s) = s \<or>
    (\<exists>b st data. snd (handle_game_bundle_upload api body s) =
       snd (on_rest (register_game_bundle b st (ge_registry (oa_general api)) data) s))"
  by (cases "ad_store (ge_admission (oa_general api))"; cases "oa_admits_games api"; cases "uploaded_file body")
    (auto simp: handle_game_bundle_upload_def)

lemma invites_site: "snd (handle_signup_invites api env body s) = s \<or>
    (\<exists>role ttl. snd (handle_signup_invites api env body s) = snd (on_auth (create_signup_invite (ae_auth env) role ttl) s))"
  by (auto simp: handle_signup_invites_def Let_def split: option.split)

section \<open>Who changes what\<close>

lemma protected_arena:
  assumes "hr_method r \<noteq> ''POST''"
  shows "snd (serve_protected api env r body ss s) = s"
proof (cases "find_route protected_routes (hr_method r) ss")
  case (Found e)
  have "e \<in> {ToGames, ToAIs, ToMatchRequests, ToEligible, ToRankings, ToActive, ToCompleted, ToDetail}"
    using found_protected [OF Found assms] .
  then show ?thesis
    using assms games_site [of api r body s] ais_site [of api env r body s] match_requests_site [of api env r body s]
    by (auto simp: serve_protected_def Found Let_def)
qed (simp_all add: serve_protected_def Let_def)

lemma invite_step: "auth_step\<^sup>*\<^sup>* db (snd (create_signup_invite env role ttl db))"
  by (auto simp: create_signup_invite_def Let_def intro: do_invite)

lemma protected_auth:
  "si_auth (snd (serve_protected api env r body ss s)) = si_auth s \<or>
   find_route protected_routes (hr_method r) ss = Found ToInvites \<and>
   auth_step\<^sup>*\<^sup>* (si_auth s) (si_auth (snd (serve_protected api env r body ss s)))"
proof (cases "find_route protected_routes (hr_method r) ss")
  case (Found e)
  show ?thesis
  proof (cases "e = ToInvites")
    case True
    then show ?thesis using invites_site [of api env body s]
      by (auto simp: serve_protected_def Found Let_def invite_step)
  next
    case False
    have "si_auth (snd (handle_game_registrations api r body s)) = si_auth s"
      "si_auth (snd (handle_ai_submissions api env r body s)) = si_auth s"
      "si_auth (snd (handle_match_requests api env r body s)) = si_auth s"
      "si_auth (snd (handle_ai_bundle_upload api env body s)) = si_auth s"
      "si_auth (snd (handle_game_bundle_upload api body s)) = si_auth s"
      using games_site [of api r body s] ais_site [of api env r body s] match_requests_site [of api env r body s]
        ai_upload_site [of api env body s] game_upload_site [of api body s] by auto
    with False show ?thesis
      by (cases e) (simp_all add: serve_protected_def Found Let_def run_command_site)
  qed
qed (simp_all add: serve_protected_def Let_def)

lemma resolved_step: "resolve_identity_login fault account identity invite now db = (x, db1) \<Longrightarrow> auth_step db db1"
  using do_login [of db fault account identity invite now] by simp

lemma login_steps: "auth_step\<^sup>*\<^sup>* db (snd (complete_callback a env name provider r db))"
  by (auto simp: complete_callback_def Let_def split: option.split sum.split prod.split exchange_error.split
      dest!: resolved_step intro: rtranclp.rtrancl_into_rtrancl do_session)

lemma logout_steps: "auth_step\<^sup>*\<^sup>* db (snd (logout a env r db))"
  by (auto simp: logout_def Let_def split: option.split intro: do_delete)

lemma serve_auth_steps: "auth_step\<^sup>*\<^sup>* db (snd (serve_auth a env r e db))"
  by (cases e) (simp_all add: serve_auth_def Let_def login_steps logout_steps)

lemma gate_snd: "snd (gate refusal s x) = (if refusal = None then snd x else s)"
  by (simp add: gate_def split: option.split)

lemma open_auth: "auth_step\<^sup>*\<^sup>* (si_auth s) (si_auth (snd (serve_open api env r body ss e s)))"
proof -
  have "si_auth (snd (handle_bot_revision api env r body s)) = si_auth s"
    using bot_revision_site [of api env r body s] by auto
  moreover have "si_auth (snd (handle_bot_retire api env r bid s)) = si_auth s" for bid
    using bot_retire_site [of api env r bid s] by auto
  ultimately show ?thesis
    by (cases e) (simp_all add: serve_open_def Let_def gate_snd serve_auth_steps split: option.split)
qed

lemma open_arena:
  assumes "e \<noteq> ToBotRevision" "e \<noteq> ToBotRetire"
  shows "si_arena (snd (serve_open api env r body ss e s)) = si_arena s"
  using assms by (cases e) (simp_all add: serve_open_def Let_def gate_snd split: option.split)

text \<open>A request either stays in front, or is for one of the two multiplexers.\<close>

lemma dispatch_cases:
  obtains (opened) e where "found = Found e" "dispatch api env r body ss found s = serve_open api env r body ss e s"
  | (protected) "\<And>e. found \<noteq> Found e" "oa_auth api = None \<or> require_operator (ae_auth env) r (si_auth s) = None"
      "in_subtree ss" "dispatch api env r body ss found s = serve_protected api env r body ss s"
  | (refused) status e where "\<And>e. found \<noteq> Found e" "require_operator (ae_auth env) r (si_auth s) = Some (status, e)"
      "dispatch api env r body ss found s = (answer (refuse status (AuthRefused e)), s)"
  | (unknown) status where "status = 404 \<or> status = 405" "dispatch api env r body ss found s = (answer (status, Empty), s)"
proof (cases "\<exists>e. found = Found e")
  case True
  then show ?thesis using opened by (auto simp: dispatch_def)
next
  case False
  then have d: "dispatch api env r body ss found s =
      (if in_subtree ss then
         (if oa_auth api = None then serve_protected api env r body ss s
          else gate (require_operator (ae_auth env) r (si_auth s)) s (serve_protected api env r body ss s))
       else (answer (if found = WrongMethod then 405 else 404, Empty), s))"
    by (cases found) (simp_all add: dispatch_def)
  show ?thesis
  proof (cases "in_subtree ss")
    case True
    show ?thesis
    proof (cases "require_operator (ae_auth env) r (si_auth s)")
      case None
      then show ?thesis using protected False True d by (simp add: gate_def)
    next
      case (Some x)
      then show ?thesis using refused protected False True d
        by (cases x; cases "oa_auth api = None") (simp_all add: gate_def)
    qed
  qed (use unknown [of 404] unknown [of 405] d in \<open>cases "found = WrongMethod"; simp\<close>)
qed

lemma handle_request_snd:
  "snd (handle_request api env r body s) = (if hr_method r = ''OPTIONS'' then s else snd (serve api env r body s))"
  by (simp add: handle_request_def split: prod.split)


section \<open>Claims\<close>

text \<open>A bot operation for one account leaves the bots of the others.\<close>

lemma retire_others:
  assumes "bot_store_ok quota bots" "ob_owner x \<noteq> trim_space owner"
  shows "map_of (bs_bots (snd (retire owner i bots))) k = Some x \<longleftrightarrow> map_of (bs_bots bots) k = Some x"
proof (cases rule: retire_cases [of owner i bots])
  case (2 b)
  have "ob_bot b = trim_space i" using bot_store_okD(2) [OF assms(1) 2(1)] .
  with 2 show ?thesis using assms(2) by auto
qed simp

lemma revision_others:
  assumes "bot_store_ok quota bots" "''bot-'' @ fb \<notin> fst ` set (bs_bots bots)" "ob_owner x \<noteq> vr_owner req"
  shows "map_of (bs_bots (snd (create_or_revise to_lower fb fa now req bots))) k = Some x \<longleftrightarrow> map_of (bs_bots bots) k = Some x"
proof (cases rule: create_or_revise_cases [of to_lower fb fa now req bots])
  case (2 b ai)
  have owner: "ob_owner b = vr_owner req"
    using 2(3) by (auto dest!: new_bot_ok revised_bot_ok simp: is_active_def)
  have "ob_owner c = vr_owner req" if "map_of (bs_bots bots) (ob_bot b) = Some c" for c
    using 2(3)
  proof
    assume "new_bot to_lower fb req bots = Inr b"
    then have "ob_bot b = ''bot-'' @ fb" using new_bot_ok by blast
    then show ?thesis using that assms(2) by (metis map_of_eq_None_iff option.distinct(1))
  next
    assume "revised_bot (trim_space (vr_bot req)) req bots = Inr b"
    then have b: "map_of (bs_bots bots) (trim_space (vr_bot req)) = Some b" using revised_bot_ok by blast
    then have "ob_bot b = trim_space (vr_bot req)" using bot_store_okD(2) [OF assms(1)] by blast
    then show ?thesis using b that owner by simp
  qed
  with owner 2(2) show ?thesis using assms(3) by auto
qed simp


lemma dispatch_auth: "auth_step\<^sup>*\<^sup>* (si_auth s) (si_auth (snd (dispatch api env r body ss found s)))"
proof (cases rule: dispatch_cases [of found api env r body ss s])
  case protected
  then show ?thesis using protected_auth [of api env r body ss s] by auto
qed (simp_all add: open_auth)

lemma request_auth_steps: "auth_step\<^sup>*\<^sup>* (si_auth s) (si_auth (snd (handle_request api env r body s)))"
  by (simp add: handle_request_snd serve_def Let_def dispatch_auth split: option.split)

text \<open>A sequence of requests, each with its environment and body.\<close>

definition handle_all :: "('x, 'h) operator_api \<Rightarrow> (api_env \<times> http_request \<times> request_body) list \<Rightarrow> 'x site \<Rightarrow> 'x site" where
  "handle_all api rs s = fold (\<lambda>(env, r, body) s. snd (handle_request api env r body s)) rs s"

lemma handle_all_auth: "auth_step\<^sup>*\<^sup>* (si_auth s) (si_auth (handle_all api rs s))"
proof (induction rs arbitrary: s)
  case (Cons x rs)
  obtain env r body where x: "x = (env, r, body)" by (cases x)
  have "auth_step\<^sup>*\<^sup>* (si_auth s) (si_auth (snd (handle_request api env r body s)))" by (rule request_auth_steps)
  also have "auth_step\<^sup>*\<^sup>* (si_auth (snd (handle_request api env r body s)))
      (si_auth (handle_all api rs (snd (handle_request api env r body s))))" by (rule Cons)
  finally show ?case by (simp add: handle_all_def x)
qed (simp add: handle_all_def)

text \<open>
  C10. From any tables that the auth store made, whatever requests arrive, with whatever methods, paths, cookies and bodies, and whatever fails behind
  them: every account of the service was opened by exactly one invite, which it claimed before the invite
  expired, has the role of that invite and no other, and one identity; nobody else can claim the invite,
  and no two accounts have the same provider identity.
\<close>

theorem requests_keep_accounts:
  assumes "auth_step\<^sup>*\<^sup>* empty_auth (si_auth s)" "db = si_auth (handle_all api rs s)" "a \<in> set (ad_accounts db)"
  shows "\<exists>v \<in> set (ad_invites db). \<exists>t. iv_claim v = Some (a, t) \<and> t < iv_expires v \<and> load_roles db a = [iv_role v] \<and>
    iv_role v \<in> {''participant'', ''developer'', ''operator''} \<and>
    (\<forall>w \<in> set (ad_invites db). (\<exists>u. iv_claim w = Some (a, u)) \<longrightarrow> w = v) \<and>
    (\<exists>i. filter (\<lambda>x. ai_account x = a) (ad_identities db) = [i] \<and>
      (\<forall>j \<in> set (ad_identities db). identity_key j = identity_key i \<longrightarrow> j = i))"
proof -
  have steps: "auth_step\<^sup>*\<^sup>* empty_auth db" using rtranclp_trans [OF assms(1) handle_all_auth [of s api rs]] assms(2) by simp
  have "auth_ok db" using auth_ok_steps [OF steps auth_ok_empty] .
  then have "\<forall>v \<in> set (ad_invites db). iv_role v \<in> {''participant'', ''developer'', ''operator''}" by (auto simp: auth_ok_def)
  with accounts_come_from_invites [OF steps assms(3)] show ?thesis by meson
qed

text \<open>
  C9. With authentication enabled, a request changes the arena (the queue, runs, requests, registrations,
  bundles, rankings or bots) only by POST, and only if its session is an operator's; any other account can
  change nothing but the bot store, and there only bots of its own.
\<close>

theorem arena_changes_gated:
  assumes "oa_auth api = Some a" "handle_request api env r body s = (resp, s')" "si_arena s' \<noteq> si_arena s"
    and "bot_store_ok quota (site_bots s)" "''bot-'' @ ae_bot env \<notin> fst ` set (bs_bots (site_bots s))"
  shows "hr_method r = ''POST'' \<and>
    (require_operator (ae_auth env) r (si_auth s) = None \<or>
     (\<exists>p bots. session_principal (ae_auth env) r (si_auth s) = Inr p \<and>
       s' = s\<lparr>si_arena := (si_arena s)\<lparr>sv_rest := (sv_rest (si_arena s))\<lparr>as_bots := bots\<rparr>\<rparr>\<rparr> \<and>
       (\<forall>k b. ob_owner b \<notin> {pr_account p, trim_space (pr_account p)} \<longrightarrow>
         map_of (bs_bots bots) k = Some b \<longleftrightarrow> map_of (bs_bots (site_bots s)) k = Some b)))"
proof -
  let ?ss = "path_segments (routed_path r)"
  let ?found = "find_route (open_routes True) (hr_method r) ?ss"
  have s': "s' = snd (dispatch api env r body ?ss ?found s)"
    using assms(1-3) handle_request_snd [of api env r body s]
    by (auto simp: serve_def Let_def split: if_splits option.splits)
  show ?thesis
  proof (cases rule: dispatch_cases [of ?found api env r body ?ss s])
    case (opened e)
    have bots: "e = ToBotRevision \<or> e = ToBotRetire"
      using open_arena [of e api env r body ?ss s] assms(3) s' opened(2) by auto
    then have post: "hr_method r = ''POST''" using found_revision [OF opened(1)] by blast
    have update: "snd (on_bots f s) = s\<lparr>si_arena := (si_arena s)\<lparr>sv_rest := (sv_rest (si_arena s))\<lparr>as_bots := snd (f (site_bots s))\<rparr>\<rparr>\<rparr>"
      for f :: "bot_store \<Rightarrow> 'c \<times> bot_store"
      by (simp add: on_bots_def on_arena_def split: prod.split)
    consider (revise) p req where "session_principal (ae_auth env) r (si_auth s) = Inr p" "vr_owner req = pr_account p"
        "s' = snd (on_bots (create_or_revise (ae_lower env) (ae_bot env) (ae_ai env) (au_now (ae_auth env)) req) s)"
      | (retire) p where "session_principal (ae_auth env) r (si_auth s) = Inr p"
        "s' = snd (on_bots (retire (pr_account p) (path_value ?ss)) s)"
    proof (rule disjE [OF bots])
      assume "e = ToBotRevision"
      then have "s' = snd (handle_bot_revision api env r body s)"
        using s' opened(2) assms(3) by (auto simp: serve_open_def Let_def gate_snd split: if_splits)
      then show thesis using bot_revision_site [of api env r body s] assms(3) revise by auto
    next
      assume "e = ToBotRetire"
      then have "s' = snd (handle_bot_retire api env r (path_value ?ss) s)"
        using s' opened(2) assms(3) by (auto simp: serve_open_def Let_def gate_snd split: if_splits)
      then show thesis using bot_retire_site [of api env r "path_value ?ss" s] assms(3) retire by auto
    qed
    then show ?thesis
    proof cases
      case (revise p req)
      then show ?thesis using post revision_others [OF assms(4,5), of _ req] unfolding update by auto
    next
      case (retire p)
      then show ?thesis using post retire_others [OF assms(4), of _ "pr_account p"] unfolding update by auto
    qed
  next
    case protected
    then show ?thesis using protected_arena [of r api env body ?ss s] assms(1,3) s'
      by (cases "hr_method r = ''POST''") auto
  qed (use s' assms(3) in auto)
qed


section \<open>Well-formed answers\<close>

definition well_formed :: "response \<Rightarrow> bool" where
  "well_formed resp \<longleftrightarrow> (rs_status resp \<in> {302, 307} \<or> rs_location resp = []) \<and>
     (case rs_body resp of
        ErrorAnswer e \<Rightarrow> rs_status resp \<in> {400, 401, 403, 404, 405, 409, 500, 503}
      | AuthAnswer b \<Rightarrow> (case b of AuthFailed e \<Rightarrow> rs_status resp \<in> {400, 403, 404, 500} | _ \<Rightarrow> rs_status resp \<in> {204, 302})
      | Empty \<Rightarrow> rs_status resp \<in> {204, 404, 405} \<and> rs_location resp = [] \<or>
          rs_status resp = 307 \<and> prefix ''/'' (rs_location resp) \<and> \<not> prefix ''//'' (rs_location resp)
      | Run item \<Rightarrow> rs_status resp \<in> {200, 201}
      | Invite i u \<Rightarrow> rs_status resp = 201 | Game g \<Rightarrow> rs_status resp = 201 | AI ai \<Rightarrow> rs_status resp = 201
      | GameBundle d \<Rightarrow> rs_status resp = 201 | Requested q \<Rightarrow> rs_status resp = 201 | Revised b rv \<Rightarrow> rs_status resp = 201
      | _ \<Rightarrow> rs_status resp = 200)"

text \<open>The target of a redirect by the multiplexer is a path of the service itself, never another host.\<close>

lemma clean_path_start:
  "clean_path q = ''/'' \<or> (\<exists>c cs. clean_path q = CHR ''/'' # c # cs \<and> c \<noteq> CHR ''/'')"
proof (cases "q = []")
  case False
  define p where "p = (if hd q = CHR ''/'' then q else CHR ''/'' # q)"
  have p: "is_abs p" using False by (simp add: p_def is_abs_def)
  have "clean p = ''/'' \<or> (\<exists>c cs. clean p = CHR ''/'' # c # cs \<and> c \<noteq> CHR ''/'')"
    using join_elements_start [of p] p by (cases "elements p = []") (auto simp: clean_by_elements)
  moreover have "clean_path q = (if last p = CHR ''/'' \<and> clean p \<noteq> ''/'' then clean p @ ''/'' else clean p)"
    using False by (simp add: clean_path_def p_def Let_def)
  ultimately show ?thesis by auto
qed (simp add: clean_path_def)

lemma escape_non_ascii_Cons:
  "escape_non_ascii (c # s) = (if of_char c < (128 :: nat) then [c] else CHR ''%'' # hex [c]) @ escape_non_ascii s"
  by (simp add: escape_non_ascii_def)

lemma mux_redirect_location:
  obtains t where "rs_location (mux_redirect r p) = CHR ''/'' # t" "\<not> prefix ''/'' t"
proof -
  let ?q = "if hr_raw_query r = [] then [] else CHR ''?'' # hr_raw_query r"
  have no_slash: "\<not> prefix ''/'' (escape_non_ascii (c # s))" if "c \<noteq> CHR ''/''" for c s
    using that by (simp add: escape_non_ascii_Cons)
  have loc: "rs_location (mux_redirect r p) = escape_non_ascii (clean_path (escape_path p) @ ?q)"
    by (simp only: mux_redirect_def http_response.simps)
  show thesis
  proof (cases "clean_path (escape_path p) = ''/''")
    case True
    have "\<not> prefix ''/'' (escape_non_ascii ?q)"
      using no_slash [of "CHR ''?''" "hr_raw_query r"] by (simp add: escape_non_ascii_def)
    moreover have "rs_location (mux_redirect r p) = CHR ''/'' # escape_non_ascii ?q"
      unfolding loc True by (simp add: escape_non_ascii_Cons)
    ultimately show thesis using that by blast
  next
    case False
    then obtain c cs where c: "clean_path (escape_path p) = CHR ''/'' # c # cs" "c \<noteq> CHR ''/''"
      using clean_path_start by blast
    have "rs_location (mux_redirect r p) = CHR ''/'' # escape_non_ascii (c # (cs @ ?q))"
      unfolding loc c(1) append_Cons by (subst escape_non_ascii_Cons) simp
    then show thesis using that no_slash [OF c(2)] by blast
  qed
qed

lemma mux_redirect_well_formed: "well_formed (mux_redirect r p)"
proof -
  obtain t where t: "rs_location (mux_redirect r p) = CHR ''/'' # t" "\<not> prefix ''/'' t"
    by (rule mux_redirect_location)
  have "rs_status (mux_redirect r p) = 307" "rs_body (mux_redirect r p) = Empty" by (simp_all add: mux_redirect_def)
  with t show ?thesis by (simp add: well_formed_def)
qed

lemma status_code_range: "status_code_for_service_error e \<in> {400, 404, 409, 500}"
  by (simp add: status_code_for_service_error_def)

lemma well_formed_refuse:
  "st \<in> {400, 401, 403, 404, 405, 409, 500, 503} \<Longrightarrow> well_formed (answer (refuse st e))"
  by (simp add: well_formed_def answer_def refuse_def)

lemma well_formed_service [simp]: "well_formed (answer (refuse_service e))"
  unfolding refuse_service_def using status_code_range [of e] by (intro well_formed_refuse) auto

lemma well_formed_refused [simp]:
  "well_formed (answer (refuse 400 e))" "well_formed (answer (refuse 401 e))" "well_formed (answer (refuse 404 e))"
  "well_formed (answer (refuse 405 e))" "well_formed (answer (refuse 500 e))" "well_formed (answer (refuse 503 e))"
  by (simp_all add: well_formed_refuse)

text \<open>The answer of a handler and its state.\<close>

lemma well_formed_answered:
  assumes "\<And>e. well_formed (answer (f e))" "\<And>a. well_formed (answer (g a))"
  shows "well_formed (answer (fst (case x of (Inl e, s1) \<Rightarrow> (f e, s1) | (Inr a, s1) \<Rightarrow> (g a, s1))))"
  using assms by (simp split: prod.split sum.split)

lemma handlers_well_formed [simp]:
  "well_formed (answer (handle_eligible_bots api r s))"
  "well_formed (answer (handle_bots api env r s))"
  "well_formed (answer (handle_rankings api r s))"
  "well_formed (answer (handle_match_list api states s))"
  "well_formed (answer (handle_match_detail api rid s))"
  by (auto simp: handle_eligible_bots_def handle_bots_def handle_rankings_def handle_match_list_def handle_match_detail_def
      Let_def split: option.split sum.split prod.split) (simp_all add: well_formed_def answer_def)

lemma bot_request_status: "bot_request api i req w = Inl (status, e) \<Longrightarrow> status \<in> {400, 404, 409, 500}"
  using status_code_range
  by (auto simp: bot_request_def Let_def split: sum.splits option.splits if_splits prod.splits)


lemma well_formed_auth [simp]:
  "well_formed (auth_answer (Auth.failed 400 e cs))" "well_formed (auth_answer (Auth.failed 404 e cs))"
  "well_formed (auth_answer (Auth.failed 500 e cs))" "well_formed (auth_answer (redirect l cs))"
  "well_formed (auth_answer (redirect_login_error env r p cs c))"
  by (simp_all add: well_formed_def auth_answer_def Auth.failed_def redirect_def redirect_login_error_def Let_def split: option.split)

lemma serve_auth_well_formed: "well_formed (auth_answer (fst (serve_auth a env r e db)))"
proof -
  have "well_formed (auth_answer (fst (complete_callback a aenv name op r db)))" for aenv name op
    by (simp add: complete_callback_def Let_def split: sum.split option.split prod.split exchange_error.split)
  moreover have "well_formed (auth_answer (start_login a aenv name op r))" for aenv name op
    by (simp add: start_login_def Let_def split: sum.split option.split)
  moreover have "well_formed (auth_answer (fst (logout a aenv r db)))" for aenv
    by (simp add: logout_def Let_def well_formed_def auth_answer_def)
  ultimately show ?thesis by (cases e) (simp_all add: serve_auth_def Let_def)
qed

lemma uploads_well_formed [simp]:
  "well_formed (answer (fst (handle_ai_bundle_upload api env body s)))"
  "well_formed (answer (fst (handle_game_bundle_upload api body s)))"
  "well_formed (answer (fst (handle_signup_invites api env body s)))"
  by (auto simp: handle_ai_bundle_upload_def handle_game_bundle_upload_def handle_signup_invites_def Let_def
      split: option.split sum.split prod.split bool.split) (simp_all add: well_formed_def answer_def)

lemma stores_well_formed [simp]:
  "well_formed (answer (fst (handle_game_registrations api r body s)))"
  "well_formed (answer (fst (handle_ai_submissions api env r body s)))"
  "well_formed (answer (fst (handle_match_requests api env r body s)))"
  by (auto simp: handle_game_registrations_def handle_ai_submissions_def handle_match_requests_def
      split: option.split sum.split prod.split) (simp_all add: well_formed_def answer_def)

lemma commands_well_formed: "status \<in> {200, 201} \<Longrightarrow> well_formed (answer (fst (handle_run_command api status f s)))"
  by (auto simp: handle_run_command_def split: sum.split prod.split) (simp_all add: well_formed_def answer_def)

lemma retire_well_formed [simp]: "well_formed (answer (fst (handle_bot_retire api env r bid s)))"
  by (auto simp: handle_bot_retire_def split: sum.split prod.split) (simp_all add: well_formed_def answer_def)

lemma revision_well_formed [simp]: "well_formed (answer (fst (handle_bot_revision api env r body s)))"
proof -
  have "well_formed (answer (refuse status e))" if "bot_request api i req w = Inl (status, e)" for i req w status e
    using bot_request_status [OF that] by (intro well_formed_refuse) auto
  then show ?thesis
    by (auto simp: handle_bot_revision_def Let_def split: sum.split option.split prod.split) (simp_all add: well_formed_def answer_def)
qed

lemma well_formed_plain [simp]:
  "well_formed (answer (404, Empty))" "well_formed (answer (405, Empty))" "well_formed (answer (204, Empty))"
  "well_formed (answer (200, Health h))" "well_formed (answer (200, VersionAnswer v))" "well_formed (answer (200, SessionAnswer t))"
  by (simp_all add: well_formed_def answer_def)

lemma protected_well_formed: "well_formed (fst (serve_protected api env r body ss s))"
proof (cases "find_route protected_routes (hr_method r) ss")
  case (Found e)
  have [simp]: "fst (answers x) = answer (fst x)" for x :: "reply \<times> 'z" by (simp add: answers_def)
  show ?thesis by (cases e) (simp_all add: serve_protected_def Let_def Found commands_well_formed)
qed (simp_all add: serve_protected_def Let_def)

lemma open_well_formed: "well_formed (fst (serve_open api env r body ss e s))"
proof -
  have [simp]: "fst (answers x) = answer (fst x)" for x :: "reply \<times> 'z" by (simp add: answers_def)
  have gated: "well_formed (fst (gate (require_authenticated aenv r db) s x))" if "well_formed (fst x)" for aenv db x
    using that by (simp add: gate_def require_authenticated_def split: sum.split)
  have auth: "well_formed (auth_answer (fst (on_auth (serve_auth a env r e) s)))" for a
    using serve_auth_well_formed [of a env r e "si_auth s"]
    by (cases "serve_auth a env r e (si_auth s)") (simp add: on_auth_def)
  show ?thesis
    using auth by (cases e) (simp_all add: serve_open_def Let_def gated split: option.split)
qed

text \<open>
  C15. Every answer is well formed, whatever the request: an error body comes with a status of an error, a
  result with 200 or, where something was created, 201. Only redirects have a location: the 302 of the login
  routes, and the 307 of the multiplexer, which always has one, a path of this service (one slash in front,
  so no other host). The other answers without a body of the API are 204, 404 and 405.
\<close>

theorem answers_well_formed:
  "case handle_request api env r body s of ((resp, headers), s') \<Rightarrow>
     (rs_status resp \<in> {302, 307} \<or> rs_location resp = []) \<and>
     (case rs_body resp of
        ErrorAnswer e \<Rightarrow> rs_status resp \<in> {400, 401, 403, 404, 405, 409, 500, 503}
      | AuthAnswer b \<Rightarrow> (case b of AuthFailed e \<Rightarrow> rs_status resp \<in> {400, 403, 404, 500} | _ \<Rightarrow> rs_status resp \<in> {204, 302})
      | Empty \<Rightarrow> rs_status resp \<in> {204, 404, 405} \<and> rs_location resp = [] \<or>
          rs_status resp = 307 \<and> prefix ''/'' (rs_location resp) \<and> \<not> prefix ''//'' (rs_location resp)
      | Run item \<Rightarrow> rs_status resp \<in> {200, 201}
      | Invite i u \<Rightarrow> rs_status resp = 201 | Game g \<Rightarrow> rs_status resp = 201 | AI ai \<Rightarrow> rs_status resp = 201
      | GameBundle d \<Rightarrow> rs_status resp = 201 | Requested q \<Rightarrow> rs_status resp = 201 | Revised b rv \<Rightarrow> rs_status resp = 201
      | _ \<Rightarrow> rs_status resp = 200)"
proof -
  have gate_status: "status \<in> {401, 403}" if "require_operator (ae_auth env) r (si_auth s) = Some (status, e)" for status e
    using that by (auto simp: require_operator_def split: sum.splits if_splits)
  have "well_formed (fst (dispatch api env r body ss found s))" for ss found
  proof (cases rule: dispatch_cases [of found api env r body ss s])
    case (refused status e)
    then show ?thesis using gate_status [OF refused(2)] well_formed_refuse by auto
  next
    case (unknown status)
    then show ?thesis by auto
  qed (simp_all add: open_well_formed protected_well_formed)
  then have "well_formed (fst (fst (handle_request api env r body s)))"
    using mux_redirect_well_formed
    by (simp add: handle_request_def serve_def Let_def split: prod.split option.split) (metis fst_conv)
  moreover obtain resp headers s' where request: "handle_request api env r body s = ((resp, headers), s')" by (metis prod.exhaust)
  ultimately have "well_formed resp" by simp
  then show ?thesis unfolding request prod.case well_formed_def .
qed


section \<open>The gates\<close>

lemma found_subtree:
  assumes "find_route (open_routes b) m ss = Found e" "in_subtree ss"
  shows "ss ! 2 = ''bots'' \<and> e \<in> {ToBots, ToBotRevision, ToBotRetire}"
  using assms(1) by (rule find_route_Found)
    (use assms(2) in \<open>auto simp: open_routes_def segments_match_def in_subtree_def list_all2_Cons1 split: if_splits\<close>)

text \<open>
  C11. Whatever its method, path and body, a request for \<open>/api/v1\<close> or a path below it (after cleaning)
  without the session of an operator is answered without any knowledge of the arena and changes nothing: an
  OPTIONS request gets an empty 204, a path that the multiplexer cleans or completes is redirected by 307 to a
  target that depends on the request alone, and every other request is told 401, without a session, or 403,
  with the session of another account. The routes of the bots, which any account may use, need at least a
  session.
\<close>

theorem subtree_closed:
  assumes "oa_auth api = Some a" "take 2 (path_segments (routed_path r)) = [''api'', ''v1'']"
    and "case session_principal (ae_auth env) r (si_auth s) of
           Inl e \<Rightarrow> refusal = (401, AuthenticationNeeded)
         | Inr p \<Rightarrow> take 3 (path_segments (routed_path r)) \<noteq> [''api'', ''v1'', ''bots''] \<and>
             \<not> has_role (pr_roles p) ''operator'' \<and> refusal = (403, OperatorRoleNeeded)"
  shows "handle_request api env r body s =
    ((if hr_method r = ''OPTIONS'' then \<lparr>rs_status = 204, rs_location = [], rs_cookies = [], rs_body = Empty\<rparr>
      else case redirect_path r of
        Some p \<Rightarrow> mux_redirect r p
      | None \<Rightarrow> \<lparr>rs_status = fst refusal, rs_location = [], rs_cookies = [], rs_body = ErrorAnswer (AuthRefused (snd refusal))\<rparr>,
      cors_headers r), s)"
proof (cases "hr_method r = ''OPTIONS'' \<or> redirect_path r \<noteq> None")
  case True
  then show ?thesis by (auto simp: handle_request_def serve_def answer_def)
next
  case False
  let ?ss = "path_segments (routed_path r)"
  let ?found = "find_route (open_routes True) (hr_method r) ?ss"
  have op: "require_operator (ae_auth env) r (si_auth s) = Some refusal"
    using assms(3) by (auto simp: require_operator_def split: sum.splits)
  have "?ss \<noteq> [''api'', ''v1'']" using False by (auto simp: redirect_path_def)
  with assms(2) have sub: "in_subtree ?ss"
    by (cases "length ?ss > 2") (auto simp: in_subtree_def)
  have request: "handle_request api env r body s =
      (case dispatch api env r body ?ss ?found s of (resp, s1) \<Rightarrow> ((resp, cors_headers r), s1))"
    using assms(1) False by (simp add: handle_request_def serve_def Let_def)
  have "dispatch api env r body ?ss ?found s = (answer (refuse (fst refusal) (AuthRefused (snd refusal))), s)"
  proof (cases "\<exists>e. ?found = Found e")
    case True
    then obtain e where e: "?found = Found e" by blast
    then have bots: "?ss ! 2 = ''bots''" "e \<in> {ToBots, ToBotRevision, ToBotRetire}" using found_subtree sub by blast+
    then have "take 3 ?ss = [''api'', ''v1'', ''bots'']"
      using sub take_Suc_conv_app_nth [of 2 ?ss] by (simp add: in_subtree_def numeral_3_eq_3 numeral_2_eq_2)
    then obtain x where x: "session_principal (ae_auth env) r (si_auth s) = Inl x" "refusal = (401, AuthenticationNeeded)"
      using assms(3) by (auto split: sum.splits)
    with x bots(2) show ?thesis unfolding e
      by (auto simp: dispatch_def serve_open_def Let_def gate_def require_authenticated_def)
  next
    case False
    then show ?thesis using op assms(1) sub by (cases ?found) (auto simp: dispatch_def gate_def split: prod.split)
  qed
  then show ?thesis using False by (simp add: request answer_def refuse_def)
qed


text \<open>
  C16. What a retirement answers: to the owner of a known bot 200 and the retired bot, to another account 400,
  and for a bot that does not exist 500, although the other handlers give that error as 404; only the first
  changes anything.
\<close>

theorem retire_statuses:
  assumes "oa_auth api = Some a" "oa_with_bots api" "hr_method r = ''POST''" "routed_path r = hr_path r"
    and "path_segments (hr_path r) = [''api'', ''v1'', ''bots'', i, ''retire'']" "i \<noteq> ''/''"
    and "session_principal (ae_auth env) r (si_auth s) = Inr p"
  shows "case handle_request api env r body s of ((resp, headers), s') \<Rightarrow>
    (case map_of (bs_bots (site_bots s)) (trim_space i) of
       None \<Rightarrow> s' = s \<and> rs_status resp = 500 \<and> rs_body resp = ErrorAnswer (BotFailed BotNotFound)
     | Some b \<Rightarrow>
         if ob_owner b = trim_space (pr_account p)
         then rs_status resp = 200 \<and> rs_body resp = Retired (b\<lparr>ob_state := BotRetired\<rparr>) \<and>
           map_of (bs_bots (site_bots s')) (ob_bot b) = Some (b\<lparr>ob_state := BotRetired\<rparr>)
         else s' = s \<and> rs_status resp = 400 \<and> rs_body resp = ErrorAnswer (BotFailed NotOwnedByPrincipal))"
proof -
  let ?ss = "path_segments (hr_path r)"
  have found: "find_route (open_routes True) (hr_method r) ?ss = Found ToBotRetire"
    using assms(3,5,6) by (simp add: find_route_def open_routes_def segments_match_def method_matches_def)
  have login: "require_authenticated (ae_auth env) r (si_auth s) = None"
    using assms(7) by (simp add: require_authenticated_def)
  have request: "handle_request api env r body s =
      (case handle_bot_retire api env r i s of (a, s1) \<Rightarrow> ((answer a, cors_headers r), s1))"
    using assms(1,3-5) found login
    by (simp add: handle_request_def serve_def redirect_path_def Let_def dispatch_def serve_open_def gate_def path_value_def answers_def
        split: prod.split)
  have codes: "status_code_for_service_error (BotFailed BotNotFound) = 500"
    "status_code_for_service_error (BotFailed NotOwnedByPrincipal) = 400"
    by (simp_all add: status_code_for_service_error_def bot_conflict_def bot_bad_def)
  have same: "snd (on_bots f s) = s" if "snd (f (site_bots s)) = site_bots s" for f :: "bot_store \<Rightarrow> 'c \<times> bot_store"
  proof -
    have "s\<lparr>si_arena := (si_arena s)\<lparr>sv_rest := (sv_rest (si_arena s))\<lparr>as_bots := site_bots s\<rparr>\<rparr>\<rparr> = s"
      by (cases s; cases "si_arena s"; cases "sv_rest (si_arena s)") simp
    then show ?thesis using that by (cases "f (site_bots s)") (simp add: on_bots_def on_arena_def)
  qed
  show ?thesis
  proof (cases "map_of (bs_bots (site_bots s)) (trim_space i)")
    case None
    then have "retire (pr_account p) i (site_bots s) = (Inl BotNotFound, site_bots s)" by (simp add: retire_def)
    then have "on_bots (retire (pr_account p) i) s = (Inl BotNotFound, s)"
      using same [of "retire (pr_account p) i"] on_bots_result [of "retire (pr_account p) i" s] by (simp add: prod_eq_iff)
    then show ?thesis using None assms(1,2,7) codes
      by (simp add: request handle_bot_retire_def answer_def refuse_service_def refuse_def)
  next
    case (Some b)
    show ?thesis
    proof (cases "ob_owner b = trim_space (pr_account p)")
      case True
      let ?b = "b\<lparr>ob_state := BotRetired\<rparr>"
      have retired: "retire (pr_account p) i (site_bots s) =
          (Inr ?b, (site_bots s)\<lparr>bs_bots := put (ob_bot b) ?b (bs_bots (site_bots s))\<rparr>)"
        using Some True by (simp add: retire_def Let_def)
      then obtain s1 where "on_bots (retire (pr_account p) i) s = (Inr ?b, s1)" "site_bots s1 = snd (retire (pr_account p) i (site_bots s))"
        using on_bots_result [of "retire (pr_account p) i" s] on_bots_arena [of "retire (pr_account p) i" s]
        by (cases "on_bots (retire (pr_account p) i) s") simp
      then show ?thesis using Some True assms(1,2,7) by (simp add: request handle_bot_retire_def answer_def retired)
    next
      case False
      then have "retire (pr_account p) i (site_bots s) = (Inl NotOwnedByPrincipal, site_bots s)"
        using Some by (simp add: retire_def)
      then have "on_bots (retire (pr_account p) i) s = (Inl NotOwnedByPrincipal, s)"
        using same [of "retire (pr_account p) i"] on_bots_result [of "retire (pr_account p) i" s] by (simp add: prod_eq_iff)
      then show ?thesis using Some False assms(1,2,7) codes
        by (simp add: request handle_bot_retire_def answer_def refuse_service_def refuse_def)
    qed
  qed
qed

end
