(* ===== verification/Auth_Login.thy ===== *)
theory Auth_Login
  imports Auth_Spec Path_Facts
begin

text \<open>
  The login flow: what a signed cookie proves, what a callback needs to change the tables, and a complete
  login from the first request to the session.
\<close>

section \<open>Signed cookies\<close>

lemma decode_signed_Inr:
  "decode_signed_value a v = Inr payload \<longleftrightarrow>
     (\<exists>encoded s. split_on (CHR ''.'') v = [encoded, s] \<and> hex_decode s = Some (hmac_sha256 (ac_secret a) encoded) \<and>
        b64_decode encoded = Some payload)"
  by (auto simp: decode_signed_value_def split: list.splits option.splits if_splits)

lemma hex_no_dot: "CHR ''.'' \<notin> set (hex s)"
proof -
  have digit: "hex_digit n \<noteq> CHR ''.''" if "n < 16" for n
  proof -
    have code: "of_char (hex_digit n) = (if n < 10 then 48 + n else 87 + n)" using that by (simp add: hex_digit_def)
    show ?thesis
    proof
      assume "hex_digit n = CHR ''.''"
      then have "of_char (hex_digit n) = (46 :: nat)" by simp
      with code show False by (simp split: if_splits)
    qed
  qed
  have "hex_digit (of_char c div 16) \<noteq> CHR ''.''" "hex_digit (of_char c mod 16) \<noteq> CHR ''.''" for c
    by (intro digit; simp add: less_mult_imp_div_less)+
  note this [THEN not_sym]
  then show ?thesis by (induction s) (simp_all add: hex_def)
qed

lemma decode_sign: "decode_signed_value a (sign_value (ac_secret a) data) = Inr data"
proof -
  let ?e = "b64_encode data" and ?h = "hex (hmac_sha256 (ac_secret a) (b64_encode data))"
  have "CHR ''.'' \<notin> set ?e" using sextets_chars b64_chars_facts(5) by (auto simp: b64_encode_def)
  then have "split_on (CHR ''.'') (?e @ CHR ''.'' # ?h) = [?e, ?h]"
    by (simp add: split_on_append split_on_single hex_no_dot)
  then show ?thesis
    unfolding decode_signed_Inr sign_value_def Let_def by (simp add: hex_roundtrip b64_roundtrip)
qed

section \<open>The callback\<close>

lemma resolve_who:
  assumes "auth_ok db" "resolve_identity_login fault account identity invite now db = (Inr who, db1)"
  shows "\<exists>i \<in> set (ad_identities db1). who = principal_of db1 i"
proof -
  define n where "n = normalized_identity identity"
  have norm: "normalized_identity n = n" by (simp add: n_def normalized_identity_def)
  have ok: "auth_ok db1" using auth_ok_login [OF assms(1), of fault account identity invite now] assms(2) by simp
  from assms(2) consider (known) "db1 = db" "lookup_principal_by_identity db (ai_provider n) (ai_subject n) = Some who"
    | (new) db2 where "create_principal_from_invite account n invite now db = Inr (who, db2)" "db1 = claim_invite account invite now db2"
    by (auto simp: resolve_identity_login_def Let_def n_def [symmetric] split: if_splits option.splits sum.splits)
  then show ?thesis
  proof cases
    case known
    then show ?thesis by (auto simp: lookup_principal_by_identity_def find_Some_iff)
  next
    case new
    obtain v :: invite_row where v: "who = \<lparr>pr_account = account, pr_provider = ai_provider n, pr_login = ai_login n, pr_email = ai_email n,
        pr_roles = [iv_role v]\<rparr>"
      "db2 = db\<lparr>ad_accounts := ad_accounts db @ [account], ad_identities := ad_identities db @
        [\<lparr>ai_provider = ai_provider n, ai_subject = ai_subject n, ai_login = ai_login n, ai_email = ai_email n,
          ai_account = account, ai_created = now\<rparr>],
        ad_roles := ad_roles db @ [(account, iv_role v)]\<rparr>"
      by (rule create_principal_Inr [OF new(1) norm]) (rule that; assumption)
    let ?row = "\<lparr>ai_provider = ai_provider n, ai_subject = ai_subject n, ai_login = ai_login n,
        ai_email = ai_email n, ai_account = account, ai_created = now\<rparr>"
    have "(account, iv_role v) \<in> set (ad_roles db1)" by (simp add: new(2) claim_invite_def v(2))
    then have "who = principal_of db1 ?row" using load_roles_single [OF ok] by (simp add: principal_of_def v(1))
    moreover have "?row \<in> set (ad_identities db1)" by (simp add: new(2) claim_invite_def v(2))
    ultimately show ?thesis by blast
  qed
qed

lemma principal_of_session:
  assumes "ad_accounts db' = ad_accounts db" "ad_identities db' = ad_identities db" "ad_roles db' = ad_roles db"
  shows "principal_of db' = principal_of db"
  using assms by (intro ext) (simp add: principal_of_def load_roles_def)

text \<open>
  C13. A callback changes the tables only for a browser that proves the login it started: its pending cookie
  is signed with the secret of the service, names this provider and the nonce that comes back as the state,
  and the provider vouches for the identity that is logged in. New sessions are for its account alone.
\<close>

theorem callback_needs_signed_login:
  assumes "complete_callback a env name provider r db = (resp, db')" "db' \<noteq> db"
  shows "\<exists>v encoded s payload p op identity who.
    map_of (hr_cookies r) pending_cookie_name = Some v \<and> split_on (CHR ''.'') v = [encoded, s] \<and>
    hex_decode s = Some (hmac_sha256 (ac_secret a) encoded) \<and> b64_decode encoded = Some payload \<and>
    au_unjson env payload = Some p \<and> pa_nonce p \<noteq> [] \<and> pa_nonce p = trim_space (getd [] (hr_query r) ''state'') \<and>
    provider = Some op \<and> (if blank (pa_provider p) then ''github'' else pa_provider p) = name \<and>
    op_exchange op (trim_space (getd [] (hr_query r) ''code'')) (callback_url r name) = Inr identity \<and>
    fst (resolve_identity_login (au_fault env ResolveLogin) (au_account env) identity (pa_invite p) (au_now env) db) = Inr who \<and>
    (\<forall>x \<in> set (ad_sessions db') - set (ad_sessions db). ss_account x = pr_account who) \<and>
    (rs_status resp = 302 \<longrightarrow> rs_location resp = pa_return p)"
proof -
  obtain q where q: "pending_auth_of a env r = Inr q"
    using assms by (auto simp: complete_callback_def split: sum.splits)
  then obtain v payload p where p: "map_of (hr_cookies r) pending_cookie_name = Some v" "decode_signed_value a v = Inr payload"
    "au_unjson env payload = Some p" "q = (if blank (pa_provider p) then p\<lparr>pa_provider := ''github''\<rparr> else p)"
    by (auto simp: pending_auth_of_def bindR_eq_Inr split: option.splits)
  then have same: "pa_nonce q = pa_nonce p" "pa_return q = pa_return p" "pa_invite q = pa_invite p"
    "pa_provider q = (if blank (pa_provider p) then ''github'' else pa_provider p)" by simp_all
  obtain encoded s where signed: "split_on (CHR ''.'') v = [encoded, s]"
    "hex_decode s = Some (hmac_sha256 (ac_secret a) encoded)" "b64_decode encoded = Some payload"
    using p(2) unfolding decode_signed_Inr by blast
  let ?state = "trim_space (getd [] (hr_query r) ''state'')" and ?code = "trim_space (getd [] (hr_query r) ''code'')"
  have st: "?state \<noteq> []" "?state = pa_nonce q" and code: "?code \<noteq> []"
    using assms by (auto simp: complete_callback_def q Let_def split: if_splits)
  obtain op where op: "provider = Some op" "pa_provider q = name"
    using assms st code by (auto simp: complete_callback_def q Let_def split: if_splits option.splits)
  have callback: "complete_callback a env name provider r db =
      (case op_exchange op ?code (callback_url r name) of
         Inl (LookupFailed e) \<Rightarrow> (redirect_login_error env r q [] ''github_profile_failed'', db)
       | Inl (ExchangeFailed e) \<Rightarrow> (redirect_login_error env r q [] ''token_exchange_failed'', db)
       | Inr identity \<Rightarrow>
           (case resolve_identity_login (au_fault env ResolveLogin) (au_account env) identity (pa_invite q) (au_now env) db of
              (Inl e, db1) \<Rightarrow> (redirect_login_error env r q [] (login_error_code e), db1)
            | (Inr who, db1) \<Rightarrow>
                (case create_session (au_fault env CreateSession) (au_token env 32) (pr_account who) (au_now env + ac_ttl a) db1 of
                   (Inl e, db2) \<Rightarrow> (failed 500 e [], db2)
                 | (Inr token, db2) \<Rightarrow>
                     (redirect (pa_return q) [cleared_cookie r pending_cookie_name, session_cookie r token (ac_ttl a)], db2))))"
    unfolding complete_callback_def q using st code op by (simp add: Let_def)
  obtain identity where identity: "op_exchange op ?code (callback_url r name) = Inr identity"
    using assms unfolding callback by (auto split: sum.splits exchange_error.splits)
  obtain answer db1 where resolve: "resolve_identity_login (au_fault env ResolveLogin) (au_account env) identity (pa_invite q) (au_now env) db
    = (answer, db1)" by fastforce
  have unchanged: "db1 = db" if "answer = Inl e" for e
    using resolve that by (auto simp: resolve_identity_login_def Let_def split: if_splits option.splits sum.splits)
  have sessions: "ad_sessions db1 = ad_sessions db"
    using resolve
    by (auto simp: resolve_identity_login_def Let_def claim_invite_def create_principal_from_invite_def
        split: if_splits option.splits sum.splits)
  obtain who where who: "answer = Inr who"
    using assms unchanged by (cases answer) (auto simp: callback identity resolve)
  obtain made db2 where made: "create_session (au_fault env CreateSession) (au_token env 32) (pr_account who) (au_now env + ac_ttl a) db1
    = (made, db2)" by fastforce
  have "db' = db2" "rs_status resp = 302 \<longrightarrow> rs_location resp = pa_return q"
    using assms(1) by (auto simp: callback identity resolve who made failed_def redirect_def split: sum.splits)
  moreover have "\<forall>x \<in> set (ad_sessions db2) - set (ad_sessions db1). ss_account x = pr_account who"
    using made by (auto simp: create_session_def split: option.splits if_splits)
  ultimately show ?thesis using p signed st op identity resolve who sessions same by (metis fst_conv)
qed

section \<open>A complete login\<close>

text \<open>
  C14. A login ends where it was asked to end, and nowhere else: when a browser follows the redirect of the
  login page, comes back with the pending cookie and the state it was given, and the identity may log in,
  the callback sends it to the page that was asked for, whose origin is on the list, with a session cookie
  that authenticates the account of that identity until the session expires.
\<close>

theorem login_ends_where_asked:
  assumes reach: "auth_step\<^sup>*\<^sup>* empty_auth db"
    and start: "rs_status (start_login a env name (Some op) r0) = 302" "au_token env 32 = Some nonce" "\<not> blank name"
    and returns: "map_of (hr_cookies r) pending_cookie_name = Some (ck_value (hd (rs_cookies (start_login a env name (Some op) r0))))"
      "trim_space (getd [] (hr_query r) ''state'') = nonce" "nonce \<noteq> []"
      "trim_space (getd [] (hr_query r) ''code'') = code" "code \<noteq> []"
    and json: "au_unjson env' (au_json env p) = Some p"
      "p = \<lparr>pa_provider = name, pa_nonce = nonce, pa_return = au_return env (trim_space (getd [] (hr_query r0) ''return_to'')),
         pa_invite = trim_space (getd [] (hr_query r0) ''invite_token''), pa_issued = au_now env\<rparr>"
    and identity: "op_exchange op code (callback_url r name) = Inr identity"
      "fst (resolve_identity_login (au_fault env' ResolveLogin) (au_account env') identity
         (trim_space (getd [] (hr_query r0) ''invite_token'')) (au_now env') db) = Inr who"
    and token: "au_token env' 32 = Some t" "\<not> blank t" "au_fault env' CreateSession = None"
      "token_hash t \<notin> ss_hash ` set (ad_sessions db)"
  shows "\<exists>u page db'. au_parse env (trim_space (getd [] (hr_query r0) ''return_to'')) = Some u \<and>
    ur_scheme u @ ''://'' @ ur_host u \<in> set (ac_allowed a) \<and>
    page = au_return env (trim_space (getd [] (hr_query r0) ''return_to'')) \<and>
    complete_callback a env' name (Some op) r db =
      (redirect page [cleared_cookie r pending_cookie_name, session_cookie r t (ac_ttl a)], db') \<and>
    (\<forall>r' env''. map_of (hr_cookies r') session_cookie_name = Some t \<and> au_fault env'' GetSession = None \<and>
       au_now env'' < au_now env' + ac_ttl a \<longrightarrow> session_principal env'' r' db' = Inr who)"
proof -
  have ok: "auth_ok db" using auth_ok_steps [OF reach auth_ok_empty] .
  let ?asked = "trim_space (getd [] (hr_query r0) ''return_to'')"
  obtain page where page: "validated_return_to a env (getd [] (hr_query r0) ''return_to'') = Inr page"
    using start(1) by (cases "validated_return_to a env (getd [] (hr_query r0) ''return_to'')") (simp_all add: start_login_def failed_def)
  then obtain u where u: "au_parse env ?asked = Some u" "ur_scheme u @ ''://'' @ ur_host u \<in> set (ac_allowed a)" "page = au_return env ?asked"
    by (auto simp: validated_return_to_def Let_def split: option.splits if_splits)
  have p_simps: "pa_provider p = name" "pa_nonce p = nonce" "pa_return p = page"
    "pa_invite p = trim_space (getd [] (hr_query r0) ''invite_token'')" by (simp_all add: json(2) u(3))
  have "ck_value (hd (rs_cookies (start_login a env name (Some op) r0))) = sign_value (ac_secret a) (au_json env p)"
    using page start(2) by (simp add: start_login_def redirect_def signed_cookie_def json(2) u(3) Let_def)
  then have pending: "pending_auth_of a env' r = Inr p"
    using returns(1) json(1) start(3) by (simp add: pending_auth_of_def decode_sign p_simps)
  obtain db1 where resolve: "resolve_identity_login (au_fault env' ResolveLogin) (au_account env') identity (pa_invite p) (au_now env') db
    = (Inr who, db1)"
    using identity(2) unfolding p_simps by (metis prod.collapse)
  have ok1: "auth_ok db1" using auth_ok_login [OF ok] resolve by (metis snd_conv)
  obtain i where i: "i \<in> set (ad_identities db1)" "who = principal_of db1 i" using resolve_who [OF ok resolve] by blast
  have sessions: "ad_sessions db1 = ad_sessions db"
    using resolve
    by (auto simp: resolve_identity_login_def Let_def claim_invite_def create_principal_from_invite_def
        split: if_splits option.splits sum.splits)
  define db' where "db' = db1\<lparr>ad_sessions := ad_sessions db1 @
    [\<lparr>ss_account = pr_account who, ss_hash = token_hash t, ss_expires = au_now env' + ac_ttl a\<rparr>]\<rparr>"
  have acct: "pr_account who = ai_account i" by (simp add: i(2) principal_of_def)
  have created: "create_session (au_fault env' CreateSession) (au_token env' 32) (pr_account who) (au_now env' + ac_ttl a) db1 = (Inr t, db')"
    using token(1,3,4) account_of [OF ok1 i(1)] sessions by (auto simp: create_session_def db'_def acct list_ex_iff image_iff)
  have callback: "complete_callback a env' name (Some op) r db =
      (redirect page [cleared_cookie r pending_cookie_name, session_cookie r t (ac_ttl a)], db')"
    unfolding complete_callback_def pending using returns(2-5) identity(1) resolve created by (simp add: Let_def p_simps)
  have "session_principal env'' r' db' = Inr who"
    if "map_of (hr_cookies r') session_cookie_name = Some t" "au_fault env'' GetSession = None" "au_now env'' < au_now env' + ac_ttl a"
    for r' env''
  proof -
    have ok': "auth_ok db'"
      using auth_ok_step [OF do_session ok1] created by (metis snd_conv)
    have live: "live_session db' t (au_now env'') \<lparr>ss_account = pr_account who, ss_hash = token_hash t, ss_expires = au_now env' + ac_ttl a\<rparr>"
      using that(3) by (simp add: live_session_def db'_def)
    have same: "principal_of db' = principal_of db1" by (rule principal_of_session) (simp_all add: db'_def)
    have "i \<in> set (ad_identities db')" "who = principal_of db' i" using i(1) unfolding same i(2) by (simp_all add: db'_def)
    with live acct have "lookup_principal_by_session db' (token_hash t) (au_now env'') = Some who"
      unfolding lookup_session [OF ok'] by (metis session_row.select_convs(1))
    then show ?thesis
      using that(1,2) token(2) by (simp add: session_principal_def get_session_def Let_def blank_def token_hash_def)
  qed
  then show ?thesis using u callback by blast
qed

end
