(* ===== verification/Auth_Examples.thy ===== *)
theory Auth_Examples
  imports Auth_Login
begin

text \<open>An operator who is invited, logs in with GitHub and logs out again.\<close>

definition octo :: auth_identity where
  "octo = \<lparr>ai_provider = ''github'', ai_subject = ''1'', ai_login = ''octo'', ai_email = []\<rparr>"

definition page :: string where
  "page = ''https://ai-arena.pages.dev/operator''"

definition github :: identity_provider where
  "github = \<lparr>op_authorize = \<lambda>url state. ''https://github.com/login?state='' @ state, op_exchange = \<lambda>code url. Inr octo\<rparr>"

definition arena_auth :: auth_service where
  "arena_auth = \<lparr>ac_allowed = [''https://ai-arena.pages.dev''], ac_ttl = 1000, ac_secret = ''secret'', ac_github = github, ac_oidc = None\<rparr>"

definition started :: pending_auth where
  "started = \<lparr>pa_provider = ''github'', pa_nonce = ''nonce'', pa_return = page, pa_invite = ''inv'', pa_issued = 10\<rparr>"

definition auth_env_at :: "int \<Rightarrow> string \<Rightarrow> auth_env" where
  "auth_env_at now token = \<lparr>au_now = now, au_token = \<lambda>n. Some token, au_account = ''a-1'', au_fault = \<lambda>c. None,
     au_parse = \<lambda>s. if s = page then Some \<lparr>ur_scheme = ''https'', ur_host = ''ai-arena.pages.dev'', ur_path = ''/operator''\<rparr> else None,
     au_return = \<lambda>s. s, au_login = \<lambda>s h q. [], au_json = \<lambda>p. ''{}'', au_unjson = \<lambda>s. Some started\<rparr>"

definition browser :: http_request where
  "browser = \<lparr>hr_method = ''GET'', hr_path = [], hr_raw_query = [], hr_query = [], hr_headers = [], hr_cookies = [], hr_host = [], hr_tls = True\<rparr>"

definition login_request :: http_request where
  "login_request = browser\<lparr>hr_query := [(''return_to'', page), (''invite_token'', ''inv'')]\<rparr>"

definition callback_request :: http_request where
  "callback_request = browser\<lparr>hr_path := ''/auth/github/callback'', hr_query := [(''state'', ''nonce''), (''code'', ''c'')],
     hr_cookies := [(pending_cookie_name, sign_value ''secret'' ''{}'')]\<rparr>"

definition session_request :: http_request where
  "session_request = browser\<lparr>hr_cookies := [(session_cookie_name, ''tok'')]\<rparr>"

definition invited :: auth_db where
  "invited = empty_auth\<lparr>ad_invites := [\<lparr>iv_hash = token_hash ''inv'', iv_role = ''operator'', iv_expires = 50, iv_claim = None\<rparr>]\<rparr>"

definition joined :: auth_db where
  "joined = \<lparr>ad_accounts = [''a-1''],
     ad_identities = [\<lparr>ai_provider = ''github'', ai_subject = ''1'', ai_login = ''octo'', ai_email = [], ai_account = ''a-1'', ai_created = 20\<rparr>],
     ad_roles = [(''a-1'', ''operator'')], ad_sessions = [],
     ad_invites = [\<lparr>iv_hash = token_hash ''inv'', iv_role = ''operator'', iv_expires = 50, iv_claim = Some (''a-1'', 20)\<rparr>]\<rparr>"

definition logged_in :: auth_db where
  "logged_in = joined\<lparr>ad_sessions := [\<lparr>ss_account = ''a-1'', ss_hash = token_hash ''tok'', ss_expires = 1020\<rparr>]\<rparr>"

definition octo_principal :: auth_principal where
  "octo_principal = \<lparr>pr_account = ''a-1'', pr_provider = ''github'', pr_login = ''octo'', pr_email = [], pr_roles = [''operator'']\<rparr>"

lemma trims: "trim_space ''operator'' = ''operator''" "trim_space ''github'' = ''github''" "trim_space ''1'' = ''1''"
  "trim_space ''octo'' = ''octo''" "trim_space ''nonce'' = ''nonce''" "trim_space ''c'' = ''c''" "trim_space ''inv'' = ''inv''"
  "trim_space ''tok'' = ''tok''" "trim_space page = page"
  by code_simp+

lemma sample_invited: "snd (store_signup_invite None (Some ''inv'') ''operator'' 50 empty_auth) = invited"
  by (simp add: store_signup_invite_def Let_def validate_invite_role_def trims invited_def empty_auth_def)

lemma sample_joined: "resolve_identity_login None ''a-1'' octo ''inv'' 20 invited = (Inr octo_principal, joined)"
  by (simp add: resolve_identity_login_def Let_def octo_def normalized_identity_def trims lookup_principal_by_identity_def
      create_principal_from_invite_def claim_invite_def invited_def empty_auth_def joined_def octo_principal_def blank_def)

lemma sample_session: "create_session None (Some ''tok'') ''a-1'' 1020 joined = (Inr ''tok'', logged_in)"
  by (simp add: create_session_def joined_def logged_in_def)

lemma reach_invited: "auth_step\<^sup>*\<^sup>* empty_auth invited"
  using do_invite [of empty_auth None "Some ''inv''" "''operator''" 50] unfolding sample_invited by blast

lemma reach_joined: "auth_step\<^sup>*\<^sup>* empty_auth joined"
  using do_login [of invited None "''a-1''" octo "''inv''" 20] reach_invited unfolding sample_joined snd_conv
  by (rule rtranclp.rtrancl_into_rtrancl [rotated])

lemma reach_logged_in: "auth_step\<^sup>*\<^sup>* empty_auth logged_in"
  using do_session [of joined None "Some ''tok''" "''a-1''" 1020] reach_joined unfolding sample_session snd_conv
  by (rule rtranclp.rtrancl_into_rtrancl [rotated])

theorem operator_gate_exact_witness:
  "require_operator (auth_env_at 30 ''x'') session_request logged_in = None \<and>
   require_operator (auth_env_at 2000 ''x'') session_request logged_in \<noteq> None"
proof -
  have cookie: "map_of (hr_cookies session_request) session_cookie_name = Some ''tok''" "\<not> blank ''tok''"
    by (simp_all add: session_request_def browser_def blank_def trims)
  have no_fault: "au_fault (auth_env_at n ''x'') GetSession = None" for n by (simp add: auth_env_at_def)
  have "live_session logged_in ''tok'' 30 \<lparr>ss_account = ''a-1'', ss_hash = token_hash ''tok'', ss_expires = 1020\<rparr>"
    "\<not> live_session logged_in ''tok'' 2000 s" for s
    by (auto simp: live_session_def logged_in_def)
  moreover have "\<lparr>iv_hash = token_hash ''inv'', iv_role = ''operator'', iv_expires = 50, iv_claim = Some (''a-1'', 20)\<rparr> \<in> set (ad_invites logged_in)"
    by (simp add: logged_in_def joined_def)
  moreover have "au_now (auth_env_at n ''x'') = n" for n by (simp add: auth_env_at_def)
  ultimately show ?thesis
    unfolding operator_gate_exact [OF reach_logged_in no_fault] using cookie by force
qed

theorem logout_revokes_witness:
  "\<exists>resp db'. logout arena_auth (auth_env_at 30 ''x'') session_request logged_in = (resp, db') \<and> rs_status resp = 204 \<and>
     session_principal (auth_env_at 40 ''x'') session_request logged_in = Inr octo_principal \<and>
     (\<exists>e. session_principal (auth_env_at 40 ''x'') session_request db' = Inl e)"
proof -
  obtain resp db' where out: "logout arena_auth (auth_env_at 30 ''x'') session_request logged_in = (resp, db')" by fastforce
  have cookie: "map_of (hr_cookies session_request) session_cookie_name = Some ''tok''"
    by (simp add: session_request_def browser_def)
  have origin: "trim_space (getd [] (hr_headers session_request) ''Origin'') \<in> insert [] (set (ac_allowed arena_auth))"
    by (simp add: session_request_def browser_def)
  have fault: "au_fault (auth_env_at 30 ''x'') DeleteSession = None" by (simp add: auth_env_at_def)
  have "session_principal (auth_env_at 40 ''x'') session_request logged_in = Inr octo_principal"
    by (simp add: session_principal_def cookie Let_def trims get_session_def auth_env_at_def lookup_principal_by_session_def
        session_rows_def logged_in_def joined_def principal_of_def octo_principal_def load_roles_def)
  then show ?thesis using logout_revokes [OF cookie origin fault out, of session_request "auth_env_at 40 ''x''"] out cookie by blast
qed

lemma query_values:
  "getd [] (hr_query callback_request) ''state'' = ''nonce''" "getd [] (hr_query callback_request) ''code'' = ''c''"
  "getd [] (hr_query login_request) ''return_to'' = page" "getd [] (hr_query login_request) ''invite_token'' = ''inv''"
  "op_exchange github code url = Inr octo" "ac_ttl arena_auth = 1000" "ac_secret arena_auth = ''secret''"
  by (simp_all add: callback_request_def login_request_def browser_def getd_def github_def arena_auth_def)

lemma env_values:
  "au_fault (auth_env_at n tok) call = None" "au_account (auth_env_at n tok) = ''a-1''" "au_now (auth_env_at n tok) = n"
  "au_token (auth_env_at n tok) k = Some tok" "au_unjson (auth_env_at n tok) j = Some started" "au_json (auth_env_at n tok) p = ''{}''"
  "au_return (auth_env_at n tok) s = s"
  by (simp_all add: auth_env_at_def)

lemma started_values: "pa_nonce started = ''nonce''" "pa_provider started = ''github''" "pa_invite started = ''inv''" "pa_return started = page"
  by (simp_all add: started_def)

lemma sample_callback:
  "complete_callback arena_auth (auth_env_at 20 ''tok'') ''github'' (Some github) callback_request invited =
     (redirect page [cleared_cookie callback_request pending_cookie_name, session_cookie callback_request ''tok'' 1000], logged_in)"
proof -
  have "map_of (hr_cookies callback_request) pending_cookie_name = Some (sign_value (ac_secret arena_auth) ''{}'')"
    by (simp add: callback_request_def browser_def query_values)
  then have "pending_auth_of arena_auth (auth_env_at 20 ''tok'') callback_request = Inr started"
    by (simp add: pending_auth_of_def decode_sign env_values started_values blank_def trims)
  then show ?thesis
    unfolding complete_callback_def
    by (simp add: Let_def query_values trims env_values started_values sample_joined sample_session octo_principal_def)
qed

theorem callback_needs_signed_login_witness:
  "\<exists>v encoded s. map_of (hr_cookies callback_request) pending_cookie_name = Some v \<and> split_on (CHR ''.'') v = [encoded, s] \<and>
     hex_decode s = Some (hmac_sha256 ''secret'' encoded)"
proof -
  have "logged_in \<noteq> invited" by (simp add: logged_in_def joined_def invited_def empty_auth_def)
  from callback_needs_signed_login [OF sample_callback this] show ?thesis by (auto simp: arena_auth_def)
qed

theorem login_ends_where_asked_witness:
  "\<exists>db'. complete_callback arena_auth (auth_env_at 20 ''tok'') ''github'' (Some github) callback_request invited =
      (redirect page [cleared_cookie callback_request pending_cookie_name, session_cookie callback_request ''tok'' 1000], db') \<and>
     session_principal (auth_env_at 30 ''x'') session_request db' = Inr octo_principal"
proof -
  let ?start = "start_login arena_auth (auth_env_at 10 ''nonce'') ''github'' (Some github) login_request"
  have allowed: "validated_return_to arena_auth (auth_env_at 10 ''nonce'') page = Inr page"
    by (simp add: validated_return_to_def Let_def trims auth_env_at_def arena_auth_def)
  have start: "rs_status ?start = 302" "ck_value (hd (rs_cookies ?start)) = sign_value ''secret'' ''{}''"
    by (simp_all add: start_login_def query_values allowed env_values redirect_def signed_cookie_def)
  have cookie: "map_of (hr_cookies callback_request) pending_cookie_name = Some (ck_value (hd (rs_cookies ?start)))"
    by (simp add: callback_request_def browser_def start(2))
  have nonce: "au_token (auth_env_at 10 ''nonce'') 32 = Some ''nonce''" "\<not> blank ''github''" "''nonce'' \<noteq> []" "''c'' \<noteq> []" "\<not> blank ''tok''"
    by (simp_all add: env_values blank_def trims)
  have query: "trim_space (getd [] (hr_query callback_request) ''state'') = ''nonce''"
    "trim_space (getd [] (hr_query callback_request) ''code'') = ''c''"
    by (simp_all add: query_values trims)
  have json: "au_unjson (auth_env_at 20 ''tok'') (au_json (auth_env_at 10 ''nonce'') started) = Some started"
    "started = \<lparr>pa_provider = ''github'', pa_nonce = ''nonce'',
       pa_return = au_return (auth_env_at 10 ''nonce'') (trim_space (getd [] (hr_query login_request) ''return_to'')),
       pa_invite = trim_space (getd [] (hr_query login_request) ''invite_token''), pa_issued = au_now (auth_env_at 10 ''nonce'')\<rparr>"
    by (simp_all add: env_values query_values trims started_def)
  have login: "fst (resolve_identity_login (au_fault (auth_env_at 20 ''tok'') ResolveLogin) (au_account (auth_env_at 20 ''tok'')) octo
      (trim_space (getd [] (hr_query login_request) ''invite_token'')) (au_now (auth_env_at 20 ''tok'')) invited) = Inr octo_principal"
    by (simp add: env_values query_values trims sample_joined)
  have token: "au_token (auth_env_at 20 ''tok'') 32 = Some ''tok''" "au_fault (auth_env_at 20 ''tok'') CreateSession = None"
    "token_hash ''tok'' \<notin> ss_hash ` set (ad_sessions invited)"
    by (simp_all add: env_values invited_def empty_auth_def)
  have session: "map_of (hr_cookies session_request) session_cookie_name = Some ''tok''" "au_fault (auth_env_at 30 ''x'') GetSession = None"
    "au_now (auth_env_at 30 ''x'') < au_now (auth_env_at 20 ''tok'') + ac_ttl arena_auth"
    by (simp_all add: session_request_def browser_def env_values query_values)
  from login_ends_where_asked [OF reach_invited start(1) nonce(1,2) cookie query(1) nonce(3) query(2) nonce(4) json query_values(5) login
      token(1) nonce(5) token(2,3)] session
  obtain page' db' where "page' = au_return (auth_env_at 10 ''nonce'') (trim_space (getd [] (hr_query login_request) ''return_to''))"
    "complete_callback arena_auth (auth_env_at 20 ''tok'') ''github'' (Some github) callback_request invited =
      (redirect page' [cleared_cookie callback_request pending_cookie_name, session_cookie callback_request ''tok'' (ac_ttl arena_auth)], db')"
    "session_principal (auth_env_at 30 ''x'') session_request db' = Inr octo_principal"
    by blast
  moreover have "page' = page" using calculation(1) by (simp add: env_values query_values trims)
  ultimately show ?thesis by (auto simp: query_values)
qed

end
