(* ===== verification/Http_Examples.thy ===== *)
theory Http_Examples
  imports Http_Spec Auth_Examples General_Examples Requests_Examples Persist_Examples
begin

text \<open>Requests to the operator API: a login, a member who retires a bot and asks for more.\<close>

definition site_api :: "(unit, unit) operator_api" where
  "site_api = \<lparr>oa_auth = Some arena_auth, oa_commands = lenient_commands, oa_general = upload_env, oa_with_bots = True,
     oa_rankings = None, oa_reader = \<lambda>l. ReadMissing, oa_locators = plain_env, oa_admits_games = False, oa_version = ''v1'',
     oa_ready = None\<rparr>"

definition no_body :: request_body where
  "no_body = \<lparr>bd_invite = None, bd_game = None, bd_ai = None, bd_match = None, bd_bot = None, bd_upload = UploadMalformed, bd_form = []\<rparr>"

definition api_env_at :: "int \<Rightarrow> string \<Rightarrow> api_env" where
  "api_env_at now token = \<lparr>ae_auth = auth_env_at now token, ae_ids = first_ids, ae_ai = ''2'', ae_bot = ''2'', ae_lower = \<lambda>s. s,
     ae_duration = \<lambda>s. None, ae_invite_url = \<lambda>s. s\<rparr>"

definition member :: auth_db where
  "member = logged_in\<lparr>ad_roles := [(''a-1'', ''participant'')]\<rparr>"

definition member_bots :: bot_store where
  "member_bots = snd (create_or_revise (\<lambda>s. s) ''1'' ''1'' 0 ((sample_bot_request ''rock'')\<lparr>vr_owner := ''a-1''\<rparr>) new_bot_store)"

definition site_of :: "auth_db \<Rightarrow> unit site" where
  "site_of db = \<lparr>si_auth = db, si_arena = arena solo_game () member_bots\<rparr>"

definition retire_request :: http_request where
  "retire_request = session_request\<lparr>hr_method := ''POST'', hr_path := ''/api/v1/bots/bot-1/retire''\<rparr>"

definition detail_request :: http_request where
  "detail_request = session_request\<lparr>hr_path := ''/api/v1/runs/r-1''\<rparr>"

lemma paths:
  "clean_path ''/api/v1/bots/bot-1/retire'' = ''/api/v1/bots/bot-1/retire''"
  "path_segments ''/api/v1/bots/bot-1/retire'' = [''api'', ''v1'', ''bots'', ''bot-1'', ''retire'']"
  "clean_path ''/api/v1/runs/r-1'' = ''/api/v1/runs/r-1''"
  "path_segments ''/api/v1/runs/r-1'' = [''api'', ''v1'', ''runs'', ''r-1'']"
  "clean_path ''/auth/github/callback'' = ''/auth/github/callback''"
  "path_segments ''/auth/github/callback'' = [''auth'', ''github'', ''callback'']"
  by code_simp+

lemma request_values:
  "hr_method retire_request = ''POST''" "hr_path retire_request = ''/api/v1/bots/bot-1/retire''"
  "hr_method detail_request = ''GET''" "hr_path detail_request = ''/api/v1/runs/r-1''"
  "hr_method callback_request = ''GET''" "hr_path callback_request = ''/auth/github/callback''"
  "routed_path retire_request = hr_path retire_request" "routed_path detail_request = hr_path detail_request"
  "routed_path callback_request = hr_path callback_request"
  by (simp_all add: retire_request_def detail_request_def callback_request_def session_request_def browser_def routed_path_def paths)

lemma site_values:
  "oa_auth site_api = Some arena_auth" "oa_with_bots site_api" "ae_auth (api_env_at n tok) = auth_env_at n tok"
  "si_auth (site_of db) = db" "si_arena (site_of db) = arena solo_game () member_bots" "site_bots (site_of db) = member_bots"
  "as_bots (sv_rest (arena g x bots)) = bots"
  by (simp_all add: site_api_def api_env_at_def site_of_def arena_def)

definition member_principal :: auth_principal where
  "member_principal = octo_principal\<lparr>pr_roles := [''participant'']\<rparr>"

lemma member_session: "session_principal (auth_env_at 40 ''x'') retire_request member = Inr member_principal"
    "session_principal (auth_env_at 40 ''x'') detail_request member = Inr member_principal"
  by (simp_all add: session_principal_def retire_request_def detail_request_def session_request_def browser_def Let_def trims
      get_session_def auth_env_at_def lookup_principal_by_session_def session_rows_def member_def logged_in_def joined_def
      principal_of_def octo_principal_def member_principal_def load_roles_def)

lemma bot_trims: "trim_space ''bot-1'' = ''bot-1''" "trim_space ''a-1'' = ''a-1''"
  by code_simp+

lemma member_bots_ok: "bot_store_ok (\<lambda>_. 1) member_bots"
  unfolding member_bots_def
  by (rule create_or_revise_inv [OF bot_store_ok_new]) (simp_all add: sample_bot_request_def new_bot_store_def)

lemma member_bots_values:
  "map fst (bs_bots member_bots) = [''bot-1'']"
  "map_option (\<lambda>b. (ob_owner b, ob_bot b, ob_state b)) (map_of (bs_bots member_bots) ''bot-1'') = Some (''a-1'', ''bot-1'', BotActive)"
  by code_simp+

lemma member_bot: obtains b where "map_of (bs_bots member_bots) ''bot-1'' = Some b" "ob_owner b = ''a-1''" "ob_bot b = ''bot-1''" "ob_state b = BotActive"
  using member_bots_values(2) by auto

theorem requests_keep_accounts_witness:
  "\<exists>db. db = si_auth (handle_all site_api [(api_env_at 20 ''tok'', callback_request, no_body)] (site_of invited)) \<and>
     load_roles db ''a-1'' = [''operator'']"
proof -
  let ?rs = "[(api_env_at 20 ''tok'', callback_request, no_body)]"
  have route: "find_route (open_routes True) ''GET'' [''auth'', ''github'', ''callback''] = Found ToGitHubCallback"
    by (simp add: find_route_def open_routes_def segments_match_def method_matches_def)
  have github: "ac_github arena_auth = github" by (simp add: arena_auth_def)
  have db: "si_auth (handle_all site_api ?rs (site_of invited)) = logged_in"
    by (simp add: handle_all_def handle_request_def serve_def redirect_path_def Let_def dispatch_def serve_open_def request_values site_values
        paths route on_auth_def serve_auth_def github sample_callback)
  then have "''a-1'' \<in> set (ad_accounts (si_auth (handle_all site_api ?rs (site_of invited))))"
    by (simp add: logged_in_def joined_def)
  from requests_keep_accounts [OF _ refl this] reach_invited site_values(4)
  obtain v where "v \<in> set (ad_invites logged_in)" "load_roles logged_in ''a-1'' = [iv_role v]" unfolding db by auto
  then show ?thesis unfolding db by (simp add: logged_in_def joined_def)
qed

text \<open>A member asks for a run; the same with a doubled slash is redirected.\<close>

definition sloppy_request :: http_request where
  "sloppy_request = detail_request\<lparr>hr_path := ''/api//v1/runs/r-1'', hr_raw_query := ''a=b''\<rparr>"

lemma sloppy_values:
  "redirect_path detail_request = None" "redirect_path sloppy_request = Some ''/api/v1/runs/r-1''"
  "path_segments (routed_path sloppy_request) = [''api'', ''v1'', ''runs'', ''r-1'']"
  "path_segments (routed_path detail_request) = [''api'', ''v1'', ''runs'', ''r-1'']"
  "mux_redirect sloppy_request ''/api/v1/runs/r-1'' =
     \<lparr>rs_status = 307, rs_location = ''/api/v1/runs/r-1?a=b'', rs_cookies = [], rs_body = Empty\<rparr>"
  by code_simp+

theorem subtree_closed_witness:
  "handle_request site_api (api_env_at 40 ''x'') detail_request no_body (site_of member) =
    ((\<lparr>rs_status = 403, rs_location = [], rs_cookies = [], rs_body = ErrorAnswer (AuthRefused OperatorRoleNeeded)\<rparr>, []), site_of member) \<and>
   handle_request site_api (api_env_at 40 ''x'') sloppy_request no_body (site_of member) =
    ((\<lparr>rs_status = 307, rs_location = ''/api/v1/runs/r-1?a=b'', rs_cookies = [], rs_body = Empty\<rparr>, []), site_of member)"
proof -
  have cors: "cors_headers detail_request = []" "cors_headers sloppy_request = []"
    by (simp_all add: cors_headers_def sloppy_request_def detail_request_def session_request_def browser_def getd_def)
  have sloppy: "session_principal (auth_env_at 40 ''x'') sloppy_request member = Inr member_principal"
    "hr_method sloppy_request = ''GET''"
    using member_session(2) request_values(3) by (simp_all add: session_principal_def sloppy_request_def)
  note closed = subtree_closed [where refusal = "(403, OperatorRoleNeeded)" and env = "api_env_at 40 ''x''"
      and s = "site_of member", OF site_values(1)]
  show ?thesis
    using closed [of detail_request no_body] closed [of sloppy_request no_body]
    by (simp add: sloppy_values request_values paths sloppy site_values member_session member_principal_def octo_principal_def
        has_role_def cors)
qed

theorem retire_statuses_witness:
  "\<exists>resp headers s'. handle_request site_api (api_env_at 40 ''x'') retire_request no_body (site_of member) = ((resp, headers), s') \<and>
     rs_status resp = 200"
proof -
  obtain resp headers s' where out: "handle_request site_api (api_env_at 40 ''x'') retire_request no_body (site_of member) =
      ((resp, headers), s')" by (metis prod.exhaust)
  obtain b where b: "map_of (bs_bots member_bots) ''bot-1'' = Some b" "ob_owner b = ''a-1''" using member_bot by blast
  have "pr_account member_principal = ''a-1''" by (simp add: member_principal_def octo_principal_def)
  moreover have "path_segments (hr_path retire_request) = [''api'', ''v1'', ''bots'', ''bot-1'', ''retire'']"
    by (simp add: request_values paths)
  ultimately show ?thesis
    using retire_statuses [OF site_values(1,2) request_values(1,7), of "''bot-1''" "api_env_at 40 ''x''" "site_of member" member_principal no_body]
    by (simp add: site_values member_session bot_trims b out)
qed

theorem arena_changes_gated_witness:
  "\<exists>resp s' bots. handle_request site_api (api_env_at 40 ''x'') retire_request no_body (site_of member) = (resp, s') \<and>
     s' \<noteq> site_of member \<and> s' = (site_of member)\<lparr>si_arena := (arena solo_game () member_bots)\<lparr>sv_rest :=
       (sv_rest (arena solo_game () member_bots))\<lparr>as_bots := bots\<rparr>\<rparr>\<rparr>"
proof -
  let ?env = "api_env_at 40 ''x''"
  obtain resp s' where out: "handle_request site_api ?env retire_request no_body (site_of member) = (resp, s')" by fastforce
  obtain b where b: "map_of (bs_bots member_bots) ''bot-1'' = Some b" "ob_owner b = ''a-1''" "ob_bot b = ''bot-1''" "ob_state b = BotActive"
    using member_bot by blast
  have route: "find_route (open_routes True) ''POST'' [''api'', ''v1'', ''bots'', ''bot-1'', ''retire''] = Found ToBotRetire"
    by (simp add: find_route_def open_routes_def segments_match_def method_matches_def)
  have login: "require_authenticated (auth_env_at 40 ''x'') retire_request member = None"
    by (simp add: require_authenticated_def member_session)
  have "s' = snd (on_bots (retire ''a-1'' ''bot-1'') (site_of member))"
    using out
    by (simp add: handle_request_def serve_def redirect_path_def Let_def dispatch_def serve_open_def request_values site_values paths route gate_def login
        path_value_def answers_def handle_bot_retire_def member_session member_principal_def octo_principal_def split: prod.splits sum.splits)
  then have "site_bots s' = snd (retire ''a-1'' ''bot-1'' member_bots)" by (simp add: on_bots_arena site_values)
  then have "map_of (bs_bots (site_bots s')) ''bot-1'' = Some (b\<lparr>ob_state := BotRetired\<rparr>)"
    using b by (simp add: retire_def bot_trims Let_def)
  moreover have "b\<lparr>ob_state := BotRetired\<rparr> \<noteq> b" using b(4) by (auto dest: arg_cong [of _ _ ob_state])
  ultimately have changed: "si_arena s' \<noteq> si_arena (site_of member)" using b(1) by (auto simp: site_values)
  have op: "require_operator (ae_auth ?env) retire_request (si_auth (site_of member)) \<noteq> None"
    by (simp add: require_operator_def site_values member_session member_principal_def has_role_def)
  have ok: "bot_store_ok (\<lambda>_. 1) (site_bots (site_of member))" using member_bots_ok by (simp add: site_values)
  have fresh: "''bot-'' @ ae_bot ?env \<notin> fst ` set (bs_bots (site_bots (site_of member)))"
    using member_bots_values(1) unfolding site_values by (simp add: api_env_at_def flip: set_map)
  note gated = arena_changes_gated [OF site_values(1) out changed ok fresh]
  obtain bots where "s' = (site_of member)\<lparr>si_arena := (si_arena (site_of member))\<lparr>sv_rest :=
      (sv_rest (si_arena (site_of member)))\<lparr>as_bots := bots\<rparr>\<rparr>\<rparr>"
    using gated op by blast
  then have "s' = (site_of member)\<lparr>si_arena := (arena solo_game () member_bots)\<lparr>sv_rest :=
      (sv_rest (arena solo_game () member_bots))\<lparr>as_bots := bots\<rparr>\<rparr>\<rparr>" by (simp only: site_values(5))
  moreover have "s' \<noteq> site_of member" using changed by blast
  ultimately show ?thesis using out by blast
qed

end
