(* ===== verification/Spec2Isabelle.thy ===== *)
theory Spec2Isabelle
  imports Protocol Janken_Matches Echo_Restore Match_Examples Ranking_Verify Service_Examples Bots_Spec Bundle_Spec
    Registry_Defaults Requests_Examples General_Examples Public_Examples Persist_Examples Http_Examples
begin

text \<open>
  A model of AI Arena, the platform that runs matches between AI players, with the theorems
  that make it correct. The Go code is under \<open>src/\<close>; every definition below is translated from it.

  The program has two halves. The match half is a game master per game (\<open>internal/games/janken\<close>,
  \<open>internal/games/echo\<close>) behind one interface (\<open>internal/platform/game\<close>), player sessions that
  speak a line-based JSON-RPC protocol (\<open>gamemaster/protocol.go\<close>,
  \<open>internal/platform/session\<close>), a runner that asks the game master for steps, the players for
  actions and writes an event log (\<open>internal/platform/match\<close>), and a replay that rebuilds
  snapshots from such a log (\<open>internal/platform/replay\<close>). The service half queues match runs,
  executes them with a worker, stores their artifacts, decides which run of a match is official,
  keeps rankings, admits games and bots as uploaded bundles, and answers the operator API and the
  public pages (\<open>internal/platform/service\<close>, \<open>internal/platform/registry\<close>, \<open>artifactbundle\<close>,
  \<open>internal/platform/artifacts\<close>).

  Which theory holds what:

  \<^item> \<open>Prelude\<close>: Go maps as association lists with \<open>put\<close>, results as sums, wrap-around of 64-bit
    integers, \<open>strings.TrimSpace\<close>. \<open>Ordering\<close>: \<open>sort.Slice\<close> as an insertion sort, its locale of
    weak orders, competition places. \<open>Json\<close>: JSON values and the decoding of structs with
    \<open>encoding/json\<close>'s rules. \<open>Sha256\<close> and \<open>Paths\<close>: the two standard-library functions whose
    values matter (\<open>crypto/sha256\<close>, \<open>path/filepath\<close>).
  \<^item> \<open>Contract\<close>, \<open>Protocol\<close>: the types of \<open>gamemaster/types.go\<close> with their validation and wire
    form, and the messages of \<open>gamemaster/protocol.go\<close>.
  \<^item> \<open>Janken\<close>, \<open>Echo\<close>: the two games, their state as the records \<open>master\<close>, one definition per
    method. \<open>Janken_Props\<close>, \<open>Janken_Game\<close>, \<open>Janken_Restore\<close>, \<open>Echo_Game\<close>, \<open>Echo_Restore\<close>: rules,
    books, placements, length of a match, restoring snapshots.
  \<^item> \<open>GameMaster\<close>: the interface \<open>game.Master\<close> as a record of operations, the locale
    \<open>game_master\<close> with the laws the runner relies on, and the in-process session of
    \<open>internal/platform/gamemaster/gamemaster.go\<close>. Both games interpret the locale.
  \<^item> \<open>Session\<close>: \<open>Session.call\<close> as a loop over the events of the runtime (a line, a timer, the end
    of the context). \<open>Match\<close>: the runner as functions on the record \<open>runner\<close>, over an environment
    of game master and players. \<open>Match_Log\<close>: the shape of every event log. \<open>Match_Host\<close>: the runner
    hosting any game of the locale. \<open>Replay\<close>: replaying logs. \<open>Janken_Matches\<close>: the two
    together for janken.
  \<^item> \<open>Lifecycle\<close>, \<open>Queue\<close>: submissions, lifecycle states and the in-memory queue store
    (\<open>types.go\<close>, \<open>store_memory.go\<close>), with the relation \<open>queue_step\<close> of everything its callers can
    do. \<open>Queue_Props\<close>, \<open>Queue_Spec\<close>: its invariant, the abstract lifecycle it refines, claims,
    leases and recovery.
  \<^item> \<open>Worker\<close>: the interface \<open>QueueStore\<close> as a record of operations, \<open>ProcessNext\<close>, the heartbeat
    and the polling loop. \<open>Worker_Props\<close>: the locale \<open>queue_contract\<close>, what a worker relies on, and
    what \<open>ProcessNext\<close> does under it. \<open>Worker_Spec\<close>: the in-memory store satisfies the contract.
    \<open>Worker_Drain\<close>: the loop empties the queue. \<open>Commands\<close>, \<open>Service_Spec\<close>: submission,
    cancellation, retry, rerun and promotion; a service with one worker keeps at most one
    official run per match.
  \<^item> \<open>Artifacts\<close>: layout and result summary. \<open>Ranking\<close>, \<open>Ranking_Service\<close>: rankings and their
    service and local store (\<open>ranking.go\<close>). \<open>Ranking_Props\<close>, \<open>Ranking_Facts\<close>, \<open>Ranking_Verify\<close>:
    a ranking is the tally of its official results, and what verification compares.
  \<^item> \<open>Wasm\<close>, \<open>Bundle\<close>: uploaded bundles (\<open>artifactbundle/bundle.go\<close>, \<open>artifact_bundle_store.go\<close>), with
    the parser of WebAssembly imports. \<open>Wasm_Spec\<close>, \<open>Wasm_Imports\<close>, \<open>Bundle_Spec\<close>: what the parser
    accepts, and that what runs is what was checked.
  \<^item> \<open>Registry\<close>, \<open>Registry_Defaults\<close>: metadata, the layered registry and the built-in games
    (\<open>internal/platform/catalog\<close>, \<open>internal/platform/registry\<close>). \<open>Registry_Spec\<close>: which release is served.
  \<^item> \<open>Bots\<close>, \<open>General\<close>, \<open>Admission\<close>, \<open>Requests\<close>: bots and their revisions, registered games and AIs, the
    validation of submissions and the requests for matches (\<open>bot_ownership.go\<close>, \<open>general.go\<close>,
    \<open>admission.go\<close>, \<open>artifact_admission.go\<close>, \<open>request.go\<close>). \<open>Bots_Spec\<close>, \<open>General_Spec\<close>,
    \<open>Requests_Spec\<close>: quotas and history of bots, consistent registrations, requests that are all or
    nothing and play the selected bots.
  \<^item> \<open>Wire\<close>: the JSON documents of records, events and summaries, both ways. \<open>Locators\<close>, over
    \<open>Path_Facts\<close>: the names of artifacts and their readers. \<open>Persist\<close>: both persisters of a finished
    run (\<open>worker_local.go\<close>, \<open>worker_s3.go\<close>). \<open>Query\<close>: the operator's view of runs and the verification
    of replay inputs (\<open>query.go\<close>, \<open>replay_inputs.go\<close>). \<open>Persist_Spec\<close>: what is persisted is read
    back and verifies.
  \<^item> \<open>Public\<close>, \<open>Public_Spec\<close>: the public pages (\<open>public_state.go\<close>, the decoding of queries in
    \<open>public_http.go\<close>): which run of a match is shown, the pages of the list, bounds of a query, replays.
  \<^item> \<open>Encoding\<close>, \<open>Auth\<close>: the encodings behind signed cookies, the auth store as lists of rows with its
    transactions (\<open>auth_postgres.go\<close>), sessions, role gates and the login flow (\<open>auth.go\<close>,
    \<open>auth_github.go\<close>, \<open>auth_oidc.go\<close>). \<open>Auth_Spec\<close>, \<open>Auth_Login\<close>: the tables reached by its
    operations, who passes the operator gate, what a callback needs and where a login ends.
  \<^item> \<open>Http\<close>, \<open>Http_Spec\<close>: the operator API (\<open>http.go\<close>): \<open>handle_request\<close> routes a request as
    \<open>net/http\<close> does (with the 307 redirects of its multiplexer, whose locations are written out), passes
    the gates and runs the handler over one state, the record \<open>site\<close> of the auth tables and the arena. Every answer is well formed, the arena changes only behind the gates, and the
    auth tables stay among the reachable ones.
  \<^item> The theories \<open>*_Examples\<close>: concrete matches, services and requests at which the theorems apply.

  Conventions. Go \<open>int\<close> is a 64-bit integer; where code adds to a value that comes from outside
  the wrap-around is written out (\<open>wrap64\<close>), counters that start at zero and are incremented
  once per event are plain \<open>int\<close>. Strings are sequences of bytes. An \<open>error\<close> result is a sum or an
  option. Code that is concurrent in the program (the heartbeat goroutine, other users of the
  queue, players that answer at any time) acts on the world \<open>'w\<close> between two calls; what it may
  do is a hypothesis of the theorems. A loop that need not end takes fuel, and \<open>None\<close> is running
  out of it: six rounds are enough for a janken match (\<open>janken_match_completes\<close>), and the worker
  loop, which has no end, is described by what holds after \<open>n\<close> passes.

  Ids, random tokens, clocks, Unicode case mapping, ZIP archives, URLs, files, objects, identity
  providers and the WASM engine are arguments of the definitions that use them; an error of any of them
  is a value that the argument may return.

  Not modelled: the PostgreSQL stores except the auth store and the S3 client, which are statements and
  calls sent to another system and have modelled in-memory counterparts with the same interface; the
  runtimes of players and the session of an external game master, which are processes and pipes (their
  protocol and its failures are modelled as events); the public handlers around the modelled read models;
  the command-line programs, which wire these parts together; aliases of types; test programs and
  generated code. The decoded body of an HTTP request is part of the request.
\<close>

end
